(* ===== verification/Prelude.thy ===== *)
theory Prelude
  imports Main "HOL-Library.Word"
begin

text \<open>
  Shared vocabulary of the development: the machine types of the C code, the outcomes of a
  C function that may not return normally, the control flow of a handler that is written as
  a row of \<open>if (state == X) { ... return; }\<close> sections, byte arrays with \<open>memcpy\<close>, and the
  few functions of the C library that work on strings and numbers.
\<close>

unbundle bit_operations_syntax

named_theorems array_simps \<comment> \<open>reads and writes of the fixed-size byte arrays\<close>

section \<open>Machine types\<close>

text \<open>
  \<open>unsigned char\<close>, \<open>unsigned int\<close> and \<open>unsigned long\<close> (LP64) wrap around, so they are words.
  A C \<open>int\<close> or \<open>time_t\<close> is an \<open>int\<close>; where a wider value is converted to \<open>int\<close>, \<open>c_int\<close>
  keeps its low 32 bits as two's complement.
\<close>

type_synonym byte = "8 word"
type_synonym u16 = "16 word"
type_synonym u32 = "32 word"
type_synonym u64 = "64 word"

definition c_int :: "int \<Rightarrow> int" where
  "c_int x = sint (word_of_int x :: u32)"

definition c_long :: "int \<Rightarrow> int" where
  "c_long x = sint (word_of_int x :: u64)"

text \<open>Division and remainder of C round towards zero.\<close>

definition c_quot :: "int \<Rightarrow> int \<Rightarrow> int" where
  "c_quot a b = sgn a * sgn b * (\<bar>a\<bar> div \<bar>b\<bar>)"

definition c_rem :: "int \<Rightarrow> int \<Rightarrow> int" where
  "c_rem a b = a - b * c_quot a b"

text \<open>Exclusive or cancels.\<close>

lemma xor_cancel_left [simp]: "a XOR b = a XOR c \<longleftrightarrow> b = c" for a b c :: "'a::len word"
proof
  assume "a XOR b = a XOR c"
  then have "a XOR (a XOR b) = a XOR (a XOR c)" by (rule arg_cong)
  then show "b = c" by (simp add: xor.assoc [symmetric])
qed simp

lemma xor_cancel_right [simp]: "b XOR a = c XOR a \<longleftrightarrow> b = c" for a b c :: "'a::len word"
  by (simp only: xor.commute [of _ a] xor_cancel_left)

lemma xor_eq_0 [simp]: "a XOR b = 0 \<longleftrightarrow> a = b" for a b :: "'a::len word"
  using xor_cancel_left [of a b a] by auto

text \<open>Conversions between widths, bit by bit.\<close>

lemma bit_ucast: "bit (ucast w :: 'b::len word) i \<longleftrightarrow> i < LENGTH('b) \<and> bit w i"
  for w :: "'a::len word"
  by (simp add: bit_unsigned_iff)

lemma ucast_xor: "(ucast (a XOR b) :: 'b::len word) = ucast a XOR ucast b" for a b :: "'a::len word"
  by (rule bit_word_eqI) (simp add: bit_ucast bit_xor_iff)

lemma ucast_push_bit_down:
  fixes w :: "'a::len word"
  assumes "LENGTH('b) \<le> LENGTH('a)"
  shows "(ucast (push_bit k w) :: 'b::len word) = push_bit k (ucast w)"
proof (rule bit_word_eqI)
  fix i assume "i < LENGTH('b)"
  with assms show "bit (ucast (push_bit k w) :: 'b word) i = bit (push_bit k (ucast w) :: 'b word) i"
    by (auto simp: bit_ucast bit_push_bit_iff)
qed

lemma ucast_ucast_down:
  fixes w :: "'a::len word"
  assumes "LENGTH('c) \<le> LENGTH('b)"
  shows "(ucast (ucast w :: 'b::len word) :: 'c::len word) = ucast w"
proof (rule bit_word_eqI)
  fix i assume "i < LENGTH('c)"
  with assms show "bit (ucast (ucast w :: 'b word) :: 'c word) i = bit (ucast w :: 'c word) i"
    by (auto simp: bit_ucast)
qed

lemma unat_ucast_up:
  fixes w :: "'a::len word"
  assumes "LENGTH('a) \<le> LENGTH('b)"
  shows "unat (ucast w :: 'b::len word) = unat w"
proof -
  have "unat w < 2 ^ LENGTH('a)" by (rule unsigned_less)
  also have "(2 :: nat) ^ LENGTH('a) \<le> 2 ^ LENGTH('b)" using assms by simp
  finally show ?thesis by (simp add: unsigned_ucast_eq take_bit_nat_eq_self)
qed

text \<open>The masks the code writes as hexadecimal constants.\<close>

lemma bit_mask8: "bit (0xFF :: int) i \<longleftrightarrow> i < 8"
proof -
  have "(0xFF :: int) = mask 8" by (simp add: mask_eq_exp_minus_1)
  then show ?thesis by (simp only: bit_mask_iff possible_bit_int simp_thms)
qed

lemma bit_mask16: "bit (0xFFFF :: int) i \<longleftrightarrow> i < 16"
proof -
  have "(0xFFFF :: int) = mask 16" by (simp add: mask_eq_exp_minus_1)
  then show ?thesis by (simp only: bit_mask_iff possible_bit_int simp_thms)
qed

text \<open>A property of all bytes can be checked on the list of them.\<close>

lemma all_bytes:
  assumes "list_all (\<lambda>i. P (of_nat i)) [0..<256]"
  shows "P (b :: byte)"
proof -
  have "unat b < 256" using unsigned_less [of b, where 'a = nat] by simp
  with assms have "P (of_nat (unat b))" by (auto simp only: list_all_iff set_upt atLeastLessThan_iff)
  then show ?thesis by simp
qed

section \<open>Outcomes and control flow\<close>

text \<open>
  A C function either returns or stops the program: a failed \<open>assert\<close>, a call of \<open>abort()\<close>,
  a use of a null pointer or of freed memory, an access outside an array, a read of a variable that was
  never set, a division by zero, or a loop that never ends. These are the values of \<open>fault\<close>, and a function that
  may stop the program returns \<open>fault + 'a\<close>.
\<close>

datatype fault =
    Assert_failed
  | Abort_called
  | Null_pointer
  | Use_after_free
  | Buffer_overflow
  | Block_overflow
  | Uninitialised
  | Diverges
  | Division_by_zero

text \<open>
  The handlers of the protocols are sequences of sections. A section either returns from the
  whole handler (\<open>Return\<close>) or lets control fall through to the section after it (\<open>Next\<close>).
\<close>

datatype 's ctl = Return 's | Next 's

fun ctl_state :: "'s ctl \<Rightarrow> 's" where
  "ctl_state (Return s) = s"
| "ctl_state (Next s) = s"

fun seq_ctl :: "fault + 's ctl \<Rightarrow> ('s \<Rightarrow> fault + 's ctl) \<Rightarrow> fault + 's ctl" where
  "seq_ctl (Inr (Next s)) f = f s"
| "seq_ctl (Inr (Return s)) f = Inr (Return s)"
| "seq_ctl (Inl e) f = Inl e"

fun bind_res :: "fault + 'a \<Rightarrow> ('a \<Rightarrow> fault + 'b) \<Rightarrow> fault + 'b" where
  "bind_res (Inr x) f = f x"
| "bind_res (Inl e) f = Inl e"

fun finish :: "fault + 's ctl \<Rightarrow> fault + 's" where
  "finish (Inr c) = Inr (ctl_state c)"
| "finish (Inl e) = Inl e"

lemma seq_ctl_Inr:
  "seq_ctl m f = Inr c \<longleftrightarrow>
     (\<exists>s. m = Inr (Return s) \<and> c = Return s) \<or> (\<exists>s. m = Inr (Next s) \<and> f s = Inr c)"
  by (cases "(m, f)" rule: seq_ctl.cases) auto

lemma seq_ctl_Inl:
  "seq_ctl m f = Inl e \<longleftrightarrow> m = Inl e \<or> (\<exists>s. m = Inr (Next s) \<and> f s = Inl e)"
  by (cases "(m, f)" rule: seq_ctl.cases) auto

lemma bind_res_Inr: "bind_res m f = Inr y \<longleftrightarrow> (\<exists>x. m = Inr x \<and> f x = Inr y)"
  by (cases m) auto

lemma bind_res_Inl: "bind_res m f = Inl e \<longleftrightarrow> m = Inl e \<or> (\<exists>x. m = Inr x \<and> f x = Inl e)"
  by (cases m) auto

lemma finish_Inr: "finish m = Inr s \<longleftrightarrow> (\<exists>c. m = Inr c \<and> s = ctl_state c)"
  by (cases m) auto

lemma finish_Inl: "finish m = Inl e \<longleftrightarrow> m = Inl e"
  by (cases m) auto

text \<open>
  Every result a computation can have satisfies \<open>P\<close>: how invariants are stated for
  operations that may stop the program.
\<close>

fun all_res :: "('a \<Rightarrow> bool) \<Rightarrow> fault + 'a \<Rightarrow> bool" where
  "all_res P (Inr x) = P x"
| "all_res P (Inl e) = True"

fun all_ctl :: "('s \<Rightarrow> bool) \<Rightarrow> fault + 's ctl \<Rightarrow> bool" where
  "all_ctl P (Inr c) = P (ctl_state c)"
| "all_ctl P (Inl e) = True"

lemma all_ctl_seq [intro]:
  "all_ctl P m \<Longrightarrow> (\<And>s. P s \<Longrightarrow> all_ctl P (f s)) \<Longrightarrow> all_ctl P (seq_ctl m f)"
  by (cases "(m, f)" rule: seq_ctl.cases) auto

lemma all_res_bind [intro]:
  "all_res P m \<Longrightarrow> (\<And>x. P x \<Longrightarrow> all_res Q (f x)) \<Longrightarrow> all_res Q (bind_res m f)"
  by (cases m) auto

lemma all_ctl_bind [intro]:
  "all_res P m \<Longrightarrow> (\<And>x. P x \<Longrightarrow> all_ctl Q (f x)) \<Longrightarrow> all_ctl Q (bind_res m f)"
  by (cases m) auto

lemma all_res_finish: "all_ctl P m \<Longrightarrow> all_res P (finish m)"
  by (cases m) auto

text \<open>
  The stronger reading: the computation returns, and its result satisfies \<open>P\<close>. The rules for
  sequencing compute the weakest precondition of a computation from its end to its start.
\<close>

fun total_res :: "('a \<Rightarrow> bool) \<Rightarrow> fault + 'a \<Rightarrow> bool" where
  "total_res P (Inr x) = P x"
| "total_res P (Inl e) = False"

fun total_ctl :: "('s \<Rightarrow> bool) \<Rightarrow> fault + 's ctl \<Rightarrow> bool" where
  "total_ctl P (Inr c) = P (ctl_state c)"
| "total_ctl P (Inl e) = False"

lemma total_res_iff: "total_res P m \<longleftrightarrow> (\<exists>x. m = Inr x \<and> P x)"
  by (cases m) auto

lemma total_res_bind [simp]: "total_res P (bind_res m f) = total_res (\<lambda>x. total_res P (f x)) m"
  by (cases m) auto

lemma total_res_mono: "total_res P m \<Longrightarrow> (\<And>x. P x \<Longrightarrow> Q x) \<Longrightarrow> total_res Q m"
  by (cases m) auto

lemma total_ctl_mono: "total_ctl P m \<Longrightarrow> (\<And>x. P x \<Longrightarrow> Q x) \<Longrightarrow> total_ctl Q m"
  by (cases m) auto

lemma total_res_finish [simp]: "total_res P (finish m) = total_ctl P m"
  by (cases m) auto

lemma total_ctl_seq:
  "total_ctl P m \<Longrightarrow> (\<And>s. P s \<Longrightarrow> total_ctl P (f s)) \<Longrightarrow> total_ctl P (seq_ctl m f)"
  by (cases "(m, f)" rule: seq_ctl.cases) auto

lemma total_ctl_bind [simp]:
  "total_ctl P (bind_res m f) = total_res (\<lambda>x. total_ctl P (f x)) m"
  by (cases m) auto

text \<open>
  \<open>for (i = 0; i < n; i++) { ... }\<close> for a body that does not look at \<open>i\<close>: a body without
  \<open>return\<close>, and a body that may return from the function.
\<close>

fun repeat_res :: "nat \<Rightarrow> ('s \<Rightarrow> fault + 's) \<Rightarrow> 's \<Rightarrow> fault + 's" where
  "repeat_res 0 f s = Inr s"
| "repeat_res (Suc n) f s = bind_res (f s) (repeat_res n f)"

fun repeat_ctl :: "nat \<Rightarrow> ('s \<Rightarrow> fault + 's ctl) \<Rightarrow> 's \<Rightarrow> fault + 's ctl" where
  "repeat_ctl 0 f s = Inr (Next s)"
| "repeat_ctl (Suc n) f s = seq_ctl (f s) (repeat_ctl n f)"

lemma total_repeat_res:
  "P s \<Longrightarrow> (\<And>s. P s \<Longrightarrow> total_res P (f s)) \<Longrightarrow> total_res P (repeat_res n f s)"
  by (induction n arbitrary: s) (auto intro: total_res_mono)

lemma total_repeat_ctl:
  "P s \<Longrightarrow> (\<And>s. P s \<Longrightarrow> total_ctl P (f s)) \<Longrightarrow> total_ctl P (repeat_ctl n f s)"
  by (induction n arbitrary: s) (auto intro: total_ctl_seq)

section \<open>Byte arrays\<close>

text \<open>\<open>memcpy(dst + i, src, n)\<close> with \<open>n\<close> the length of \<open>src\<close>; the caller checks the bounds.\<close>

definition blit :: "nat \<Rightarrow> 'a list \<Rightarrow> 'a list \<Rightarrow> 'a list" where
  "blit i src dst = take i dst @ src @ drop (i + length src) dst"

text \<open>The \<open>n\<close> bytes of \<open>a\<close> that start at index \<open>i\<close>.\<close>

definition slice :: "nat \<Rightarrow> nat \<Rightarrow> 'a list \<Rightarrow> 'a list" where
  "slice i n a = take n (drop i a)"

lemma length_blit [simp]: "i + length src \<le> length dst \<Longrightarrow> length (blit i src dst) = length dst"
  by (simp add: blit_def)

lemma blit_Nil [simp]: "i \<le> length dst \<Longrightarrow> blit i [] dst = dst"
  by (simp add: blit_def)

lemma nth_blit [array_simps]:
  "i + length src \<le> length dst \<Longrightarrow> j < length dst \<Longrightarrow>
    blit i src dst ! j = (if j < i then dst ! j
                          else if j < i + length src then src ! (j - i) else dst ! j)"
  by (auto simp: blit_def nth_append min_def)

lemma take_blit_end: "i \<le> length dst \<Longrightarrow> take (i + length src) (blit i src dst) = take i dst @ src"
  by (simp add: blit_def)

lemma blit_append:
  "i + length xs + length ys \<le> length dst \<Longrightarrow>
    blit (i + length xs) ys (blit i xs dst) = blit i (xs @ ys) dst"
  by (simp add: blit_def add.assoc take_add [symmetric] add.commute [of "length ys"])

lemma length_slice [simp]: "length (slice i n a) = min n (length a - i)"
  by (simp add: slice_def)

lemma slice_blit_self [array_simps]:
  "i \<le> length dst \<Longrightarrow> n \<le> length src \<Longrightarrow> slice i n (blit i src dst) = take n src"
  by (simp add: slice_def blit_def)

lemma slice_update_out [array_simps]:
  "j < i \<or> i + n \<le> j \<Longrightarrow> slice i n (a[j := x]) = slice i n a"
  by (rule nth_equalityI) (auto simp: slice_def nth_list_update)

lemma slice_blit_out [array_simps]:
  "j + length src \<le> i \<or> i + n \<le> j \<Longrightarrow> j + length src \<le> length a \<Longrightarrow>
    slice i n (blit j src a) = slice i n a"
  by (rule nth_equalityI) (auto simp: slice_def nth_blit)

section \<open>Strings and numbers of the C library\<close>

text \<open>A C string is the bytes before its terminator; \<open>ascii\<close> gives the bytes of a literal.\<close>

type_synonym cstring = "byte list"

definition ascii :: "string \<Rightarrow> cstring" where
  "ascii s = map (\<lambda>c. of_nat (of_char c)) s"

definition c_str :: "byte list \<Rightarrow> cstring" where
  "c_str buf = takeWhile (\<lambda>b. b \<noteq> 0) buf"

text \<open>\<open>snprintf\<close> with \<open>%lu\<close> (base 10) and \<open>%lo\<close> (base 8) on an \<open>unsigned long\<close>.\<close>

fun digits_of :: "nat \<Rightarrow> nat \<Rightarrow> byte list" where
  "digits_of b n =
     (if n < b \<or> b < 2 then [of_nat (48 + n)]
      else digits_of b (n div b) @ [of_nat (48 + n mod b)])"

declare digits_of.simps [simp del]

definition is_space :: "byte \<Rightarrow> bool" where
  "is_space b \<longleftrightarrow> b = 32 \<or> (9 \<le> b \<and> b \<le> 13)"

definition is_digit :: "nat \<Rightarrow> byte \<Rightarrow> bool" where
  "is_digit base b \<longleftrightarrow> 48 \<le> unat b \<and> unat b < 48 + base"

text \<open>The value of the digits at the front of a string, and the digits themselves.\<close>

definition number_of :: "nat \<Rightarrow> byte list \<Rightarrow> nat" where
  "number_of base ds = foldl (\<lambda>n d. base * n + (unat d - 48)) 0 ds"

definition scan_sign :: "cstring \<Rightarrow> bool \<times> cstring" where
  "scan_sign s =
     (case dropWhile is_space s of
        [] \<Rightarrow> (False, [])
      | c # cs \<Rightarrow> if c = 45 then (True, cs) else if c = 43 then (False, cs) else (False, c # cs))"

text \<open>\<open>atol\<close>: white space, a sign, decimal digits; the value saturates at the bounds of \<open>long\<close>.\<close>

definition atol :: "cstring \<Rightarrow> int" where
  "atol s =
     (let (neg, ds) = scan_sign s;
          n = int (number_of 10 (takeWhile (is_digit 10) ds))
      in max (- (2 ^ 63)) (min (2 ^ 63 - 1) (if neg then - n else n)))"

text \<open>
  \<open>sscanf(s, "%lo", &t)\<close>: \<open>None\<close> when no octal digit follows the white space and the sign, so
  that \<open>t\<close> keeps its value; the number is an \<open>unsigned long\<close> stored through a \<open>long\<close> pointer.
\<close>

definition scan_octal :: "cstring \<Rightarrow> int option" where
  "scan_octal s =
     (let (neg, ds) = scan_sign s; od = takeWhile (is_digit 8) ds; n = int (number_of 8 od)
      in if od = [] then None
         else if 2 ^ 64 \<le> n then Some (-1)
         else Some (c_long (if neg then - n else n)))"

lemma digits_of_nonempty [simp]: "digits_of b n \<noteq> []"
  by (subst digits_of.simps) simp

lemma number_of_append: "number_of b (xs @ [d]) = b * number_of b xs + (unat d - 48)"
  by (simp add: number_of_def)

lemma digit_word: "k < 10 \<Longrightarrow> unat (of_nat (48 + k) :: byte) = 48 + k"
  unfolding unat_of_nat by simp

lemma length_digits_of:
  assumes "2 \<le> b"
  shows "n < b ^ k \<Longrightarrow> 0 < k \<Longrightarrow> length (digits_of b n) \<le> k"
proof (induction k arbitrary: n)
  case 0
  then show ?case by simp
next
  case (Suc k)
  show ?case
  proof (cases "n < b")
    case True
    then show ?thesis by (subst digits_of.simps) simp
  next
    case False
    then have "0 < k" using Suc.prems by (cases k) auto
    moreover have "n div b < b ^ k"
      using Suc.prems(1) assms by (simp add: less_mult_imp_div_less mult.commute)
    ultimately have "length (digits_of b (n div b)) \<le> k" using Suc.IH by blast
    with False assms show ?thesis by (subst digits_of.simps) simp
  qed
qed

lemma number_of_digits_of:
  assumes "2 \<le> b" "b \<le> 10"
  shows "number_of b (digits_of b n) = n"
proof (induction n rule: less_induct)
  case (less n)
  show ?case
  proof (cases "n < b")
    case True
    then show ?thesis
      using assms digit_word [of n] by (subst digits_of.simps) (simp add: number_of_def)
  next
    case False
    have d: "unat (of_nat (48 + n mod b) :: byte) = 48 + n mod b"
      using assms mod_less_divisor [of b n] by (intro digit_word) linarith
    from False assms have "n div b < n" by simp
    then have "number_of b (digits_of b (n div b)) = n div b" by (rule less.IH)
    then have "number_of b (digits_of b (n div b) @ [of_nat (48 + n mod b)]) = n"
      using d by (simp only: number_of_append diff_add_inverse mult_div_mod_eq)
    with False assms show ?thesis by (subst digits_of.simps) simp
  qed
qed

lemma digits_of_digits:
  assumes "2 \<le> b" "b \<le> 10"
  shows "list_all (is_digit b) (digits_of b n)"
proof (induction n rule: less_induct)
  case (less n)
  have d: "k < b \<Longrightarrow> is_digit b (of_nat (48 + k))" for k
    using assms digit_word [of k] by (simp add: is_digit_def)
  show ?case
  proof (cases "n < b")
    case True
    then show ?thesis using d [of n] by (subst digits_of.simps) simp
  next
    case False
    with assms have "list_all (is_digit b) (digits_of b (n div b))" by (intro less.IH) simp
    with False assms d [of "n mod b"] show ?thesis by (subst digits_of.simps) simp
  qed
qed

end
