(* ===== verification/Stdio.thy ===== *)
theory Stdio
  imports Prelude
begin

text \<open>
  The part of \<open>stdio\<close> the transfer protocols use: a regular file opened for reading or
  writing, with its position, its end-of-file and error indicators, and the file system it
  is opened from and closed to. The environment decides which paths can be created, which
  devices fail to read and how much room is left to write; nothing is assumed about it.
\<close>

section \<open>Files and the file system\<close>

type_synonym path = cstring

record cfile =
  f_name :: path
  f_data :: "byte list"
  f_pos :: nat
  f_eof :: bool                 \<comment> \<open>\<open>feof\<close>\<close>
  f_err :: bool                 \<comment> \<open>\<open>ferror\<close>\<close>
  f_bad :: bool                 \<comment> \<open>the device fails every read\<close>
  f_room :: "nat option"        \<comment> \<open>bytes that can still be written; None: no limit\<close>

record fsys =
  disk :: "path \<rightharpoonup> byte list"
  mtimes :: "path \<rightharpoonup> int"
  modes :: "path \<rightharpoonup> u32"     \<comment> \<open>permissions that were set\<close>
  writable :: "path \<Rightarrow> bool"     \<comment> \<open>\<open>fopen(path, "w+b")\<close> succeeds\<close>
  stat_refused :: "path \<Rightarrow> bool" \<comment> \<open>\<open>stat\<close> of a path with no file fails, but not with ENOENT\<close>
  dev_bad :: "path \<Rightarrow> bool"
  dev_room :: "nat option"

definition opened :: "path \<Rightarrow> byte list \<Rightarrow> fsys \<Rightarrow> cfile" where
  "opened p d fs =
     \<lparr>f_name = p, f_data = d, f_pos = 0, f_eof = False, f_err = False,
      f_bad = dev_bad fs p, f_room = dev_room fs\<rparr>"

text \<open>\<open>fopen(path, "rb")\<close> and \<open>fopen(path, "w+b")\<close>; the latter truncates the file.\<close>

definition fopen_rb :: "path \<Rightarrow> fsys \<Rightarrow> cfile option" where
  "fopen_rb p fs = map_option (\<lambda>d. opened p d fs) (disk fs p)"

definition fopen_wb :: "path \<Rightarrow> fsys \<Rightarrow> cfile option" where
  "fopen_wb p fs = (if writable fs p then Some (opened p [] fs) else None)"

text \<open>\<open>fopen(path, "r+b")\<close>: the file must exist; it is not truncated.\<close>

definition fopen_rplus :: "path \<Rightarrow> fsys \<Rightarrow> cfile option" where
  "fopen_rplus p fs = (if writable fs p then map_option (\<lambda>d. opened p d fs) (disk fs p) else None)"

definition created :: "path \<Rightarrow> fsys \<Rightarrow> fsys" where
  "created p fs = fs\<lparr>disk := (disk fs)(p \<mapsto> [])\<rparr>"

definition fclose :: "cfile \<Rightarrow> fsys \<Rightarrow> fsys" where
  "fclose f fs = fs\<lparr>disk := (disk fs)(f_name f \<mapsto> f_data f)\<rparr>"

definition unlink :: "path \<Rightarrow> fsys \<Rightarrow> fsys" where
  "unlink p fs = fs\<lparr>disk := (disk fs)(p := None)\<rparr>"

definition stat_size :: "path \<Rightarrow> fsys \<Rightarrow> int option" where
  "stat_size p fs = map_option (\<lambda>d. int (length d)) (disk fs p)"

definition utime :: "path \<Rightarrow> int \<Rightarrow> fsys \<Rightarrow> fsys" where
  "utime p t fs = fs\<lparr>mtimes := (mtimes fs)(p \<mapsto> t)\<rparr>"

text \<open>\<open>fchmod(fileno(f), m)\<close>.\<close>

definition fchmod :: "cfile \<Rightarrow> u32 \<Rightarrow> fsys \<Rightarrow> fsys" where
  "fchmod f m fs = fs\<lparr>modes := (modes fs)(f_name f \<mapsto> m)\<rparr>"

section \<open>Reading, writing, positioning\<close>

text \<open>
  \<open>fread(buf, 1, n, f)\<close>: the bytes read and the file after it. The end-of-file indicator is
  set exactly when fewer bytes than asked for were left.
\<close>

definition fread :: "nat \<Rightarrow> cfile \<Rightarrow> byte list \<times> cfile" where
  "fread n f =
     (if f_bad f then ([], f\<lparr>f_err := True\<rparr>)
      else let got = slice (f_pos f) n (f_data f)
           in (got, f\<lparr>f_pos := f_pos f + length got,
                      f_eof := (f_eof f \<or> length got < n)\<rparr>))"

text \<open>
  \<open>fwrite(buf, 1, n, f)\<close> with \<open>n\<close> the length of \<open>bs\<close>: the count written and the file. A gap
  between the end of the file and the position reads as zeros.
\<close>

definition fwrite :: "byte list \<Rightarrow> cfile \<Rightarrow> nat \<times> cfile" where
  "fwrite bs f =
     (let m = (case f_room f of None \<Rightarrow> length bs | Some r \<Rightarrow> min r (length bs));
          padded = f_data f @ replicate (f_pos f - length (f_data f)) 0
      in (m, f\<lparr>f_data := take (f_pos f) padded @ take m bs @ drop (f_pos f + m) padded,
               f_pos := f_pos f + m,
               f_err := (f_err f \<or> m < length bs),
               f_room := map_option (\<lambda>r. r - m) (f_room f)\<rparr>))"

text \<open>\<open>fseek(f, off, SEEK_END)\<close>: fails, with the file unchanged, before the first byte.\<close>

definition fseek_end :: "int \<Rightarrow> cfile \<Rightarrow> bool \<times> cfile" where
  "fseek_end off f =
     (let p = int (length (f_data f)) + off
      in if p < 0 then (False, f) else (True, f\<lparr>f_pos := nat p, f_eof := False\<rparr>))"

text \<open>\<open>fseek(f, off, SEEK_SET)\<close>.\<close>

definition fseek_set :: "int \<Rightarrow> cfile \<Rightarrow> cfile" where
  "fseek_set off f = (if off < 0 then f else f\<lparr>f_pos := nat off, f_eof := False\<rparr>)"

text \<open>\<open>ftruncate(fileno(f), len)\<close>: fails on a negative length; does not move the position.\<close>

definition ftruncate :: "int \<Rightarrow> cfile \<Rightarrow> cfile" where
  "ftruncate len f =
     (if len < 0 then f
      else f\<lparr>f_data := take (nat len) (f_data f) @ replicate (nat len - length (f_data f)) 0\<rparr>)"

lemma fread_frame [simp]:
  "f_name (snd (fread n f)) = f_name f" "f_data (snd (fread n f)) = f_data f"
  "f_room (snd (fread n f)) = f_room f" "f_bad (snd (fread n f)) = f_bad f"
  by (auto simp: fread_def Let_def)

lemma fseek_set_frame [simp]:
  "f_name (fseek_set n f) = f_name f" "f_data (fseek_set n f) = f_data f"
  "f_room (fseek_set n f) = f_room f" "f_bad (fseek_set n f) = f_bad f"
  by (simp_all add: fseek_set_def)

lemma length_fread: "length (fst (fread n f)) \<le> n"
  by (auto simp: fread_def Let_def slice_def)

lemma fread_more:
  "\<not> f_bad f \<Longrightarrow> f_pos f + n \<le> length (f_data f) \<Longrightarrow> f_eof f = False \<Longrightarrow>
    fread n f = (slice (f_pos f) n (f_data f), f\<lparr>f_pos := f_pos f + n\<rparr>)"
  by (cases f) (simp add: fread_def Let_def slice_def)

lemma fread_last:
  "\<not> f_bad f \<Longrightarrow> f_pos f \<le> length (f_data f) \<Longrightarrow> length (f_data f) < f_pos f + n \<Longrightarrow>
    fread n f =
      (drop (f_pos f) (f_data f), f\<lparr>f_pos := length (f_data f), f_eof := True\<rparr>)"
  by (cases f) (auto simp: fread_def Let_def slice_def)

text \<open>Writing at the end of a file on a device with room appends.\<close>

lemma fwrite_append:
  "f_room f = None \<Longrightarrow> f_pos f = length (f_data f) \<Longrightarrow>
    fwrite bs f =
      (length bs, f\<lparr>f_data := f_data f @ bs, f_pos := length (f_data f) + length bs\<rparr>)"
  by (cases f) (simp add: fwrite_def Let_def)

lemma fwrite_name [simp]: "f_name (snd (fwrite bs f)) = f_name f"
  by (simp add: fwrite_def Let_def)

lemma fwrite_short:
  "fst (fwrite bs f) < length bs \<longleftrightarrow> (\<exists>r. f_room f = Some r \<and> r < length bs)"
  by (auto simp: fwrite_def Let_def split: option.splits)

lemma ftruncate_shrink:
  "n \<le> length (f_data f) \<Longrightarrow> ftruncate (int n) f = f\<lparr>f_data := take n (f_data f)\<rparr>"
  by (simp add: ftruncate_def)

lemma ftruncate_frame [simp]:
  "f_name (ftruncate n f) = f_name f" "f_pos (ftruncate n f) = f_pos f"
  "f_bad (ftruncate n f) = f_bad f"
  by (simp_all add: ftruncate_def)

section \<open>Paths\<close>

text \<open>\<open>basename\<close> and \<open>dirname\<close> of \<open>libgen.h\<close> (47 is the slash, 46 the dot).\<close>

definition strip_slashes :: "path \<Rightarrow> path" where
  "strip_slashes p = rev (dropWhile (\<lambda>b. b = 47) (rev p))"

definition basename :: "path \<Rightarrow> path" where
  "basename p =
     (if p = [] then [46]
      else if strip_slashes p = [] then [47]
      else rev (takeWhile (\<lambda>b. b \<noteq> 47) (rev (strip_slashes p))))"

definition dirname :: "path \<Rightarrow> path" where
  "dirname p =
     (let q = strip_slashes p; d = rev (dropWhile (\<lambda>b. b \<noteq> 47) (rev q))
      in if p = [] then [46]
         else if q = [] then [47]
         else if 47 \<notin> set q then [46]
         else if strip_slashes d = [] then [47] else strip_slashes d)"

lemma basename_no_slash: "p \<noteq> [] \<Longrightarrow> strip_slashes p \<noteq> [] \<Longrightarrow> 47 \<notin> set (basename p)"
  by (auto simp: basename_def dest: set_takeWhileD)

text \<open>A file system that holds one file, for examples.\<close>

definition disk_with :: "path \<Rightarrow> byte list \<Rightarrow> fsys" where
  "disk_with p d =
     \<lparr>disk = [p \<mapsto> d], mtimes = (\<lambda>_. None), modes = (\<lambda>_. None), writable = (\<lambda>_. True),
      stat_refused = (\<lambda>_. False), dev_bad = (\<lambda>_. False), dev_room = None\<rparr>"

lemma disk_with_fields [simp]:
  "disk (disk_with p d) = [p \<mapsto> d]" "writable (disk_with p d) = (\<lambda>_. True)"
  "stat_refused (disk_with p d) = (\<lambda>_. False)" "dev_bad (disk_with p d) = (\<lambda>_. False)" "dev_room (disk_with p d) = None"
  by (simp_all add: disk_with_def)

end
