(* ===== verification/Transfer_World.thy ===== *)
theory Transfer_World
  imports Stdio
begin

text \<open>
  The state the file transfer protocols of \<open>qodem/source\<close> share and the operations on it that
  more than one of them uses: the statistics behind the transfer dialog
  (\<open>struct q_transfer_stats_struct\<close>), the static variables of \<open>xmodem.c\<close> and of the ASCII
  transfer of \<open>protocols.c\<close>, and the way a transfer ends (\<open>stop_file_transfer\<close> and the
  \<open>..._stop\<close> functions it dispatches to). C keeps all of this in global variables; here they
  are the fields of one record \<open>xfer\<close> that every operation takes and returns. The input and
  output buffers of a handler are fields too: \<open>inp\<close> is \<open>input[0 .. *input_n)\<close> and \<open>outp\<close> is
  \<open>output[0 .. *output_n)\<close>, so \<open>*input_n = 0\<close> empties the one and \<open>output[0] = c;
  *output_n = 1\<close> makes the other \<open>[c]\<close>. The clock is read through \<open>now\<close>, constant during one
  call of a handler. Screen updates, sounds, modal error dialogs and the log are not modelled.
\<close>

section \<open>Control characters (codepage.h)\<close>

definition C_SOH :: byte where [simp]: "C_SOH = 0x01"
definition C_STX :: byte where [simp]: "C_STX = 0x02"
definition C_EOT :: byte where [simp]: "C_EOT = 0x04"
definition C_ACK :: byte where [simp]: "C_ACK = 0x06"
definition C_LF :: byte where [simp]: "C_LF = 0x0A"
definition C_CR :: byte where [simp]: "C_CR = 0x0D"
definition C_NAK :: byte where [simp]: "C_NAK = 0x15"
definition C_CAN :: byte where [simp]: "C_CAN = 0x18"
definition C_SUB :: byte where [simp]: "C_SUB = 0x1A"

section \<open>Transfer statistics (protocols.h)\<close>

datatype q_protocol =
    Q_PROTOCOL_ASCII
  | Q_PROTOCOL_KERMIT
  | Q_PROTOCOL_XMODEM
  | Q_PROTOCOL_XMODEM_CRC
  | Q_PROTOCOL_XMODEM_RELAXED
  | Q_PROTOCOL_XMODEM_1K
  | Q_PROTOCOL_YMODEM
  | Q_PROTOCOL_ZMODEM
  | Q_PROTOCOL_XMODEM_1K_G
  | Q_PROTOCOL_YMODEM_G

datatype q_transfer_state =
    Q_TRANSFER_STATE_INIT
  | Q_TRANSFER_STATE_FILE_INFO
  | Q_TRANSFER_STATE_TRANSFER
  | Q_TRANSFER_STATE_FILE_DONE
  | Q_TRANSFER_STATE_ABORT
  | Q_TRANSFER_STATE_END

text \<open>A message of the dialog: a fixed text, or a format with one block number.\<close>

datatype msg = Msg string | MsgN string u32

record tstats =
  ts_state :: q_transfer_state
  ts_protocol :: q_protocol
  ts_protocol_name :: "string option"
  ts_filename :: "path option"
  ts_pathname :: "path option"
  ts_last_message :: "msg option"
  ts_bytes_total :: u64
  ts_bytes_transfer :: u64
  ts_blocks :: u64
  ts_block_size :: u64
  ts_blocks_transfer :: u64
  ts_error_count :: u64
  ts_batch_bytes_total :: u64
  ts_batch_bytes_transfer :: u64
  ts_batch_start_time :: int
  ts_file_start_time :: int
  ts_end_time :: int

record file_info =
  fi_name :: "path option"      \<comment> \<open>None ends the list\<close>
  fi_size :: int                \<comment> \<open>\<open>fstats.st_size\<close>\<close>
  fi_mtime :: int               \<comment> \<open>\<open>fstats.st_mtime\<close>\<close>
  fi_mode :: u32                \<comment> \<open>\<open>fstats.st_mode\<close>\<close>

section \<open>ASCII transfer state (protocols.c)\<close>

datatype ascii_xfer_state = ASCII_XFER_STATE_OK | ASCII_XFER_STATE_ABORT

datatype crlf_policy = ASCII_XFER_CRLF_NONE | ASCII_XFER_CRLF_STRIP | ASCII_XFER_CRLF_ADD

record ascii_xfer =
  ax_state :: ascii_xfer_state
  ax_file :: "cfile option"
  ax_filename :: "path option"
  ax_sending :: bool
  ax_upload_use_xlate_table :: bool
  ax_download_use_xlate_table :: bool
  ax_upload_cr_handling :: crlf_policy
  ax_upload_lf_handling :: crlf_policy
  ax_download_cr_handling :: crlf_policy
  ax_download_lf_handling :: crlf_policy

section \<open>Xmodem and Ymodem state (xmodem.h, xmodem.c)\<close>

datatype xmodem_flavor = X_NORMAL | X_CRC | X_RELAXED | X_1K | X_1K_G | Y_NORMAL | Y_G

datatype xstate =
    INIT
  | PURGE_INPUT
  | FIRST_BLOCK
  | BLOCK
  | LAST_BLOCK
  | EOT_ACK
  | COMPLETE
  | ABORT
  | YMODEM_BLOCK0
  | YMODEM_BLOCK0_ACK1
  | YMODEM_BLOCK0_ACK2

definition XMODEM_MAX_BLOCK_SIZE :: nat where [simp]: "XMODEM_MAX_BLOCK_SIZE = 1024 + 5"

text \<open>The size of the output buffer the main loop of \<open>qodem.c\<close> passes to a handler (qodem.h).\<close>

definition Q_BUFFER_SIZE :: int where [simp]: "Q_BUFFER_SIZE = 4096"

record xfer =
  fsys :: fsys
  now :: int
  q_download_location :: "path option"
  batch_upload_file_list :: "file_info list option"
  stats :: tstats
  ascii_st :: ascii_xfer
  filename :: "path option"
  file_p :: "cfile option"        \<comment> \<open>\<open>static FILE * file\<close>; None is NULL\<close>
  current_block :: "byte list"
  current_block_n :: nat
  current_block_sequence_i :: byte
  current_block_number :: u32
  first_byte :: byte
  sending :: bool
  state :: xstate
  prior_state :: xstate
  timeout_begin :: int
  timeout_max :: u32
  timeout_count :: u32
  flavor :: xmodem_flavor
  upload_file_list :: "file_info list"
  upload_file_list_i :: nat
  download_path :: "path option"
  download_file_modtime :: int
  block0_has_been_seen :: bool
  inp :: "byte list"
  outp :: "byte list"

section \<open>Setters of the statistics (protocols.c)\<close>

definition set_transfer_stats_protocol_name :: "string \<Rightarrow> xfer \<Rightarrow> xfer" where
  "set_transfer_stats_protocol_name n s = s\<lparr>stats := (stats s)\<lparr>ts_protocol_name := Some n\<rparr>\<rparr>"

definition set_transfer_stats_filename :: "path \<Rightarrow> xfer \<Rightarrow> xfer" where
  "set_transfer_stats_filename n s = s\<lparr>stats := (stats s)\<lparr>ts_filename := Some n\<rparr>\<rparr>"

definition set_transfer_stats_pathname :: "path option \<Rightarrow> xfer \<Rightarrow> xfer" where
  "set_transfer_stats_pathname n s = s\<lparr>stats := (stats s)\<lparr>ts_pathname := n\<rparr>\<rparr>"

definition set_transfer_stats_last_message :: "msg \<Rightarrow> xfer \<Rightarrow> xfer" where
  "set_transfer_stats_last_message m s = s\<lparr>stats := (stats s)\<lparr>ts_last_message := Some m\<rparr>\<rparr>"

section \<open>Ending a transfer\<close>

text \<open>\<open>ascii_transfer_stop\<close> of \<open>protocols.c\<close>.\<close>

definition ascii_transfer_stop :: "bool \<Rightarrow> xfer \<Rightarrow> xfer" where
  "ascii_transfer_stop save_partial s =
     (let a = ascii_st s;
          fs = (case ax_file a of
                  None \<Rightarrow> fsys s
                | Some f \<Rightarrow>
                    if save_partial \<or> ax_sending a then fclose f (fsys s)
                    else (case ax_filename a of
                            None \<Rightarrow> fclose f (fsys s)
                          | Some p \<Rightarrow> unlink p (fclose f (fsys s))))
      in s\<lparr>fsys := fs, ascii_st := a\<lparr>ax_file := None, ax_filename := None\<rparr>\<rparr>)"

text \<open>
  \<open>xmodem_stop\<close> and \<open>ymodem_stop\<close> of \<open>xmodem.c\<close>. A failed \<open>unlink\<close> only shows a dialog.
\<close>

definition xmodem_stop :: "bool \<Rightarrow> xfer \<Rightarrow> xfer" where
  "xmodem_stop save_partial s =
     (let fs = (case file_p s of
                  None \<Rightarrow> fsys s
                | Some f \<Rightarrow>
                    if save_partial \<or> sending s then fclose f (fsys s)
                    else (case filename s of
                            None \<Rightarrow> fclose f (fsys s)
                          | Some p \<Rightarrow> unlink p (fclose f (fsys s))))
      in s\<lparr>fsys := fs, file_p := None, filename := None\<rparr>)"

definition ymodem_stop :: "bool \<Rightarrow> xfer \<Rightarrow> xfer" where
  "ymodem_stop save_partial s = (xmodem_stop save_partial s)\<lparr>download_path := None\<rparr>"

text \<open>
  \<open>stop_file_transfer\<close> of \<open>protocols.c\<close>. The static variables of \<open>kermit.c\<close> and \<open>zmodem.c\<close> are
  not fields of the record, so their \<open>..._stop\<close> functions leave it as it is. What follows the
  freeing of the lists in the code is logging and a repaint.
\<close>

definition stop_file_transfer :: "q_transfer_state \<Rightarrow> xfer \<Rightarrow> xfer" where
  "stop_file_transfer new_state s =
     (let s1 = (case ts_protocol (stats s) of
                  Q_PROTOCOL_ASCII \<Rightarrow> ascii_transfer_stop True s
                | Q_PROTOCOL_KERMIT \<Rightarrow> s
                | Q_PROTOCOL_XMODEM \<Rightarrow> xmodem_stop True s
                | Q_PROTOCOL_XMODEM_CRC \<Rightarrow> xmodem_stop True s
                | Q_PROTOCOL_XMODEM_RELAXED \<Rightarrow> xmodem_stop True s
                | Q_PROTOCOL_XMODEM_1K \<Rightarrow> xmodem_stop True s
                | Q_PROTOCOL_XMODEM_1K_G \<Rightarrow> xmodem_stop True s
                | Q_PROTOCOL_YMODEM \<Rightarrow> ymodem_stop True s
                | Q_PROTOCOL_YMODEM_G \<Rightarrow> ymodem_stop True s
                | Q_PROTOCOL_ZMODEM \<Rightarrow> s)
      in s1\<lparr>stats := (stats s1)\<lparr>ts_state := new_state, ts_end_time := now s1\<rparr>,
            batch_upload_file_list := None,
            q_download_location := None\<rparr>)"

end
