(* ===== verification/Xmodem_Base.thy ===== *)
theory Xmodem_Base
  imports Transfer_World
begin

text \<open>
  The helpers at the head of \<open>xmodem.c\<close>: the block buffer, the timers, the statistics of a
  running transfer, and opening the next file of a Ymodem batch.
\<close>

section \<open>Block buffer and timers\<close>

definition clear_block :: "xfer \<Rightarrow> xfer" where
  "clear_block s =
     s\<lparr>current_block := replicate XMODEM_MAX_BLOCK_SIZE 0, current_block_n := 0\<rparr>"

definition reset_timer :: "xfer \<Rightarrow> xfer" where
  "reset_timer s = s\<lparr>timeout_begin := now s\<rparr>"

definition timeout_length :: int where [simp]: "timeout_length = 10"

definition errors_max :: u64 where [simp]: "errors_max = 15"

text \<open>
  \<open>check_timeout\<close>: whether a timeout has occurred, and the state after it. The tenth timeout
  (\<open>timeout_max\<close>) aborts the transfer; a receiver then sends a CAN.
\<close>

definition check_timeout :: "xfer \<Rightarrow> bool \<times> xfer" where
  "check_timeout s =
     (if sending s \<and> now s - timeout_begin s < 2 * timeout_length then (False, s)
      else if timeout_length \<le> now s - timeout_begin s then
        (let s1 = s\<lparr>timeout_count := timeout_count s + 1,
                    stats := (stats s)\<lparr>ts_error_count := ts_error_count (stats s) + 1\<rparr>\<rparr>
         in (True, reset_timer
              (if timeout_max s1 \<le> timeout_count s1 then
                 (let s2 = set_transfer_stats_last_message
                             (Msg ''TOO MANY TIMEOUTS, TRANSFER CANCELLED'') s1;
                      s3 = (if sending s2 then s2 else s2\<lparr>outp := [C_CAN]\<rparr>)
                  in (stop_file_transfer Q_TRANSFER_STATE_ABORT s3)\<lparr>state := ABORT\<rparr>)
               else
                 (set_transfer_stats_last_message (Msg ''TIMEOUT'') s1)
                   \<lparr>prior_state := state s1, state := PURGE_INPUT\<rparr>)))
      else (False, s))"

section \<open>Statistics\<close>

definition is_ymodem :: "xmodem_flavor \<Rightarrow> bool" where
  "is_ymodem f \<longleftrightarrow> f = Y_NORMAL \<or> f = Y_G"

text \<open>
  \<open>stats_increment_blocks(input)\<close>: \<open>first\<close> is \<open>input[0]\<close>, which only the receiver looks at.
  The size of the block in bytes is 1024 or 128; the receiver of a Ymodem file never counts
  past the size that block 0 announced, and a change of block size recomputes the number of
  blocks from the bytes left (a C \<open>int\<close>).
\<close>

definition stats_add_block :: "byte \<Rightarrow> xfer \<Rightarrow> xfer \<times> int" where
  "stats_add_block first s =
     (let t = stats s;
          plain_recv = (\<not> sending s \<and> flavor s \<noteq> Y_NORMAL \<and> flavor s \<noteq> Y_G);
          t1 = (if plain_recv then t\<lparr>ts_blocks := ts_blocks t + 1\<rparr> else t);
          t2 = t1\<lparr>ts_blocks_transfer := ts_blocks_transfer t1 + 1\<rparr>
      in if (flavor s = X_1K \<or> flavor s = X_1K_G \<or> flavor s = Y_NORMAL \<or> flavor s = Y_G)
            \<and> first = C_STX \<and> \<not> sending s then
           (let t3 = t2\<lparr>ts_bytes_transfer := ts_bytes_transfer t2 + 1024\<rparr>
            in (s\<lparr>stats := (if plain_recv
                            then t3\<lparr>ts_bytes_total := ts_bytes_total t3 + 1024\<rparr> else t3)\<rparr>, 1024))
         else if 1024 \<le> current_block_n s \<and> sending s then
           (s\<lparr>stats := t2\<lparr>ts_bytes_transfer := ts_bytes_transfer t2 + 1024\<rparr>\<rparr>, 1024)
         else
           (let t3 = t2\<lparr>ts_bytes_transfer := ts_bytes_transfer t2 + 128\<rparr>
            in (s\<lparr>stats := (if plain_recv
                            then t3\<lparr>ts_bytes_total := ts_bytes_total t3 + 128\<rparr> else t3)\<rparr>, 128)))"

definition stats_resize_blocks :: "int \<Rightarrow> int \<Rightarrow> xfer \<Rightarrow> xfer" where
  "stats_resize_blocks old_size new_size s =
     (let t = stats s;
          bytes_left = c_int (uint (ts_bytes_total t - ts_bytes_transfer t))
      in if new_size \<noteq> old_size
            \<and> (sending s \<or> flavor s = Y_NORMAL \<or> flavor s = Y_G) \<and> 0 < bytes_left then
           s\<lparr>stats := t\<lparr>ts_blocks := word_of_int (c_quot bytes_left new_size)
                                    + (if 0 < c_rem bytes_left new_size then 1 else 0)
                                    + ts_blocks_transfer t,
                        ts_block_size := word_of_int new_size\<rparr>\<rparr>
         else s)"

definition stats_increment_blocks :: "byte \<Rightarrow> xfer \<Rightarrow> xfer" where
  "stats_increment_blocks first s =
     (let old_size = c_int (uint (ts_block_size (stats s)));
          (s1, new_size) = stats_add_block first s;
          t = stats s1
      in if \<not> sending s1 \<and> (flavor s1 = Y_NORMAL \<or> flavor s1 = Y_G)
            \<and> ts_bytes_total t < ts_bytes_transfer t then
           s1\<lparr>stats := t\<lparr>ts_bytes_transfer := ts_bytes_total t\<rparr>\<rparr>
         else stats_resize_blocks old_size new_size s1)"

definition downgrade_to_vanilla_xmodem :: "xfer \<Rightarrow> xfer" where
  "downgrade_to_vanilla_xmodem s =
     (let s1 = set_transfer_stats_protocol_name ''Xmodem'' s;
          t = (stats s1)\<lparr>ts_block_size := 128\<rparr>;
          t1 = (if flavor s1 = X_1K \<or> flavor s1 = X_1K_G then
                  t\<lparr>ts_blocks := ts_bytes_total t div 128
                                + (if 0 < ts_bytes_total t mod 128 then 1 else 0)\<rparr>
                else t)
      in s1\<lparr>stats := t1, flavor := X_NORMAL\<rparr>)"

definition stats_increment_errors :: "msg \<Rightarrow> xfer \<Rightarrow> xfer" where
  "stats_increment_errors m s =
     (let s1 = set_transfer_stats_last_message m s;
          s2 = s1\<lparr>stats := (stats s1)\<lparr>ts_error_count := ts_error_count (stats s1) + 1\<rparr>\<rparr>
      in if errors_max \<le> ts_error_count (stats s2) then
           (stop_file_transfer Q_TRANSFER_STATE_ABORT
             (set_transfer_stats_last_message (Msg ''TRANSFER_MAX_ERRORS'') s2))\<lparr>state := ABORT\<rparr>
         else s2)"

definition stats_file_complete_ok :: "xfer \<Rightarrow> xfer" where
  "stats_file_complete_ok s =
     (let s1 = set_transfer_stats_last_message (Msg ''SUCCESS'') s;
          s2 = s1\<lparr>stats := (stats s1)\<lparr>ts_bytes_transfer := ts_bytes_total (stats s1)\<rparr>,
                  state := COMPLETE\<rparr>;
          s3 = stop_file_transfer Q_TRANSFER_STATE_END s2
      in s3\<lparr>stats := (stats s3)\<lparr>ts_end_time := now s3\<rparr>\<rparr>)"

definition stats_file_cancelled :: "msg \<Rightarrow> xfer \<Rightarrow> xfer" where
  "stats_file_cancelled m s =
     (stop_file_transfer Q_TRANSFER_STATE_ABORT (set_transfer_stats_last_message m s))
       \<lparr>state := ABORT\<rparr>"

text \<open>\<open>filesize\<close> and \<open>blocks\<close> are C \<open>int\<close>s; the statistics hold them as \<open>unsigned long\<close>.\<close>

definition stats_new_file :: "path \<Rightarrow> path option \<Rightarrow> int \<Rightarrow> int \<Rightarrow> xfer \<Rightarrow> xfer" where
  "stats_new_file fname pname filesize blocks s =
     (let t = stats s;
          t1 = t\<lparr>ts_batch_bytes_transfer := ts_batch_bytes_transfer t + ts_bytes_transfer t,
                 ts_blocks_transfer := 0,
                 ts_bytes_transfer := 0,
                 ts_error_count := 0,
                 ts_last_message := Some (Msg ''''),
                 ts_filename := Some fname,
                 ts_pathname := pname,
                 ts_bytes_total := word_of_int filesize,
                 ts_blocks := word_of_int blocks,
                 ts_block_size :=
                   (if flavor s = X_1K \<or> flavor s = X_1K_G \<or> flavor s = Y_NORMAL
                       \<or> flavor s = Y_G then 1024 else 128),
                 ts_state := Q_TRANSFER_STATE_TRANSFER,
                 ts_file_start_time := now s\<rparr>
      in s\<lparr>stats := t1\<rparr>)"

section \<open>The next file of an upload\<close>

text \<open>
  \<open>setup_for_next_file\<close>. The entry at \<open>upload_file_list_i\<close> must exist (the list ends with an
  entry without a name). The old file is closed and forgotten first; on the terminator only
  the batch total changes; a file that cannot be opened leaves \<open>file\<close> and \<open>filename\<close> NULL.
\<close>

definition close_file :: "xfer \<Rightarrow> xfer" where
  "close_file s =
     (case file_p s of
        None \<Rightarrow> s
      | Some f \<Rightarrow> s\<lparr>fsys := fclose f (fsys s), file_p := None\<rparr>)"

definition setup_for_next_file :: "xfer \<Rightarrow> fault + bool \<times> xfer" where
  "setup_for_next_file s =
     (if length (upload_file_list s) \<le> upload_file_list_i s then Inl Buffer_overflow
      else
       (let s1 = (close_file s)\<lparr>filename := None\<rparr>;
            fi = upload_file_list s1 ! upload_file_list_i s1
        in case fi_name fi of
             None \<Rightarrow>
               Inr (True, s1\<lparr>stats := (stats s1)\<lparr>ts_batch_bytes_transfer :=
                       ts_batch_bytes_transfer (stats s1) + ts_bytes_transfer (stats s1)\<rparr>\<rparr>)
           | Some p \<Rightarrow>
               (case fopen_rb p (fsys s1) of
                  None \<Rightarrow> Inr (False, s1)
                | Some f \<Rightarrow>
                    (let s2 = (reset_timer (s1\<lparr>file_p := Some f\<rparr>))\<lparr>filename := Some (basename p)\<rparr>;
                         blocks = c_int (c_quot (fi_size fi) 1024)
                                  + (if 0 < c_rem (fi_size fi) 1024 then 1 else 0)
                     in Inr (True, stats_new_file (basename p) (Some (dirname p))
                                     (c_int (fi_size fi)) blocks s2)))))"

section \<open>What these helpers leave alone\<close>

lemmas stats_defs =
  set_transfer_stats_last_message_def set_transfer_stats_protocol_name_def
  stats_add_block_def stats_resize_blocks_def stats_increment_blocks_def
  downgrade_to_vanilla_xmodem_def stats_new_file_def reset_timer_def

lemma stop_frame [simp]:
  "current_block (stop_file_transfer q s) = current_block s"
  "current_block_n (stop_file_transfer q s) = current_block_n s"
  "current_block_sequence_i (stop_file_transfer q s) = current_block_sequence_i s"
  "current_block_number (stop_file_transfer q s) = current_block_number s"
  "first_byte (stop_file_transfer q s) = first_byte s"
  "sending (stop_file_transfer q s) = sending s"
  "prior_state (stop_file_transfer q s) = prior_state s"
  "flavor (stop_file_transfer q s) = flavor s"
  "now (stop_file_transfer q s) = now s"
  "inp (stop_file_transfer q s) = inp s"
  "outp (stop_file_transfer q s) = outp s"
  "timeout_max (stop_file_transfer q s) = timeout_max s"
  "block0_has_been_seen (stop_file_transfer q s) = block0_has_been_seen s"
  "upload_file_list (stop_file_transfer q s) = upload_file_list s"
  "upload_file_list_i (stop_file_transfer q s) = upload_file_list_i s"
  "state (stop_file_transfer q s) = state s"
  "timeout_count (stop_file_transfer q s) = timeout_count s"
  "timeout_begin (stop_file_transfer q s) = timeout_begin s"
  "ts_state (stats (stop_file_transfer q s)) = q"
  "ts_protocol (stats (stop_file_transfer q s)) = ts_protocol (stats s)"
  "ts_error_count (stats (stop_file_transfer q s)) = ts_error_count (stats s)"
  "ts_bytes_total (stats (stop_file_transfer q s)) = ts_bytes_total (stats s)"
  "ts_bytes_transfer (stats (stop_file_transfer q s)) = ts_bytes_transfer (stats s)"
  "ts_last_message (stats (stop_file_transfer q s)) = ts_last_message (stats s)"
  by (cases "ts_protocol (stats s)";
      simp add: stop_file_transfer_def ascii_transfer_stop_def xmodem_stop_def ymodem_stop_def
        Let_def)+

lemma set_message_frame [simp]:
  "current_block (set_transfer_stats_last_message m s) = current_block s"
  "current_block_n (set_transfer_stats_last_message m s) = current_block_n s"
  "current_block_sequence_i (set_transfer_stats_last_message m s) = current_block_sequence_i s"
  "current_block_number (set_transfer_stats_last_message m s) = current_block_number s"
  "first_byte (set_transfer_stats_last_message m s) = first_byte s"
  "sending (set_transfer_stats_last_message m s) = sending s"
  "prior_state (set_transfer_stats_last_message m s) = prior_state s"
  "flavor (set_transfer_stats_last_message m s) = flavor s"
  "now (set_transfer_stats_last_message m s) = now s"
  "inp (set_transfer_stats_last_message m s) = inp s"
  "outp (set_transfer_stats_last_message m s) = outp s"
  "timeout_max (set_transfer_stats_last_message m s) = timeout_max s"
  "block0_has_been_seen (set_transfer_stats_last_message m s) = block0_has_been_seen s"
  "upload_file_list (set_transfer_stats_last_message m s) = upload_file_list s"
  "upload_file_list_i (set_transfer_stats_last_message m s) = upload_file_list_i s"
  "fsys (set_transfer_stats_last_message m s) = fsys s"
  "file_p (set_transfer_stats_last_message m s) = file_p s"
  "filename (set_transfer_stats_last_message m s) = filename s"
  "download_path (set_transfer_stats_last_message m s) = download_path s"
  "download_file_modtime (set_transfer_stats_last_message m s) = download_file_modtime s"
  "state (set_transfer_stats_last_message m s) = state s"
  "timeout_count (set_transfer_stats_last_message m s) = timeout_count s"
  "timeout_begin (set_transfer_stats_last_message m s) = timeout_begin s"
  "ascii_st (set_transfer_stats_last_message m s) = ascii_st s"
  "ts_state (stats (set_transfer_stats_last_message m s)) = ts_state (stats s)"
  "ts_protocol (stats (set_transfer_stats_last_message m s)) = ts_protocol (stats s)"
  "ts_error_count (stats (set_transfer_stats_last_message m s)) = ts_error_count (stats s)"
  "ts_bytes_total (stats (set_transfer_stats_last_message m s)) = ts_bytes_total (stats s)"
  "ts_bytes_transfer (stats (set_transfer_stats_last_message m s)) = ts_bytes_transfer (stats s)"
  by (simp_all add: set_transfer_stats_last_message_def)

lemma stats_increment_errors_frame [simp]:
  "current_block (stats_increment_errors m s) = current_block s"
  "current_block_n (stats_increment_errors m s) = current_block_n s"
  "current_block_sequence_i (stats_increment_errors m s) = current_block_sequence_i s"
  "current_block_number (stats_increment_errors m s) = current_block_number s"
  "first_byte (stats_increment_errors m s) = first_byte s"
  "sending (stats_increment_errors m s) = sending s"
  "prior_state (stats_increment_errors m s) = prior_state s"
  "flavor (stats_increment_errors m s) = flavor s"
  "now (stats_increment_errors m s) = now s"
  "inp (stats_increment_errors m s) = inp s"
  "outp (stats_increment_errors m s) = outp s"
  "timeout_max (stats_increment_errors m s) = timeout_max s"
  "block0_has_been_seen (stats_increment_errors m s) = block0_has_been_seen s"
  "upload_file_list (stats_increment_errors m s) = upload_file_list s"
  "upload_file_list_i (stats_increment_errors m s) = upload_file_list_i s"
  "timeout_count (stats_increment_errors m s) = timeout_count s"
  "timeout_begin (stats_increment_errors m s) = timeout_begin s"
  "ts_error_count (stats (stats_increment_errors m s)) = ts_error_count (stats s) + 1"
  "ts_protocol (stats (stats_increment_errors m s)) = ts_protocol (stats s)"
  by (simp_all add: stats_increment_errors_def set_transfer_stats_last_message_def Let_def)

lemma stats_file_cancelled_frame [simp]:
  "current_block (stats_file_cancelled m s) = current_block s"
  "current_block_n (stats_file_cancelled m s) = current_block_n s"
  "current_block_sequence_i (stats_file_cancelled m s) = current_block_sequence_i s"
  "current_block_number (stats_file_cancelled m s) = current_block_number s"
  "first_byte (stats_file_cancelled m s) = first_byte s"
  "sending (stats_file_cancelled m s) = sending s"
  "prior_state (stats_file_cancelled m s) = prior_state s"
  "flavor (stats_file_cancelled m s) = flavor s"
  "now (stats_file_cancelled m s) = now s"
  "inp (stats_file_cancelled m s) = inp s"
  "outp (stats_file_cancelled m s) = outp s"
  "timeout_max (stats_file_cancelled m s) = timeout_max s"
  "block0_has_been_seen (stats_file_cancelled m s) = block0_has_been_seen s"
  "upload_file_list (stats_file_cancelled m s) = upload_file_list s"
  "upload_file_list_i (stats_file_cancelled m s) = upload_file_list_i s"
  "timeout_count (stats_file_cancelled m s) = timeout_count s"
  "timeout_begin (stats_file_cancelled m s) = timeout_begin s"
  "state (stats_file_cancelled m s) = ABORT"
  "ts_state (stats (stats_file_cancelled m s)) = Q_TRANSFER_STATE_ABORT"
  by (simp_all add: stats_file_cancelled_def)

lemma stats_file_complete_ok_frame [simp]:
  "current_block (stats_file_complete_ok s) = current_block s"
  "current_block_n (stats_file_complete_ok s) = current_block_n s"
  "current_block_sequence_i (stats_file_complete_ok s) = current_block_sequence_i s"
  "current_block_number (stats_file_complete_ok s) = current_block_number s"
  "first_byte (stats_file_complete_ok s) = first_byte s"
  "sending (stats_file_complete_ok s) = sending s"
  "prior_state (stats_file_complete_ok s) = prior_state s"
  "flavor (stats_file_complete_ok s) = flavor s"
  "now (stats_file_complete_ok s) = now s"
  "inp (stats_file_complete_ok s) = inp s"
  "outp (stats_file_complete_ok s) = outp s"
  "timeout_max (stats_file_complete_ok s) = timeout_max s"
  "block0_has_been_seen (stats_file_complete_ok s) = block0_has_been_seen s"
  "upload_file_list (stats_file_complete_ok s) = upload_file_list s"
  "upload_file_list_i (stats_file_complete_ok s) = upload_file_list_i s"
  "timeout_count (stats_file_complete_ok s) = timeout_count s"
  "timeout_begin (stats_file_complete_ok s) = timeout_begin s"
  "state (stats_file_complete_ok s) = COMPLETE"
  "ts_state (stats (stats_file_complete_ok s)) = Q_TRANSFER_STATE_END"
  by (simp_all add: stats_file_complete_ok_def Let_def)

lemma stats_new_file_frame [simp]:
  "current_block (stats_new_file a b c d s) = current_block s"
  "current_block_n (stats_new_file a b c d s) = current_block_n s"
  "current_block_sequence_i (stats_new_file a b c d s) = current_block_sequence_i s"
  "current_block_number (stats_new_file a b c d s) = current_block_number s"
  "first_byte (stats_new_file a b c d s) = first_byte s"
  "sending (stats_new_file a b c d s) = sending s"
  "prior_state (stats_new_file a b c d s) = prior_state s"
  "flavor (stats_new_file a b c d s) = flavor s"
  "now (stats_new_file a b c d s) = now s"
  "inp (stats_new_file a b c d s) = inp s"
  "outp (stats_new_file a b c d s) = outp s"
  "timeout_max (stats_new_file a b c d s) = timeout_max s"
  "block0_has_been_seen (stats_new_file a b c d s) = block0_has_been_seen s"
  "upload_file_list (stats_new_file a b c d s) = upload_file_list s"
  "upload_file_list_i (stats_new_file a b c d s) = upload_file_list_i s"
  "fsys (stats_new_file a b c d s) = fsys s"
  "file_p (stats_new_file a b c d s) = file_p s"
  "filename (stats_new_file a b c d s) = filename s"
  "download_path (stats_new_file a b c d s) = download_path s"
  "download_file_modtime (stats_new_file a b c d s) = download_file_modtime s"
  "state (stats_new_file a b c d s) = state s"
  "timeout_count (stats_new_file a b c d s) = timeout_count s"
  "timeout_begin (stats_new_file a b c d s) = timeout_begin s"
  by (simp_all add: stats_new_file_def Let_def)

text \<open>Counting a block changes nothing but the statistics.\<close>

lemma stats_add_block_shape:
  "\<exists>t n. stats_add_block c s = (s\<lparr>stats := t\<rparr>, n)
     \<and> ts_state t = ts_state (stats s) \<and> ts_protocol t = ts_protocol (stats s)
     \<and> ts_error_count t = ts_error_count (stats s)"
  by (rule exI [of _ "stats (fst (stats_add_block c s))"], rule exI [of _ "snd (stats_add_block c s)"])
    (simp add: stats_add_block_def Let_def)

lemma stats_resize_blocks_shape:
  "\<exists>t. stats_resize_blocks a b s = s\<lparr>stats := t\<rparr>
     \<and> ts_state t = ts_state (stats s) \<and> ts_protocol t = ts_protocol (stats s)
     \<and> ts_error_count t = ts_error_count (stats s)"
  by (rule exI [of _ "stats (stats_resize_blocks a b s)"]) (simp add: stats_resize_blocks_def Let_def)

lemma stats_increment_blocks_shape:
  "\<exists>t. stats_increment_blocks c s = s\<lparr>stats := t\<rparr>
     \<and> ts_state t = ts_state (stats s) \<and> ts_protocol t = ts_protocol (stats s)
     \<and> ts_error_count t = ts_error_count (stats s)"
proof -
  obtain t n where add: "stats_add_block c s = (s\<lparr>stats := t\<rparr>, n)"
    and t: "ts_state t = ts_state (stats s)" "ts_protocol t = ts_protocol (stats s)"
           "ts_error_count t = ts_error_count (stats s)"
    using stats_add_block_shape by blast
  obtain t' where res: "stats_resize_blocks (c_int (uint (ts_block_size (stats s)))) n (s\<lparr>stats := t\<rparr>)
      = (s\<lparr>stats := t\<rparr>)\<lparr>stats := t'\<rparr>"
    and t': "ts_state t' = ts_state t" "ts_protocol t' = ts_protocol t"
            "ts_error_count t' = ts_error_count t"
    using stats_resize_blocks_shape [of _ n "s\<lparr>stats := t\<rparr>"] by fastforce
  show ?thesis
    unfolding stats_increment_blocks_def add prod.case Let_def
    using t t' by (auto simp: res)
qed

lemma stats_increment_blocks_frame [simp]:
  "current_block (stats_increment_blocks c s) = current_block s"
  "current_block_n (stats_increment_blocks c s) = current_block_n s"
  "current_block_sequence_i (stats_increment_blocks c s) = current_block_sequence_i s"
  "current_block_number (stats_increment_blocks c s) = current_block_number s"
  "first_byte (stats_increment_blocks c s) = first_byte s"
  "sending (stats_increment_blocks c s) = sending s"
  "prior_state (stats_increment_blocks c s) = prior_state s"
  "flavor (stats_increment_blocks c s) = flavor s"
  "now (stats_increment_blocks c s) = now s"
  "inp (stats_increment_blocks c s) = inp s"
  "outp (stats_increment_blocks c s) = outp s"
  "timeout_max (stats_increment_blocks c s) = timeout_max s"
  "block0_has_been_seen (stats_increment_blocks c s) = block0_has_been_seen s"
  "upload_file_list (stats_increment_blocks c s) = upload_file_list s"
  "upload_file_list_i (stats_increment_blocks c s) = upload_file_list_i s"
  "fsys (stats_increment_blocks c s) = fsys s"
  "file_p (stats_increment_blocks c s) = file_p s"
  "filename (stats_increment_blocks c s) = filename s"
  "download_path (stats_increment_blocks c s) = download_path s"
  "download_file_modtime (stats_increment_blocks c s) = download_file_modtime s"
  "state (stats_increment_blocks c s) = state s"
  "timeout_count (stats_increment_blocks c s) = timeout_count s"
  "timeout_begin (stats_increment_blocks c s) = timeout_begin s"
  "ascii_st (stats_increment_blocks c s) = ascii_st s"
  "ts_state (stats (stats_increment_blocks c s)) = ts_state (stats s)"
  "ts_protocol (stats (stats_increment_blocks c s)) = ts_protocol (stats s)"
  "ts_error_count (stats (stats_increment_blocks c s)) = ts_error_count (stats s)"
proof -
  obtain t where eq: "stats_increment_blocks c s = s\<lparr>stats := t\<rparr>"
    and t: "ts_state t = ts_state (stats s)" "ts_protocol t = ts_protocol (stats s)"
           "ts_error_count t = ts_error_count (stats s)"
    using stats_increment_blocks_shape by blast
  show "current_block (stats_increment_blocks c s) = current_block s" by (simp add: eq t)
  show "current_block_n (stats_increment_blocks c s) = current_block_n s" by (simp add: eq t)
  show "current_block_sequence_i (stats_increment_blocks c s) = current_block_sequence_i s" by (simp add: eq t)
  show "current_block_number (stats_increment_blocks c s) = current_block_number s" by (simp add: eq t)
  show "first_byte (stats_increment_blocks c s) = first_byte s" by (simp add: eq t)
  show "sending (stats_increment_blocks c s) = sending s" by (simp add: eq t)
  show "prior_state (stats_increment_blocks c s) = prior_state s" by (simp add: eq t)
  show "flavor (stats_increment_blocks c s) = flavor s" by (simp add: eq t)
  show "now (stats_increment_blocks c s) = now s" by (simp add: eq t)
  show "inp (stats_increment_blocks c s) = inp s" by (simp add: eq t)
  show "outp (stats_increment_blocks c s) = outp s" by (simp add: eq t)
  show "timeout_max (stats_increment_blocks c s) = timeout_max s" by (simp add: eq t)
  show "block0_has_been_seen (stats_increment_blocks c s) = block0_has_been_seen s" by (simp add: eq t)
  show "upload_file_list (stats_increment_blocks c s) = upload_file_list s" by (simp add: eq t)
  show "upload_file_list_i (stats_increment_blocks c s) = upload_file_list_i s" by (simp add: eq t)
  show "fsys (stats_increment_blocks c s) = fsys s" by (simp add: eq t)
  show "file_p (stats_increment_blocks c s) = file_p s" by (simp add: eq t)
  show "filename (stats_increment_blocks c s) = filename s" by (simp add: eq t)
  show "download_path (stats_increment_blocks c s) = download_path s" by (simp add: eq t)
  show "download_file_modtime (stats_increment_blocks c s) = download_file_modtime s" by (simp add: eq t)
  show "state (stats_increment_blocks c s) = state s" by (simp add: eq t)
  show "timeout_count (stats_increment_blocks c s) = timeout_count s" by (simp add: eq t)
  show "timeout_begin (stats_increment_blocks c s) = timeout_begin s" by (simp add: eq t)
  show "ascii_st (stats_increment_blocks c s) = ascii_st s" by (simp add: eq t)
  show "ts_state (stats (stats_increment_blocks c s)) = ts_state (stats s)" by (simp add: eq t)
  show "ts_protocol (stats (stats_increment_blocks c s)) = ts_protocol (stats s)" by (simp add: eq t)
  show "ts_error_count (stats (stats_increment_blocks c s)) = ts_error_count (stats s)" by (simp add: eq t)
qed

lemma downgrade_frame [simp]:
  "current_block (downgrade_to_vanilla_xmodem s) = current_block s"
  "current_block_n (downgrade_to_vanilla_xmodem s) = current_block_n s"
  "current_block_sequence_i (downgrade_to_vanilla_xmodem s) = current_block_sequence_i s"
  "current_block_number (downgrade_to_vanilla_xmodem s) = current_block_number s"
  "first_byte (downgrade_to_vanilla_xmodem s) = first_byte s"
  "sending (downgrade_to_vanilla_xmodem s) = sending s"
  "prior_state (downgrade_to_vanilla_xmodem s) = prior_state s"
  "now (downgrade_to_vanilla_xmodem s) = now s"
  "inp (downgrade_to_vanilla_xmodem s) = inp s"
  "outp (downgrade_to_vanilla_xmodem s) = outp s"
  "timeout_max (downgrade_to_vanilla_xmodem s) = timeout_max s"
  "block0_has_been_seen (downgrade_to_vanilla_xmodem s) = block0_has_been_seen s"
  "upload_file_list (downgrade_to_vanilla_xmodem s) = upload_file_list s"
  "upload_file_list_i (downgrade_to_vanilla_xmodem s) = upload_file_list_i s"
  "fsys (downgrade_to_vanilla_xmodem s) = fsys s"
  "file_p (downgrade_to_vanilla_xmodem s) = file_p s"
  "filename (downgrade_to_vanilla_xmodem s) = filename s"
  "download_path (downgrade_to_vanilla_xmodem s) = download_path s"
  "download_file_modtime (downgrade_to_vanilla_xmodem s) = download_file_modtime s"
  "state (downgrade_to_vanilla_xmodem s) = state s"
  "timeout_count (downgrade_to_vanilla_xmodem s) = timeout_count s"
  "timeout_begin (downgrade_to_vanilla_xmodem s) = timeout_begin s"
  "flavor (downgrade_to_vanilla_xmodem s) = X_NORMAL"
  by (simp_all add: downgrade_to_vanilla_xmodem_def set_transfer_stats_protocol_name_def Let_def)

lemma reset_timer_frame [simp]:
  "current_block (reset_timer s) = current_block s"
  "current_block_n (reset_timer s) = current_block_n s"
  "current_block_sequence_i (reset_timer s) = current_block_sequence_i s"
  "current_block_number (reset_timer s) = current_block_number s"
  "first_byte (reset_timer s) = first_byte s"
  "sending (reset_timer s) = sending s"
  "prior_state (reset_timer s) = prior_state s"
  "flavor (reset_timer s) = flavor s"
  "now (reset_timer s) = now s"
  "inp (reset_timer s) = inp s"
  "outp (reset_timer s) = outp s"
  "timeout_max (reset_timer s) = timeout_max s"
  "block0_has_been_seen (reset_timer s) = block0_has_been_seen s"
  "upload_file_list (reset_timer s) = upload_file_list s"
  "upload_file_list_i (reset_timer s) = upload_file_list_i s"
  "fsys (reset_timer s) = fsys s"
  "file_p (reset_timer s) = file_p s"
  "filename (reset_timer s) = filename s"
  "download_path (reset_timer s) = download_path s"
  "download_file_modtime (reset_timer s) = download_file_modtime s"
  "state (reset_timer s) = state s"
  "timeout_count (reset_timer s) = timeout_count s"
  "stats (reset_timer s) = stats s"
  "ascii_st (reset_timer s) = ascii_st s"
  "timeout_begin (reset_timer s) = now s"
  by (simp_all add: reset_timer_def)

lemma clear_block_frame [simp]:
  "current_block_sequence_i (clear_block s) = current_block_sequence_i s"
  "current_block_number (clear_block s) = current_block_number s"
  "first_byte (clear_block s) = first_byte s"
  "sending (clear_block s) = sending s"
  "prior_state (clear_block s) = prior_state s"
  "flavor (clear_block s) = flavor s"
  "now (clear_block s) = now s"
  "inp (clear_block s) = inp s"
  "outp (clear_block s) = outp s"
  "timeout_max (clear_block s) = timeout_max s"
  "block0_has_been_seen (clear_block s) = block0_has_been_seen s"
  "upload_file_list (clear_block s) = upload_file_list s"
  "upload_file_list_i (clear_block s) = upload_file_list_i s"
  "fsys (clear_block s) = fsys s"
  "file_p (clear_block s) = file_p s"
  "filename (clear_block s) = filename s"
  "download_path (clear_block s) = download_path s"
  "download_file_modtime (clear_block s) = download_file_modtime s"
  "state (clear_block s) = state s"
  "timeout_count (clear_block s) = timeout_count s"
  "timeout_begin (clear_block s) = timeout_begin s"
  "stats (clear_block s) = stats s"
  "ascii_st (clear_block s) = ascii_st s"
  "current_block (clear_block s) = replicate 1029 0"
  "current_block_n (clear_block s) = 0"
  by (simp_all add: clear_block_def)

lemma close_file_frame [simp]:
  "current_block (close_file s) = current_block s"
  "current_block_n (close_file s) = current_block_n s"
  "current_block_sequence_i (close_file s) = current_block_sequence_i s"
  "current_block_number (close_file s) = current_block_number s"
  "first_byte (close_file s) = first_byte s"
  "sending (close_file s) = sending s"
  "prior_state (close_file s) = prior_state s"
  "flavor (close_file s) = flavor s"
  "now (close_file s) = now s"
  "inp (close_file s) = inp s"
  "outp (close_file s) = outp s"
  "timeout_max (close_file s) = timeout_max s"
  "block0_has_been_seen (close_file s) = block0_has_been_seen s"
  "upload_file_list (close_file s) = upload_file_list s"
  "upload_file_list_i (close_file s) = upload_file_list_i s"
  "state (close_file s) = state s"
  "stats (close_file s) = stats s"
  "filename (close_file s) = filename s"
  "timeout_count (close_file s) = timeout_count s"
  "timeout_begin (close_file s) = timeout_begin s"
  "file_p (close_file s) = None"
  by (simp_all add: close_file_def split: option.splits)

lemma check_timeout_frame [simp]:
  "current_block (snd (check_timeout s)) = current_block s"
  "current_block_n (snd (check_timeout s)) = current_block_n s"
  "current_block_sequence_i (snd (check_timeout s)) = current_block_sequence_i s"
  "current_block_number (snd (check_timeout s)) = current_block_number s"
  "first_byte (snd (check_timeout s)) = first_byte s"
  "sending (snd (check_timeout s)) = sending s"
  "flavor (snd (check_timeout s)) = flavor s"
  "now (snd (check_timeout s)) = now s"
  "inp (snd (check_timeout s)) = inp s"
  "timeout_max (snd (check_timeout s)) = timeout_max s"
  "block0_has_been_seen (snd (check_timeout s)) = block0_has_been_seen s"
  "upload_file_list (snd (check_timeout s)) = upload_file_list s"
  "upload_file_list_i (snd (check_timeout s)) = upload_file_list_i s"
  by (simp_all add: check_timeout_def Let_def)

end
