(* ===== verification/Crc_Register.thy ===== *)
theory Crc_Register
  imports Prelude
begin

text \<open>
  What the cyclic redundancy checks of the repository have in common. A check value is a
  register that takes in one byte at a time; the locale \<open>crc_register\<close> states the two laws that
  make it detect errors, and proves from them that every error burst no longer than the
  register is detected. The second half proves the laws for the shift registers the code
  uses, for any width of whole bytes and any odd generator polynomial.
\<close>

section \<open>The contract of a check register\<close>

text \<open>
  \<open>upd\<close> feeds one byte to the register and \<open>n\<close> is the number of bytes the register holds:
  feeding the same byte keeps different registers different, and from the same register
  different strings of \<open>n\<close> bytes lead to different registers.
\<close>

locale crc_register =
  fixes upd :: "'r \<Rightarrow> byte \<Rightarrow> 'r" and n :: nat
  assumes upd_inj: "upd r b = upd r' b \<Longrightarrow> r = r'"
    and window_inj: "length bs = n \<Longrightarrow> length cs = n \<Longrightarrow>
           foldl upd r bs = foldl upd r cs \<Longrightarrow> bs = cs"
begin

lemma feed_inj: "foldl upd r bs = foldl upd r' bs \<Longrightarrow> r = r'"
  by (induction bs arbitrary: r r') (auto dest: upd_inj)

text \<open>Strings shorter than the register are told apart as well: pad them to its length.\<close>

lemma short_window_inj:
  assumes "length bs = length cs" "length bs \<le> n" "foldl upd r bs = foldl upd r cs"
  shows "bs = cs"
proof -
  let ?pad = "replicate (n - length bs) (0 :: byte)"
  have "foldl upd r (bs @ ?pad) = foldl upd r (cs @ ?pad)"
    using assms(3) by simp
  then have "bs @ ?pad = cs @ ?pad"
    using assms(1,2) by (intro window_inj) auto
  then show ?thesis by simp
qed

text \<open>A burst: the messages agree outside one window of at most \<open>n\<close> bytes.\<close>

lemma burst_detected:
  assumes "length bs = length cs" "length bs \<le> n" "bs \<noteq> cs"
  shows "foldl upd r (xs @ bs @ ys) \<noteq> foldl upd r (xs @ cs @ ys)"
proof
  assume "foldl upd r (xs @ bs @ ys) = foldl upd r (xs @ cs @ ys)"
  then have "foldl upd (foldl upd (foldl upd r xs) bs) ys
           = foldl upd (foldl upd (foldl upd r xs) cs) ys" by simp
  then have "foldl upd (foldl upd r xs) bs = foldl upd (foldl upd r xs) cs"
    by (rule feed_inj)
  with assms show False by (blast dest: short_window_inj)
qed

end

section \<open>Shift registers, most significant bit first\<close>

definition msb_step :: "'a::len word \<Rightarrow> 'a word \<Rightarrow> 'a word" where
  "msb_step p c =
     (if bit c (LENGTH('a) - 1) then push_bit 1 c XOR p else push_bit 1 c)"

definition msb_upd :: "'a::len word \<Rightarrow> 'a word \<Rightarrow> byte \<Rightarrow> 'a word" where
  "msb_upd p c b = (msb_step p ^^ 8) (c XOR push_bit (LENGTH('a) - 8) (ucast b))"

text \<open>A step is linear over exclusive or, and injective when the polynomial is odd.\<close>

lemma msb_step_xor: "msb_step p (x XOR y) = msb_step p x XOR msb_step p y"
  by (simp only: msb_step_def bit_xor_iff push_bit_xor)
    (simp add: xor.assoc xor.left_commute xor.commute)

lemma msb_step_zero: "msb_step p 0 = 0"
  by (simp add: msb_step_def)

lemma msb_step_eq_0:
  assumes "bit p 0" "msb_step p z = (0 :: 'a::len word)"
  shows "z = 0"
proof (cases "bit z (LENGTH('a) - 1)")
  case True
  then have "push_bit 1 z = p"
    using assms(2) by (simp only: msb_step_def if_True xor_eq_0)
  then have "bit (push_bit 1 z) 0" using assms(1) by (simp only:)
  then show ?thesis by (simp only: bit_push_bit_iff) simp
next
  case False
  then have z: "push_bit 1 z = 0" using assms(2) by (simp only: msb_step_def if_False)
  show ?thesis
  proof (rule bit_word_eqI)
    fix i assume "i < LENGTH('a)"
    show "bit z i = bit (0 :: 'a word) i"
    proof (cases "i = LENGTH('a) - 1")
      case True with False show ?thesis by simp
    next
      case i: False
      have "\<not> bit (push_bit 1 z) (Suc i)" by (simp only: z bit_0_eq) simp
      with i \<open>i < LENGTH('a)\<close> show ?thesis by (auto simp only: bit_push_bit_iff bit_0_eq) auto
    qed
  qed
qed

lemma msb_step_inj:
  assumes "bit p 0" "msb_step p x = msb_step p y"
  shows "x = y"
proof -
  have "msb_step p (x XOR y) = 0" using assms(2) by (simp add: msb_step_xor)
  with assms(1) have "x XOR y = 0" by (rule msb_step_eq_0)
  then show ?thesis by simp
qed

lemma msb_steps_xor: "(msb_step p ^^ k) (x XOR y) = (msb_step p ^^ k) x XOR (msb_step p ^^ k) y"
  by (induction k) (auto simp: msb_step_xor)

lemma msb_steps_inj: "bit p 0 \<Longrightarrow> (msb_step p ^^ k) x = (msb_step p ^^ k) y \<Longrightarrow> x = y"
  by (induction k) (auto dest: msb_step_inj)

text \<open>While no set bit reaches the top, stepping is only shifting.\<close>

lemma msb_steps_shift:
  assumes "\<And>i. i < LENGTH('a) \<Longrightarrow> LENGTH('a) - k \<le> i \<Longrightarrow> \<not> bit x i" "k \<le> LENGTH('a)"
  shows "(msb_step p ^^ k) (x :: 'a::len word) = push_bit k x"
  using assms
proof (induction k)
  case 0
  then show ?case by simp
next
  case (Suc k)
  have "(msb_step p ^^ k) x = push_bit k x" using Suc.prems by (intro Suc.IH) auto
  moreover have "\<not> bit (push_bit k x) (LENGTH('a) - 1)"
    using Suc.prems(1) [of "LENGTH('a) - 1 - k"] Suc.prems(2) by (auto simp: bit_push_bit_iff)
  ultimately have "msb_step p ((msb_step p ^^ k) x) = push_bit 1 (push_bit k x)"
    by (simp only: msb_step_def if_False)
  then show ?case by (simp only: funpow.simps comp_apply push_bit_push_bit plus_1_eq_Suc)
qed

section \<open>A window of bytes as one register value\<close>

text \<open>The bytes of a window, most significant first, at the top of the register.\<close>

fun window :: "byte list \<Rightarrow> 'a::len word" where
  "window [] = 0"
| "window (b # bs) = push_bit (LENGTH('a) - 8) (ucast b) XOR drop_bit 8 (window bs)"

lemma window_low_bits:
  "8 * length bs \<le> LENGTH('a) \<Longrightarrow> i < LENGTH('a) - 8 * length bs \<Longrightarrow>
    \<not> bit (window bs :: 'a::len word) i"
  by (induction bs arbitrary: i) (auto simp: bit_xor_iff bit_push_bit_iff bit_drop_bit_eq)

lemma window_shift_back:
  assumes "8 * length bs + 8 \<le> LENGTH('a)"
  shows "push_bit 8 (drop_bit 8 (window bs :: 'a::len word)) = window bs"
proof (rule bit_word_eqI)
  fix i assume i: "i < LENGTH('a)"
  show "bit (push_bit 8 (drop_bit 8 (window bs :: 'a word))) i = bit (window bs :: 'a word) i"
    using window_low_bits [of bs i, where 'a = 'a] assms i
    by (cases "8 \<le> i") (auto simp: bit_push_bit_iff bit_drop_bit_eq)
qed

lemma foldl_msb_upd:
  "8 * length bs \<le> LENGTH('a) \<Longrightarrow>
    foldl (msb_upd p) r bs = (msb_step p ^^ (8 * length bs)) (r XOR window bs :: 'a::len word)"
proof (induction bs arbitrary: r)
  case Nil
  then show ?case by simp
next
  case (Cons b bs)
  let ?B = "push_bit (LENGTH('a) - 8) (ucast b) :: 'a word"
  have "(msb_step p ^^ 8) (drop_bit 8 (window bs :: 'a word)) = window bs"
    using Cons.prems window_shift_back [of bs, where 'a = 'a]
    by (subst msb_steps_shift) (auto simp: bit_drop_bit_eq dest: bit_imp_le_length)
  then have "(msb_step p ^^ 8) (r XOR ?B) XOR window bs
           = (msb_step p ^^ 8) (r XOR window (b # bs))"
    by (simp add: msb_steps_xor ac_simps)
  moreover have "(msb_step p ^^ (8 * length bs)) ((msb_step p ^^ 8) x)
               = (msb_step p ^^ (8 * length (b # bs))) x" for x
    by (simp add: funpow_add add.commute [of 8])
  ultimately show ?case using Cons by (simp add: msb_upd_def)
qed

lemma window_eqD:
  "length bs = length cs \<Longrightarrow> 8 * length bs \<le> LENGTH('a) \<Longrightarrow>
    window bs = (window cs :: 'a::len word) \<Longrightarrow> bs = cs"
proof (induction bs cs rule: list_induct2)
  case Nil
  then show ?case by simp
next
  case (Cons b bs c cs)
  have len: "8 * length bs + 8 \<le> LENGTH('a)" "8 * length cs + 8 \<le> LENGTH('a)"
    using Cons.hyps Cons.prems by auto
  have top: "bit (window (a # as) :: 'a word) (LENGTH('a) - 8 + i) = bit a i" if "i < 8" for a as i
    using that len by (auto simp: bit_xor_iff bit_push_bit_iff bit_drop_bit_eq bit_unsigned_iff
      dest: bit_imp_le_length)
  have bc: "b = c"
  proof (rule bit_word_eqI)
    fix i assume "i < LENGTH(8)"
    then have "i < 8" by simp
    then show "bit b i = bit c i"
      using top [of i b bs] top [of i c cs] Cons.prems(2) by simp
  qed
  then have "drop_bit 8 (window bs :: 'a word) = drop_bit 8 (window cs)"
    using Cons.prems(2) by simp
  then have "push_bit 8 (drop_bit 8 (window bs :: 'a word)) = push_bit 8 (drop_bit 8 (window cs))"
    by (rule arg_cong)
  then have "window bs = (window cs :: 'a word)"
    by (simp only: window_shift_back [OF len(1)] window_shift_back [OF len(2)])
  with Cons.IH len bc show ?case by simp
qed

text \<open>Hence the most-significant-bit-first register meets the contract.\<close>

lemma msb_upd_crc_register:
  assumes "bit p 0" "LENGTH('a) = 8 * n"
  shows "crc_register (msb_upd (p :: 'a::len word)) n"
proof
  fix r r' :: "'a word" and b
  assume "msb_upd p r b = msb_upd p r' b"
  then have "r XOR push_bit (LENGTH('a) - 8) (ucast b) = r' XOR push_bit (LENGTH('a) - 8) (ucast b)"
    using assms(1) unfolding msb_upd_def by (blast dest: msb_steps_inj)
  then show "r = r'" by simp
next
  fix bs cs :: "byte list" and r :: "'a word"
  assume len: "length bs = n" "length cs = n"
    and eq: "foldl (msb_upd p) r bs = foldl (msb_upd p) r cs"
  have "r XOR window bs = r XOR window cs"
    by (rule msb_steps_inj [OF assms(1), where k = "8 * n"])
      (use eq len assms(2) in \<open>simp add: foldl_msb_upd\<close>)
  then have "window bs = (window cs :: 'a word)" by simp
  then show "bs = cs" using len assms(2) by (intro window_eqD) auto
qed

text \<open>
  Feeding a byte is one lookup: the eight steps act on the top byte of the register, and the
  rest of the register moves up by a byte.
\<close>

definition table_entry :: "'a::len word \<Rightarrow> byte \<Rightarrow> 'a word" where
  "table_entry p i = (msb_step p ^^ 8) (push_bit (LENGTH('a) - 8) (ucast i))"

lemma msb_upd_table:
  assumes "8 \<le> LENGTH('a)"
  shows "msb_upd p (c :: 'a::len word) b =
           push_bit 8 c XOR table_entry p (ucast (drop_bit (LENGTH('a) - 8) c) XOR b)"
proof -
  let ?k = "LENGTH('a) - 8"
  let ?top = "ucast (drop_bit ?k c) :: byte"
  let ?low = "c XOR push_bit ?k (ucast ?top)"
  have low: "bit ?low i \<longleftrightarrow> i < ?k \<and> bit c i" for i
    using assms by (auto simp: bit_xor_iff bit_push_bit_iff bit_ucast bit_drop_bit_eq
        dest: bit_imp_le_length)
  have "(msb_step p ^^ 8) ?low = push_bit 8 ?low"
    by (rule msb_steps_shift) (use assms low in auto)
  also have "\<dots> = push_bit 8 c"
  proof (rule bit_word_eqI)
    fix i assume "i < LENGTH('a)"
    then show "bit (push_bit 8 ?low) i = bit (push_bit 8 c) i"
      using low by (auto simp: bit_push_bit_iff)
  qed
  finally have "(msb_step p ^^ 8) ?low = push_bit 8 c" .
  moreover have "c XOR push_bit ?k (ucast b) = ?low XOR push_bit ?k (ucast (?top XOR b))"
    by (simp add: ucast_xor push_bit_xor ac_simps flip: xor.assoc)
  ultimately show ?thesis
    by (simp add: msb_upd_def table_entry_def msb_steps_xor)
qed

section \<open>Shift registers, least significant bit first\<close>

text \<open>The mirror image: the register moves to the right and bytes come in at the bottom.\<close>

definition lsb_step :: "'a::len word \<Rightarrow> 'a word \<Rightarrow> 'a word" where
  "lsb_step p c = (if bit c 0 then drop_bit 1 c XOR p else drop_bit 1 c)"

definition lsb_upd :: "'a::len word \<Rightarrow> 'a word \<Rightarrow> byte \<Rightarrow> 'a word" where
  "lsb_upd p c b = (lsb_step p ^^ 8) (c XOR ucast b)"

lemma lsb_step_xor: "lsb_step p (x XOR y) = lsb_step p x XOR lsb_step p y"
  by (simp only: lsb_step_def bit_xor_iff drop_bit_xor)
    (simp add: xor.assoc xor.left_commute xor.commute)

lemma lsb_step_eq_0:
  assumes "bit p (LENGTH('a) - 1)" "lsb_step p z = (0 :: 'a::len word)"
  shows "z = 0"
proof (cases "bit z 0")
  case True
  then have "drop_bit 1 z = p" using assms(2) by (simp only: lsb_step_def if_True xor_eq_0)
  then have "bit (drop_bit 1 z) (LENGTH('a) - 1)" using assms(1) by (simp only:)
  then have "bit z (1 + (LENGTH('a) - 1))" by (simp only: bit_drop_bit_eq comp_apply)
  then show ?thesis by (auto dest: bit_imp_le_length)
next
  case False
  then have z: "drop_bit 1 z = 0" using assms(2) by (simp only: lsb_step_def if_False)
  show ?thesis
  proof (rule bit_word_eqI)
    fix i assume "i < LENGTH('a)"
    show "bit z i = bit (0 :: 'a word) i"
    proof (cases i)
      case 0 with False show ?thesis by simp
    next
      case (Suc j)
      have "\<not> bit (drop_bit 1 z) j" by (simp only: z bit_0_eq) simp
      with Suc show ?thesis by (simp only: bit_drop_bit_eq comp_apply) simp
    qed
  qed
qed

lemma lsb_step_inj:
  assumes "bit p (LENGTH('a) - 1)" "lsb_step p x = lsb_step p (y :: 'a::len word)"
  shows "x = y"
proof -
  have "lsb_step p (x XOR y) = 0" using assms(2) by (simp add: lsb_step_xor)
  with assms(1) have "x XOR y = 0" by (rule lsb_step_eq_0)
  then show ?thesis by simp
qed

lemma lsb_steps_xor: "(lsb_step p ^^ k) (x XOR y) = (lsb_step p ^^ k) x XOR (lsb_step p ^^ k) y"
  by (induction k) (auto simp: lsb_step_xor)

lemma lsb_steps_inj:
  "bit p (LENGTH('a) - 1) \<Longrightarrow> (lsb_step p ^^ k) x = (lsb_step p ^^ k) (y :: 'a::len word) \<Longrightarrow> x = y"
  by (induction k) (auto dest: lsb_step_inj [unfolded One_nat_def])

text \<open>While no set bit reaches the bottom, stepping is only shifting.\<close>

lemma lsb_steps_shift:
  assumes "\<And>i. i < k \<Longrightarrow> \<not> bit x i"
  shows "(lsb_step p ^^ k) x = drop_bit k x"
  using assms
proof (induction k)
  case 0
  then show ?case by simp
next
  case (Suc k)
  have "(lsb_step p ^^ k) x = drop_bit k x" using Suc by simp
  moreover have "\<not> bit (drop_bit k x) 0" using Suc.prems [of k] by (simp add: bit_drop_bit_eq)
  ultimately have "lsb_step p ((lsb_step p ^^ k) x) = drop_bit 1 (drop_bit k x)"
    by (simp only: lsb_step_def if_False)
  then show ?case by (simp only: funpow.simps comp_apply drop_bit_drop_bit plus_1_eq_Suc)
qed

text \<open>The bytes of a window, least significant first.\<close>

fun lsb_window :: "byte list \<Rightarrow> 'a::len word" where
  "lsb_window [] = 0"
| "lsb_window (b # bs) = ucast b XOR push_bit 8 (lsb_window bs)"

lemma lsb_window_high_bits:
  "8 * length bs \<le> i \<Longrightarrow> \<not> bit (lsb_window bs :: 'a::len word) i"
  by (induction bs arbitrary: i)
    (auto simp: bit_xor_iff bit_push_bit_iff bit_ucast dest: bit_imp_le_length)

lemma lsb_window_shift_back:
  assumes "8 * length bs + 8 \<le> LENGTH('a)"
  shows "drop_bit 8 (push_bit 8 (lsb_window bs :: 'a::len word)) = lsb_window bs"
proof (rule bit_word_eqI)
  fix i assume i: "i < LENGTH('a)"
  show "bit (drop_bit 8 (push_bit 8 (lsb_window bs :: 'a word))) i = bit (lsb_window bs :: 'a word) i"
    using lsb_window_high_bits [of bs i, where 'a = 'a] assms i
    by (cases "8 * length bs \<le> i") (auto simp: bit_push_bit_iff bit_drop_bit_eq)
qed

lemma foldl_lsb_upd:
  "8 * length bs \<le> LENGTH('a) \<Longrightarrow>
    foldl (lsb_upd p) r bs = (lsb_step p ^^ (8 * length bs)) (r XOR lsb_window bs :: 'a::len word)"
proof (induction bs arbitrary: r)
  case Nil
  then show ?case by simp
next
  case (Cons b bs)
  have "(lsb_step p ^^ 8) (push_bit 8 (lsb_window bs :: 'a word)) = lsb_window bs"
    using Cons.prems lsb_window_shift_back [of bs, where 'a = 'a]
    by (subst lsb_steps_shift) (auto simp: bit_push_bit_iff)
  then have "(lsb_step p ^^ 8) (r XOR ucast b) XOR lsb_window bs
           = (lsb_step p ^^ 8) (r XOR lsb_window (b # bs))"
    by (simp add: lsb_steps_xor ac_simps)
  moreover have "(lsb_step p ^^ (8 * length bs)) ((lsb_step p ^^ 8) x)
               = (lsb_step p ^^ (8 * length (b # bs))) x" for x
    by (simp add: funpow_add add.commute [of 8])
  ultimately show ?case using Cons by (simp add: lsb_upd_def)
qed

lemma lsb_window_eqD:
  "length bs = length cs \<Longrightarrow> 8 * length bs \<le> LENGTH('a) \<Longrightarrow>
    lsb_window bs = (lsb_window cs :: 'a::len word) \<Longrightarrow> bs = cs"
proof (induction bs cs rule: list_induct2)
  case Nil
  then show ?case by simp
next
  case (Cons b bs c cs)
  have len: "8 * length bs + 8 \<le> LENGTH('a)" "8 * length cs + 8 \<le> LENGTH('a)"
    using Cons.hyps Cons.prems by auto
  have low: "bit (lsb_window (a # as) :: 'a word) i = bit a i" if "i < 8" for a as i
    using that len by (auto simp: bit_xor_iff bit_push_bit_iff bit_ucast)
  have rest: "drop_bit 8 (lsb_window (a # as) :: 'a word) = drop_bit 8 (push_bit 8 (lsb_window as))"
    for a as
  proof (rule bit_word_eqI)
    fix i assume "i < LENGTH('a)"
    show "bit (drop_bit 8 (lsb_window (a # as) :: 'a word)) i
        = bit (drop_bit 8 (push_bit 8 (lsb_window as)) :: 'a word) i"
      by (auto simp: bit_xor_iff bit_drop_bit_eq bit_ucast dest: bit_imp_le_length)
  qed
  have bc: "b = c"
  proof (rule bit_word_eqI)
    fix i assume "i < LENGTH(8)"
    then have "i < 8" by simp
    then show "bit b i = bit c i" using low [of i b bs] low [of i c cs] Cons.prems(2) by simp
  qed
  have "lsb_window bs = (lsb_window cs :: 'a word)"
    using Cons.prems(2) rest [of b bs] rest [of c cs]
    by (simp only: lsb_window_shift_back [OF len(1)] lsb_window_shift_back [OF len(2)])
  with Cons.IH len bc show ?case by simp
qed

lemma lsb_upd_crc_register:
  assumes "bit p (LENGTH('a) - 1)" "LENGTH('a) = 8 * n"
  shows "crc_register (lsb_upd (p :: 'a::len word)) n"
proof
  fix r r' :: "'a word" and b
  assume "lsb_upd p r b = lsb_upd p r' b"
  then have "r XOR ucast b = r' XOR ucast b"
    using assms(1) unfolding lsb_upd_def by (blast dest: lsb_steps_inj)
  then show "r = r'" by simp
next
  fix bs cs :: "byte list" and r :: "'a word"
  assume len: "length bs = n" "length cs = n"
    and eq: "foldl (lsb_upd p) r bs = foldl (lsb_upd p) r cs"
  have "r XOR lsb_window bs = r XOR lsb_window cs"
    by (rule lsb_steps_inj [OF assms(1), where k = "8 * n"])
      (use eq len assms(2) in \<open>simp add: foldl_lsb_upd\<close>)
  then have "lsb_window bs = (lsb_window cs :: 'a word)" by simp
  then show "bs = cs" using len assms(2) by (intro lsb_window_eqD) auto
qed

text \<open>Feeding a byte through a table of 256 entries.\<close>

definition lsb_entry :: "'a::len word \<Rightarrow> byte \<Rightarrow> 'a word" where
  "lsb_entry p i = (lsb_step p ^^ 8) (ucast i)"

lemma lsb_upd_table:
  assumes "8 \<le> LENGTH('a)"
  shows "lsb_upd p (c :: 'a::len word) b = drop_bit 8 c XOR lsb_entry p (ucast c XOR b)"
proof -
  let ?low = "ucast c :: byte" and ?high = "c XOR ucast (ucast c :: byte)"
  have high: "bit ?high i \<longleftrightarrow> 8 \<le> i \<and> bit c i" for i
    using assms by (auto simp: bit_xor_iff bit_ucast dest: bit_imp_le_length)
  have "(lsb_step p ^^ 8) ?high = drop_bit 8 ?high"
    by (rule lsb_steps_shift) (use high in auto)
  also have "\<dots> = drop_bit 8 c"
  proof (rule bit_word_eqI)
    fix i assume "i < LENGTH('a)"
    then show "bit (drop_bit 8 ?high) i = bit (drop_bit 8 c) i"
      by (simp only: bit_drop_bit_eq comp_apply high) simp
  qed
  finally have "(lsb_step p ^^ 8) ?high = drop_bit 8 c" .
  moreover have "x XOR (x XOR y) = y" for x y :: "'a word" by simp
  then have "c XOR ucast b = ?high XOR ucast (?low XOR b)" by (simp only: ucast_xor xor.assoc)
  ultimately show ?thesis by (simp add: lsb_upd_def lsb_entry_def lsb_steps_xor)
qed

end
