(* ===== verification/Xmodem_Crc.thy ===== *)
theory Xmodem_Crc
  imports Crc_Register
begin

text \<open>
  \<open>calcrc\<close> of \<open>xmodem.c\<close>: the CRC-16 of the Xmodem and Ymodem blocks. The C code shifts a
  32-bit \<open>int\<close> and masks the result; the register it maintains in the low 16 bits is the
  contract of \<open>Crc_Register\<close> with the generator \<open>0x1021\<close>.
\<close>

section \<open>The code\<close>

text \<open>One turn of the inner loop on the C \<open>int\<close> (whose left shift discards the top bit).\<close>

definition calcrc_bit :: "u32 \<Rightarrow> u32" where
  "calcrc_bit crc =
     (if crc AND 0x8000 \<noteq> 0 then push_bit 1 crc XOR 0x1021 else push_bit 1 crc)"

fun calcrc_bits :: "nat \<Rightarrow> u32 \<Rightarrow> u32" where
  "calcrc_bits 0 crc = crc"
| "calcrc_bits (Suc i) crc = calcrc_bits i (calcrc_bit crc)"

definition calcrc_byte :: "u32 \<Rightarrow> byte \<Rightarrow> u32" where
  "calcrc_byte crc b = calcrc_bits 8 (crc XOR push_bit 8 (ucast b))"

definition calcrc :: "byte list \<Rightarrow> u32" where
  "calcrc bs = foldl calcrc_byte 0 bs AND 0xFFFF"

text \<open>The two bytes the callers put into a block: \<open>(crc >> 8) & 0xFF\<close> and \<open>crc & 0xFF\<close>.\<close>

definition crc_hi :: "byte list \<Rightarrow> byte" where
  "crc_hi bs = ucast (drop_bit 8 (calcrc bs) AND 0xFF)"

definition crc_lo :: "byte list \<Rightarrow> byte" where
  "crc_lo bs = ucast (calcrc bs AND 0xFF)"

section \<open>The 16-bit register behind it\<close>

definition crc16_upd :: "u16 \<Rightarrow> byte \<Rightarrow> u16" where
  "crc16_upd = msb_upd 0x1021"

definition crc16 :: "byte list \<Rightarrow> u16" where
  "crc16 bs = foldl crc16_upd 0 bs"

interpretation xcrc: crc_register crc16_upd 2
  unfolding crc16_upd_def by (rule msb_upd_crc_register) simp_all

lemma calcrc_bits_funpow: "calcrc_bits k c = (calcrc_bit ^^ k) c"
  by (induction k arbitrary: c) (simp_all add: funpow_swap1)

text \<open>The low half of the C register takes exactly the steps of the 16-bit register.\<close>

lemma top_bit_mask: "c AND 0x8000 \<noteq> 0 \<longleftrightarrow> bit (c :: u32) 15"
proof -
  have "(0x8000 :: u32) = 2 ^ 15" by simp
  then show ?thesis by (simp only: and_exp_eq_0_iff_not_bit not_not)
qed

lemma ucast_calcrc_bit: "(ucast (calcrc_bit c) :: u16) = msb_step 0x1021 (ucast c)"
  by (simp add: calcrc_bit_def msb_step_def top_bit_mask bit_ucast ucast_xor ucast_push_bit_down
      del: push_bit_of_1 push_bit_Suc)

lemma ucast_calcrc_byte: "(ucast (calcrc_byte c b) :: u16) = crc16_upd (ucast c) b"
proof -
  have steps: "(ucast ((calcrc_bit ^^ k) c) :: u16) = (msb_step 0x1021 ^^ k) (ucast c)" for k c
    by (induction k) (simp_all add: ucast_calcrc_bit)
  have "(ucast (push_bit 8 (ucast b :: u32)) :: u16) = push_bit 8 (ucast b)"
    by (simp add: ucast_push_bit_down ucast_ucast_down)
  then show ?thesis
    by (simp add: calcrc_byte_def crc16_upd_def msb_upd_def calcrc_bits_funpow steps ucast_xor)
qed

lemma ucast_foldl: "(ucast (foldl calcrc_byte c bs) :: u16) = foldl crc16_upd (ucast c) bs"
  by (induction bs arbitrary: c) (simp_all add: ucast_calcrc_byte)

lemma calcrc_crc16: "calcrc bs = ucast (crc16 bs)"
proof -
  have "foldl calcrc_byte 0 bs AND 0xFFFF = ucast (ucast (foldl calcrc_byte 0 bs) :: u16)"
  proof (rule bit_word_eqI)
    fix i assume i: "i < LENGTH(32)"
    show "bit (foldl calcrc_byte 0 bs AND 0xFFFF) i
             = bit (ucast (ucast (foldl calcrc_byte 0 bs) :: u16) :: u32) i"
      using i by (auto simp: bit_ucast bit_and_iff bit_mask16)
  qed
  then show ?thesis by (simp add: calcrc_def crc16_def ucast_foldl)
qed

text \<open>Both check bytes together are the register.\<close>

lemma crc_bytes_eq_iff: "crc_hi xs = crc_hi ys \<and> crc_lo xs = crc_lo ys \<longleftrightarrow> crc16 xs = crc16 ys"
proof
  assume eq: "crc_hi xs = crc_hi ys \<and> crc_lo xs = crc_lo ys"
  have hi: "bit (crc_hi bs) i \<longleftrightarrow> bit (crc16 bs) (i + 8)" if "i < 8" for bs i
    using that by (auto simp: crc_hi_def calcrc_crc16 bit_ucast bit_drop_bit_eq bit_and_iff
        bit_mask8 add.commute)
  have lo: "bit (crc_lo bs) i \<longleftrightarrow> bit (crc16 bs) i" if "i < 8" for bs i
    using that by (auto simp: crc_lo_def calcrc_crc16 bit_ucast bit_and_iff bit_mask8)
  show "crc16 xs = crc16 ys"
  proof (rule bit_word_eqI)
    fix i assume i: "i < LENGTH(16)"
    show "bit (crc16 xs) i = bit (crc16 ys) i"
    proof (cases "i < 8")
      case True
      then show ?thesis using eq lo [of i xs] lo [of i ys] by simp
    next
      case False
      then show ?thesis using eq i hi [of "i - 8" xs] hi [of "i - 8" ys] by simp
    qed
  qed
next
  assume "crc16 xs = crc16 ys"
  then have "calcrc xs = calcrc ys" by (simp add: calcrc_crc16)
  then show "crc_hi xs = crc_hi ys \<and> crc_lo xs = crc_lo ys" by (simp add: crc_hi_def crc_lo_def)
qed

text \<open>
  C38. The two CRC bytes \<open>calcrc\<close> gives a block, compared together, detect every error burst of
  one or two bytes, wherever it is in a block of any length.
\<close>

theorem calcrc_detects_bursts:
  assumes "length bs = length cs" "length bs \<le> 2" "bs \<noteq> cs"
  shows "(crc_hi (xs @ bs @ ys), crc_lo (xs @ bs @ ys))
       \<noteq> (crc_hi (xs @ cs @ ys), crc_lo (xs @ cs @ ys))"
  using xcrc.burst_detected [OF assms, of 0 xs ys] crc_bytes_eq_iff [of "xs @ bs @ ys" "xs @ cs @ ys"]
  unfolding crc16_def by blast

lemma calcrc_detects_bursts_witness:
  "(crc_hi ([1, 2] @ [3, 4] @ [5]), crc_lo ([1, 2] @ [3, 4] @ [5]))
   \<noteq> (crc_hi ([1, 2] @ [4, 3] @ [5]), crc_lo ([1, 2] @ [4, 3] @ [5]))"
  by (rule calcrc_detects_bursts) simp_all

end
