(* ===== verification/Xmodem_Block.thy ===== *)
theory Xmodem_Block
  imports Xmodem_Base Xmodem_Crc
begin

text \<open>
  Building and checking blocks: \<open>construct_block\<close> and \<open>verify_block\<close> of \<open>xmodem.c\<close> for data
  blocks, \<open>ymodem_construct_block_0\<close> and \<open>ymodem_decode_block_0\<close> for the block that announces
  a file. A block is header, sequence number, its complement, 128 or 1024 data bytes, and a
  checksum byte or the two bytes of the CRC.
\<close>

section \<open>Building a data block\<close>

text \<open>The header, the CRC after \<open>k\<close> data bytes, and the length; all of it in \<open>current_block\<close>.\<close>

definition put_crc :: "nat \<Rightarrow> byte \<Rightarrow> xfer \<Rightarrow> xfer" where
  "put_crc k header s =
     (let cb = current_block s; d = slice 3 k cb
      in s\<lparr>current_block := cb[k + 3 := crc_hi d, k + 4 := crc_lo d, 0 := header],
           current_block_n := k + 5\<rparr>)"

definition block_checksum :: "byte list \<Rightarrow> byte" where
  "block_checksum ds = foldl (+) 0 ds"

definition put_checksum :: "xfer \<Rightarrow> xfer" where
  "put_checksum s =
     (let cb = current_block s
      in s\<lparr>current_block := cb[131 := block_checksum (slice 3 128 cb), 0 := C_SOH],
           current_block_n := 128 + 4\<rparr>)"

definition put_sequence :: "xfer \<Rightarrow> xfer" where
  "put_sequence s =
     (let q = current_block_sequence_i s
      in s\<lparr>current_block := (current_block s)[1 := q, 2 := 0xFF - q],
           current_block_sequence_i := q + 1\<rparr>)"

text \<open>
  \<open>construct_block\<close>: read the next bytes of the file, pad them with SUB, frame them. At the
  end of the file the state becomes LAST_BLOCK; a read error cancels the transfer. The 1K
  flavors send a short block when at most 128 bytes are left.
\<close>

definition construct_block :: "xfer \<Rightarrow> fault + bool \<times> xfer" where
  "construct_block s =
     (case file_p s of
        None \<Rightarrow> Inl Null_pointer
      | Some f \<Rightarrow>
         (let small = (flavor s = X_RELAXED \<or> flavor s = X_NORMAL \<or> flavor s = X_CRC);
              n = (if small then 128 else 1024);
              (got, f1) = fread n f;
              rc = length got;
              s1 = s\<lparr>file_p := Some f1, current_block := blit 3 got (current_block s)\<rparr>
          in if f_err f1 then Inr (False, stats_file_cancelled (Msg ''DISK READ ERROR'') s1)
             else
               (let s2 = (if f_eof f1 then s1\<lparr>state := LAST_BLOCK\<rparr> else s1);
                    s3 = s2\<lparr>current_block :=
                              blit (3 + rc) (replicate (n - rc) C_SUB) (current_block s2)\<rparr>;
                    s4 = (if small then
                            (if flavor s = X_CRC then put_crc 128 C_SOH s3 else put_checksum s3)
                          else if rc \<le> 128 then put_crc 128 C_SOH s3
                          else put_crc 1024 C_STX s3);
                    s5 = put_sequence s4
                in Inr (True, s5\<lparr>current_block_number := current_block_number s5 + 1\<rparr>))))"

section \<open>Checking a data block\<close>

text \<open>The checks of \<open>verify_block\<close> in the order of the code; each gives the error it reports.\<close>

fun first_error :: "msg option list \<Rightarrow> msg option" where
  "first_error [] = None"
| "first_error (Some m # es) = Some m"
| "first_error (None # es) = first_error es"

definition size_error :: "xfer \<Rightarrow> msg option" where
  "size_error s =
     (let e = Some (MsgN ''SHORT/LONG BLOCK'' (current_block_number s)) in
      case flavor s of
        X_RELAXED \<Rightarrow> if current_block_n s \<noteq> 128 + 4 then e else None
      | X_NORMAL \<Rightarrow> if current_block_n s \<noteq> 128 + 4 then e else None
      | X_CRC \<Rightarrow> if current_block_n s \<noteq> 128 + 5 then e else None
      | _ \<Rightarrow> if current_block_n s \<noteq> 1024 + 5 \<and> current_block_n s \<noteq> 128 + 5 then e else None)"

definition header_error :: "xfer \<Rightarrow> msg option" where
  "header_error s =
     (let e = Some (MsgN ''HEADER ERROR IN BLOCK'' (current_block_number s));
          ch = current_block s ! 0 in
      if flavor s = X_RELAXED \<or> flavor s = X_NORMAL \<or> flavor s = X_CRC
      then (if ch \<noteq> C_SOH then e else None)
      else (if ch \<noteq> C_SOH \<and> ch \<noteq> C_STX then e else None))"

definition sequence_error :: "xfer \<Rightarrow> msg option" where
  "sequence_error s =
     (let ch = current_block s ! 1; ch2 = current_block s ! 2 in
      if current_block_sequence_i s \<noteq> ch then
        Some (MsgN ''BAD BLOCK NUMBER IN BLOCK'' (current_block_number s))
      else if unat ch + unat ch2 \<noteq> 0xFF then
        Some (MsgN ''COMPLIMENT BYTE BAD IN BLOCK'' (current_block_number s))
      else None)"

text \<open>The two CRC bytes after \<open>k\<close> data bytes; the code rejects when both of them differ.\<close>

definition crc_mismatch :: "nat \<Rightarrow> byte list \<Rightarrow> bool" where
  "crc_mismatch k cb \<longleftrightarrow>
     crc_hi (slice 3 k cb) \<noteq> cb ! (k + 3) \<and> crc_lo (slice 3 k cb) \<noteq> cb ! (k + 4)"

definition check_error :: "xfer \<Rightarrow> msg option" where
  "check_error s =
     (let cb = current_block s;
          e = Some (MsgN ''CRC ERROR IN BLOCK'' (current_block_number s)) in
      if flavor s = X_NORMAL \<or> flavor s = X_RELAXED then
        (if block_checksum (slice 3 128 cb) \<noteq> cb ! 131
         then Some (MsgN ''CHECKSUM ERROR IN BLOCK'' (current_block_number s)) else None)
      else if flavor s = X_CRC then (if crc_mismatch 128 cb then e else None)
      else if cb ! 0 = C_SOH then (if crc_mismatch 128 cb then e else None)
      else (if crc_mismatch 1024 cb then e else None))"

definition duplicate_error :: "xfer \<Rightarrow> msg option" where
  "duplicate_error s =
     (if int (unat (current_block s ! 1)) = int (unat (current_block_sequence_i s)) - 1
      then Some (MsgN ''DUPLICATE BLOCK'' (current_block_number s)) else None)"

definition block_error :: "xfer \<Rightarrow> msg option" where
  "block_error s =
     first_error [size_error s, header_error s, sequence_error s, check_error s,
                  duplicate_error s]"

definition write_block :: "xfer \<Rightarrow> fault + bool \<times> xfer" where
  "write_block s =
     (case file_p s of
        None \<Rightarrow> Inl Null_pointer
      | Some f \<Rightarrow>
         (let n = (if current_block s ! 0 = C_SOH then 128 else 1024);
              (rc, f1) = fwrite (slice 3 n (current_block s)) f;
              s1 = s\<lparr>file_p := Some f1\<rparr>
          in if rc \<noteq> n then
               Inr (False, stats_increment_errors (Msg ''FILE WRITE ERROR, IS DISK FULL?'') s1)
             else
               Inr (True, s1\<lparr>current_block_sequence_i := current_block_sequence_i s1 + 1,
                             current_block_number := current_block_number s1 + 1\<rparr>)))"

definition verify_block :: "xfer \<Rightarrow> fault + bool \<times> xfer" where
  "verify_block s =
     (case block_error s of
        Some m \<Rightarrow> Inr (False, stats_increment_errors m s)
      | None \<Rightarrow> write_block s)"

section \<open>Block 0 of Ymodem\<close>

text \<open>
  \<open>ymodem_construct_block_0\<close>: name, NUL, size in decimal, space, modification time in octal;
  nothing for the terminator. The name is copied without a length check, so a block that
  would be written past the end of \<open>current_block\<close> is a \<open>Block_overflow\<close>.
\<close>

definition block0_text :: "path \<Rightarrow> file_info \<Rightarrow> byte list" where
  "block0_text fname fi =
     fname @ [0] @ digits_of 10 (nat (fi_size fi mod 2 ^ 64)) @ [32]
       @ digits_of 8 (nat (fi_mtime fi mod 2 ^ 64))"

definition ymodem_construct_block_0 :: "xfer \<Rightarrow> fault + xfer" where
  "ymodem_construct_block_0 s =
     (if \<not> is_ymodem (flavor s) then Inl Assert_failed
      else if length (upload_file_list s) \<le> upload_file_list_i s then Inl Buffer_overflow
      else
       (let fi = upload_file_list s ! upload_file_list_i s;
            cb = replicate XMODEM_MAX_BLOCK_SIZE 0;
            body = (case fi_name fi of
                      None \<Rightarrow> Inr []
                    | Some _ \<Rightarrow> (case filename s of
                                   None \<Rightarrow> Inl Null_pointer
                                 | Some fname \<Rightarrow> Inr (block0_text fname fi)))
        in bind_res body (\<lambda>txt.
             if XMODEM_MAX_BLOCK_SIZE < 3 + length txt then Inl Block_overflow
             else
              (let n = (if fi_name fi = None then 3 else 3 + length txt + 1);
                   s1 = s\<lparr>current_block := blit 3 txt cb, current_block_n := n\<rparr>;
                   s2 = (if 128 + 5 - 2 < n then put_crc 1024 C_STX s1 else put_crc 128 C_SOH s1)
               in Inr (put_sequence s2)))))"

text \<open>The checks at the head of \<open>ymodem_decode_block_0\<close>.\<close>

definition block0_error :: "xfer \<Rightarrow> msg option" where
  "block0_error s =
     (let cb = current_block s; k = current_block_number s in
      if current_block_n s \<noteq> 1024 + 5 \<and> current_block_n s \<noteq> 128 + 5 then
        Some (MsgN ''SHORT/LONG BLOCK'' k)
      else if cb ! 0 \<noteq> C_SOH \<and> cb ! 0 \<noteq> C_STX then Some (MsgN ''HEADER ERROR IN BLOCK'' k)
      else if current_block_sequence_i s \<noteq> cb ! 1 then
        Some (MsgN ''BAD BLOCK NUMBER IN BLOCK'' k)
      else if unat (cb ! 1) + unat (cb ! 2) \<noteq> 0xFF then
        Some (MsgN ''COMPLIMENT BYTE BAD IN BLOCK'' k)
      else if cb ! 0 = C_SOH then
        (if crc_mismatch 128 cb then Some (MsgN ''CRC ERROR IN BLOCK'' k) else None)
      else (if crc_mismatch 1024 cb then Some (MsgN ''CRC ERROR IN BLOCK'' k) else None))"

text \<open>
  The copying loops of the parser: bytes go into \<open>local_buffer\<close> (at most \<open>FILENAME_SIZE - 1\<close>
  of them) until the byte after the one just copied is a stop byte.
\<close>

definition FILENAME_SIZE :: nat where [simp]: "FILENAME_SIZE = 256"

fun scan_field :: "(byte \<Rightarrow> bool) \<Rightarrow> nat \<Rightarrow> byte list \<Rightarrow> nat \<Rightarrow> byte list \<times> nat" where
  "scan_field stop 0 cb n = ([], n)"
| "scan_field stop (Suc k) cb n =
     (if stop (cb ! (n + 1)) then ([cb ! n], n + 1)
      else (let (bs, m) = scan_field stop k cb (n + 1) in (cb ! n # bs, m)))"

text \<open>
  What follows the checks: the file name (empty: the terminator block), \<open>sprintf\<close> of the full
  name into \<open>char full_filename[FILENAME_SIZE]\<close>, creating the file, its size and its time.
\<close>

definition block0_open :: "path \<Rightarrow> nat \<Rightarrow> xfer \<Rightarrow> fault + bool \<times> xfer" where
  "block0_open fname n1 s =
     (case download_path s of
        None \<Rightarrow> Inl Null_pointer
      | Some dp \<Rightarrow>
         (let full = dp @ [47] @ fname in
          if FILENAME_SIZE \<le> length full then Inl Buffer_overflow
          else case fopen_wb full (fsys s) of
            None \<Rightarrow> Inr (False, stats_increment_errors (Msg ''FILE OPEN ERROR'')
                              (s\<lparr>file_p := None\<rparr>))
          | Some f \<Rightarrow>
             (let stop = (\<lambda>b. b = 0 \<or> b = 32);
                  cb = current_block s;
                  (len, n2) = scan_field stop (FILENAME_SIZE - 1) cb n1;
                  cb2 = cb[n2 := 32];
                  (mt, n3) = scan_field stop (FILENAME_SIZE - 1) cb2 (n2 + 1);
                  size = c_int (atol (c_str len));
                  blocks = c_quot size 1024 + (if 0 < c_rem size 1024 then 1 else 0);
                  s1 = s\<lparr>fsys := created full (fsys s), file_p := Some f, current_block := cb2,
                         current_block_n := n3,
                         download_file_modtime :=
                           (case scan_octal (c_str mt) of
                              None \<Rightarrow> download_file_modtime s | Some t \<Rightarrow> t)\<rparr>;
                  s2 = stats_new_file fname (ts_pathname (stats s1)) size blocks s1
              in Inr (True, s2\<lparr>current_block_sequence_i := current_block_sequence_i s2 + 1\<rparr>))))"

definition ymodem_decode_block_0 :: "xfer \<Rightarrow> fault + bool \<times> xfer" where
  "ymodem_decode_block_0 s =
     (if \<not> is_ymodem (flavor s) then Inl Assert_failed
      else case block0_error s of
        Some m \<Rightarrow> Inr (False, stats_increment_errors m s)
      | None \<Rightarrow>
         (let (nm, n) = scan_field (\<lambda>b. b = 0) (FILENAME_SIZE - 1) (current_block s) 3;
              fname = c_str nm;
              s1 = s\<lparr>current_block_n := n + 1, filename := Some fname\<rparr>
          in if fname = [] then Inr (True, s1)
             else block0_open fname (n + 1) s1))"

end
