(* ===== verification/Xmodem_Receive.thy ===== *)
theory Xmodem_Receive
  imports Xmodem_Block
begin

text \<open>
  \<open>xmodem_receive\<close> of \<open>xmodem.c\<close>: the receiving side of every Xmodem and Ymodem flavor, one
  definition per section of the C function. A section that ends in \<open>return\<close> gives \<open>Return\<close>,
  one that falls through gives \<open>Next\<close>; both gotos to the label \<open>eot\<close> are calls of \<open>recv_eot\<close>.
\<close>

section \<open>INIT and FIRST_BLOCK\<close>

definition recv_init :: "xfer \<Rightarrow> fault + xfer ctl" where
  "recv_init s =
     (if state s = INIT then
        (let s1 = s\<lparr>outp := [first_byte s]\<rparr>;
             s2 = (if flavor s1 = X_NORMAL \<or> flavor s1 = X_RELAXED \<or> flavor s1 = Y_NORMAL
                      \<or> flavor s1 = Y_G
                   then s1\<lparr>state := BLOCK\<rparr> else s1\<lparr>state := FIRST_BLOCK\<rparr>)
         in Inr (Return ((reset_timer s2)\<lparr>inp := []\<rparr>)))
      else Inr (Next s))"

definition first_block_timeout :: "xfer \<Rightarrow> xfer" where
  "first_block_timeout s =
     (let s1 = s\<lparr>timeout_count := timeout_count s + 1\<rparr>;
          s2 = (if 5 \<le> timeout_count s1 then
                  (let a = stats_increment_errors (Msg ''FALLBACK TO NORMAL XMODEM'') s1
                   in downgrade_to_vanilla_xmodem
                        (a\<lparr>outp := [C_NAK], prior_state := BLOCK, state := PURGE_INPUT\<rparr>))
                else stats_increment_errors (Msg ''TIMEOUT'') s1)
      in (reset_timer s2)\<lparr>outp := [first_byte s2]\<rparr>)"

definition recv_first_block :: "xfer \<Rightarrow> fault + xfer ctl" where
  "recv_first_block s =
     (if state s = FIRST_BLOCK then
        (if inp s = [] then
           Inr (Return (if 3 < now s - timeout_begin s then first_block_timeout s else s))
         else Inr (Next (s\<lparr>state := BLOCK\<rparr>)))
      else Inr (Next s))"

section \<open>BLOCK: nothing has arrived\<close>

definition recv_wait :: "xfer \<Rightarrow> xfer" where
  "recv_wait s =
     (let (timed_out, s1) = check_timeout s
      in if timed_out \<and> state s1 \<noteq> ABORT then
           (let s2 = set_transfer_stats_last_message
                       (MsgN ''SENDING NAK'' (current_block_number s1))
                       (s1\<lparr>outp := [first_byte s1]\<rparr>)
            in if current_block_number s2 = 1 then s2\<lparr>state := prior_state s2\<rparr> else s2)
         else s1)"

text \<open>The block is given up; PURGE_INPUT will ask for it again.\<close>

definition purge_block :: "xfer \<Rightarrow> xfer" where
  "purge_block s = s\<lparr>prior_state := BLOCK, state := PURGE_INPUT, inp := []\<rparr>"

section \<open>EOT: the end of a file\<close>

text \<open>
  The loop that removes the SUBs at the end of an Xmodem file. Each turn asks for the position,
  seeks to the last byte, reads it into \<open>last_byte\<close> (which keeps its value when nothing can be
  read; \<open>None\<close>: never set) and truncates one byte before the position noted first. The result
  is the file and the number of turns that found a SUB; \<open>None\<close> when the loop never ends.
\<close>

definition strip_turn :: "cfile \<Rightarrow> byte option \<Rightarrow> int \<times> cfile \<times> byte option" where
  "strip_turn f last_byte =
     (let filesize = c_int (int (f_pos f));
          (got, f1) = fread 1 (snd (fseek_end (-1) f))
      in (filesize, f1, (case got of [] \<Rightarrow> last_byte | b # _ \<Rightarrow> Some b)))"

partial_function (option) strip_subs ::
    "cfile \<Rightarrow> byte option \<Rightarrow> u64 \<Rightarrow> (fault + cfile \<times> u64) option" where
  "strip_subs f last_byte k =
     (case strip_turn f last_byte of
        (filesize, f1, lb) \<Rightarrow>
          (case lb of
             None \<Rightarrow> Some (Inl Uninitialised)
           | Some b \<Rightarrow>
               if b = C_SUB then strip_subs (ftruncate (filesize - 1) f1) lb (k + 1)
               else Some (Inr (f1, k))))"

definition recv_eot_xmodem :: "xfer \<Rightarrow> fault + xfer" where
  "recv_eot_xmodem s =
     (case file_p s of
        None \<Rightarrow> Inl Null_pointer
      | Some f \<Rightarrow>
         (case strip_subs f None 0 of
            None \<Rightarrow> Inl Diverges
          | Some (Inl e) \<Rightarrow> Inl e
          | Some (Inr (f1, k)) \<Rightarrow>
              Inr (stats_file_complete_ok
                (s\<lparr>file_p := Some f1,
                   stats := (stats s)\<lparr>ts_bytes_transfer := ts_bytes_transfer (stats s) - k,
                                      ts_bytes_total := ts_bytes_total (stats s) - k\<rparr>,
                   outp := [C_ACK]\<rparr>))))"

definition recv_eot_ymodem :: "xfer \<Rightarrow> fault + xfer" where
  "recv_eot_ymodem s =
     (case (file_p s, download_path s, filename s) of
        (Some f, Some dp, Some fname) \<Rightarrow>
         (let full = dp @ [47] @ fname;
              s1 = s\<lparr>fsys := fclose (ftruncate (sint (ts_bytes_total (stats s))) f) (fsys s),
                     file_p := None\<rparr>
          in if FILENAME_SIZE \<le> length full then Inl Buffer_overflow
             else
              (let s2 = set_transfer_stats_last_message (Msg ''EOF'')
                          (s1\<lparr>fsys := utime full (download_file_modtime s1) (fsys s1)\<rparr>)
               in Inr (s2\<lparr>stats := (stats s2)\<lparr>ts_state := Q_TRANSFER_STATE_FILE_DONE\<rparr>,
                          outp := [C_ACK, first_byte s2],
                          block0_has_been_seen := False,
                          current_block_sequence_i := 0,
                          current_block_number := 1\<rparr>)))
      | _ \<Rightarrow> Inl Null_pointer)"

definition recv_eot :: "xfer \<Rightarrow> fault + xfer ctl" where
  "recv_eot s =
     bind_res ((if is_ymodem (flavor s) then recv_eot_ymodem else recv_eot_xmodem) (clear_block s))
       (\<lambda>s1. Inr (Return (s1\<lparr>inp := []\<rparr>)))"

section \<open>BLOCK: the streaming (-G) flavors\<close>

definition g_streaming :: "xfer \<Rightarrow> bool" where
  "g_streaming s \<longleftrightarrow>
     (flavor s = X_1K_G \<or> flavor s = Y_G)
     \<and> \<not> (current_block_sequence_i s = 0 \<and> current_block_number s = 1)"

definition recv_g :: "xfer \<Rightarrow> fault + xfer ctl" where
  "recv_g s =
     (let n = (if current_block s ! 0 = C_SOH then 128 + 5 else 1024 + 5);
          m = current_block_n s
      in if n \<le> m then Inl Assert_failed
         else if length (inp s) + m < n then
           (let s1 = s\<lparr>current_block := blit m (inp s) (current_block s),
                       current_block_n := m + length (inp s), inp := []\<rparr>
            in if current_block_n s1 = 1 \<and> current_block s1 ! 0 = C_EOT then recv_eot s1
               else Inr (Return s1))
         else
           (let s1 = s\<lparr>current_block := blit m (take (n - m) (inp s)) (current_block s),
                       inp := drop (n - m) (inp s), current_block_n := n\<rparr>
            in bind_res (verify_block s1) (\<lambda>(ok, s2).
                 Inr (Return
                   (if ok then
                      clear_block (stats_increment_blocks (current_block s2 ! 0) s2)
                    else
                      (stats_file_cancelled (Msg ''Xmodem 1K/G error'') (clear_block s2))
                        \<lparr>inp := []\<rparr>)))))"

section \<open>BLOCK: block 0 of Ymodem and data blocks\<close>

definition recv_block0 :: "xfer \<Rightarrow> fault + xfer ctl" where
  "recv_block0 s =
     (if (current_block s ! 0 = C_STX \<and> XMODEM_MAX_BLOCK_SIZE \<le> current_block_n s)
         \<or> (current_block s ! 0 = C_SOH \<and> 128 + 5 \<le> current_block_n s) then
        bind_res (ymodem_decode_block_0 s) (\<lambda>(ok, s1).
          if ok then
            (let s2 = clear_block (s1\<lparr>outp := [C_ACK, first_byte s1],
                                      block0_has_been_seen := True\<rparr>)
             in case filename s2 of
                  None \<Rightarrow> Inl Null_pointer
                | Some fname \<Rightarrow>
                    Inr (Return
                      ((if fname = [] then stats_file_complete_ok (s2\<lparr>outp := [C_ACK]\<rparr>)
                        else s2)\<lparr>inp := []\<rparr>)))
          else Inr (Return (purge_block (clear_block s1))))
      else Inr (Return (s\<lparr>inp := []\<rparr>)))"

text \<open>The \<open>switch\<close> that waits for the rest of a block.\<close>

definition block_incomplete :: "xfer \<Rightarrow> bool" where
  "block_incomplete s =
     (if flavor s = Y_NORMAL \<or> flavor s = Y_G \<or> flavor s = X_1K \<or> flavor s = X_1K_G then
        (current_block s ! 0 = C_STX \<and> current_block_n s < XMODEM_MAX_BLOCK_SIZE)
        \<or> current_block_n s < 128 + 5
      else if flavor s = X_CRC then current_block_n s < 128 + 5
      else current_block_n s < 128 + 4)"

definition recv_data :: "xfer \<Rightarrow> fault + xfer ctl" where
  "recv_data s =
     (if block_incomplete s then Inr (Return (s\<lparr>inp := []\<rparr>))
      else
        bind_res (verify_block s) (\<lambda>(ok, s1).
          Inr (Return
            (if ok then
               (clear_block (stats_increment_blocks (current_block s1 ! 0)
                 (s1\<lparr>outp := [C_ACK]\<rparr>)))\<lparr>inp := []\<rparr>
             else if state s1 = ABORT then s1\<lparr>inp := []\<rparr>
             else purge_block (clear_block s1)))))"

section \<open>BLOCK, PURGE_INPUT and the whole handler\<close>

definition recv_append :: "xfer \<Rightarrow> xfer" where
  "recv_append s =
     s\<lparr>current_block := blit (current_block_n s) (inp s) (current_block s),
       current_block_n := current_block_n s + length (inp s)\<rparr>"

definition recv_block :: "xfer \<Rightarrow> fault + xfer ctl" where
  "recv_block s =
     (if state s \<noteq> BLOCK then Inr (Next s)
      else if inp s = [] then Inr (Return (recv_wait s))
      else
       (let s1 = reset_timer s in
        if XMODEM_MAX_BLOCK_SIZE < current_block_n s1 + length (inp s1)
           \<and> flavor s1 \<noteq> X_1K_G \<and> flavor s1 \<noteq> Y_G then
          Inr (Return (purge_block s1))
        else if g_streaming s1 then recv_g s1
        else if XMODEM_MAX_BLOCK_SIZE < current_block_n s1 + length (inp s1) then
          Inr (Return (purge_block (clear_block s1)))
        else
         (let s2 = recv_append s1 in
          if current_block_n s2 = 1 \<and> current_block s2 ! 0 = C_EOT then recv_eot s2
          else if is_ymodem (flavor s2) \<and> current_block_sequence_i s2 = 0
                  \<and> current_block_number s2 = 1 \<and> \<not> block0_has_been_seen s2 then recv_block0 s2
          else recv_data s2)))"

definition recv_purge :: "xfer \<Rightarrow> xfer" where
  "recv_purge s =
     (let s1 = (if state s = PURGE_INPUT \<and> inp s = [] then
                  set_transfer_stats_last_message (MsgN ''SENDING NAK'' (current_block_number s))
                    (s\<lparr>outp := [C_NAK], state := prior_state s\<rparr>)
                else s)
      in s1\<lparr>inp := []\<rparr>)"

definition xmodem_receive :: "xfer \<Rightarrow> fault + xfer" where
  "xmodem_receive s =
     finish (seq_ctl (seq_ctl (seq_ctl (recv_init s) recv_first_block) recv_block)
       (\<lambda>s1. Inr (Return (recv_purge s1))))"

end
