(* ===== verification/Xmodem_Send.thy ===== *)
theory Xmodem_Send
  imports Xmodem_Block
begin

text \<open>
  \<open>xmodem_send\<close> of \<open>xmodem.c\<close>: the sending side of every Xmodem and Ymodem flavor, one
  definition per section of the C function, composed in the order of the code.
\<close>

section \<open>Cancellation and INIT\<close>

definition send_cancel :: "xfer \<Rightarrow> fault + xfer ctl" where
  "send_cancel s =
     (if inp s \<noteq> [] \<and> hd (inp s) = C_CAN then
        Inr (Return ((stats_file_cancelled (Msg ''TRANSFER CANCELLED BY RECEIVER'') s)
                       \<lparr>inp := []\<rparr>))
      else Inr (Next s))"

text \<open>\<open>state = BLOCK\<close> and an ACK in place of the first input byte, so that BLOCK sends at once.\<close>

definition start_sending :: "xfer \<Rightarrow> xfer" where
  "start_sending s =
     (set_transfer_stats_last_message (Msg '''') s)\<lparr>state := BLOCK, inp := C_ACK # tl (inp s)\<rparr>"

definition send_init :: "xfer \<Rightarrow> fault + xfer ctl" where
  "send_init s =
     (if state s \<noteq> INIT then Inr (Next s)
      else
       (let s1 = set_transfer_stats_last_message (Msg ''WAITING FOR NAK'') s in
        case inp s1 of
          [] \<Rightarrow> Inr (Return (snd (check_timeout s1)))
        | c # _ \<Rightarrow>
            (if flavor s1 = X_RELAXED \<or> flavor s1 = X_NORMAL then
               (if c = first_byte s1 then Inr (Next (start_sending s1))
                else Inr (Return (s1\<lparr>inp := []\<rparr>)))
             else if flavor s1 = X_CRC \<or> flavor s1 = X_1K \<or> flavor s1 = X_1K_G then
               (if c = first_byte s1 then Inr (Next (start_sending s1))
                else if c = C_NAK then
                  Inr (Next (start_sending (downgrade_to_vanilla_xmodem s1)))
                else Inr (Return (s1\<lparr>inp := []\<rparr>)))
             else
               (if c = first_byte s1 then Inr (Next (s1\<lparr>state := YMODEM_BLOCK0\<rparr>))
                else Inr (Next s1)))))"

section \<open>The Ymodem start-up\<close>

definition send_current_block :: "xfer \<Rightarrow> xfer" where
  "send_current_block s = s\<lparr>outp := outp s @ take (current_block_n s) (current_block s)\<rparr>"

definition send_block0 :: "xfer \<Rightarrow> fault + xfer ctl" where
  "send_block0 s =
     (if state s \<noteq> YMODEM_BLOCK0 then Inr (Next s)
      else
        bind_res (ymodem_construct_block_0 s) (\<lambda>s1.
          if outp s1 \<noteq> [] then Inl Assert_failed
          else
           (let s2 = send_current_block s1;
                s3 = (if filename s2 = None then s2
                      else set_transfer_stats_last_message (Msg ''SENDING HEADER'') s2)
            in Inr (Return ((reset_timer (s3\<lparr>state := YMODEM_BLOCK0_ACK1\<rparr>))\<lparr>inp := []\<rparr>)))))"

text \<open>71 is the letter G.\<close>

definition block0_ack1_answer :: "xfer \<Rightarrow> xfer" where
  "block0_ack1_answer s =
     (if flavor s = Y_NORMAL then
        (let s1 = s\<lparr>state := YMODEM_BLOCK0_ACK2\<rparr> in
         if length (inp s1) = 2 \<and> inp s1 ! 1 = first_byte s1
         then s1\<lparr>state := BLOCK, inp := [C_ACK]\<rparr> else s1)
      else s\<lparr>state := BLOCK, inp := []\<rparr>)"

definition send_block0_ack1 :: "xfer \<Rightarrow> fault + xfer ctl" where
  "send_block0_ack1 s =
     (if state s \<noteq> YMODEM_BLOCK0_ACK1 then Inr (Next s)
      else if flavor s = Y_G \<and> filename s = None then
        Inr (Return ((stats_file_complete_ok s)\<lparr>inp := []\<rparr>))
      else if inp s = [] then Inr (Return (snd (check_timeout s)))
      else
       (let answered = ((hd (inp s) = C_ACK \<and> flavor s = Y_NORMAL)
                        \<or> (hd (inp s) = 71 \<and> flavor s = Y_G)) in
        if answered \<and> filename s = None then
          Inr (Return ((stats_file_complete_ok s)\<lparr>inp := []\<rparr>))
        else
         (let s1 = (if answered then block0_ack1_answer s else s) in
          if length (inp s1) = 1 \<and> hd (inp s1) = C_NAK then
            Inr (Return (s1\<lparr>state := YMODEM_BLOCK0, current_block_sequence_i := 0, inp := []\<rparr>))
          else Inr (Next (set_transfer_stats_last_message (Msg '''') s1)))))"

definition send_block0_ack2 :: "xfer \<Rightarrow> fault + xfer ctl" where
  "send_block0_ack2 s =
     (if state s \<noteq> YMODEM_BLOCK0_ACK2 then Inr (Next s)
      else if inp s = [] then Inr (Return (snd (check_timeout s)))
      else
       (let s1 = (if inp s = [first_byte s] then s\<lparr>state := BLOCK, inp := [C_ACK]\<rparr> else s)
        in Inr (Next (set_transfer_stats_last_message (Msg '''') s1))))"

section \<open>BLOCK and PURGE_INPUT\<close>

definition streaming :: "xfer \<Rightarrow> bool" where
  "streaming s \<longleftrightarrow> flavor s = X_1K_G \<or> flavor s = Y_G"

definition send_next_block :: "xfer \<Rightarrow> fault + xfer ctl" where
  "send_next_block s =
     bind_res (construct_block (clear_block (reset_timer s))) (\<lambda>(ok, s1).
       if \<not> ok then Inr (Return (s1\<lparr>inp := []\<rparr>))
       else if \<not> streaming s1 \<and> outp s1 \<noteq> [] then Inl Assert_failed
       else
        (let s2 = send_current_block s1;
             s3 = (if state s2 = LAST_BLOCK then
                     s2\<lparr>stats := (stats s2)\<lparr>ts_bytes_transfer := ts_bytes_total (stats s2)\<rparr>\<rparr>
                   else stats_increment_blocks (case inp s2 of [] \<Rightarrow> 0 | c # _ \<Rightarrow> c) s2)
         in Inr (Return (s3\<lparr>inp := []\<rparr>))))"

definition send_block :: "xfer \<Rightarrow> fault + xfer ctl" where
  "send_block s =
     (if state s \<noteq> BLOCK then Inr (Next s)
      else if inp s = [C_ACK] \<or> streaming s then send_next_block s
      else if inp s = [C_NAK] then
        Inr (Return ((stats_increment_errors (Msg ''NAK'')
               (s\<lparr>prior_state := BLOCK, state := PURGE_INPUT\<rparr>))\<lparr>inp := []\<rparr>))
      else if inp s = [] then
       (let (timed_out, s1) = check_timeout s
        in Inr (Return (if timed_out then s1\<lparr>prior_state := BLOCK, state := PURGE_INPUT\<rparr>
                        else s1)))
      else
        Inr (Return ((stats_increment_errors (Msg ''LINE NOISE, !@#&*%U'')
               (s\<lparr>prior_state := BLOCK, state := PURGE_INPUT\<rparr>))\<lparr>inp := []\<rparr>)))"

definition send_purge :: "xfer \<Rightarrow> fault + xfer ctl" where
  "send_purge s =
     (if state s \<noteq> PURGE_INPUT then Inr (Next s)
      else
       (let s1 = reset_timer s in
        if inp s1 \<noteq> [] then Inr (Return (s1\<lparr>inp := []\<rparr>))
        else if prior_state s1 = BLOCK \<or> prior_state s1 = LAST_BLOCK then
          (if outp s1 \<noteq> [] then Inl Assert_failed
           else Inr (Return ((send_current_block s1)\<lparr>state := prior_state s1, inp := []\<rparr>)))
        else Inr (Return (s1\<lparr>state := prior_state s1, inp := []\<rparr>))))"

section \<open>The end of a file\<close>

definition send_last_block :: "xfer \<Rightarrow> fault + xfer ctl" where
  "send_last_block s =
     (if state s \<noteq> LAST_BLOCK then Inr (Next s)
      else if inp s = [C_ACK] \<or> streaming s then
       (let s1 = set_transfer_stats_last_message (Msg ''SENDING EOT'')
                   (s\<lparr>outp := outp s @ [C_EOT], state := EOT_ACK\<rparr>);
            s2 = s1\<lparr>stats := (stats s1)
                       \<lparr>ts_blocks_transfer := ts_blocks_transfer (stats s1) + 1,
                        ts_bytes_transfer := ts_bytes_total (stats s1)\<rparr>\<rparr>
        in Inr (Return ((reset_timer s2)\<lparr>inp := []\<rparr>)))
      else if inp s = [C_NAK] then
        Inr (Return ((stats_increment_errors (Msg ''NAK'')
               (s\<lparr>prior_state := LAST_BLOCK, state := PURGE_INPUT\<rparr>))\<lparr>inp := []\<rparr>))
      else if inp s = [] then Inr (Return (snd (check_timeout s)))
      else
        Inr (Return (stats_increment_errors (Msg ''LINE NOISE, !@#&*%U'')
               (s\<lparr>prior_state := LAST_BLOCK, state := PURGE_INPUT\<rparr>))))"

text \<open>
  The acknowledgement of EOT. A Ymodem batch goes on with the next file (whether it could be
  opened is not looked at); the input keeps what follows the ACK.
\<close>

definition send_next_file :: "xfer \<Rightarrow> fault + xfer ctl" where
  "send_next_file s =
     (let s1 = set_transfer_stats_last_message (Msg ''EOF'') s;
          s2 = s1\<lparr>stats := (stats s1)\<lparr>ts_bytes_transfer := ts_bytes_total (stats s1)\<rparr>,
                  upload_file_list_i := upload_file_list_i s1 + 1\<rparr>
      in bind_res (setup_for_next_file s2) (\<lambda>(_, s3).
           let s4 = clear_block (s3\<lparr>current_block_sequence_i := 0, current_block_number := 1,
                                    timeout_count := 0\<rparr>);
               s5 = reset_timer (s4\<lparr>state := INIT\<rparr>)
           in Inr (Return (if 1 < length (inp s5) then s5\<lparr>inp := tl (inp s5)\<rparr> else s5))))"

definition send_eot_ack :: "xfer \<Rightarrow> fault + xfer ctl" where
  "send_eot_ack s =
     (if state s \<noteq> EOT_ACK then Inr (Next s)
      else if inp s = [] then
       (let (timed_out, s1) = check_timeout s
        in Inr (Return (if timed_out then s1\<lparr>outp := outp s1 @ [C_EOT]\<rparr> else s1)))
      else if hd (inp s) = C_ACK then
       (case file_p s of
          None \<Rightarrow> Inl Null_pointer
        | Some f \<Rightarrow>
           (let s1 = s\<lparr>fsys := fclose f (fsys s), file_p := None\<rparr>
            in if is_ymodem (flavor s1) then send_next_file s1
               else Inr (Next (stats_file_complete_ok s1))))
      else Inr (Next s))"

definition xmodem_send :: "xfer \<Rightarrow> fault + xfer" where
  "xmodem_send s =
     finish (seq_ctl (seq_ctl (seq_ctl (seq_ctl (seq_ctl (seq_ctl (seq_ctl (seq_ctl (seq_ctl
       (send_cancel s) send_init) send_block0) send_block0_ack1) send_block0_ack2)
       send_block) send_purge) send_last_block) send_eot_ack)
       (\<lambda>s1. Inr (Return (s1\<lparr>inp := []\<rparr>))))"

end
