(* ===== verification/Xmodem_Session.thy ===== *)
theory Xmodem_Session
  imports Xmodem_Receive Xmodem_Send
begin

text \<open>
  The entry points of \<open>xmodem.c\<close>: \<open>xmodem_start\<close> and \<open>ymodem_start\<close> open a session, \<open>xmodem\<close>
  runs the bytes that have arrived through the sender or the receiver until they are used up.
  \<open>xmodem_stop\<close> and \<open>ymodem_stop\<close> are in \<open>Transfer_World\<close>.
\<close>

section \<open>The input loop\<close>

text \<open>\<open>do { step } while (n > 0)\<close>; \<open>None\<close> if it never ends.\<close>

partial_function (option) run_input ::
    "(xfer \<Rightarrow> fault + xfer) \<Rightarrow> xfer \<Rightarrow> (fault + xfer) option" where
  "run_input step s =
     (case step s of
        Inl e \<Rightarrow> Some (Inl e)
      | Inr s1 \<Rightarrow> if inp s1 = [] then Some (Inr s1) else run_input step s1)"

definition input_loop :: "(xfer \<Rightarrow> fault + xfer) \<Rightarrow> xfer \<Rightarrow> fault + xfer" where
  "input_loop step s = (case run_input step s of None \<Rightarrow> Inl Diverges | Some r \<Rightarrow> r)"

text \<open>The states in which a turn of the loop starts.\<close>

inductive reaches :: "(xfer \<Rightarrow> fault + xfer) \<Rightarrow> xfer \<Rightarrow> xfer \<Rightarrow> bool" for step where
  reaches_here: "reaches step s s"
| reaches_next: "step s = Inr s1 \<Longrightarrow> inp s1 \<noteq> [] \<Longrightarrow> reaches step s1 s2 \<Longrightarrow> reaches step s s2"

text \<open>
  \<open>xmodem\<close>: the state after the call and the new value of \<open>*remaining\<close>, which is only set when
  the input was processed. \<open>output_max - *output_n\<close> is computed as an \<open>unsigned int\<close>.
\<close>

definition xmodem :: "byte list \<Rightarrow> int \<Rightarrow> int \<Rightarrow> xfer \<Rightarrow> fault + xfer \<times> int" where
  "xmodem input remaining output_max s =
     (if output_max \<le> int XMODEM_MAX_BLOCK_SIZE then Inl Assert_failed
      else if state s = ABORT then Inr (s, remaining)
      else if \<not> sending s then
        bind_res (input_loop xmodem_receive (s\<lparr>inp := input\<rparr>)) (\<lambda>s1. Inr (s1, 0))
      else if (word_of_int output_max - of_nat (length (outp s)) :: u32)
                < of_nat XMODEM_MAX_BLOCK_SIZE then Inr (s, remaining)
      else bind_res (input_loop xmodem_send (s\<lparr>inp := input\<rparr>)) (\<lambda>s1. Inr (s1, 0)))"

section \<open>Opening a session\<close>

text \<open>Opening the file of an Xmodem session: whether \<open>stat\<close> and \<open>fopen\<close> succeed.\<close>

definition start_open :: "path \<Rightarrow> bool \<Rightarrow> xfer \<Rightarrow> bool \<times> xfer" where
  "start_open in_filename send s =
     (if send then
        (if stat_size in_filename (fsys s) = None then (False, s)
         else case fopen_rb in_filename (fsys s) of
           None \<Rightarrow> (False, s\<lparr>file_p := None\<rparr>)
         | Some f \<Rightarrow> (True, reset_timer (s\<lparr>file_p := Some f\<rparr>)))
      else
        (case fopen_wb in_filename (fsys s) of
           None \<Rightarrow> (False, s\<lparr>file_p := None\<rparr>)
         | Some f \<Rightarrow> (True, s\<lparr>file_p := Some f, fsys := created in_filename (fsys s)\<rparr>)))"

text \<open>
  The size and the number of blocks of an upload (\<open>blocks % 128\<close>, as the code has it).
\<close>

definition start_sizes :: "int \<Rightarrow> xfer \<Rightarrow> fault + xfer" where
  "start_sizes fsize s =
     (let count = (\<lambda>n. let b = word_of_int (c_quot fsize (int n)) :: u64
                       in if 0 < b mod of_nat n then b + 1 else b);
          set_counts = (\<lambda>n. s\<lparr>stats := (stats s)\<lparr>ts_bytes_total := word_of_int fsize,
                                                  ts_blocks := count n\<rparr>\<rparr>)
      in case flavor s of
           X_RELAXED \<Rightarrow> Inr (set_counts 128)
         | X_NORMAL \<Rightarrow> Inr (set_counts 128)
         | X_CRC \<Rightarrow> Inr (set_counts 128)
         | X_1K \<Rightarrow> Inr (set_counts 1024)
         | X_1K_G \<Rightarrow> Inr (set_counts 1024)
         | _ \<Rightarrow> Inl Abort_called)"

text \<open>67 and 71 are the letters C and G.\<close>

definition start_first_byte :: "xfer \<Rightarrow> fault + xfer" where
  "start_first_byte s =
     (case flavor s of
        X_RELAXED \<Rightarrow> Inr (s\<lparr>timeout_max := timeout_max s * 10, first_byte := C_NAK\<rparr>)
      | X_NORMAL \<Rightarrow> Inr (s\<lparr>first_byte := C_NAK\<rparr>)
      | X_CRC \<Rightarrow> Inr (s\<lparr>first_byte := 67\<rparr>)
      | X_1K \<Rightarrow> Inr (s\<lparr>first_byte := 67\<rparr>)
      | X_1K_G \<Rightarrow> Inr (s\<lparr>first_byte := 71\<rparr>)
      | _ \<Rightarrow> Inl Abort_called)"

definition xmodem_start :: "path \<Rightarrow> bool \<Rightarrow> xmodem_flavor \<Rightarrow> xfer \<Rightarrow> fault + bool \<times> xfer" where
  "xmodem_start in_filename send in_flavor s =
     (let (opened_ok, s1) = start_open in_filename send (s\<lparr>state := ABORT\<rparr>) in
      if \<not> opened_ok then Inr (False, s1)
      else
         (let s2 = clear_block
                     (s1\<lparr>filename := Some in_filename, sending := send, flavor := in_flavor,
                         state := INIT, current_block_sequence_i := 1, current_block_number := 1,
                         timeout_count := 0, timeout_max := 10\<rparr>);
              sized = (if sending s2 then
                         (case stat_size in_filename (fsys s2) of
                            None \<Rightarrow> Inr (False, s2)
                          | Some sz \<Rightarrow> bind_res (start_sizes sz s2) (\<lambda>s3. Inr (True, s3)))
                       else Inr (True, s2))
          in bind_res sized (\<lambda>(ok, s3).
               if \<not> ok then Inr (False, s3)
               else
                (let s4 = s3\<lparr>stats := (stats s3)\<lparr>ts_block_size :=
                            (if flavor s3 = X_1K \<or> flavor s3 = X_1K_G then 1024 else 128)\<rparr>\<rparr>
                 in bind_res (start_first_byte s4) (\<lambda>s5.
                      Inr (True, set_transfer_stats_last_message (Msg '''') s5))))))"

definition ymodem_start ::
    "file_info list \<Rightarrow> path \<Rightarrow> bool \<Rightarrow> xmodem_flavor \<Rightarrow> xfer \<Rightarrow> fault + bool \<times> xfer" where
  "ymodem_start file_list pathname send in_flavor s =
     (let s0 = s\<lparr>state := ABORT, upload_file_list := file_list, upload_file_list_i := 0\<rparr>;
          opened_r = (if send then setup_for_next_file s0
                      else Inr (True, set_transfer_stats_pathname (Some pathname)
                             (set_transfer_stats_filename []
                               (s0\<lparr>download_path := Some pathname\<rparr>))))
      in bind_res opened_r (\<lambda>(ok, s1).
           if \<not> ok then Inr (False, s1)
           else
            (let s2 = clear_block
                        (s1\<lparr>sending := send, flavor := in_flavor, state := INIT,
                            current_block_sequence_i := 0, current_block_number := 1,
                            block0_has_been_seen := False, timeout_count := 0,
                            timeout_max := 10\<rparr>);
                 s3 = s2\<lparr>stats := (stats s2)\<lparr>ts_block_size := 1024\<rparr>,
                         first_byte := (if flavor s2 = Y_NORMAL then 67 else 71)\<rparr>
             in Inr (True, set_transfer_stats_last_message (Msg '''') s3))))"

end
