(* ===== verification/Samples.thy ===== *)
theory Samples
  imports Xmodem_Session
begin

text \<open>
  Concrete states: an idle session on an empty or one-file file system, from which the
  examples of the other theories start.
\<close>

definition idle_stats :: tstats where
  "idle_stats =
     \<lparr>ts_state = Q_TRANSFER_STATE_TRANSFER, ts_protocol = Q_PROTOCOL_XMODEM_CRC,
      ts_protocol_name = None, ts_filename = None, ts_pathname = None, ts_last_message = None,
      ts_bytes_total = 0, ts_bytes_transfer = 0, ts_blocks = 0, ts_block_size = 128,
      ts_blocks_transfer = 0, ts_error_count = 0, ts_batch_bytes_total = 0,
      ts_batch_bytes_transfer = 0, ts_batch_start_time = 0, ts_file_start_time = 0,
      ts_end_time = 0\<rparr>"

definition idle_ascii :: ascii_xfer where
  "idle_ascii =
     \<lparr>ax_state = ASCII_XFER_STATE_OK, ax_file = None, ax_filename = None, ax_sending = False,
      ax_upload_use_xlate_table = False, ax_download_use_xlate_table = False,
      ax_upload_cr_handling = ASCII_XFER_CRLF_NONE, ax_upload_lf_handling = ASCII_XFER_CRLF_NONE,
      ax_download_cr_handling = ASCII_XFER_CRLF_NONE,
      ax_download_lf_handling = ASCII_XFER_CRLF_NONE\<rparr>"

definition idle :: "fsys \<Rightarrow> xfer" where
  "idle fs =
     \<lparr>fsys = fs, now = 1000, q_download_location = None, batch_upload_file_list = None,
      stats = idle_stats, ascii_st = idle_ascii, filename = None, file_p = None,
      current_block = replicate 1029 0, current_block_n = 0, current_block_sequence_i = 1,
      current_block_number = 1, first_byte = 0, sending = False, state = ABORT,
      prior_state = INIT, timeout_begin = 1000, timeout_max = 10, timeout_count = 0,
      flavor = X_CRC, upload_file_list = [], upload_file_list_i = 0, download_path = None,
      download_file_modtime = 0, block0_has_been_seen = False, inp = [], outp = []\<rparr>"

text \<open>A file that is open at its start, or at its end after it was written.\<close>

definition open_file :: "byte list \<Rightarrow> nat \<Rightarrow> cfile" where
  "open_file d pos =
     \<lparr>f_name = ascii ''f'', f_data = d, f_pos = pos, f_eof = False, f_err = False,
      f_bad = False, f_room = None\<rparr>"

lemma idle_fields [simp]:
  "fsys (idle fs) = fs" "now (idle fs) = 1000" "stats (idle fs) = idle_stats"
  "ascii_st (idle fs) = idle_ascii" "filename (idle fs) = None" "file_p (idle fs) = None"
  "q_download_location (idle fs) = None" "batch_upload_file_list (idle fs) = None"
  "current_block (idle fs) = replicate 1029 0" "current_block_n (idle fs) = 0"
  "current_block_sequence_i (idle fs) = 1" "current_block_number (idle fs) = 1"
  "first_byte (idle fs) = 0" "\<not> sending (idle fs)" "state (idle fs) = ABORT"
  "prior_state (idle fs) = INIT" "timeout_begin (idle fs) = 1000" "timeout_max (idle fs) = 10"
  "timeout_count (idle fs) = 0" "flavor (idle fs) = X_CRC" "upload_file_list (idle fs) = []"
  "upload_file_list_i (idle fs) = 0" "download_path (idle fs) = None"
  "download_file_modtime (idle fs) = 0" "\<not> block0_has_been_seen (idle fs)"
  "inp (idle fs) = []" "outp (idle fs) = []"
  by (simp_all add: idle_def)

lemma open_file_fields [simp]:
  "f_name (open_file d n) = ascii ''f''" "f_data (open_file d n) = d" "f_pos (open_file d n) = n"
  "\<not> f_eof (open_file d n)" "\<not> f_err (open_file d n)" "\<not> f_bad (open_file d n)"
  "f_room (open_file d n) = None"
  by (simp_all add: open_file_def)

lemma idle_stats_fields [simp]:
  "ts_protocol idle_stats = Q_PROTOCOL_XMODEM_CRC" "ts_error_count idle_stats = 0"
  "ts_bytes_total idle_stats = 0" "ts_bytes_transfer idle_stats = 0"
  "ts_block_size idle_stats = 128"
  by (simp_all add: idle_stats_def)

end
