(* ===== verification/Xmodem_Invariant.thy ===== *)
theory Xmodem_Invariant
  imports Xmodem_Session Samples
begin

text \<open>
  What the sender and the receiver of \<open>xmodem.c\<close> keep true on every call, and why the loop of
  \<open>xmodem\<close> over its input ends. The loop relies on its handler through the locale
  \<open>input_handler\<close>; the receiver and the sender are its two instances.
\<close>

section \<open>The contract of a handler\<close>

text \<open>
  A handler keeps an invariant, and a call that leaves input behind lowers a rank.
\<close>

locale input_handler =
  fixes step :: "xfer \<Rightarrow> fault + xfer"
    and inv :: "xfer \<Rightarrow> bool"
    and rank :: "xfer \<Rightarrow> nat"
  assumes step_inv: "inv s \<Longrightarrow> step s = Inr s1 \<Longrightarrow> inv s1"
    and step_rank: "step s = Inr s1 \<Longrightarrow> inp s1 \<noteq> [] \<Longrightarrow> rank s1 < rank s"
begin

lemma run_total: "\<exists>r. run_input step s = Some r"
proof (induction "rank s" arbitrary: s rule: less_induct)
  case less
  show ?case
  proof (cases "step s")
    case (Inl e)
    then show ?thesis by (subst run_input.simps) simp
  next
    case (Inr s1)
    show ?thesis
    proof (cases "inp s1 = []")
      case True
      with Inr show ?thesis by (subst run_input.simps) simp
    next
      case False
      with Inr have "rank s1 < rank s" by (rule step_rank)
      then obtain r where "run_input step s1 = Some r" using less by blast
      with Inr False show ?thesis by (subst run_input.simps) simp
    qed
  qed
qed

lemma run_inv:
  "inv s \<Longrightarrow> run_input step s = Some (Inr s1) \<Longrightarrow> inv s1 \<and> inp s1 = []"
proof (induction "rank s" arbitrary: s rule: less_induct)
  case less
  show ?case
  proof (cases "step s")
    case (Inl e)
    with less.prems show ?thesis by (subst (asm) run_input.simps) simp
  next
    case (Inr s2)
    with less.prems have inv2: "inv s2" by (blast intro: step_inv)
    show ?thesis
    proof (cases "inp s2 = []")
      case True
      with Inr less.prems inv2 show ?thesis by (subst (asm) run_input.simps) simp
    next
      case False
      with Inr have "rank s2 < rank s" by (rule step_rank)
      moreover have "run_input step s2 = Some (Inr s1)"
        using Inr False less.prems by (subst (asm) run_input.simps) simp
      ultimately show ?thesis using less.hyps inv2 by blast
    qed
  qed
qed

lemma loop_inv: "inv s \<Longrightarrow> input_loop step s = Inr s1 \<Longrightarrow> inv s1 \<and> inp s1 = []"
  unfolding input_loop_def by (cases "run_input step s") (auto dest: run_inv)

text \<open>The loop itself never fails: a fault is one of a turn that the loop comes to.\<close>

lemma run_fault:
  "run_input step s = Some (Inl e) \<Longrightarrow> \<exists>s1. reaches step s s1 \<and> step s1 = Inl e"
proof (induction "rank s" arbitrary: s rule: less_induct)
  case less
  show ?case
  proof (cases "step s")
    case (Inl e')
    with less.prems have "step s = Inl e" by (subst (asm) run_input.simps) simp
    then show ?thesis using reaches_here by blast
  next
    case (Inr s1)
    with less.prems have "inp s1 \<noteq> []" "run_input step s1 = Some (Inl e)"
      by (subst (asm) run_input.simps, auto split: if_splits)+
    with Inr less.hyps show ?thesis by (blast intro: step_rank reaches_next)
  qed
qed

lemma loop_fault: "input_loop step s = Inl e \<Longrightarrow> \<exists>s1. reaches step s s1 \<and> step s1 = Inl e"
  using run_total [of s] by (auto simp: input_loop_def intro: run_fault)

end

section \<open>Every call uses up input\<close>

text \<open>
  \<open>uses_input s r\<close>: a section that returns leaves no input, or less than it was given; one that
  falls through leaves the input alone.
\<close>

fun uses_input :: "xfer \<Rightarrow> fault + xfer ctl \<Rightarrow> bool" where
  "uses_input s (Inl e) = True"
| "uses_input s (Inr (Return s1)) = (inp s1 = [] \<or> length (inp s1) < length (inp s))"
| "uses_input s (Inr (Next s1)) = (inp s1 = inp s)"

lemma uses_input_seq:
  "uses_input s m \<Longrightarrow> (\<And>s1. m = Inr (Next s1) \<Longrightarrow> uses_input s1 (f s1)) \<Longrightarrow>
    uses_input s (seq_ctl m f)"
  by (cases "(m, f)" rule: seq_ctl.cases) (auto, metis uses_input.elims(1) uses_input.simps)

lemma uses_input_bind:
  "(\<And>x. m = Inr x \<Longrightarrow> uses_input s (f x)) \<Longrightarrow> uses_input s (bind_res m f)"
  by (cases m) auto

lemma verify_block_inp: "verify_block s = Inr (ok, s1) \<Longrightarrow> inp s1 = inp s"
  by (auto simp: verify_block_def write_block_def Let_def split: option.splits prod.splits if_splits)

lemma recv_eot_uses: "uses_input s (recv_eot s1)"
  by (simp add: recv_eot_def uses_input_bind)

lemma recv_init_uses: "uses_input s (recv_init s)"
  by (simp add: recv_init_def Let_def)

lemma recv_first_block_uses: "uses_input s (recv_first_block s)"
  by (simp add: recv_first_block_def first_block_timeout_def Let_def)

lemma recv_g_uses:
  assumes "inp s \<noteq> []"
  shows "uses_input s (recv_g s)"
proof -
  have shorter: "uses_input s (Inr (Return s2))"
    if "verify_block (s\<lparr>current_block := cb, inp := drop k (inp s), current_block_n := n\<rparr>)
          = Inr (ok, s1)" "0 < k" "inp s2 = inp s1 \<or> inp s2 = []" for cb k n ok s1 s2
    using that assms verify_block_inp [OF that(1)] by auto
  show ?thesis
    unfolding recv_g_def Let_def
    by (auto simp: recv_eot_uses simp del: uses_input.simps(2) intro!: uses_input_bind elim!: shorter)
      simp_all
qed

lemma recv_block0_uses: "uses_input s (recv_block0 s1)"
  by (auto simp: recv_block0_def Let_def purge_block_def intro!: uses_input_bind split: option.splits)

lemma recv_data_uses: "uses_input s (recv_data s1)"
  by (auto simp: recv_data_def Let_def purge_block_def intro!: uses_input_bind)

lemma recv_wait_inp [simp]: "inp (recv_wait s) = inp s"
  by (simp add: recv_wait_def Let_def split_beta)

lemma recv_block_uses: "uses_input s (recv_block s)"
proof (cases "state s = BLOCK \<and> inp s \<noteq> []")
  case True
  have "uses_input s (recv_g (reset_timer s))"
    using recv_g_uses [of "reset_timer s"] True
    by (cases "(s, recv_g (reset_timer s))" rule: uses_input.cases) auto
  with True show ?thesis
    by (simp add: recv_block_def Let_def purge_block_def recv_eot_uses recv_block0_uses
        recv_data_uses)
next
  case False
  then show ?thesis by (auto simp: recv_block_def)
qed

lemma xmodem_receive_uses:
  assumes "xmodem_receive s = Inr s1" "inp s1 \<noteq> []"
  shows "length (inp s1) < length (inp s)"
proof -
  let ?finally_purge = "\<lambda>s1. Inr (Return (recv_purge s1))"
  have "uses_input s (seq_ctl (seq_ctl (seq_ctl (recv_init s) recv_first_block) recv_block) ?finally_purge)"
    by (intro uses_input_seq recv_init_uses recv_first_block_uses recv_block_uses)
      (simp add: recv_purge_def Let_def)
  with assms show ?thesis
    by (auto simp: xmodem_receive_def finish_Inr seq_ctl_Inr)
qed

text \<open>
  The sender leaves input behind only on its way to a state in which the next call discards it.
\<close>

definition settled :: "xfer \<Rightarrow> bool" where
  "settled s \<longleftrightarrow>
     state s = PURGE_INPUT \<or> state s = ABORT \<or> (state s = INIT \<and> is_ymodem (flavor s))"

definition send_rank :: "xfer \<Rightarrow> nat" where
  "send_rank s = (if settled s then 0 else 1)"

fun leaves_settled :: "fault + xfer ctl \<Rightarrow> bool" where
  "leaves_settled (Inr (Return s)) = (inp s = [] \<or> settled s)"
| "leaves_settled _ = True"

lemma leaves_settled_seq:
  "leaves_settled m \<Longrightarrow> (\<And>s. leaves_settled (f s)) \<Longrightarrow> leaves_settled (seq_ctl m f)"
  by (cases "(m, f)" rule: seq_ctl.cases) auto

lemma leaves_settled_bind: "(\<And>x. leaves_settled (f x)) \<Longrightarrow> leaves_settled (bind_res m f)"
  by (cases m) auto

lemma errors_settled: "state s = PURGE_INPUT \<Longrightarrow> settled (stats_increment_errors m s)"
  by (simp add: stats_increment_errors_def settled_def Let_def)

lemma setup_for_next_file_flavor:
  "setup_for_next_file s = Inr (b, s1) \<Longrightarrow> flavor s1 = flavor s"
  by (auto simp: setup_for_next_file_def Let_def split: if_splits option.splits)

lemma send_next_file_settled: "is_ymodem (flavor s) \<Longrightarrow> leaves_settled (send_next_file s)"
  unfolding send_next_file_def Let_def
  by (cases "setup_for_next_file ((set_transfer_stats_last_message (Msg ''EOF'') s)
        \<lparr>stats := (stats (set_transfer_stats_last_message (Msg ''EOF'') s))
            \<lparr>ts_bytes_transfer := ts_bytes_total (stats (set_transfer_stats_last_message (Msg ''EOF'') s))\<rparr>,
         upload_file_list_i := upload_file_list_i (set_transfer_stats_last_message (Msg ''EOF'') s) + 1\<rparr>)")
    (auto simp: settled_def dest: setup_for_next_file_flavor)

lemma send_sections_settled:
  "leaves_settled (send_cancel s)" "leaves_settled (send_init s)" "leaves_settled (send_block0 s)"
  "leaves_settled (send_block0_ack1 s)" "leaves_settled (send_block0_ack2 s)"
  "leaves_settled (send_block s)" "leaves_settled (send_purge s)"
  "leaves_settled (send_last_block s)" "leaves_settled (send_eot_ack s)"
  by (auto simp: send_cancel_def send_init_def send_block0_def send_block0_ack1_def
      send_block0_ack2_def send_block_def send_next_block_def send_purge_def send_last_block_def
      send_eot_ack_def Let_def split_beta errors_settled send_next_file_settled
      intro!: leaves_settled_bind split: list.splits option.splits)

lemma xmodem_send_settled:
  assumes "xmodem_send s = Inr s1" "inp s1 \<noteq> []"
  shows "settled s1"
proof -
  let ?r = "seq_ctl (seq_ctl (seq_ctl (seq_ctl (seq_ctl (seq_ctl (seq_ctl (seq_ctl (seq_ctl
       (send_cancel s) send_init) send_block0) send_block0_ack1) send_block0_ack2)
       send_block) send_purge) send_last_block) send_eot_ack) (\<lambda>s1. Inr (Return (s1\<lparr>inp := []\<rparr>)))"
  have "leaves_settled ?r" by (intro leaves_settled_seq send_sections_settled) simp
  moreover have "?r = Inr (Return s1)"
    using assms by (auto simp: xmodem_send_def finish_Inr seq_ctl_Inr)
  ultimately show ?thesis using assms by simp
qed

text \<open>A section whose state is not the current one falls through.\<close>

lemma send_skip:
  "state s \<noteq> INIT \<Longrightarrow> send_init s = Inr (Next s)"
  "state s \<noteq> YMODEM_BLOCK0 \<Longrightarrow> send_block0 s = Inr (Next s)"
  "state s \<noteq> YMODEM_BLOCK0_ACK1 \<Longrightarrow> send_block0_ack1 s = Inr (Next s)"
  "state s \<noteq> YMODEM_BLOCK0_ACK2 \<Longrightarrow> send_block0_ack2 s = Inr (Next s)"
  "state s \<noteq> BLOCK \<Longrightarrow> send_block s = Inr (Next s)"
  "state s \<noteq> PURGE_INPUT \<Longrightarrow> send_purge s = Inr (Next s)"
  "state s \<noteq> LAST_BLOCK \<Longrightarrow> send_last_block s = Inr (Next s)"
  "state s \<noteq> EOT_ACK \<Longrightarrow> send_eot_ack s = Inr (Next s)"
  by (simp_all add: send_init_def send_block0_def send_block0_ack1_def send_block0_ack2_def
      send_block_def send_purge_def send_last_block_def send_eot_ack_def)

lemma send_block0_clears:
  "state s = YMODEM_BLOCK0 \<Longrightarrow> send_block0 s = Inr c \<Longrightarrow> \<exists>s1. c = Return s1 \<and> inp s1 = []"
  by (auto simp: send_block0_def Let_def bind_res_Inr split: if_splits)

text \<open>From such a state the sections before the end fall through or discard the input.\<close>

lemma settled_send_clears:
  assumes "settled s" "xmodem_send s = Inr s1"
  shows "inp s1 = []"
proof -
  consider "state s = PURGE_INPUT" | "state s = ABORT" | "state s = INIT" "is_ymodem (flavor s)"
    using assms(1) by (auto simp: settled_def)
  then show ?thesis
  proof cases
    case 1
    with assms(2) show ?thesis
      by (auto simp: xmodem_send_def send_cancel_def send_skip send_purge_def Let_def
          split: if_splits)
  next
    case 2
    with assms(2) show ?thesis
      by (auto simp: xmodem_send_def send_cancel_def send_skip split: if_splits)
  next
    case 3
    show ?thesis
    proof (cases "inp s = [] \<or> hd (inp s) = C_CAN")
      case True
      with 3 assms(2) show ?thesis
        by (auto simp: xmodem_send_def send_cancel_def send_init_def Let_def split: if_splits)
    next
      case False
      then obtain c cs where inp: "inp s = c # cs" "c \<noteq> C_CAN" by (cases "inp s") auto
      let ?s = "set_transfer_stats_last_message (Msg ''WAITING FOR NAK'') s"
      have init: "seq_ctl (send_cancel s) send_init
                = Inr (Next (if c = first_byte s then ?s\<lparr>state := YMODEM_BLOCK0\<rparr> else ?s))"
        using inp 3 by (auto simp: send_cancel_def send_init_def Let_def is_ymodem_def)
      show ?thesis
      proof (cases "c = first_byte s")
        case True
        then have "seq_ctl (seq_ctl (send_cancel s) send_init) send_block0
                 = send_block0 (?s\<lparr>state := YMODEM_BLOCK0\<rparr>)" by (simp add: init)
        then show ?thesis
          using assms(2) send_block0_clears [of "?s\<lparr>state := YMODEM_BLOCK0\<rparr>"]
          by (cases "send_block0 (?s\<lparr>state := YMODEM_BLOCK0\<rparr>)") (auto simp: xmodem_send_def)
      next
        case False
        with init 3 assms(2) show ?thesis by (auto simp: xmodem_send_def send_skip)
      qed
    qed
  qed
qed

lemma xmodem_send_rank:
  "xmodem_send s = Inr s1 \<Longrightarrow> inp s1 \<noteq> [] \<Longrightarrow> send_rank s1 < send_rank s"
  using xmodem_send_settled settled_send_clears by (auto simp: send_rank_def)

section \<open>The block buffer\<close>

text \<open>
  \<open>current_block\<close> is an array of 1029 bytes and \<open>current_block_n\<close> an index into it. A
  \<open>memcpy\<close> past its end would lengthen the list, so the invariant says that there is none.
\<close>

definition buf_ok :: "xfer \<Rightarrow> bool" where
  "buf_ok s \<longleftrightarrow> length (current_block s) = XMODEM_MAX_BLOCK_SIZE
               \<and> current_block_n s \<le> XMODEM_MAX_BLOCK_SIZE"

lemma buf_ok_cong:
  "current_block s1 = current_block s \<Longrightarrow> current_block_n s1 = current_block_n s \<Longrightarrow>
    buf_ok s1 = buf_ok s"
  by (simp add: buf_ok_def)

lemma buf_ok_helpers [simp]:
  "buf_ok (clear_block s)"
  "buf_ok (reset_timer s) = buf_ok s"
  "buf_ok (set_transfer_stats_last_message m s) = buf_ok s"
  "buf_ok (stop_file_transfer q s) = buf_ok s"
  "buf_ok (stats_increment_errors m s) = buf_ok s"
  "buf_ok (stats_file_cancelled m s) = buf_ok s"
  "buf_ok (stats_file_complete_ok s) = buf_ok s"
  "buf_ok (stats_increment_blocks c s) = buf_ok s"
  "buf_ok (stats_new_file a b d e s) = buf_ok s"
  "buf_ok (downgrade_to_vanilla_xmodem s) = buf_ok s"
  "buf_ok (snd (check_timeout s)) = buf_ok s"
  "buf_ok (close_file s) = buf_ok s"
  by (simp_all add: buf_ok_def)

lemma buf_ok_updates [simp]:
  "buf_ok (s\<lparr>state := x1\<rparr>) = buf_ok s" "buf_ok (s\<lparr>prior_state := x2\<rparr>) = buf_ok s"
  "buf_ok (s\<lparr>inp := x3\<rparr>) = buf_ok s" "buf_ok (s\<lparr>outp := x4\<rparr>) = buf_ok s"
  "buf_ok (s\<lparr>stats := x5\<rparr>) = buf_ok s" "buf_ok (s\<lparr>file_p := x6\<rparr>) = buf_ok s"
  "buf_ok (s\<lparr>fsys := x7\<rparr>) = buf_ok s" "buf_ok (s\<lparr>filename := x8\<rparr>) = buf_ok s"
  "buf_ok (s\<lparr>timeout_count := x9\<rparr>) = buf_ok s"
  "buf_ok (s\<lparr>current_block_sequence_i := x10\<rparr>) = buf_ok s"
  "buf_ok (s\<lparr>current_block_number := x11\<rparr>) = buf_ok s"
  "buf_ok (s\<lparr>block0_has_been_seen := x12\<rparr>) = buf_ok s"
  "buf_ok (s\<lparr>download_file_modtime := x13\<rparr>) = buf_ok s"
  "buf_ok (s\<lparr>upload_file_list_i := x14\<rparr>) = buf_ok s"
  by (simp_all add: buf_ok_def)

lemma buf_ok_wait [simp]: "buf_ok (recv_wait s) = buf_ok s"
  by (simp add: recv_wait_def Let_def split_beta)

lemma write_block_ok: "buf_ok s \<Longrightarrow> all_res (\<lambda>(ok, s1). buf_ok s1) (write_block s)"
  by (simp add: write_block_def Let_def split_beta split: option.splits)

lemma verify_block_ok: "buf_ok s \<Longrightarrow> all_res (\<lambda>(ok, s1). buf_ok s1) (verify_block s)"
  by (simp add: verify_block_def write_block_ok split: option.splits)

lemma recv_eot_ok: "all_ctl buf_ok (recv_eot s)"
proof -
  have "all_res buf_ok (recv_eot_ymodem s)" "all_res buf_ok (recv_eot_xmodem s)" if "buf_ok s" for s
    using that by (simp_all add: recv_eot_ymodem_def recv_eot_xmodem_def Let_def
        split: option.splits sum.splits prod.splits)
  then have "all_res buf_ok ((if is_ymodem (flavor s) then recv_eot_ymodem else recv_eot_xmodem)
      (clear_block s))" by simp
  then show ?thesis unfolding recv_eot_def by (rule all_ctl_bind) simp
qed

lemma scan_field_bound: "snd (scan_field stop k cb n) \<le> n + k"
proof (induction k arbitrary: n)
  case 0
  then show ?case by simp
next
  case (Suc k)
  from Suc [of "Suc n"] show ?case by (simp add: split_beta)
qed

lemma decode_block0_ok:
  "buf_ok s \<Longrightarrow> all_res (\<lambda>(ok, s1). buf_ok s1) (ymodem_decode_block_0 s)"
proof -
  have open_ok: "all_res (\<lambda>(ok, s1). buf_ok s1) (block0_open fname n s)"
    if "buf_ok s" "n \<le> 300" for fname n s
  proof -
    let ?stop = "\<lambda>b :: byte. b = 0 \<or> b = 32"
    have b1: "snd (scan_field ?stop 255 (current_block s) n) \<le> 555"
      using scan_field_bound [of ?stop 255 "current_block s" n] that(2) by linarith
    have b2: "snd (scan_field ?stop 255 cb (Suc m)) \<le> 811" if "m \<le> 555" for cb m
      using scan_field_bound [of ?stop 255 cb "Suc m"] that by linarith
    have b3: "snd (scan_field ?stop 255 cb (Suc (snd (scan_field ?stop 255 (current_block s) n))))
               \<le> 1029" for cb
      using b2 [OF b1, of cb] by linarith
    show ?thesis
      using that(1) b3
      by (simp add: block0_open_def Let_def split_beta buf_ok_def split: option.splits)
  qed
  have b0: "snd (scan_field stop 255 cb 3) \<le> 258" for stop cb
    using scan_field_bound [of stop 255 cb 3] by linarith
  assume ok: "buf_ok s"
  have "snd (scan_field (\<lambda>b. b = 0) 255 (current_block s) 3) + 1 \<le> 300"
    using b0 [of "\<lambda>b. b = 0" "current_block s"] by linarith
  moreover from this have "buf_ok (s\<lparr>current_block_n :=
      snd (scan_field (\<lambda>b. b = 0) 255 (current_block s) 3) + 1, filename := x\<rparr>)" for x
    using ok by (simp add: buf_ok_def)
  ultimately show ?thesis
    using ok open_ok
    by (simp add: ymodem_decode_block_0_def Let_def split_beta split: option.splits)
qed

lemma recv_g_ok:
  assumes "buf_ok s"
  shows "all_ctl buf_ok (recv_g s)"
proof -
  let ?n = "if current_block s ! 0 = C_SOH then 128 + 5 else 1024 + 5 :: nat"
  let ?m = "current_block_n s"
  have n: "?n \<le> 1029" by simp
  show ?thesis
  proof (cases "?n \<le> ?m \<or> length (inp s) + ?m < ?n")
    case True
    with assms n show ?thesis
      by (auto simp: recv_g_def Let_def recv_eot_ok buf_ok_def)
  next
    case False
    let ?s = "s\<lparr>current_block := blit ?m (take (?n - ?m) (inp s)) (current_block s),
                inp := drop (?n - ?m) (inp s), current_block_n := ?n\<rparr>"
    have "buf_ok ?s"
      using assms False n by (auto simp: buf_ok_def)
    then have "all_res (\<lambda>(ok, s1). buf_ok s1) (verify_block ?s)" by (rule verify_block_ok)
    then have "all_ctl buf_ok (bind_res (verify_block ?s) (\<lambda>(ok, s2).
        Inr (Return (if ok then clear_block (stats_increment_blocks (current_block s2 ! 0) s2)
          else (stats_file_cancelled (Msg ''Xmodem 1K/G error'') (clear_block s2))\<lparr>inp := []\<rparr>))))"
      by (rule all_ctl_bind) auto
    with False show ?thesis by (simp only: recv_g_def Let_def if_False de_Morgan_disj)
  qed
qed

lemma purge_block_ok [simp]: "buf_ok (purge_block s) = buf_ok s"
  by (simp add: purge_block_def)

lemma recv_block0_ok: "buf_ok s \<Longrightarrow> all_ctl buf_ok (recv_block0 s)"
  unfolding recv_block0_def
  by (auto simp: Let_def split: option.splits intro!: all_ctl_bind [OF decode_block0_ok])

lemma recv_data_ok: "buf_ok s \<Longrightarrow> all_ctl buf_ok (recv_data s)"
  unfolding recv_data_def
  by (auto intro!: all_ctl_bind [OF verify_block_ok])

lemma recv_append_ok:
  "buf_ok s \<Longrightarrow> current_block_n s + length (inp s) \<le> XMODEM_MAX_BLOCK_SIZE \<Longrightarrow>
    buf_ok (recv_append s)"
  by (simp add: buf_ok_def recv_append_def)

lemma recv_block_ok: "buf_ok s \<Longrightarrow> all_ctl buf_ok (recv_block s)"
  using recv_append_ok [of "reset_timer s"]
  by (auto simp: recv_block_def Let_def recv_g_ok recv_eot_ok
      intro: recv_block0_ok recv_data_ok)

lemma first_block_timeout_ok [simp]: "buf_ok (first_block_timeout s) = buf_ok s"
  by (simp add: first_block_timeout_def Let_def)

lemma xmodem_receive_ok:
  assumes "buf_ok s" "xmodem_receive s = Inr s1"
  shows "buf_ok s1"
proof -
  have "all_ctl buf_ok (recv_init s)"
    using assms(1) by (simp add: recv_init_def Let_def)
  moreover have "buf_ok s' \<Longrightarrow> all_ctl buf_ok (recv_first_block s')" for s'
    by (simp add: recv_first_block_def)
  moreover have "buf_ok s' \<Longrightarrow> buf_ok (recv_purge s')" for s'
    by (simp add: recv_purge_def Let_def)
  ultimately have "all_res buf_ok (xmodem_receive s)"
    unfolding xmodem_receive_def
    by (intro all_res_finish all_ctl_seq) (auto intro: recv_block_ok)
  with assms(2) show ?thesis by simp
qed

section \<open>The sender's blocks\<close>

lemma setup_for_next_file_ok:
  "buf_ok s \<Longrightarrow> all_res (\<lambda>(ok, s1). buf_ok s1) (setup_for_next_file s)"
  by (simp add: setup_for_next_file_def Let_def split: option.splits)

lemma put_ok [simp]:
  "length (current_block s) = 1029 \<Longrightarrow> buf_ok (put_crc 128 h s)"
  "length (current_block s) = 1029 \<Longrightarrow> buf_ok (put_crc 1024 h s)"
  "length (current_block s) = 1029 \<Longrightarrow> buf_ok (put_checksum s)"
  "buf_ok (put_sequence s) = buf_ok s"
  by (simp_all add: buf_ok_def put_crc_def put_checksum_def put_sequence_def Let_def)

lemma construct_block_ok:
  assumes "buf_ok s"
  shows "all_res (\<lambda>(ok, s1). buf_ok s1) (construct_block s)"
proof (cases "file_p s")
  case None
  then show ?thesis by (simp add: construct_block_def)
next
  case (Some f)
  have len: "length (fst (fread 128 f)) \<le> 128" "length (fst (fread 1024 f)) \<le> 1024"
    by (rule length_fread)+
  have cb: "length (current_block s) = 1029" "current_block_n s \<le> 1029"
    using assms by (simp_all add: buf_ok_def)
  show ?thesis
    using Some len cb
    by (auto simp: construct_block_def Let_def split_beta)
      (auto simp: buf_ok_def)
qed

lemma construct_block_0_ok: "all_res buf_ok (ymodem_construct_block_0 s)"
  by (auto simp: ymodem_construct_block_0_def Let_def intro!: all_res_bind [where P = "\<lambda>_. True"]
      split: option.splits)

lemma send_current_block_ok [simp]: "buf_ok (send_current_block s) = buf_ok s"
  by (simp add: send_current_block_def)

lemma send_sections_ok:
  assumes "buf_ok s"
  shows "all_ctl buf_ok (send_cancel s)" "all_ctl buf_ok (send_init s)"
    "all_ctl buf_ok (send_block0 s)" "all_ctl buf_ok (send_block0_ack1 s)"
    "all_ctl buf_ok (send_block0_ack2 s)" "all_ctl buf_ok (send_block s)"
    "all_ctl buf_ok (send_purge s)" "all_ctl buf_ok (send_last_block s)"
    "all_ctl buf_ok (send_eot_ack s)"
proof -
  have next_block: "all_ctl buf_ok (send_next_block s)"
    unfolding send_next_block_def using assms
    by (intro all_ctl_bind [OF construct_block_ok]) (auto simp: Let_def)
  have next_file: "all_ctl buf_ok (send_next_file s')" if "buf_ok s'" for s'
    unfolding send_next_file_def Let_def using that
    by (intro all_ctl_bind [OF setup_for_next_file_ok]) auto
  show "all_ctl buf_ok (send_block0 s)"
    unfolding send_block0_def
    by (auto simp: assms Let_def intro!: all_ctl_bind [OF construct_block_0_ok])
  show "all_ctl buf_ok (send_cancel s)" "all_ctl buf_ok (send_init s)"
    "all_ctl buf_ok (send_block0_ack1 s)" "all_ctl buf_ok (send_block0_ack2 s)"
    "all_ctl buf_ok (send_block s)" "all_ctl buf_ok (send_purge s)"
    "all_ctl buf_ok (send_last_block s)" "all_ctl buf_ok (send_eot_ack s)"
    using assms next_block next_file
    by (auto simp: send_cancel_def send_init_def start_sending_def send_block0_ack1_def
        block0_ack1_answer_def send_block0_ack2_def send_block_def send_purge_def
        send_last_block_def send_eot_ack_def Let_def split_beta
        split: list.splits option.splits)
qed

lemma xmodem_send_ok:
  assumes "buf_ok s" "xmodem_send s = Inr s1"
  shows "buf_ok s1"
proof -
  have "all_res buf_ok (xmodem_send s)"
    unfolding xmodem_send_def
    using assms(1) by (intro all_res_finish all_ctl_seq) (auto intro: send_sections_ok)
  with assms(2) show ?thesis by simp
qed

section \<open>The two handlers meet the contract\<close>

interpretation recv: input_handler xmodem_receive buf_ok "\<lambda>s. length (inp s)"
  by unfold_locales (auto intro: xmodem_receive_ok dest: xmodem_receive_uses)

interpretation send: input_handler xmodem_send buf_ok send_rank
  by unfold_locales (auto intro: xmodem_send_ok xmodem_send_rank)

lemma xmodem_buf_ok:
  assumes "buf_ok s" "xmodem input remaining output_max s = Inr (s1, r)"
  shows "buf_ok s1"
proof -
  have ok: "buf_ok (s\<lparr>inp := input\<rparr>)" using assms(1) by simp
  show ?thesis
    using assms(2) recv.loop_inv [OF ok] send.loop_inv [OF ok] assms(1)
    by (auto simp: xmodem_def bind_res_Inr split: if_splits)
qed

section \<open>Which calls fail\<close>

text \<open>\<open>fails_only e Q m\<close>: when \<open>m\<close> is the fault \<open>e\<close>, then \<open>Q\<close> holds.\<close>

definition fails_only :: "fault \<Rightarrow> bool \<Rightarrow> fault + 'a \<Rightarrow> bool" where
  "fails_only e Q m \<longleftrightarrow> (m = Inl e \<longrightarrow> Q)"

lemma fails_only_simps [simp]:
  "fails_only e Q (Inr x)" "fails_only e Q (Inl e') = (e' = e \<longrightarrow> Q)"
  by (auto simp: fails_only_def)

lemma fails_only_bind:
  "fails_only e Q m \<Longrightarrow> (\<And>x. m = Inr x \<Longrightarrow> fails_only e Q (f x)) \<Longrightarrow> fails_only e Q (bind_res m f)"
  by (cases m) auto

lemma fails_only_seq:
  "fails_only e Q m \<Longrightarrow> (\<And>s. m = Inr (Next s) \<Longrightarrow> fails_only e Q (f s)) \<Longrightarrow> fails_only e Q (seq_ctl m f)"
  by (cases "(m, f)" rule: seq_ctl.cases) auto

lemma fails_only_finish: "fails_only e Q m \<Longrightarrow> fails_only e Q (finish m)"
  by (cases m rule: finish.cases) (auto simp: fails_only_def)

text \<open>The receiver: a call that does not end is in the loop that strips SUBs from the file.\<close>

definition strips_for_ever :: "xfer \<Rightarrow> bool" where
  "strips_for_ever s \<longleftrightarrow>
     \<not> is_ymodem (flavor s) \<and> (\<exists>f. file_p s = Some f \<and> strip_subs f None 0 = None)"

lemma strips_cong:
  "file_p s1 = file_p s \<Longrightarrow> flavor s1 = flavor s \<Longrightarrow> strips_for_ever s1 = strips_for_ever s"
  by (simp add: strips_for_ever_def)

lemma verify_block_fails: "e \<noteq> Null_pointer \<Longrightarrow> fails_only e Q (verify_block s)"
  by (auto simp: verify_block_def write_block_def Let_def split: option.splits prod.splits)

lemma decode_block0_fails:
  "e \<noteq> Null_pointer \<Longrightarrow> e \<noteq> Assert_failed \<Longrightarrow> e \<noteq> Buffer_overflow \<Longrightarrow> fails_only e Q (ymodem_decode_block_0 s)"
  by (auto simp: ymodem_decode_block_0_def block0_open_def Let_def split: option.splits prod.splits)

lemma strip_subs_fails: "strip_subs f lb k = Some r \<Longrightarrow> r = Inl e \<Longrightarrow> e = Uninitialised"
proof (induction f lb k r rule: strip_subs.raw_induct [rotated 1, consumes 1, case_names turn])
  case (turn rec f lb k r)
  then show ?case by (auto split: prod.splits option.splits if_splits)
qed

lemma recv_eot_diverges:
  assumes "file_p s1 = file_p s" "flavor s1 = flavor s"
  shows "fails_only Diverges (strips_for_ever s) (recv_eot s1)"
proof -
  have c: "file_p (clear_block s1) = file_p s" "flavor (clear_block s1) = flavor s"
    using assms by (simp_all add: clear_block_def)
  have "fails_only Diverges (strips_for_ever s)
      ((if is_ymodem (flavor s1) then recv_eot_ymodem else recv_eot_xmodem) (clear_block s1))"
    using c assms
    by (auto simp: recv_eot_ymodem_def recv_eot_xmodem_def strips_for_ever_def Let_def
        dest: strip_subs_fails split: option.splits sum.splits)
  then show ?thesis unfolding recv_eot_def by (rule fails_only_bind) simp
qed

lemma recv_eot_block: "fails_only Block_overflow Q (recv_eot s)"
proof -
  have "fails_only Block_overflow Q ((if is_ymodem (flavor s) then recv_eot_ymodem else recv_eot_xmodem) (clear_block s))"
    by (auto simp: recv_eot_ymodem_def recv_eot_xmodem_def Let_def dest: strip_subs_fails
        split: option.splits sum.splits)
  then show ?thesis unfolding recv_eot_def by (rule fails_only_bind) simp
qed

lemma recv_block_fails:
  assumes "e \<noteq> Null_pointer" "e \<noteq> Assert_failed" "e \<noteq> Buffer_overflow"
    and eot: "\<And>s1. file_p s1 = file_p s \<Longrightarrow> flavor s1 = flavor s \<Longrightarrow> fails_only e Q (recv_eot s1)"
  shows "fails_only e Q (recv_block s)"
proof -
  have g: "fails_only e Q (recv_g (reset_timer s))"
    using assms by (auto simp: recv_g_def Let_def intro!: fails_only_bind verify_block_fails eot)
  have b0: "fails_only e Q (recv_block0 s')" and d: "fails_only e Q (recv_data s')" for s'
    using assms by (auto simp: recv_block0_def recv_data_def Let_def
        intro!: fails_only_bind verify_block_fails decode_block0_fails split: option.splits)
  show ?thesis
    using g b0 d by (auto simp: recv_block_def Let_def recv_append_def intro!: eot)
qed

lemma xmodem_receive_fails:
  assumes "e \<noteq> Null_pointer" "e \<noteq> Assert_failed" "e \<noteq> Buffer_overflow"
    and eot: "\<And>s1. file_p s1 = file_p s \<Longrightarrow> flavor s1 = flavor s \<Longrightarrow> fails_only e Q (recv_eot s1)"
  shows "fails_only e Q (xmodem_receive s)"
proof -
  have "fails_only e Q (seq_ctl (recv_init s) recv_first_block)"
    by (rule fails_only_seq) (auto simp: recv_init_def recv_first_block_def Let_def)
  moreover have "fails_only e Q (recv_block s1)"
    if "seq_ctl (recv_init s) recv_first_block = Inr (Next s1)" for s1
  proof (rule recv_block_fails [OF assms(1-3)])
    have "file_p s1 = file_p s" "flavor s1 = flavor s"
      using that by (auto simp: recv_init_def recv_first_block_def Let_def split: if_splits)
    then show "file_p s2 = file_p s1 \<Longrightarrow> flavor s2 = flavor s1 \<Longrightarrow> fails_only e Q (recv_eot s2)" for s2
      using eot by simp
  qed
  ultimately show ?thesis
    unfolding xmodem_receive_def
    by (rule fails_only_finish [OF fails_only_seq [OF fails_only_seq]]) auto
qed

lemma receive_diverges: "xmodem_receive s = Inl Diverges \<Longrightarrow> strips_for_ever s"
  using xmodem_receive_fails [of Diverges s "strips_for_ever s"] recv_eot_diverges [of _ s]
  by (simp add: fails_only_def)

lemma receive_in_block: "xmodem_receive s \<noteq> Inl Block_overflow"
  using xmodem_receive_fails [of Block_overflow s False] recv_eot_block [of False]
  by (auto simp: fails_only_def)

text \<open>The sender: its calls end, and it only writes past the block for the name in block 0.\<close>

definition long_name :: "xfer \<Rightarrow> bool" where
  "long_name s \<longleftrightarrow> is_ymodem (flavor s) \<and> (\<exists>fname. filename s = Some fname \<and> 980 < length fname)"

lemma construct_block_0_fails:
  "fails_only Block_overflow (long_name s) (ymodem_construct_block_0 s)"
  "fails_only Diverges Q (ymodem_construct_block_0 s)"
proof -
  have text_le: "length (block0_text fname fi) \<le> length fname + 44" for fname fi
  proof -
    have "nat (fi_size fi mod 2 ^ 64) < 10 ^ 20" "nat (fi_mtime fi mod 2 ^ 64) < 8 ^ 22"
      using pos_mod_bound [of "2 ^ 64 :: int" "fi_size fi"] pos_mod_bound [of "2 ^ 64 :: int" "fi_mtime fi"]
      by (simp_all add: nat_less_iff)
    then have "length (digits_of 10 (nat (fi_size fi mod 2 ^ 64))) \<le> 20"
      "length (digits_of 8 (nat (fi_mtime fi mod 2 ^ 64))) \<le> 22"
      by (simp_all add: length_digits_of)
    then show ?thesis by (simp add: block0_text_def)
  qed
  have "980 < length fname" if "XMODEM_MAX_BLOCK_SIZE < 3 + length (block0_text fname fi)" for fname fi
    using that text_le [of fname fi] by simp
  then show "fails_only Block_overflow (long_name s) (ymodem_construct_block_0 s)"
    unfolding ymodem_construct_block_0_def Let_def long_name_def fails_only_def
    by (auto simp: bind_res_Inl split: option.splits if_splits)
  show "fails_only Diverges Q (ymodem_construct_block_0 s)"
    by (auto simp: ymodem_construct_block_0_def Let_def intro!: fails_only_bind split: option.splits)
qed

lemma send_sections_fail:
  assumes "e = Block_overflow \<or> e = Diverges"
  shows "fails_only e Q (send_block0_ack1 s)" "fails_only e Q (send_block0_ack2 s)"
    "fails_only e Q (send_block s)" "fails_only e Q (send_purge s)"
    "fails_only e Q (send_last_block s)" "fails_only e Q (send_eot_ack s)"
proof -
  have "fails_only e Q (construct_block s')" for s'
    using assms by (auto simp: construct_block_def Let_def split: option.splits prod.splits)
  then have next_block: "fails_only e Q (send_next_block s')" for s'
    using assms by (auto simp: send_next_block_def Let_def intro!: fails_only_bind)
  have "fails_only e Q (setup_for_next_file s')" for s'
    using assms by (auto simp: setup_for_next_file_def Let_def split: option.splits)
  then have next_file: "fails_only e Q (send_next_file s')" for s'
    by (auto simp: send_next_file_def Let_def intro!: fails_only_bind)
  show "fails_only e Q (send_block0_ack1 s)" "fails_only e Q (send_block0_ack2 s)"
    "fails_only e Q (send_block s)" "fails_only e Q (send_purge s)"
    "fails_only e Q (send_last_block s)" "fails_only e Q (send_eot_ack s)"
    using assms next_block next_file
    by (auto simp: send_block0_ack1_def send_block0_ack2_def send_block_def send_purge_def
        send_last_block_def send_eot_ack_def Let_def split: option.splits prod.splits)
qed

lemma send_block0_fails:
  "fails_only Block_overflow (long_name s) (send_block0 s)" "fails_only Diverges Q (send_block0 s)"
  unfolding send_block0_def Let_def
  by (auto intro!: fails_only_bind construct_block_0_fails)

lemma send_start:
  assumes "seq_ctl (send_cancel s) send_init = Inr (Next s1)" "long_name s1"
  shows "long_name s"
  using assms
  by (auto simp: send_cancel_def send_init_def start_sending_def long_name_def is_ymodem_def Let_def
      split: if_splits list.splits)

lemma xmodem_send_fails:
  assumes "e = Block_overflow \<and> Q = long_name s \<or> e = Diverges"
  shows "fails_only e Q (xmodem_send s)"
proof -
  have e: "e = Block_overflow \<or> e = Diverges" using assms by blast
  have start: "fails_only e Q (seq_ctl (send_cancel s) send_init)"
    using e by (intro fails_only_seq) (auto simp: send_cancel_def send_init_def Let_def split: list.splits)
  moreover have "fails_only e Q (send_block0 s1)"
    if "seq_ctl (send_cancel s) send_init = Inr (Next s1)" for s1
    using assms send_start [OF that] send_block0_fails(1) [of s1] send_block0_fails(2) [of Q s1] by (auto simp: fails_only_def)
  ultimately have "fails_only e Q (seq_ctl (seq_ctl (send_cancel s) send_init) send_block0)"
    by (rule fails_only_seq)
  note go = fails_only_seq [OF this send_sections_fail(1) [OF e]]
  note go = fails_only_seq [OF go send_sections_fail(2) [OF e]]
  note go = fails_only_seq [OF go send_sections_fail(3) [OF e]]
  note go = fails_only_seq [OF go send_sections_fail(4) [OF e]]
  note go = fails_only_seq [OF go send_sections_fail(5) [OF e]]
  note go = fails_only_seq [OF go send_sections_fail(6) [OF e]]
  show ?thesis
    unfolding xmodem_send_def by (rule fails_only_finish [OF fails_only_seq [OF go]]) simp
qed

lemma send_ends: "xmodem_send s \<noteq> Inl Diverges"
  using xmodem_send_fails [of Diverges False s] by (simp add: fails_only_def)

lemma send_in_block: "xmodem_send s = Inl Block_overflow \<Longrightarrow> long_name s"
  using xmodem_send_fails [of Block_overflow "long_name s" s] by (simp add: fails_only_def)

section \<open>The loop and the buffer\<close>

text \<open>
  C13. The loop of \<open>xmodem\<close> over its input, from every state and on every input. The sender's
  always ends, and no call of it hangs. The receiver's ends too, unless it comes to an EOT with
  a file on which the removal of the padding SUBs does not end (one of nothing but SUBs is of
  this kind): there is no other way to hang.
\<close>

theorem xmodem_loop_ends:
  "\<exists>r1 r2. run_input xmodem_receive s = Some r1 \<and> run_input xmodem_send s = Some r2
     \<and> r2 \<noteq> Inl Diverges
     \<and> (r1 = Inl Diverges \<longrightarrow> (\<exists>s1. reaches xmodem_receive s s1 \<and> strips_for_ever s1))"
  using recv.run_total [of s] send.run_total [of s] recv.run_fault [of s Diverges]
    send.run_fault [of s Diverges] receive_diverges send_ends by blast

text \<open>
  C12. Memory safety of the block buffer \<open>current_block\<close>, for a call of \<open>xmodem\<close> on any input: a
  call that returns has written inside its 1029 bytes only and leaves \<open>current_block_n\<close> inside
  it. The only call that writes past the end is the upload of a Ymodem block 0 whose file name
  is longer than 980 bytes, which the code copies without a check.
\<close>

theorem xmodem_keeps_buffer:
  assumes "buf_ok s"
  shows "case xmodem input remaining output_max s of
           Inr (s1, r) \<Rightarrow> buf_ok s1
         | Inl e \<Rightarrow> e = Block_overflow \<longrightarrow>
             sending s \<and> (\<exists>s1. reaches xmodem_send (s\<lparr>inp := input\<rparr>) s1 \<and> long_name s1)"
proof (cases "xmodem input remaining output_max s")
  case (Inl e)
  then show ?thesis
    using recv.loop_fault [of "s\<lparr>inp := input\<rparr>" Block_overflow] receive_in_block
      send.loop_fault [of "s\<lparr>inp := input\<rparr>" Block_overflow] send_in_block
    by (auto simp: xmodem_def bind_res_Inl split: if_splits)
next
  case (Inr p)
  then show ?thesis using xmodem_buf_ok [OF assms] by (cases p) simp
qed

lemma xmodem_keeps_buffer_witness:
  "buf_ok (idle (disk_with [] []))
   \<and> (\<exists>s1. xmodem [1, 2, 3] 0 Q_BUFFER_SIZE ((idle (disk_with [] []))\<lparr>state := BLOCK\<rparr>) = Inr (s1, 0)
        \<and> buf_ok s1)"
proof -
  let ?s = "(idle (disk_with [] []))\<lparr>state := BLOCK\<rparr>"
  have ok: "buf_ok ?s" by (simp add: buf_ok_def)
  let ?s1 = "(recv_append (reset_timer (?s\<lparr>inp := [1, 2, 3]\<rparr>)))\<lparr>inp := []\<rparr>"
  have "xmodem_receive (?s\<lparr>inp := [1, 2, 3]\<rparr>) = Inr ?s1"
    by (simp add: xmodem_receive_def recv_init_def recv_first_block_def recv_block_def
        Let_def g_streaming_def is_ymodem_def recv_append_def recv_data_def block_incomplete_def
        blit_def)
  then have "run_input xmodem_receive (?s\<lparr>inp := [1, 2, 3]\<rparr>) = Some (Inr ?s1)"
    by (subst run_input.simps) simp
  then have call: "xmodem [1, 2, 3] 0 Q_BUFFER_SIZE ?s = Inr (?s1, 0)"
    by (simp add: xmodem_def input_loop_def)
  then show ?thesis using ok xmodem_keeps_buffer [OF ok, of "[1, 2, 3]" 0 Q_BUFFER_SIZE] by auto
qed

end
