(* ===== verification/Xmodem_Frame.thy ===== *)
theory Xmodem_Frame
  imports Xmodem_Invariant
begin

text \<open>
  The format of an Xmodem block as a specification, and the two routines of \<open>xmodem.c\<close> against
  it: \<open>construct_block\<close> puts the frame of the next bytes of the file into the block buffer,
  \<open>verify_block\<close> accepts a buffer that holds a frame and appends its data to the file. The last
  section says exactly which buffers \<open>verify_block\<close> accepts.
\<close>

section \<open>The format\<close>

definition small_blocks :: "xmodem_flavor \<Rightarrow> bool" where
  "small_blocks fl \<longleftrightarrow> fl = X_RELAXED \<or> fl = X_NORMAL \<or> fl = X_CRC"

definition uses_checksum :: "xmodem_flavor \<Rightarrow> bool" where
  "uses_checksum fl \<longleftrightarrow> fl = X_RELAXED \<or> fl = X_NORMAL"

definition frame_check :: "xmodem_flavor \<Rightarrow> byte list \<Rightarrow> byte list" where
  "frame_check fl d = (if uses_checksum fl then [block_checksum d] else [crc_hi d, crc_lo d])"

definition frame :: "xmodem_flavor \<Rightarrow> byte \<Rightarrow> byte list \<Rightarrow> byte list" where
  "frame fl q d =
     [if length d = 1024 then C_STX else C_SOH, q, 0xFF - q] @ d @ frame_check fl d"

definition frame_size_ok :: "xmodem_flavor \<Rightarrow> nat \<Rightarrow> bool" where
  "frame_size_ok fl n \<longleftrightarrow> n = 128 \<or> (n = 1024 \<and> \<not> small_blocks fl)"

text \<open>The bytes of the file that go into the next block, and the block's data.\<close>

definition chunk_size :: "xmodem_flavor \<Rightarrow> nat" where
  "chunk_size fl = (if small_blocks fl then 128 else 1024)"

definition next_chunk :: "xmodem_flavor \<Rightarrow> cfile \<Rightarrow> byte list" where
  "next_chunk fl f = slice (f_pos f) (chunk_size fl) (f_data f)"

definition pad_chunk :: "xmodem_flavor \<Rightarrow> byte list \<Rightarrow> byte list" where
  "pad_chunk fl c =
     c @ replicate ((if length c \<le> 128 then 128 else chunk_size fl) - length c) C_SUB"

lemma length_frame: "length (frame fl q d) = length d + (if uses_checksum fl then 4 else 5)"
  by (simp add: frame_def frame_check_def)

lemma length_next_chunk: "length (next_chunk fl f) \<le> chunk_size fl"
  by (simp add: next_chunk_def)

lemma pad_chunk_size: "length c \<le> chunk_size fl \<Longrightarrow> frame_size_ok fl (length (pad_chunk fl c))"
  by (auto simp: pad_chunk_def frame_size_ok_def chunk_size_def)

section \<open>Sending\<close>

lemma take_framed:
  assumes "k + 5 \<le> length cb"
  shows "take (k + 5) (cb[k + 3 := h, k + 4 := l, 0 := x, 1 := q, 2 := r])
       = [x, q, r] @ slice 3 k cb @ [h, l]"
proof -
  have "0 < length cb" using assms by linarith
  then show ?thesis
    using assms
    by (intro nth_equalityI)
      (auto simp: nth_append nth_list_update slice_def nth_Cons numeral_3_eq_3 split: nat.splits)
qed

lemma take_framed_checksum:
  assumes "k + 4 \<le> length cb"
  shows "take (k + 4) (cb[k + 3 := h, 0 := x, 1 := q, 2 := r]) = [x, q, r] @ slice 3 k cb @ [h]"
proof -
  have "0 < length cb" using assms by linarith
  then show ?thesis
    using assms
    by (intro nth_equalityI)
      (auto simp: nth_append nth_list_update slice_def nth_Cons numeral_3_eq_3 split: nat.splits)
qed

lemma slice_padded:
  assumes "length cb = 1029" "length c \<le> n" "n \<le> 1024" "k \<le> n" "length c \<le> k"
  shows "slice 3 k (blit (3 + length c) (replicate (n - length c) x) (blit 3 c cb))
       = c @ replicate (k - length c) x"
proof -
  have "blit (3 + length c) (replicate (n - length c) x) (blit 3 c cb)
      = blit 3 (c @ replicate (n - length c) x) cb"
    using assms by (intro blit_append) simp
  then show ?thesis
    using assms by (simp add: array_simps)
qed

lemma length_padded:
  "length cb = 1029 \<Longrightarrow> length c \<le> n \<Longrightarrow> n \<le> 1024 \<Longrightarrow>
    length (blit (3 + length c) (replicate (n - length c) x) (blit 3 c cb)) = 1029"
  by simp

text \<open>\<open>construct_block\<close> reads the next chunk and leaves its frame in the buffer.\<close>

definition after_read :: "xmodem_flavor \<Rightarrow> cfile \<Rightarrow> cfile" where
  "after_read fl f =
     f\<lparr>f_pos := f_pos f + length (next_chunk fl f),
       f_eof := (f_eof f \<or> length (next_chunk fl f) < chunk_size fl)\<rparr>"

definition framed_state :: "byte list \<Rightarrow> cfile \<Rightarrow> xfer \<Rightarrow> xfer" where
  "framed_state cb f s =
     s\<lparr>file_p := Some (after_read (flavor s) f),
       current_block := cb,
       current_block_n :=
         length (frame (flavor s) 0 (pad_chunk (flavor s) (next_chunk (flavor s) f))),
       current_block_sequence_i := current_block_sequence_i s + 1,
       current_block_number := current_block_number s + 1,
       state := (if f_eof (after_read (flavor s) f) then LAST_BLOCK else state s)\<rparr>"

text \<open>The state after the read and the padding, and the framing that follows.\<close>

definition padded_state :: "cfile \<Rightarrow> xfer \<Rightarrow> xfer" where
  "padded_state f s =
     (let c = next_chunk (flavor s) f in
      s\<lparr>file_p := Some (after_read (flavor s) f),
        state := (if f_eof (after_read (flavor s) f) then LAST_BLOCK else state s),
        current_block := blit (3 + length c)
          (replicate (chunk_size (flavor s) - length c) C_SUB) (blit 3 c (current_block s))\<rparr>)"

lemma construct_block_steps:
  assumes "file_p s = Some f" "\<not> f_bad f" "\<not> f_err f"
  shows "construct_block s =
     (let s3 = padded_state f s;
          s4 = (if uses_checksum (flavor s) then put_checksum s3
                else if length (next_chunk (flavor s) f) \<le> 128 then put_crc 128 C_SOH s3
                else put_crc 1024 C_STX s3);
          s5 = put_sequence s4
      in Inr (True, s5\<lparr>current_block_number := current_block_number s5 + 1\<rparr>))"
proof -
  have read: "fread (chunk_size (flavor s)) f
            = (next_chunk (flavor s) f, after_read (flavor s) f)"
    using assms(2) by (simp add: fread_def next_chunk_def after_read_def Let_def)
  have err: "\<not> f_err (after_read (flavor s) f)" using assms(3) by (simp add: after_read_def)
  have le: "length (next_chunk (flavor s) f) \<le> chunk_size (flavor s)"
    by (rule length_next_chunk)
  show ?thesis
  proof (cases "flavor s")
    case X_CRC
    then show ?thesis
      using assms(1) read err le
      by (simp add: construct_block_def Let_def chunk_size_def small_blocks_def uses_checksum_def
          padded_state_def)
  qed (use assms(1) read err in
      \<open>simp_all add: construct_block_def Let_def chunk_size_def small_blocks_def uses_checksum_def
         padded_state_def\<close>)
qed

lemma construct_block_frame:
  assumes "length (current_block s) = 1029" "file_p s = Some f" "\<not> f_bad f" "\<not> f_err f"
  shows "\<exists>cb. construct_block s = Inr (True, framed_state cb f s) \<and> length cb = 1029
           \<and> take (current_block_n (framed_state cb f s)) cb
               = frame (flavor s) (current_block_sequence_i s)
                   (pad_chunk (flavor s) (next_chunk (flavor s) f))"
proof -
  let ?fl = "flavor s" and ?q = "current_block_sequence_i s"
  let ?c = "next_chunk ?fl f" and ?n = "chunk_size ?fl"
  let ?d = "pad_chunk ?fl ?c"
  let ?k = "length ?d"
  have n: "?n \<le> 1024" "128 \<le> ?n" by (simp_all add: chunk_size_def)
  have c: "length ?c \<le> ?n" by (rule length_next_chunk)
  have k: "?k = (if length ?c \<le> 128 then 128 else ?n)"
    using c n by (auto simp: pad_chunk_def)
  obtain cb0 where padded: "padded_state f s =
        s\<lparr>file_p := Some (after_read ?fl f), current_block := cb0,
          state := (if f_eof (after_read ?fl f) then LAST_BLOCK else state s)\<rparr>"
    and len0: "length cb0 = 1029" and data: "slice 3 ?k cb0 = ?d"
  proof
    let ?cb0 = "current_block (padded_state f s)"
    show "padded_state f s =
        s\<lparr>file_p := Some (after_read ?fl f), current_block := ?cb0,
          state := (if f_eof (after_read ?fl f) then LAST_BLOCK else state s)\<rparr>"
      by (simp add: padded_state_def Let_def)
    show "length ?cb0 = 1029"
      using assms(1) c n(1) by (simp add: padded_state_def Let_def)
    show "slice 3 ?k ?cb0 = ?d"
      using slice_padded [OF assms(1) c n(1), of ?k C_SUB] c n k
      by (auto simp: pad_chunk_def padded_state_def Let_def)
  qed
  note steps = construct_block_steps [OF assms(2,3,4)]
  show ?thesis
  proof (cases "uses_checksum ?fl")
    case True
    then have k128: "?k = 128" "?n = 128" using k
      by (auto simp: uses_checksum_def chunk_size_def small_blocks_def split: if_splits)
    let ?cb = "cb0[128 + 3 := block_checksum ?d, 0 := C_SOH, 1 := ?q, 2 := 0xFF - ?q]"
    have "construct_block s = Inr (True, framed_state ?cb f s)"
      unfolding steps using True k128 data padded
      by (simp add: Let_def put_checksum_def put_sequence_def framed_state_def length_frame)
    moreover have "take (128 + 4) ?cb = frame ?fl ?q ?d"
      by (subst take_framed_checksum)
        (use len0 data k128 True in \<open>simp_all add: frame_def frame_check_def\<close>)
    ultimately show ?thesis
      using True k128 len0 by (intro exI [of _ ?cb]) (simp add: framed_state_def length_frame)
  next
    case False
    have k2: "?k = (if length ?c \<le> 128 then 128 else 1024)"
      using k c n False by (auto simp: chunk_size_def split: if_splits)
    let ?hdr = "if ?k = 1024 then C_STX else C_SOH"
    let ?cb = "cb0[?k + 3 := crc_hi ?d, ?k + 4 := crc_lo ?d, 0 := ?hdr, 1 := ?q, 2 := 0xFF - ?q]"
    have "construct_block s = Inr (True, framed_state ?cb f s)"
      unfolding steps using False k2 data padded
      by (cases "length ?c \<le> 128")
        (simp_all add: Let_def put_crc_def put_sequence_def framed_state_def length_frame)
    moreover have "take (?k + 5) ?cb = frame ?fl ?q ?d"
      by (subst take_framed)
        (use len0 data k2 n False in \<open>simp_all add: frame_def frame_check_def split: if_splits\<close>)
    ultimately show ?thesis
      using False len0 by (intro exI [of _ ?cb]) (simp add: framed_state_def length_frame)
  qed
qed

section \<open>Receiving\<close>

text \<open>
  The buffer holds a block with the right header, sequence number and length whose check bytes
  were made for the data \<open>d\<close> while the data that arrived is \<open>e\<close>.
\<close>

definition holds_block :: "xfer \<Rightarrow> byte list \<Rightarrow> byte list \<Rightarrow> bool" where
  "holds_block s e d \<longleftrightarrow>
     (let fl = flavor s; q = current_block_sequence_i s; n = length (frame fl q d) in
      length (current_block s) = 1029 \<and> length e = length d \<and> frame_size_ok fl (length d)
      \<and> current_block_n s = n
      \<and> take n (current_block s)
          = [if length d = 1024 then C_STX else C_SOH, q, 0xFF - q] @ e @ frame_check fl d)"

lemma frame_held:
  "length (current_block s) = 1029 \<Longrightarrow> frame_size_ok (flavor s) (length d) \<Longrightarrow>
    current_block_n s = length (frame (flavor s) (current_block_sequence_i s) d) \<Longrightarrow>
    take (current_block_n s) (current_block s)
      = frame (flavor s) (current_block_sequence_i s) d \<Longrightarrow>
    holds_block s d d"
  by (simp add: holds_block_def Let_def frame_def)

lemma take_eq_nth: "take n xs = ys \<Longrightarrow> i < length ys \<Longrightarrow> xs ! i = ys ! i"
  by auto

lemma holds_block_parts:
  assumes "holds_block s e d"
  shows "current_block s ! 0 = (if length d = 1024 then C_STX else C_SOH)"
    "current_block s ! 1 = current_block_sequence_i s"
    "current_block s ! 2 = 0xFF - current_block_sequence_i s"
    "slice 3 (length d) (current_block s) = e"
    "uses_checksum (flavor s) \<Longrightarrow> current_block s ! (length d + 3) = block_checksum d"
    "\<not> uses_checksum (flavor s) \<Longrightarrow> current_block s ! (length d + 3) = crc_hi d"
    "\<not> uses_checksum (flavor s) \<Longrightarrow> current_block s ! (length d + 4) = crc_lo d"
proof -
  let ?n = "length (frame (flavor s) (current_block_sequence_i s) d)"
  let ?h = "[if length d = 1024 then C_STX else C_SOH, current_block_sequence_i s,
             0xFF - current_block_sequence_i s]"
  have len: "length e = length d"
    and t: "take ?n (current_block s) = ?h @ e @ frame_check (flavor s) d"
    using assms by (simp_all add: holds_block_def Let_def)
  note nth = take_eq_nth [OF t]
  show "current_block s ! 0 = (if length d = 1024 then C_STX else C_SOH)"
    "current_block s ! 1 = current_block_sequence_i s"
    "current_block s ! 2 = 0xFF - current_block_sequence_i s"
    using nth [of 0] nth [of 1] nth [of 2] by (simp_all add: numeral_2_eq_2)
  show "uses_checksum (flavor s) \<Longrightarrow> current_block s ! (length d + 3) = block_checksum d"
    "\<not> uses_checksum (flavor s) \<Longrightarrow> current_block s ! (length d + 3) = crc_hi d"
    "\<not> uses_checksum (flavor s) \<Longrightarrow> current_block s ! (length d + 4) = crc_lo d"
    using nth [of "length d + 3"] nth [of "length d + 4"] len
    by (simp_all add: frame_check_def nth_append numeral_3_eq_3 nth_Cons eval_nat_numeral)
  have "slice 3 (length d) (current_block s) = slice 3 (length d) (take ?n (current_block s))"
    by (simp add: slice_def length_frame drop_take)
  also have "\<dots> = e" unfolding t using len by (simp add: slice_def)
  finally show "slice 3 (length d) (current_block s) = e" .
qed

lemma sequence_complement: "unat (q :: byte) + unat (0xFF - q) = 0xFF"
proof -
  have q: "unat q \<le> 255" using unsigned_less [of q, where 'a = nat] by simp
  then have "q \<le> 0xFF" by (simp add: word_le_nat_alt)
  then have "unat (0xFF - q) = unat (0xFF :: byte) - unat q" by (rule unat_sub)
  with q show ?thesis by simp
qed

lemma not_duplicate:
  "current_block s ! 1 = current_block_sequence_i s \<Longrightarrow> duplicate_error s = None"
  by (simp add: duplicate_error_def)

text \<open>
  Which corrupted blocks get through: with a CRC it is enough that one of its two bytes agrees.
\<close>

lemma corrupted_block_accepted_iff:
  assumes "holds_block s e d"
  shows "block_error s = None \<longleftrightarrow>
           (if uses_checksum (flavor s) then block_checksum e = block_checksum d
            else crc_hi e = crc_hi d \<or> crc_lo e = crc_lo d)"
proof -
  note parts = holds_block_parts [OF assms]
  have sz: "frame_size_ok (flavor s) (length d)"
    "current_block_n s = length d + (if uses_checksum (flavor s) then 4 else 5)"
    using assms by (simp_all add: holds_block_def Let_def length_frame)
  have size: "size_error s = None"
    using sz by (cases "flavor s")
      (auto simp: size_error_def Let_def frame_size_ok_def uses_checksum_def small_blocks_def)
  have header: "header_error s = None"
    using sz parts(1) by (cases "flavor s")
      (auto simp: header_error_def Let_def frame_size_ok_def small_blocks_def)
  have seq: "sequence_error s = None"
    using parts(2,3) sequence_complement by (simp add: sequence_error_def Let_def)
  have dup: "duplicate_error s = None" using parts(2) by (rule not_duplicate)
  have check: "check_error s = None \<longleftrightarrow>
           (if uses_checksum (flavor s) then block_checksum e = block_checksum d
            else crc_hi e = crc_hi d \<or> crc_lo e = crc_lo d)"
  proof (cases "length d = 128")
    case True
    then show ?thesis
      using parts(1,4-7) sz
      by (cases "flavor s")
        (auto simp: check_error_def Let_def crc_mismatch_def uses_checksum_def)
  next
    case False
    then have "length d = 1024" "\<not> small_blocks (flavor s)"
      using sz by (auto simp: frame_size_ok_def)
    then show ?thesis
      using parts(1,4-7) sz
      by (cases "flavor s")
        (auto simp: check_error_def Let_def crc_mismatch_def uses_checksum_def small_blocks_def)
  qed
  show ?thesis
    using size header seq dup check
    by (cases "check_error s") (simp_all add: block_error_def)
qed

lemma write_block_frame:
  assumes "holds_block s e d" "file_p s = Some g" "f_room g = None" "f_pos g = length (f_data g)"
  shows "write_block s = Inr (True, s\<lparr>
           file_p := Some (g\<lparr>f_data := f_data g @ e, f_pos := length (f_data g) + length e\<rparr>),
           current_block_sequence_i := current_block_sequence_i s + 1,
           current_block_number := current_block_number s + 1\<rparr>)"
proof -
  have len: "length e = length d" "frame_size_ok (flavor s) (length d)"
    "length (current_block s) = 1029"
    using assms(1) by (simp_all add: holds_block_def Let_def)
  then have fits: "length d \<le> 1024" by (auto simp: frame_size_ok_def)
  from len have n: "(if current_block s ! 0 = C_SOH then 128 else 1024) = length d"
    using holds_block_parts(1) [OF assms(1)] by (auto simp: frame_size_ok_def)
  show ?thesis
    using assms(2) len fits n holds_block_parts(4) [OF assms(1)] fwrite_append [OF assms(3,4)]
    by (simp add: write_block_def Let_def)
qed

lemma verify_block_frame:
  assumes "holds_block s d d" "file_p s = Some g" "f_room g = None" "f_pos g = length (f_data g)"
  shows "verify_block s = Inr (True, s\<lparr>
           file_p := Some (g\<lparr>f_data := f_data g @ d, f_pos := length (f_data g) + length d\<rparr>),
           current_block_sequence_i := current_block_sequence_i s + 1,
           current_block_number := current_block_number s + 1\<rparr>)"
  using corrupted_block_accepted_iff [OF assms(1)] write_block_frame [OF assms]
  by (simp add: verify_block_def split: if_splits)

section \<open>Properties\<close>

definition receives :: "byte list \<Rightarrow> nat \<Rightarrow> xfer \<Rightarrow> xfer" where
  "receives block n s = s\<lparr>current_block := blit 0 (take n block) (replicate 1029 0),
                          current_block_n := n\<rparr>"

text \<open>
  C6. Round trip of a data block: what \<open>construct_block\<close> of a sender puts into its buffer,
  \<open>verify_block\<close> of a receiver with the same flavor and sequence number accepts, for every
  flavor and at every position of the file, appending the next chunk of the sender's file,
  padded with SUBs to the size of the block, to the receiver's file.
\<close>

theorem construct_then_verify:
  assumes "buf_ok a" "file_p a = Some f" "\<not> f_bad f" "\<not> f_err f"
    and "file_p b = Some g" "f_room g = None" "f_pos g = length (f_data g)"
    and "flavor b = flavor a" "current_block_sequence_i b = current_block_sequence_i a"
    and "d = pad_chunk (flavor a) (next_chunk (flavor a) f)"
  shows "\<exists>a1 b1. construct_block a = Inr (True, a1)
    \<and> verify_block (receives (current_block a1) (current_block_n a1) b) = Inr (True, b1)
    \<and> file_p b1 = Some (g\<lparr>f_data := f_data g @ d, f_pos := length (f_data g) + length d\<rparr>)
    \<and> current_block_sequence_i b1 = current_block_sequence_i a1"
proof -
  let ?fl = "flavor a" and ?q = "current_block_sequence_i a"
  have "length (current_block a) = 1029" using assms(1) by (simp add: buf_ok_def)
  then obtain cb where cb: "construct_block a = Inr (True, framed_state cb f a)"
    "length cb = 1029" "take (current_block_n (framed_state cb f a)) cb = frame ?fl ?q d"
    using construct_block_frame [OF _ assms(2,3,4)] assms(10) by blast
  let ?n = "current_block_n (framed_state cb f a)"
  let ?b = "receives cb ?n b"
  have n: "?n = length (frame ?fl ?q d)" "frame_size_ok ?fl (length d)"
    using assms(10) pad_chunk_size [OF length_next_chunk, of ?fl f]
    by (simp_all add: framed_state_def length_frame)
  have "holds_block ?b d d"
  proof (rule frame_held)
    have "?n \<le> 1029" using n by (auto simp: length_frame frame_size_ok_def)
    then show "length (current_block ?b) = 1029" using cb(2) by (simp add: receives_def)
    show "take (current_block_n ?b) (current_block ?b)
        = frame (flavor ?b) (current_block_sequence_i ?b) d"
      using cb(2,3) n assms(8,9) by (simp add: receives_def blit_def)
  qed (use n assms(8,9) in \<open>simp_all add: receives_def length_frame\<close>)
  from verify_block_frame [OF this _ assms(6,7)]
  have "verify_block ?b = Inr (True, ?b\<lparr>
      file_p := Some (g\<lparr>f_data := f_data g @ d, f_pos := length (f_data g) + length d\<rparr>),
      current_block_sequence_i := current_block_sequence_i ?b + 1,
      current_block_number := current_block_number ?b + 1\<rparr>)"
    using assms(5) by (simp add: receives_def)
  with cb(1) assms(9) show ?thesis by (auto simp: framed_state_def receives_def)
qed

lemma construct_then_verify_witness:
  "\<exists>a1 b1. construct_block ((idle (disk_with [] []))\<lparr>file_p := Some (open_file [65, 66] 0)\<rparr>)
        = Inr (True, a1)
    \<and> verify_block (receives (current_block a1) (current_block_n a1)
          ((idle (disk_with [] []))\<lparr>file_p := Some (open_file [] 0)\<rparr>)) = Inr (True, b1)
    \<and> file_p b1 = Some ((open_file [] 0)
          \<lparr>f_data := f_data (open_file [] 0) @ ([65, 66] @ replicate 126 26),
           f_pos := length (f_data (open_file [] 0)) + length ([65, 66] @ replicate 126 26 :: byte list)\<rparr>)
    \<and> current_block_sequence_i b1 = current_block_sequence_i a1"
proof -
  have "[65, 66] @ replicate 126 26 = pad_chunk X_CRC (next_chunk X_CRC (open_file [65, 66] 0))"
    by (simp add: pad_chunk_def next_chunk_def chunk_size_def small_blocks_def slice_def)
  then show ?thesis by (intro construct_then_verify) (simp_all add: buf_ok_def)
qed

text \<open>
  C15. Which corrupted data blocks get through. With a checksum: those whose data has the same
  sum. With a CRC: those of which \<open>one\<close> of the two CRC bytes agrees, because \<open>verify_block\<close>
  rejects a block only when both differ.
\<close>

theorem corrupted_block_written_iff:
  assumes "holds_block s e d" "file_p s = Some g" "f_room g = None" "f_pos g = length (f_data g)"
  shows "(\<exists>s1. verify_block s = Inr (True, s1)
            \<and> file_p s1 = Some (g\<lparr>f_data := f_data g @ e, f_pos := length (f_data g) + length e\<rparr>))
       \<longleftrightarrow> (if uses_checksum (flavor s) then block_checksum e = block_checksum d
            else crc_hi e = crc_hi d \<or> crc_lo e = crc_lo d)"
  using corrupted_block_accepted_iff [OF assms(1)] write_block_frame [OF assms]
  by (auto simp: verify_block_def split: option.splits if_splits)

text \<open>
  A single corrupted byte that is written to the file: the last of 128 zeros became 0x89, which
  leaves the high byte of the CRC as it was.
\<close>

lemma corrupted_block_written_iff_witness:
  "(replicate 127 0 @ [0x89] :: byte list) \<noteq> replicate 128 0 \<and>
   (\<exists>s1. verify_block
        (receives ([C_SOH, 1, 0xFF - 1] @ (replicate 127 0 @ [0x89]) @ frame_check X_CRC (replicate 128 0))
           133 ((idle (disk_with [] []))\<lparr>file_p := Some (open_file [] 0)\<rparr>)) = Inr (True, s1)
      \<and> file_p s1 = Some ((open_file [] 0)
          \<lparr>f_data := f_data (open_file [] 0) @ (replicate 127 0 @ [0x89]),
           f_pos := length (f_data (open_file [] 0)) + length (replicate 127 0 @ [0x89 :: byte])\<rparr>))"
proof -
  let ?e = "replicate 127 0 @ [0x89] :: byte list" and ?d = "replicate 128 0 :: byte list"
  let ?s = "receives ([C_SOH, 1, 0xFF - 1] @ ?e @ frame_check X_CRC ?d) 133
              ((idle (disk_with [] []))\<lparr>file_p := Some (open_file [] 0)\<rparr>)"
  have "holds_block ?s ?e ?d"
    by (simp add: holds_block_def receives_def Let_def length_frame uses_checksum_def
        frame_size_ok_def frame_check_def blit_def)
  moreover have "crc_hi ?e = crc_hi ?d" by code_simp
  moreover have "?e ! 127 \<noteq> ?d ! 127" by (simp add: nth_append)
  then have "?e \<noteq> ?d" by metis
  ultimately show ?thesis
    using corrupted_block_written_iff [of ?s ?e ?d "open_file [] 0"]
    by (simp add: receives_def uses_checksum_def)
qed

end
