(* ===== verification/Xmodem_Strip.thy ===== *)
theory Xmodem_Strip
  imports Xmodem_Frame Xmodem_Invariant
begin

text \<open>
  The loop of \<open>recv_eot_xmodem\<close> that takes the SUBs of the padding off the end of a received
  file: what it leaves, how many turns it takes, and the files on which it never ends.
\<close>

lemma c_int_id: "0 \<le> x \<Longrightarrow> x < 2 ^ 31 \<Longrightarrow> c_int x = x"
proof -
  assume "0 \<le> x" "x < 2 ^ 31"
  then have "- (2 ^ 31) \<le> x \<and> x < 2 ^ 31" by linarith
  then show ?thesis
    by (simp add: c_int_def signed_of_int take_bit_int_eq_self signed_take_bit_int_eq_self)
qed

text \<open>One turn on a file that is not empty: the last byte, and the position after it.\<close>

lemma strip_turn_read:
  assumes "\<not> f_bad f" "f_data f \<noteq> []" "f_pos f < 2 ^ 31"
  shows "strip_turn f lb =
     (int (f_pos f), f\<lparr>f_pos := length (f_data f), f_eof := False\<rparr>, Some (last (f_data f)))"
proof -
  have n: "0 < length (f_data f)" using assms(2) by simp
  have p: "nat (int (length (f_data f)) - 1) = length (f_data f) - 1" using n by linarith
  have "slice (length (f_data f) - 1) 1 (f_data f) = [last (f_data f)]"
    using assms(2) by (cases "f_data f" rule: rev_cases) (simp_all add: slice_def)
  then show ?thesis
    using assms n p
    by (cases f) (simp add: strip_turn_def Let_def fseek_end_def fread_def c_int_id)
qed

text \<open>
  The loop on a file that ends in \<open>k\<close> SUBs after other data, with the position at the end or
  one byte past it (where every other turn leaves it).
\<close>

lemma strip_subs_result:
  assumes "d \<noteq> []" "last d \<noteq> C_SUB"
  shows "f_data f = d @ replicate k C_SUB \<Longrightarrow> \<not> f_bad f \<Longrightarrow>
      f_pos f = length (f_data f) + (if past then 1 else 0) \<Longrightarrow>
      length (f_data f) + 1 < 2 ^ 31 \<Longrightarrow>
      strip_subs f lb n =
        Some (Inr (f\<lparr>f_data := d, f_pos := length d, f_eof := False\<rparr>,
                   n + of_nat (if past then 2 * k else 2 * k - 1)))"
proof (induction "2 * k + (if past then 1 else 0)" arbitrary: f lb n k past rule: less_induct)
  case less
  have ne: "f_data f \<noteq> []" using less.prems(1) assms(1) by simp
  let ?f1 = "f\<lparr>f_pos := length (f_data f), f_eof := False\<rparr>"
  have turn: "strip_turn f lb = (int (f_pos f), ?f1, Some (last (f_data f)))"
    using less.prems ne by (intro strip_turn_read) (auto split: if_splits)
  show ?case
  proof (cases k)
    case 0
    then show ?thesis
      using less.prems(1) turn assms by (subst strip_subs.simps) simp
  next
    case (Suc j)
    have sub: "last (f_data f) = C_SUB" using less.prems(1) Suc by simp
    have step: "strip_subs f lb n =
        strip_subs (ftruncate (int (f_pos f) - 1) ?f1) (Some (last (f_data f))) (n + 1)"
      using turn sub by (subst strip_subs.simps) simp
    show ?thesis
    proof (cases past)
      case True
      then have "ftruncate (int (f_pos f) - 1) ?f1 = ?f1"
        using less.prems(3) by (cases f) (simp add: ftruncate_def)
      then show ?thesis
        using step less.hyps [of k False ?f1 "Some (last (f_data f))" "n + 1"] less.prems True Suc
        by (simp add: algebra_simps)
    next
      case False
      let ?f2 = "f\<lparr>f_data := d @ replicate j C_SUB, f_pos := length (f_data f), f_eof := False\<rparr>"
      have "nat (int (length (f_data f)) - 1) = length d + j" using less.prems(1) Suc by simp
      then have "ftruncate (int (f_pos f) - 1) ?f1 = ?f2"
        using less.prems(1,3) False Suc
        by (cases f) (simp add: ftruncate_def replicate_append_same [symmetric])
      then show ?thesis
        using step less.hyps [of j True ?f2 "Some (last (f_data f))" "n + 1"] less.prems False Suc
        by (simp add: algebra_simps)
    qed
  qed
qed

text \<open>On a file of nothing but SUBs the loop never ends.\<close>

lemma strip_subs_no_result:
  "strip_subs f lb n = Some r \<Longrightarrow> \<not> f_bad f \<Longrightarrow> set (f_data f) \<subseteq> {C_SUB} \<Longrightarrow>
    length (f_data f) \<le> f_pos f \<Longrightarrow> f_pos f \<le> length (f_data f) + 1 \<Longrightarrow>
    length (f_data f) + 1 < 2 ^ 31 \<Longrightarrow> lb = Some C_SUB \<or> (lb = None \<and> f_data f \<noteq> []) \<Longrightarrow> False"
proof (induction f lb n r rule: strip_subs.raw_induct [rotated 1, consumes 1, case_names turn])
  case (turn rec f lb n r)
  note again = turn.IH and now = turn.hyps
  show ?case
  proof (cases "f_data f = []")
    case True
    let ?f1 = "f\<lparr>f_eof := True\<rparr>"
    have one: "strip_turn f lb = (int (f_pos f), ?f1, Some C_SUB)"
      using True turn.prems by (cases f)
        (auto simp: strip_turn_def Let_def fseek_end_def fread_def c_int_id slice_def)
    have "ftruncate (int (f_pos f) - 1) ?f1 = ?f1"
      using True turn.prems by (cases f) (auto simp: ftruncate_def)
    then have "rec ?f1 (Some C_SUB) (n + 1) = Some r" using now one by simp
    then show ?thesis using again [of ?f1] True turn.prems by simp
  next
    case False
    let ?f1 = "f\<lparr>f_pos := length (f_data f), f_eof := False\<rparr>"
    let ?f2 = "ftruncate (int (f_pos f) - 1) ?f1"
    have sub: "last (f_data f) = C_SUB" using False turn.prems(2) last_in_set by blast
    have "strip_turn f lb = (int (f_pos f), ?f1, Some C_SUB)"
      using strip_turn_read [of f lb] False turn.prems sub by simp
    then have next_turn: "rec ?f2 (Some C_SUB) (n + 1) = Some r" using now by simp
    have n: "0 < length (f_data f)" using False by simp
    then have pos: "nat (int (f_pos f) - 1) = f_pos f - 1" "\<not> int (f_pos f) - 1 < 0"
        "f_pos f - 1 \<le> length (f_data f)" "length (f_data f) \<le> Suc (f_pos f - 1)"
      using turn.prems(3,4) by linarith+
    then have "f_data ?f2 = take (f_pos f - 1) (f_data f)" by (simp add: ftruncate_def)
    moreover have "set (take (f_pos f - 1) (f_data f)) \<subseteq> {C_SUB}"
      using turn.prems(2) set_take_subset by fast
    ultimately show ?thesis
      using again [OF next_turn] turn.prems pos by simp
  qed
qed

section \<open>The end of an Xmodem file\<close>

text \<open>
  C39. At the end of a file the receiver takes off exactly the SUBs the file ends in, completes
  the transfer and acknowledges. The byte counts are off, though: after the first SUB each one
  takes two turns of the loop, so \<open>k\<close> SUBs are subtracted \<open>2 * k - 1\<close> times from the totals.
\<close>

theorem recv_eot_strips_padding:
  assumes "file_p s = Some g" "f_data g = d @ replicate k C_SUB" "d \<noteq> []" "last d \<noteq> C_SUB"
    and "\<not> f_bad g" "f_pos g = length (f_data g)" "length (f_data g) + 1 < 2 ^ 31"
  shows "recv_eot_xmodem s = Inr (stats_file_complete_ok
           (s\<lparr>file_p := Some (g\<lparr>f_data := d, f_pos := length d, f_eof := False\<rparr>),
              stats := (stats s)
                \<lparr>ts_bytes_transfer := ts_bytes_transfer (stats s) - of_nat (2 * k - 1),
                 ts_bytes_total := ts_bytes_total (stats s) - of_nat (2 * k - 1)\<rparr>,
              outp := [C_ACK]\<rparr>))"
  using strip_subs_result [of d g k False None 0] assms by (simp add: recv_eot_xmodem_def)

lemma recv_eot_strips_padding_witness:
  "recv_eot_xmodem ((idle (disk_with [] []))\<lparr>file_p := Some (open_file ([65] @ replicate 3 26) 4)\<rparr>)
   = Inr (stats_file_complete_ok
       ((idle (disk_with [] []))\<lparr>file_p := Some (open_file ([65] @ replicate 3 26) 4)\<rparr>
          \<lparr>file_p := Some ((open_file ([65] @ replicate 3 26) 4)
              \<lparr>f_data := [65], f_pos := length [65 :: byte], f_eof := False\<rparr>),
           stats := (stats ((idle (disk_with [] []))\<lparr>file_p := Some (open_file ([65] @ replicate 3 26) 4)\<rparr>))
                \<lparr>ts_bytes_transfer := ts_bytes_transfer
                   (stats ((idle (disk_with [] []))\<lparr>file_p := Some (open_file ([65] @ replicate 3 26) 4)\<rparr>))
                     - of_nat (2 * 3 - 1),
                 ts_bytes_total := ts_bytes_total
                   (stats ((idle (disk_with [] []))\<lparr>file_p := Some (open_file ([65] @ replicate 3 26) 4)\<rparr>))
                     - of_nat (2 * 3 - 1)\<rparr>,
           outp := [C_ACK]\<rparr>))"
  by (rule recv_eot_strips_padding [where g = "open_file ([65] @ replicate 3 26) 4"]) simp_all

text \<open>
  The receiver never comes back from the end of a file of nothing but SUBs (what the sender
  sends for an empty file), and when nothing was received before EOT it looks at \<open>last_byte\<close>
  before anything has been stored in it.
\<close>

theorem recv_eot_empty_file:
  assumes "file_p s = Some g" "f_data g = replicate k C_SUB" "\<not> f_bad g"
    and "f_pos g = length (f_data g)" "length (f_data g) + 1 < 2 ^ 31"
  shows "recv_eot_xmodem s = Inl (if k = 0 then Uninitialised else Diverges)"
proof (cases "k = 0")
  case True
  then have "strip_turn g None = (0, g\<lparr>f_eof := True\<rparr>, None)"
    using assms by (cases g)
      (auto simp: strip_turn_def Let_def fseek_end_def fread_def slice_def c_int_id)
  then have "strip_subs g None 0 = Some (Inl Uninitialised)" by (subst strip_subs.simps) simp
  then show ?thesis using assms(1) True by (simp add: recv_eot_xmodem_def)
next
  case False
  have "strip_subs g None 0 = None"
  proof (rule ccontr)
    assume "strip_subs g None 0 \<noteq> None"
    then obtain r where "strip_subs g None 0 = Some r" by blast
    then show False
      by (rule strip_subs_no_result) (use assms False in \<open>auto\<close>)
  qed
  then show ?thesis using assms(1) False by (simp add: recv_eot_xmodem_def)
qed

lemma recv_eot_empty_file_witness:
  "recv_eot_xmodem ((idle (disk_with [] []))\<lparr>file_p := Some (open_file (replicate 128 26) 128)\<rparr>)
   = Inl (if (128 :: nat) = 0 then Uninitialised else Diverges)"
  by (rule recv_eot_empty_file [where g = "open_file (replicate 128 26) 128"]) simp_all

text \<open>A download that hangs: an EOT behind a block of nothing but SUBs.\<close>

lemma xmodem_loop_ends_witness:
  "\<exists>s. run_input xmodem_receive s = Some (Inl Diverges)
     \<and> (\<exists>s1. reaches xmodem_receive s s1 \<and> strips_for_ever s1)"
proof -
  let ?g = "open_file (replicate 128 26) 128"
  let ?s = "(idle (disk_with [] []))\<lparr>state := BLOCK, inp := [C_EOT], file_p := Some ?g\<rparr>"
  have "recv_eot_xmodem (clear_block s1) = Inl (if (128 :: nat) = 0 then Uninitialised else Diverges)"
    if "file_p s1 = Some ?g" for s1
    by (rule recv_eot_empty_file [where g = ?g]) (simp_all add: that clear_block_def)
  then have "xmodem_receive ?s = Inl Diverges"
    by (simp add: xmodem_receive_def recv_init_def recv_first_block_def recv_block_def recv_eot_def
        Let_def g_streaming_def is_ymodem_def recv_append_def blit_def reset_timer_def)
  then have "run_input xmodem_receive ?s = Some (Inl Diverges)" by (subst run_input.simps) simp
  with xmodem_loop_ends [of ?s] show ?thesis by auto
qed

end
