(* ===== verification/Xmodem_Link.thy ===== *)
theory Xmodem_Link
  imports Xmodem_Strip
begin

text \<open>
  A sender and a receiver of \<open>xmodem.c\<close> joined by a link that loses nothing: what one of them
  puts into its output buffer is the other's next input. The development of a whole transfer
  from the behaviour of the two handlers on one block.
\<close>

section \<open>The link\<close>

text \<open>
  One round: the receiver is called with what the sender has written, then the sender with
  what the receiver has answered. Output that was delivered is gone from its buffer.
\<close>

definition link_round :: "xfer \<times> xfer \<Rightarrow> fault + xfer \<times> xfer" where
  "link_round p =
     (case p of (a, b) \<Rightarrow>
        bind_res (xmodem (outp a) 0 Q_BUFFER_SIZE b) (\<lambda>(b1, _).
          bind_res (xmodem (outp b1) 0 Q_BUFFER_SIZE (a\<lparr>outp := []\<rparr>)) (\<lambda>(a1, _).
            Inr (a1, b1\<lparr>outp := []\<rparr>))))"

fun link_rounds :: "nat \<Rightarrow> xfer \<times> xfer \<Rightarrow> fault + xfer \<times> xfer" where
  "link_rounds 0 p = Inr p"
| "link_rounds (Suc n) p = bind_res (link_round p) (link_rounds n)"

text \<open>The flavors that wait for an answer to every block and carry one file.\<close>

definition acked_flavor :: "xmodem_flavor \<Rightarrow> bool" where
  "acked_flavor fl \<longleftrightarrow> fl = X_NORMAL \<or> fl = X_RELAXED \<or> fl = X_CRC \<or> fl = X_1K"

definition xmodem_protocol :: "q_protocol \<Rightarrow> bool" where
  "xmodem_protocol p \<longleftrightarrow>
     p = Q_PROTOCOL_XMODEM \<or> p = Q_PROTOCOL_XMODEM_CRC \<or> p = Q_PROTOCOL_XMODEM_RELAXED
     \<or> p = Q_PROTOCOL_XMODEM_1K"

section \<open>The handlers on one input\<close>

text \<open>When one call of the handler uses up the input, that call is the whole of \<open>xmodem\<close>.\<close>

lemma run_input_once: "step s = Inr s1 \<Longrightarrow> inp s1 = [] \<Longrightarrow> run_input step s = Some (Inr s1)"
  by (subst run_input.simps) simp

lemma xmodem_receive_call:
  assumes "\<not> sending s" "state s \<noteq> ABORT"
    "xmodem_receive (s\<lparr>inp := input\<rparr>) = Inr s1" "inp s1 = []"
  shows "xmodem input rem Q_BUFFER_SIZE s = Inr (s1, 0)"
  using assms run_input_once [of xmodem_receive "s\<lparr>inp := input\<rparr>" s1]
  by (simp add: xmodem_def input_loop_def)

lemma xmodem_send_call:
  assumes "sending s" "state s \<noteq> ABORT" "outp s = []"
    "xmodem_send (s\<lparr>inp := input\<rparr>) = Inr s1" "inp s1 = []"
  shows "xmodem input rem Q_BUFFER_SIZE s = Inr (s1, 0)"
  using assms run_input_once [of xmodem_send "s\<lparr>inp := input\<rparr>" s1]
  by (simp add: xmodem_def input_loop_def)

section \<open>The receiver\<close>

definition receiver_ready :: "xmodem_flavor \<Rightarrow> cfile \<Rightarrow> byte \<Rightarrow> xfer \<Rightarrow> bool" where
  "receiver_ready fl g q b \<longleftrightarrow>
     \<not> sending b \<and> flavor b = fl \<and> (state b = BLOCK \<or> state b = FIRST_BLOCK)
     \<and> file_p b = Some g \<and> f_room g = None \<and> \<not> f_bad g \<and> f_pos g = length (f_data g)
     \<and> current_block b = replicate 1029 0 \<and> current_block_n b = 0
     \<and> current_block_sequence_i b = q \<and> xmodem_protocol (ts_protocol (stats b))"

lemma receive_to_block:
  assumes "state b = BLOCK \<or> state b = FIRST_BLOCK" "inp b \<noteq> []"
    "recv_block (b\<lparr>state := BLOCK\<rparr>) = Inr (Return b1)"
  shows "xmodem_receive b = Inr b1"
proof -
  have "seq_ctl (recv_init b) recv_first_block = Inr (Next (b\<lparr>state := BLOCK\<rparr>))"
    using assms(1,2) by (cases b) (auto simp: recv_init_def recv_first_block_def)
  with assms(3) show ?thesis by (simp add: xmodem_receive_def)
qed

text \<open>The receiver when the first bytes \<open>xs\<close> of a block have arrived.\<close>

definition receiver_has :: "xmodem_flavor \<Rightarrow> cfile \<Rightarrow> byte \<Rightarrow> byte list \<Rightarrow> xfer \<Rightarrow> bool" where
  "receiver_has fl g q xs b \<longleftrightarrow>
     \<not> sending b \<and> flavor b = fl \<and> (state b = BLOCK \<or> state b = FIRST_BLOCK)
     \<and> file_p b = Some g \<and> f_room g = None \<and> \<not> f_bad g \<and> f_pos g = length (f_data g)
     \<and> current_block b = blit 0 xs (replicate 1029 0) \<and> current_block_n b = length xs
     \<and> current_block_sequence_i b = q \<and> xmodem_protocol (ts_protocol (stats b))"

lemma receiver_has_none: "receiver_has fl g q [] b = receiver_ready fl g q b"
  by (simp add: receiver_has_def receiver_ready_def)

definition arrived :: "byte list \<Rightarrow> xfer \<Rightarrow> xfer" where
  "arrived ys b = recv_append (reset_timer (b\<lparr>inp := ys, state := BLOCK\<rparr>))"

lemma frame_length_bounds:
  "frame_size_ok fl (length d) \<Longrightarrow> length (frame fl q d) \<le> 1029 \<and> 132 \<le> length (frame fl q d)"
  by (auto simp: length_frame frame_size_ok_def)

lemma arrived_fields:
  assumes "receiver_has fl g q xs b" "length xs + length ys \<le> 1029"
  shows "current_block (arrived ys b) = blit 0 (xs @ ys) (replicate 1029 0)"
    "current_block_n (arrived ys b) = length xs + length ys"
    "flavor (arrived ys b) = fl" "current_block_sequence_i (arrived ys b) = q"
    "file_p (arrived ys b) = Some g" "state (arrived ys b) = BLOCK" "\<not> sending (arrived ys b)"
    "outp (arrived ys b) = outp b" "stats (arrived ys b) = stats b"
proof -
  have "blit (0 + length xs) ys (blit 0 xs (replicate 1029 0)) = blit 0 (xs @ ys) (replicate 1029 0)"
    using assms(2) by (intro blit_append) simp
  then show "current_block (arrived ys b) = blit 0 (xs @ ys) (replicate 1029 0)"
    using assms(1) by (simp add: arrived_def recv_append_def receiver_has_def)
qed (use assms(1) in \<open>simp_all add: arrived_def recv_append_def receiver_has_def\<close>)

text \<open>Everything but a lone first byte goes on to \<open>recv_data\<close>, a lone one if it is not EOT.\<close>

lemma receive_piece:
  assumes "receiver_has fl g q xs b" "acked_flavor fl" "ys \<noteq> []" "length xs + length ys \<le> 1029"
    "(xs @ ys) ! 0 \<noteq> C_EOT" "recv_data (arrived ys b) = Inr (Return b1)"
  shows "xmodem_receive (b\<lparr>inp := ys\<rparr>) = Inr b1"
proof -
  note has = assms(1) [unfolded receiver_has_def]
  let ?b = "b\<lparr>inp := ys, state := BLOCK\<rparr>"
  have "\<not> g_streaming (reset_timer ?b)" "\<not> is_ymodem (flavor b)"
    using assms(2) has by (auto simp: g_streaming_def acked_flavor_def is_ymodem_def)
  moreover have "current_block (arrived ys b) ! 0 \<noteq> C_EOT"
    using assms(3,5) arrived_fields(1) [OF assms(1,4)]
    by (cases "xs = []") (simp_all add: blit_def nth_append)
  moreover have "flavor (arrived ys b) = flavor b" by (simp add: arrived_def recv_append_def)
  ultimately have "recv_block ?b = recv_data (arrived ys b)"
    using assms(3,4) has by (simp add: recv_block_def arrived_def)
  then show ?thesis
    using receive_to_block [of "b\<lparr>inp := ys\<rparr>" b1] assms(3,6) has by simp
qed

lemma frame_first: "frame fl q d ! 0 = (if length d = 1024 then C_STX else C_SOH)"
  by (simp add: frame_def)

lemma frame_complete_iff:
  assumes "acked_flavor (flavor s)" "frame_size_ok (flavor s) (length d)"
    "current_block s ! 0 = (if length d = 1024 then C_STX else C_SOH)"
    "current_block_n s \<le> length (frame (flavor s) q d)"
  shows "block_incomplete s \<longleftrightarrow> current_block_n s < length (frame (flavor s) q d)"
  using assms
  by (auto simp: block_incomplete_def acked_flavor_def frame_size_ok_def uses_checksum_def
      small_blocks_def length_frame split: if_splits)

text \<open>A piece that does not complete the block is kept; nothing is answered.\<close>

lemma receiver_keeps_piece:
  assumes "receiver_has fl g q xs b" "acked_flavor fl" "frame_size_ok fl (length d)"
    "frame fl q d = xs @ ys @ zs" "ys \<noteq> []" "zs \<noteq> []"
  shows "\<exists>b1. xmodem ys rem Q_BUFFER_SIZE b = Inr (b1, 0) \<and> outp b1 = outp b
           \<and> receiver_has fl g q (xs @ ys) b1"
proof -
  note has = assms(1) [unfolded receiver_has_def]
  have n: "length xs + length ys < length (frame fl q d)" using assms(4,6) by simp
  then have len: "length xs + length ys \<le> 1029"
    using frame_length_bounds [OF assms(3), of q] by linarith
  note fields = arrived_fields [OF assms(1) len]
  have first: "(xs @ ys) ! 0 = frame fl q d ! 0" using assms(4,5) by (simp add: nth_append)
  then have "current_block (arrived ys b) ! 0 = (if length d = 1024 then C_STX else C_SOH)"
    using fields(1) assms(5) frame_first [of fl q d]
    by (cases "xs = []") (simp_all add: blit_def nth_append)
  then have "block_incomplete (arrived ys b)"
    using frame_complete_iff [of "arrived ys b" d q] assms(2,3) fields(2,3) n by simp
  then have data: "recv_data (arrived ys b) = Inr (Return ((arrived ys b)\<lparr>inp := []\<rparr>))"
    by (simp add: recv_data_def)
  have "xmodem_receive (b\<lparr>inp := ys\<rparr>) = Inr ((arrived ys b)\<lparr>inp := []\<rparr>)"
    by (rule receive_piece [OF assms(1,2,5) len _ data])
      (use first frame_first [of fl q d] in \<open>simp split: if_splits\<close>)
  then have "xmodem ys rem Q_BUFFER_SIZE b = Inr ((arrived ys b)\<lparr>inp := []\<rparr>, 0)"
    using has by (intro xmodem_receive_call) auto
  then show ?thesis
    using has fields by (intro exI [of _ "(arrived ys b)\<lparr>inp := []\<rparr>"]) (simp add: receiver_has_def)
qed

text \<open>The piece that completes a block: the data is written to the file and acknowledged.\<close>

lemma receiver_completes_block:
  assumes "receiver_has fl g q xs b" "acked_flavor fl" "frame_size_ok fl (length d)"
    "frame fl q d = xs @ ys" "ys \<noteq> []"
  shows "\<exists>b1. xmodem ys rem Q_BUFFER_SIZE b = Inr (b1, 0) \<and> outp b1 = [C_ACK]
           \<and> receiver_ready fl
               (g\<lparr>f_data := f_data g @ d, f_pos := length (f_data g) + length d\<rparr>) (q + 1) b1"
proof -
  note has = assms(1) [unfolded receiver_has_def]
  let ?s = "arrived ys b"
  have n: "length xs + length ys = length (frame fl q d)" using assms(4) by simp
  then have len: "length xs + length ys \<le> 1029"
    using frame_length_bounds [OF assms(3), of q] by linarith
  note fields = arrived_fields [OF assms(1) len]
  have held: "holds_block ?s d d"
  proof (rule frame_held)
    show "take (current_block_n ?s) (current_block ?s)
        = frame (flavor ?s) (current_block_sequence_i ?s) d"
      using fields len assms(4) by (simp add: blit_def)
    show "length (current_block ?s) = 1029" using fields(1) len by simp
    show "current_block_n ?s = length (frame (flavor ?s) (current_block_sequence_i ?s) d)"
      using fields(2-4) n by simp
  qed (use fields(3) assms(3) in simp)
  have complete: "\<not> block_incomplete ?s"
    using frame_complete_iff [of ?s d q] assms(2,3) fields(2,3) n holds_block_parts(1) [OF held]
    by simp
  let ?g = "g\<lparr>f_data := f_data g @ d, f_pos := length (f_data g) + length d\<rparr>"
  let ?v = "?s\<lparr>file_p := Some ?g, current_block_sequence_i := q + 1,
               current_block_number := current_block_number ?s + 1\<rparr>"
  let ?b1 = "(clear_block (stats_increment_blocks (current_block ?v ! 0)
               (?v\<lparr>outp := [C_ACK]\<rparr>)))\<lparr>inp := []\<rparr>"
  have "verify_block ?s = Inr (True, ?v)"
    using verify_block_frame [OF held fields(5)] has fields(4) by simp
  then have data: "recv_data ?s = Inr (Return ?b1)" using complete by (simp add: recv_data_def)
  have "xmodem_receive (b\<lparr>inp := ys\<rparr>) = Inr ?b1"
    by (rule receive_piece [OF assms(1,2,5) len _ data])
      (use frame_first [of fl q d] assms(4) in \<open>simp split: if_splits\<close>)
  then have "xmodem ys rem Q_BUFFER_SIZE b = Inr (?b1, 0)"
    using has by (intro xmodem_receive_call) auto
  then show ?thesis
    using has fields by (intro exI [of _ ?b1]) (simp add: receiver_ready_def)
qed

lemma receiver_takes_block:
  assumes "receiver_ready fl g q b" "acked_flavor fl" "frame_size_ok fl (length d)"
  shows "\<exists>b1. xmodem (frame fl q d) rem Q_BUFFER_SIZE b = Inr (b1, 0) \<and> outp b1 = [C_ACK]
           \<and> receiver_ready fl
               (g\<lparr>f_data := f_data g @ d, f_pos := length (f_data g) + length d\<rparr>) (q + 1) b1"
  using receiver_completes_block [of fl g q "[]" b d "frame fl q d"] assms
  by (simp add: receiver_has_none) (simp add: frame_def)

text \<open>The end of the file: the padding goes, the file is closed, the transfer is over.\<close>

lemma complete_ok_closes:
  assumes "xmodem_protocol (ts_protocol (stats s))" "file_p s = Some f"
  shows "fsys (stats_file_complete_ok s) = fclose f (fsys s)" "file_p (stats_file_complete_ok s) = None"
  using assms
  by (auto simp: xmodem_protocol_def stats_file_complete_ok_def Let_def stop_file_transfer_def
      set_transfer_stats_last_message_def xmodem_stop_def)

lemma receive_eot:
  assumes "receiver_ready fl g q b" "acked_flavor fl"
  shows "xmodem_receive (b\<lparr>inp := [C_EOT]\<rparr>) =
           finish (recv_eot (recv_append (reset_timer (b\<lparr>inp := [C_EOT], state := BLOCK\<rparr>))))"
proof -
  note ready = assms(1) [unfolded receiver_ready_def]
  let ?b = "b\<lparr>inp := [C_EOT], state := BLOCK\<rparr>"
  have "\<not> g_streaming (reset_timer ?b)"
    using ready assms(2) by (auto simp: g_streaming_def acked_flavor_def)
  moreover have "current_block (recv_append (reset_timer ?b)) ! 0 = C_EOT"
    using ready by (simp add: recv_append_def blit_def)
  moreover have "current_block_n (recv_append (reset_timer ?b)) = 1"
    using ready by (simp add: recv_append_def)
  ultimately have block: "recv_block ?b = recv_eot (recv_append (reset_timer ?b))"
    using ready by (simp add: recv_block_def)
  have "seq_ctl (recv_init (b\<lparr>inp := [C_EOT]\<rparr>)) recv_first_block = Inr (Next ?b)"
    using ready by (cases b) (auto simp: recv_init_def recv_first_block_def)
  moreover have "seq_ctl (recv_eot s) f = recv_eot s" for s f
    by (cases "(if is_ymodem (flavor s) then recv_eot_ymodem else recv_eot_xmodem) (clear_block s)")
      (simp_all add: recv_eot_def)
  ultimately show ?thesis using block by (simp add: xmodem_receive_def)
qed

lemma receiver_takes_eot:
  assumes "receiver_ready fl g q b" "acked_flavor fl"
    "f_data g = d @ replicate k C_SUB" "d \<noteq> []" "last d \<noteq> C_SUB" "length (f_data g) + 1 < 2 ^ 31"
  shows "\<exists>b1. xmodem [C_EOT] rem Q_BUFFER_SIZE b = Inr (b1, 0) \<and> outp b1 = [C_ACK]
           \<and> state b1 = COMPLETE \<and> file_p b1 = None \<and> disk (fsys b1) (f_name g) = Some d"
proof -
  note ready = assms(1) [unfolded receiver_ready_def]
  let ?s = "clear_block (recv_append (reset_timer (b\<lparr>inp := [C_EOT], state := BLOCK\<rparr>)))"
  let ?g = "g\<lparr>f_data := d, f_pos := length d, f_eof := False\<rparr>"
  have fields: "file_p ?s = Some g" "xmodem_protocol (ts_protocol (stats ?s))" "flavor ?s = fl"
    using ready by (simp_all add: recv_append_def)
  have "strip_subs g None 0 = Some (Inr (?g, of_nat (2 * k - 1)))"
    using strip_subs_result [of d g k False None 0] assms(3-6) ready by simp
  then obtain t where t: "recv_eot_xmodem ?s
      = Inr (stats_file_complete_ok (?s\<lparr>file_p := Some ?g, stats := t, outp := [C_ACK]\<rparr>))"
    and "ts_protocol t = ts_protocol (stats ?s)"
    using fields(1) by (simp add: recv_eot_xmodem_def)
  let ?t = "?s\<lparr>file_p := Some ?g, stats := t, outp := [C_ACK]\<rparr>"
  let ?b1 = "(stats_file_complete_ok ?t)\<lparr>inp := []\<rparr>"
  have "\<not> is_ymodem fl" using assms(2) by (auto simp: is_ymodem_def acked_flavor_def)
  then have "xmodem_receive (b\<lparr>inp := [C_EOT]\<rparr>) = Inr ?b1"
    using receive_eot [OF assms(1,2)] t fields(3) by (simp add: recv_eot_def)
  then have "xmodem [C_EOT] rem Q_BUFFER_SIZE b = Inr (?b1, 0)"
    using ready by (intro xmodem_receive_call) auto
  moreover have "fsys (stats_file_complete_ok ?t) = fclose ?g (fsys ?t)"
      "file_p (stats_file_complete_ok ?t) = None"
    using complete_ok_closes [of ?t ?g] fields(2) \<open>ts_protocol t = _\<close> by simp_all
  ultimately show ?thesis by (intro exI [of _ ?b1]) (simp add: fclose_def)
qed

section \<open>The sender\<close>

definition sender_ready :: "xmodem_flavor \<Rightarrow> xstate \<Rightarrow> cfile \<Rightarrow> byte \<Rightarrow> xfer \<Rightarrow> bool" where
  "sender_ready fl st f q a \<longleftrightarrow>
     sending a \<and> flavor a = fl \<and> state a = st \<and> file_p a = Some f \<and> \<not> f_bad f \<and> \<not> f_err f
     \<and> current_block_sequence_i a = q"

text \<open>The state after the next block, and the data of that block.\<close>

definition next_state :: "xmodem_flavor \<Rightarrow> cfile \<Rightarrow> xstate" where
  "next_state fl f = (if f_eof (after_read fl f) then LAST_BLOCK else BLOCK)"

lemma send_next_block_frame:
  assumes "sender_ready fl BLOCK f q a" "acked_flavor fl" "outp a = []"
  shows "\<exists>a1. send_next_block a = Inr (Return a1) \<and> inp a1 = []
           \<and> outp a1 = frame fl q (pad_chunk fl (next_chunk fl f))
           \<and> sender_ready fl (next_state fl f) (after_read fl f) (q + 1) a1"
proof -
  note ready = assms(1) [unfolded sender_ready_def]
  let ?a = "clear_block (reset_timer a)"
  have c: "current_block ?a = replicate 1029 0" "file_p ?a = Some f" "flavor ?a = fl"
    using ready by simp_all
  obtain cb where cb: "construct_block ?a = Inr (True, framed_state cb f ?a)"
    "take (current_block_n (framed_state cb f ?a)) cb = frame fl q (pad_chunk fl (next_chunk fl f))"
    using construct_block_frame [of ?a f] ready c by auto
  let ?s = "framed_state cb f ?a"
  have out: "outp ?s = []" "\<not> streaming ?s" "state ?s = next_state fl f" "inp ?s = inp a"
    "current_block ?s = cb" "file_p ?s = Some (after_read fl f)" "flavor ?s = fl" "sending ?s"
    "current_block_sequence_i ?s = q + 1"
    using ready assms(2,3) c(3)
    by (auto simp: framed_state_def streaming_def acked_flavor_def next_state_def)
  let ?s1 = "send_current_block ?s"
  let ?a1 = "(if state ?s1 = LAST_BLOCK then
                ?s1\<lparr>stats := (stats ?s1)\<lparr>ts_bytes_transfer := ts_bytes_total (stats ?s1)\<rparr>\<rparr>
              else stats_increment_blocks (case inp ?s1 of [] \<Rightarrow> 0 | c # _ \<Rightarrow> c) ?s1)\<lparr>inp := []\<rparr>"
  have "send_next_block a = Inr (Return ?a1)"
    using cb(1) out(1,2) by (simp add: send_next_block_def Let_def)
  moreover have "outp ?s1 = frame fl q (pad_chunk fl (next_chunk fl f))"
    using cb(2) out by (simp add: send_current_block_def)
  moreover have "\<not> f_bad (after_read fl f)" "\<not> f_err (after_read fl f)"
    using ready by (simp_all add: after_read_def)
  ultimately show ?thesis
    using out by (intro exI [of _ ?a1]) (auto simp: sender_ready_def send_current_block_def)
qed

lemma sender_ready_inp [simp]:
  "sender_ready fl st f q (a\<lparr>inp := x\<rparr>) = sender_ready fl st f q a"
  "sender_ready fl st f q (a\<lparr>outp := y\<rparr>) = sender_ready fl st f q a"
  "sender_ready fl st f q (set_transfer_stats_last_message m a) = sender_ready fl st f q a"
  by (simp_all add: sender_ready_def)

lemma sender_sends_block:
  assumes "sender_ready fl BLOCK f q a" "acked_flavor fl" "outp a = []"
  shows "\<exists>a1. xmodem [C_ACK] rem Q_BUFFER_SIZE a = Inr (a1, 0)
           \<and> outp a1 = frame fl q (pad_chunk fl (next_chunk fl f))
           \<and> sender_ready fl (next_state fl f) (after_read fl f) (q + 1) a1"
proof -
  let ?a = "a\<lparr>inp := [C_ACK]\<rparr>"
  obtain a1 where a1: "send_next_block ?a = Inr (Return a1)" "inp a1 = []"
    "outp a1 = frame fl q (pad_chunk fl (next_chunk fl f))"
    "sender_ready fl (next_state fl f) (after_read fl f) (q + 1) a1"
    using send_next_block_frame [of fl f q ?a] assms by auto
  have st: "sending a" "state a = BLOCK" using assms(1) by (simp_all add: sender_ready_def)
  then have "xmodem_send ?a = Inr a1"
    using a1(1) by (simp add: xmodem_send_def send_cancel_def send_skip send_block_def)
  then have "xmodem [C_ACK] rem Q_BUFFER_SIZE a = Inr (a1, 0)"
    using st assms(3) a1(2) by (intro xmodem_send_call) simp_all
  with a1 show ?thesis by blast
qed

text \<open>The receiver's first byte starts the transfer.\<close>

lemma sender_starts:
  assumes "sender_ready fl INIT f q a" "acked_flavor fl" "outp a = []" "first_byte a \<noteq> C_CAN"
  shows "\<exists>a1. xmodem [first_byte a] rem Q_BUFFER_SIZE a = Inr (a1, 0)
           \<and> outp a1 = frame fl q (pad_chunk fl (next_chunk fl f))
           \<and> sender_ready fl (next_state fl f) (after_read fl f) (q + 1) a1"
proof -
  let ?a = "a\<lparr>inp := [first_byte a]\<rparr>"
  let ?s = "start_sending (set_transfer_stats_last_message (Msg ''WAITING FOR NAK'') ?a)"
  have ready: "sender_ready fl BLOCK f q ?s" "outp ?s = []" "inp ?s = [C_ACK]"
    using assms(1,3) by (simp_all add: start_sending_def sender_ready_def)
  obtain a1 where a1: "send_next_block ?s = Inr (Return a1)" "inp a1 = []"
    "outp a1 = frame fl q (pad_chunk fl (next_chunk fl f))"
    "sender_ready fl (next_state fl f) (after_read fl f) (q + 1) a1"
    using send_next_block_frame [OF ready(1) assms(2) ready(2)] by auto
  have st: "sending a" "state a = INIT" "flavor a = fl"
    using assms(1) by (simp_all add: sender_ready_def)
  have "seq_ctl (send_cancel ?a) send_init = Inr (Next ?s)"
    using st assms(2,4) by (auto simp: send_cancel_def send_init_def acked_flavor_def Let_def)
  moreover have "state ?s = BLOCK" by (simp add: start_sending_def)
  ultimately have "xmodem_send ?a = Inr a1"
    using a1(1) ready(3) by (simp add: xmodem_send_def send_skip send_block_def)
  then have "xmodem [first_byte a] rem Q_BUFFER_SIZE a = Inr (a1, 0)"
    using st assms(3) a1(2) by (intro xmodem_send_call) simp_all
  with a1 show ?thesis by blast
qed

lemma sender_sends_eot:
  assumes "sender_ready fl LAST_BLOCK f q a" "acked_flavor fl" "outp a = []"
  shows "\<exists>a1. xmodem [C_ACK] rem Q_BUFFER_SIZE a = Inr (a1, 0) \<and> outp a1 = [C_EOT]
           \<and> sender_ready fl EOT_ACK f q a1"
proof -
  let ?a = "a\<lparr>inp := [C_ACK]\<rparr>"
  have st: "sending a" "state a = LAST_BLOCK"
    using assms(1) by (simp_all add: sender_ready_def)
  obtain a1 where a1: "send_last_block ?a = Inr (Return a1)" "inp a1 = []" "outp a1 = [C_EOT]"
    "sender_ready fl EOT_ACK f q a1"
    using assms by (simp add: send_last_block_def Let_def sender_ready_def)
  then have "xmodem_send ?a = Inr a1"
    using st by (simp add: xmodem_send_def send_cancel_def send_skip)
  then have "xmodem [C_ACK] rem Q_BUFFER_SIZE a = Inr (a1, 0)"
    using st assms(3) a1(2) by (intro xmodem_send_call) simp_all
  with a1 show ?thesis by blast
qed

lemma sender_completes:
  assumes "sender_ready fl EOT_ACK f q a" "acked_flavor fl" "outp a = []"
  shows "\<exists>a1. xmodem [C_ACK] rem Q_BUFFER_SIZE a = Inr (a1, 0) \<and> state a1 = COMPLETE"
proof -
  let ?a = "a\<lparr>inp := [C_ACK]\<rparr>"
  let ?s = "stats_file_complete_ok (?a\<lparr>fsys := fclose f (fsys a), file_p := None\<rparr>)"
  have st: "sending a" "state a = EOT_ACK" "file_p a = Some f" "flavor a = fl"
    using assms(1) by (simp_all add: sender_ready_def)
  have "send_eot_ack ?a = Inr (Next ?s)"
    using st assms(2) by (auto simp: send_eot_ack_def is_ymodem_def acked_flavor_def)
  then have "xmodem_send ?a = Inr (?s\<lparr>inp := []\<rparr>)"
    using st by (simp add: xmodem_send_def send_cancel_def send_skip)
  then have "xmodem [C_ACK] rem Q_BUFFER_SIZE a = Inr (?s\<lparr>inp := []\<rparr>, 0)"
    using st assms(3) by (intro xmodem_send_call) simp_all
  then show ?thesis by (intro exI [of _ "?s\<lparr>inp := []\<rparr>"]) simp
qed

section \<open>The whole transfer\<close>

text \<open>
  A block with the chunk \<open>c\<close> of the file \<open>whole\<close> is on its way; the receiver's file \<open>g\<close> holds
  everything before it.
\<close>

definition in_flight :: "xmodem_flavor \<Rightarrow> byte list \<Rightarrow> byte list \<Rightarrow> cfile \<Rightarrow> cfile \<Rightarrow> byte \<Rightarrow>
    xfer \<times> xfer \<Rightarrow> bool" where
  "in_flight fl whole c f g q p \<longleftrightarrow>
     outp (fst p) = frame fl q (pad_chunk fl c)
     \<and> sender_ready fl (if f_eof f then LAST_BLOCK else BLOCK) f (q + 1) (fst p)
     \<and> receiver_ready fl g q (snd p)
     \<and> f_data f = whole \<and> f_data g @ c @ drop (f_pos f) whole = whole
     \<and> length c \<le> chunk_size fl
     \<and> (if f_eof f then length whole \<le> f_pos f else length c = chunk_size fl)"

lemma pad_chunk_full: "length c = chunk_size fl \<Longrightarrow> pad_chunk fl c = c"
  by (auto simp: pad_chunk_def chunk_size_def split: if_splits)

lemma length_pad_chunk: "length c \<le> chunk_size fl \<Longrightarrow> length (pad_chunk fl c) \<le> 1024"
  by (auto simp: pad_chunk_def chunk_size_def)

lemma slice_then_drop: "slice i n w @ drop (i + length (slice i n w)) w = drop i w"
proof (cases "n \<le> length w - i")
  case True
  then show ?thesis
    using append_take_drop_id [of n "drop i w"] by (simp add: slice_def add.commute)
qed (simp add: slice_def)

lemma round_next_block:
  assumes "in_flight fl whole c f g q (a, b)" "acked_flavor fl" "\<not> f_eof f"
  shows "\<exists>p1. link_round (a, b) = Inr p1 \<and>
           in_flight fl whole (next_chunk fl f) (after_read fl f)
             (g\<lparr>f_data := f_data g @ c, f_pos := length (f_data g) + length c\<rparr>) (q + 1) p1"
proof -
  note fly = assms(1) [unfolded in_flight_def fst_conv snd_conv]
  have c: "pad_chunk fl c = c" using fly assms(3) by (intro pad_chunk_full) simp
  have size: "frame_size_ok fl (length c)" using fly pad_chunk_size [of c fl] c by simp
  let ?g = "g\<lparr>f_data := f_data g @ c, f_pos := length (f_data g) + length c\<rparr>"
  obtain b1 where b1: "xmodem (frame fl q c) 0 Q_BUFFER_SIZE b = Inr (b1, 0)" "outp b1 = [C_ACK]"
    "receiver_ready fl ?g (q + 1) b1"
    using receiver_takes_block [OF _ assms(2) size] fly by blast
  have ready: "sender_ready fl BLOCK f (q + 1) (a\<lparr>outp := []\<rparr>)" using fly assms(3) by simp
  obtain a1 where a1: "xmodem [C_ACK] 0 Q_BUFFER_SIZE (a\<lparr>outp := []\<rparr>) = Inr (a1, 0)"
    "outp a1 = frame fl (q + 1) (pad_chunk fl (next_chunk fl f))"
    "sender_ready fl (next_state fl f) (after_read fl f) (q + 1 + 1) a1"
    using sender_sends_block [OF ready assms(2), of 0] by auto
  have "link_round (a, b) = Inr (a1, b1\<lparr>outp := []\<rparr>)"
    using fly c b1 a1(1) by (simp add: link_round_def)
  moreover have "receiver_ready fl ?g (q + 1) (b1\<lparr>outp := []\<rparr>)"
    using b1(3) by (simp add: receiver_ready_def)
  moreover have "next_chunk fl f @ drop (f_pos f + length (next_chunk fl f)) whole
               = drop (f_pos f) whole"
    using fly unfolding next_chunk_def by (simp only: slice_then_drop)
  ultimately show ?thesis
    using fly a1(2,3) length_next_chunk [of fl f] assms(3)
    by (intro exI [of _ "(a1, b1\<lparr>outp := []\<rparr>)"])
      (auto simp: in_flight_def next_state_def after_read_def next_chunk_def)
qed

lemma round_last_blocks:
  assumes "in_flight fl whole c f g q (a, b)" "acked_flavor fl" "f_eof f"
    "whole \<noteq> []" "last whole \<noteq> C_SUB" "length whole + 1025 < 2 ^ 31"
  shows "\<exists>a1 b1. link_rounds 2 (a, b) = Inr (a1, b1) \<and> state a1 = COMPLETE
           \<and> state b1 = COMPLETE \<and> disk (fsys b1) (f_name g) = Some whole"
proof -
  note fly = assms(1) [unfolded in_flight_def fst_conv snd_conv]
  let ?d = "pad_chunk fl c"
  have size: "frame_size_ok fl (length ?d)" using fly by (intro pad_chunk_size) simp
  have "drop (f_pos f) whole = []" using fly assms(3) by simp
  with fly have d: "f_data g @ c = whole" by (simp only: append_Nil2)
  let ?g = "g\<lparr>f_data := f_data g @ ?d, f_pos := length (f_data g) + length ?d\<rparr>"
  obtain b1 where b1: "xmodem (frame fl q ?d) 0 Q_BUFFER_SIZE b = Inr (b1, 0)" "outp b1 = [C_ACK]"
    "receiver_ready fl ?g (q + 1) b1"
    using receiver_takes_block [OF _ assms(2) size] fly by blast
  have ready: "sender_ready fl LAST_BLOCK f (q + 1) (a\<lparr>outp := []\<rparr>)" using fly assms(3) by simp
  obtain a1 where a1: "xmodem [C_ACK] 0 Q_BUFFER_SIZE (a\<lparr>outp := []\<rparr>) = Inr (a1, 0)"
    "outp a1 = [C_EOT]" "sender_ready fl EOT_ACK f (q + 1) a1"
    using sender_sends_eot [OF ready assms(2), of 0] by auto
  have one: "link_round (a, b) = Inr (a1, b1\<lparr>outp := []\<rparr>)"
    using fly b1 a1(1) by (simp add: link_round_def)
  obtain k where k: "?d = c @ replicate k C_SUB" unfolding pad_chunk_def by blast
  have g: "f_data ?g = whole @ replicate k C_SUB" using d k by simp
  have "length (f_data ?g) = length (f_data g) + length ?d" by simp
  also have "\<dots> \<le> length whole + 1024"
    using d fly length_pad_chunk [of c fl] by auto
  finally have len: "length (f_data ?g) + 1 < 2 ^ 31" using assms(6) by simp
  have "receiver_ready fl ?g (q + 1) (b1\<lparr>outp := []\<rparr>)"
    using b1(3) by (simp add: receiver_ready_def)
  from receiver_takes_eot [OF this assms(2) g assms(4,5) len]
  obtain b2 where b2: "xmodem [C_EOT] 0 Q_BUFFER_SIZE (b1\<lparr>outp := []\<rparr>) = Inr (b2, 0)"
    "outp b2 = [C_ACK]" "state b2 = COMPLETE" "disk (fsys b2) (f_name g) = Some whole"
    by auto
  have "sender_ready fl EOT_ACK f (q + 1) (a1\<lparr>outp := []\<rparr>)" using a1(3) by simp
  then obtain a2 where a2: "xmodem [C_ACK] 0 Q_BUFFER_SIZE (a1\<lparr>outp := []\<rparr>) = Inr (a2, 0)"
    "state a2 = COMPLETE"
    using sender_completes [OF _ assms(2), of f "q + 1" "a1\<lparr>outp := []\<rparr>" 0] by auto
  have two: "link_round (a1, b1\<lparr>outp := []\<rparr>) = Inr (a2, b2\<lparr>outp := []\<rparr>)"
    using a1(2) a2 b2 by (simp add: link_round_def)
  then have "link_rounds 2 (a, b) = Inr (a2, b2\<lparr>outp := []\<rparr>)"
    using one by (simp add: numeral_2_eq_2)
  with a2 b2 show ?thesis by auto
qed

lemma transfer_in_flight:
  assumes "in_flight fl whole c f g q p" "acked_flavor fl"
    "whole \<noteq> []" "last whole \<noteq> C_SUB" "length whole + 1025 < 2 ^ 31"
  shows "\<exists>n a1 b1. link_rounds n p = Inr (a1, b1) \<and> state a1 = COMPLETE
           \<and> state b1 = COMPLETE \<and> disk (fsys b1) (f_name g) = Some whole"
  using assms(1)
proof (induction "(length whole - f_pos f) + (if f_eof f then 0 else 1)" arbitrary: c f g q p
    rule: less_induct)
  case less
  obtain a b where p: "p = (a, b)" by (cases p)
  show ?case
  proof (cases "f_eof f")
    case True
    then show ?thesis
      using round_last_blocks [OF less.prems [unfolded p] assms(2) _ assms(3-5)] p by blast
  next
    case False
    let ?g = "g\<lparr>f_data := f_data g @ c, f_pos := length (f_data g) + length c\<rparr>"
    let ?f = "after_read fl f"
    obtain p1 where p1: "link_round p = Inr p1"
      "in_flight fl whole (next_chunk fl f) ?f ?g (q + 1) p1"
      using round_next_block [OF less.prems [unfolded p] assms(2) False] p by blast
    have "f_data f = whole" using less.prems by (simp add: in_flight_def)
    then have "(length whole - f_pos ?f) + (if f_eof ?f then 0 else 1)
             < (length whole - f_pos f) + (if f_eof f then 0 else 1)"
      using False by (auto simp: after_read_def next_chunk_def chunk_size_def)
    from less.hyps [OF this p1(2)] obtain n a1 b1 where
      "link_rounds n p1 = Inr (a1, b1)" "state a1 = COMPLETE" "state b1 = COMPLETE"
      "disk (fsys b1) (f_name g) = Some whole" by auto
    with p1(1) show ?thesis by (intro exI [of _ "Suc n"]) auto
  qed
qed

section \<open>From the start of both sessions\<close>

definition start_byte :: "xmodem_flavor \<Rightarrow> byte" where
  "start_byte fl = (if fl = X_NORMAL \<or> fl = X_RELAXED then C_NAK else 67)"

lemma start_sender:
  assumes "acked_flavor fl" "disk (fsys s) p = Some d" "\<not> dev_bad (fsys s) p" "outp s = []"
  shows "\<exists>a. xmodem_start p True fl s = Inr (True, a) \<and> outp a = []
           \<and> first_byte a = start_byte fl \<and> sender_ready fl INIT (opened p d (fsys s)) 1 a"
proof -
  have fl: "fl = X_NORMAL \<or> fl = X_RELAXED \<or> fl = X_CRC \<or> fl = X_1K"
    using assms(1) by (simp add: acked_flavor_def)
  let ?f = "opened p d (fsys s)"
  have f: "start_open p True (s\<lparr>state := ABORT\<rparr>)
         = (True, reset_timer (s\<lparr>state := ABORT, file_p := Some ?f\<rparr>))"
    "fopen_rb p (fsys s) = Some ?f" "stat_size p (fsys s) = Some (int (length d))"
    using assms(2) by (simp_all add: start_open_def stat_size_def fopen_rb_def)
  have "\<not> f_bad ?f" "\<not> f_err ?f" using assms(3) by (simp_all add: opened_def)
  then show ?thesis
    using fl f assms(4)
    by (elim disjE)
      (simp_all add: xmodem_start_def Let_def start_sizes_def start_first_byte_def
        sender_ready_def start_byte_def set_transfer_stats_last_message_def)
qed

lemma start_receiver:
  assumes "acked_flavor fl" "writable (fsys s) p" "dev_room (fsys s) = None"
    "\<not> dev_bad (fsys s) p" "xmodem_protocol (ts_protocol (stats s))"
  shows "\<exists>b. xmodem_start p False fl s = Inr (True, b) \<and> state b = INIT
           \<and> first_byte b = start_byte fl
           \<and> receiver_ready fl (opened p [] (fsys s)) 1 (b\<lparr>state := BLOCK\<rparr>)"
proof -
  have fl: "fl = X_NORMAL \<or> fl = X_RELAXED \<or> fl = X_CRC \<or> fl = X_1K"
    using assms(1) by (simp add: acked_flavor_def)
  let ?f = "opened p [] (fsys s)"
  have f: "fopen_wb p (fsys s) = Some ?f" using assms(2) by (simp add: fopen_wb_def)
  have "f_room ?f = None" "\<not> f_bad ?f" "f_pos ?f = length (f_data ?f)"
    using assms(3,4) by (simp_all add: opened_def)
  then show ?thesis
    using fl f assms(5)
    by (elim disjE)
      (simp_all add: xmodem_start_def start_open_def Let_def start_first_byte_def
        receiver_ready_def start_byte_def set_transfer_stats_last_message_def)
qed

lemma receiver_asks:
  assumes "receiver_ready fl g q (b\<lparr>state := BLOCK\<rparr>)" "state b = INIT"
  shows "\<exists>b1. xmodem [] rem Q_BUFFER_SIZE b = Inr (b1, 0) \<and> outp b1 = [first_byte b]
           \<and> receiver_ready fl g q b1"
proof -
  note ready = assms(1) [unfolded receiver_ready_def]
  let ?small = "fl = X_NORMAL \<or> fl = X_RELAXED \<or> fl = Y_NORMAL \<or> fl = Y_G"
  let ?b1 = "reset_timer (b\<lparr>inp := [], outp := [first_byte b],
                            state := (if ?small then BLOCK else FIRST_BLOCK)\<rparr>)"
  have "xmodem_receive (b\<lparr>inp := []\<rparr>) = Inr ?b1"
    using assms(2) ready by (cases b)
      (auto simp: xmodem_receive_def recv_init_def Let_def reset_timer_def)
  then have "xmodem [] rem Q_BUFFER_SIZE b = Inr (?b1, 0)"
    using ready assms(2) by (intro xmodem_receive_call) simp_all
  moreover have "receiver_ready fl g q ?b1" using ready by (simp add: receiver_ready_def)
  ultimately show ?thesis by (intro exI [of _ ?b1]) simp
qed

text \<open>
  C1. Over a link that loses nothing, a session of \<open>xmodem_start\<close> on both sides with one of the
  acknowledged flavors ends: after finitely many rounds both sides are COMPLETE and the file of
  the receiver is the file of the sender, byte for byte, for every file that is not empty, does
  not end in a SUB and whose size, padding included, is a positive C \<open>int\<close>.
\<close>

theorem xmodem_transfer:
  assumes "acked_flavor fl"
    and "disk (fsys s) p = Some whole" "\<not> dev_bad (fsys s) p" "outp s = []"
    and "writable (fsys r) dest" "dev_room (fsys r) = None" "\<not> dev_bad (fsys r) dest"
    and "outp r = []" "xmodem_protocol (ts_protocol (stats r))"
    and "whole \<noteq> []" "last whole \<noteq> C_SUB" "length whole + 1025 < 2 ^ 31"
  shows "\<exists>a0 b0 n a b. xmodem_start p True fl s = Inr (True, a0)
           \<and> xmodem_start dest False fl r = Inr (True, b0)
           \<and> link_rounds n (a0, b0) = Inr (a, b)
           \<and> state a = COMPLETE \<and> state b = COMPLETE \<and> disk (fsys b) dest = Some whole"
proof -
  let ?f = "opened p whole (fsys s)" and ?g = "opened dest [] (fsys r)"
  obtain a0 where a0: "xmodem_start p True fl s = Inr (True, a0)" "outp a0 = []"
    "first_byte a0 = start_byte fl" "sender_ready fl INIT ?f 1 a0"
    using start_sender [OF assms(1-4)] by blast
  obtain b0 where b0: "xmodem_start dest False fl r = Inr (True, b0)" "state b0 = INIT"
    "first_byte b0 = start_byte fl" "receiver_ready fl ?g 1 (b0\<lparr>state := BLOCK\<rparr>)"
    using start_receiver [OF assms(1,5,6,7,9)] by blast
  obtain b1 where b1: "xmodem [] 0 Q_BUFFER_SIZE b0 = Inr (b1, 0)" "outp b1 = [first_byte b0]"
    "receiver_ready fl ?g 1 b1"
    using receiver_asks [OF b0(4,2)] by blast
  have same: "a0\<lparr>outp := []\<rparr> = a0" using a0(2) by (cases a0) simp
  have "first_byte a0 \<noteq> C_CAN" using a0(3) by (simp add: start_byte_def)
  then obtain a1 where a1: "xmodem [first_byte a0] 0 Q_BUFFER_SIZE a0 = Inr (a1, 0)"
    "outp a1 = frame fl 1 (pad_chunk fl (next_chunk fl ?f))"
    "sender_ready fl (next_state fl ?f) (after_read fl ?f) (1 + 1) a1"
    using sender_starts [OF a0(4) assms(1) a0(2)] by blast
  have "xmodem [first_byte a0] 0 Q_BUFFER_SIZE (a0\<lparr>outp := []\<rparr>) = Inr (a1, 0)"
    unfolding same by (rule a1(1))
  then have "link_round (a0, b0) = Inr (a1, b1\<lparr>outp := []\<rparr>)"
    using a0(2,3) b0(3) b1 by (simp add: link_round_def)
  moreover have "in_flight fl whole (next_chunk fl ?f) (after_read fl ?f) ?g 1 (a1, b1\<lparr>outp := []\<rparr>)"
    using a1 b1(3) length_next_chunk [of fl ?f]
    by (auto simp: in_flight_def next_state_def after_read_def opened_def next_chunk_def
        receiver_ready_def slice_def)
  from transfer_in_flight [OF this assms(1,10,11,12)]
  obtain n a b where "link_rounds n (a1, b1\<lparr>outp := []\<rparr>) = Inr (a, b)"
    "state a = COMPLETE" "state b = COMPLETE" "disk (fsys b) dest = Some whole"
    by (auto simp: opened_def)
  ultimately have "link_rounds (Suc n) (a0, b0) = Inr (a, b)" by simp
  then show ?thesis
    using a0(1) b0(1) \<open>state a = _\<close> \<open>state b = _\<close> \<open>disk (fsys b) dest = _\<close> by blast
qed

lemma xmodem_transfer_witness:
  "\<exists>a0 b0 n a b. xmodem_start (ascii ''f'') True X_CRC (idle (disk_with (ascii ''f'') [7, 26, 9]))
       = Inr (True, a0)
     \<and> xmodem_start (ascii ''g'') False X_CRC (idle (disk_with (ascii ''h'') [])) = Inr (True, b0)
     \<and> link_rounds n (a0, b0) = Inr (a, b)
     \<and> state a = COMPLETE \<and> state b = COMPLETE \<and> disk (fsys b) (ascii ''g'') = Some [7, 26, 9]"
  by (rule xmodem_transfer) (simp_all add: acked_flavor_def xmodem_protocol_def)

end
