(* ===== verification/Xmodem_Behaviour.thy ===== *)
theory Xmodem_Behaviour
  imports Xmodem_Link
begin

text \<open>
  What a session of \<open>xmodem.c\<close> does when the link is not perfect: blocks that arrive in pieces,
  blocks that are damaged, repeated or refused, answers that do not come, a peer that cancels;
  and the inputs on which it stops the program.
\<close>

section \<open>A block in pieces\<close>

text \<open>The calls of \<open>xmodem\<close> for inputs that arrive one after the other.\<close>

fun feed :: "byte list list \<Rightarrow> xfer \<Rightarrow> fault + xfer" where
  "feed [] s = Inr s"
| "feed (p # ps) s = bind_res (xmodem p 0 Q_BUFFER_SIZE s) (\<lambda>(s1, _). feed ps s1)"

lemma feed_pieces:
  "receiver_has fl g q xs b \<Longrightarrow> acked_flavor fl \<Longrightarrow> frame_size_ok fl (length d) \<Longrightarrow>
    frame fl q d = xs @ concat ps \<Longrightarrow> [] \<notin> set ps \<Longrightarrow> ps \<noteq> [] \<Longrightarrow>
    \<exists>b1. feed ps b = Inr b1 \<and> outp b1 = [C_ACK]
      \<and> receiver_ready fl
          (g\<lparr>f_data := f_data g @ d, f_pos := length (f_data g) + length d\<rparr>) (q + 1) b1"
proof (induction ps arbitrary: xs b)
  case Nil
  then show ?case by simp
next
  case (Cons p ps)
  show ?case
  proof (cases "ps = []")
    case True
    with Cons.prems have "frame fl q d = xs @ p" "p \<noteq> []" by auto
    from receiver_completes_block [OF Cons.prems(1-3) this, of 0] True show ?thesis by auto
  next
    case False
    with Cons.prems(5) have "concat ps \<noteq> []" "p \<noteq> []" by (cases ps; auto)+
    moreover have fr: "frame fl q d = xs @ p @ concat ps" using Cons.prems(4) by simp
    ultimately obtain b1 where b1: "xmodem p 0 Q_BUFFER_SIZE b = Inr (b1, 0)"
      "receiver_has fl g q (xs @ p) b1"
      using receiver_keeps_piece [OF Cons.prems(1-3)] by blast
    have "frame fl q d = (xs @ p) @ concat ps" using fr by simp
    with b1 Cons.IH [OF b1(2)] Cons.prems(2,3,5) False show ?thesis by simp
  qed
qed

text \<open>
  C16. Reassembly, for the Xmodem flavors that acknowledge each block (normal, relaxed, CRC and
  1K, not the streaming 1K/G): a block that arrives split into any number of non-empty pieces is treated like one
  that arrives at once: its data is appended to the file, the sequence number goes up,
  and there is one ACK.
\<close>

theorem pieces_make_a_block:
  assumes "receiver_ready fl g q b" "acked_flavor fl" "frame_size_ok fl (length d)"
    and "concat ps = frame fl q d" "[] \<notin> set ps"
  shows "\<exists>b1. feed ps b = Inr b1 \<and> outp b1 = [C_ACK]
      \<and> receiver_ready fl
          (g\<lparr>f_data := f_data g @ d, f_pos := length (f_data g) + length d\<rparr>) (q + 1) b1"
proof -
  have "frame fl q d \<noteq> []" by (simp add: frame_def)
  then have "ps \<noteq> []" using assms(4) by auto
  then show ?thesis
    using feed_pieces [of fl g q "[]" b d ps] assms by (simp add: receiver_has_none)
qed

definition waiting_receiver :: "xmodem_flavor \<Rightarrow> xfer" where
  "waiting_receiver fl =
     (idle (disk_with [] []))\<lparr>state := BLOCK, flavor := fl, file_p := Some (open_file [] 0)\<rparr>"

lemma waiting_receiver_ready [simp]: "receiver_ready fl (open_file [] 0) 1 (waiting_receiver fl)"
  by (simp add: receiver_ready_def waiting_receiver_def xmodem_protocol_def)

lemma pieces_make_a_block_witness:
  "\<exists>b1. feed [[C_SOH, 1], 0xFE # replicate 100 65, replicate 28 65 @ frame_check X_1K (replicate 128 65)]
          (waiting_receiver X_1K) = Inr b1 \<and> outp b1 = [C_ACK]
      \<and> receiver_ready X_1K
          ((open_file [] 0)\<lparr>f_data := f_data (open_file [] 0) @ replicate 128 65,
             f_pos := length (f_data (open_file [] 0)) + length (replicate 128 (65 :: byte))\<rparr>) (1 + 1) b1"
proof (rule pieces_make_a_block [where q = 1])
  have "replicate 128 (65 :: byte) = replicate 100 65 @ replicate 28 65"
    by (simp flip: replicate_add)
  then show "concat [[C_SOH, 1], 0xFE # replicate 100 65,
        replicate 28 65 @ frame_check X_1K (replicate 128 65)]
      = frame X_1K 1 (replicate 128 65)"
    by (simp add: frame_def)
qed (simp_all add: acked_flavor_def frame_size_ok_def)

section \<open>A damaged block\<close>

lemma increment_errors_below:
  "ts_error_count (stats s) + 1 < errors_max \<Longrightarrow>
    stats_increment_errors m s =
      (set_transfer_stats_last_message m s)
        \<lparr>stats := (stats (set_transfer_stats_last_message m s))
           \<lparr>ts_error_count := ts_error_count (stats s) + 1\<rparr>\<rparr>"
  by (simp add: stats_increment_errors_def Let_def not_le [symmetric])

lemma receiver_purges:
  assumes "receiver_has fl g q xs b" "acked_flavor fl" "ys \<noteq> []" "length xs + length ys \<le> 1029"
    "(xs @ ys) ! 0 \<noteq> C_EOT" "\<not> block_incomplete (arrived ys b)"
    "block_error (arrived ys b) = Some m" "ts_error_count (stats b) + 1 < errors_max"
  shows "xmodem ys rem Q_BUFFER_SIZE b
       = Inr (purge_block (clear_block (stats_increment_errors m (arrived ys b))), 0)"
proof -
  note has = assms(1) [unfolded receiver_has_def]
  note fields = arrived_fields [OF assms(1,4)]
  let ?s = "stats_increment_errors m (arrived ys b)"
  have "state ?s = BLOCK"
    using fields(6,9) assms(8) by (simp add: increment_errors_below)
  then have "recv_data (arrived ys b) = Inr (Return (purge_block (clear_block ?s)))"
    using assms(6,7) by (simp add: recv_data_def verify_block_def)
  from receive_piece [OF assms(1-5) this] show ?thesis
    using has by (intro xmodem_receive_call) (auto simp: purge_block_def)
qed

lemma purge_sends_nak:
  assumes "\<not> sending s" "state s = PURGE_INPUT" "prior_state s = BLOCK"
  shows "xmodem [] rem Q_BUFFER_SIZE s =
     Inr ((set_transfer_stats_last_message (MsgN ''SENDING NAK'' (current_block_number s))
            (s\<lparr>inp := [], outp := [C_NAK], state := BLOCK\<rparr>)), 0)"
proof (rule xmodem_receive_call)
  show "xmodem_receive (s\<lparr>inp := []\<rparr>) =
     Inr (set_transfer_stats_last_message (MsgN ''SENDING NAK'' (current_block_number s))
            (s\<lparr>inp := [], outp := [C_NAK], state := BLOCK\<rparr>))"
    using assms(2,3)
    by (simp add: xmodem_receive_def recv_init_def recv_first_block_def recv_block_def
        recv_purge_def Let_def set_transfer_stats_last_message_def)
qed (use assms in simp_all)

lemma bad_block_refused:
  assumes "receiver_has fl g q xs b" "acked_flavor fl" "ys \<noteq> []" "length xs + length ys \<le> 1029"
    "(xs @ ys) ! 0 \<noteq> C_EOT" "\<not> block_incomplete (arrived ys b)"
    "block_error (arrived ys b) = Some m" "ts_error_count (stats b) + 1 < errors_max"
  shows "\<exists>b1. feed [ys, []] b = Inr b1 \<and> outp b1 = [C_NAK] \<and> receiver_ready fl g q b1
           \<and> ts_error_count (stats b1) = ts_error_count (stats b) + 1"
proof -
  note has = assms(1) [unfolded receiver_has_def]
  note fields = arrived_fields [OF assms(1,4)]
  let ?p = "purge_block (clear_block (stats_increment_errors m (arrived ys b)))"
  let ?b1 = "set_transfer_stats_last_message (MsgN ''SENDING NAK'' (current_block_number ?p))
            (?p\<lparr>inp := [], outp := [C_NAK], state := BLOCK\<rparr>)"
  have "xmodem [] 0 Q_BUFFER_SIZE ?p = Inr (?b1, 0)"
    using fields(7) by (intro purge_sends_nak) (simp_all add: purge_block_def)
  then have "feed [ys, []] b = Inr ?b1" using receiver_purges [OF assms] by simp
  moreover have "file_p (stats_increment_errors m (arrived ys b)) = Some g"
    using fields(5,9) assms(8) by (simp add: increment_errors_below)
  ultimately show ?thesis
    using has fields by (intro exI [of _ ?b1]) (simp add: receiver_ready_def purge_block_def)
qed

text \<open>
  C17. A complete block that fails a check leaves the file and the expected sequence number as
  they were: the receiver waits until the line is quiet, answers NAK, counts one error and is
  ready for the same block again (below the error limit).
\<close>

theorem damaged_block_is_refused:
  assumes "receiver_has fl g q xs b" "acked_flavor fl" "ys \<noteq> []" "length xs + length ys \<le> 1029"
    "(xs @ ys) ! 0 \<noteq> C_EOT" "\<not> block_incomplete (arrived ys b)"
    "block_error (arrived ys b) = Some m" "ts_error_count (stats b) + 1 < errors_max"
  shows "\<exists>b1. feed [ys, []] b = Inr b1 \<and> outp b1 = [C_NAK] \<and> receiver_ready fl g q b1
           \<and> ts_error_count (stats b1) = ts_error_count (stats b) + 1"
  using assms by (rule bad_block_refused)

text \<open>A block that starts with the wrong byte arrives.\<close>

lemma damaged_block_is_refused_witness:
  "\<exists>b1. feed [replicate 132 0, []] (waiting_receiver X_NORMAL) = Inr b1 \<and> outp b1 = [C_NAK]
      \<and> receiver_ready X_NORMAL (open_file [] 0) 1 b1
      \<and> ts_error_count (stats b1) = ts_error_count (stats (waiting_receiver X_NORMAL)) + 1"
proof (rule damaged_block_is_refused [where xs = "[]" and
      m = "MsgN ''HEADER ERROR IN BLOCK'' 1"])
  let ?s = "arrived (replicate 132 0) (waiting_receiver X_NORMAL)"
  have has: "receiver_has X_NORMAL (open_file [] 0) 1 [] (waiting_receiver X_NORMAL)"
    by (simp add: receiver_has_none)
  then show "receiver_has X_NORMAL (open_file [] 0) 1 [] (waiting_receiver X_NORMAL)" .
  note fields = arrived_fields [OF has, of "replicate 132 0"]
  show "\<not> block_incomplete ?s" using fields by (simp add: block_incomplete_def)
  have "current_block_number ?s = 1"
    by (simp add: arrived_def recv_append_def waiting_receiver_def)
  then show "block_error ?s = Some (MsgN ''HEADER ERROR IN BLOCK'' 1)"
    using fields by (simp add: block_error_def size_error_def header_error_def blit_def nth_append)
qed (simp_all add: acked_flavor_def waiting_receiver_def)

text \<open>
  C40. A block that is sent again because its ACK was lost is never acknowledged: the sequence
  check comes before the test for a duplicate, so the receiver refuses the copy with a NAK and
  waits for the next block, which the sender only sends after an ACK.
\<close>

theorem repeated_block_is_refused:
  assumes "receiver_ready fl g (q + 1) b" "acked_flavor fl" "frame_size_ok fl (length d)"
    and "ts_error_count (stats b) + 1 < errors_max"
  shows "\<exists>b1. feed [frame fl q d, []] b = Inr b1 \<and> outp b1 = [C_NAK]
           \<and> receiver_ready fl g (q + 1) b1
           \<and> ts_error_count (stats b1) = ts_error_count (stats b) + 1"
proof -
  have has: "receiver_has fl g (q + 1) [] b" using assms(1) by (simp add: receiver_has_none)
  let ?fr = "frame fl q d" and ?s = "arrived (frame fl q d) b"
  have len: "length ([] :: byte list) + length ?fr \<le> 1029"
    using frame_length_bounds [OF assms(3)] by simp
  note fields = arrived_fields [OF has len]
  have cb: "current_block ?s ! i = ?fr ! i" if "i < 3" for i
    using fields(1) that by (simp add: blit_def nth_append length_frame)
  have head: "current_block ?s ! 0 = (if length d = 1024 then C_STX else C_SOH)"
    "current_block ?s ! 1 = q"
    using cb [of 0] cb [of 1] by (simp_all add: frame_def)
  have complete: "\<not> block_incomplete ?s"
    using frame_complete_iff [of ?s d q] fields(2,3) assms(2,3) head(1) by simp
  have size: "size_error ?s = None"
    using fields(2,3) assms(2,3)
    by (cases fl)
      (auto simp: size_error_def length_frame frame_size_ok_def uses_checksum_def small_blocks_def
        acked_flavor_def)
  have header: "header_error ?s = None"
    using fields(3) head(1) assms(2,3)
    by (cases fl) (auto simp: header_error_def frame_size_ok_def small_blocks_def acked_flavor_def)
  have "sequence_error ?s = Some (MsgN ''BAD BLOCK NUMBER IN BLOCK'' (current_block_number ?s))"
    using fields(4) head(2) by (simp add: sequence_error_def)
  then have err: "block_error ?s
      = Some (MsgN ''BAD BLOCK NUMBER IN BLOCK'' (current_block_number ?s))"
    using size header by (simp add: block_error_def)
  have "([] @ ?fr) ! 0 \<noteq> C_EOT" "?fr \<noteq> []" by (simp_all add: frame_def)
  from bad_block_refused [OF has assms(2) this(2) len this(1) complete err assms(4)]
  show ?thesis .
qed

lemma repeated_block_is_refused_witness:
  "\<exists>b1. feed [frame X_CRC 0 (replicate 128 65), []] (waiting_receiver X_CRC) = Inr b1
      \<and> outp b1 = [C_NAK] \<and> receiver_ready X_CRC (open_file [] 0) (0 + 1) b1
      \<and> ts_error_count (stats b1) = ts_error_count (stats (waiting_receiver X_CRC)) + 1"
proof (rule repeated_block_is_refused)
  show "receiver_ready X_CRC (open_file [] 0) (0 + 1) (waiting_receiver X_CRC)" by simp
  show "ts_error_count (stats (waiting_receiver X_CRC)) + 1 < errors_max"
    by (simp add: waiting_receiver_def)
qed (simp_all add: acked_flavor_def frame_size_ok_def)

lemma stop_closes:
  assumes "xmodem_protocol (ts_protocol (stats s))" "file_p s = Some f"
  shows "fsys (stop_file_transfer q s) = fclose f (fsys s)" "file_p (stop_file_transfer q s) = None"
  using assms by (auto simp: xmodem_protocol_def stop_file_transfer_def xmodem_stop_def)

section \<open>The sender: refused blocks and cancellation\<close>

text \<open>
  C18. A block the receiver refuses with a NAK is sent again byte for byte, once the line is
  quiet; the file, the sequence number and the state do not move and one error is counted.
\<close>

theorem nak_resends_block:
  assumes "sender_ready fl st f q a" "st = BLOCK \<or> st = LAST_BLOCK" "\<not> streaming a" "outp a = []"
    and "ts_error_count (stats a) + 1 < errors_max"
  shows "\<exists>a1. feed [[C_NAK], []] a = Inr a1 \<and> sender_ready fl st f q a1
           \<and> outp a1 = take (current_block_n a) (current_block a)
           \<and> ts_error_count (stats a1) = ts_error_count (stats a) + 1"
proof -
  note ready = assms(1) [unfolded sender_ready_def]
  let ?n = "(stats_increment_errors (Msg ''NAK'')
               (a\<lparr>inp := [C_NAK], prior_state := st, state := PURGE_INPUT\<rparr>))\<lparr>inp := []\<rparr>"
  have n: "state ?n = PURGE_INPUT" "prior_state ?n = st" "file_p ?n = Some f"
    using ready assms(5) by (simp_all add: increment_errors_below)
  have "xmodem_send (a\<lparr>inp := [C_NAK]\<rparr>) = Inr ?n"
    using assms(2) ready assms(3)
    by (elim disjE)
      (simp_all add: xmodem_send_def send_cancel_def send_skip send_block_def send_last_block_def
        streaming_def)
  then have one: "xmodem [C_NAK] 0 Q_BUFFER_SIZE a = Inr (?n, 0)"
    using ready assms(2,4) by (intro xmodem_send_call) auto
  let ?a1 = "(send_current_block (reset_timer ?n))\<lparr>state := st, inp := []\<rparr>"
  have "?n\<lparr>inp := []\<rparr> = ?n" by simp
  moreover have "xmodem_send ?n = Inr ?a1"
    using n(1,2) assms(2,4)
    by (auto simp: xmodem_send_def send_cancel_def send_skip send_purge_def Let_def)
  ultimately have "xmodem [] 0 Q_BUFFER_SIZE ?n = Inr (?a1, 0)"
    using ready n(1) assms(4) by (intro xmodem_send_call) simp_all
  with one have "feed [[C_NAK], []] a = Inr ?a1" by simp
  then show ?thesis
    using ready n assms(4)
    by (intro exI [of _ ?a1]) (simp add: sender_ready_def send_current_block_def)
qed

definition waiting_sender :: "xstate \<Rightarrow> xfer" where
  "waiting_sender st =
     (idle (disk_with [] []))\<lparr>sending := True, state := st, file_p := Some (open_file [65, 66] 2),
        current_block := replicate 1029 1, current_block_n := 133\<rparr>"

lemma waiting_sender_fields [simp]:
  "sender_ready X_CRC st (open_file [65, 66] 2) 1 (waiting_sender st)"
  "outp (waiting_sender st) = []" "\<not> streaming (waiting_sender st)" "sending (waiting_sender st)"
  "state (waiting_sender st) = st" "ts_error_count (stats (waiting_sender st)) = 0"
  "file_p (waiting_sender st) = Some (open_file [65, 66] 2)"
  "now (waiting_sender st) = 1000" "timeout_count (waiting_sender st) = 0"
  "xmodem_protocol (ts_protocol (stats (waiting_sender st)))"
  by (simp_all add: waiting_sender_def sender_ready_def streaming_def xmodem_protocol_def)

lemma nak_resends_block_witness:
  "\<exists>a1. feed [[C_NAK], []] (waiting_sender BLOCK) = Inr a1
      \<and> sender_ready X_CRC BLOCK (open_file [65, 66] 2) 1 a1
      \<and> outp a1 = take (current_block_n (waiting_sender BLOCK)) (current_block (waiting_sender BLOCK))
      \<and> ts_error_count (stats a1) = ts_error_count (stats (waiting_sender BLOCK)) + 1"
  by (rule nak_resends_block) simp_all

text \<open>
  A CAN from the receiver ends the upload from every state that is not ABORT already: the
  state is ABORT, the statistics say so, and the file is closed with its contents unchanged.
\<close>

theorem can_cancels_upload:
  assumes "sending a" "state a \<noteq> ABORT" "outp a = []" "file_p a = Some f"
    and "xmodem_protocol (ts_protocol (stats a))"
  shows "\<exists>a1. xmodem (C_CAN # cs) rem Q_BUFFER_SIZE a = Inr (a1, 0) \<and> state a1 = ABORT
           \<and> ts_state (stats a1) = Q_TRANSFER_STATE_ABORT \<and> file_p a1 = None \<and> outp a1 = []
           \<and> disk (fsys a1) (f_name f) = Some (f_data f)"
proof -
  let ?a1 = "(stats_file_cancelled (Msg ''TRANSFER CANCELLED BY RECEIVER'')
               (a\<lparr>inp := C_CAN # cs\<rparr>))\<lparr>inp := []\<rparr>"
  have "xmodem_send (a\<lparr>inp := C_CAN # cs\<rparr>) = Inr ?a1"
    by (simp add: xmodem_send_def send_cancel_def)
  then have "xmodem (C_CAN # cs) rem Q_BUFFER_SIZE a = Inr (?a1, 0)"
    using assms(1-3) by (intro xmodem_send_call) auto
  moreover have "file_p ?a1 = None \<and> disk (fsys ?a1) (f_name f) = Some (f_data f)"
    using stop_closes [of "set_transfer_stats_last_message (Msg ''TRANSFER CANCELLED BY RECEIVER'')
        (a\<lparr>inp := C_CAN # cs\<rparr>)" f] assms(4,5)
    by (simp add: stats_file_cancelled_def fclose_def)
  ultimately show ?thesis using assms(3) by (intro exI [of _ ?a1]) simp
qed

lemma can_cancels_upload_witness:
  "\<exists>a1. xmodem [C_CAN, C_CAN] 0 Q_BUFFER_SIZE (waiting_sender EOT_ACK) = Inr (a1, 0)
      \<and> state a1 = ABORT \<and> ts_state (stats a1) = Q_TRANSFER_STATE_ABORT \<and> file_p a1 = None
      \<and> outp a1 = [] \<and> disk (fsys a1) (f_name (open_file [65, 66] 2))
          = Some (f_data (open_file [65, 66] 2))"
  by (rule can_cancels_upload) simp_all

section \<open>Timeouts\<close>

text \<open>The last permitted timeout: the transfer is stopped, which closes the file.\<close>

lemma check_timeout_last:
  assumes "timeout_length \<le> now s - timeout_begin s" "sending s \<Longrightarrow> 20 \<le> now s - timeout_begin s"
    "timeout_max s \<le> timeout_count s + 1" "file_p s = Some f"
    "xmodem_protocol (ts_protocol (stats s))"
  shows "\<exists>s1. check_timeout s = (True, s1) \<and> state s1 = ABORT
           \<and> outp s1 = (if sending s then outp s else [C_CAN])
           \<and> ts_state (stats s1) = Q_TRANSFER_STATE_ABORT
           \<and> file_p s1 = None \<and> disk (fsys s1) (f_name f) = Some (f_data f)"
proof -
  let ?s1 = "s\<lparr>timeout_count := timeout_count s + 1,
               stats := (stats s)\<lparr>ts_error_count := ts_error_count (stats s) + 1\<rparr>\<rparr>"
  let ?s2 = "set_transfer_stats_last_message (Msg ''TOO MANY TIMEOUTS, TRANSFER CANCELLED'') ?s1"
  let ?s3 = "if sending s then ?s2 else ?s2\<lparr>outp := [C_CAN]\<rparr>"
  have "check_timeout s
      = (True, reset_timer ((stop_file_transfer Q_TRANSFER_STATE_ABORT ?s3)\<lparr>state := ABORT\<rparr>))"
    using assms(1-3) by (auto simp: check_timeout_def Let_def)
  moreover have "xmodem_protocol (ts_protocol (stats ?s3))" "file_p ?s3 = Some f"
    using assms(4,5) by simp_all
  ultimately show ?thesis using stop_closes [of ?s3 f Q_TRANSFER_STATE_ABORT]
    by (simp add: fclose_def)
qed

text \<open>
  A receiver that waits for a block gives up at its last permitted timeout: the state is
  ABORT, a CAN tells the sender, and what was received so far is saved under the file's name.
\<close>

theorem receiver_gives_up:
  assumes "receiver_ready fl g q b" "state b = BLOCK"
    and "10 \<le> now b - timeout_begin b" "timeout_max b \<le> timeout_count b + 1"
  shows "\<exists>b1. xmodem [] rem Q_BUFFER_SIZE b = Inr (b1, 0) \<and> state b1 = ABORT
           \<and> outp b1 = [C_CAN] \<and> ts_state (stats b1) = Q_TRANSFER_STATE_ABORT
           \<and> file_p b1 = None \<and> disk (fsys b1) (f_name g) = Some (f_data g)"
proof -
  note ready = assms(1) [unfolded receiver_ready_def]
  obtain b1 where b1: "check_timeout (b\<lparr>inp := []\<rparr>) = (True, b1)" "state b1 = ABORT"
    "outp b1 = [C_CAN]" "ts_state (stats b1) = Q_TRANSFER_STATE_ABORT" "file_p b1 = None"
    "disk (fsys b1) (f_name g) = Some (f_data g)"
    using check_timeout_last [of "b\<lparr>inp := []\<rparr>" g] assms(3,4) ready by auto
  have "inp b1 = []" using check_timeout_frame(9) [of "b\<lparr>inp := []\<rparr>"] b1(1) by simp
  moreover have "xmodem_receive (b\<lparr>inp := []\<rparr>) = Inr b1"
    using assms(2) b1(1,2)
    by (simp add: xmodem_receive_def recv_init_def recv_first_block_def recv_block_def recv_wait_def)
  ultimately show ?thesis
    using b1 ready assms(2) by (intro exI [of _ b1] conjI xmodem_receive_call) simp_all
qed

lemma receiver_gives_up_witness:
  "\<exists>b1. xmodem [] 0 Q_BUFFER_SIZE ((waiting_receiver X_1K)\<lparr>now := 1010, timeout_count := 9\<rparr>)
        = Inr (b1, 0) \<and> state b1 = ABORT
      \<and> outp b1 = [C_CAN] \<and> ts_state (stats b1) = Q_TRANSFER_STATE_ABORT
      \<and> file_p b1 = None \<and> disk (fsys b1) (f_name (open_file [] 0)) = Some (f_data (open_file [] 0))"
  by (rule receiver_gives_up [where fl = X_1K and q = 1])
    (simp_all add: receiver_ready_def waiting_receiver_def xmodem_protocol_def)

section \<open>Inputs that stop the program\<close>

lemma recv_block_g:
  assumes "state s = BLOCK" "inp s \<noteq> []" "g_streaming (reset_timer s)"
  shows "recv_block s = recv_g (reset_timer s)"
proof -
  have "flavor s = X_1K_G \<or> flavor s = Y_G" using assms(3) by (simp add: g_streaming_def)
  then have "\<not> (flavor s \<noteq> X_1K_G \<and> flavor s \<noteq> Y_G)" by blast
  then show ?thesis
    using assms by (simp only: recv_block_def Let_def reset_timer_frame if_False if_True simp_thms)
qed

text \<open>
  A streaming (-G) receiver that is given a whole 128-byte block in one piece keeps it as the
  start of a 1024-byte block, because it looks at the header byte before the input is in the
  buffer; whatever arrives next, an assertion fails and the program stops.
\<close>

theorem short_g_block_stops_program:
  assumes "\<not> sending b" "state b = BLOCK" "flavor b = X_1K_G \<or> flavor b = Y_G"
    and "current_block b = replicate 1029 0" "current_block_n b = 0"
    and "current_block_sequence_i b \<noteq> 0" "length d = 128" "ys \<noteq> []"
  shows "feed [frame (flavor b) q d, ys] b = Inl Assert_failed"
proof -
  let ?fr = "frame (flavor b) q d"
  have len: "length ?fr = 133" using assms(3,7) by (auto simp: length_frame uses_checksum_def)
  have ne: "?fr \<noteq> []" "?fr ! 0 = C_SOH" using assms(7) by (simp_all add: frame_def)
  let ?b = "reset_timer (b\<lparr>inp := ?fr\<rparr>)"
  let ?b1 = "?b\<lparr>current_block := blit 0 ?fr (replicate 1029 0), current_block_n := 133, inp := []\<rparr>"
  have g: "g_streaming ?b" using assms(3,6) by (simp add: g_streaming_def)
  then have "recv_block (b\<lparr>inp := ?fr\<rparr>) = recv_g ?b"
    using assms(2) ne(1) by (intro recv_block_g) simp_all
  also have "\<dots> = Inr (Return ?b1)"
    using assms(4,5) len by (simp add: recv_g_def)
  finally have "xmodem_receive (b\<lparr>inp := ?fr\<rparr>) = Inr ?b1"
    using assms(2) by (simp add: xmodem_receive_def recv_init_def recv_first_block_def)
  then have one: "xmodem ?fr 0 Q_BUFFER_SIZE b = Inr (?b1, 0)"
    using assms(1,2) by (intro xmodem_receive_call) simp_all
  have "current_block ?b1 ! 0 = C_SOH" using ne by (simp add: blit_def nth_append)
  moreover have "g_streaming (reset_timer (?b1\<lparr>inp := ys\<rparr>))"
    using assms(3,6) by (simp add: g_streaming_def)
  ultimately have "recv_block (?b1\<lparr>inp := ys\<rparr>) = Inl Assert_failed"
    using assms(2,8) recv_block_g [of "?b1\<lparr>inp := ys\<rparr>"] by (simp add: recv_g_def)
  then have "run_input xmodem_receive (?b1\<lparr>inp := ys\<rparr>) = Some (Inl Assert_failed)"
    using assms(2)
    by (subst run_input.simps) (simp add: xmodem_receive_def recv_init_def recv_first_block_def)
  then have "xmodem ys 0 Q_BUFFER_SIZE ?b1 = Inl Assert_failed"
    using assms(1,2) by (simp add: xmodem_def input_loop_def)
  with one show ?thesis by simp
qed

lemma short_g_block_stops_program_witness:
  "feed [frame (flavor (waiting_receiver X_1K_G)) 1 (replicate 128 65), [C_EOT]]
     (waiting_receiver X_1K_G) = Inl Assert_failed"
  by (rule short_g_block_stops_program) (simp_all add: waiting_receiver_def)

text \<open>
  A Ymodem receiver that has no file open (before block 0, or after the EOT of a file) and
  is sent EOT uses the null \<open>FILE\<close> pointer.
\<close>

theorem early_eot_stops_program:
  assumes "\<not> sending b" "state b = BLOCK" "is_ymodem (flavor b)" "file_p b = None"
    and "length (current_block b) = 1029" "current_block_n b = 0" "current_block_sequence_i b = 0"
    and "current_block_number b = 1"
  shows "xmodem [C_EOT] rem Q_BUFFER_SIZE b = Inl Null_pointer"
proof -
  let ?b = "reset_timer (b\<lparr>inp := [C_EOT]\<rparr>)"
  have "\<not> g_streaming ?b" using assms(7,8) by (simp add: g_streaming_def)
  moreover have "current_block (recv_append ?b) ! 0 = C_EOT" "current_block_n (recv_append ?b) = 1"
    using assms(5,6) by (simp_all add: recv_append_def blit_def)
  moreover have "recv_eot (recv_append ?b) = Inl Null_pointer"
    using assms(3,4) by (simp add: recv_eot_def recv_eot_ymodem_def recv_append_def)
  ultimately have "recv_block (b\<lparr>inp := [C_EOT]\<rparr>) = Inl Null_pointer"
    using assms(2,6) by (simp add: recv_block_def)
  then have "run_input xmodem_receive (b\<lparr>inp := [C_EOT]\<rparr>) = Some (Inl Null_pointer)"
    using assms(2)
    by (subst run_input.simps) (simp add: xmodem_receive_def recv_init_def recv_first_block_def)
  then show ?thesis using assms(1,2) by (simp add: xmodem_def input_loop_def)
qed

lemma early_eot_stops_program_witness:
  "xmodem [C_EOT] 0 Q_BUFFER_SIZE ((waiting_receiver Y_NORMAL)
     \<lparr>file_p := None, current_block_sequence_i := 0\<rparr>) = Inl Null_pointer"
  by (rule early_eot_stops_program) (simp_all add: waiting_receiver_def is_ymodem_def)

end
