(* ===== verification/Ymodem_Header.thy ===== *)
theory Ymodem_Header
  imports Xmodem_Behaviour
begin

text \<open>
  Block 0 of Ymodem, the block that announces a file: what \<open>ymodem_construct_block_0\<close> writes is
  what \<open>ymodem_decode_block_0\<close> reads, and what the decoder does with names that do not fit.
\<close>

section \<open>The fields of the block\<close>

text \<open>A field: its bytes are not stop bytes, except perhaps the first, and a stop byte follows.\<close>

lemma scan_field_word:
  "w \<noteq> [] \<Longrightarrow> length w \<le> k \<Longrightarrow> slice n (length w) cb = w \<Longrightarrow> n + length w < length cb \<Longrightarrow>
    list_all (\<lambda>c. \<not> stop c) (tl w) \<Longrightarrow> stop (cb ! (n + length w)) \<Longrightarrow>
    scan_field stop k cb n = (w, n + length w)"
proof (induction w arbitrary: k n)
  case Nil
  then show ?case by simp
next
  case (Cons c w)
  obtain k' where k: "k = Suc k'" using Cons.prems(2) by (cases k) auto
  have drop: "drop n cb = cb ! n # drop (Suc n) cb"
    using Cons.prems(4) by (intro Cons_nth_drop_Suc [symmetric]) simp
  have first: "cb ! n = c" and rest: "slice (Suc n) (length w) cb = w"
    using Cons.prems(3) drop by (simp_all add: slice_def)
  show ?case
  proof (cases w)
    case Nil
    then show ?thesis using Cons.prems(6) k first by simp
  next
    case (Cons c' w')
    have "drop (Suc n) cb = cb ! Suc n # drop (Suc (Suc n)) cb"
      using Cons.prems(4) Cons by (intro Cons_nth_drop_Suc [symmetric]) simp
    then have "cb ! Suc n = c'" using rest Cons by (simp add: slice_def)
    then have "\<not> stop (cb ! (n + 1))" using Cons.prems(5) Cons by simp
    moreover have "scan_field stop k' cb (n + 1) = (w, n + 1 + length w)"
      using Cons.IH [of k' "n + 1"] Cons.prems k rest Cons by (simp add: list_all_iff)
    ultimately show ?thesis using k first by simp
  qed
qed

text \<open>What the C library makes of a string of digits.\<close>

lemma digit_properties:
  assumes "is_digit b c" "b \<le> 10"
  shows "\<not> is_space c" "c \<noteq> 45" "c \<noteq> 43" "c \<noteq> 0" "c \<noteq> 32" "is_digit 10 c"
  using assms by (auto simp: is_digit_def is_space_def word_le_nat_alt)

lemma digits_scan:
  assumes "list_all (is_digit b) ds" "ds \<noteq> []" "b \<le> 10"
  shows "scan_sign ds = (False, ds)" "takeWhile (is_digit b) ds = ds" "c_str ds = ds"
proof -
  obtain c cs where ds: "ds = c # cs" using assms(2) by (cases ds) auto
  have c: "is_digit b c" using assms(1) ds by simp
  show "scan_sign ds = (False, ds)"
    using digit_properties [OF c assms(3)] ds by (simp add: scan_sign_def)
  show "takeWhile (is_digit b) ds = ds" using assms(1) by (simp add: list_all_iff)
  show "c_str ds = ds"
    unfolding c_str_def
    using assms(1,3) digit_properties(4) by (simp add: list_all_iff) blast
qed

lemma atol_digits:
  assumes "n < 2 ^ 63"
  shows "atol (c_str (digits_of 10 n)) = int n"
proof -
  note scan = digits_scan [OF digits_of_digits [of 10 n] digits_of_nonempty, simplified]
  have num: "number_of 10 (digits_of 10 n) = n" by (rule number_of_digits_of) simp_all
  have all: "takeWhile (is_digit 10) (digits_of 10 n) = digits_of 10 n"
    using digits_of_digits [of 10 n] by (simp add: list_all_iff)
  show ?thesis
    unfolding atol_def scan(3) scan(1) Let_def prod.case all num using assms by simp
qed

lemma c_long_id: "0 \<le> x \<Longrightarrow> x < 2 ^ 63 \<Longrightarrow> c_long x = x"
proof -
  assume "0 \<le> x" "x < 2 ^ 63"
  then have "- (2 ^ 63) \<le> x \<and> x < 2 ^ 63" by linarith
  then show ?thesis by (simp add: c_long_def signed_of_int signed_take_bit_int_eq_self)
qed

lemma scan_octal_digits:
  assumes "n < 2 ^ 63"
  shows "scan_octal (c_str (digits_of 8 n)) = Some (int n)"
proof -
  note scan = digits_scan [OF digits_of_digits [of 8 n] digits_of_nonempty, simplified]
  have num: "number_of 8 (digits_of 8 n) = n" by (rule number_of_digits_of) simp_all
  have all: "takeWhile (is_digit 8) (digits_of 8 n) = digits_of 8 n"
    using digits_of_digits [of 8 n] by (simp add: list_all_iff)
  have "int n < 2 ^ 63" using assms by simp
  then have "c_long (int n) = int n" by (intro c_long_id) simp_all
  then show ?thesis
    unfolding scan_octal_def scan(3) scan(1) Let_def prod.case all num using assms by simp
qed

section \<open>Writing the block\<close>

definition block0_size :: "byte list \<Rightarrow> nat" where
  "block0_size txt = (if 131 < 3 + length txt + 1 then 1024 else 128)"

definition block0_data :: "byte list \<Rightarrow> byte list" where
  "block0_data txt = txt @ replicate (block0_size txt - length txt) 0"

lemma block0_built:
  assumes "is_ymodem (flavor a)" "upload_file_list_i a < length (upload_file_list a)"
    "fi = upload_file_list a ! upload_file_list_i a" "fi_name fi \<noteq> None" "filename a = Some fname"
    "txt = block0_text fname fi" "length txt \<le> 1020"
  shows "\<exists>a1. ymodem_construct_block_0 a = Inr a1
    \<and> current_block_n a1 = block0_size txt + 5 \<and> length (current_block a1) = 1029
    \<and> take (block0_size txt + 5) (current_block a1)
        = frame (flavor a) (current_block_sequence_i a) (block0_data txt)"
proof -
  let ?k = "block0_size txt" and ?cb = "blit 3 txt (replicate 1029 0) :: byte list"
  let ?hdr = "if ?k = 1024 then C_STX else C_SOH" and ?q = "current_block_sequence_i a"
  let ?cb1 = "?cb[?k + 3 := crc_hi (slice 3 ?k ?cb), ?k + 4 := crc_lo (slice 3 ?k ?cb), 0 := ?hdr,
                  1 := ?q, 2 := 0xFF - ?q]"
  have k: "?k + 5 \<le> 1029" "length txt \<le> ?k" using assms(7) by (auto simp: block0_size_def)
  have data: "slice 3 ?k ?cb = block0_data txt"
    using k by (auto simp: slice_def blit_def block0_data_def)
  have built: "ymodem_construct_block_0 a = Inr (a\<lparr>current_block := ?cb1,
      current_block_n := ?k + 5, current_block_sequence_i := ?q + 1\<rparr>)"
    using assms k(1)
    by (auto simp: ymodem_construct_block_0_def Let_def put_crc_def put_sequence_def block0_size_def)
  have "take (?k + 5) ?cb1 = frame (flavor a) ?q (block0_data txt)"
    using assms(1) k data
    by (subst take_framed)
      (auto simp: frame_def frame_check_def uses_checksum_def is_ymodem_def block0_data_def)
  with built k show ?thesis
    by (intro exI [of _ "a\<lparr>current_block := ?cb1, current_block_n := ?k + 5,
                          current_block_sequence_i := ?q + 1\<rparr>"]) simp
qed

section \<open>Reading the block\<close>

lemma block0_accepted:
  assumes "holds_block s d d" "is_ymodem (flavor s)"
  shows "block0_error s = None"
proof -
  note parts = holds_block_parts [OF assms(1)]
  have "length d = 128 \<or> length d = 1024" "\<not> uses_checksum (flavor s)"
    "current_block_n s = length d + 5"
    using assms by (auto simp: holds_block_def Let_def frame_size_ok_def length_frame
        uses_checksum_def is_ymodem_def)
  then show ?thesis
    using parts(1-4) parts(6,7) sequence_complement
    by (auto simp: block0_error_def Let_def crc_mismatch_def)
qed

lemma slice_slice: "j + m \<le> k \<Longrightarrow> slice j m (slice i k xs) = slice (i + j) m xs"
  by (simp add: slice_def drop_take add.commute min_def)

lemma nth_slice: "j < k \<Longrightarrow> i + k \<le> length xs \<Longrightarrow> slice i k xs ! j = xs ! (i + j)"
  by (simp add: slice_def)

text \<open>A field inside the data of the block.\<close>

lemma scan_field_in_data:
  assumes "slice 3 (length d) cb = d" "3 + length d \<le> length cb"
    "d = pre @ w @ c # post" "w \<noteq> []" "length w \<le> k" "list_all (\<lambda>c. \<not> stop c) (tl w)" "stop c"
  shows "scan_field stop k cb (3 + length pre) = (w, 3 + length pre + length w)"
proof (rule scan_field_word)
  have "slice (3 + length pre) (length w) cb = slice (length pre) (length w) d"
    using slice_slice [of "length pre" "length w" "length d" 3 cb] assms(1,3) by simp
  also have "\<dots> = w" using assms(3) by (simp add: slice_def)
  finally show "slice (3 + length pre) (length w) cb = w" .
  have "slice 3 (length d) cb ! (length pre + length w) = c"
    using assms(1,3) by (simp add: nth_append)
  then show "stop (cb ! (3 + length pre + length w))"
    using assms(2,3,7) nth_slice [of "length pre + length w" "length d" 3 cb]
    by (simp add: add.assoc)
qed (use assms in simp_all)

lemma block0_data_fields:
  assumes "length (block0_text fname fi) \<le> 1020" "0 \<le> fi_size fi" "fi_size fi < 2 ^ 31"
    "0 \<le> fi_mtime fi" "fi_mtime fi < 2 ^ 63"
  shows "\<exists>post. block0_data (block0_text fname fi)
       = fname @ 0 # digits_of 10 (nat (fi_size fi)) @ 32 # digits_of 8 (nat (fi_mtime fi)) @ 0 # post"
proof -
  let ?t = "block0_text fname fi"
  have "length ?t < block0_size ?t" using assms(1) by (auto simp: block0_size_def)
  then obtain m where "block0_size ?t - length ?t = Suc m" by (cases "block0_size ?t - length ?t") auto
  moreover have "fi_size fi mod 2 ^ 64 = fi_size fi" "fi_mtime fi mod 2 ^ 64 = fi_mtime fi"
    using assms(2-5) by simp_all
  ultimately show ?thesis by (simp add: block0_data_def block0_text_def)
qed

text \<open>The three fields, as the decoder finds them.\<close>

lemma block0_fields_found:
  assumes "slice 3 (length d) cb = d" "3 + length d \<le> length cb"
    "d = fname @ 0 # ds @ 32 # ms @ 0 # post" "fname \<noteq> []" "0 \<notin> set fname" "length fname \<le> 255"
    "ds \<noteq> []" "list_all (is_digit 10) ds" "length ds \<le> 255"
    "ms \<noteq> []" "list_all (is_digit 8) ms" "length ms \<le> 255"
  defines "n \<equiv> 3 + length fname" and "n2 \<equiv> 3 + length fname + 1 + length ds"
  shows "scan_field (\<lambda>b. b = 0) 255 cb 3 = (fname, n)"
    "scan_field (\<lambda>b. b = 0 \<or> b = 32) 255 cb (n + 1) = (ds, n2)"
    "cb[n2 := 32] = cb"
    "scan_field (\<lambda>b. b = 0 \<or> b = 32) 255 cb (n2 + 1) = (ms, n2 + 1 + length ms)"
proof -
  have no_stop: "list_all (\<lambda>c. \<not> (c = 0 \<or> c = 32)) (tl xs)" if "list_all (is_digit b) xs" "b \<le> 10"
    for b xs
  proof -
    have "c \<noteq> 0 \<and> c \<noteq> 32" if "c \<in> set xs" for c
      using that \<open>list_all (is_digit b) xs\<close> digit_properties(4,5) [OF _ \<open>b \<le> 10\<close>]
      unfolding list_all_iff by blast
    then show ?thesis by (cases xs) (auto simp: list_all_iff)
  qed
  have "list_all (\<lambda>c. c \<noteq> 0) (tl fname)" using assms(4,5) by (cases fname) (auto simp: list_all_iff)
  then show "scan_field (\<lambda>b. b = 0) 255 cb 3 = (fname, n)"
    using scan_field_in_data [OF assms(1,2), of "[]" fname 0 "ds @ 32 # ms @ 0 # post" 255 "\<lambda>b. b = 0"]
      assms(3-6) by (simp add: n_def)
  show "scan_field (\<lambda>b. b = 0 \<or> b = 32) 255 cb (n + 1) = (ds, n2)"
    using scan_field_in_data [OF assms(1,2), of "fname @ [0]" ds 32 "ms @ 0 # post" 255
        "\<lambda>b. b = 0 \<or> b = 32"] assms(3,7-9) no_stop [OF assms(8)]
    by (simp add: n_def n2_def)
  show "scan_field (\<lambda>b. b = 0 \<or> b = 32) 255 cb (n2 + 1) = (ms, n2 + 1 + length ms)"
    using scan_field_in_data [OF assms(1,2), of "fname @ 0 # ds @ [32]" ms 0 post 255
        "\<lambda>b. b = 0 \<or> b = 32"] assms(3,10-12) no_stop [OF assms(11)]
    by (simp add: n2_def)
  have "slice 3 (length d) cb ! (length fname + 1 + length ds) = 32"
    using assms(1,3) by (simp add: nth_append)
  then have "cb ! n2 = 32"
    using assms(2,3) nth_slice [of "length fname + 1 + length ds" "length d" 3 cb]
    by (simp add: n2_def add.assoc)
  then show "cb[n2 := 32] = cb" by (metis list_update_id)
qed

lemma decode_result:
  assumes "is_ymodem (flavor s)" "block0_error s = None"
    "scan_field (\<lambda>b. b = 0) 255 (current_block s) 3 = (fname, n)" "c_str fname = fname" "fname \<noteq> []"
    "download_path s = Some dp" "length (dp @ 47 # fname) < 256" "writable (fsys s) (dp @ 47 # fname)"
    "scan_field (\<lambda>b. b = 0 \<or> b = 32) 255 (current_block s) (n + 1) = (ls, n2)"
    "(current_block s)[n2 := 32] = current_block s"
    "scan_field (\<lambda>b. b = 0 \<or> b = 32) 255 (current_block s) (n2 + 1) = (ms, n3)"
    "c_int (atol (c_str ls)) = sz" "scan_octal (c_str ms) = Some t"
  shows "\<exists>b1. ymodem_decode_block_0 s = Inr (True, b1) \<and> filename b1 = Some fname
    \<and> file_p b1 = Some (opened (dp @ 47 # fname) [] (fsys s))
    \<and> ts_bytes_total (stats b1) = word_of_int sz \<and> download_file_modtime b1 = t"
proof -
  let ?s = "s\<lparr>current_block_n := n + 1, filename := Some fname\<rparr>"
  have "ymodem_decode_block_0 s = block0_open fname (n + 1) ?s"
    using assms(1-5) by (simp add: ymodem_decode_block_0_def)
  moreover have "fopen_wb (dp @ [47] @ fname) (fsys ?s) = Some (opened (dp @ 47 # fname) [] (fsys s))"
    using assms(8) by (simp add: fopen_wb_def)
  ultimately show ?thesis
    using assms(6,7,9-13) by (simp add: block0_open_def stats_new_file_def Let_def)
qed

text \<open>
  C14. Round trip of a file announcement: from the block 0 a Ymodem sender builds for the file
  at hand, the receiver takes the same name, creates that file in its download directory, and
  knows its size and its modification time.
\<close>

theorem block0_roundtrip:
  assumes "is_ymodem (flavor a)" "upload_file_list_i a < length (upload_file_list a)"
    and "fi = upload_file_list a ! upload_file_list_i a" "fi_name fi \<noteq> None"
    and "filename a = Some fname" "fname \<noteq> []" "0 \<notin> set fname"
    and "0 \<le> fi_size fi" "fi_size fi < 2 ^ 31" "0 \<le> fi_mtime fi" "fi_mtime fi < 2 ^ 63"
    and "is_ymodem (flavor b)" "current_block_sequence_i b = current_block_sequence_i a"
    and "download_path b = Some dp" "length (dp @ 47 # fname) < FILENAME_SIZE"
    and "writable (fsys b) (dp @ 47 # fname)"
  shows "\<exists>a1 b1. ymodem_construct_block_0 a = Inr a1
    \<and> ymodem_decode_block_0 (receives (current_block a1) (current_block_n a1) b) = Inr (True, b1)
    \<and> filename b1 = Some fname \<and> file_p b1 = Some (opened (dp @ 47 # fname) [] (fsys b))
    \<and> ts_bytes_total (stats b1) = word_of_int (fi_size fi)
    \<and> download_file_modtime b1 = fi_mtime fi"
proof -
  let ?txt = "block0_text fname fi" and ?sz = "nat (fi_size fi)" and ?mt = "nat (fi_mtime fi)"
  have "?sz < 10 ^ 10" "?mt < 8 ^ 21" using assms(8-11) by (simp_all add: nat_less_iff)
  then have digits: "length (digits_of 10 ?sz) \<le> 10" "length (digits_of 8 ?mt) \<le> 21"
    by (simp_all add: length_digits_of)
  have fn: "length fname \<le> 254" using assms(15) by simp
  have "fi_size fi mod 2 ^ 64 = fi_size fi" "fi_mtime fi mod 2 ^ 64 = fi_mtime fi"
    using assms(8-11) by simp_all
  then have len: "length ?txt \<le> 1020" using digits fn by (simp add: block0_text_def)
  obtain a1 where a1: "ymodem_construct_block_0 a = Inr a1"
    "current_block_n a1 = block0_size ?txt + 5" "length (current_block a1) = 1029"
    "take (block0_size ?txt + 5) (current_block a1)
      = frame (flavor a) (current_block_sequence_i a) (block0_data ?txt)"
    using block0_built [OF assms(1-5) refl len] by blast
  let ?d = "block0_data ?txt" and ?s = "receives (current_block a1) (current_block_n a1) b"
  have k: "length ?d = block0_size ?txt" "frame_size_ok (flavor b) (length ?d)"
      "block0_size ?txt \<le> 1024" "\<not> uses_checksum (flavor b)" "\<not> uses_checksum (flavor a)"
    using len assms(1,12)
    by (auto simp: block0_data_def block0_size_def frame_size_ok_def is_ymodem_def
        small_blocks_def uses_checksum_def)
  have held: "holds_block ?s ?d ?d"
  proof (rule frame_held)
    have "frame (flavor b) q ?d = frame (flavor a) q ?d" for q
      using k(4,5) by (simp add: frame_def frame_check_def)
    then show "take (current_block_n ?s) (current_block ?s)
        = frame (flavor ?s) (current_block_sequence_i ?s) ?d"
      using a1(2-4) k assms(13) by (simp add: receives_def blit_def length_frame)
  qed (use a1 k in \<open>simp_all add: receives_def length_frame\<close>)
  obtain post where d: "?d = fname @ 0 # digits_of 10 ?sz @ 32 # digits_of 8 ?mt @ 0 # post"
    using block0_data_fields [OF len assms(8-11)] by blast
  have cb: "slice 3 (length ?d) (current_block ?s) = ?d" "3 + length ?d \<le> length (current_block ?s)"
    using holds_block_parts(4) [OF held] held k by (simp_all add: holds_block_def Let_def)
  have "length (digits_of 10 ?sz) \<le> 255" "length (digits_of 8 ?mt) \<le> 255" "length fname \<le> 255"
    using digits fn by linarith+
  note lens = this
  have ds: "list_all (is_digit 10) (digits_of 10 ?sz)" "list_all (is_digit 8) (digits_of 8 ?mt)"
    by (simp_all add: digits_of_digits)
  note found = block0_fields_found [OF cb d assms(6,7) lens(3) digits_of_nonempty ds(1) lens(1)
      digits_of_nonempty ds(2) lens(2)]
  have no_error: "block0_error ?s = None"
    using block0_accepted [OF held] assms(12) by (simp add: receives_def)
  have name: "c_str fname = fname" using assms(7) by (auto simp: c_str_def takeWhile_eq_all_conv)
  have size: "c_int (atol (c_str (digits_of 10 ?sz))) = fi_size fi"
    using assms(8,9) by (simp add: atol_digits c_int_id nat_less_iff)
  have time: "scan_octal (c_str (digits_of 8 ?mt)) = Some (fi_mtime fi)"
    using assms(10,11) by (simp add: scan_octal_digits nat_less_iff)
  have env: "is_ymodem (flavor ?s)" "download_path ?s = Some dp" "fsys ?s = fsys b"
    using assms(12,14) by (simp_all add: receives_def)
  have "length (dp @ 47 # fname) < 256" "writable (fsys ?s) (dp @ 47 # fname)"
    using env(3) assms(15,16) by simp_all
  from decode_result [OF env(1) no_error found(1) name assms(6) env(2) this found(2-4) size time]
  show ?thesis unfolding env(3) using a1(1) by blast
qed

definition announced :: file_info where
  "announced = \<lparr>fi_name = Some (ascii ''/tmp/f''), fi_size = 2000, fi_mtime = 1000000, fi_mode = 0x1A4\<rparr>"

lemma block0_roundtrip_witness:
  "\<exists>a1 b1. ymodem_construct_block_0 ((idle (disk_with [] []))
        \<lparr>flavor := Y_NORMAL, upload_file_list := [announced], filename := Some (ascii ''f'')\<rparr>) = Inr a1
    \<and> ymodem_decode_block_0 (receives (current_block a1) (current_block_n a1)
        ((idle (disk_with [] []))\<lparr>flavor := Y_G, download_path := Some (ascii ''/d'')\<rparr>)) = Inr (True, b1)
    \<and> filename b1 = Some (ascii ''f'')
    \<and> file_p b1 = Some (opened (ascii ''/d'' @ 47 # ascii ''f'') []
        (fsys ((idle (disk_with [] []))\<lparr>flavor := Y_G, download_path := Some (ascii ''/d'')\<rparr>)))
    \<and> ts_bytes_total (stats b1) = word_of_int (fi_size announced)
    \<and> download_file_modtime b1 = fi_mtime announced"
  by (rule block0_roundtrip) (simp_all add: is_ymodem_def announced_def ascii_def)

text \<open>
  A name that does not fit: \<open>sprintf\<close> writes the directory, a slash, the announced name and
  its terminator into an array of 256 bytes without looking at their lengths, so a correct block
  0 with a long name overflows the array.
\<close>

theorem long_name_overflows:
  assumes "holds_block s d d" "is_ymodem (flavor s)" "d = fname @ 0 # post"
    and "fname \<noteq> []" "0 \<notin> set fname" "length fname \<le> 255"
    and "download_path s = Some dp" "256 \<le> length dp + 1 + length fname"
  shows "ymodem_decode_block_0 s = Inl Buffer_overflow"
proof -
  have cb: "slice 3 (length d) (current_block s) = d" "3 + length d \<le> length (current_block s)"
    using holds_block_parts(4) [OF assms(1)] assms(1)
    by (auto simp: holds_block_def Let_def frame_size_ok_def)
  have "list_all (\<lambda>c. c \<noteq> 0) (tl fname)"
    using assms(4,5) by (cases fname) (auto simp: list_all_iff)
  then have found: "scan_field (\<lambda>b. b = 0) 255 (current_block s) 3 = (fname, 3 + length fname)"
    using scan_field_in_data [OF cb, of "[]" fname 0 post 255 "\<lambda>b. b = 0"] assms(3-6) by simp
  have "c_str fname = fname" using assms(5) by (auto simp: c_str_def takeWhile_eq_all_conv)
  moreover have "block0_error s = None" using assms(1,2) by (rule block0_accepted)
  ultimately show ?thesis
    using found assms(2,4,7,8) by (simp add: ymodem_decode_block_0_def block0_open_def)
qed

lemma long_name_overflows_witness:
  "ymodem_decode_block_0
     (receives (frame Y_NORMAL 0 (replicate 100 65 @ 0 # replicate 27 0)) 133
        ((idle (disk_with [] []))\<lparr>flavor := Y_NORMAL, current_block_sequence_i := 0,
           download_path := Some (replicate 155 66)\<rparr>)) = Inl Buffer_overflow"
proof (rule long_name_overflows [where fname = "replicate 100 65" and dp = "replicate 155 66"
      and post = "replicate 27 0"])
  let ?d = "replicate 100 65 @ 0 # replicate 27 0 :: byte list"
  let ?s = "receives (frame Y_NORMAL 0 ?d) 133 ((idle (disk_with [] []))\<lparr>flavor := Y_NORMAL,
      current_block_sequence_i := 0, download_path := Some (replicate 155 66)\<rparr>)"
  show "holds_block ?s ?d ?d"
    by (rule frame_held)
      (simp_all add: receives_def length_frame uses_checksum_def frame_size_ok_def blit_def)
qed (simp_all add: receives_def is_ymodem_def)

end
