(* ===== verification/Protocols.thy ===== *)
theory Protocols
  imports Xmodem_Session Samples
begin

text \<open>
  The dispatcher of \<open>protocols.c\<close>: the ASCII transfer, starting a transfer for any protocol, and
  handing the bytes of the remote side to the running protocol. The console, the translation
  tables of \<open>codepage.c\<close> and the Kermit and Zmodem modules are arguments of the definitions that
  call them.
\<close>

section \<open>Program states (states.h) and options\<close>

datatype q_program_state =
    Q_STATE_INITIALIZATION
  | Q_STATE_DIALER
  | Q_STATE_MODEM_CONFIG
  | Q_STATE_PHONEBOOK
  | Q_STATE_CONSOLE
  | Q_STATE_CONSOLE_MENU
  | Q_STATE_SCROLLBACK
  | Q_STATE_INFO
  | Q_STATE_DOWNLOAD
  | Q_STATE_DOWNLOAD_MENU
  | Q_STATE_DOWNLOAD_PATHDIALOG
  | Q_STATE_UPLOAD
  | Q_STATE_UPLOAD_BATCH
  | Q_STATE_UPLOAD_BATCH_DIALOG
  | Q_STATE_UPLOAD_MENU
  | Q_STATE_UPLOAD_PATHDIALOG
  | Q_STATE_SCREENSAVER
  | Q_STATE_EMULATION_MENU
  | Q_STATE_FUNCTION_KEY_EDITOR
  | Q_STATE_TRANSLATE_MENU
  | Q_STATE_TRANSLATE_EDITOR_8BIT
  | Q_STATE_TRANSLATE_EDITOR_UNICODE
  | Q_STATE_CODEPAGE
  | Q_STATE_SCRIPT_EXECUTE
  | Q_STATE_HOST
  | Q_STATE_EXIT

datatype ascii_option =
    Q_OPTION_ASCII_UPLOAD_USE_TRANSLATE_TABLE
  | Q_OPTION_ASCII_UPLOAD_CR_POLICY
  | Q_OPTION_ASCII_UPLOAD_LF_POLICY
  | Q_OPTION_ASCII_DOWNLOAD_USE_TRANSLATE_TABLE
  | Q_OPTION_ASCII_DOWNLOAD_CR_POLICY
  | Q_OPTION_ASCII_DOWNLOAD_LF_POLICY

text \<open>\<open>strcasecmp(a, b) == 0\<close>.\<close>

definition to_lower :: "byte \<Rightarrow> byte" where
  "to_lower b = (if 65 \<le> b \<and> b \<le> 90 then b + 32 else b)"

definition strcasecmp_eq :: "cstring \<Rightarrow> cstring \<Rightarrow> bool" where
  "strcasecmp_eq a b \<longleftrightarrow> map to_lower a = map to_lower b"

section \<open>CR and LF in an ASCII transfer\<close>

fun crlf_loop :: "crlf_policy \<Rightarrow> crlf_policy \<Rightarrow> byte list \<Rightarrow> byte list" where
  "crlf_loop cr lf [] = []"
| "crlf_loop cr lf (b # bs) =
     (if b = C_CR \<and> cr = ASCII_XFER_CRLF_STRIP then crlf_loop cr lf bs
      else if b = C_CR \<and> cr = ASCII_XFER_CRLF_ADD then b # C_LF # crlf_loop cr lf bs
      else if b = C_LF \<and> lf = ASCII_XFER_CRLF_STRIP then crlf_loop cr lf bs
      else if b = C_LF \<and> lf = ASCII_XFER_CRLF_ADD then C_CR # b # crlf_loop cr lf bs
      else b # crlf_loop cr lf bs)"

definition ascii_transfer_crlf_handling ::
    "byte list \<Rightarrow> crlf_policy \<Rightarrow> crlf_policy \<Rightarrow> byte list" where
  "ascii_transfer_crlf_handling input cr lf =
     (if cr = ASCII_XFER_CRLF_NONE \<and> lf = ASCII_XFER_CRLF_NONE then input
      else crlf_loop cr lf input)"

section \<open>The ASCII transfer\<close>

text \<open>
  \<open>ascii_transfer\<close>: the state, and the bytes that go on to the console (\<open>None\<close>: the console is
  not called). The input is translated in place, so the console sees it translated. A null
  \<open>FILE\<close> pointer and a write past the end of \<open>working_buffer\<close> or \<open>output\<close> are faults; a short
  write sets the error indicator of the stream, and both have the same consequence.
\<close>

definition ascii_fail :: "q_transfer_state \<Rightarrow> xfer \<Rightarrow> xfer" where
  "ascii_fail q s =
     (let s1 = stop_file_transfer q s
      in s1\<lparr>ascii_st := (ascii_st s1)\<lparr>ax_state := ASCII_XFER_STATE_ABORT\<rparr>\<rparr>)"

definition ascii_send :: "(byte \<Rightarrow> byte) \<Rightarrow> nat \<Rightarrow> xfer \<Rightarrow> fault + xfer \<times> byte list option" where
  "ascii_send xlate_out output_max s =
     (let a = ascii_st s in
      if of_nat output_max - of_nat (length (outp s)) < (word_of_int Q_BUFFER_SIZE :: u32)
      then Inr (s, None)
      else case ax_file a of
        None \<Rightarrow> Inl Null_pointer
      | Some f \<Rightarrow>
         (let (got, f1) = fread (output_max div 2 - 1) f;
              out = ascii_transfer_crlf_handling got (ax_upload_cr_handling a)
                      (ax_upload_lf_handling a)
          in if 2 * nat Q_BUFFER_SIZE < length got \<or> output_max < length out then Inl Buffer_overflow
             else
              (let t = stats s;
                   s1 = s\<lparr>ascii_st := a\<lparr>ax_file := Some f1\<rparr>,
                          stats := t\<lparr>ts_bytes_transfer := ts_bytes_transfer t + of_nat (length out)\<rparr>,
                          outp := (if ax_upload_use_xlate_table a then map xlate_out out else out)\<rparr>
               in if f_err f1 then Inr (ascii_fail Q_TRANSFER_STATE_ABORT s1, None)
                  else if f_eof f1 then
                    (let s2 = ascii_fail Q_TRANSFER_STATE_END s1
                     in Inr (s2\<lparr>stats := (stats s2)\<lparr>ts_end_time := now s2\<rparr>\<rparr>, Some (inp s2)))
                  else Inr (s1, Some (inp s1)))))"

definition ascii_receive :: "(byte \<Rightarrow> byte) \<Rightarrow> xfer \<Rightarrow> fault + xfer \<times> byte list option" where
  "ascii_receive xlate_in s =
     (let a = ascii_st s;
          input = (if ax_download_use_xlate_table a then map xlate_in (inp s) else inp s);
          wb = ascii_transfer_crlf_handling input (ax_download_cr_handling a)
                 (ax_download_lf_handling a)
      in if 2 * nat Q_BUFFER_SIZE < length wb then Inl Buffer_overflow
         else case ax_file a of
           None \<Rightarrow> Inl Null_pointer
         | Some f \<Rightarrow>
            (let (rc, f1) = fwrite wb f;
                 s1 = s\<lparr>inp := input, ascii_st := a\<lparr>ax_file := Some f1\<rparr>\<rparr>
             in if f_err f1 \<or> rc < length wb then Inr (ascii_fail Q_TRANSFER_STATE_ABORT s1, None)
                else Inr (s1, Some input)))"

definition ascii_transfer ::
    "(byte \<Rightarrow> byte) \<Rightarrow> (byte \<Rightarrow> byte) \<Rightarrow> nat \<Rightarrow> xfer \<Rightarrow> fault + xfer \<times> byte list option" where
  "ascii_transfer xlate_out xlate_in output_max s =
     (if output_max < 1 then Inl Assert_failed
      else if ax_state (ascii_st s) = ASCII_XFER_STATE_ABORT then Inr (s, None)
      else if ax_sending (ascii_st s) then ascii_send xlate_out output_max s
      else ascii_receive xlate_in s)"

section \<open>Starting an ASCII transfer\<close>

definition crlf_option :: "cstring \<Rightarrow> crlf_policy \<Rightarrow> crlf_policy" where
  "crlf_option v p =
     (let p1 = (if strcasecmp_eq v (ascii ''strip'') then ASCII_XFER_CRLF_STRIP else p)
      in if strcasecmp_eq v (ascii ''add'') then ASCII_XFER_CRLF_ADD else p1)"

definition ascii_options :: "(ascii_option \<Rightarrow> cstring) \<Rightarrow> ascii_xfer \<Rightarrow> ascii_xfer" where
  "ascii_options opt a =
     a\<lparr>ax_upload_use_xlate_table :=
         (strcasecmp_eq (opt Q_OPTION_ASCII_UPLOAD_USE_TRANSLATE_TABLE) (ascii ''true'')
          \<or> ax_upload_use_xlate_table a),
       ax_upload_cr_handling :=
         crlf_option (opt Q_OPTION_ASCII_UPLOAD_CR_POLICY) (ax_upload_cr_handling a),
       ax_upload_lf_handling :=
         crlf_option (opt Q_OPTION_ASCII_UPLOAD_LF_POLICY) (ax_upload_lf_handling a),
       ax_download_use_xlate_table :=
         (strcasecmp_eq (opt Q_OPTION_ASCII_DOWNLOAD_USE_TRANSLATE_TABLE) (ascii ''true'')
          \<or> ax_download_use_xlate_table a),
       ax_download_cr_handling :=
         crlf_option (opt Q_OPTION_ASCII_DOWNLOAD_CR_POLICY) (ax_download_cr_handling a),
       ax_download_lf_handling :=
         crlf_option (opt Q_OPTION_ASCII_DOWNLOAD_LF_POLICY) (ax_download_lf_handling a)\<rparr>"

definition ascii_transfer_start ::
    "(ascii_option \<Rightarrow> cstring) \<Rightarrow> path \<Rightarrow> bool \<Rightarrow> xfer \<Rightarrow> bool \<times> xfer" where
  "ascii_transfer_start opt in_filename send s =
     (let a = ascii_options opt ((ascii_st s)\<lparr>ax_state := ASCII_XFER_STATE_ABORT\<rparr>);
          s1 = s\<lparr>ascii_st := a\<rparr>;
          ready = (\<lambda>f s2. s2\<lparr>ascii_st := a\<lparr>ax_file := Some f, ax_filename := Some in_filename,
                                          ax_sending := send, ax_state := ASCII_XFER_STATE_OK\<rparr>\<rparr>)
      in if send then
           (case stat_size in_filename (fsys s1) of
              None \<Rightarrow> (False, s1)
            | Some sz \<Rightarrow>
               (case fopen_rb in_filename (fsys s1) of
                  None \<Rightarrow> (False, s1\<lparr>ascii_st := a\<lparr>ax_file := None\<rparr>\<rparr>)
                | Some f \<Rightarrow>
                   (let b = word_of_int (c_quot sz 128) :: u64;
                        s2 = s1\<lparr>stats := (stats s1)
                               \<lparr>ts_bytes_total := word_of_int sz, ts_block_size := 128,
                                ts_blocks := (if 0 < b mod 128 then b + 1 else b)\<rparr>\<rparr>
                    in (True, ready f s2))))
         else
           (case fopen_wb in_filename (fsys s1) of
              None \<Rightarrow> (False, s1\<lparr>ascii_st := a\<lparr>ax_file := None\<rparr>\<rparr>)
            | Some f \<Rightarrow> (True, ready f (s1\<lparr>fsys := created in_filename (fsys s1)\<rparr>))))"

section \<open>Starting a transfer\<close>

text \<open>
  \<open>clear_stats\<close>. The list of a batch upload ends with an entry without a name; without one the
  loop runs past the end of the list. The last test looks at the file name that was set to NULL
  above; \<open>fstats\<close> is used even if \<open>stat\<close> fails.
\<close>

definition clear_stats :: "q_program_state \<Rightarrow> xfer \<Rightarrow> fault + xfer" where
  "clear_stats ps s =
     (let t = (stats s)\<lparr>ts_filename := None, ts_pathname := None, ts_protocol_name := None,
                       ts_last_message := None, ts_state := Q_TRANSFER_STATE_INIT,
                       ts_bytes_total := 0, ts_bytes_transfer := 0, ts_error_count := 0,
                       ts_blocks := 0, ts_block_size := 0, ts_blocks_transfer := 0,
                       ts_batch_bytes_total := 0, ts_batch_bytes_transfer := 0\<rparr>;
          batch = (if ps = Q_STATE_UPLOAD_BATCH then
                     (case batch_upload_file_list s of
                        None \<Rightarrow> Inl Null_pointer
                      | Some l \<Rightarrow>
                          if \<forall>fi\<in>set l. fi_name fi \<noteq> None then Inl Buffer_overflow
                          else Inr (t\<lparr>ts_batch_bytes_total :=
                                 sum_list (map (\<lambda>fi. word_of_int (fi_size fi))
                                   (takeWhile (\<lambda>fi. fi_name fi \<noteq> None) l))\<rparr>))
                   else Inr t)
      in bind_res batch (\<lambda>t1.
           if ps = Q_STATE_UPLOAD then
             (case ts_filename t1 of
                None \<Rightarrow> Inr (s\<lparr>stats := t1\<rparr>)
              | Some p \<Rightarrow>
                 (case stat_size p (fsys s) of
                    None \<Rightarrow> Inl Uninitialised
                  | Some sz \<Rightarrow> Inr (s\<lparr>stats := t1\<lparr>ts_bytes_total := word_of_int sz\<rparr>\<rparr>)))
           else Inr (s\<lparr>stats := t1\<rparr>)))"

definition protocol_name :: "q_protocol \<Rightarrow> string" where
  "protocol_name p =
     (case p of
        Q_PROTOCOL_ASCII \<Rightarrow> ''ASCII''
      | Q_PROTOCOL_KERMIT \<Rightarrow> ''Kermit''
      | Q_PROTOCOL_XMODEM \<Rightarrow> ''Xmodem''
      | Q_PROTOCOL_XMODEM_CRC \<Rightarrow> ''Xmodem CRC''
      | Q_PROTOCOL_XMODEM_RELAXED \<Rightarrow> ''Xmodem Relaxed''
      | Q_PROTOCOL_XMODEM_1K \<Rightarrow> ''XMODEM_1K''
      | Q_PROTOCOL_XMODEM_1K_G \<Rightarrow> ''Xmodem-1K/G''
      | Q_PROTOCOL_YMODEM \<Rightarrow> ''Ymodem Batch''
      | Q_PROTOCOL_YMODEM_G \<Rightarrow> ''Ymodem/G Batch''
      | Q_PROTOCOL_ZMODEM \<Rightarrow> ''Zmodem Batch'')"

text \<open>
  The loop that strips slashes off \<open>q_download_location\<close>. It looks at the byte before the
  terminator without asking whether there is one.
\<close>

definition strip_location :: "q_program_state \<Rightarrow> xfer \<Rightarrow> fault + xfer" where
  "strip_location ps s =
     (if ps = Q_STATE_UPLOAD_BATCH then Inr s
      else case q_download_location s of
        None \<Rightarrow> Inl Null_pointer
      | Some p \<Rightarrow>
          if strip_slashes p = [] then Inl Buffer_overflow
          else Inr (s\<lparr>q_download_location := Some (strip_slashes p)\<rparr>))"

text \<open>The modules of the other protocols: their start functions and their handlers.\<close>

record peers =
  kermit_start :: "file_info list option \<Rightarrow> path option \<Rightarrow> bool \<Rightarrow> xfer \<Rightarrow> fault + bool \<times> xfer"
  zmodem_start :: "file_info list option \<Rightarrow> path option \<Rightarrow> bool \<Rightarrow> xfer \<Rightarrow> fault + bool \<times> xfer"
  kermit :: "byte list \<Rightarrow> int \<Rightarrow> xfer \<Rightarrow> fault + xfer"
  zmodem :: "byte list \<Rightarrow> int \<Rightarrow> xfer \<Rightarrow> fault + xfer"

definition with_location :: "xfer \<Rightarrow> (path \<Rightarrow> fault + bool \<times> xfer) \<Rightarrow> fault + bool \<times> xfer" where
  "with_location s f = (case q_download_location s of None \<Rightarrow> Inl Null_pointer | Some p \<Rightarrow> f p)"

definition start_ymodem :: "bool \<Rightarrow> xmodem_flavor \<Rightarrow> xfer \<Rightarrow> fault + bool \<times> xfer" where
  "start_ymodem send fl s =
     (if send then
        (case batch_upload_file_list s of
           None \<Rightarrow> Inl Null_pointer
         | Some l \<Rightarrow> ymodem_start l [] True fl s)
      else with_location s (\<lambda>p.
             ymodem_start (case batch_upload_file_list s of None \<Rightarrow> [] | Some l \<Rightarrow> l) p False fl s))"

definition start_protocol ::
    "peers \<Rightarrow> (ascii_option \<Rightarrow> cstring) \<Rightarrow> q_program_state \<Rightarrow> xfer \<Rightarrow> fault + bool \<times> xfer" where
  "start_protocol pe opt ps s =
     (let up = (ps = Q_STATE_UPLOAD) in
      case ts_protocol (stats s) of
        Q_PROTOCOL_ASCII \<Rightarrow> with_location s (\<lambda>p. Inr (ascii_transfer_start opt p up s))
      | Q_PROTOCOL_KERMIT \<Rightarrow>
          kermit_start pe (batch_upload_file_list s) (q_download_location s) (ps \<noteq> Q_STATE_DOWNLOAD) s
      | Q_PROTOCOL_XMODEM \<Rightarrow> with_location s (\<lambda>p. xmodem_start p up X_NORMAL s)
      | Q_PROTOCOL_XMODEM_CRC \<Rightarrow> with_location s (\<lambda>p. xmodem_start p up X_CRC s)
      | Q_PROTOCOL_XMODEM_RELAXED \<Rightarrow> with_location s (\<lambda>p. xmodem_start p up X_RELAXED s)
      | Q_PROTOCOL_XMODEM_1K \<Rightarrow> with_location s (\<lambda>p. xmodem_start p up X_1K s)
      | Q_PROTOCOL_XMODEM_1K_G \<Rightarrow> with_location s (\<lambda>p. xmodem_start p up X_1K_G s)
      | Q_PROTOCOL_YMODEM \<Rightarrow> start_ymodem (ps = Q_STATE_UPLOAD_BATCH) Y_NORMAL s
      | Q_PROTOCOL_YMODEM_G \<Rightarrow> start_ymodem (ps \<noteq> Q_STATE_DOWNLOAD) Y_G s
      | Q_PROTOCOL_ZMODEM \<Rightarrow>
          zmodem_start pe (batch_upload_file_list s) (q_download_location s) (ps \<noteq> Q_STATE_DOWNLOAD) s)"

text \<open>
  The state to go to when the protocol could not be started: host mode and the console get back
  what they started with four of the protocols, everything else ends on the console.
\<close>

definition start_failed_state :: "q_protocol \<Rightarrow> q_program_state \<Rightarrow> q_program_state" where
  "start_failed_state p original_state =
     (if p \<in> {Q_PROTOCOL_KERMIT, Q_PROTOCOL_XMODEM, Q_PROTOCOL_YMODEM, Q_PROTOCOL_ZMODEM}
         \<and> (original_state = Q_STATE_HOST \<or> original_state = Q_STATE_CONSOLE)
      then original_state else Q_STATE_CONSOLE)"

definition single_file :: "q_protocol \<Rightarrow> bool" where
  "single_file p \<longleftrightarrow>
     p = Q_PROTOCOL_ASCII \<or> p = Q_PROTOCOL_XMODEM \<or> p = Q_PROTOCOL_XMODEM_CRC
     \<or> p = Q_PROTOCOL_XMODEM_RELAXED \<or> p = Q_PROTOCOL_XMODEM_1K \<or> p = Q_PROTOCOL_XMODEM_1K_G"

definition start_file_transfer ::
    "peers \<Rightarrow> (ascii_option \<Rightarrow> cstring) \<Rightarrow> q_program_state \<Rightarrow> q_program_state \<Rightarrow> xfer
      \<Rightarrow> fault + q_program_state \<times> xfer" where
  "start_file_transfer pe opt original_state ps s =
     bind_res (clear_stats ps s) (\<lambda>s1.
       let p = ts_protocol (stats s1) in
       bind_res (strip_location ps (set_transfer_stats_protocol_name (protocol_name p) s1)) (\<lambda>s2.
       bind_res (start_protocol pe opt ps s2) (\<lambda>(ok, s3).
         if \<not> ok then Inr (start_failed_state p original_state, s3)
         else
           bind_res (if single_file p then
                       (case q_download_location s3 of
                          None \<Rightarrow> Inl Null_pointer
                        | Some loc \<Rightarrow>
                            Inr (set_transfer_stats_pathname (Some (dirname loc))
                                  (set_transfer_stats_filename (basename loc) s3)))
                     else Inr s3) (\<lambda>s4.
             Inr (ps, s4\<lparr>stats := (stats s4)\<lparr>ts_file_start_time := now s4,
                                             ts_batch_start_time := now s4\<rparr>\<rparr>)))))"

section \<open>Running a transfer\<close>

text \<open>
  \<open>protocol_process_data\<close>: the state, the new value of \<open>*remaining\<close>, and what goes to the
  console; \<open>console\<close> says what the console leaves in \<open>*remaining\<close>.
\<close>

record environment =
  translate_8bit_out :: "byte \<Rightarrow> byte"
  translate_8bit_in :: "byte \<Rightarrow> byte"
  console_remaining :: "byte list \<Rightarrow> int \<Rightarrow> int"

definition protocol_process_data ::
    "peers \<Rightarrow> environment \<Rightarrow> byte list \<Rightarrow> int \<Rightarrow> int \<Rightarrow> xfer
      \<Rightarrow> fault + xfer \<times> int \<times> byte list option" where
  "protocol_process_data pe env input remaining output_max s =
     (if ts_state (stats s) = Q_TRANSFER_STATE_ABORT \<or> ts_state (stats s) = Q_TRANSFER_STATE_END
      then Inr (s, remaining, None)
      else
       (let p = ts_protocol (stats s) in
        if p = Q_PROTOCOL_ASCII then
          bind_res (ascii_transfer (translate_8bit_out env) (translate_8bit_in env) (nat output_max)
                      (s\<lparr>inp := input\<rparr>)) (\<lambda>(s1, c).
            Inr (s1, (case c of None \<Rightarrow> remaining
                      | Some bs \<Rightarrow> console_remaining env bs remaining), c))
        else if p = Q_PROTOCOL_KERMIT then
          bind_res (kermit pe input output_max s) (\<lambda>s1. Inr (s1, 0, None))
        else if p = Q_PROTOCOL_ZMODEM then
          bind_res (zmodem pe input output_max s) (\<lambda>s1. Inr (s1, 0, None))
        else
          bind_res (xmodem input remaining output_max s) (\<lambda>(s1, r). Inr (s1, r, None))))"

end
