(* ===== verification/Ascii_Transfer.thy ===== *)
theory Ascii_Transfer
  imports Protocols
begin

text \<open>
  The ASCII transfer of \<open>protocols.c\<close> as a whole: what a file looks like after it was sent or
  received in pieces, and what the CR and LF policies do to it.
\<close>

section \<open>The policies\<close>

text \<open>The bytes one byte becomes; the loop of the code applies it to every byte.\<close>

definition crlf_byte :: "crlf_policy \<Rightarrow> crlf_policy \<Rightarrow> byte \<Rightarrow> byte list" where
  "crlf_byte cr lf b =
     (let p = (if b = C_CR then cr else if b = C_LF then lf else ASCII_XFER_CRLF_NONE)
      in case p of
           ASCII_XFER_CRLF_NONE \<Rightarrow> [b]
         | ASCII_XFER_CRLF_STRIP \<Rightarrow> []
         | ASCII_XFER_CRLF_ADD \<Rightarrow> [C_CR, C_LF])"

definition crlf_text :: "crlf_policy \<Rightarrow> crlf_policy \<Rightarrow> byte list \<Rightarrow> byte list" where
  "crlf_text cr lf bs = concat (map (crlf_byte cr lf) bs)"

lemma crlf_loop_text: "crlf_loop cr lf bs = crlf_text cr lf bs"
  by (induction bs) (cases cr; cases lf; auto simp: crlf_text_def crlf_byte_def)+

lemma crlf_text_none: "crlf_text ASCII_XFER_CRLF_NONE ASCII_XFER_CRLF_NONE bs = bs"
  by (induction bs) (auto simp: crlf_text_def crlf_byte_def)

lemma crlf_handling_text: "ascii_transfer_crlf_handling bs cr lf = crlf_text cr lf bs"
  by (simp add: ascii_transfer_crlf_handling_def crlf_loop_text crlf_text_none)

lemma crlf_text_append: "crlf_text cr lf (xs @ ys) = crlf_text cr lf xs @ crlf_text cr lf ys"
  by (simp add: crlf_text_def)

lemma length_crlf_byte: "length (crlf_byte cr lf b) \<le> 2"
  by (auto simp: crlf_byte_def Let_def split: crlf_policy.splits)

lemma length_crlf_text: "length (crlf_text cr lf bs) \<le> 2 * length bs"
proof (induction bs)
  case Nil
  then show ?case by (simp add: crlf_text_def)
next
  case (Cons b bs)
  then show ?case using length_crlf_byte [of cr lf b] by (simp add: crlf_text_def)
qed

text \<open>
  The line end policies: the index loop over the two buffers replaces every byte on its own
  (a CR or LF by nothing or by CR LF), and never makes a text more than twice as long.
\<close>

theorem crlf_handling_spec:
  "ascii_transfer_crlf_handling bs cr lf = crlf_text cr lf bs
   \<and> length (ascii_transfer_crlf_handling bs cr lf) \<le> 2 * length bs"
  by (simp add: crlf_handling_text length_crlf_text)

text \<open>
  Adding an LF to every CR on upload and stripping LFs on download gives back every text
  without LFs; adding a CR to every LF and stripping CRs gives back every text without CRs.
\<close>

theorem crlf_add_strip_roundtrip:
  "(C_LF \<notin> set xs \<longrightarrow>
      ascii_transfer_crlf_handling
        (ascii_transfer_crlf_handling xs ASCII_XFER_CRLF_ADD ASCII_XFER_CRLF_NONE)
        ASCII_XFER_CRLF_NONE ASCII_XFER_CRLF_STRIP = xs)
   \<and> (C_CR \<notin> set xs \<longrightarrow>
      ascii_transfer_crlf_handling
        (ascii_transfer_crlf_handling xs ASCII_XFER_CRLF_NONE ASCII_XFER_CRLF_ADD)
        ASCII_XFER_CRLF_STRIP ASCII_XFER_CRLF_NONE = xs)"
  unfolding crlf_handling_text
  by (induction xs) (auto simp: crlf_text_def crlf_byte_def)

lemma crlf_add_strip_roundtrip_witness:
  "ascii_transfer_crlf_handling
     (ascii_transfer_crlf_handling [65, 13, 66] ASCII_XFER_CRLF_ADD ASCII_XFER_CRLF_NONE)
     ASCII_XFER_CRLF_NONE ASCII_XFER_CRLF_STRIP = [65, 13, 66]"
  using crlf_add_strip_roundtrip [of "[65, 13, 66]"] by simp

section \<open>Sending a file\<close>

definition upload_text :: "(byte \<Rightarrow> byte) \<Rightarrow> ascii_xfer \<Rightarrow> byte list \<Rightarrow> byte list" where
  "upload_text xo a bs =
     map (if ax_upload_use_xlate_table a then xo else id)
       (crlf_text (ax_upload_cr_handling a) (ax_upload_lf_handling a) bs)"

text \<open>
  \<open>n\<close> calls of \<open>ascii_transfer\<close>, each with an empty output buffer, and all they have written.
\<close>

fun ascii_calls :: "(byte \<Rightarrow> byte) \<Rightarrow> (byte \<Rightarrow> byte) \<Rightarrow> nat \<Rightarrow> xfer \<Rightarrow> fault + byte list \<times> xfer" where
  "ascii_calls xo xi 0 s = Inr ([], s)"
| "ascii_calls xo xi (Suc n) s =
     bind_res (ascii_transfer xo xi (nat Q_BUFFER_SIZE) (s\<lparr>outp := []\<rparr>)) (\<lambda>(s1, _).
       bind_res (ascii_calls xo xi n s1) (\<lambda>(out, s2). Inr (outp s1 @ out, s2)))"

definition ascii_sending :: "cfile \<Rightarrow> ascii_xfer \<Rightarrow> xfer \<Rightarrow> bool" where
  "ascii_sending f a s \<longleftrightarrow>
     ascii_st s = a\<lparr>ax_file := Some f, ax_sending := True, ax_state := ASCII_XFER_STATE_OK\<rparr>
     \<and> ts_protocol (stats s) = Q_PROTOCOL_ASCII \<and> \<not> f_bad f \<and> \<not> f_err f \<and> \<not> f_eof f
     \<and> f_pos f \<le> length (f_data f)"

lemma stop_ascii:
  "ts_protocol (stats s) = Q_PROTOCOL_ASCII \<Longrightarrow>
    ax_file (ascii_st (ascii_fail q s)) = None \<and> ts_state (stats (ascii_fail q s)) = q
    \<and> outp (ascii_fail q s) = outp s"
  by (simp add: ascii_fail_def stop_file_transfer_def ascii_transfer_stop_def Let_def)

text \<open>One call: the next 2047 bytes of the file.\<close>

lemma ascii_send_call:
  assumes "ascii_sending f a s" "outp s = []"
  defines "c \<equiv> slice (f_pos f) 2047 (f_data f)"
  shows "\<exists>s1 bs. ascii_transfer xo xi 4096 s = Inr (s1, bs) \<and> outp s1 = upload_text xo a c
     \<and> (if length c < 2047 then ts_state (stats s1) = Q_TRANSFER_STATE_END
           \<and> ax_file (ascii_st s1) = None
        else ascii_sending (f\<lparr>f_pos := f_pos f + 2047\<rparr>) a s1)"
proof -
  note send = assms(1) [unfolded ascii_sending_def]
  let ?out = "ascii_transfer_crlf_handling c (ax_upload_cr_handling a) (ax_upload_lf_handling a)"
  have c: "length c \<le> 2047" by (simp add: c_def)
  then have fits: "length ?out \<le> 4096" "length c \<le> 8192"
    using length_crlf_text [of "ax_upload_cr_handling a" "ax_upload_lf_handling a" c]
    by (simp_all add: crlf_handling_text)
  let ?f1 = "f\<lparr>f_pos := f_pos f + length c, f_eof := length c < 2047\<rparr>"
  have read: "fread (4096 div 2 - 1) f = (c, ?f1)"
    using send by (simp add: fread_def c_def)
  let ?s1 = "s\<lparr>ascii_st := (ascii_st s)\<lparr>ax_file := Some ?f1\<rparr>,
               stats := (stats s)\<lparr>ts_bytes_transfer := ts_bytes_transfer (stats s) + of_nat (length ?out)\<rparr>,
               outp := upload_text xo a c\<rparr>"
  have xlated: "(if ax_upload_use_xlate_table a then map xo ?out else ?out) = upload_text xo a c"
    by (simp add: upload_text_def crlf_handling_text)
  have call: "ascii_transfer xo xi 4096 s =
     (if length c < 2047 then
        (let s2 = ascii_fail Q_TRANSFER_STATE_END ?s1
         in Inr (s2\<lparr>stats := (stats s2)\<lparr>ts_end_time := now s2\<rparr>\<rparr>, Some (inp s2)))
      else Inr (?s1, Some (inp ?s1)))"
    using send assms(2) fits read xlated
    by (simp add: ascii_transfer_def ascii_send_def Let_def)
  show ?thesis
  proof (cases "length c < 2047")
    case True
    then show ?thesis
      using call stop_ascii [of ?s1 Q_TRANSFER_STATE_END] send by (simp add: Let_def)
  next
    case False
    then have n: "length c = 2047" using c by simp
    then have "f_pos f + 2047 \<le> length (f_data f)" by (auto simp: c_def)
    with n show ?thesis
      using call send by (auto simp: ascii_sending_def)
  qed
qed

lemma ascii_sending_outp [simp]: "ascii_sending f a (s\<lparr>outp := x\<rparr>) = ascii_sending f a s"
  by (simp add: ascii_sending_def)

lemma upload_text_append: "upload_text xo a (xs @ ys) = upload_text xo a xs @ upload_text xo a ys"
  by (simp add: upload_text_def crlf_text_append)

text \<open>
  C36. An ASCII upload ends, and what it has written by then is the file from its position on,
  with the line ends handled and every byte translated, although the file is read in pieces of
  2047 bytes; the file is closed and the transfer is over.
\<close>

theorem ascii_upload_complete:
  assumes "ascii_sending f a s"
  shows "\<exists>n s1. ascii_calls xo xi n s = Inr (upload_text xo a (drop (f_pos f) (f_data f)), s1)
           \<and> ts_state (stats s1) = Q_TRANSFER_STATE_END \<and> ax_file (ascii_st s1) = None"
  using assms
proof (induction "length (f_data f) - f_pos f" arbitrary: f s rule: less_induct)
  case less
  let ?c = "slice (f_pos f) 2047 (f_data f)"
  have ready: "ascii_sending f a (s\<lparr>outp := []\<rparr>)" using less.prems by simp
  obtain s1 bs where one: "ascii_transfer xo xi 4096 (s\<lparr>outp := []\<rparr>) = Inr (s1, bs)"
    "outp s1 = upload_text xo a ?c"
    "if length ?c < 2047 then ts_state (stats s1) = Q_TRANSFER_STATE_END \<and> ax_file (ascii_st s1) = None
     else ascii_sending (f\<lparr>f_pos := f_pos f + 2047\<rparr>) a s1"
    using ascii_send_call [OF ready] by fastforce
  show ?case
  proof (cases "length ?c < 2047")
    case True
    then have "?c = drop (f_pos f) (f_data f)" by (simp add: slice_def)
    then show ?thesis
      using one True by (intro exI [of _ "Suc 0"] exI [of _ s1]) simp
  next
    case False
    let ?f = "f\<lparr>f_pos := f_pos f + 2047\<rparr>"
    have n: "f_pos f + 2047 \<le> length (f_data f)" using False by simp
    then have shorter: "length (f_data ?f) - f_pos ?f < length (f_data f) - f_pos f" by simp
    have "ascii_sending ?f a s1" using one(3) False by (simp only: if_False)
    from less.hyps [OF shorter this] obtain m s2 where rest: "ascii_calls xo xi m s1
        = Inr (upload_text xo a (drop (f_pos f + 2047) (f_data f)), s2)"
      "ts_state (stats s2) = Q_TRANSFER_STATE_END" "ax_file (ascii_st s2) = None"
      by auto
    have "?c @ drop (f_pos f + 2047) (f_data f) = drop (f_pos f) (f_data f)"
      using append_take_drop_id [of 2047 "drop (f_pos f) (f_data f)"]
      by (simp add: slice_def add.commute)
    then have "upload_text xo a ?c @ upload_text xo a (drop (f_pos f + 2047) (f_data f))
        = upload_text xo a (drop (f_pos f) (f_data f))"
      by (simp only: upload_text_append [symmetric])
    then show ?thesis
      using one(1,2) rest by (intro exI [of _ "Suc m"] exI [of _ s2]) simp
  qed
qed

definition ascii_session :: "ascii_xfer \<Rightarrow> xfer" where
  "ascii_session a =
     (idle (disk_with [] []))\<lparr>stats := idle_stats\<lparr>ts_protocol := Q_PROTOCOL_ASCII\<rparr>, ascii_st := a\<rparr>"

lemma ascii_upload_complete_witness:
  "\<exists>n s1. ascii_calls id id n (ascii_session (idle_ascii
        \<lparr>ax_file := Some (open_file [65, 13, 66] 0), ax_sending := True, ax_state := ASCII_XFER_STATE_OK\<rparr>))
      = Inr (upload_text id idle_ascii (drop (f_pos (open_file [65, 13, 66] 0))
               (f_data (open_file [65, 13, 66] 0))), s1)
    \<and> ts_state (stats s1) = Q_TRANSFER_STATE_END \<and> ax_file (ascii_st s1) = None"
  by (rule ascii_upload_complete) (simp add: ascii_sending_def ascii_session_def)

section \<open>Receiving a file\<close>

definition download_text :: "(byte \<Rightarrow> byte) \<Rightarrow> ascii_xfer \<Rightarrow> byte list \<Rightarrow> byte list" where
  "download_text xi a bs =
     crlf_text (ax_download_cr_handling a) (ax_download_lf_handling a)
       (map (if ax_download_use_xlate_table a then xi else id) bs)"

definition ascii_receiving :: "cfile \<Rightarrow> ascii_xfer \<Rightarrow> xfer \<Rightarrow> bool" where
  "ascii_receiving g a s \<longleftrightarrow>
     ascii_st s = a\<lparr>ax_file := Some g, ax_sending := False, ax_state := ASCII_XFER_STATE_OK\<rparr>
     \<and> f_room g = None \<and> \<not> f_err g \<and> f_pos g = length (f_data g)"

fun ascii_inputs :: "(byte \<Rightarrow> byte) \<Rightarrow> (byte \<Rightarrow> byte) \<Rightarrow> byte list list \<Rightarrow> xfer \<Rightarrow> fault + xfer" where
  "ascii_inputs xo xi [] s = Inr s"
| "ascii_inputs xo xi (p # ps) s =
     bind_res (ascii_transfer xo xi (nat Q_BUFFER_SIZE) (s\<lparr>inp := p\<rparr>))
       (\<lambda>(s1, _). ascii_inputs xo xi ps s1)"

lemma ascii_receive_call:
  fixes xi :: "byte \<Rightarrow> byte"
  assumes "ascii_receiving g a s" "length p \<le> 4096"
  defines "t \<equiv> download_text xi a p"
  shows "\<exists>s1 bs. ascii_transfer xo xi 4096 (s\<lparr>inp := p\<rparr>) = Inr (s1, bs)
     \<and> ascii_receiving (g\<lparr>f_data := f_data g @ t, f_pos := length (f_data g) + length t\<rparr>) a s1"
proof -
  note recv = assms(1) [unfolded ascii_receiving_def]
  let ?input = "if ax_download_use_xlate_table a then map xi p else p"
  have t: "ascii_transfer_crlf_handling ?input (ax_download_cr_handling a)
      (ax_download_lf_handling a) = t"
    by (simp add: crlf_handling_text t_def download_text_def)
  have "length t \<le> 2 * length p"
    unfolding t_def download_text_def using length_crlf_text [of _ _ "map _ p"] by simp
  then have fits: "length t \<le> 8192" using assms(2) by simp
  have "fwrite t g
      = (length t, g\<lparr>f_data := f_data g @ t, f_pos := length (f_data g) + length t\<rparr>)"
    using recv by (intro fwrite_append) simp_all
  then have "ascii_transfer xo xi 4096 (s\<lparr>inp := p\<rparr>) = Inr (s\<lparr>inp := ?input,
      ascii_st := (ascii_st s)\<lparr>ax_file := Some (g\<lparr>f_data := f_data g @ t,
        f_pos := length (f_data g) + length t\<rparr>)\<rparr>\<rparr>, Some ?input)"
    using recv t fits
    by (cases "ax_download_use_xlate_table a")
      (simp_all add: ascii_transfer_def ascii_receive_def Let_def)
  then show ?thesis using recv by (auto simp: ascii_receiving_def)
qed

text \<open>
  C37. An ASCII download appends to the file, for inputs of at most a buffer each, exactly the
  translated bytes with their line ends handled, however the text was split into inputs.
\<close>

theorem ascii_download_appends:
  fixes xi :: "byte \<Rightarrow> byte"
  assumes "ascii_receiving g a s" "\<forall>p\<in>set ps. length p \<le> 4096"
  defines "t \<equiv> download_text xi a (concat ps)"
  shows "\<exists>s1. ascii_inputs xo xi ps s = Inr s1
     \<and> ascii_receiving (g\<lparr>f_data := f_data g @ t, f_pos := length (f_data g) + length t\<rparr>) a s1"
  using assms(1,2) unfolding t_def
proof (induction ps arbitrary: g s)
  case Nil
  have "g\<lparr>f_pos := length (f_data g)\<rparr> = g"
    using Nil by (cases g) (simp add: ascii_receiving_def)
  with Nil show ?case by (simp add: download_text_def crlf_text_def)
next
  case (Cons p ps)
  let ?t = "download_text xi a p"
  let ?g = "g\<lparr>f_data := f_data g @ ?t, f_pos := length (f_data g) + length ?t\<rparr>"
  obtain s1 bs where "ascii_transfer xo xi 4096 (s\<lparr>inp := p\<rparr>) = Inr (s1, bs)"
    "ascii_receiving ?g a s1"
    using ascii_receive_call [OF Cons.prems(1), where p = p and xo = xo and xi = xi] Cons.prems(2)
    by force
  moreover have "download_text xi a (concat (p # ps)) = ?t @ download_text xi a (concat ps)"
    by (simp add: download_text_def crlf_text_append)
  ultimately show ?case
    using Cons.IH [of ?g s1] Cons.prems(2) by (simp add: add.assoc)
qed

lemma ascii_download_appends_witness:
  "\<exists>s1. ascii_inputs id id [[65, 13], [10, 66]] (ascii_session (idle_ascii
        \<lparr>ax_file := Some (open_file [] 0), ax_sending := False, ax_state := ASCII_XFER_STATE_OK\<rparr>)) = Inr s1
     \<and> ascii_receiving ((open_file [] 0)
          \<lparr>f_data := f_data (open_file [] 0) @ download_text id idle_ascii (concat [[65, 13], [10, 66]]),
           f_pos := length (f_data (open_file [] 0))
             + length (download_text id idle_ascii (concat [[65, 13], [10, 66]]))\<rparr>) idle_ascii s1"
  by (rule ascii_download_appends) (simp_all add: ascii_receiving_def ascii_session_def)

section \<open>Starting and ending\<close>

text \<open>
  The line end options of an earlier transfer stay in force: starting a transfer with the
  option set to anything but strip or add keeps the policy that is left over, instead of going
  back to leaving line ends alone.
\<close>

theorem crlf_option_sticks:
  assumes "\<not> strcasecmp_eq (opt Q_OPTION_ASCII_UPLOAD_CR_POLICY) (ascii ''strip'')"
    and "\<not> strcasecmp_eq (opt Q_OPTION_ASCII_UPLOAD_CR_POLICY) (ascii ''add'')"
    and "\<not> strcasecmp_eq (opt Q_OPTION_ASCII_DOWNLOAD_LF_POLICY) (ascii ''strip'')"
    and "\<not> strcasecmp_eq (opt Q_OPTION_ASCII_DOWNLOAD_LF_POLICY) (ascii ''add'')"
  shows "ax_upload_cr_handling (ascii_st (snd (ascii_transfer_start opt p send s)))
           = ax_upload_cr_handling (ascii_st s)
       \<and> ax_download_lf_handling (ascii_st (snd (ascii_transfer_start opt p send s)))
           = ax_download_lf_handling (ascii_st s)"
  using assms
  by (auto simp: ascii_transfer_start_def ascii_options_def crlf_option_def Let_def
      split: option.splits)

lemma crlf_option_sticks_witness:
  "ax_upload_cr_handling (ascii_st (snd (ascii_transfer_start (\<lambda>_. ascii ''none'') (ascii ''f'') True
       (ascii_session (idle_ascii\<lparr>ax_upload_cr_handling := ASCII_XFER_CRLF_STRIP\<rparr>)))))
     = ax_upload_cr_handling (ascii_st
         (ascii_session (idle_ascii\<lparr>ax_upload_cr_handling := ASCII_XFER_CRLF_STRIP\<rparr>)))
   \<and> ax_download_lf_handling (ascii_st (snd (ascii_transfer_start (\<lambda>_. ascii ''none'') (ascii ''f'') True
       (ascii_session (idle_ascii\<lparr>ax_upload_cr_handling := ASCII_XFER_CRLF_STRIP\<rparr>)))))
     = ax_download_lf_handling (ascii_st
         (ascii_session (idle_ascii\<lparr>ax_upload_cr_handling := ASCII_XFER_CRLF_STRIP\<rparr>)))"
  by (rule crlf_option_sticks) (simp_all add: strcasecmp_eq_def ascii_def)

text \<open>
  The number of blocks announced for an ASCII upload is rounded up by looking at the wrong
  remainder (that of the number of blocks): a file of one block of 128 bytes is announced as
  two, and 16385 bytes as 128.
\<close>

theorem upload_blocks_rounding:
  assumes "disk (fsys s) p = Some d" "length d < 2 ^ 31"
  shows "ts_blocks (stats (snd (ascii_transfer_start opt p True s)))
       = of_nat (length d div 128 + (if length d div 128 mod 128 = 0 then 0 else 1))"
proof -
  let ?q = "length d div 128"
  have q: "?q < 2 ^ 31" using assms(2) by (rule le_less_trans [rotated]) simp
  have quot: "c_quot (int (length d)) 128 = int ?q"
    by (cases "d = []") (simp_all add: c_quot_def zdiv_int)
  have "unat (of_nat ?q :: u64) = ?q" using q by (simp add: unat_of_nat)
  then have "unat ((of_nat ?q :: u64) mod 128) = ?q mod 128" by (simp add: unat_mod)
  then have pos: "0 < (of_nat ?q :: u64) mod 128 \<longleftrightarrow> ?q mod 128 \<noteq> 0"
    by (simp add: word_less_nat_alt)
  show ?thesis
    using assms(1) quot pos
    by (simp add: ascii_transfer_start_def Let_def stat_size_def fopen_rb_def)
qed

lemma upload_blocks_rounding_witness:
  "ts_blocks (stats (snd (ascii_transfer_start (\<lambda>_. []) (ascii ''f'') True
      (idle (disk_with (ascii ''f'') (replicate 128 0))))))
    = of_nat (length (replicate 128 (0 :: byte)) div 128
        + (if length (replicate 128 (0 :: byte)) div 128 mod 128 = 0 then 0 else 1))"
  by (rule upload_blocks_rounding) simp_all

end
