(* ===== verification/Crc32_Table.thy ===== *)
theory Crc32_Table
  imports Crc_Register
begin

text \<open>
  \<open>CRC32.c\<close>: the CRC-32 computed a byte at a time with a table of 256 remainders. The table
  method is the shift register of \<open>Crc_Register\<close> with eight steps taken at once.
\<close>

section \<open>The code\<close>

definition POLYNOMIAL :: u32 where "POLYNOMIAL = 0x04C11DB7"

text \<open>One turn of the inner loop of \<open>gen_crc_table\<close>, and the table it fills.\<close>

definition crc_accum_step :: "u32 \<Rightarrow> u32" where
  "crc_accum_step crc_accum =
     (if crc_accum AND 0x80000000 \<noteq> 0 then push_bit 1 crc_accum XOR POLYNOMIAL
      else push_bit 1 crc_accum)"

definition gen_crc_table :: "u32 list" where
  "gen_crc_table = map (\<lambda>i. (crc_accum_step ^^ 8) (push_bit 24 (of_nat i))) [0..<256]"

fun update_loop :: "u32 list \<Rightarrow> u32 \<Rightarrow> byte list \<Rightarrow> u32" where
  "update_loop table crc_accum [] = crc_accum"
| "update_loop table crc_accum (b # bs) =
     (let i = (drop_bit 24 crc_accum XOR ucast b) AND 0xFF
      in update_loop table (push_bit 8 crc_accum XOR table ! unat i) bs)"

definition update_crc :: "u32 list \<Rightarrow> u32 \<Rightarrow> byte list \<Rightarrow> u32" where
  "update_crc table crc_accum data = NOT (update_loop table crc_accum data)"

section \<open>The register behind it\<close>

definition crc32_upd :: "u32 \<Rightarrow> byte \<Rightarrow> u32" where
  "crc32_upd = msb_upd POLYNOMIAL"

interpretation crc32: crc_register crc32_upd 4
  unfolding crc32_upd_def by (rule msb_upd_crc_register) (simp_all add: POLYNOMIAL_def)

lemma crc_accum_step_eq: "crc_accum_step c = msb_step POLYNOMIAL c"
proof -
  have "(0x80000000 :: u32) = 2 ^ 31" by simp
  then have "c AND 0x80000000 \<noteq> 0 \<longleftrightarrow> bit c 31"
    by (simp only: and_exp_eq_0_iff_not_bit not_not)
  then show ?thesis
    by (simp add: crc_accum_step_def msb_step_def del: push_bit_of_1 push_bit_Suc)
qed

lemma table_lookup: "gen_crc_table ! unat (i :: byte) = table_entry POLYNOMIAL i"
proof -
  have i: "unat i < 256" using unsigned_less [of i, where 'a = nat] by simp
  have "of_nat (unat i) = (ucast i :: u32)" by (rule of_nat_unat)
  moreover have "crc_accum_step = msb_step POLYNOMIAL" by (rule ext) (rule crc_accum_step_eq)
  ultimately show ?thesis using i by (simp add: gen_crc_table_def table_entry_def)
qed

lemma index_byte:
  "unat ((drop_bit 24 c XOR ucast b) AND 0xFF :: u32)
     = unat ((ucast (drop_bit 24 c) :: byte) XOR b)"
proof -
  have "(drop_bit 24 c XOR ucast b) AND 0xFF = (ucast ((ucast (drop_bit 24 c) :: byte) XOR b) :: u32)"
  proof (rule bit_word_eqI)
    fix i assume "i < LENGTH(32)"
    show "bit ((drop_bit 24 c XOR ucast b) AND 0xFF) i
        = bit (ucast ((ucast (drop_bit 24 c) :: byte) XOR b) :: u32) i"
      using \<open>i < LENGTH(32)\<close> by (auto simp: bit_ucast bit_and_iff bit_xor_iff bit_mask8
        dest: bit_imp_le_length)
  qed
  then show ?thesis by (simp add: unat_ucast_up)
qed

lemma update_loop_register: "update_loop gen_crc_table c bs = foldl crc32_upd c bs"
proof (induction bs arbitrary: c)
  case (Cons b bs)
  have "push_bit 8 c XOR gen_crc_table ! unat ((drop_bit 24 c XOR ucast b) AND 0xFF) = crc32_upd c b"
    by (simp add: crc32_upd_def msb_upd_table index_byte table_lookup)
  then show ?case using Cons by (simp add: Let_def)
qed simp

text \<open>
  C34. The table method of \<open>CRC32.c\<close> computes the bit-by-bit CRC-32: with the table of
  \<open>gen_crc_table\<close>, \<open>update_crc\<close> is the complement of the shift register fed with every byte.
\<close>

theorem update_crc_is_register:
  "update_crc gen_crc_table c bs = NOT (foldl (msb_upd 0x04C11DB7) c bs)"
  using update_loop_register [of c bs] by (simp add: update_crc_def crc32_upd_def POLYNOMIAL_def)

text \<open>
  \<open>update_crc\<close> detects every error burst of up to four bytes, wherever it is in the data and
  whatever value the CRC starts from.
\<close>

theorem crc32_detects_bursts:
  assumes "length bs = length cs" "length bs \<le> 4" "bs \<noteq> cs"
  shows "update_crc gen_crc_table c (xs @ bs @ ys) \<noteq> update_crc gen_crc_table c (xs @ cs @ ys)"
proof
  assume "update_crc gen_crc_table c (xs @ bs @ ys) = update_crc gen_crc_table c (xs @ cs @ ys)"
  then have "NOT (NOT (foldl crc32_upd c (xs @ bs @ ys))) = NOT (NOT (foldl crc32_upd c (xs @ cs @ ys)))"
    by (simp only: update_crc_def update_loop_register)
  then show False using crc32.burst_detected [OF assms, of c xs ys] by simp
qed

lemma crc32_detects_bursts_witness:
  "update_crc gen_crc_table (- 1) ([1, 2] @ [3, 4, 5, 6] @ [7])
     \<noteq> update_crc gen_crc_table (- 1) ([1, 2] @ [6, 5, 4, 3] @ [7])"
  by (rule crc32_detects_bursts) simp_all

end
