(* ===== verification/Codec.thy ===== *)
theory Codec
  imports Prelude
begin

text \<open>
  What the compressors and encoders of the repository have in common: decoding what was encoded
  gives it back. The second locale is for formats whose code words can follow one another.
\<close>

locale codec =
  fixes enc :: "'a \<Rightarrow> 'b list" and dec :: "'b list \<Rightarrow> 'a option" and ok :: "'a \<Rightarrow> bool"
  assumes round_trip: "ok x \<Longrightarrow> dec (enc x) = Some x"
begin

lemma enc_inj: "ok x \<Longrightarrow> ok y \<Longrightarrow> enc x = enc y \<Longrightarrow> x = y"
  by (metis round_trip option.inject)

end

text \<open>Decoding one word at the front of a longer text: the value, and what follows.\<close>

locale stream_codec =
  fixes enc :: "'a \<Rightarrow> 'b list" and take_one :: "'b list \<Rightarrow> ('a \<times> 'b list) option" and ok :: "'a \<Rightarrow> bool"
  assumes takes: "ok x \<Longrightarrow> take_one (enc x @ ys) = Some (x, ys)"
    and nonempty: "ok x \<Longrightarrow> enc x \<noteq> []"
begin

lemma prefix_free: "ok x \<Longrightarrow> ok y \<Longrightarrow> enc x @ xs = enc y @ ys \<Longrightarrow> x = y \<and> xs = ys"
  by (metis takes option.inject prod.inject)

lemma concat_inj:
  "\<forall>x\<in>set xs. ok x \<Longrightarrow> \<forall>y\<in>set ys. ok y \<Longrightarrow>
    concat (map enc xs) = concat (map enc ys) \<Longrightarrow> xs = ys"
proof (induction xs arbitrary: ys)
  case Nil
  then have "\<forall>y\<in>set ys. enc y = []" by simp
  with Nil.prems(2) nonempty show ?case by (cases ys) auto
next
  case (Cons x xs)
  show ?case
  proof (cases ys)
    case Nil
    with Cons.prems nonempty [of x] show ?thesis by auto
  next
    case (Cons y ys')
    with Cons.prems prefix_free [of x y "concat (map enc xs)" "concat (map enc ys')"]
    have "x = y" "concat (map enc xs) = concat (map enc ys')" by auto
    with Cons Cons.prems Cons.IH [of ys'] show ?thesis by auto
  qed
qed

sublocale words: codec "\<lambda>xs. concat (map enc [xs])" "\<lambda>t. map_option fst (take_one t)" ok
  by unfold_locales (use takes [of _ "[]"] in auto)

end

end
