(* ===== verification/Rle_File.thy ===== *)
theory Rle_File
  imports Stdio Codec
begin

text \<open>
  \<open>RLE/src/rle.c\<close>: a run length compressor for files. A packet is either a count below 128 and
  that many bytes plus one, or a count from 128 on and the byte that is repeated count minus 126
  times. The output is written byte by byte to a stream that may run full; the input is the
  contents of a readable file.
\<close>

section \<open>Reading and writing bytes\<close>

text \<open>
  The input stream is the bytes that are left and its end-of-file indicator. \<open>fgetc\<close> returns
  EOF at the end; stored into a \<open>uint8_t\<close>, EOF is 0xFF.
\<close>

type_synonym istream = "byte list \<times> bool"

fun fgetc :: "istream \<Rightarrow> byte option \<times> istream" where
  "fgetc ([], eof) = (None, ([], True))"
| "fgetc (x # xs, eof) = (Some x, (xs, eof))"

definition to_u8 :: "byte option \<Rightarrow> byte" where
  "to_u8 c = (case c of None \<Rightarrow> 0xFF | Some b \<Rightarrow> b)"

text \<open>\<open>fputc\<close> or \<open>fwrite\<close>: whether everything was written.\<close>

definition put :: "byte list \<Rightarrow> cfile \<Rightarrow> bool \<times> cfile" where
  "put bs out = (let (n, out1) = fwrite bs out in (n = length bs, out1))"

definition put2 :: "byte list \<Rightarrow> byte list \<Rightarrow> cfile \<Rightarrow> bool \<times> cfile" where
  "put2 as bs out = (let (ok, out1) = put as out in if ok then put bs out1 else (False, out1))"

section \<open>Compression\<close>

text \<open>
  The inner loop of an uncompressible sequence: \<open>t\<close> is \<open>t[0..i]\<close> so far, and a turn appends one
  byte. The inner loop of a compressible one: \<open>i\<close> counts the equal bytes.
\<close>

function grow :: "byte list \<Rightarrow> istream \<Rightarrow> byte list \<times> istream" where
  "grow t s =
     (let (c, s1) = fgetc s; t1 = t @ [to_u8 c]
      in if \<not> snd s1 \<and> length t < 128 \<and> last t1 \<noteq> last t then grow t1 s1 else (t1, s1))"
  by pat_completeness auto
termination by (relation "measure (\<lambda>(t, s). 128 - length t)") auto

declare grow.simps [simp del]

function run_loop :: "byte \<Rightarrow> nat \<Rightarrow> istream \<Rightarrow> nat \<times> byte \<times> istream" where
  "run_loop t0 i s =
     (let (c, s1) = fgetc s; t1 = to_u8 c
      in if i + 1 < 130 \<and> t0 = t1 then run_loop t0 (i + 1) s1 else (i + 1, t1, s1))"
  by pat_completeness auto
termination by (relation "measure (\<lambda>(t0, i, s). 130 - i)") auto

declare run_loop.simps [simp del]

text \<open>The amount of input left; every turn of the outer loop uses some up.\<close>

definition left :: "istream \<Rightarrow> nat" where
  "left s = length (fst s) + (if snd s then 0 else 1)"

lemma fgetc_left: "left (snd (fgetc s)) \<le> left s" "\<not> snd s \<Longrightarrow> left (snd (fgetc s)) < left s"
  by (cases s rule: fgetc.cases; simp add: left_def)+

lemma grow_left: "left (snd (grow t s)) \<le> left s"
proof (induction t s rule: grow.induct)
  case (1 t s)
  obtain c s1 where f: "fgetc s = (c, s1)" by (cases "fgetc s")
  then show ?case
    using fgetc_left(1) [of s] "1.IH" [OF refl f [symmetric] refl]
    by (subst grow.simps) (auto simp: Let_def)
qed

lemma run_left: "left (snd (snd (run_loop t0 i s))) \<le> left s"
proof (induction t0 i s rule: run_loop.induct)
  case (1 t0 i s)
  obtain c s1 where f: "fgetc s = (c, s1)" by (cases "fgetc s")
  then show ?case
    using fgetc_left(1) [of s] "1.IH" [OF refl f [symmetric] refl]
    by (subst run_loop.simps) (auto simp: Let_def)
qed

text \<open>
  The uncompressible part of one turn of the outer loop: the sequence \<open>t[0..i)\<close> to write, the
  byte that becomes \<open>t[0]\<close>, whether it starts a compressible sequence, and the input after it.
\<close>

definition literal :: "byte \<Rightarrow> byte \<Rightarrow> istream \<Rightarrow> byte list \<times> byte \<times> bool \<times> istream" where
  "literal t0 t1 s =
     (let (t, s1) = (if snd s then ([t0, t1], s) else grow [t0, t1] s);
          i = length t - 1;
          keep = (t ! i = t ! (i - 1));
          n = (if keep then i - 1 else i)
      in (take n t, t ! n, keep, s1))"

lemma literal_left: "left (snd (snd (snd (literal t0 t1 s)))) \<le> left s"
  using grow_left [of "[t0, t1]" s] by (simp add: literal_def Let_def split_beta)

function compress_loop :: "byte \<Rightarrow> istream \<Rightarrow> cfile \<Rightarrow> cfile" where
  "compress_loop t0 s out =
     (if snd s then out
      else
       (let (c, s1) = fgetc s; t1 = to_u8 c;
            (lit, b, run, s2) = (if t0 \<noteq> t1 then literal t0 t1 s1 else ([], t0, True, s1));
            (ok, out1) = (if t0 \<noteq> t1 then put2 [of_nat (length lit - 1)] lit out else (True, out))
        in if \<not> ok then out1
           else if \<not> run then compress_loop b s2 out1
           else
            (let (i, t2, s3) = run_loop b 2 s2; (ok2, out2) = put2 [of_nat (i + 125)] [b] out1
             in if ok2 then compress_loop t2 s3 out2 else out2)))"
  by pat_completeness auto
termination
proof (relation "measure (\<lambda>(t0, s, out). left s)", goal_cases)
  case 1
  then show ?case by simp
next
  case (2 t0 s out x c s1 t1 y lit z b a run s2 w ok out1)
  have "left s1 < left s" using 2 fgetc_left(2) [of s] by (cases "fgetc s") auto
  moreover have "left s2 \<le> left s1" using 2 literal_left [of t0 t1 s1]
    by (cases "literal t0 t1 s1") (auto split: if_splits)
  ultimately show ?case by simp
next
  case (3 t0 s out x c s1 t1 y lit z b a run s2 w ok out1 v i u t2 s3 q ok2 out2)
  have "left s1 < left s" using 3 fgetc_left(2) [of s] by (cases "fgetc s") auto
  moreover have "left s2 \<le> left s1" using 3 literal_left [of t0 t1 s1]
    by (cases "literal t0 t1 s1") (auto split: if_splits)
  moreover have "left s3 \<le> left s2" using 3 run_left [of b 2 s2] by (cases "run_loop b 2 s2") auto
  ultimately show ?case by simp
qed

declare compress_loop.simps [simp del]

text \<open>
  \<open>rle_compress(src, dst)\<close>: 0 or -1, and the file system. Reads of \<open>src\<close> are taken to succeed;
  opening \<open>dst\<close> truncates it, also when it is the file that is read.
\<close>

definition rle_compress :: "path \<Rightarrow> path \<Rightarrow> fsys \<Rightarrow> int \<times> fsys" where
  "rle_compress src dst fs =
     (case disk fs src of
        None \<Rightarrow> (-1, fs)
      | Some d \<Rightarrow>
         (case fopen_wb dst fs of
            None \<Rightarrow> (-1, fs)
          | Some out \<Rightarrow>
             (let (c, s) = fgetc (if src = dst then [] else d, False); out1 = compress_loop (to_u8 c) s out
              in (if f_err out1 then -1 else 0, fclose out1 (created dst fs)))))"

section \<open>Extraction\<close>

text \<open>
  The inner loop: write \<open>j\<close>, and in a literal packet fetch the next \<open>j\<close> unless this was the last
  byte. A failed write ends the packet, an early end of the input makes \<open>j\<close> EOF (\<open>None\<close>).
\<close>

fun emit :: "bool \<Rightarrow> nat \<Rightarrow> byte \<Rightarrow> byte list \<Rightarrow> cfile \<Rightarrow> byte option \<times> byte list \<times> cfile" where
  "emit lit 0 j inb out = (Some j, inb, out)"
| "emit lit (Suc m) j inb out =
     (let (ok, out1) = put [j] out
      in if \<not> ok then (Some j, inb, out1)
         else if lit \<and> 0 < m then
           (case inb of
              [] \<Rightarrow> (None, [], out1)
            | x # xs \<Rightarrow> emit lit m x xs out1)
         else emit lit m j inb out1)"

lemma emit_left: "length (fst (snd (emit lit m j inb out))) \<le> length inb"
proof (induction m arbitrary: j inb out)
  case 0
  then show ?case by simp
next
  case (Suc m)
  have none: "fst (snd (emit lit m j' [] out')) = []" for j' out'
    using Suc.IH [of j' "[]" out'] by simp
  show ?case
    using Suc.IH le_SucI [OF Suc.IH] none Suc.IH [of j inb "snd (put [j] out)"]
    by (cases inb; cases lit) (auto simp: Let_def split_beta)
qed

text \<open>The outer loop: whether \<open>i\<close> is EOF at its end, the last \<open>j\<close>, and the output.\<close>

function extract_loop :: "byte option \<Rightarrow> byte list \<Rightarrow> cfile \<Rightarrow> bool \<times> byte option \<times> cfile" where
  "extract_loop j [] out = (True, j, out)"
| "extract_loop j [x] out = (False, None, out)"
| "extract_loop j (x # y # ys) out =
     (let m = (if x < 128 then unat x + 1 else unat x - 126);
          (j1, rest, out1) = emit (x < 128) m y ys out
      in extract_loop j1 rest out1)"
  by pat_completeness auto
termination
proof (relation "measure (\<lambda>(j, inb, out). length inb)", goal_cases)
  case (2 j x y ys out m z j1 u rest out1)
  then have "rest = fst (snd (emit (x < 128) m y ys out))" by (metis fst_conv snd_conv)
  then show ?case using emit_left [of "x < 128" m y ys out] by simp
qed simp

definition rle_extract :: "bool \<Rightarrow> path \<Rightarrow> path \<Rightarrow> fsys \<Rightarrow> int \<times> fsys" where
  "rle_extract errno src dst fs =
     (case disk fs src of
        None \<Rightarrow> (-1, fs)
      | Some d \<Rightarrow>
         (case fopen_wb dst fs of
            None \<Rightarrow> (-1, fs)
          | Some out \<Rightarrow>
             (let (i_eof, j, out1) = extract_loop (Some 0) (if src = dst then [] else d) out
              in (if errno \<or> j = None \<or> \<not> i_eof \<or> f_err out1 then -1 else 0,
                  fclose out1 (created dst fs)))))"

section \<open>Streams with room\<close>

definition at_end :: "cfile \<Rightarrow> bool" where
  "at_end f \<longleftrightarrow> f_room f = None \<and> f_pos f = length (f_data f)"

definition appended :: "cfile \<Rightarrow> byte list \<Rightarrow> cfile" where
  "appended f bs = f\<lparr>f_data := f_data f @ bs, f_pos := f_pos f + length bs\<rparr>"

lemma appended_simps [simp]:
  "at_end f \<Longrightarrow> at_end (appended f bs)" "appended f [] = f"
  "appended (appended f as) bs = appended f (as @ bs)"
  "f_data (appended f bs) = f_data f @ bs" "f_err (appended f bs) = f_err f"
  "f_name (appended f bs) = f_name f"
  by (simp_all add: at_end_def appended_def add.assoc)

lemma put_appended [simp]:
  "at_end f \<Longrightarrow> put bs f = (True, appended f bs)"
  "at_end f \<Longrightarrow> put2 as bs f = (True, appended f (as @ bs))"
  by (simp_all add: put_def put2_def at_end_def fwrite_append appended_def)

section \<open>Packets\<close>

lemma emit_run: "at_end out \<Longrightarrow> emit False m j inb out = (Some j, inb, appended out (replicate m j))"
  by (induction m arbitrary: out) (simp_all add: replicate_append_same)

lemma emit_literal:
  "at_end out \<Longrightarrow> ds \<noteq> [] \<Longrightarrow>
    emit True (length ds) (hd ds) (tl ds @ inb) out = (Some (last ds), inb, appended out ds)"
proof (induction ds arbitrary: out)
  case Nil
  then show ?case by simp
next
  case (Cons d ds)
  show ?case
  proof (cases ds)
    case Nil
    with Cons.prems show ?thesis by simp
  next
    case (Cons e es)
    with Cons.prems Cons.IH [of "appended out [d]"] show ?thesis by simp
  qed
qed

text \<open>What the extractor does with one packet of either kind.\<close>

lemma extract_literal:
  assumes "at_end out" "ds \<noteq> []" "length ds \<le> 128"
  shows "extract_loop j (of_nat (length ds - 1) # ds @ inb) out
       = extract_loop (Some (last ds)) inb (appended out ds)"
proof -
  obtain d es where ds: "ds = d # es" using assms(2) by (cases ds) auto
  have n: "length es < 128" using assms(3) ds by simp
  then have u: "unat (of_nat (length es) :: byte) = length es" by (simp add: unat_of_nat)
  then have "(of_nat (length es) :: byte) < 128" using n by (simp add: word_less_nat_alt)
  then show ?thesis using emit_literal [OF assms(1,2), of inb] u ds by (simp add: Let_def)
qed

lemma extract_run:
  assumes "at_end out" "2 \<le> n" "n \<le> 129"
  shows "extract_loop j (of_nat (n + 126) # b # inb) out
       = extract_loop (Some b) inb (appended out (replicate n b))"
proof -
  have u: "unat (of_nat (n + 126) :: byte) = n + 126"
    using assms(3) by (simp only: unat_of_nat) simp
  then have "\<not> (of_nat (n + 126) :: byte) < 128"
    using assms(2) by (simp only: word_less_nat_alt) simp
  then show ?thesis using emit_run [OF assms(1)] u by (simp only: extract_loop.simps Let_def) simp
qed

text \<open>\<open>pk\<close> is a row of packets that stands for the bytes \<open>d\<close>.\<close>

definition encodes :: "byte list \<Rightarrow> byte list \<Rightarrow> bool" where
  "encodes pk d \<longleftrightarrow> (\<forall>b rest out. at_end out \<longrightarrow>
     (\<exists>b'. extract_loop (Some b) (pk @ rest) out = extract_loop (Some b') rest (appended out d)))"

lemma encodes_Nil [simp]: "encodes [] []"
  by (auto simp: encodes_def)

lemma encodes_append: "encodes p d \<Longrightarrow> encodes q e \<Longrightarrow> encodes (p @ q) (d @ e)"
  unfolding encodes_def by (metis append.assoc appended_simps(1,3))

lemma encodes_literal:
  "ds \<noteq> [] \<Longrightarrow> length ds \<le> 128 \<Longrightarrow> encodes (of_nat (length ds - 1) # ds) ds"
  unfolding encodes_def using extract_literal by (metis append_Cons)

lemma encodes_run: "2 \<le> n \<Longrightarrow> n \<le> 129 \<Longrightarrow> encodes [of_nat (n + 126), b] (replicate n b)"
  unfolding encodes_def using extract_run [of _ n _ b]
  by (metis append_Cons append_Nil)

section \<open>What the two inner loops of the compressor do\<close>

lemma grow_spec:
  "grow t (inb, False) = (t1, (inb1, e)) \<Longrightarrow> length t \<le> 128 \<Longrightarrow>
    length t < length t1 \<and> length t1 \<le> 129
    \<and> (if e then inb1 = [] \<and> t1 = t @ inb @ [0xFF] else t1 @ inb1 = t @ inb)"
proof (induction inb arbitrary: t)
  case Nil
  then show ?case by (subst (asm) grow.simps) (auto simp: to_u8_def)
next
  case (Cons x inb)
  show ?case
  proof (cases "length t < 128 \<and> x \<noteq> last t")
    case True
    then have "grow (t @ [x]) (inb, False) = (t1, (inb1, e))"
      using Cons.prems(1) by (subst (asm) grow.simps) (simp add: to_u8_def)
    from Cons.IH [OF this] True show ?thesis by (auto split: if_splits)
  next
    case False
    then have "t1 = t @ [x] \<and> inb1 = inb \<and> \<not> e"
      using Cons.prems(1) by (subst (asm) grow.simps) (auto simp: to_u8_def)
    with Cons.prems(2) show ?thesis by simp
  qed
qed

lemma run_spec:
  "run_loop b i (inb, False) = (i1, t1, (inb1, e)) \<Longrightarrow> i < 130 \<Longrightarrow> last (b # inb) \<noteq> 0xFF \<Longrightarrow>
    i < i1 \<and> i1 \<le> 130
    \<and> (if e then inb1 = [] \<and> inb = replicate (i1 - i - 1) b
       else inb = replicate (i1 - i - 1) b @ t1 # inb1)"
proof (induction inb arbitrary: i)
  case Nil
  then show ?case by (subst (asm) run_loop.simps) (auto simp: to_u8_def split: if_splits)
next
  case (Cons x inb)
  show ?case
  proof (cases "i + 1 < 130 \<and> b = x")
    case True
    then have "run_loop b (i + 1) (inb, False) = (i1, t1, (inb1, e))"
      using Cons.prems(1) by (subst (asm) run_loop.simps) (simp add: to_u8_def)
    moreover have "last (b # inb) \<noteq> 0xFF" using Cons.prems(3) True by (auto split: if_splits)
    ultimately have ih: "i + 1 < i1 \<and> i1 \<le> 130
       \<and> (if e then inb1 = [] \<and> inb = replicate (i1 - (i + 1) - 1) b
          else inb = replicate (i1 - (i + 1) - 1) b @ t1 # inb1)"
      using Cons.IH [of "i + 1"] True by simp
    then have "i1 - i - 1 = Suc (i1 - (i + 1) - 1)" by linarith
    with ih True show ?thesis by simp
  next
    case False
    then have "i1 = i + 1 \<and> t1 = x \<and> inb1 = inb \<and> \<not> e"
      using Cons.prems(1) by (subst (asm) run_loop.simps) (auto simp: to_u8_def)
    with Cons.prems(2) show ?thesis by simp
  qed
qed

text \<open>
  The uncompressible part, seen from the data: what is written, and what is left in front of the
  rest of the input. \<open>pending\<close> is the data still to be compressed.
\<close>

definition pending :: "byte \<Rightarrow> bool \<Rightarrow> istream \<Rightarrow> byte list" where
  "pending b run s = (if snd s then [] else (if run then [b, b] else [b]) @ fst s)"

lemma literal_spec:
  assumes "literal t0 t1 (inb, False) = (lit, b, run, s2)" "t0 \<noteq> t1" "last (t1 # inb) \<noteq> 0xFF"
  shows "lit @ pending b run s2 = t0 # t1 # inb \<and> lit \<noteq> [] \<and> length lit \<le> 128
           \<and> (run \<longrightarrow> \<not> snd s2)"
proof -
  obtain t inb1 e where g: "grow [t0, t1] (inb, False) = (t, (inb1, e))"
    by (metis prod_cases3)
  note spec = grow_spec [OF g, simplified]
  let ?i = "length t - 1"
  have n: "2 \<le> ?i" "?i \<le> 128" using spec by auto
  have t: "take ?i t @ [t ! ?i] = t"
    using n take_Suc_conv_app_nth [of ?i t] by simp
  have lit: "literal t0 t1 (inb, False)
      = (if t ! ?i = t ! (?i - 1) then (take (?i - 1) t, t ! (?i - 1), True, (inb1, e))
         else (take ?i t, t ! ?i, False, (inb1, e)))"
    using g by (simp add: literal_def Let_def)
  show ?thesis
  proof (cases e)
    case True
    then have te: "t = (t0 # t1 # inb) @ [0xFF]" using spec by simp
    then have i: "?i = length (t0 # t1 # inb)" by simp
    have "t ! (?i - 1) = last (t1 # inb)"
      using te by (simp add: nth_append last_conv_nth)
    moreover have "t ! ?i = 0xFF" unfolding i unfolding te by (simp only: nth_append_length)
    ultimately have "t ! ?i \<noteq> t ! (?i - 1)" using assms(3) by simp
    moreover have "take ?i t = t0 # t1 # inb" unfolding i unfolding te by simp
    ultimately show ?thesis using assms(1) lit n True by (auto simp: pending_def)
  next
    case False
    then have whole: "t @ inb1 = t0 # t1 # inb" using spec by simp
    show ?thesis
    proof (cases "t ! ?i = t ! (?i - 1)")
      case True
      have "Suc (?i - 1) = ?i" "?i - 1 < length t" using n by linarith+
      then have "take ?i t = take (?i - 1) t @ [t ! (?i - 1)]"
        using take_Suc_conv_app_nth [of "?i - 1" t] by (simp only:)
      then have "take (?i - 1) t @ [t ! (?i - 1), t ! (?i - 1)] = t" using t True by simp
      moreover have "take (?i - 1) t \<noteq> []" using n by auto
      ultimately show ?thesis
        using assms(1) lit n True False whole by (auto simp: pending_def)
    next
      case d: False
      have "take ?i t \<noteq> []" using n by auto
      then show ?thesis
        using assms(1) lit n d False whole t by (auto simp: pending_def)
    qed
  qed
qed

section \<open>Round trip\<close>

lemma run_encodes:
  assumes "run_loop b 2 (inb, False) = (i, t2, s3)" "last (b # inb) \<noteq> 0xFF"
  shows "encodes [of_nat (i + 125), b] (replicate (i - 1) b)
    \<and> replicate (i - 1) b @ pending t2 False s3 = b # b # inb
    \<and> (\<not> snd s3 \<longrightarrow> last (t2 # fst s3) \<noteq> 0xFF)"
proof -
  obtain inb3 e where s3: "s3 = (inb3, e)" by (cases s3)
  have spec: "2 < i \<and> i \<le> 130 \<and> (if e then inb3 = [] \<and> inb = replicate (i - 2 - 1) b
       else inb = replicate (i - 2 - 1) b @ t2 # inb3)"
    using run_spec [OF assms(1) [unfolded s3] _ assms(2)] by simp
  then have n: "i + 125 = (i - 1) + 126" "2 \<le> i - 1" "i - 1 \<le> 129" "i - 1 = Suc (Suc (i - 2 - 1))"
    by auto
  have "encodes [of_nat (i + 125), b] (replicate (i - 1) b)"
    unfolding n(1) using n(2,3) by (rule encodes_run)
  moreover have "replicate (i - 1) b = b # b # replicate (i - 2 - 1) b" by (simp only: n(4)) simp
  ultimately show ?thesis using spec assms(2) s3 by (auto simp: pending_def split: if_splits)
qed

lemma compress_encodes:
  "at_end out \<Longrightarrow> \<not> eof \<Longrightarrow> last (t0 # inb) \<noteq> 0xFF \<Longrightarrow>
    \<exists>pk. compress_loop t0 (inb, eof) out = appended out pk \<and> encodes pk (t0 # inb)"
proof (induction "left (inb, eof)" arbitrary: t0 inb eof out rule: less_induct)
  case less
  have IH: "\<exists>pk. compress_loop b s2 o2 = appended o2 pk \<and> encodes pk (pending b False s2)"
    if "at_end o2" "left s2 < left (inb, eof)" "\<not> snd s2 \<longrightarrow> last (b # fst s2) \<noteq> 0xFF" for b s2 o2
  proof (cases s2)
    case (Pair in2 e2)
    show ?thesis
    proof (cases e2)
      case True
      have "compress_loop b s2 o2 = o2" using Pair True by (subst compress_loop.simps) simp
      then show ?thesis
        using Pair True by (intro exI [of _ "[]"]) (simp add: pending_def)
    next
      case False
      then show ?thesis using that Pair less.hyps [of in2 e2 o2 b] by (simp add: pending_def)
    qed
  qed
  have RUN: "\<exists>pk. (let (i, t2, s3) = run_loop b 2 (in2, False);
                      (ok2, out2) = put2 [of_nat (i + 125)] [b] o1
                  in if ok2 then compress_loop t2 s3 out2 else out2) = appended o1 pk
               \<and> encodes pk (b # b # in2)"
    if "at_end o1" "left (in2, False) < left (inb, eof)" "last (b # in2) \<noteq> 0xFF" for b in2 o1
  proof -
    obtain i t2 s3 where r: "run_loop b 2 (in2, False) = (i, t2, s3)" by (metis prod_cases3)
    note spec = run_encodes [OF r that(3)]
    have "left s3 < left (inb, eof)" using run_left [of b 2 "(in2, False)"] r that(2) by simp
    moreover have "at_end (appended o1 [of_nat (i + 125), b])" using that(1) by simp
    ultimately obtain pk where pk: "compress_loop t2 s3 (appended o1 [of_nat (i + 125), b])
        = appended (appended o1 [of_nat (i + 125), b]) pk" "encodes pk (pending t2 False s3)"
      using IH spec by blast
    have "encodes ([of_nat (i + 125), b] @ pk) (b # b # in2)"
      using encodes_append [OF _ pk(2), of "[of_nat (i + 125), b]" "replicate (i - 1) b"] spec by simp
    then show ?thesis
      using r pk(1) that(1) by (intro exI [of _ "[of_nat (i + 125), b] @ pk"]) simp
  qed
  show ?case
  proof (cases inb)
    case Nil
    have "literal t0 0xFF ([], True) = ([t0], 0xFF, False, ([], True))"
      using less.prems(3) Nil by (auto simp: literal_def Let_def)
    moreover have "compress_loop 0xFF ([], True) f = f" for f
      by (subst compress_loop.simps) simp
    ultimately have "compress_loop t0 (inb, eof) out = appended out [0, t0]"
      using less.prems Nil by (subst compress_loop.simps) (auto simp: to_u8_def)
    then show ?thesis
      using encodes_literal [of "[t0]"] Nil by (intro exI [of _ "[0, t0]"]) simp
  next
    case (Cons x xs)
    have shorter: "left (xs, False) < left (inb, eof)" using Cons less.prems(2) by (simp add: left_def)
    have lastx: "last (x # xs) \<noteq> 0xFF" using less.prems(3) Cons by simp
    show ?thesis
    proof (cases "t0 = x")
      case True
      then have "compress_loop t0 (inb, eof) out =
          (let (i, t2, s3) = run_loop t0 2 (xs, False);
               (ok2, out2) = put2 [of_nat (i + 125)] [t0] out
           in if ok2 then compress_loop t2 s3 out2 else out2)"
        using less.prems(2) Cons by (subst compress_loop.simps) (simp add: to_u8_def)
      then show ?thesis using RUN [OF less.prems(1) shorter, of t0] lastx True Cons by simp
    next
      case False
      obtain lit b run s2 where l: "literal t0 x (xs, False) = (lit, b, run, s2)"
        by (metis prod_cases4)
      note spec = literal_spec [OF l False lastx]
      let ?pk = "of_nat (length lit - 1) # lit" and ?o = "appended out (of_nat (length lit - 1) # lit)"
      have enc: "encodes ?pk lit" using encodes_literal spec by blast
      have atend: "at_end ?o" using less.prems(1) by simp
      have left2: "left s2 < left (inb, eof)"
        using literal_left [of t0 x "(xs, False)"] l shorter by simp
      have step: "compress_loop t0 (inb, eof) out =
          (if \<not> run then compress_loop b s2 ?o
           else (let (i, t2, s3) = run_loop b 2 s2; (ok2, out2) = put2 [of_nat (i + 125)] [b] ?o
                 in if ok2 then compress_loop t2 s3 out2 else out2))"
        using less.prems(1,2) Cons False l by (subst compress_loop.simps) (simp add: to_u8_def)
      have last2: "last (b # fst s2) \<noteq> 0xFF" if "\<not> snd s2"
      proof -
        have "last (lit @ pending b run s2) = last (b # fst s2)"
          using that by (simp add: pending_def)
        with spec lastx show ?thesis by simp
      qed
      have "\<exists>pk. compress_loop t0 (inb, eof) out = appended ?o pk \<and> encodes pk (pending b run s2)"
      proof (cases run)
        case True
        then obtain in2 where s2: "s2 = (in2, False)" using spec by (cases s2) auto
        have "last (b # in2) \<noteq> 0xFF" using last2 s2 by simp
        from RUN [OF atend left2 [unfolded s2] this] show ?thesis
          using step True s2 by (simp add: pending_def)
      next
        case False
        then show ?thesis using step IH [OF atend left2] last2 by simp
      qed
      then obtain pk where "compress_loop t0 (inb, eof) out = appended out (?pk @ pk)"
        "encodes pk (pending b run s2)" by auto
      moreover from this(2) have "encodes (?pk @ pk) (t0 # inb)"
        using encodes_append [OF enc] spec Cons by metis
      ultimately show ?thesis by blast
    qed
  qed
qed

lemma compress_whole:
  assumes "at_end out" "d = [] \<or> last d \<noteq> 0xFF" "fgetc (d, False) = (c, s)"
  shows "\<exists>pk. compress_loop (to_u8 c) s out = appended out pk \<and> encodes pk d"
proof (cases d)
  case Nil
  have "compress_loop t ([], True) out = out" for t by (subst compress_loop.simps) simp
  with Nil assms(3) show ?thesis by (intro exI [of _ "[]"]) auto
next
  case (Cons x xs)
  with assms compress_encodes [OF assms(1), of False x xs] show ?thesis by (auto simp: to_u8_def)
qed

lemma extract_whole:
  assumes "encodes pk d" "at_end out"
  shows "\<exists>b. extract_loop (Some 0) pk out = (True, Some b, appended out d)"
  using assms unfolding encodes_def by (metis append_Nil2 extract_loop.simps(1))

lemma opened_fresh [simp]:
  "dev_room fs = None \<Longrightarrow> at_end (opened p [] fs)" "f_data (opened p [] fs) = []"
  "f_name (opened p [] fs) = p" "\<not> f_err (opened p [] fs)"
  by (simp_all add: opened_def at_end_def)

text \<open>The compressor and the extractor on the contents of files.\<close>

definition scratch :: cfile where
  "scratch = \<lparr>f_name = [], f_data = [], f_pos = 0, f_eof = False, f_err = False, f_bad = False,
              f_room = None\<rparr>"

definition rle_pack :: "byte list \<Rightarrow> byte list" where
  "rle_pack d = (let (c, s) = fgetc (d, False) in f_data (compress_loop (to_u8 c) s scratch))"

definition rle_unpack :: "byte list \<Rightarrow> byte list option" where
  "rle_unpack pk =
     (let (i_eof, j, out) = extract_loop (Some 0) pk scratch
      in if i_eof \<and> j \<noteq> None then Some (f_data out) else None)"

interpretation rle_file: codec rle_pack rle_unpack "\<lambda>d. d = [] \<or> last d \<noteq> 0xFF"
proof
  fix d :: "byte list"
  assume ok: "d = [] \<or> last d \<noteq> 0xFF"
  have scr: "at_end scratch" "f_data scratch = []" by (simp_all add: scratch_def at_end_def)
  obtain c s where f: "fgetc (d, False) = (c, s)" by (cases "fgetc (d, False)")
  obtain pk where "compress_loop (to_u8 c) s scratch = appended scratch pk" "encodes pk d"
    using compress_whole [OF scr(1) ok f] by blast
  then show "rle_unpack (rle_pack d) = Some d"
    using extract_whole [OF _ scr(1), of pk d] f scr(2) by (auto simp: rle_pack_def rle_unpack_def)
qed

text \<open>
  C30. Round trip through files: compressing a file and extracting the result gives a file with
  the same contents and no error, if the file is empty or does not end in the byte 0xFF.
\<close>

theorem rle_file_roundtrip:
  assumes "disk fs src = Some d" "d = [] \<or> last d \<noteq> 0xFF" "src \<noteq> mid" "mid \<noteq> dst"
    and "writable fs mid" "writable fs dst" "dev_room fs = None"
  shows "\<exists>fs1 fs2. rle_compress src mid fs = (0, fs1) \<and> rle_extract False mid dst fs1 = (0, fs2)
           \<and> disk fs2 dst = Some d"
proof -
  let ?out = "opened mid [] fs"
  obtain c s where f: "fgetc (d, False) = (c, s)" by (cases "fgetc (d, False)")
  obtain pk where pk: "compress_loop (to_u8 c) s ?out = appended ?out pk" "encodes pk d"
    using compress_whole [OF opened_fresh(1) assms(2) f] assms(7) by blast
  let ?fs1 = "fclose (appended ?out pk) (created mid fs)"
  have one: "rle_compress src mid fs = (0, ?fs1)"
    using assms(1,3,5) f pk(1) by (simp add: rle_compress_def fopen_wb_def)
  have fs1: "disk ?fs1 mid = Some pk" "writable ?fs1 dst" "dev_room ?fs1 = None"
    using assms(6,7) by (simp_all add: fclose_def created_def)
  obtain b where "extract_loop (Some 0) pk (opened dst [] ?fs1) = (True, Some b, appended (opened dst [] ?fs1) d)"
    using extract_whole [OF pk(2) opened_fresh(1) [OF fs1(3)]] by blast
  then have "rle_extract False mid dst ?fs1
      = (0, fclose (appended (opened dst [] ?fs1) d) (created dst ?fs1))"
    using fs1(1,2) assms(4) by (simp add: rle_extract_def fopen_wb_def)
  with one show ?thesis
    by (intro exI [of _ ?fs1] exI [of _ "fclose (appended (opened dst [] ?fs1) d) (created dst ?fs1)"])
      (simp add: fclose_def)
qed

lemma rle_file_roundtrip_witness:
  "\<exists>fs1 fs2. rle_compress [1] [2] (disk_with [1] (replicate 300 7 @ [1, 2, 3])) = (0, fs1)
     \<and> rle_extract False [2] [3] fs1 = (0, fs2) \<and> disk fs2 [3] = Some (replicate 300 7 @ [1, 2, 3])"
  by (rule rle_file_roundtrip) simp_all

lemma run_of_eof: "i < 130 \<Longrightarrow> run_loop 0xFF i ([], e) = (130, 0xFF, ([], True))"
proof (induction "130 - i" arbitrary: i e)
  case 0
  then show ?case by simp
next
  case (Suc n)
  show ?case
  proof (cases "i + 1 < 130")
    case True
    then show ?thesis
      using Suc.hyps(1) [of "i + 1" True] Suc.hyps(2) by (subst run_loop.simps) (simp add: to_u8_def)
  next
    case False
    with Suc.prems have "i = 129" by linarith
    then show ?thesis by (subst run_loop.simps) (simp add: to_u8_def)
  qed
qed

text \<open>
  A file that ends in 0xFF does not survive: at the end of the input \<open>fgetc\<close> keeps returning
  EOF, which looks like one more 0xFF, so the run is counted up to its limit. A file of the
  single byte 0xFF comes back as 129 of them, again without an error.
\<close>

theorem rle_file_ending_in_ff:
  "rle_pack [0xFF] = [255, 0xFF] \<and> rle_unpack (rle_pack [0xFF]) = Some (replicate 129 0xFF)"
proof -
  have scr: "at_end scratch" "f_data scratch = []" by (simp_all add: scratch_def at_end_def)
  have "compress_loop 0xFF ([], True) f = f" for f by (subst compress_loop.simps) simp
  then have "compress_loop 0xFF ([], False) scratch = appended scratch [255, 0xFF]"
    using run_of_eof [of 2] scr by (subst compress_loop.simps) (simp add: to_u8_def)
  then have pk: "rle_pack [0xFF] = [255, 0xFF]" using scr by (simp add: rle_pack_def to_u8_def)
  moreover have "rle_unpack [255, 0xFF] = Some (replicate 129 0xFF)"
    using extract_run [OF scr(1), where n = 129 and b = "0xFF" and inb = "[]" and j = "Some 0"] scr(2) by (simp add: rle_unpack_def)
  ultimately show ?thesis by simp
qed

end
