(* ===== verification/Plink_Rle.thy ===== *)
theory Plink_Rle
  imports Codec
begin

text \<open>
  \<open>PLINKRLE.C\<close>: the run length coding of the PLINK link. Runs of five or more equal bytes, and
  every byte 0xBB, become 0xBB, a 16-bit count and the byte. The buffers are C pointers without
  sizes: a buffer is the list of bytes from the pointer to the end of the memory that can be
  read, and reading past that end gives \<open>None\<close>.
\<close>

section \<open>Encoding\<close>

text \<open>The test of the \<open>if\<close>: 0xBB, or equal to the next four bytes, looked at one by one.\<close>

fun same_next :: "nat \<Rightarrow> byte \<Rightarrow> byte list \<Rightarrow> bool option" where
  "same_next 0 b m = Some True"
| "same_next (Suc k) b [] = None"
| "same_next (Suc k) b (c # m) = (if b = c then same_next k b m else Some False)"

text \<open>
  The \<open>while\<close> that counts a run: how many bytes of it, and \<open>len\<close> and the buffer after it. It
  looks at one byte more than it counts.
\<close>

fun count_run :: "byte \<Rightarrow> nat \<Rightarrow> byte list \<Rightarrow> (nat \<times> nat \<times> byte list) option" where
  "count_run dupl len [] = None"
| "count_run dupl len (b # m) =
     (if b = dupl \<and> 0 < len then
        map_option (\<lambda>(n, len1, m1). (n + 1, len1, m1)) (count_run dupl (len - 1) m)
      else Some (0, len, b # m))"

lemma count_run_len: "count_run dupl len m = Some (n, len1, m1) \<Longrightarrow> len = n + len1"
  by (induction dupl len m arbitrary: n rule: count_run.induct) (auto split: if_splits)

function rle_loop :: "nat \<Rightarrow> byte list \<Rightarrow> byte list option" where
  "rle_loop 0 m = Some []"
| "rle_loop (Suc len) [] = None"
| "rle_loop (Suc len) (b # m) =
     (case (if b = 0xBB then Some True else same_next 4 b m) of
        None \<Rightarrow> None
      | Some False \<Rightarrow> map_option ((#) b) (rle_loop len m)
      | Some True \<Rightarrow>
         (case count_run b len m of
            None \<Rightarrow> None
          | Some (n, len1, m1) \<Rightarrow>
              map_option ((@) [0xBB, of_nat (n + 1), of_nat ((n + 1) div 256), b])
                (rle_loop len1 m1)))"
  by pat_completeness auto
termination
  by (relation "measure fst") (auto dest: count_run_len)

text \<open>\<open>rle\<close>: the value of \<open>count\<close> (16 bits) and what was written to \<open>out_buffer\<close>.\<close>

definition rle :: "u16 \<Rightarrow> byte list \<Rightarrow> (u16 \<times> byte list) option" where
  "rle len in_buffer =
     map_option (\<lambda>out. (of_nat (length out), out)) (rle_loop (unat len) in_buffer)"

section \<open>Decoding\<close>

text \<open>The \<open>while\<close> of \<open>unrle\<close>; \<open>left\<close> is \<open>limit - in_buffer\<close>.\<close>

fun unrle_loop :: "nat \<Rightarrow> byte list \<Rightarrow> byte list option" where
  "unrle_loop 0 m = Some []"
| "unrle_loop left [] = None"
| "unrle_loop left (b # m) =
     (if b = 0xBB then
        (case m of
           lo # hi # c # m1 \<Rightarrow>
             map_option ((@) (replicate (unat lo + 256 * unat hi) c)) (unrle_loop (left - 4) m1)
         | _ \<Rightarrow> None)
      else map_option ((#) b) (unrle_loop (left - 1) m))"

definition unrle :: "u16 \<Rightarrow> byte list \<Rightarrow> (u16 \<times> byte list) option" where
  "unrle len in_buffer =
     map_option (\<lambda>out. (of_nat (length out), out)) (unrle_loop (unat len) in_buffer)"

section \<open>Round trip\<close>

lemma same_next_defined: "k \<le> length m \<Longrightarrow> \<exists>r. same_next k b m = Some r"
  by (induction k b m rule: same_next.induct) auto

text \<open>The run that is counted is made of the byte, and stops at \<open>len\<close>.\<close>

lemma count_run_defined:
  "len < length m \<Longrightarrow>
    \<exists>n len1. count_run dupl len m = Some (n, len1, drop n m) \<and> len = n + len1
      \<and> take n m = replicate n dupl"
proof (induction dupl len m rule: count_run.induct)
  case (2 dupl len b m)
  show ?case
  proof (cases "b = dupl \<and> 0 < len")
    case True
    with "2.prems" have "len - 1 < length m" by (simp add: less_diff_conv2)
    then obtain n len1 where "count_run dupl (len - 1) m = Some (n, len1, drop n m)"
      "len - 1 = n + len1" "take n m = replicate n dupl" using "2.IH" True by blast
    with True show ?thesis by (intro exI [of _ "Suc n"] exI [of _ len1]) auto
  next
    case False
    then show ?thesis by auto
  qed
qed simp

lemma word_count:
  assumes "n < 65536"
  shows "unat (of_nat n :: byte) + 256 * unat (of_nat (n div 256) :: byte) = n"
proof -
  have "n div 256 < 256" using assms by simp
  then show ?thesis by (simp add: unat_of_nat)
qed

lemma unrle_packet:
  assumes "n < 65536"
  shows "unrle_loop (left + 4) ([0xBB, of_nat n, of_nat (n div 256), b] @ m)
     = map_option ((@) (replicate n b)) (unrle_loop left m)"
proof -
  have one: "unrle_loop (Suc k) (0xBB # lo # hi # b # m)
      = map_option ((@) (replicate (unat lo + 256 * unat hi) b)) (unrle_loop (Suc k - 4) m)"
    for k lo hi by simp
  have "left + 4 = Suc (left + 3)" "Suc (left + 3) - 4 = left" by simp_all
  then show ?thesis
    using one [of "left + 3" "of_nat n" "of_nat (n div 256)"] word_count [OF assms]
    by (simp only: append.simps)
qed

lemma rle_loop_correct:
  "len + 4 \<le> length m \<Longrightarrow> len < 65536 \<Longrightarrow>
    \<exists>out. rle_loop len m = Some out \<and> length out \<le> 4 * len
      \<and> (\<forall>rest. unrle_loop (length out) (out @ rest) = Some (take len m))"
proof (induction len arbitrary: m rule: less_induct)
  case (less len)
  show ?case
  proof (cases len)
    case 0
    then show ?thesis by simp
  next
    case (Suc l)
    then obtain b ms where m: "m = b # ms" using less.prems(1) by (cases m) auto
    have l: "l + 4 \<le> length ms" using less.prems(1) Suc m by simp
    then obtain r where r: "same_next 4 b ms = Some r" using same_next_defined [of 4 ms b] by auto
    show ?thesis
    proof (cases "b = 0xBB \<or> r")
      case False
      obtain out where "rle_loop l ms = Some out" "length out \<le> 4 * l"
        "\<forall>rest. unrle_loop (length out) (out @ rest) = Some (take l ms)"
        using less.IH [of l ms] less.prems(2) Suc l by auto
      then show ?thesis using False r Suc m by auto
    next
      case True
      obtain n len1 where run: "count_run b l ms = Some (n, len1, drop n ms)" "l = n + len1"
        "take n ms = replicate n b" using count_run_defined [of l ms b] l by auto
      obtain out where out: "rle_loop len1 (drop n ms) = Some out" "length out \<le> 4 * len1"
        "\<forall>rest. unrle_loop (length out) (out @ rest) = Some (take len1 (drop n ms))"
        using less.IH [of len1 "drop n ms"] less.prems(2) Suc l run(2) by force
      let ?out = "[0xBB, of_nat (n + 1), of_nat ((n + 1) div 256), b] @ out"
      have "rle_loop len m = Some ?out" using True r Suc m run(1) out(1) by auto
      moreover have "length ?out \<le> 4 * len" using out(2) run(2) Suc by simp
      moreover have "unrle_loop (length ?out) (?out @ rest) = Some (take len m)" for rest
      proof -
        have "take len m = replicate (n + 1) b @ take len1 (drop n ms)"
          using Suc m run(2,3) by (simp add: take_add)
        moreover have "length ?out = length out + 4" by simp
        moreover have "n + 1 < 65536" using less.prems(2) Suc run(2) by simp
        ultimately show ?thesis
          using unrle_packet [of "n + 1" "length out" b "out @ rest"] out(3)
          by (simp only: append_assoc option.map)
      qed
      ultimately show ?thesis by blast
    qed
  qed
qed

text \<open>The coding of a whole buffer that has four readable bytes behind it.\<close>

definition plink_pack :: "byte list \<Rightarrow> byte list" where
  "plink_pack xs = (case rle_loop (length xs) (xs @ [0, 0, 0, 0]) of None \<Rightarrow> [] | Some out \<Rightarrow> out)"

interpretation plink: codec plink_pack "\<lambda>pk. unrle_loop (length pk) pk" "\<lambda>xs. length xs < 65536"
proof
  fix xs :: "byte list"
  assume "length xs < 65536"
  then obtain out where "rle_loop (length xs) (xs @ [0, 0, 0, 0]) = Some out"
    "\<forall>rest. unrle_loop (length out) (out @ rest) = Some (take (length xs) (xs @ [0, 0, 0, 0]))"
    using rle_loop_correct [of "length xs" "xs @ [0, 0, 0, 0]"] by auto
  moreover from this(2) have "unrle_loop (length out) out = Some xs"
    by (metis append_Nil2 append_eq_conv_conj)
  ultimately show "unrle_loop (length (plink_pack xs)) (plink_pack xs) = Some xs"
    by (simp add: plink_pack_def)
qed

text \<open>
  C29. Round trip: what \<open>rle\<close> writes for a buffer, \<open>unrle\<close> turns back into the buffer and its
  length, whatever lies behind either of them in memory, as long as four bytes behind the input
  can be read and the output is shorter than 65536 bytes (it is at most four times as long).
\<close>

theorem plink_rle_roundtrip:
  assumes "length xs < 65536" "4 \<le> length behind"
  shows "\<exists>count out. rle (of_nat (length xs)) (xs @ behind) = Some (count, out)
           \<and> length out \<le> 4 * length xs
           \<and> (length out < 65536 \<longrightarrow> unrle count (out @ rest) = Some (of_nat (length xs), xs))"
proof -
  have n: "unat (of_nat (length xs) :: u16) = length xs" using assms(1) by (simp add: unat_of_nat)
  obtain out where out: "rle_loop (length xs) (xs @ behind) = Some out" "length out \<le> 4 * length xs"
    "\<forall>rest. unrle_loop (length out) (out @ rest) = Some (take (length xs) (xs @ behind))"
    using rle_loop_correct [of "length xs" "xs @ behind"] assms by auto
  have "unrle (of_nat (length out)) (out @ rest) = Some (of_nat (length xs), xs)"
    if "length out < 65536"
  proof -
    have "unat (of_nat (length out) :: u16) = length out" using that by (simp add: unat_of_nat)
    then show ?thesis using out(3) by (simp add: unrle_def)
  qed
  then show ?thesis using out(1,2) n by (auto simp: rle_def)
qed

lemma plink_rle_roundtrip_witness:
  "\<exists>count out. rle (of_nat (length [1, 0xBB, 5, 5, 5, 5, 5, 5 :: byte])) ([1, 0xBB, 5, 5, 5, 5, 5, 5] @ [5, 5, 9, 9])
       = Some (count, out)
     \<and> length out \<le> 4 * length [1, 0xBB, 5, 5, 5, 5, 5, 5 :: byte]
     \<and> (length out < 65536 \<longrightarrow> unrle count (out @ [3])
          = Some (of_nat (length [1, 0xBB, 5, 5, 5, 5, 5, 5 :: byte]), [1, 0xBB, 5, 5, 5, 5, 5, 5]))"
  by (rule plink_rle_roundtrip) simp_all

text \<open>
  \<open>rle\<close> reads past its input: on a buffer with nothing readable behind it, every input that
  is not empty makes it look at a byte after the end.
\<close>

theorem plink_rle_reads_past_end:
  assumes "xs \<noteq> []" "length xs < 65536"
  shows "rle (of_nat (length xs)) xs = None"
proof -
  have run: "n < length m" if "count_run dupl (length m) m = Some (n, len1, m1)" for dupl n len1 and m m1 :: "byte list"
    using that by (induction m arbitrary: n) (auto split: if_splits)
  have "rle_loop (length xs) xs = None" using assms(1)
  proof (induction "length xs" arbitrary: xs rule: less_induct)
    case less
    obtain b ms where xs: "xs = b # ms" using less.prems by (cases xs) auto
    have rest: "rle_loop (length ys) ys = None" if "ys \<noteq> []" "length ys \<le> length ms" for ys
      using less.hyps [of ys] that xs by simp
    have lit: "rle_loop (length ms) ms = None" if "same_next 4 b ms = Some False"
      using that rest [of ms] by (cases ms) (simp_all add: eval_nat_numeral)
    have "map_option f (rle_loop len1 m1) = None"
      if "count_run b (length ms) ms = Some (n, len1, m1)" for n len1 m1 f
    proof -
      have n: "n < length ms" using run [OF that] .
      moreover have "length ms = n + len1" using count_run_len [OF that] .
      moreover have "m1 = drop n ms"
        using that by (induction ms arbitrary: n len1) (auto split: if_splits)
      ultimately show ?thesis using rest [of m1] by simp
    qed
    then show ?case
      using xs lit by (auto split: option.splits bool.splits)
  qed
  then show ?thesis using assms(2) by (simp add: rle_def unat_of_nat)
qed

lemma plink_rle_reads_past_end_witness: "rle (of_nat (length [1, 2, 3 :: byte])) [1, 2, 3] = None"
  by (rule plink_rle_reads_past_end) simp_all

end
