(* ===== verification/Plink_Crc.thy ===== *)
theory Plink_Crc
  imports Crc_Register
begin

text \<open>
  \<open>PLINKCRC.C\<close>: the CRC-32 of the PLINK link, with the remainders written out as a table. The
  register moves to the right; \<open>unsigned long\<close> values stay within 32 bits because of the mask.
\<close>

section \<open>The code\<close>

definition crc_32_tab :: "u32 list" where
  "crc_32_tab =
    [0x00000000, 0x77073096, 0xee0e612c, 0x990951ba, 0x076dc419, 0x706af48f,
     0xe963a535, 0x9e6495a3, 0x0edb8832, 0x79dcb8a4, 0xe0d5e91e, 0x97d2d988,
     0x09b64c2b, 0x7eb17cbd, 0xe7b82d07, 0x90bf1d91, 0x1db71064, 0x6ab020f2,
     0xf3b97148, 0x84be41de, 0x1adad47d, 0x6ddde4eb, 0xf4d4b551, 0x83d385c7,
     0x136c9856, 0x646ba8c0, 0xfd62f97a, 0x8a65c9ec, 0x14015c4f, 0x63066cd9,
     0xfa0f3d63, 0x8d080df5, 0x3b6e20c8, 0x4c69105e, 0xd56041e4, 0xa2677172,
     0x3c03e4d1, 0x4b04d447, 0xd20d85fd, 0xa50ab56b, 0x35b5a8fa, 0x42b2986c,
     0xdbbbc9d6, 0xacbcf940, 0x32d86ce3, 0x45df5c75, 0xdcd60dcf, 0xabd13d59,
     0x26d930ac, 0x51de003a, 0xc8d75180, 0xbfd06116, 0x21b4f4b5, 0x56b3c423,
     0xcfba9599, 0xb8bda50f, 0x2802b89e, 0x5f058808, 0xc60cd9b2, 0xb10be924,
     0x2f6f7c87, 0x58684c11, 0xc1611dab, 0xb6662d3d, 0x76dc4190, 0x01db7106,
     0x98d220bc, 0xefd5102a, 0x71b18589, 0x06b6b51f, 0x9fbfe4a5, 0xe8b8d433,
     0x7807c9a2, 0x0f00f934, 0x9609a88e, 0xe10e9818, 0x7f6a0dbb, 0x086d3d2d,
     0x91646c97, 0xe6635c01, 0x6b6b51f4, 0x1c6c6162, 0x856530d8, 0xf262004e,
     0x6c0695ed, 0x1b01a57b, 0x8208f4c1, 0xf50fc457, 0x65b0d9c6, 0x12b7e950,
     0x8bbeb8ea, 0xfcb9887c, 0x62dd1ddf, 0x15da2d49, 0x8cd37cf3, 0xfbd44c65,
     0x4db26158, 0x3ab551ce, 0xa3bc0074, 0xd4bb30e2, 0x4adfa541, 0x3dd895d7,
     0xa4d1c46d, 0xd3d6f4fb, 0x4369e96a, 0x346ed9fc, 0xad678846, 0xda60b8d0,
     0x44042d73, 0x33031de5, 0xaa0a4c5f, 0xdd0d7cc9, 0x5005713c, 0x270241aa,
     0xbe0b1010, 0xc90c2086, 0x5768b525, 0x206f85b3, 0xb966d409, 0xce61e49f,
     0x5edef90e, 0x29d9c998, 0xb0d09822, 0xc7d7a8b4, 0x59b33d17, 0x2eb40d81,
     0xb7bd5c3b, 0xc0ba6cad, 0xedb88320, 0x9abfb3b6, 0x03b6e20c, 0x74b1d29a,
     0xead54739, 0x9dd277af, 0x04db2615, 0x73dc1683, 0xe3630b12, 0x94643b84,
     0x0d6d6a3e, 0x7a6a5aa8, 0xe40ecf0b, 0x9309ff9d, 0x0a00ae27, 0x7d079eb1,
     0xf00f9344, 0x8708a3d2, 0x1e01f268, 0x6906c2fe, 0xf762575d, 0x806567cb,
     0x196c3671, 0x6e6b06e7, 0xfed41b76, 0x89d32be0, 0x10da7a5a, 0x67dd4acc,
     0xf9b9df6f, 0x8ebeeff9, 0x17b7be43, 0x60b08ed5, 0xd6d6a3e8, 0xa1d1937e,
     0x38d8c2c4, 0x4fdff252, 0xd1bb67f1, 0xa6bc5767, 0x3fb506dd, 0x48b2364b,
     0xd80d2bda, 0xaf0a1b4c, 0x36034af6, 0x41047a60, 0xdf60efc3, 0xa867df55,
     0x316e8eef, 0x4669be79, 0xcb61b38c, 0xbc66831a, 0x256fd2a0, 0x5268e236,
     0xcc0c7795, 0xbb0b4703, 0x220216b9, 0x5505262f, 0xc5ba3bbe, 0xb2bd0b28,
     0x2bb45a92, 0x5cb36a04, 0xc2d7ffa7, 0xb5d0cf31, 0x2cd99e8b, 0x5bdeae1d,
     0x9b64c2b0, 0xec63f226, 0x756aa39c, 0x026d930a, 0x9c0906a9, 0xeb0e363f,
     0x72076785, 0x05005713, 0x95bf4a82, 0xe2b87a14, 0x7bb12bae, 0x0cb61b38,
     0x92d28e9b, 0xe5d5be0d, 0x7cdcefb7, 0x0bdbdf21, 0x86d3d2d4, 0xf1d4e242,
     0x68ddb3f8, 0x1fda836e, 0x81be16cd, 0xf6b9265b, 0x6fb077e1, 0x18b74777,
     0x88085ae6, 0xff0f6a70, 0x66063bca, 0x11010b5c, 0x8f659eff, 0xf862ae69,
     0x616bffd3, 0x166ccf45, 0xa00ae278, 0xd70dd2ee, 0x4e048354, 0x3903b3c2,
     0xa7672661, 0xd06016f7, 0x4969474d, 0x3e6e77db, 0xaed16a4a, 0xd9d65adc,
     0x40df0b66, 0x37d83bf0, 0xa9bcae53, 0xdebb9ec5, 0x47b2cf7f, 0x30b5ffe9,
     0xbdbdf21c, 0xcabac28a, 0x53b39330, 0x24b4a3a6, 0xbad03605, 0xcdd70693,
     0x54de5729, 0x23d967bf, 0xb3667a2e, 0xc4614ab8, 0x5d681b02, 0x2a6f2b94,
     0xb40bbe37, 0xc30c8ea1, 0x5a05df1b, 0x2d02ef8d]"

text \<open>One turn of the \<open>for\<close> loop, and the function. \<open>size\<close> is a 16-bit number.\<close>

definition crc32_turn :: "u32 \<Rightarrow> byte \<Rightarrow> u32" where
  "crc32_turn crccode b =
     crc_32_tab ! unat ((crccode XOR ucast b) AND 0xFF) XOR (drop_bit 8 crccode AND 0x00FFFFFF)"

definition crc32 :: "byte list \<Rightarrow> u16 \<Rightarrow> u32" where
  "crc32 buf len = foldl crc32_turn 0xFFFFFFFF (take (unat len) buf)"

section \<open>The register behind it\<close>

definition plink_poly :: u32 where "plink_poly = 0xEDB88320"

text \<open>
  The remainders are linear: the table is spanned by the entries of the eight single bits.
\<close>

lemma lsb_entry_xor: "lsb_entry p (i XOR j) = lsb_entry p i XOR lsb_entry p j"
  by (simp add: lsb_entry_def ucast_xor lsb_steps_xor)

fun xor_span :: "u32 list \<Rightarrow> u32 list" where
  "xor_span [] = [0]"
| "xor_span (b # bs) = (let r = xor_span bs in r @ map (\<lambda>x. b XOR x) r)"

lemma bit_plus_rest:
  assumes "k < 8" "i < 2 ^ k"
  shows "(of_nat (2 ^ k + i) :: byte) = of_nat (2 ^ k) XOR of_nat i"
proof -
  have "\<not> bit (of_nat i :: byte) j" if "k \<le> j" for j
  proof -
    have "i < 2 ^ j" using assms(2) power_increasing [OF that, of "2 :: nat"] by linarith
    then have "\<not> bit i j" by (simp add: bit_iff_odd)
    then show ?thesis by (simp add: bit_of_nat_iff)
  qed
  then have "(2 ^ k :: byte) AND of_nat i = 0"
    by (intro bit_word_eqI) (auto simp: bit_and_iff bit_exp_iff)
  then show ?thesis by (simp add: disjunctive_add_eq_xor)
qed

lemma entries_span:
  "k \<le> 8 \<Longrightarrow> map (\<lambda>i. lsb_entry p (of_nat i)) [0..<2 ^ k]
     = xor_span (map (\<lambda>j. lsb_entry p (of_nat (2 ^ j))) (rev [0..<k]))"
proof (induction k)
  case 0
  have "(lsb_step p ^^ n) 0 = 0" for n by (induction n) (simp_all add: lsb_step_def)
  then show ?case by (simp add: lsb_entry_def)
next
  case (Suc k)
  have "map (\<lambda>i. i + 2 ^ k) [0..<2 ^ k] = [2 ^ k..<2 ^ k + 2 ^ k]" by (rule map_add_upt)
  then have "[0..<2 ^ Suc k] = [0..<2 ^ k] @ map (\<lambda>i. 2 ^ k + i) [0..<2 ^ k]"
    using upt_add_eq_append [of 0 "2 ^ k" "2 ^ k"] by (simp add: mult_2 add.commute)
  moreover have "map (\<lambda>i. lsb_entry p (of_nat (2 ^ k + i))) [0..<2 ^ k]
      = map (\<lambda>x. lsb_entry p (of_nat (2 ^ k)) XOR x) (map (\<lambda>i. lsb_entry p (of_nat i)) [0..<2 ^ k])"
    using bit_plus_rest [of k] Suc.prems by (simp add: lsb_entry_xor del: of_nat_add)
  moreover have "map (\<lambda>i. lsb_entry p (of_nat i)) [0..<2 ^ k]
      = xor_span (map (\<lambda>j. lsb_entry p (of_nat (2 ^ j))) (rev [0..<k]))" using Suc by simp
  ultimately show ?case by (simp only: map_append map_map comp_def upt_Suc_append le0 rev_append
      rev.simps append.simps list.map xor_span.simps Let_def)
qed

lemma crc_32_tab_span:
  "crc_32_tab = xor_span [lsb_entry plink_poly 128, lsb_entry plink_poly 64, lsb_entry plink_poly 32,
     lsb_entry plink_poly 16, lsb_entry plink_poly 8, lsb_entry plink_poly 4, lsb_entry plink_poly 2,
     lsb_entry plink_poly 1]"
  by code_simp

lemma crc_32_tab_entries: "crc_32_tab = map (\<lambda>i. lsb_entry plink_poly (of_nat i)) [0..<256]"
  using entries_span [of 8 plink_poly]
  by (simp add: crc_32_tab_span upt_rec eval_nat_numeral del: xor_span.simps)

definition plink_upd :: "u32 \<Rightarrow> byte \<Rightarrow> u32" where
  "plink_upd = lsb_upd plink_poly"

interpretation plink_crc: crc_register plink_upd 4
  unfolding plink_upd_def by (rule lsb_upd_crc_register) (simp_all add: plink_poly_def bit_iff_odd)

lemma bit_mask24: "bit (0xFFFFFF :: int) i \<longleftrightarrow> i < 24"
proof -
  have "(0xFFFFFF :: int) = mask 24" by (simp add: mask_eq_exp_minus_1)
  then show ?thesis by (simp only: bit_mask_iff possible_bit_int simp_thms)
qed

lemma crc32_turn_register: "crc32_turn c b = plink_upd c b"
proof -
  let ?i = "ucast c XOR b :: byte"
  have "(c XOR ucast b) AND 0xFF = ucast ?i"
  proof (rule bit_word_eqI)
    fix i assume "i < LENGTH(32)"
    show "bit ((c XOR ucast b) AND 0xFF) i = bit (ucast ?i :: u32) i"
      using \<open>i < LENGTH(32)\<close>
      by (auto simp: bit_ucast bit_and_iff bit_xor_iff bit_mask8 dest: bit_imp_le_length)
  qed
  moreover have "drop_bit 8 c AND 0x00FFFFFF = drop_bit 8 c"
  proof (rule bit_word_eqI)
    fix i assume "i < LENGTH(32)"
    show "bit (drop_bit 8 c AND 0x00FFFFFF) i = bit (drop_bit 8 c) i"
      by (auto simp: bit_and_iff bit_drop_bit_eq bit_mask24 dest: bit_imp_le_length)
  qed
  moreover have "crc_32_tab ! unat ?i = lsb_entry plink_poly ?i"
    using unsigned_less [of ?i, where 'a = nat]
    by (simp add: crc_32_tab_entries)
  ultimately show ?thesis
    by (simp add: crc32_turn_def plink_upd_def lsb_upd_table unat_ucast_up xor.commute)
qed

text \<open>
  The table that is written out in \<open>PLINKCRC.C\<close> holds, for every byte, the remainder of that
  byte by the polynomial 0xEDB88320, so that \<open>crc32\<close> is the bit-by-bit register fed with the
  first \<open>size\<close> bytes of the buffer.
\<close>

theorem plink_crc32_is_register:
  "(\<forall>i < 256. crc_32_tab ! i = (lsb_step 0xEDB88320 ^^ 8) (of_nat i))
   \<and> crc32 buf n = foldl (lsb_upd 0xEDB88320) 0xFFFFFFFF (take (unat n) buf)"
proof -
  have "crc_32_tab ! i = (lsb_step 0xEDB88320 ^^ 8) (of_nat i)" if "i < 256" for i
  proof -
    have "(ucast (of_nat i :: byte) :: u32) = of_nat (unat (of_nat i :: byte))" by simp
    also have "\<dots> = of_nat i" using that by (simp add: unat_of_nat)
    finally show ?thesis using that by (simp add: crc_32_tab_entries lsb_entry_def plink_poly_def)
  qed
  moreover have "crc32_turn = plink_upd" by (intro ext crc32_turn_register)
  ultimately show ?thesis by (simp add: crc32_def plink_upd_def plink_poly_def)
qed

lemma plink_crc32_is_register_witness:
  "(3 :: nat) < 256 \<and> crc_32_tab ! 3 = (lsb_step 0xEDB88320 ^^ 8) (of_nat 3)"
  using plink_crc32_is_register [of "[]" 0] by simp

text \<open>
  The CRC of the PLINK link tells two packets apart that differ in a burst of up to four
  bytes.
\<close>

theorem plink_crc32_detects_bursts:
  assumes "length bs = length cs" "length bs \<le> 4" "bs \<noteq> cs"
    and "length (xs @ bs @ ys) < 65536"
  shows "crc32 (xs @ bs @ ys) (of_nat (length (xs @ bs @ ys)))
       \<noteq> crc32 (xs @ cs @ ys) (of_nat (length (xs @ cs @ ys)))"
proof -
  have n: "unat (of_nat (length zs) :: u16) = length zs" if "length zs < 65536" for zs :: "byte list"
    using that by (simp add: unat_of_nat)
  have "length (xs @ cs @ ys) < 65536" using assms(1,4) by simp
  moreover have "crc32_turn = plink_upd" by (intro ext crc32_turn_register)
  ultimately show ?thesis
    using plink_crc.burst_detected [OF assms(1-3), of "0xFFFFFFFF" xs ys] assms(4)
    by (simp only: crc32_def n take_all_iff order_refl take_all simp_thms)
qed

lemma plink_crc32_detects_bursts_witness:
  "crc32 ([1] @ [2, 3, 4, 5] @ [6]) (of_nat (length ([1] @ [2, 3, 4, 5] @ [6 :: byte])))
     \<noteq> crc32 ([1] @ [2, 3, 4, 6] @ [6]) (of_nat (length ([1] @ [2, 3, 4, 6] @ [6 :: byte])))"
  by (rule plink_crc32_detects_bursts) simp_all

end
