(* ===== verification/Zmodem_Base.thy ===== *)
theory Zmodem_Base
  imports Transfer_World
begin

text \<open>
  The constants and static variables of \<open>zmodem.c\<close> as a record around the world of
  \<open>protocols.c\<close>, and its helpers: ending the transfer, statistics, timer, block size and the next
  file of a batch. The output buffer of the call and the two packet buffers are arrays with a
  count of the bytes in use: what lies behind the count stays where it is.
\<close>

section \<open>Constants\<close>

definition ZMODEM_BLOCK_SIZE :: nat where [simp]: "ZMODEM_BLOCK_SIZE = 1024"
definition ZMODEM_MAX_BLOCK_SIZE :: nat where
  [simp]: "ZMODEM_MAX_BLOCK_SIZE = 2 * (ZMODEM_BLOCK_SIZE + 4 + 1)"
definition WINDOW_SIZE_RELIABLE :: u32 where [simp]: "WINDOW_SIZE_RELIABLE = 32"
definition WINDOW_SIZE_UNRELIABLE :: u32 where [simp]: "WINDOW_SIZE_UNRELIABLE = 4"

text \<open>\<open>*\<close>, and the four ways a data subpacket ends: \<open>h\<close>, \<open>i\<close>, \<open>j\<close>, \<open>k\<close>.\<close>

definition ZPAD :: byte where [simp]: "ZPAD = 0x2A"
definition ZCRCE :: byte where [simp]: "ZCRCE = 0x68"
definition ZCRCG :: byte where [simp]: "ZCRCG = 0x69"
definition ZCRCQ :: byte where [simp]: "ZCRCQ = 0x6A"
definition ZCRCW :: byte where [simp]: "ZCRCW = 0x6B"
definition C_XON :: byte where [simp]: "C_XON = 0x11"
definition C_XOFF :: byte where [simp]: "C_XOFF = 0x13"

definition P_ZRQINIT :: byte where [simp]: "P_ZRQINIT = 0"
definition P_ZRINIT :: byte where [simp]: "P_ZRINIT = 1"
definition P_ZSINIT :: byte where [simp]: "P_ZSINIT = 2"
definition P_ZACK :: byte where [simp]: "P_ZACK = 3"
definition P_ZFILE :: byte where [simp]: "P_ZFILE = 4"
definition P_ZSKIP :: byte where [simp]: "P_ZSKIP = 5"
definition P_ZNAK :: byte where [simp]: "P_ZNAK = 6"
definition P_ZABORT :: byte where [simp]: "P_ZABORT = 7"
definition P_ZFIN :: byte where [simp]: "P_ZFIN = 8"
definition P_ZRPOS :: byte where [simp]: "P_ZRPOS = 9"
definition P_ZDATA :: byte where [simp]: "P_ZDATA = 10"
definition P_ZEOF :: byte where [simp]: "P_ZEOF = 11"
definition P_ZFERR :: byte where [simp]: "P_ZFERR = 12"
definition P_ZCRC :: byte where [simp]: "P_ZCRC = 13"
definition P_ZCHALLENGE :: byte where [simp]: "P_ZCHALLENGE = 14"
definition P_ZCOMPL :: byte where [simp]: "P_ZCOMPL = 15"
definition P_ZCAN :: byte where [simp]: "P_ZCAN = 16"
definition P_ZFREECNT :: byte where [simp]: "P_ZFREECNT = 17"
definition P_ZCOMMAND :: byte where [simp]: "P_ZCOMMAND = 18"

definition TX_CAN_FULL_DUPLEX :: u32 where [simp]: "TX_CAN_FULL_DUPLEX = 0x01"
definition TX_CAN_OVERLAP_IO :: u32 where [simp]: "TX_CAN_OVERLAP_IO = 0x02"
definition TX_CAN_BREAK :: u32 where [simp]: "TX_CAN_BREAK = 0x04"
definition TX_CAN_DECRYPT :: u32 where [simp]: "TX_CAN_DECRYPT = 0x08"
definition TX_CAN_LZW :: u32 where [simp]: "TX_CAN_LZW = 0x10"
definition TX_CAN_CRC32 :: u32 where [simp]: "TX_CAN_CRC32 = 0x20"
definition TX_ESCAPE_CTRL :: u32 where [simp]: "TX_ESCAPE_CTRL = 0x40"
definition TX_ESCAPE_8BIT :: u32 where [simp]: "TX_ESCAPE_8BIT = 0x80"

section \<open>State\<close>

datatype zstate =
    Z_INIT | Z_COMPLETE | Z_ABORT
  | ZDATA
  | ZRINIT | ZRINIT_WAIT | ZCHALLENGE | ZCHALLENGE_WAIT | ZRPOS | ZRPOS_WAIT | ZSKIP
  | ZCRC | ZCRC_WAIT
  | ZRQINIT | ZRQINIT_WAIT | ZSINIT | ZSINIT_WAIT | ZFILE | ZFILE_WAIT | ZEOF | ZEOF_WAIT
  | ZFIN | ZFIN_WAIT

text \<open>
  \<open>struct zmodem_packet\<close>. \<open>crc16\<close> is a C \<open>int\<close> that only holds 16-bit values.
\<close>

record zpacket =
  p_type :: byte
  p_argument :: u32
  p_use_crc32 :: bool
  p_crc16 :: u32
  p_crc32 :: u32
  p_data :: "byte list"
  p_data_n :: nat
  p_crc_buffer :: "byte list"

definition empty_packet :: zpacket where
  "empty_packet =
     \<lparr>p_type = 0, p_argument = 0, p_use_crc32 = False, p_crc16 = 0, p_crc32 = 0,
      p_data = replicate ZMODEM_MAX_BLOCK_SIZE 0, p_data_n = 0, p_crc_buffer = replicate 5 0\<rparr>"

text \<open>
  \<open>struct ZMODEM_STATUS\<close> and the other static variables, two options of \<open>q_status\<close>, the value a
  random number source would give, and the output buffer of the current call. All flags the
  program uses fit in 32 bits.
\<close>

record zmodem =
  world :: xfer
  zescape_ctrl_option :: bool      \<comment> \<open>\<open>q_status.zmodem_escape_ctrl\<close>\<close>
  zchallenge_option :: bool        \<comment> \<open>\<open>q_status.zmodem_zchallenge\<close>\<close>
  random_value :: u32
  z_state :: zstate
  z_prior_state :: zstate
  z_flags :: u32
  z_use_crc32 :: bool
  z_sending :: bool
  z_file_name :: "path option"
  z_file_size :: u32
  z_file_modtime :: int
  z_file_position :: int
  z_file_stream :: "cfile option"
  z_file_crc32 :: u32
  z_block_size :: int
  z_ack_required :: bool
  z_waiting_for_ack :: bool
  z_streaming_zdata :: bool
  z_timeout_length :: int
  z_timeout_begin :: int
  z_timeout_max :: int
  z_timeout_count :: int
  z_confirmed_bytes :: int
  z_last_confirmed_bytes :: int
  z_reliable_link :: bool
  z_file_position_downgrade :: int
  z_blocks_ack_count :: u32
  z_consecutive_errors :: int
  z_file_fullname :: path
  z_upload_file_list :: "file_info list option"
  z_upload_file_list_i :: nat
  z_download_path :: "path option"
  packet :: zpacket
  packet_buffer :: "byte list"
  packet_buffer_n :: nat
  outbound_packet :: "byte list"
  outbound_packet_n :: nat
  encode_byte_map :: "byte list"
  z_crc_32_tab :: "u32 list"
  zchallenge_value :: u32
  can_count :: nat
  out_buffer :: "byte list"
  out_n :: nat

text \<open>
  The static initializer. It has one value less than the structure has members, so its
  \<open>Q_TRUE\<close>, meant for \<open>reliable_link\<close>, lands in \<open>last_confirmed_bytes\<close>; \<open>zmodem_start\<close> sets both.
\<close>

definition zmodem_initial :: "xfer \<Rightarrow> zmodem" where
  "zmodem_initial w =
     \<lparr>world = w, zescape_ctrl_option = False, zchallenge_option = False, random_value = 0,
      z_state = Z_INIT, z_prior_state = Z_INIT, z_flags = 0, z_use_crc32 = True, z_sending = False,
      z_file_name = None, z_file_size = 0, z_file_modtime = 0, z_file_position = 0,
      z_file_stream = None, z_file_crc32 = -1, z_block_size = 1024, z_ack_required = False,
      z_waiting_for_ack = False, z_streaming_zdata = False, z_timeout_length = 10,
      z_timeout_begin = 0, z_timeout_max = 5, z_timeout_count = 0, z_confirmed_bytes = 0,
      z_last_confirmed_bytes = 1, z_reliable_link = False, z_file_position_downgrade = 0,
      z_blocks_ack_count = 0, z_consecutive_errors = 0, z_file_fullname = [],
      z_upload_file_list = None, z_upload_file_list_i = 0, z_download_path = None,
      packet = empty_packet, packet_buffer = replicate ZMODEM_MAX_BLOCK_SIZE 0, packet_buffer_n = 0,
      outbound_packet = replicate ZMODEM_MAX_BLOCK_SIZE 0, outbound_packet_n = 0,
      encode_byte_map = replicate 256 0, z_crc_32_tab = replicate 256 0, zchallenge_value = 0,
      can_count = 0, out_buffer = replicate (nat Q_BUFFER_SIZE) 0, out_n = 0\<rparr>"

section \<open>Ending a transfer, statistics, timer\<close>

definition z_message :: "string \<Rightarrow> zmodem \<Rightarrow> zmodem" where
  "z_message m z = z\<lparr>world := set_transfer_stats_last_message (Msg m) (world z)\<rparr>"

definition z_stats :: "(tstats \<Rightarrow> tstats) \<Rightarrow> zmodem \<Rightarrow> zmodem" where
  "z_stats f z = z\<lparr>world := (world z)\<lparr>stats := f (stats (world z))\<rparr>\<rparr>"

definition z_fclose :: "zmodem \<Rightarrow> zmodem" where
  "z_fclose z =
     (case z_file_stream z of
        None \<Rightarrow> z
      | Some f \<Rightarrow> z\<lparr>world := (world z)\<lparr>fsys := fclose f (fsys (world z))\<rparr>\<rparr>)"

definition zmodem_stop :: "bool \<Rightarrow> zmodem \<Rightarrow> zmodem" where
  "zmodem_stop save_partial z =
     (let z1 = z_fclose z;
          z2 = (if save_partial \<or> z_sending z \<or> z_file_stream z = None then z1
                else case z_file_name z of
                  None \<Rightarrow> z1
                | Some p \<Rightarrow> z1\<lparr>world := (world z1)\<lparr>fsys := unlink p (fsys (world z1))\<rparr>\<rparr>)
      in z2\<lparr>z_file_stream := None, z_file_name := None, z_download_path := None\<rparr>)"

text \<open>\<open>stop_file_transfer\<close>, with the part of the switch that calls back into \<open>zmodem.c\<close>.\<close>

definition z_stop_file_transfer :: "q_transfer_state \<Rightarrow> zmodem \<Rightarrow> zmodem" where
  "z_stop_file_transfer q z =
     (let z1 = (if ts_protocol (stats (world z)) = Q_PROTOCOL_ZMODEM then zmodem_stop True z else z)
      in z1\<lparr>world := stop_file_transfer q (world z1)\<rparr>)"

definition z_abort :: "zmodem \<Rightarrow> zmodem" where
  "z_abort z = z_stop_file_transfer Q_TRANSFER_STATE_ABORT (z\<lparr>z_state := Z_ABORT\<rparr>)"

definition z_stats_new_file :: "path \<Rightarrow> int \<Rightarrow> zmodem \<Rightarrow> zmodem" where
  "z_stats_new_file fname filesize z =
     (let z1 = z_message '''' (z\<lparr>z_confirmed_bytes := 0, z_last_confirmed_bytes := 0\<rparr>)
      in z_stats (\<lambda>t. t\<lparr>ts_blocks_transfer := 0, ts_bytes_transfer := 0, ts_error_count := 0,
             ts_bytes_total := word_of_int filesize,
             ts_blocks := word_of_int (c_quot filesize 1024)
                          + (if 0 < c_rem filesize 1024 then 1 else 0),
             ts_filename := Some (basename fname), ts_pathname := Some (dirname fname),
             ts_state := Q_TRANSFER_STATE_TRANSFER,
             ts_file_start_time := now (world z1)\<rparr>) z1)"

definition z_stats_increment_blocks :: "zmodem \<Rightarrow> zmodem" where
  "z_stats_increment_blocks z =
     (z_stats (\<lambda>t. t\<lparr>ts_block_size := word_of_int (z_block_size z),
           ts_blocks_transfer := word_of_int (c_quot (z_file_position z) 1024)
                                 + (if 0 < c_rem (z_file_position z) 1024 then 1 else 0)\<rparr>) z)
       \<lparr>z_consecutive_errors := 0\<rparr>"

definition z_stats_increment_errors :: "string \<Rightarrow> zmodem \<Rightarrow> zmodem" where
  "z_stats_increment_errors m z =
     (let z1 = (z_stats (\<lambda>t. t\<lparr>ts_error_count := ts_error_count t + 1,
                              ts_block_size := word_of_int (z_block_size z)\<rparr>) (z_message m z))
                 \<lparr>z_consecutive_errors := z_consecutive_errors z + 1, z_reliable_link := False\<rparr>
      in if 15 \<le> z_consecutive_errors z1 \<and> z_state z1 \<noteq> ZDATA then
           (z_stop_file_transfer Q_TRANSFER_STATE_ABORT (z_message ''LINE NOISE, !@#&*%U'' z1))
             \<lparr>z_state := Z_ABORT\<rparr>
         else z1)"

definition z_reset_timer :: "zmodem \<Rightarrow> zmodem" where
  "z_reset_timer z = z\<lparr>z_timeout_begin := now (world z)\<rparr>"

definition z_check_timeout :: "zmodem \<Rightarrow> bool \<times> zmodem" where
  "z_check_timeout z =
     (if z_timeout_length z \<le> now (world z) - z_timeout_begin z then
        (let z1 = z\<lparr>z_timeout_count := z_timeout_count z + 1\<rparr>;
             z2 = (if z_timeout_max z1 \<le> z_timeout_count z1 then
                     z_stop_file_transfer Q_TRANSFER_STATE_ABORT
                       (z_stats_increment_errors ''TOO MANY TIMEOUTS, TRANSFER CANCELLED'' z1)
                       \<lparr>z_state := Z_ABORT\<rparr>
                   else z_stats_increment_errors ''TIMEOUT'' z1)
         in (True, z_reset_timer z2))
      else (False, z))"

section \<open>Block size\<close>

definition block_size_up :: "zmodem \<Rightarrow> zmodem" where
  "block_size_up z =
     (let z1 = (if 8196 < z_confirmed_bytes z - z_file_position_downgrade z then
                  z\<lparr>z_block_size := (if 1024 < c_int (z_block_size z * 2) then 1024
                                     else c_int (z_block_size z * 2))\<rparr>
                else z)
      in z1\<lparr>z_last_confirmed_bytes := z_confirmed_bytes z1\<rparr>)"

text \<open>The division by \<open>block_size\<close> stops the program when it is zero.\<close>

definition block_size_down :: "zmodem \<Rightarrow> fault + zmodem" where
  "block_size_down z =
     (if z_block_size z = 0 then Inl Division_by_zero
      else
       (let outstanding = c_quot (c_int (z_confirmed_bytes z - z_last_confirmed_bytes z)) (z_block_size z);
            z1 = (if 3 \<le> outstanding \<and> 32 < z_block_size z then
                    z\<lparr>z_block_size := c_quot (z_block_size z) 2,
                      z_file_position_downgrade := z_confirmed_bytes z\<rparr>
                  else z);
            z2 = (if 10 \<le> outstanding \<and> z_block_size z1 = 32 then
                    z_message ''LINE NOISE, !@#&*%U'' (z_abort z1)
                  else z1)
        in Inr (z2\<lparr>z_blocks_ack_count := WINDOW_SIZE_UNRELIABLE,
                   z_last_confirmed_bytes := z_confirmed_bytes z2\<rparr>)))"

section \<open>The next file of a batch\<close>

definition z_setup_for_next_file :: "zmodem \<Rightarrow> fault + bool \<times> zmodem" where
  "z_setup_for_next_file z =
     (let z1 = (z_fclose z)\<lparr>z_file_stream := None, z_file_name := None\<rparr> in
      case z_upload_file_list z1 of
        None \<Rightarrow> Inl Null_pointer
      | Some l \<Rightarrow>
         (if length l \<le> z_upload_file_list_i z1 then Inl Buffer_overflow
          else
           (let fi = l ! z_upload_file_list_i z1 in
            case fi_name fi of
              None \<Rightarrow>
                Inr (True, (z_stats (\<lambda>t. t\<lparr>ts_batch_bytes_transfer := ts_batch_bytes_total t\<rparr>) z1)
                             \<lparr>z_state := ZFIN\<rparr>)
            | Some p \<Rightarrow>
               (let z2 = z1\<lparr>z_file_modtime := fi_mtime fi, z_file_size := word_of_int (fi_size fi)\<rparr> in
                case fopen_rb p (fsys (world z2)) of
                  None \<Rightarrow> Inr (False, z_message ''DISK I/O ERROR'' (z_abort z2))
                | Some f \<Rightarrow>
                   (let z3 = z_stats_new_file p (c_int (fi_size fi))
                               (z2\<lparr>z_file_stream := Some f, z_file_name := Some (basename p)\<rparr>)
                    in Inr (True,
                         if z_state z3 \<noteq> Z_ABORT then
                           (z_stats (\<lambda>t. t\<lparr>ts_state := Q_TRANSFER_STATE_TRANSFER\<rparr>) z3)
                             \<lparr>z_state := ZFILE\<rparr>
                         else z3))))))"

end
