(* ===== verification/Zmodem_Codec.thy ===== *)
theory Zmodem_Codec
  imports Zmodem_Base Codec Xmodem_Crc Plink_Crc
begin

text \<open>
  The byte layer of \<open>zmodem.c\<close>: both CRCs with the table \<open>makecrc\<close> builds, hexadecimal, the
  escaping of bytes, and data subpackets. Escaping and unescaping is an interpretation of
  \<open>stream_codec\<close>.
\<close>

section \<open>CRCs\<close>

text \<open>\<open>compute_crc16\<close>: the routine of \<open>xmodem.c\<close>, copied, with a start value.\<close>

definition compute_crc16 :: "u32 \<Rightarrow> byte list \<Rightarrow> u32" where
  "compute_crc16 crc bs = foldl calcrc_byte crc bs AND 0xFFFF"

definition CRC32 :: u32 where "CRC32 = 0xEDB88320"

definition crc_halve :: "u32 \<Rightarrow> u32" where
  "crc_halve h = (if h AND 1 \<noteq> 0 then drop_bit 1 h XOR CRC32 else drop_bit 1 h)"

text \<open>One pass of \<open>makecrc\<close> with \<open>j = 2 ^ k\<close>, and the passes for \<open>j = 128, 64, ..., 1\<close>.\<close>

definition makecrc_pass :: "nat \<Rightarrow> u32 \<Rightarrow> u32 list \<Rightarrow> u32 list" where
  "makecrc_pass j h tab =
     foldl (\<lambda>t m. t[m * (j + j) + j := t ! (m * (j + j)) XOR h]) tab [0..<256 div (j + j)]"

fun makecrc_loop :: "nat \<Rightarrow> u32 \<Rightarrow> u32 list \<Rightarrow> u32 list" where
  "makecrc_loop 0 h tab = tab"
| "makecrc_loop (Suc k) h tab = makecrc_loop k (crc_halve h) (makecrc_pass (2 ^ k) (crc_halve h) tab)"

definition makecrc :: "u32 list \<Rightarrow> u32 list" where
  "makecrc tab = makecrc_loop 8 1 (tab[0 := 0])"

text \<open>\<open>compute_crc32\<close> without a buffer gives the preset, with one it feeds it and inverts.\<close>

definition crc32_preset :: u32 where "crc32_preset = 0xFFFFFFFF"

definition compute_crc32 :: "u32 list \<Rightarrow> u32 \<Rightarrow> byte list \<Rightarrow> u32" where
  "compute_crc32 tab old_crc buf =
     foldl (\<lambda>crc b. drop_bit 8 crc XOR tab ! unat ((crc XOR ucast b) AND 0xFF)) old_crc buf
       XOR 0xFFFFFFFF"

section \<open>Hexadecimal\<close>

definition hex_digit :: "byte \<Rightarrow> byte" where
  "hex_digit d = (if d < 10 then 48 + d else 97 + (d - 10))"

definition hexify_string :: "byte list \<Rightarrow> byte list" where
  "hexify_string bs =
     concat (map (\<lambda>b. [hex_digit (drop_bit 4 (b AND 0xF0)), hex_digit (b AND 0x0F)]) bs)"

text \<open>The value of one digit, after \<open>tolower\<close>.\<close>

definition to_lower_byte :: "byte \<Rightarrow> byte" where
  "to_lower_byte c = (if 65 \<le> c \<and> c \<le> 90 then c + 32 else c)"

definition hex_value :: "byte \<Rightarrow> byte option" where
  "hex_value c =
     (let ch = to_lower_byte c in
      if 48 \<le> ch \<and> ch \<le> 57 then Some (ch - 48)
      else if 97 \<le> ch \<and> ch \<le> 102 then Some (ch - 97 + 0x0A)
      else None)"

text \<open>\<open>dehexify_string\<close> on an even number of digits: \<open>None\<close> for an invalid string.\<close>

fun dehexify_string :: "byte list \<Rightarrow> byte list option" where
  "dehexify_string [] = Some []"
| "dehexify_string [c] = None"
| "dehexify_string (c # d # cs) =
     (case (hex_value c, hex_value d) of
        (Some h, Some l) \<Rightarrow> map_option ((#) (push_bit 4 h OR l)) (dehexify_string cs)
      | _ \<Rightarrow> None)"

section \<open>Escaping\<close>

text \<open>One entry of the table \<open>setup_encode_byte_map\<close> fills.\<close>

definition must_encode :: "u32 \<Rightarrow> byte \<Rightarrow> bool" where
  "must_encode flags ch \<longleftrightarrow>
     ch \<in> {C_CAN, C_XON, C_XOFF, C_XON OR 0x80, C_XOFF OR 0x80}
     \<or> (ch < 0x20 \<and> flags AND TX_ESCAPE_CTRL \<noteq> 0)
     \<or> (0x80 \<le> ch \<and> ch < 0xA0)
     \<or> (ch AND 0x80 \<noteq> 0 \<and> flags AND TX_ESCAPE_8BIT \<noteq> 0)"

definition encode_entry :: "u32 \<Rightarrow> byte \<Rightarrow> byte" where
  "encode_entry flags ch =
     (if must_encode flags ch then ch OR 0x40
      else if ch = 0x7F then 0x6C
      else if ch = 0xFF then 0x6D
      else ch)"

definition encode_map :: "u32 \<Rightarrow> byte list" where
  "encode_map flags = map (\<lambda>i. encode_entry flags (of_nat i)) [0..<256]"

definition setup_encode_byte_map :: "zmodem \<Rightarrow> zmodem" where
  "setup_encode_byte_map z = z\<lparr>encode_byte_map := encode_map (z_flags z)\<rparr>"

text \<open>What \<open>encode_byte\<close> puts out for a byte.\<close>

definition encoded :: "byte list \<Rightarrow> byte \<Rightarrow> byte list" where
  "encoded emap ch =
     (let new_ch = emap ! unat ch in if new_ch \<noteq> ch then [C_CAN, new_ch] else [ch])"

text \<open>
  An output buffer: the array and the number of bytes in use. Every caller passes the size of
  the array as \<open>output_max\<close>. \<open>put_raw\<close> is a plain store behind the bytes in use.
\<close>

type_synonym obuf = "byte list \<times> nat"

fun put_raw :: "byte list \<Rightarrow> obuf \<Rightarrow> fault + obuf" where
  "put_raw bs (arr, n) =
     (if length arr < n + length bs then Inl Buffer_overflow else Inr (blit n bs arr, n + length bs))"

fun encode_byte :: "byte list \<Rightarrow> byte \<Rightarrow> obuf \<Rightarrow> fault + obuf" where
  "encode_byte emap ch (arr, n) =
     (if length arr < n + 2 then Inl Assert_failed else put_raw (encoded emap ch) (arr, n))"

fun encode_bytes :: "byte list \<Rightarrow> byte list \<Rightarrow> obuf \<Rightarrow> fault + obuf" where
  "encode_bytes emap [] ob = Inr ob"
| "encode_bytes emap (b # bs) ob = bind_res (encode_byte emap b ob) (encode_bytes emap bs)"

section \<open>Data subpackets\<close>

text \<open>The bytes of a number, least significant first, and most significant first.\<close>

definition le_bytes :: "nat \<Rightarrow> u32 \<Rightarrow> byte list" where
  "le_bytes k w = map (\<lambda>i. ucast (drop_bit (8 * i) w AND 0xFF)) [0..<k]"

definition be_bytes :: "nat \<Rightarrow> u32 \<Rightarrow> byte list" where
  "be_bytes k w = rev (le_bytes k w)"

text \<open>The CRC of a subpacket, computed byte by byte with an inversion of every result.\<close>

definition data_crc32 :: "u32 list \<Rightarrow> byte list \<Rightarrow> byte \<Rightarrow> u32" where
  "data_crc32 tab bs crc_type =
     (let c = foldl (\<lambda>crc b. NOT (compute_crc32 tab crc [b])) crc32_preset bs;
          c1 = NOT (compute_crc32 tab c [crc_type])
      in NOT c1)"

definition subpacket_crc :: "u32 list \<Rightarrow> zpacket \<Rightarrow> byte \<Rightarrow> byte list" where
  "subpacket_crc tab p crc_type =
     (let data = take (p_data_n p) (p_data p) in
      if p_use_crc32 p \<and> p_type p \<noteq> P_ZSINIT then le_bytes 4 (data_crc32 tab data crc_type)
      else be_bytes 2 (compute_crc16 (compute_crc16 0 data) [crc_type]))"

definition encode_zdata_bytes :: "byte list \<Rightarrow> u32 list \<Rightarrow> zpacket \<Rightarrow> byte \<Rightarrow> obuf \<Rightarrow> fault + obuf" where
  "encode_zdata_bytes emap tab p crc_type ob =
     bind_res (encode_bytes emap (take (p_data_n p) (p_data p)) ob) (\<lambda>ob1.
     bind_res (put_raw [C_CAN, crc_type] ob1) (\<lambda>ob2.
     bind_res (encode_bytes emap (subpacket_crc tab p crc_type) ob2) (\<lambda>ob3.
       if crc_type = ZCRCW then put_raw [C_XON] ob3 else Inr ob3)))"

text \<open>The quick scan of \<open>decode_zdata_bytes\<close> for the end of a subpacket.\<close>

definition crc_escapes :: "byte list" where
  "crc_escapes = [ZCRCE, ZCRCG, ZCRCQ, ZCRCW]"

fun has_crc_escape :: "byte list \<Rightarrow> bool" where
  "has_crc_escape [] = False"
| "has_crc_escape [c] = False"
| "has_crc_escape (c # d # cs) =
     (if c = C_CAN then d \<in> set crc_escapes \<or> has_crc_escape cs else has_crc_escape (d # cs))"

text \<open>What a CAN and the byte after it stand for: a byte, a cancel, or nothing.\<close>

datatype escape = Plain byte | Cancel | Nothing

definition unescape :: "byte \<Rightarrow> escape" where
  "unescape d =
     (if d = 0x6C then Plain 0x7F
      else if d = 0x6D then Plain 0xFF
      else if d AND 0x40 \<noteq> 0 then Plain (d AND 0xBF)
      else if d = C_CAN then Cancel
      else Nothing)"

text \<open>
  The big loop. \<open>doing_crc\<close>: \<open>None\<close> while data is copied, then the bytes that are in \<open>crc_buffer\<close>;
  \<open>w\<close> is how many it takes. The outcome has the data, the bytes of the CRC buffer, and for a
  complete subpacket the input behind it.
\<close>

datatype zdecode =
    Subpacket "byte list" "byte list" "byte list"
  | Short "byte list" "byte list"
  | Cancelled "byte list" "byte list"

fun emit_byte :: "byte \<Rightarrow> byte list \<Rightarrow> byte list option \<Rightarrow> byte list \<times> byte list option" where
  "emit_byte b out None = (out @ [b], None)"
| "emit_byte b out (Some crc) = (out, Some (crc @ [b]))"

definition crc_bytes :: "byte list option \<Rightarrow> byte list" where
  "crc_bytes crc = (case crc of None \<Rightarrow> [] | Some bs \<Rightarrow> bs)"

definition crc_complete :: "nat \<Rightarrow> byte list option \<Rightarrow> bool" where
  "crc_complete w crc \<longleftrightarrow> crc \<noteq> None \<and> length (crc_bytes crc) = w"

function decode_loop :: "nat \<Rightarrow> byte list \<Rightarrow> byte list \<Rightarrow> byte list option \<Rightarrow> zdecode" where
  "decode_loop w [] out crc = Short out (crc_bytes crc)"
| "decode_loop w (c # cs) out crc =
     (if c = C_CAN then
       (case cs of
          [] \<Rightarrow> Short out (crc_bytes crc)
        | d # ds \<Rightarrow>
           if d \<in> set crc_escapes then
             (if crc \<noteq> None then Short out (crc_bytes crc) else decode_loop w (d # ds) out (Some []))
           else
            (case unescape d of
               Cancel \<Rightarrow> Cancelled out (crc_bytes crc)
             | Nothing \<Rightarrow> decode_loop w ds out crc
             | Plain b \<Rightarrow>
                (let (out1, crc1) = emit_byte b out crc in
                 if crc_complete w crc1 then Subpacket out1 (crc_bytes crc1) ds
                 else decode_loop w ds out1 crc1)))
      else
       (let (out1, crc1) = emit_byte c out crc in
        if crc_complete w crc1 then Subpacket out1 (crc_bytes crc1) cs
        else decode_loop w cs out1 crc1))"
  by pat_completeness auto
termination by (relation "measure (\<lambda>(w, cs, out, crc). length cs)") auto

text \<open>
  \<open>decode_zdata_bytes\<close> as \<open>receive_zdata\<close> calls it: from \<open>packet_buffer\<close> into \<open>packet.data\<close> from
  \<open>packet.data_n\<close> on. After a ZCRCW the code looks at the byte behind the subpacket without
  asking whether it has arrived: it may be one that is left over in the buffer, and if that is
  an XON, \<open>*input_n - i\<close> wraps around and \<open>memmove\<close> is told to move four gigabytes.
\<close>

definition z_decoded :: "byte list \<Rightarrow> byte list \<Rightarrow> zmodem \<Rightarrow> zmodem" where
  "z_decoded out crc z =
     z\<lparr>packet := (packet z)\<lparr>p_data := blit (p_data_n (packet z)) out (p_data (packet z)),
                            p_data_n := length out,
                            p_crc_buffer := blit 0 crc (p_crc_buffer (packet z))\<rparr>\<rparr>"

definition drop_input :: "nat \<Rightarrow> zmodem \<Rightarrow> zmodem" where
  "drop_input i z =
     z\<lparr>packet_buffer := blit 0 (slice i (packet_buffer_n z - i) (packet_buffer z)) (packet_buffer z),
       packet_buffer_n := packet_buffer_n z - i\<rparr>"

definition decode_zdata_bytes :: "zmodem \<Rightarrow> fault + bool \<times> zmodem" where
  "decode_zdata_bytes z =
     (let n = packet_buffer_n z; input = take n (packet_buffer z); off = p_data_n (packet z) in
      if 2 * (ZMODEM_MAX_BLOCK_SIZE - off) < n then Inl Assert_failed
      else if \<not> has_crc_escape input then Inr (False, z)
      else
       (case decode_loop (if p_use_crc32 (packet z) then 5 else 3) input [] None of
          Short out crc \<Rightarrow>
            if ZMODEM_MAX_BLOCK_SIZE < off + length out then Inl Buffer_overflow
            else Inr (False, z_decoded out crc z)
        | Cancelled out crc \<Rightarrow>
            if ZMODEM_MAX_BLOCK_SIZE < off + length out then Inl Buffer_overflow
            else Inr (False, z_stop_file_transfer Q_TRANSFER_STATE_ABORT
                   (z_message ''TRANSFER CANCELLED BY SENDER'' ((z_decoded out crc z)\<lparr>z_state := Z_ABORT\<rparr>)))
        | Subpacket out crc rest \<Rightarrow>
            if ZMODEM_MAX_BLOCK_SIZE < off + length out then Inl Buffer_overflow
            else
             (let i = n - length rest; z1 = z_decoded out crc z in
              if hd crc \<noteq> ZCRCW then Inr (True, drop_input i z1)
              else if length (packet_buffer z) \<le> i then Inl Buffer_overflow
              else if packet_buffer z ! i \<noteq> C_XON then Inr (True, drop_input i z1)
              else if n < i + 1 then Inl Buffer_overflow
              else Inr (True, drop_input (i + 1) z1))))"

end
