(* ===== verification/Zmodem_Crc.thy ===== *)
theory Zmodem_Crc
  imports Zmodem_Codec
begin

text \<open>
  The CRCs of Zmodem: the table \<open>makecrc\<close> builds by doubling is the table of remainders, so
  \<open>compute_crc32\<close> is the bit-by-bit register, and inverting after every byte, as the code does
  for data, gives the same value as computing it at once.
\<close>

section \<open>The table\<close>

lemma crc_halve_step: "crc_halve h = lsb_step CRC32 h"
proof -
  have "h AND 1 \<noteq> 0 \<longleftrightarrow> bit h 0"
    using and_exp_eq_0_iff_not_bit [of h 0] by simp
  then show ?thesis by (simp add: crc_halve_def lsb_step_def)
qed

lemma length_makecrc_pass [simp]: "length (makecrc_pass j h t) = length t"
proof -
  have "length (foldl (\<lambda>t m. t[m * (j + j) + j := t ! (m * (j + j)) XOR h]) t ms) = length t" for ms
    by (induction ms arbitrary: t) simp_all
  then show ?thesis by (simp add: makecrc_pass_def)
qed

text \<open>A pass fills the odd multiples of \<open>j\<close> from the even ones and leaves the rest alone.\<close>

lemma pass_prefix:
  assumes "0 < j" "n * (j + j) \<le> length t" "i < length t"
  shows "foldl (\<lambda>t m. t[m * (j + j) + j := t ! (m * (j + j)) XOR h]) t [0..<n] ! i
       = (if \<exists>m<n. i = m * (j + j) + j then t ! (i - j) XOR h else t ! i)"
  using assms(2,3)
proof (induction n arbitrary: i)
  case 0
  then show ?case by simp
next
  case (Suc n)
  let ?f = "\<lambda>t m. t[m * (j + j) + j := t ! (m * (j + j)) XOR h]"
  let ?u = "foldl ?f t [0..<n]"
  have len: "length (foldl ?f t ms) = length t" for ms by (induction ms arbitrary: t) simp_all
  have "n * (j + j) < length t" using Suc.prems(1) assms(1) by simp
  moreover have "n * (j + j) \<noteq> m * (j + j) + j" for m
  proof
    assume "n * (j + j) = m * (j + j) + j"
    then have "(2 * n) * j = (2 * m + 1) * j" by (simp add: algebra_simps)
    then have "2 * n = 2 * m + 1" using assms(1) by (simp only: mult_cancel2) simp
    then show False by presburger
  qed
  ultimately have read: "?u ! (n * (j + j)) = t ! (n * (j + j))"
    using Suc.IH [of "n * (j + j)"] Suc.prems(1) by auto
  show ?case
  proof (cases "i = n * (j + j) + j")
    case True
    then show ?thesis using Suc.prems(2) read by (auto simp: len)
  next
    case False
    then have "(\<exists>m<Suc n. i = m * (j + j) + j) \<longleftrightarrow> (\<exists>m<n. i = m * (j + j) + j)"
      by (auto simp: less_Suc_eq)
    then show ?thesis using Suc.IH [of i] Suc.prems False by (simp add: len)
  qed
qed

definition entries_at :: "nat \<Rightarrow> u32 list \<Rightarrow> bool" where
  "entries_at k t \<longleftrightarrow>
     length t = 256 \<and> (\<forall>m < 2 ^ (8 - k). t ! (m * 2 ^ k) = lsb_entry CRC32 (of_nat (m * 2 ^ k)))"

lemma lsb_entry_power:
  fixes p :: u32
  assumes "k \<le> 7"
  shows "lsb_entry p (of_nat (2 ^ k)) = (lsb_step p ^^ (8 - k)) 1"
proof -
  let ?x = "ucast ((2 :: byte) ^ k) :: u32"
  have b: "bit ?x i \<longleftrightarrow> i = k" for i
    using assms by (auto simp: bit_ucast bit_exp_iff)
  have "drop_bit k ?x = 1"
  proof (rule bit_word_eqI)
    fix i assume "i < LENGTH(32)"
    show "bit (drop_bit k ?x) i = bit (1 :: u32) i"
      by (simp only: bit_drop_bit_eq comp_apply b) (simp add: bit_1_iff)
  qed
  moreover have "(lsb_step p ^^ k) ?x = drop_bit k ?x"
    by (rule lsb_steps_shift) (use b in auto)
  moreover have "(lsb_step p ^^ 8) ?x = (lsb_step p ^^ (8 - k)) ((lsb_step p ^^ k) ?x)"
  proof -
    have "lsb_step p ^^ 8 = lsb_step p ^^ ((8 - k) + k)" using assms by simp
    then show ?thesis by (simp only: funpow_add comp_apply)
  qed
  ultimately show ?thesis by (simp add: lsb_entry_def)
qed

text \<open>The entry of an odd multiple is the sum of its neighbour's and that of \<open>j\<close>.\<close>

lemma lsb_entry_odd:
  fixes p :: u32
  assumes "k < 8" "m < 2 ^ (7 - k)"
  shows "lsb_entry p (of_nat (m * 2 ^ Suc k + 2 ^ k))
       = lsb_entry p (of_nat (m * 2 ^ Suc k)) XOR lsb_entry p (of_nat (2 ^ k))"
proof -
  have "\<not> bit (m * 2 ^ Suc k) k"
    using bit_push_bit_iff [of "Suc k" m k] by (simp add: push_bit_eq_mult)
  then have "\<not> bit (of_nat (m * 2 ^ Suc k) :: byte) k"
    by (simp only: bit_of_nat_iff simp_thms)
  then have "(of_nat (m * 2 ^ Suc k) :: byte) AND 2 ^ k = 0"
    by (simp only: and_exp_eq_0_iff_not_bit simp_thms)
  then have "(of_nat (m * 2 ^ Suc k + 2 ^ k) :: byte) = of_nat (m * 2 ^ Suc k) XOR of_nat (2 ^ k)"
    by (simp only: of_nat_add disjunctive_add_eq_xor of_nat_power of_nat_numeral)
  then show ?thesis by (simp only: lsb_entry_xor)
qed

lemma power_split:
  assumes "k < 8"
  shows "2 ^ (7 - k) * (2 ^ k + 2 ^ k) = (256 :: nat)" and "2 ^ (8 - k) * 2 ^ k = (256 :: nat)"
proof -
  have "(2 :: nat) ^ (7 - k) * 2 ^ k = 2 ^ (7 - k + k)" by (rule power_add [symmetric])
  also have "7 - k + k = 7" using assms by simp
  finally show "2 ^ (7 - k) * (2 ^ k + 2 ^ k) = (256 :: nat)" by (simp add: distrib_left)
  have "(2 :: nat) ^ (8 - k) * 2 ^ k = 2 ^ (8 - k + k)" by (rule power_add [symmetric])
  also have "8 - k + k = 8" using assms by simp
  finally show "2 ^ (8 - k) * 2 ^ k = (256 :: nat)" by simp
qed

lemma entries_pass:
  assumes "entries_at (Suc k) t" "k < 8" "h = (lsb_step CRC32 ^^ (8 - k)) 1"
  shows "entries_at k (makecrc_pass (2 ^ k) h t)"
proof -
  let ?j = "2 ^ k :: nat"
  note prod = power_split(1) [OF assms(2)]
  have N: "256 div (?j + ?j) = 2 ^ (7 - k)"
    using nonzero_mult_div_cancel_right [of "?j + ?j" "2 ^ (7 - k)"] by (simp only: prod) simp
  have len: "length t = 256" and even: "\<And>m. m < 2 ^ (7 - k) \<Longrightarrow> t ! (m * 2 ^ Suc k) = lsb_entry CRC32 (of_nat (m * 2 ^ Suc k))"
    using assms(1) by (auto simp: entries_at_def)
  show ?thesis
    unfolding entries_at_def
  proof (intro conjI allI impI)
    show "length (makecrc_pass ?j h t) = 256" by (simp add: len)
    fix m :: nat assume m: "m < 2 ^ (8 - k)"
    have "8 - k = Suc (7 - k)" using assms(2) by simp
    then have "(2 :: nat) ^ (8 - k) = 2 * 2 ^ (7 - k)" by simp
    with m have m2: "m div 2 < 2 ^ (7 - k)" by linarith
    have lt: "m * ?j < 256"
    proof -
      have "m * ?j < 2 ^ (8 - k) * ?j" using m by simp
      also have "\<dots> = 256" by (rule power_split(2) [OF assms(2)])
      finally show ?thesis .
    qed
    have val: "makecrc_pass ?j h t ! (m * ?j)
        = (if \<exists>q<2 ^ (7 - k). m * ?j = q * (?j + ?j) + ?j then t ! (m * ?j - ?j) XOR h else t ! (m * ?j))"
      unfolding makecrc_pass_def N by (rule pass_prefix) (simp_all add: len lt prod)
    show "makecrc_pass ?j h t ! (m * ?j) = lsb_entry CRC32 (of_nat (m * 2 ^ k))"
    proof (cases "even m")
      case True
      then obtain q where q: "m = 2 * q" by blast
      have "m * ?j \<noteq> r * (?j + ?j) + ?j" for r
      proof
        assume "m * ?j = r * (?j + ?j) + ?j"
        then have "(2 * q) * ?j = (2 * r + 1) * ?j" using q by (simp add: algebra_simps)
        then have "2 * q = 2 * r + 1" by (simp only: mult_cancel2) simp
        then show False by presburger
      qed
      then have "makecrc_pass ?j h t ! (m * ?j) = t ! (m * ?j)" using val by simp
      moreover have "m * ?j = q * 2 ^ Suc k" using q by simp
      moreover have "q < 2 ^ (7 - k)" using m2 q by simp
      ultimately show ?thesis by (simp only: even)
    next
      case False
      then obtain q where q: "m = 2 * q + 1" by (auto elim: oddE)
      have eq: "m * ?j = q * 2 ^ Suc k + ?j" using q by (simp add: algebra_simps)
      have q2: "q < 2 ^ (7 - k)" using m2 q by simp
      have "\<exists>r<2 ^ (7 - k). m * ?j = r * (?j + ?j) + ?j"
        using q2 eq by (intro exI [of _ q]) (simp add: algebra_simps)
      then have "makecrc_pass ?j h t ! (m * ?j) = t ! (q * 2 ^ Suc k) XOR h"
        using val eq by simp
      also have "\<dots> = lsb_entry CRC32 (of_nat (q * 2 ^ Suc k)) XOR lsb_entry CRC32 (of_nat (2 ^ k))"
        using even [OF q2] assms(2,3) lsb_entry_power [of k CRC32] by simp
      also have "\<dots> = lsb_entry CRC32 (of_nat (m * 2 ^ k))"
        unfolding eq by (rule lsb_entry_odd [OF assms(2) q2, symmetric])
      finally show ?thesis .
    qed
  qed
qed

lemma entries_loop:
  "k \<le> 8 \<Longrightarrow> entries_at k t \<Longrightarrow> h = (lsb_step CRC32 ^^ (8 - k)) 1 \<Longrightarrow>
    entries_at 0 (makecrc_loop k h t)"
proof (induction k arbitrary: h t)
  case 0
  then show ?case by simp
next
  case (Suc k)
  have "8 - k = Suc (8 - Suc k)" using Suc.prems(1) by simp
  then have h1: "crc_halve h = (lsb_step CRC32 ^^ (8 - k)) 1"
    using Suc.prems(3) by (simp add: crc_halve_step)
  moreover have "entries_at k (makecrc_pass (2 ^ k) (crc_halve h) t)"
    using Suc.prems h1 by (intro entries_pass) simp_all
  ultimately show ?case using Suc by simp
qed

lemma lsb_entry_0: "lsb_entry p 0 = 0"
proof -
  have "(lsb_step p ^^ n) 0 = 0" for n by (induction n) (simp_all add: lsb_step_def)
  then show ?thesis by (simp add: lsb_entry_def)
qed

lemma makecrc_entries:
  assumes "length tab = 256"
  shows "makecrc tab = map (\<lambda>i. lsb_entry CRC32 (of_nat i)) [0..<256]"
proof -
  have "entries_at 8 (tab[0 := 0])" using assms by (simp add: entries_at_def lsb_entry_0)
  then have "entries_at 0 (makecrc tab)" unfolding makecrc_def by (rule entries_loop [rotated]) simp_all
  then show ?thesis by (auto simp: entries_at_def intro!: nth_equalityI)
qed

section \<open>The register\<close>

definition zcrc_upd :: "u32 \<Rightarrow> byte \<Rightarrow> u32" where
  "zcrc_upd = lsb_upd CRC32"

interpretation zcrc: crc_register zcrc_upd 4
  unfolding zcrc_upd_def by (rule lsb_upd_crc_register) (simp_all add: CRC32_def bit_iff_odd)

lemma table_turn:
  assumes "length tab = 256"
  shows "drop_bit 8 c XOR makecrc tab ! unat ((c XOR ucast b) AND 0xFF) = zcrc_upd c b"
proof -
  have i: "unat (ucast c XOR b :: byte) < 256"
    using unsigned_less [of "ucast c XOR b :: byte", where 'a = nat] by simp
  have "(c XOR ucast b) AND 0xFF = ucast (ucast c XOR b :: byte)"
    by (rule bit_word_eqI)
      (auto simp: bit_ucast bit_and_iff bit_xor_iff bit_mask8 dest: bit_imp_le_length)
  with i show ?thesis
    by (simp add: zcrc_upd_def lsb_upd_table makecrc_entries [OF assms] unat_ucast_up)
qed

lemma compute_crc32_register:
  "length tab = 256 \<Longrightarrow>
    compute_crc32 (makecrc tab) c bs = foldl zcrc_upd c bs XOR 0xFFFFFFFF"
  by (simp add: compute_crc32_def table_turn)

text \<open>Inverting twice: computing byte by byte is computing at once.\<close>

lemma invert: "x XOR 0xFFFFFFFF = NOT x" for x :: u32
proof -
  have m: "(0xFFFFFFFF :: u32) = - 1" by simp
  show ?thesis by (simp only: m bit.xor_one_right)
qed

lemma not_inverted: "NOT (compute_crc32 tab c [b]) = drop_bit 8 c XOR tab ! unat ((c XOR ucast b) AND 0xFF)"
  by (simp add: compute_crc32_def invert)

lemma data_crc32_at_once: "data_crc32 tab bs t = compute_crc32 tab crc32_preset (bs @ [t])"
  by (simp only: data_crc32_def not_inverted Let_def) (simp add: compute_crc32_def invert)

lemma compute_crc16_register: "compute_crc16 c bs = ucast (foldl crc16_upd (ucast c) bs)"
proof -
  have "x AND 0xFFFF = ucast (ucast x :: u16)" for x :: u32
    by (rule bit_word_eqI) (auto simp: bit_ucast bit_and_iff bit_mask16)
  then show ?thesis by (simp add: compute_crc16_def ucast_foldl)
qed

lemma compute_crc16_append: "compute_crc16 (compute_crc16 0 xs) ys = compute_crc16 0 (xs @ ys)"
  by (simp add: compute_crc16_register ucast_ucast_down)

text \<open>
  C35. The table \<open>makecrc\<close> builds in eight passes, out of any memory, is the table that is written
  out in \<open>PLINKCRC.C\<close>; with it \<open>compute_crc32\<close> is the complement of the bit-by-bit register, and
  the CRC the sender computes byte by byte over the data and the escape, inverting each time,
  is the one the receiver computes at once.
\<close>

theorem makecrc_table:
  assumes "length tab = 256"
  shows "makecrc tab = crc_32_tab
       \<and> compute_crc32 (makecrc tab) c bs = NOT (foldl (lsb_upd 0xEDB88320) c bs)
       \<and> data_crc32 (makecrc tab) bs t = NOT (foldl (lsb_upd 0xEDB88320) 0xFFFFFFFF (bs @ [t]))"
proof (intro conjI)
  show "makecrc tab = crc_32_tab"
    by (simp only: makecrc_entries [OF assms] crc_32_tab_entries CRC32_def plink_poly_def)
qed (use assms in \<open>simp_all add: compute_crc32_register data_crc32_at_once invert zcrc_upd_def
      CRC32_def crc32_preset_def\<close>)

lemma makecrc_table_witness:
  "makecrc (replicate 256 7) = crc_32_tab
   \<and> compute_crc32 (makecrc (replicate 256 7)) 0 [1, 2] = NOT (foldl (lsb_upd 0xEDB88320) 0 [1, 2])
   \<and> data_crc32 (makecrc (replicate 256 7)) [1, 2] ZCRCW
       = NOT (foldl (lsb_upd 0xEDB88320) 0xFFFFFFFF ([1, 2] @ [ZCRCW]))"
  by (rule makecrc_table) simp

end
