(* ===== verification/Zmodem_Escape.thy ===== *)
theory Zmodem_Escape
  imports Zmodem_Crc
begin

text \<open>
  Hexadecimal and escaping are undone by the other side: for every byte and every combination
  of the flags. The escaped bytes interpret \<open>stream_codec\<close>, which gives the round trip of data
  subpackets.
\<close>

section \<open>Hexadecimal\<close>

lemma hex_digit_value:
  assumes "d < 16"
  shows "hex_value (hex_digit d) = Some d"
proof -
  have "unat d < 16" using assms by (simp add: word_less_nat_alt)
  then have "unat d \<in> {0..<16}" by simp
  also have "{0..<16::nat} = set [0,1,2,3,4,5,6,7,8,9,10,11,12,13,14,15]" by (auto; arith)
  finally have "d \<in> set (map of_nat [0,1,2,3,4,5,6,7,8,9,10,11,12,13,14,15])"
    unfolding list.set_map by (rule rev_image_eqI) simp
  then show ?thesis
    by (auto simp: hex_digit_def hex_value_def to_lower_byte_def Let_def)
qed

lemma nibbles:
  "drop_bit 4 (b :: byte) < 16" "(b :: byte) AND 0x0F < 16"
  "push_bit 4 (drop_bit 4 b) OR (b AND 0x0F) = (b :: byte)"
  "drop_bit 4 (b AND 0xF0) = (drop_bit 4 b :: byte)"
proof -
  have n: "unat b < 256" using unsigned_less [of b, where 'a = nat] by simp
  then show "drop_bit 4 b < 16"
    by (simp add: word_less_nat_alt unat_drop_bit_eq drop_bit_eq_div unat_div div_less_iff_less_mult)
  show "b AND 0x0F < 16"
    using and_mask_less_size [of 4 b] by (simp add: word_size mask_eq_exp_minus_1)
  show "push_bit 4 (drop_bit 4 b) OR (b AND 0x0F) = b"
  proof -
    have "push_bit 4 (drop_bit 4 b) OR take_bit 4 b = b"
      by (rule bit_word_eqI) (auto simp: bit_simps)
    then show ?thesis by (simp add: take_bit_eq_mask mask_eq_exp_minus_1)
  qed
  have "drop_bit 4 (b AND 0xF0) = drop_bit 4 b AND (drop_bit 4 0xF0 :: byte)" by (rule drop_bit_and)
  also have "(drop_bit 4 0xF0 :: byte) = mask 4" by (simp add: mask_eq_exp_minus_1)
  also have "drop_bit 4 b AND mask 4 = drop_bit 4 b"
    using \<open>drop_bit 4 b < 16\<close> less_mask_eq [of "drop_bit 4 b" 4] by simp
  finally show "drop_bit 4 (b AND 0xF0) = drop_bit 4 b" .
qed

lemma dehexify_hexify: "dehexify_string (hexify_string bs) = Some bs"
  by (induction bs)
    (simp_all add: hexify_string_def hex_digit_value nibbles del: drop_bit_and)

lemma length_hexify [simp]: "length (hexify_string bs) = 2 * length bs"
  by (induction bs) (simp_all add: hexify_string_def)

section \<open>Escaping one byte\<close>

text \<open>The two flags that matter.\<close>

definition encode_bits :: "bool \<Rightarrow> bool \<Rightarrow> byte \<Rightarrow> byte" where
  "encode_bits ctrl eight ch =
     (if ch \<in> {C_CAN, C_XON, C_XOFF, C_XON OR 0x80, C_XOFF OR 0x80} \<or> (ch < 0x20 \<and> ctrl)
         \<or> (0x80 \<le> ch \<and> ch < 0xA0) \<or> (ch AND 0x80 \<noteq> 0 \<and> eight)
      then ch OR 0x40
      else if ch = 0x7F then 0x6C
      else if ch = 0xFF then 0x6D
      else ch)"

lemma encode_entry_bits:
  "encode_entry flags ch
     = encode_bits (flags AND TX_ESCAPE_CTRL \<noteq> 0) (flags AND TX_ESCAPE_8BIT \<noteq> 0) ch"
  by (simp only: encode_entry_def must_encode_def encode_bits_def)

definition escape_ok :: "byte \<Rightarrow> byte \<Rightarrow> bool" where
  "escape_ok ch e \<longleftrightarrow>
     (if e = ch then ch \<noteq> C_CAN else e \<notin> set crc_escapes \<and> unescape e = Plain ch)"

lemma bit_six:
  "ch AND 0x40 = 0 \<Longrightarrow> (ch OR 0x40) AND 0xBF = (ch :: byte)"
  "ch AND 0x40 \<noteq> 0 \<Longrightarrow> ch OR 0x40 = (ch :: byte)"
  "ch OR 0x40 = e \<Longrightarrow> ch = e \<or> ch = e AND (0xBF :: byte)"
  "(ch OR 0x40) AND 0x40 = (0x40 :: byte)"
proof -
  have n: "(0xBF :: byte) = NOT 0x40" by simp
  have b: "(0x40 :: byte) = 2 ^ 6" by simp
  show z: "(ch OR 0x40) AND 0xBF = ch" if "ch AND 0x40 = 0"
    using that unfolding b n
    by (auto simp: bit_eq_iff bit_simps simp del: of_nat_numeral)
  show o: "ch OR 0x40 = ch" if "ch AND 0x40 \<noteq> 0"
  proof (rule bit_word_eqI)
    fix i
    have "bit ch 6" using that and_exp_eq_0_iff_not_bit [of ch 6] by simp
    then show "bit (ch OR 0x40) i = bit ch i"
      unfolding b by (auto simp: bit_or_iff bit_exp_iff simp del: power_numeral)
  qed
  show "ch = e \<or> ch = e AND 0xBF" if "ch OR 0x40 = e" using that z o by metis
  show "(ch OR 0x40) AND 0x40 = (0x40 :: byte)" by (simp add: bit.conj_disj_distrib2 word_ao_absorbs)
qed

lemma escaped_or:
  assumes "ch AND 0x40 = 0" "ch \<notin> {0x28, 0x29, 0x2A, 0x2B, 0x2C, 0x2D}"
  shows "escape_ok ch (ch OR 0x40)"
proof -
  have e: "(ch OR 0x40) AND 0x40 = 0x40" "(ch OR 0x40) AND 0xBF = ch" using assms(1) by (simp_all add: bit_six)
  have "ch OR 0x40 \<noteq> ch"
  proof
    assume "ch OR 0x40 = ch"
    with e(1) have "ch AND 0x40 = 0x40" by simp
    with assms(1) show False by simp
  qed
  moreover have "ch OR 0x40 \<noteq> x" if "x AND 0xBF \<in> {0x28, 0x29, 0x2A, 0x2B, 0x2C, 0x2D}" for x
    using e(2) that assms(2) by auto
  ultimately show ?thesis
    using e by (simp add: escape_ok_def unescape_def crc_escapes_def)
qed

lemma small_bytes:
  assumes "ch < 0x20 \<or> (0x80 \<le> ch \<and> ch < 0xA0)"
  shows "ch AND 0x40 = (0 :: byte)" "ch \<notin> {0x28, 0x29, 0x2A, 0x2B, 0x2C, 0x2D}"
proof -
  have "even (unat ch div 2 ^ 6)"
  proof (cases "ch < 0x20")
    case True
    then have "unat ch div 2 ^ 6 = 0" by (simp add: word_less_nat_alt)
    then show ?thesis by simp
  next
    case False
    with assms have "128 \<le> unat ch \<and> unat ch < 160" by (simp add: word_less_nat_alt word_le_nat_alt)
    then have "unat ch div 2 ^ 6 = 2" by (simp; arith)
    then show ?thesis by simp
  qed
  then have "\<not> bit (unat ch) 6" by (simp add: bit_iff_odd)
  then have "\<not> bit ch 6" by (simp add: bit_unsigned_iff)
  then show "ch AND 0x40 = 0" using and_exp_eq_0_iff_not_bit [of ch 6] by simp
  show "ch \<notin> {0x28, 0x29, 0x2A, 0x2B, 0x2C, 0x2D}" using assms by auto
qed

lemma escape_bits_ok: "escape_ok ch (encode_bits ctrl eight ch)"
proof (cases "ch < 0x20 \<or> (0x80 \<le> ch \<and> ch < 0xA0)")
  case True
  then have "ch \<noteq> 0x7F" "ch \<noteq> 0xFF" by auto
  have "escape_ok ch (ch OR 0x40)" using small_bytes [OF True] by (rule escaped_or)
  moreover have "ch \<noteq> C_CAN \<Longrightarrow> escape_ok ch ch" by (simp add: escape_ok_def)
  ultimately show ?thesis
    using \<open>ch \<noteq> 0x7F\<close> \<open>ch \<noteq> 0xFF\<close> by (auto simp: encode_bits_def)
next
  case False
  then have n: "ch \<notin> {C_CAN, C_XON, C_XOFF, C_XON OR 0x80, C_XOFF OR 0x80}" by auto
  show ?thesis
  proof (cases "ch = 0x7F \<or> ch = 0xFF")
    case True
    then show ?thesis by (auto simp: encode_bits_def escape_ok_def unescape_def crc_escapes_def)
  next
    case False
    show ?thesis
    proof (cases "ch AND 0x40 = 0")
      case True
      have "escape_ok ch (ch OR 0x40)" if "ch AND 0x80 \<noteq> 0"
        using True that by (intro escaped_or) auto
      with n False \<open>\<not> (ch < 0x20 \<or> (0x80 \<le> ch \<and> ch < 0xA0))\<close> show ?thesis
        by (auto simp: encode_bits_def escape_ok_def)
    next
      case t: False
      with bit_six(2) [of ch] n False show ?thesis by (auto simp: encode_bits_def escape_ok_def)
    qed
  qed
qed

lemma encode_map_nth: "encode_map flags ! unat ch = encode_entry flags ch"
  using unsigned_less [of ch, where 'a = nat] by (simp add: encode_map_def)

lemma length_encoded: "length (encoded emap ch) \<le> 2" "encoded emap ch \<noteq> []"
  by (simp_all add: encoded_def Let_def)

text \<open>Taking one byte off the front, as the big loop does outside the CRC escape.\<close>

fun take_escaped :: "byte list \<Rightarrow> (byte \<times> byte list) option" where
  "take_escaped [] = None"
| "take_escaped (c # cs) =
     (if c = C_CAN then
       (case cs of
          [] \<Rightarrow> None
        | d # ds \<Rightarrow>
           (case unescape d of
              Plain b \<Rightarrow> if d \<in> set crc_escapes then None else Some (b, ds)
            | _ \<Rightarrow> None))
      else Some (c, cs))"

interpretation zescape: stream_codec "encoded (encode_map flags)" take_escaped "\<lambda>_. True" for flags
proof (unfold_locales)
  fix x ys
  have "escape_ok x (encode_entry flags x)" by (simp only: encode_entry_bits escape_bits_ok)
  then show "take_escaped (encoded (encode_map flags) x @ ys) = Some (x, ys)"
    by (simp add: encoded_def encode_map_nth escape_ok_def Let_def del: C_CAN_def split: if_splits)
qed (simp add: length_encoded)

section \<open>Escaped data in the big loop\<close>

abbreviation escaped :: "u32 \<Rightarrow> byte list \<Rightarrow> byte list" where
  "escaped flags bs \<equiv> concat (map (encoded (encode_map flags)) bs)"

declare decode_loop.simps [simp del]

lemma take_escaped_cases:
  assumes "take_escaped xs = Some (b, ys)"
  obtains "xs = b # ys" "b \<noteq> C_CAN"
    | d where "xs = C_CAN # d # ys" "unescape d = Plain b" "d \<notin> set crc_escapes"
proof (cases xs)
  case Nil
  with assms show ?thesis by simp
next
  case (Cons c cs)
  show ?thesis
  proof (cases "c = C_CAN")
    case True
    with assms Cons that(2) show ?thesis
      by (cases cs) (auto split: escape.splits if_splits simp del: C_CAN_def)
  next
    case False
    with assms Cons that(1) show ?thesis by (simp del: C_CAN_def)
  qed
qed

lemma decode_step:
  assumes "take_escaped xs = Some (b, ys)"
  shows "decode_loop w xs out crc =
      (let (out1, crc1) = emit_byte b out crc in
       if crc_complete w crc1 then Subpacket out1 (crc_bytes crc1) ys
       else decode_loop w ys out1 crc1)"
  using assms by (cases rule: take_escaped_cases)
    (simp_all add: decode_loop.simps(2) del: C_CAN_def)

lemma decode_data: "decode_loop w (escaped flags bs @ rest) out None = decode_loop w rest (out @ bs) None"
proof (induction bs arbitrary: out)
  case (Cons b bs)
  then show ?case
    using decode_step [OF zescape.takes [OF TrueI, of flags b "escaped flags bs @ rest"]]
    by (simp add: crc_complete_def)
qed simp

lemma decode_crc:
  "bs \<noteq> [] \<Longrightarrow> length crc + length bs = w \<Longrightarrow>
    decode_loop w (escaped flags bs @ rest) out (Some crc) = Subpacket out (crc @ bs) rest"
proof (induction bs arbitrary: crc)
  case (Cons b bs)
  then show ?case
    using decode_step [OF zescape.takes [OF TrueI, of flags b "escaped flags bs @ rest"]]
    by (cases bs) (auto simp: crc_complete_def crc_bytes_def)
qed simp

lemma decode_escape:
  assumes "t \<in> set crc_escapes" "1 < w"
  shows "decode_loop w (C_CAN # t # rest) out None = decode_loop w rest out (Some [t])"
proof -
  have "t \<noteq> C_CAN" using assms(1) by (auto simp: crc_escapes_def)
  with assms show ?thesis
    by (simp add: decode_loop.simps(2) [of w C_CAN] decode_loop.simps(2) [of w t]
        crc_complete_def crc_bytes_def del: C_CAN_def)
qed

lemma decode_subpacket:
  assumes "t \<in> set crc_escapes" "crc \<noteq> []"
  shows "decode_loop (Suc (length crc)) (escaped flags bs @ [C_CAN, t] @ escaped flags crc @ rest) [] None
       = Subpacket bs (t # crc) rest"
  using assms decode_crc [of crc "[t]" "Suc (length crc)" flags rest bs]
  by (simp add: decode_data decode_escape del: C_CAN_def)

lemma scan_finds_escape:
  assumes "t \<in> set crc_escapes"
  shows "has_crc_escape (escaped flags bs @ [C_CAN, t] @ rest)"
proof (induction bs)
  case Nil
  with assms show ?case by simp
next
  case (Cons b bs)
  let ?xs = "escaped flags bs @ [C_CAN, t] @ rest"
  have skip: "has_crc_escape (c # ?xs)" if "c \<noteq> C_CAN" for c
    using Cons that by (cases ?xs) (auto simp del: C_CAN_def)
  have "escape_ok b (encode_entry flags b)" by (simp only: encode_entry_bits escape_bits_ok)
  then have "encoded (encode_map flags) b = [C_CAN, encode_entry flags b] \<and> encode_entry flags b \<notin> set crc_escapes
      \<or> encoded (encode_map flags) b = [b] \<and> b \<noteq> C_CAN"
    by (auto simp: encoded_def encode_map_nth escape_ok_def Let_def simp del: C_CAN_def split: if_splits)
  with Cons skip [of b] show ?case by (auto simp del: C_CAN_def)
qed

section \<open>Writing to an output buffer\<close>

lemma put_raw_Inr:
  "n + length bs \<le> length arr \<Longrightarrow> put_raw bs (arr, n) = Inr (blit n bs arr, n + length bs)"
  by simp

lemma encode_bytes_result:
  assumes "n + 2 * length bs \<le> length arr"
  shows "encode_bytes emap bs (arr, n)
       = Inr (blit n (concat (map (encoded emap) bs)) arr, n + length (concat (map (encoded emap) bs)))
       \<and> length (concat (map (encoded emap) bs)) \<le> 2 * length bs"
  using assms
proof (induction bs arbitrary: arr n)
  case (Cons b bs)
  let ?e = "encoded emap b" and ?es = "concat (map (encoded emap) bs)"
  have e: "length ?e \<le> 2" by (rule length_encoded)
  with Cons.prems have *: "n + length ?e + 2 * length bs \<le> length (blit n ?e arr)" by simp
  have "length ?es \<le> 2 * length bs" using Cons.IH [OF *] by simp
  moreover have "encode_bytes emap bs (blit n ?e arr, n + length ?e)
      = Inr (blit (n + length ?e) ?es (blit n ?e arr), n + length ?e + length ?es)"
    using Cons.IH [OF *] by simp
  ultimately show ?case
    using Cons.prems e by (simp add: blit_append)
qed simp

end
