(* ===== verification/Zmodem_Packet.thy ===== *)
theory Zmodem_Packet
  imports Zmodem_Codec
begin

text \<open>
  The packet layer of \<open>zmodem.c\<close>: headers built into an output buffer, and headers found and
  parsed in \<open>packet_buffer\<close>. A header starts with ZPADs and a CAN; the letter behind it says hex
  with a 16-bit CRC (\<open>B\<close>), binary with a 16-bit CRC (\<open>A\<close>) or binary with a 32-bit CRC (\<open>C\<close>).
\<close>

section \<open>Building\<close>

definition HEX_PACKET_LENGTH :: nat where [simp]: "HEX_PACKET_LENGTH = 20"

text \<open>The order of the argument's bytes depends on the type.\<close>

definition little_endian_types :: "byte list" where
  "little_endian_types = [P_ZRPOS, P_ZEOF, P_ZCRC, P_ZCOMPL, P_ZFREECNT]"

definition header_bytes :: "byte \<Rightarrow> u32 \<Rightarrow> byte list" where
  "header_bytes typ arg =
     typ # (if typ \<in> set little_endian_types \<or> typ = P_ZSINIT then le_bytes 4 arg else be_bytes 4 arg)"

text \<open>Hexadecimal or binary.\<close>

definition header_in_hex :: "byte \<Rightarrow> zmodem \<Rightarrow> bool" where
  "header_in_hex typ z \<longleftrightarrow>
     (typ = P_ZCRC \<and> \<not> z_sending z)
     \<or> \<not> (typ = P_ZSINIT \<and> z_sending z \<and> z_use_crc32 z)
        \<and> (typ \<in> {P_ZRQINIT, P_ZRINIT, P_ZSINIT, P_ZCHALLENGE, P_ZRPOS}
            \<or> z_flags z AND TX_ESCAPE_CTRL \<noteq> 0 \<or> z_flags z AND TX_ESCAPE_8BIT \<noteq> 0)"

text \<open>
  The fixed part of a header is stored at the start of the array, whatever the array holds; only
  the count of bytes in use grows. \<open>C_LF | 0x80\<close> is \<open>0x8A\<close>.
\<close>

definition hex_header :: "byte list \<Rightarrow> byte list" where
  "hex_header header =
     [ZPAD, ZPAD, C_CAN, 0x42] @ hexify_string header
       @ hexify_string (be_bytes 2 (compute_crc16 0 header)) @ [C_CR, C_LF OR 0x80]"

definition build_hex :: "byte \<Rightarrow> byte list \<Rightarrow> obuf \<Rightarrow> fault + obuf" where
  "build_hex typ header ob =
     (let (arr, n) = ob in
      if length arr < HEX_PACKET_LENGTH then Inl Buffer_overflow
      else
       (let ob1 = (blit 0 (hex_header header) arr, n + HEX_PACKET_LENGTH) in
        if typ \<in> {P_ZFIN, P_ZACK} then Inr ob1 else put_raw [C_XON] ob1))"

definition header_crc :: "u32 list \<Rightarrow> bool \<Rightarrow> byte list \<Rightarrow> byte list" where
  "header_crc tab wide header =
     (if wide then le_bytes 4 (compute_crc32 tab crc32_preset header)
      else be_bytes 2 (compute_crc16 0 header))"

definition build_binary :: "byte list \<Rightarrow> u32 list \<Rightarrow> bool \<Rightarrow> byte list \<Rightarrow> obuf \<Rightarrow> fault + obuf" where
  "build_binary emap tab wide header ob =
     (let (arr, n) = ob in
      if length arr < 3 then Inl Buffer_overflow
      else encode_bytes emap (header @ header_crc tab wide header)
             (blit 0 [ZPAD, C_CAN, if wide then 0x43 else 0x41] arr, n + 3))"

text \<open>
  \<open>build_packet\<close>. A binary ZSINIT is escaped as if control characters had to be; afterwards the
  table is computed again from the old flags.
\<close>

definition build_packet :: "byte \<Rightarrow> u32 \<Rightarrow> zmodem \<Rightarrow> obuf \<Rightarrow> fault + zmodem \<times> obuf" where
  "build_packet typ arg z ob =
     (let hex = header_in_hex typ z;
          z1 = z\<lparr>packet := (packet z)\<lparr>p_type := typ, p_use_crc32 := (z_use_crc32 z \<and> \<not> hex),
                                      p_data_n := 0\<rparr>\<rparr>;
          altered = (\<not> hex \<and> typ = P_ZSINIT \<and> z_flags z AND TX_ESCAPE_CTRL = 0);
          emap = (if altered then encode_map (z_flags z OR TX_ESCAPE_CTRL) else encode_byte_map z);
          z2 = (if altered then setup_encode_byte_map z1 else z1);
          header = header_bytes typ arg
      in bind_res (if hex then build_hex typ header ob
                   else build_binary emap (z_crc_32_tab z) (z_use_crc32 z) header ob) (\<lambda>ob1.
         if length (fst ob1) < snd ob1 then Inl Assert_failed else Inr (z2, ob1)))"

text \<open>A header into the output buffer of the call.\<close>

definition send_header :: "byte \<Rightarrow> u32 \<Rightarrow> zmodem \<Rightarrow> fault + zmodem" where
  "send_header typ arg z =
     bind_res (build_packet typ arg z (out_buffer z, out_n z)) (\<lambda>(z1, (arr, n)).
       Inr (z1\<lparr>out_buffer := arr, out_n := n\<rparr>))"

section \<open>Parsing\<close>

datatype zm_parse_packet = ZM_PP_INVALID | ZM_PP_NODATA | ZM_PP_CRCERROR | ZM_PP_OK

definition big_to_little_endian :: "u32 \<Rightarrow> u32" where
  "big_to_little_endian x =
     (drop_bit 24 x AND 0xFF) OR (drop_bit 8 x AND 0xFF00)
       OR (push_bit 8 x AND 0xFF0000) OR (push_bit 24 x AND 0xFF000000)"

text \<open>
  The fields of a binary header: \<open>k\<close> bytes are wanted. The bytes found so far are kept when the
  input ends or an escape is malformed; otherwise the rest of the input is given.
\<close>

datatype fields_end = Fields_complete "byte list" | Fields_short | Fields_bad

fun take_fields :: "nat \<Rightarrow> bool \<Rightarrow> byte list \<Rightarrow> byte list \<Rightarrow> byte list \<times> fields_end" where
  "take_fields 0 got_can acc xs = (acc, Fields_complete xs)"
| "take_fields (Suc k) got_can acc [] = (acc, Fields_short)"
| "take_fields (Suc k) got_can acc (c # cs) =
     (if c = C_CAN then take_fields (Suc k) True acc cs
      else if got_can then
       (case unescape c of
          Plain ch \<Rightarrow> take_fields k False (acc @ [ch]) cs
        | _ \<Rightarrow> (acc, Fields_bad))
      else take_fields k False (acc @ [c]) cs)"

text \<open>Bytes or-ed into a number, the first one shifted left by \<open>s\<close> bits; up or down from there.\<close>

fun or_down :: "nat \<Rightarrow> byte list \<Rightarrow> u32" where
  "or_down s [] = 0"
| "or_down s (b # bs) = push_bit s (ucast b) OR or_down (s - 8) bs"

fun or_up :: "nat \<Rightarrow> byte list \<Rightarrow> u32" where
  "or_up s [] = 0"
| "or_up s (b # bs) = push_bit s (ucast b) OR or_up (s + 8) bs"

text \<open>The packet with the fields that have arrived: type, four bytes of argument, CRC.\<close>

definition with_fields :: "bool \<Rightarrow> byte list \<Rightarrow> zpacket" where
  "with_fields wide fs =
     (let p = empty_packet\<lparr>p_use_crc32 := wide, p_argument := or_down 24 (take 4 (drop 1 fs))\<rparr>;
          p1 = (case fs of [] \<Rightarrow> p | t # _ \<Rightarrow> p\<lparr>p_type := t\<rparr>)
      in if wide then p1\<lparr>p_crc32 := or_up 0 (drop 5 fs)\<rparr>
         else p1\<lparr>p_crc16 := or_down 8 (drop 5 fs)\<rparr>)"

text \<open>
  What the middle part of \<open>parse_packet\<close> finds behind the CAN: a complete header with the five
  bytes its CRC covers and what follows it, or the packet as far as it is filled and the reason
  to return.
\<close>

datatype header_parse =
    Header zpacket "byte list" "byte list"
  | No_header zm_parse_packet zpacket

definition parse_binary :: "bool \<Rightarrow> byte list \<Rightarrow> header_parse" where
  "parse_binary wide xs =
     (if length xs < (if wide then 10 else 8) then No_header ZM_PP_NODATA empty_packet
      else
       (let (fs, e) = take_fields (if wide then 9 else 7) False [] (drop 1 xs);
            p = with_fields wide fs
        in case e of
             Fields_complete rest \<Rightarrow> Header p (take 5 fs) rest
           | Fields_short \<Rightarrow> No_header ZM_PP_NODATA p
           | Fields_bad \<Rightarrow> No_header (if wide then ZM_PP_NODATA else ZM_PP_INVALID) p))"

definition parse_hex :: "byte list \<Rightarrow> header_parse" where
  "parse_hex xs =
     (if length xs < 14 + 2 then No_header ZM_PP_NODATA empty_packet
      else case dehexify_string (take 2 xs) of
        None \<Rightarrow> No_header ZM_PP_INVALID empty_packet
      | Some t \<Rightarrow>
         (let p1 = with_fields False t in
          case dehexify_string (take 8 (drop 2 xs)) of
            None \<Rightarrow> No_header ZM_PP_INVALID p1
          | Some arg \<Rightarrow>
             (let p2 = with_fields False (t @ arg) in
              case dehexify_string (take 4 (drop 10 xs)) of
                None \<Rightarrow> No_header ZM_PP_INVALID p2
              | Some crc \<Rightarrow>
                 (let p3 = with_fields False (t @ arg @ crc); rest = drop 16 xs in
                  if p_type p3 \<in> {P_ZFIN, P_ZACK} then Header p3 (t @ arg) rest
                  else if rest = [] then No_header ZM_PP_NODATA p3
                  else Header p3 (t @ arg) (tl rest)))))"

definition known_types :: "byte list" where
  "known_types =
     [P_ZRQINIT, P_ZRINIT, P_ZSINIT, P_ZACK, P_ZFILE, P_ZSKIP, P_ZNAK, P_ZABORT, P_ZFIN, P_ZRPOS,
      P_ZDATA, P_ZEOF, P_ZFERR, P_ZCRC, P_ZCHALLENGE, P_ZCOMPL, P_ZCAN, P_ZFREECNT, P_ZCOMMAND]"

definition types_with_data :: "byte list" where
  "types_with_data = [P_ZSINIT, P_ZFILE, P_ZDATA, P_ZCOMMAND]"

text \<open>The CRC a parsed header should have.\<close>

definition header_crc_ok :: "u32 list \<Rightarrow> zpacket \<Rightarrow> byte list \<Rightarrow> bool" where
  "header_crc_ok tab p crc_header \<longleftrightarrow>
     (if p_use_crc32 p then compute_crc32 tab crc32_preset crc_header = p_crc32 p
      else compute_crc16 0 crc_header = p_crc16 p)"

text \<open>A header that was found: type, byte order, CRC, and the switch to ZDATA.\<close>

definition header_found ::
    "zpacket \<Rightarrow> byte list \<Rightarrow> nat \<Rightarrow> nat \<Rightarrow> zmodem \<Rightarrow> zm_parse_packet \<times> nat \<times> zmodem" where
  "header_found p crc_header start stop z =
     (if p_type p \<notin> set known_types then (ZM_PP_INVALID, start, z\<lparr>packet := p\<rparr>)
      else
       (let p1 = (if p_type p \<in> set little_endian_types
                  then p\<lparr>p_argument := big_to_little_endian (p_argument p)\<rparr> else p);
            z1 = z\<lparr>packet := p1\<rparr>
        in if \<not> header_crc_ok (z_crc_32_tab z) p1 crc_header then
             (ZM_PP_CRCERROR, start, z_stats_increment_errors ''CRC ERROR'' z1)
           else if p_type p1 \<in> set types_with_data then
             (ZM_PP_OK, stop,
              z1\<lparr>z_prior_state := z_state z1, z_state := ZDATA,
                 packet := p1\<lparr>p_data_n := 0, p_crc16 := 0, p_crc32 := crc32_preset\<rparr>\<rparr>)
           else (ZM_PP_OK, stop, z1)))"

text \<open>
  \<open>parse_packet\<close> on the bytes in use of \<open>packet_buffer\<close>, of which every caller knows that there
  is one: the result, the number of bytes to discard, and the state.
\<close>

definition parse_packet :: "zmodem \<Rightarrow> zm_parse_packet \<times> nat \<times> zmodem" where
  "parse_packet z0 =
     (let z = z0\<lparr>packet := empty_packet\<rparr>;
          input = take (packet_buffer_n z) (packet_buffer z);
          start = length (takeWhile (\<lambda>c. c \<noteq> ZPAD) input);
          xs = dropWhile (\<lambda>c. c = ZPAD) (drop start input)
      in case xs of
           [] \<Rightarrow> (ZM_PP_NODATA, start, z)
         | c # ys \<Rightarrow>
            if c \<noteq> C_CAN then (ZM_PP_INVALID, start + 1, z)
            else
             (case ys of
                [] \<Rightarrow> (ZM_PP_NODATA, start, z)
              | t # _ \<Rightarrow>
                 (if t \<notin> {0x41, 0x42, 0x43} then (ZM_PP_INVALID, start + 1, z)
                  else case (if t = 0x42 then parse_hex (tl ys) else parse_binary (t = 0x43) ys) of
                    No_header r p \<Rightarrow> (r, start, z\<lparr>packet := p\<rparr>)
                  | Header p crc_header rest \<Rightarrow>
                      header_found p crc_header start (length input - length rest) z)))"

text \<open>Every handler that waits for a header takes the bytes off the stream in the same way.\<close>

definition next_header :: "zmodem \<Rightarrow> zm_parse_packet \<times> zmodem" where
  "next_header z = (let (r, discard, z1) = parse_packet z in (r, drop_input discard z1))"

end
