(* ===== verification/Zmodem_Receive.thy ===== *)
theory Zmodem_Receive
  imports Zmodem_Packet Xmodem_Block
begin

text \<open>
  The receiving side of \<open>zmodem.c\<close>: one definition per \<open>receive_...\<close> function, in the order of the
  code, and the loop that dispatches on the state. A handler returns whether the loop is done;
  opening \<open>/dev/random\<close> is the field \<open>random_value\<close>.
\<close>

type_synonym z_step = "fault + bool \<times> zmodem"

definition z_done :: "fault + zmodem \<Rightarrow> z_step" where
  "z_done m = bind_res m (\<lambda>z. Inr (True, z))"

definition z_again :: "fault + zmodem \<Rightarrow> z_step" where
  "z_again m = bind_res m (\<lambda>z. Inr (False, z))"

text \<open>
  What all the \<open>..._wait\<close> functions share: a header is taken off the stream and judged, or the
  clock is looked at.
\<close>

definition await_header ::
    "(zmodem \<Rightarrow> z_step) \<Rightarrow> (zmodem \<Rightarrow> z_step) \<Rightarrow> (zmodem \<Rightarrow> zmodem) \<Rightarrow> zmodem \<Rightarrow> z_step" where
  "await_header garbled arrived late z =
     (if 0 < packet_buffer_n z then
       (let (r, z1) = next_header z in
        case r of
          ZM_PP_CRCERROR \<Rightarrow> garbled z1
        | ZM_PP_INVALID \<Rightarrow> garbled z1
        | ZM_PP_NODATA \<Rightarrow> Inr (True, z1)
        | ZM_PP_OK \<Rightarrow> arrived z1)
      else
       (let (t, z1) = z_check_timeout z in if t then Inr (False, late z1) else Inr (True, z1)))"

definition garbled_header :: "zmodem \<Rightarrow> z_step" where
  "garbled_header z =
     z_done (send_header P_ZNAK 0 ((z_stats_increment_errors ''GARBLED HEADER'' z)\<lparr>packet_buffer_n := 0\<rparr>))"

definition fresh_crc :: "zmodem \<Rightarrow> zmodem" where
  "fresh_crc z = z\<lparr>packet := (packet z)\<lparr>p_crc16 := 0, p_crc32 := crc32_preset\<rparr>\<rparr>"

definition switch_to_zdata :: "zstate \<Rightarrow> zmodem \<Rightarrow> zmodem" where
  "switch_to_zdata prior z =
     fresh_crc (z\<lparr>z_prior_state := prior, z_state := ZDATA, packet := (packet z)\<lparr>p_data_n := 0\<rparr>\<rparr>)"

section \<open>ZCHALLENGE\<close>

definition receive_zchallenge :: "zmodem \<Rightarrow> z_step" where
  "receive_zchallenge z =
     z_again (bind_res (send_header P_ZCHALLENGE (random_value z) (z\<lparr>zchallenge_value := random_value z\<rparr>))
       (\<lambda>z1. Inr (z1\<lparr>z_state := ZCHALLENGE_WAIT, packet_buffer_n := 0\<rparr>)))"

definition receive_zchallenge_wait :: "zmodem \<Rightarrow> z_step" where
  "receive_zchallenge_wait =
     await_header garbled_header
       (\<lambda>z. if p_type (packet z) = P_ZACK then
              (if p_argument (packet z) = zchallenge_value z then
                 Inr (False, fresh_crc ((z_message ''ZRINIT'' (z_message ''ZCHALLENGE -- OK'' z))
                               \<lparr>z_state := ZRINIT\<rparr>))
               else Inr (True, z_abort (z_stats_increment_errors ''ZCHALLENGE -- ERROR'' z)))
            else if p_type (packet z) = P_ZNAK then
              Inr (False, (z_stats_increment_errors ''ZNAK'' z)\<lparr>z_state := ZCHALLENGE\<rparr>)
            else if p_type (packet z) = P_ZRQINIT then
              Inr (False, (z_message ''ZRQINIT'' z)\<lparr>z_state := ZCHALLENGE\<rparr>)
            else Inr (True, z_abort z))
       (\<lambda>z. z\<lparr>z_state := ZCHALLENGE\<rparr>)"

section \<open>ZCRC\<close>

text \<open>
  The loop that reads the file one byte at a time to its end or while \<open>want\<close> holds of the number
  of bytes: the file behind it, its CRC and the number. A read error does not set the end-of-file
  indicator, so the loop never ends.
\<close>

function crc_file_loop ::
    "u32 list \<Rightarrow> (int \<Rightarrow> bool) \<Rightarrow> cfile \<Rightarrow> u32 \<Rightarrow> int \<Rightarrow> fault + cfile \<times> u32 \<times> int" where
  "crc_file_loop tab want f crc cnt =
     (if f_eof f \<or> \<not> want cnt then Inr (f, crc, cnt)
      else if f_bad f then Inl Diverges
      else (let (bs, f1) = fread 1 f in
            crc_file_loop tab want f1 (NOT (compute_crc32 tab crc bs)) (c_int (cnt + int (length bs)))))"
  by pat_completeness auto
termination
  by (relation "measure (\<lambda>(tab, want, f, crc, cnt).
        if f_eof f then 0 else Suc (length (f_data f) - f_pos f))")
     (auto simp: fread_def Let_def slice_def min_def split: if_splits)

declare crc_file_loop.simps [simp del]

definition receive_zcrc :: "zmodem \<Rightarrow> z_step" where
  "receive_zcrc z =
     (case z_file_stream z of
        None \<Rightarrow> Inl Null_pointer
      | Some f \<Rightarrow>
          z_again (bind_res (crc_file_loop (z_crc_32_tab z) (\<lambda>_. True) (fseek_set 0 f) crc32_preset 0)
            (\<lambda>(f1, crc, cnt).
             bind_res (send_header P_ZCRC (word_of_int cnt)
                 (z\<lparr>z_file_stream := Some (fseek_set (z_file_position z) f1), z_file_crc32 := NOT crc\<rparr>))
            (\<lambda>z1. Inr (z1\<lparr>z_state := ZCRC_WAIT, packet_buffer_n := 0\<rparr>)))))"

text \<open>
  Names: the download directory, the name of the file and a suffix are printed into an array of
  \<open>FILENAME_SIZE\<close> bytes. \<open>free_name\<close> tries \<open>.0000\<close>, \<open>.0001\<close>, ... until no file has the name
  (\<open>True\<close>) or \<open>stat\<close> fails with another error.
\<close>

definition set_fullname :: "byte list \<Rightarrow> zmodem \<Rightarrow> fault + zmodem" where
  "set_fullname suffix z =
     (case (z_download_path z, z_file_name z) of
        (Some dp, Some name) \<Rightarrow>
          (let full = dp @ [47] @ name @ suffix in
           if FILENAME_SIZE \<le> length full then Inl Buffer_overflow
           else Inr (z\<lparr>z_file_fullname := full\<rparr>))
      | _ \<Rightarrow> Inl Null_pointer)"

definition name_suffix :: "nat \<Rightarrow> byte list" where
  "name_suffix i = (let ds = digits_of 10 i in [46] @ replicate (4 - length ds) 48 @ ds)"

partial_function (option) free_name :: "nat \<Rightarrow> zmodem \<Rightarrow> z_step option" where
  "free_name i z =
     (case set_fullname (name_suffix i) z of
        Inl e \<Rightarrow> Some (Inl e)
      | Inr z1 \<Rightarrow>
          if disk (fsys (world z1)) (z_file_fullname z1) = None
          then Some (Inr (\<not> stat_refused (fsys (world z1)) (z_file_fullname z1), z1))
          else free_name (i + 1) z1)"

definition new_name :: "zmodem \<Rightarrow> z_step" where
  "new_name z = (case free_name 0 z of None \<Rightarrow> Inl Diverges | Some r \<Rightarrow> r)"

text \<open>\<open>fopen\<close> for update or anew, the position at the end, and the statistics.\<close>

definition open_download :: "bool \<Rightarrow> zmodem \<Rightarrow> zmodem option" where
  "open_download exists z =
     (let p = z_file_fullname z; fs = fsys (world z) in
      map_option (\<lambda>f.
          z_stats_new_file p (sint (z_file_size z))
            (z\<lparr>z_file_stream := Some (snd (fseek_end 0 f)),
               world := (world z)\<lparr>fsys := if exists then fs else created p fs\<rparr>\<rparr>))
        (if exists then fopen_rplus p fs else fopen_wb p fs))"

definition z_abort_with :: "string \<Rightarrow> zmodem \<Rightarrow> zmodem" where
  "z_abort_with m z = z_abort (z_message m z)"

definition zcrc_answer :: "zmodem \<Rightarrow> z_step" where
  "zcrc_answer z =
     (if p_argument (packet z) = z_file_crc32 z then
        Inr (False, z\<lparr>z_state := if uint (z_file_size z) = z_file_position z then ZSKIP else ZRPOS\<rparr>)
      else
        bind_res (new_name z) (\<lambda>(free, z1).
          if \<not> free then Inr (True, z_abort_with ''DISK I/O ERROR'' z1)
          else case open_download False (z1\<lparr>z_file_position := 0\<rparr>) of
            None \<Rightarrow>
              Inr (True, z_abort_with ''CANNOT CREATE FILE''
                           (z1\<lparr>z_file_position := 0, z_file_stream := None\<rparr>))
          | Some z2 \<Rightarrow> Inr (False, z2\<lparr>z_state := ZRPOS\<rparr>)))"

definition receive_zcrc_wait :: "zmodem \<Rightarrow> z_step" where
  "receive_zcrc_wait =
     await_header garbled_header
       (\<lambda>z. if p_type (packet z) = P_ZCRC then zcrc_answer z
            else if p_type (packet z) = P_ZNAK then
              Inr (False, (z_stats_increment_errors ''ZNAK'' z)\<lparr>z_state := ZCRC\<rparr>)
            else if p_type (packet z) = P_ZFILE then
              Inr (False, (z_stats_increment_errors ''Sender does not understand ZCRC!'' z)
                            \<lparr>z_state := ZRPOS\<rparr>)
            else Inr (True, z_abort z))
       (\<lambda>z. z\<lparr>z_state := ZCRC\<rparr>)"

section \<open>ZRINIT\<close>

definition receive_zrinit :: "zmodem \<Rightarrow> z_step" where
  "receive_zrinit z =
     (let options = TX_CAN_FULL_DUPLEX OR TX_CAN_OVERLAP_IO
                      OR (if z_use_crc32 z then TX_CAN_CRC32 else 0)
                      OR (if zescape_ctrl_option z then TX_ESCAPE_CTRL else 0)
      in z_again (bind_res (send_header P_ZRINIT options (z\<lparr>z_flags := options\<rparr>))
           (\<lambda>z1. Inr (z1\<lparr>z_state := ZRINIT_WAIT, packet_buffer_n := 0\<rparr>))))"

definition back_to_zrinit :: "zmodem \<Rightarrow> zmodem" where
  "back_to_zrinit z = z\<lparr>z_state := if z_prior_state z = ZSKIP then ZSKIP else ZRINIT\<rparr>"

definition zsinit_options :: "zmodem \<Rightarrow> zmodem" where
  "zsinit_options z =
     (let arg = p_argument (packet z);
          f1 = (if arg AND TX_ESCAPE_CTRL \<noteq> 0 then z_flags z OR TX_ESCAPE_CTRL else z_flags z);
          f2 = (if arg AND TX_ESCAPE_8BIT \<noteq> 0 then f1 OR TX_ESCAPE_8BIT else f1)
      in setup_encode_byte_map (z\<lparr>z_flags := f2\<rparr>))"

definition receive_zrinit_wait :: "zmodem \<Rightarrow> z_step" where
  "receive_zrinit_wait =
     await_header garbled_header
       (\<lambda>z. if p_type (packet z) = P_ZFIN then
              z_again (bind_res (send_header P_ZFIN 0 (z_message ''ZFIN'' z))
                (\<lambda>z1. Inr (z1\<lparr>z_state := ZFIN_WAIT\<rparr>)))
            else if p_type (packet z) = P_ZRQINIT then
              Inr (False, fresh_crc ((z_message ''ZRINIT'' z)\<lparr>z_state := ZRINIT\<rparr>))
            else if p_type (packet z) = P_ZSINIT then
              Inr (False, switch_to_zdata ZRINIT_WAIT (zsinit_options (z_message ''ZSINIT'' z)))
            else if p_type (packet z) = P_ZCOMMAND then
              Inr (False, z_message ''ERROR: ZCOMMAND NOT SUPPORTED'' z)
            else if p_type (packet z) = P_ZFILE then
              Inr (False, switch_to_zdata ZRINIT_WAIT (z_message ''ZFILE'' z))
            else if p_type (packet z) = P_ZNAK then
              Inr (False, back_to_zrinit (z_stats_increment_errors ''ZNAK'' z))
            else Inr (True, z_abort z))
       back_to_zrinit"

section \<open>ZRPOS\<close>

definition receive_zrpos :: "zmodem \<Rightarrow> z_step" where
  "receive_zrpos z =
     z_again (bind_res (send_header P_ZRPOS (word_of_int (z_file_position z)) z)
       (\<lambda>z1. Inr (z1\<lparr>z_state := ZRPOS_WAIT, packet_buffer_n := 0\<rparr>)))"

text \<open>A file is complete: closed, its time set, its name freed.\<close>

definition close_download :: "zmodem \<Rightarrow> fault + zmodem" where
  "close_download z =
     (if z_file_stream z = None then Inl Null_pointer
      else if z_file_name z = None then Inl Assert_failed
      else
       (let z1 = z_fclose z
        in Inr (z1\<lparr>world := (world z1)\<lparr>fsys := utime (z_file_fullname z1) (z_file_modtime z1)
                                                 (fsys (world z1))\<rparr>,
                   z_file_name := None, z_file_stream := None\<rparr>)))"

definition zeof_arrived :: "zmodem \<Rightarrow> z_step" where
  "zeof_arrived z =
     (let z1 = z_message ''ZEOF'' (z_stats (\<lambda>t. t\<lparr>ts_state := Q_TRANSFER_STATE_FILE_DONE\<rparr>) z) in
      if z_file_position z1 = uint (p_argument (packet z1)) then
        z_again (bind_res (close_download z1) (\<lambda>z2.
          bind_res (send_header P_ZRINIT 0 z2) (\<lambda>z3.
            Inr ((z_message ''ZRINIT'' z3)\<lparr>z_state := ZRINIT_WAIT\<rparr>))))
      else Inr (False, (z_stats_increment_errors ''BAD FILE POSITION FROM SENDER'' z1)
                         \<lparr>z_state := ZRPOS\<rparr>))"

definition receive_zrpos_wait :: "zmodem \<Rightarrow> z_step" where
  "receive_zrpos_wait =
     await_header
       (\<lambda>z. if z_prior_state z \<noteq> ZRPOS_WAIT then garbled_header z else Inr (False, z))
       (\<lambda>z. if p_type (packet z) = P_ZEOF then zeof_arrived z
            else if p_type (packet z) = P_ZDATA then
              Inr (False, switch_to_zdata ZRPOS_WAIT (z_message ''ZDATA'' z))
            else if p_type (packet z) = P_ZNAK then
              Inr (False, (z_stats_increment_errors ''ZNAK'' z)\<lparr>z_state := ZRPOS\<rparr>)
            else Inr (True, z_abort z))
       (\<lambda>z. z\<lparr>z_state := ZRPOS\<rparr>)"

section \<open>ZFILE\<close>

text \<open>\<open>%u\<close>: \<open>None\<close> without a digit, otherwise the number and what follows it.\<close>

definition scan_unsigned :: "cstring \<Rightarrow> (u32 \<times> cstring) option" where
  "scan_unsigned s =
     (let (neg, ds) = scan_sign s; dd = takeWhile (is_digit 10) ds; n = int (number_of 10 dd)
      in if dd = [] then None
         else Some (if 2 ^ 64 \<le> n then - 1 else word_of_int (if neg then - n else n),
                    dropWhile (is_digit 10) ds))"

text \<open>Of what \<open>sscanf\<close> stores only the size and the time are used.\<close>

definition zfile_attributes :: "cstring \<Rightarrow> zmodem \<Rightarrow> zmodem" where
  "zfile_attributes s z =
     (case scan_unsigned s of
        None \<Rightarrow> z
      | Some (sz, rest) \<Rightarrow>
         (case scan_octal rest of
            None \<Rightarrow> z\<lparr>z_file_size := sz\<rparr>
          | Some t \<Rightarrow> z\<lparr>z_file_size := sz, z_file_modtime := t\<rparr>))"

definition zfile_open :: "bool \<Rightarrow> zmodem \<Rightarrow> z_step" where
  "zfile_open exists z =
     (case open_download exists z of
        None \<Rightarrow> Inr (True, z_abort_with ''CANNOT CREATE FILE'' (z\<lparr>z_file_stream := None\<rparr>))
      | Some z1 \<Rightarrow>
          Inr (False, z_stats (\<lambda>t. t\<lparr>ts_bytes_transfer := word_of_int (z_file_position z1)\<rparr>) z1))"

definition receive_zfile :: "zmodem \<Rightarrow> z_step" where
  "receive_zfile z =
     (let data = p_data (packet z); name = c_str data in
      if 0 \<notin> set data then Inl Buffer_overflow
      else
        bind_res (set_fullname []
            (zfile_attributes (c_str (drop (length name + 1) data)) (z\<lparr>z_file_name := Some name\<rparr>)))
        (\<lambda>z1.
          case disk (fsys (world z1)) (z_file_fullname z1) of
            None \<Rightarrow>
              if stat_refused (fsys (world z1)) (z_file_fullname z1)
              then Inr (True, z_abort_with ''DISK I/O ERROR'' z1)
              else zfile_open False (z_message ''ZRPOS'' (z1\<lparr>z_file_position := 0, z_state := ZRPOS\<rparr>))
          | Some d \<Rightarrow>
             (let z2 = z1\<lparr>z_file_position := int (length d)\<rparr>; sz = uint (z_file_size z2) in
              if sz < z_file_position z2 then
                bind_res (new_name z2) (\<lambda>(free, z3).
                  if \<not> free then Inr (True, z_abort_with ''DISK I/O ERROR'' z3)
                  else zfile_open False (z3\<lparr>z_file_position := 0, z_state := ZRPOS\<rparr>))
              else if sz = z_file_position z2 \<or> 0 < sz then
                zfile_open True ((z_message ''ZCRC'' z2)\<lparr>z_state := ZCRC\<rparr>)
              else zfile_open True ((z_message ''ZRPOS'' z2)\<lparr>z_state := ZRPOS\<rparr>))))"

section \<open>ZDATA\<close>

text \<open>
  A subpacket with a good CRC inside a file: written, counted, acknowledged. \<open>build_packet\<close> uses
  the same \<open>packet\<close> for the ZACK, so type and CRC width of the frame are lost there.
\<close>

definition zdata_write :: "zmodem \<Rightarrow> fault + zmodem" where
  "zdata_write z =
     (case z_file_stream z of
        None \<Rightarrow> Inl Null_pointer
      | Some f \<Rightarrow>
         (let n = p_data_n (packet z);
              z1 = z\<lparr>z_file_stream := Some (snd (fwrite (take n (p_data (packet z))) f)),
                     z_file_position := z_file_position z + int n,
                     z_block_size := int n\<rparr>;
              z2 = z_stats_increment_blocks
                     (z_stats (\<lambda>t. t\<lparr>ts_bytes_transfer := ts_bytes_transfer t + of_nat n\<rparr>) z1)
          in Inr (fresh_crc (z2\<lparr>packet := (packet z2)\<lparr>p_data_n := 0\<rparr>\<rparr>))))"

definition zdata_in_file :: "byte \<Rightarrow> zmodem \<Rightarrow> z_step" where
  "zdata_in_file crc_type z =
     bind_res (zdata_write z) (\<lambda>z1.
     bind_res (if crc_type \<in> {ZCRCW, ZCRCQ}
               then send_header P_ZACK (big_to_little_endian (word_of_int (z_file_position z1))) z1
               else Inr z1) (\<lambda>z2.
       Inr (False, z2\<lparr>z_state := if crc_type \<in> {ZCRCE, ZCRCW} then ZRPOS_WAIT else ZDATA\<rparr>)))"

text \<open>The state after a subpacket that is not part of a file.\<close>

definition zdata_next :: "zmodem \<Rightarrow> z_step" where
  "zdata_next z =
     (if z_prior_state z = ZRINIT_WAIT then
       (if p_type (packet z) = P_ZFILE then Inr (False, z\<lparr>z_state := ZFILE\<rparr>)
        else if p_type (packet z) = P_ZSINIT then z_done (send_header P_ZACK 0 (z\<lparr>z_state := ZRINIT_WAIT\<rparr>))
        else if p_type (packet z) = P_ZCOMMAND then
          z_done (send_header P_ZCOMPL 1 (z\<lparr>z_state := ZRINIT_WAIT\<rparr>))
        else Inr (False, z\<lparr>z_state := ZDATA\<rparr>))
      else Inr (False, z\<lparr>z_state := ZDATA\<rparr>))"

definition zdata_crc_error :: "zmodem \<Rightarrow> z_step" where
  "zdata_crc_error z =
     (if z_prior_state z = ZRPOS_WAIT then
        z_done (bind_res (send_header P_ZRPOS (word_of_int (z_file_position z))
                            ((z_stats_increment_errors ''CRC ERROR'' z)\<lparr>packet_buffer_n := 0\<rparr>))
          (\<lambda>z1. Inr (z1\<lparr>z_state := ZRPOS_WAIT\<rparr>)))
      else if z_prior_state z = ZRINIT_WAIT then
        z_done (bind_res (send_header P_ZNAK 0
                            ((z_stats_increment_errors ''CRC ERROR'' z)\<lparr>packet_buffer_n := 0\<rparr>))
          (\<lambda>z1. Inr (z1\<lparr>z_state := ZRINIT_WAIT\<rparr>)))
      else zdata_next z)"

text \<open>The CRC over the data and the type byte, which is stored behind the data for that.\<close>

definition zdata_check :: "zmodem \<Rightarrow> bool \<times> zmodem" where
  "zdata_check z =
     (let p = packet z; crc = p_crc_buffer p; n = p_data_n p;
          p1 = p\<lparr>p_data := (p_data p)[n := crc ! 0]\<rparr>;
          covered = take (n + 1) (p_data p1)
      in if p_use_crc32 p then
           (let c = compute_crc32 (z_crc_32_tab z) crc32_preset covered
            in (or_up 0 (take 4 (drop 1 crc)) = c, z\<lparr>packet := p1\<lparr>p_crc32 := c\<rparr>\<rparr>))
         else
           (let c = compute_crc16 (p_crc16 p) covered
            in (or_down 8 (take 2 (drop 1 crc)) = c, z\<lparr>packet := p1\<lparr>p_crc16 := c\<rparr>\<rparr>)))"

definition zdata_received :: "zmodem \<Rightarrow> z_step" where
  "zdata_received z =
     (let crc_type = p_crc_buffer (packet z) ! 0 in
      if crc_type \<notin> set crc_escapes then Inr (True, z_abort z)
      else if length (p_data (packet z)) \<le> p_data_n (packet z) then Inl Buffer_overflow
      else
       (let (crc_ok, z1) = zdata_check z in
        if \<not> crc_ok then zdata_crc_error z1
        else if z_prior_state z1 = ZRPOS_WAIT then zdata_in_file crc_type z1
        else zdata_next z1))"

definition receive_zdata :: "zmodem \<Rightarrow> z_step" where
  "receive_zdata z =
     bind_res (decode_zdata_bytes z) (\<lambda>(complete, z1).
       if complete then zdata_received z1
       else Inr (True, if 0 < packet_buffer_n z1 then z1\<lparr>packet := (packet z1)\<lparr>p_data_n := 0\<rparr>\<rparr> else z1))"

section \<open>ZSKIP\<close>

definition receive_zskip :: "zmodem \<Rightarrow> z_step" where
  "receive_zskip z =
     z_again (bind_res (close_download z) (\<lambda>z1.
       bind_res (send_header P_ZSKIP 0 z1) (\<lambda>z2.
         Inr ((z_message ''ZSKIP'' (z_stats (\<lambda>t. t\<lparr>ts_state := Q_TRANSFER_STATE_FILE_DONE\<rparr>) z2))
                \<lparr>z_prior_state := ZSKIP, z_state := ZRINIT_WAIT, packet_buffer_n := 0\<rparr>))))"

section \<open>The loop\<close>

text \<open>As much of the input as fits goes behind the bytes in \<open>packet_buffer\<close>.\<close>

definition add_input :: "byte list \<Rightarrow> zmodem \<Rightarrow> byte list \<times> zmodem" where
  "add_input input z =
     (let n = packet_buffer_n z; k = min (length input) (length (packet_buffer z) - n)
      in (drop k input,
          z\<lparr>packet_buffer := blit n (take k input) (packet_buffer z), packet_buffer_n := n + k\<rparr>))"

definition receive_init :: "zmodem \<Rightarrow> zmodem" where
  "receive_init z =
     (if zchallenge_option z then (z_message ''ZCHALLENGE'' z)\<lparr>z_state := ZCHALLENGE\<rparr>
      else fresh_crc ((z_message ''ZRINIT'' z)\<lparr>z_state := ZRINIT\<rparr>))"

definition receive_over_and_out :: "zmodem \<Rightarrow> zmodem" where
  "receive_over_and_out z =
     (let z1 = z_stop_file_transfer Q_TRANSFER_STATE_END (z_message ''SUCCESS'' (z\<lparr>z_state := Z_COMPLETE\<rparr>))
      in z_stats (\<lambda>t. t\<lparr>ts_end_time := now (world z1)\<rparr>) z1)"

definition receive_dispatch :: "zmodem \<Rightarrow> z_step" where
  "receive_dispatch z =
     (case z_state z of
        Z_INIT \<Rightarrow> Inr (False, receive_init z)
      | ZCHALLENGE \<Rightarrow> receive_zchallenge z
      | ZCHALLENGE_WAIT \<Rightarrow> receive_zchallenge_wait z
      | ZCRC \<Rightarrow> receive_zcrc z
      | ZCRC_WAIT \<Rightarrow> receive_zcrc_wait z
      | ZRINIT \<Rightarrow> receive_zrinit z
      | ZRINIT_WAIT \<Rightarrow> receive_zrinit_wait z
      | ZRPOS \<Rightarrow> receive_zrpos z
      | ZRPOS_WAIT \<Rightarrow> receive_zrpos_wait z
      | ZFILE \<Rightarrow> receive_zfile z
      | ZSKIP \<Rightarrow> receive_zskip z
      | ZDATA \<Rightarrow> receive_zdata z
      | ZFIN_WAIT \<Rightarrow> Inr (True, receive_over_and_out z)
      | Z_ABORT \<Rightarrow> Inr (True, z)
      | Z_COMPLETE \<Rightarrow> Inr (True, z)
      | _ \<Rightarrow> Inl Abort_called)"

partial_function (option) receive_loop :: "byte list \<Rightarrow> zmodem \<Rightarrow> (fault + zmodem) option" where
  "receive_loop input z =
     (let (rest, z1) = add_input input z in
      case receive_dispatch z1 of
        Inl e \<Rightarrow> Some (Inl e)
      | Inr (fin, z2) \<Rightarrow> if fin then Some (Inr z2) else receive_loop rest z2)"

definition zmodem_receive :: "byte list \<Rightarrow> zmodem \<Rightarrow> fault + zmodem" where
  "zmodem_receive input z = (case receive_loop input z of None \<Rightarrow> Inl Diverges | Some r \<Rightarrow> r)"

end
