(* ===== verification/Zmodem_Send.thy ===== *)
theory Zmodem_Send
  imports Zmodem_Receive
begin

text \<open>
  The sending side of \<open>zmodem.c\<close>: one definition per \<open>send_...\<close> function, in the order of the code,
  with \<open>send_zdata\<close> in sections; and the loop that dispatches on the state.
\<close>

section \<open>ZRQINIT, ZSINIT\<close>

definition send_zrqinit :: "zmodem \<Rightarrow> z_step" where
  "send_zrqinit z =
     z_again (bind_res (send_header P_ZRQINIT 0 z)
       (\<lambda>z1. Inr (z1\<lparr>z_state := ZRQINIT_WAIT, packet_buffer_n := 0\<rparr>)))"

text \<open>Every capability the receiver names is added to the flags.\<close>

definition zrinit_options :: "zmodem \<Rightarrow> zmodem" where
  "zrinit_options z =
     (let arg = p_argument (packet z);
          flags = foldl (\<lambda>f b. if arg AND b \<noteq> 0 then f OR b else f) (z_flags z)
            [TX_ESCAPE_CTRL, TX_ESCAPE_8BIT, TX_CAN_FULL_DUPLEX, TX_CAN_OVERLAP_IO, TX_CAN_BREAK,
             TX_CAN_DECRYPT, TX_CAN_LZW, TX_CAN_CRC32]
      in setup_encode_byte_map
           (z\<lparr>z_flags := flags, z_use_crc32 := (z_use_crc32 z \<or> arg AND TX_CAN_CRC32 \<noteq> 0)\<rparr>))"

definition send_zrqinit_wait :: "zmodem \<Rightarrow> z_step" where
  "send_zrqinit_wait =
     await_header garbled_header
       (\<lambda>z. if p_type (packet z) = P_ZRINIT then
              Inr (False, (zrinit_options (z_message ''ZRINIT'' z))\<lparr>z_state := ZSINIT\<rparr>)
            else if p_type (packet z) = P_ZCHALLENGE then
              z_again (send_header P_ZACK (p_argument (packet z)) z)
            else if p_type (packet z) = P_ZNAK then
              Inr (False, (z_stats_increment_errors ''ZNAK'' z)\<lparr>z_state := ZRQINIT\<rparr>)
            else Inr (True, z_abort z))
       (\<lambda>z. z\<lparr>z_state := ZRQINIT\<rparr>)"

text \<open>The data of \<open>packet\<close> as a subpacket, into the output buffer or into the queue.\<close>

definition send_subpacket :: "bool \<Rightarrow> byte \<Rightarrow> zmodem \<Rightarrow> fault + zmodem" where
  "send_subpacket wide t z =
     (let z1 = z\<lparr>packet := (packet z)\<lparr>p_use_crc32 := wide\<rparr>\<rparr> in
      bind_res (encode_zdata_bytes (encode_byte_map z1) (z_crc_32_tab z1) (packet z1) t
                  (out_buffer z1, out_n z1))
        (\<lambda>(arr, n). Inr (z1\<lparr>out_buffer := arr, out_n := n\<rparr>)))"

definition queue_subpacket :: "bool \<Rightarrow> byte \<Rightarrow> zmodem \<Rightarrow> fault + zmodem" where
  "queue_subpacket wide t z =
     (let z1 = z\<lparr>packet := (packet z)\<lparr>p_use_crc32 := wide\<rparr>\<rparr> in
      bind_res (encode_zdata_bytes (encode_byte_map z1) (z_crc_32_tab z1) (packet z1) t
                  (outbound_packet z1, outbound_packet_n z1))
        (\<lambda>(arr, n). Inr (z1\<lparr>outbound_packet := arr, outbound_packet_n := n\<rparr>)))"

definition send_zsinit :: "zmodem \<Rightarrow> z_step" where
  "send_zsinit z =
     z_again (bind_res
       (if z_flags z AND TX_ESCAPE_CTRL = 0 \<and> zescape_ctrl_option z then
          bind_res (send_header P_ZSINIT TX_ESCAPE_CTRL z) (\<lambda>z1.
            let z2 = z_message ''ZSINIT'' (z1\<lparr>z_state := ZSINIT_WAIT\<rparr>) in
            send_subpacket False ZCRCW
              (z2\<lparr>packet := (packet z2)\<lparr>p_data := (p_data (packet z2))[0 := 0], p_data_n := 1\<rparr>\<rparr>))
        else Inr ((z_message ''ZFILE'' z)\<lparr>z_state := ZFILE\<rparr>))
       (\<lambda>z3. Inr (z3\<lparr>packet_buffer_n := 0\<rparr>)))"

definition send_zsinit_wait :: "zmodem \<Rightarrow> z_step" where
  "send_zsinit_wait =
     await_header garbled_header
       (\<lambda>z. if p_type (packet z) = P_ZACK then
              Inr (False, (z_message ''ZFILE'' (z_message ''ZACK'' z))\<lparr>z_state := ZFILE\<rparr>)
            else if p_type (packet z) = P_ZNAK then
              Inr (False, (z_stats_increment_errors ''ZNAK'' z)\<lparr>z_state := ZSINIT\<rparr>)
            else Inr (True, z_abort z))
       (\<lambda>z. z\<lparr>z_state := ZSINIT\<rparr>)"

section \<open>ZFILE\<close>

text \<open>\<open>%d\<close>; and the text \<open>"%s %d %lo 0 0 1 %d"\<close>, of which 2056 bytes fit.\<close>

definition signed_digits :: "int \<Rightarrow> byte list" where
  "signed_digits i = (if i < 0 then 45 # digits_of 10 (nat (- i)) else digits_of 10 (nat i))"

definition zfile_text :: "path \<Rightarrow> u32 \<Rightarrow> int \<Rightarrow> byte list" where
  "zfile_text name sz mtime =
     take (ZMODEM_MAX_BLOCK_SIZE - 2)
       (name @ [32] @ signed_digits (sint sz) @ [32] @ digits_of 8 (nat (mtime mod 2 ^ 64))
          @ [32, 48, 32, 48, 32, 49, 32] @ signed_digits (sint sz))"

definition send_zfile :: "zmodem \<Rightarrow> z_step" where
  "send_zfile z =
     z_again (bind_res (send_header P_ZFILE 0 z) (\<lambda>z1.
       case z_file_name z1 of
         None \<Rightarrow> Inl Null_pointer
       | Some name \<Rightarrow>
          (let p = packet z1;
               text = zfile_text name (z_file_size z1) (z_file_modtime z1);
               data = blit 0 (text @ [0]) (p_data p)
           in if length data \<le> length name then Inl Buffer_overflow
              else bind_res (send_subpacket (z_use_crc32 z1) ZCRCW
                     (z1\<lparr>z_state := ZFILE_WAIT,
                         packet := p\<lparr>p_data := data[length name := 0], p_data_n := length text + 1\<rparr>\<rparr>))
                   (\<lambda>z2. Inr (z2\<lparr>packet_buffer_n := 0\<rparr>)))))"

text \<open>The file is done: statistics, closing, and the next one.\<close>

definition next_upload :: "zmodem \<Rightarrow> fault + zmodem" where
  "next_upload z =
     (let z1 = z_message ''ZRINIT''
                 (z_stats (\<lambda>t. t\<lparr>ts_batch_bytes_transfer := ts_batch_bytes_transfer t + ucast (z_file_size z),
                                 ts_state := Q_TRANSFER_STATE_FILE_DONE\<rparr>) z)
      in if z_file_stream z1 = None then Inl Null_pointer
         else if z_file_name z1 = None then Inl Assert_failed
         else
          bind_res (z_setup_for_next_file
              ((z_fclose z1)\<lparr>z_file_name := None, z_file_stream := None,
                              z_upload_file_list_i := z_upload_file_list_i z1 + 1\<rparr>))
            (\<lambda>(ok, z2). Inr z2))"

definition zdata_header :: "zmodem \<Rightarrow> fault + zmodem" where
  "zdata_header z = send_header P_ZDATA (big_to_little_endian (word_of_int (z_file_position z))) z"

text \<open>\<open>status.file_position = ...; fseek(...)\<close>\<close>

definition seek_upload :: "u32 \<Rightarrow> zmodem \<Rightarrow> fault + zmodem" where
  "seek_upload pos z =
     (case z_file_stream z of
        None \<Rightarrow> Inl Null_pointer
      | Some f \<Rightarrow> Inr (z\<lparr>z_file_position := uint pos, z_file_stream := Some (fseek_set (uint pos) f)\<rparr>))"

definition zfile_zrpos :: "zmodem \<Rightarrow> z_step" where
  "zfile_zrpos z =
     (if z_file_size z < p_argument (packet z) then Inr (True, z_abort z)
      else z_again (bind_res (seek_upload (p_argument (packet z)) z) (\<lambda>z1.
             bind_res (zdata_header z1) (\<lambda>z2.
               Inr (z2\<lparr>z_prior_state := ZFILE_WAIT, z_state := ZDATA, z_ack_required := False\<rparr>)))))"

definition zfile_zcrc :: "zmodem \<Rightarrow> z_step" where
  "zfile_zcrc z =
     (case z_file_stream z of
        None \<Rightarrow> Inl Null_pointer
      | Some f \<Rightarrow>
          z_again (bind_res
            (crc_file_loop (z_crc_32_tab z) (\<lambda>n. word_of_int n < p_argument (packet z))
               (fseek_set 0 f) crc32_preset 0)
            (\<lambda>(f1, crc, cnt).
               send_header P_ZCRC (NOT crc)
                 (z\<lparr>z_file_stream := Some (fseek_set (z_file_position z) f1), z_file_crc32 := NOT crc\<rparr>))))"

definition send_zfile_wait :: "zmodem \<Rightarrow> z_step" where
  "send_zfile_wait =
     await_header garbled_header
       (\<lambda>z. if p_type (packet z) = P_ZRPOS then zfile_zrpos (z_message ''ZRPOS'' z)
            else if p_type (packet z) = P_ZNAK then
              Inr (False, (z_stats_increment_errors ''ZNAK'' z)\<lparr>z_state := ZFILE\<rparr>)
            else if p_type (packet z) = P_ZCRC then zfile_zcrc (z_message ''ZCRC'' z)
            else if p_type (packet z) = P_ZSKIP then z_again (next_upload (z_message ''ZSKIP'' z))
            else Inr (True, z_abort z))
       (\<lambda>z. z\<lparr>z_state := ZFILE\<rparr>)"

section \<open>ZDATA\<close>

text \<open>
  The sections of \<open>send_zdata\<close>. Each returns from the whole function with a value (\<open>Return\<close>) or lets
  control fall through (\<open>Next\<close>, where the value is not used).
\<close>

type_synonym z_ctl = "fault + (bool \<times> zmodem) ctl"

definition z_return :: "bool \<Rightarrow> fault + zmodem \<Rightarrow> z_ctl" where
  "z_return fin m = bind_res m (\<lambda>z. Inr (Return (fin, z)))"

definition z_fall :: "fault + zmodem \<Rightarrow> z_ctl" where
  "z_fall m = bind_res m (\<lambda>z. Inr (Next (False, z)))"

definition zdata_zskip :: "zmodem \<Rightarrow> z_ctl" where
  "zdata_zskip z =
     z_return False (bind_res
       (send_subpacket (z_use_crc32 z) ZCRCW (z\<lparr>outbound_packet_n := 0, out_n := 0\<rparr>))
       (\<lambda>z1. Inr ((z_message ''ZEOF'' z1)\<lparr>z_state := ZEOF\<rparr>)))"

text \<open>The first ZRPOS says that there was an error; a second one answers the empty ZCRCW.\<close>

definition zdata_first_zrpos :: "zmodem \<Rightarrow> zmodem" where
  "zdata_first_zrpos z =
     (z_stats_increment_errors ''CRC ERROR'' z)
       \<lparr>z_ack_required := True, z_waiting_for_ack := False, out_n := 0, outbound_packet_n := 0,
        z_streaming_zdata := False, packet_buffer_n := 0\<rparr>"

definition zdata_zrpos :: "zmodem \<Rightarrow> z_ctl" where
  "zdata_zrpos z =
     (let got_error = (\<not> z_ack_required z);
          z1 = (if got_error then zdata_first_zrpos z
                else z\<lparr>z_ack_required := False, z_waiting_for_ack := False\<rparr>);
          pos = p_argument (packet z1)
      in if z_file_size z1 < pos then Inr (Return (True, z_abort z1))
         else
          (let z2 = z1\<lparr>z_confirmed_bytes := sint pos\<rparr> in
           bind_res (if got_error then block_size_down z2 else Inr z2) (\<lambda>z3.
             if got_error \<and> z_state z3 = Z_ABORT then Inr (Return (True, z3))
             else
              z_fall (bind_res (seek_upload (p_argument (packet z3)) z3) (\<lambda>z4.
                zdata_header
                  (z_stats (\<lambda>t. t\<lparr>ts_bytes_transfer := word_of_int (z_file_position z4)\<rparr>) z4))))))"

definition zdata_zack :: "zmodem \<Rightarrow> z_ctl" where
  "zdata_zack z =
     (let z1 = z\<lparr>z_ack_required := False, z_waiting_for_ack := False\<rparr>;
          pos = big_to_little_endian (p_argument (packet z1));
          zeof = (\<lambda>z. Inr (Return (False, (z_message ''ZEOF'' z)\<lparr>z_state := ZEOF\<rparr>)))
      in if z_file_size z1 < pos then zeof z1
         else
          bind_res (seek_upload pos z1) (\<lambda>z2.
            let z3 = block_size_up (z2\<lparr>z_confirmed_bytes := c_int (z_file_position z2)\<rparr>) in
            if z_file_position z3 = uint (z_file_size z3) then zeof z3
            else
             (let z4 = z_stats (\<lambda>t. t\<lparr>ts_bytes_transfer := word_of_int (z_file_position z3)\<rparr>) z3 in
              if z_streaming_zdata z4 then Inr (Next (False, z4))
              else z_fall (bind_res (zdata_header z4) (\<lambda>z5. Inr (z5\<lparr>z_streaming_zdata := True\<rparr>))))))"

text \<open>After a ZNAK the state is ZRPOS, a state of the receiver, and the function goes on.\<close>

definition zdata_input :: "zmodem \<Rightarrow> z_ctl" where
  "zdata_input z =
     (if 0 < packet_buffer_n z then
       (let (r, z1) = next_header z in
        case r of
          ZM_PP_CRCERROR \<Rightarrow> bind_res (garbled_header z1) (\<lambda>x. Inr (Return x))
        | ZM_PP_INVALID \<Rightarrow> bind_res (garbled_header z1) (\<lambda>x. Inr (Return x))
        | ZM_PP_NODATA \<Rightarrow> Inr (Return (True, z1))
        | ZM_PP_OK \<Rightarrow>
           (if p_type (packet z1) = P_ZSKIP then zdata_zskip z1
            else if p_type (packet z1) = P_ZRPOS then zdata_zrpos z1
            else if p_type (packet z1) = P_ZACK then zdata_zack z1
            else if p_type (packet z1) = P_ZNAK then
              Inr (Next (False, (z_stats_increment_errors ''ZNAK'' z1)\<lparr>z_state := ZRPOS\<rparr>))
            else Inr (Return (True, z_abort z1))))
      else if z_waiting_for_ack z then
       (let (t, z1) = z_check_timeout z in
        if t then Inr (Next (False, z1\<lparr>z_ack_required := True, z_waiting_for_ack := False\<rparr>))
        else Inr (Return (True, z1)))
      else Inr (Next (False, z)))"

text \<open>
  How a block ends: ZCRCW after the last one, ZCRCQ when the window is used up, otherwise ZCRCG.
  \<open>put\<close> is the output buffer or the queue.
\<close>

definition zdata_emit :: "(bool \<Rightarrow> byte \<Rightarrow> zmodem \<Rightarrow> fault + zmodem) \<Rightarrow> bool \<Rightarrow> zmodem \<Rightarrow> fault + zmodem" where
  "zdata_emit put last_block z =
     (if last_block then
        bind_res (put (z_use_crc32 z) ZCRCW z) (\<lambda>z1. Inr (z1\<lparr>z_waiting_for_ack := True\<rparr>))
      else
       (let z1 = z\<lparr>z_blocks_ack_count := z_blocks_ack_count z - 1\<rparr> in
        if z_blocks_ack_count z1 = 0 then
          put (z_use_crc32 z1) ZCRCQ
            (z1\<lparr>z_blocks_ack_count := if z_reliable_link z1 then WINDOW_SIZE_RELIABLE
                                     else WINDOW_SIZE_UNRELIABLE,
                z_waiting_for_ack := True, z_streaming_zdata := True\<rparr>)
        else put (z_use_crc32 z1) ZCRCG z1))"

text \<open>
  Reading the next block: the state, and whether it is the last one. A negative count, which the
  code looks for, \<open>fread\<close> does not return.
\<close>

definition zdata_read :: "cfile \<Rightarrow> zmodem \<Rightarrow> fault + bool \<times> zmodem" where
  "zdata_read f z =
     (let (got, f1) = fread (nat (z_block_size z)) f; rc = int (length got);
          last_block = (rc < z_block_size z \<or> rc = 0);
          z1 = z\<lparr>z_file_stream := Some f1\<rparr>;
          z2 = (if last_block then
                  z_stats (\<lambda>t. t\<lparr>ts_bytes_transfer := ucast (z_file_size z1)\<rparr>)
                    (z1\<lparr>z_file_position := uint (z_file_size z1)\<rparr>)
                else
                  z_stats (\<lambda>t. t\<lparr>ts_bytes_transfer := ts_bytes_transfer t + word_of_int (z_block_size z1)\<rparr>)
                    (z1\<lparr>z_file_position := z_file_position z1 + z_block_size z1\<rparr>))
      in if length (p_data (packet z2)) < length got then Inl Buffer_overflow
         else Inr (last_block, z_stats_increment_blocks
                (z2\<lparr>packet := (packet z2)\<lparr>p_data := blit 0 got (p_data (packet z2)),
                                          p_data_n := length got\<rparr>\<rparr>)))"

text \<open>\<open>output_max - *output_n\<close>, computed on unsigned integers.\<close>

definition out_room :: "zmodem \<Rightarrow> u32" where
  "out_room z = of_nat (length (out_buffer z)) - of_nat (out_n z)"

definition zdata_block :: "zmodem \<Rightarrow> z_step" where
  "zdata_block z =
     (case z_file_stream z of
        None \<Rightarrow> Inl Null_pointer
      | Some f \<Rightarrow>
         (if (\<not> f_eof f \<or> int (f_pos f) = uint (z_file_size z)) \<and> outbound_packet_n z = 0 then
           (let spare = (out_room z < word_of_int (2 * z_block_size z)) in
            bind_res (zdata_read f (z_message ''ZDATA'' z)) (\<lambda>(last_block, z1).
            bind_res (zdata_emit (if spare then queue_subpacket else send_subpacket) last_block z1) (\<lambda>z2.
              Inr (\<not> spare, z2))))
          else Inr (True, z)))"

text \<open>The empty ZCRCW of a recovery goes behind the queue, or out directly, if there is room.\<close>

definition zdata_recover :: "zmodem \<Rightarrow> fault + zmodem" where
  "zdata_recover z =
     (let z1 = z\<lparr>packet := (packet z)\<lparr>p_data_n := 0\<rparr>\<rparr> in
      if 0 < outbound_packet_n z1 \<and> 32 < int (length (outbound_packet z1)) - int (outbound_packet_n z1) then
        bind_res (queue_subpacket (z_use_crc32 z1) ZCRCW z1) (\<lambda>z2. Inr (z2\<lparr>z_waiting_for_ack := True\<rparr>))
      else if 32 < out_room z1 then
        bind_res (send_subpacket (z_use_crc32 z1) ZCRCW z1) (\<lambda>z2. Inr (z2\<lparr>z_waiting_for_ack := True\<rparr>))
      else Inr z1)"

definition zdata_output :: "zmodem \<Rightarrow> z_step" where
  "zdata_output z =
     (if \<not> z_waiting_for_ack z \<and> \<not> z_ack_required z then zdata_block z
      else if z_ack_required z \<and> \<not> z_waiting_for_ack z then z_done (zdata_recover z)
      else Inr (True, z))"

definition send_zdata :: "zmodem \<Rightarrow> z_step" where
  "send_zdata z =
     finish (seq_ctl (zdata_input z) (\<lambda>(_, z1). bind_res (zdata_output z1) (\<lambda>x. Inr (Return x))))"

section \<open>ZEOF, ZFIN\<close>

definition send_zeof :: "zmodem \<Rightarrow> z_step" where
  "send_zeof z =
     z_again (bind_res (send_header P_ZEOF (z_file_size z) z)
       (\<lambda>z1. Inr (z1\<lparr>z_state := ZEOF_WAIT, packet_buffer_n := 0\<rparr>)))"

definition send_zeof_wait :: "zmodem \<Rightarrow> z_step" where
  "send_zeof_wait =
     await_header garbled_header
       (\<lambda>z. if p_type (packet z) = P_ZRINIT then z_again (next_upload z)
            else if p_type (packet z) = P_ZNAK then
              Inr (False, (z_stats_increment_errors ''ZNAK'' z)\<lparr>z_state := ZEOF\<rparr>)
            else Inr (True, z_abort z))
       (\<lambda>z. z\<lparr>z_state := ZEOF\<rparr>)"

definition send_zfin :: "zmodem \<Rightarrow> z_step" where
  "send_zfin z =
     z_again (bind_res (send_header P_ZFIN 0 z)
       (\<lambda>z1. Inr (z1\<lparr>z_state := ZFIN_WAIT, packet_buffer_n := 0\<rparr>)))"

definition over_and_out :: "zmodem \<Rightarrow> z_step" where
  "over_and_out z =
     (if length (out_buffer z) < 2 then Inl Buffer_overflow
      else
       (let z1 = z_stop_file_transfer Q_TRANSFER_STATE_END
                   (z_message ''SUCCESS'' (z\<lparr>out_buffer := blit 0 [79, 79] (out_buffer z), out_n := 2,
                                              z_state := Z_COMPLETE\<rparr>))
        in Inr (False, z_stats (\<lambda>t. t\<lparr>ts_end_time := now (world z1)\<rparr>) z1)))"

definition send_zfin_wait :: "zmodem \<Rightarrow> z_step" where
  "send_zfin_wait =
     await_header garbled_header
       (\<lambda>z. if p_type (packet z) = P_ZFIN then over_and_out z
            else if p_type (packet z) = P_ZNAK then
              Inr (False, (z_stats_increment_errors ''ZNAK'' z)\<lparr>z_state := ZFIN\<rparr>)
            else if p_type (packet z) = P_ZRINIT then
              Inr (False, (z_stats_increment_errors ''ZRINIT'' z)\<lparr>z_state := ZFIN\<rparr>)
            else Inr (True, z_abort z))
       (\<lambda>z. z\<lparr>z_state := ZFIN\<rparr>)"

section \<open>The loop\<close>

text \<open>The scan for four CANs in a row; the count is a static variable.\<close>

definition scan_can :: "byte \<Rightarrow> zmodem \<Rightarrow> zmodem" where
  "scan_can c z =
     (let z1 = z\<lparr>can_count := if c \<noteq> C_CAN then 0 else can_count z + 1\<rparr> in
      if 4 \<le> can_count z1 then
        z_stop_file_transfer Q_TRANSFER_STATE_ABORT
          (z_message ''TRANSFER CANCELLED BY RECEIVER'' (z1\<lparr>z_state := Z_ABORT\<rparr>))
      else z1)"

definition scan_cans :: "zmodem \<Rightarrow> zmodem" where
  "scan_cans z = fold scan_can (take (packet_buffer_n z) (packet_buffer z)) z"

definition dispatch_outbound :: "zmodem \<Rightarrow> fault + zmodem" where
  "dispatch_outbound z =
     (let n = min (unat (out_room z)) (outbound_packet_n z) in
      if length (out_buffer z) < out_n z + n then Inl Buffer_overflow
      else Inr (z\<lparr>out_buffer := blit (out_n z) (take n (outbound_packet z)) (out_buffer z),
                  outbound_packet := blit 0 (slice n (outbound_packet_n z - n) (outbound_packet z))
                                       (outbound_packet z),
                  outbound_packet_n := outbound_packet_n z - n,
                  out_n := out_n z + n\<rparr>))"

definition send_dispatch :: "zmodem \<Rightarrow> z_step" where
  "send_dispatch z =
     (if 0 < outbound_packet_n z then z_done (dispatch_outbound z)
      else
       (case z_state z of
          Z_INIT \<Rightarrow> Inr (False, z_message ''ZRQINIT'' (z\<lparr>z_state := ZRQINIT\<rparr>))
        | ZSINIT \<Rightarrow> send_zsinit z
        | ZSINIT_WAIT \<Rightarrow> send_zsinit_wait z
        | ZRQINIT \<Rightarrow> send_zrqinit z
        | ZRQINIT_WAIT \<Rightarrow> send_zrqinit_wait z
        | ZFILE \<Rightarrow> send_zfile z
        | ZFILE_WAIT \<Rightarrow> send_zfile_wait z
        | ZDATA \<Rightarrow> send_zdata z
        | ZEOF \<Rightarrow> send_zeof z
        | ZEOF_WAIT \<Rightarrow> send_zeof_wait z
        | ZFIN \<Rightarrow> send_zfin z
        | ZFIN_WAIT \<Rightarrow> send_zfin_wait z
        | Z_ABORT \<Rightarrow> Inr (True, z)
        | Z_COMPLETE \<Rightarrow> Inr (True, z)
        | _ \<Rightarrow> Inl Abort_called))"

partial_function (option) send_loop :: "byte list \<Rightarrow> zmodem \<Rightarrow> (fault + zmodem) option" where
  "send_loop input z =
     (let (rest, z1) = add_input input z in
      case send_dispatch (scan_cans z1) of
        Inl e \<Rightarrow> Some (Inl e)
      | Inr (fin, z2) \<Rightarrow> if fin then Some (Inr z2) else send_loop rest z2)"

definition zmodem_send :: "byte list \<Rightarrow> zmodem \<Rightarrow> fault + zmodem" where
  "zmodem_send input z = (case send_loop input z of None \<Rightarrow> Inl Diverges | Some r \<Rightarrow> r)"

end
