(* ===== verification/Zmodem_Session.thy ===== *)
theory Zmodem_Session
  imports Zmodem_Send
begin

text \<open>
  The entry points of \<open>zmodem.c\<close>: \<open>zmodem\<close>, which the dispatcher calls with what the network
  delivered, and \<open>zmodem_start\<close>.
\<close>

text \<open>\<open>out_buffer\<close> is an array of \<open>output_max\<close> bytes with \<open>out_n\<close> of them in use.\<close>

definition zmodem_process :: "byte list \<Rightarrow> zmodem \<Rightarrow> fault + zmodem" where
  "zmodem_process input z =
     (if length (out_buffer z) \<le> ZMODEM_MAX_BLOCK_SIZE then Inl Assert_failed
      else if z_state z = Z_ABORT \<or> z_state z = Z_COMPLETE then Inr z
      else
       (let z1 = (if input \<noteq> [] then z_reset_timer z else z) in
        bind_res (if z_sending z1 then zmodem_send input z1 else zmodem_receive input z1) (\<lambda>z2.
          Inr (if 0 < out_n z2 then z_reset_timer z2 else z2))))"

datatype zmodem_flavor = Z_CRC16 | Z_CRC32

text \<open>
  \<open>zmodem_start\<close>: neither the block size, the flags, the escape table's flags nor
  \<open>waiting_for_ack\<close> of the transfer before are reset.
\<close>

definition z_start_reset :: "zmodem_flavor \<Rightarrow> bool \<Rightarrow> zmodem \<Rightarrow> zmodem" where
  "z_start_reset flv send z =
     (let z1 = (case flv of
                  Z_CRC32 \<Rightarrow> z\<lparr>z_crc_32_tab := makecrc (z_crc_32_tab z),
                               z_use_crc32 := (if send then z_use_crc32 z else True)\<rparr>
                | Z_CRC16 \<Rightarrow> z\<lparr>z_use_crc32 := False\<rparr>);
          z2 = z_message ''''
                 (z_stats (\<lambda>t. t\<lparr>ts_block_size := of_nat ZMODEM_BLOCK_SIZE\<rparr>)
                    (z1\<lparr>z_state := Z_INIT, z_confirmed_bytes := 0, z_last_confirmed_bytes := 0,
                        z_consecutive_errors := 0, z_reliable_link := True,
                        z_blocks_ack_count := WINDOW_SIZE_RELIABLE, z_streaming_zdata := False\<rparr>))
      in setup_encode_byte_map
           ((z_reset_timer (z2\<lparr>packet_buffer_n := 0, outbound_packet_n := 0\<rparr>))\<lparr>z_timeout_count := 0\<rparr>))"

definition zmodem_start ::
    "file_info list option \<Rightarrow> path option \<Rightarrow> bool \<Rightarrow> zmodem_flavor \<Rightarrow> zmodem \<Rightarrow> fault + bool \<times> zmodem" where
  "zmodem_start file_list pathname send flv z =
     (if send \<noteq> (file_list \<noteq> None) then Inl Assert_failed
      else
       (let z1 = z\<lparr>z_state := Z_ABORT, z_upload_file_list := file_list, z_upload_file_list_i := 0,
                   z_sending := send\<rparr>
        in if send then
             bind_res (z_setup_for_next_file z1) (\<lambda>(ok, z2).
               if \<not> ok then Inr (False, z2) else Inr (True, z_start_reset flv send z2))
           else
            (case pathname of
               None \<Rightarrow> Inl Null_pointer
             | Some dp \<Rightarrow>
                Inr (True, z_start_reset flv send
                  (z1\<lparr>z_download_path := Some dp,
                      world := set_transfer_stats_pathname (Some dp)
                                 (set_transfer_stats_filename [] (world z1))\<rparr>)))))"

end
