(* ===== verification/Zmodem_Delivery.thy ===== *)
theory Zmodem_Delivery
  imports Zmodem_Escape Zmodem_Session Samples
begin

text \<open>
  What one side encodes the other side decodes: the bytes of numbers, data subpackets from the
  sender's buffer into the receiver's file.
\<close>

section \<open>Numbers as bytes\<close>

lemma le_bytes_4:
  "le_bytes 4 w = [ucast w, ucast (drop_bit 8 w), ucast (drop_bit 16 w), ucast (drop_bit 24 w)]"
proof -
  have "ucast (x AND 0xFF) = (ucast x :: byte)" for x :: u32
    by (rule bit_word_eqI) (auto simp: bit_ucast bit_and_iff bit_mask8)
  then show ?thesis by (simp add: le_bytes_def numeral_eq_Suc)
qed

lemma ucast_byte_eq: "ucast (ucast x :: byte) = x AND (0xFF :: u32)" for x :: u32
  by (rule bit_word_eqI) (auto simp: bit_ucast bit_and_iff bit_mask8)

text \<open>The four bytes of a number, each in its place.\<close>

lemma four_bytes:
  "(w AND 0xFF) OR push_bit 8 (drop_bit 8 w AND 0xFF) OR push_bit 16 (drop_bit 16 w AND 0xFF)
     OR push_bit 24 (drop_bit 24 w AND 0xFF) = w" for w :: u32
proof -
  have m: "(0xFF :: u32) = mask 8" by (simp add: mask_eq_exp_minus_1)
  show ?thesis unfolding m
  proof (rule bit_word_eqI)
    fix i
    assume "i < LENGTH(32)"
    then consider "i < 8" | "8 \<le> i" "i < 16" | "16 \<le> i" "i < 24" | "24 \<le> i" "i < 32" by fastforce
    then show "bit ((w AND mask 8) OR push_bit 8 (drop_bit 8 w AND mask 8)
        OR push_bit 16 (drop_bit 16 w AND mask 8) OR push_bit 24 (drop_bit 24 w AND mask 8)) i = bit w i"
      by cases (auto simp: bit_simps)
  qed
qed

lemma or_up_le_bytes: "or_up 0 (le_bytes 4 w) = w"
  using four_bytes [of w] by (simp add: le_bytes_4 ucast_byte_eq or.assoc)

lemma or_down_be_bytes: "or_down 24 (be_bytes 4 w) = w"
  using four_bytes [of w] by (simp add: be_bytes_def le_bytes_4 ucast_byte_eq ac_simps)

lemma or_down_le_bytes: "or_down 24 (le_bytes 4 w) = big_to_little_endian w"
proof -
  have m: "(0xFF :: u32) = mask 8" "(0xFF000000 :: u32) = push_bit 24 (mask 8)"
      "(0xFF0000 :: u32) = push_bit 16 (mask 8)" "(0xFF00 :: u32) = push_bit 8 (mask 8)"
    by (simp_all add: mask_eq_exp_minus_1)
  have "push_bit 24 (w AND 0xFF) = push_bit 24 w AND 0xFF000000"
       "push_bit 16 (drop_bit 8 w AND 0xFF) = push_bit 8 w AND 0xFF0000"
       "push_bit 8 (drop_bit 16 w AND 0xFF) = drop_bit 8 w AND 0xFF00"
    unfolding m by (auto simp: bit_simps intro!: bit_word_eqI)
  then show ?thesis
    by (simp add: le_bytes_4 ucast_byte_eq big_to_little_endian_def ac_simps)
qed

lemma big_to_little_endian_involution: "big_to_little_endian (big_to_little_endian w) = w"
proof -
  have m: "(0xFF :: u32) = mask 8" "(0xFF000000 :: u32) = push_bit 24 (mask 8)"
      "(0xFF0000 :: u32) = push_bit 16 (mask 8)" "(0xFF00 :: u32) = push_bit 8 (mask 8)"
    by (simp_all add: mask_eq_exp_minus_1)
  show ?thesis unfolding big_to_little_endian_def m
  proof (rule bit_word_eqI)
    fix i
    assume "i < LENGTH(32)"
    then consider "i < 8" | "8 \<le> i" "i < 16" | "16 \<le> i" "i < 24" | "24 \<le> i" "i < 32" by fastforce
    then show "bit
          (drop_bit 24 (drop_bit 24 w AND mask 8 OR drop_bit 8 w AND push_bit 8 (mask 8)
             OR push_bit 8 w AND push_bit 16 (mask 8) OR push_bit 24 w AND push_bit 24 (mask 8)) AND mask 8
           OR drop_bit 8 (drop_bit 24 w AND mask 8 OR drop_bit 8 w AND push_bit 8 (mask 8)
             OR push_bit 8 w AND push_bit 16 (mask 8) OR push_bit 24 w AND push_bit 24 (mask 8))
               AND push_bit 8 (mask 8)
           OR push_bit 8 (drop_bit 24 w AND mask 8 OR drop_bit 8 w AND push_bit 8 (mask 8)
             OR push_bit 8 w AND push_bit 16 (mask 8) OR push_bit 24 w AND push_bit 24 (mask 8))
               AND push_bit 16 (mask 8)
           OR push_bit 24 (drop_bit 24 w AND mask 8 OR drop_bit 8 w AND push_bit 8 (mask 8)
             OR push_bit 8 w AND push_bit 16 (mask 8) OR push_bit 24 w AND push_bit 24 (mask 8))
               AND push_bit 24 (mask 8)) i = bit w i"
      by cases (auto simp: bit_simps)
  qed
qed

lemma or_down_be_bytes_2: "or_down 8 (be_bytes 2 w) = w AND 0xFFFF"
proof -
  have l: "le_bytes 2 w = [ucast w, ucast (drop_bit 8 w)]"
    using le_bytes_4 [of w] by (simp add: le_bytes_def numeral_eq_Suc)
  have m: "(0xFF :: u32) = mask 8" "(0xFFFF :: u32) = mask 16" by (simp_all add: mask_eq_exp_minus_1)
  have "push_bit 8 (drop_bit 8 w AND 0xFF) OR (w AND 0xFF) = w AND 0xFFFF"
    unfolding m
  proof (rule bit_word_eqI)
    fix i
    assume "i < LENGTH(32)"
    then consider "i < 8" | "8 \<le> i" "i < 16" | "16 \<le> i" "i < 32" by fastforce
    then show "bit (push_bit 8 (drop_bit 8 w AND mask 8) OR (w AND mask 8)) i = bit (w AND mask 16) i"
      by cases (auto simp: bit_simps)
  qed
  then show ?thesis by (simp add: be_bytes_def l ucast_byte_eq)
qed

lemma or_down_crc16: "or_down 8 (be_bytes 2 (compute_crc16 c bs)) = compute_crc16 c bs"
  by (simp add: or_down_be_bytes_2 compute_crc16_def and.assoc)

lemma length_le_bytes [simp]: "length (le_bytes k w) = k" "length (be_bytes k w) = k"
  by (simp_all add: le_bytes_def be_bytes_def)

section \<open>Encoding a subpacket\<close>

definition subpacket_bytes :: "u32 \<Rightarrow> u32 list \<Rightarrow> zpacket \<Rightarrow> byte \<Rightarrow> byte list" where
  "subpacket_bytes flags tab p t =
     escaped flags (take (p_data_n p) (p_data p)) @ [C_CAN, t] @ escaped flags (subpacket_crc tab p t)"

definition xon_after :: "byte \<Rightarrow> byte list" where
  "xon_after t = (if t = ZCRCW then [C_XON] else [])"

lemma length_subpacket_crc: "length (subpacket_crc tab p t) = (if p_use_crc32 p \<and> p_type p \<noteq> P_ZSINIT then 4 else 2)"
  by (simp add: subpacket_crc_def Let_def)

lemma encode_zdata_result:
  assumes "n + 2 * p_data_n p + 11 \<le> length arr" "p_data_n p \<le> length (p_data p)"
  shows "encode_zdata_bytes (encode_map flags) tab p t (arr, n)
       = Inr (blit n (subpacket_bytes flags tab p t @ xon_after t) arr,
              n + length (subpacket_bytes flags tab p t @ xon_after t))"
proof -
  let ?d = "take (p_data_n p) (p_data p)" and ?c = "subpacket_crc tab p t"
  have c: "length ?c \<le> 4" by (simp add: length_subpacket_crc)
  have d: "length ?d = p_data_n p" using assms(2) by simp
  have ed: "encode_bytes (encode_map flags) ?d (arr, n)
      = Inr (blit n (escaped flags ?d) arr, n + length (escaped flags ?d))
      \<and> length (escaped flags ?d) \<le> 2 * length ?d"
    using assms(1) d by (intro encode_bytes_result) simp
  let ?n2 = "n + length (escaped flags ?d) + 2"
  have r2: "put_raw [C_CAN, t] (blit n (escaped flags ?d) arr, n + length (escaped flags ?d))
      = Inr (blit n (escaped flags ?d @ [C_CAN, t]) arr, ?n2)"
    using ed assms(1) d by (simp add: blit_append del: C_CAN_def)
  have r3: "encode_bytes (encode_map flags) ?c (blit n (escaped flags ?d @ [C_CAN, t]) arr, ?n2)
      = Inr (blit n (subpacket_bytes flags tab p t) arr, n + length (subpacket_bytes flags tab p t))
      \<and> length (escaped flags ?c) \<le> 2 * length ?c"
    using encode_bytes_result [of ?n2 ?c "blit n (escaped flags ?d @ [C_CAN, t]) arr" "encode_map flags"]
      blit_append [of n "escaped flags ?d @ [C_CAN, t]" "escaped flags ?c" arr] ed assms(1) d c
    by (simp add: subpacket_bytes_def del: C_CAN_def)
  show ?thesis
    using ed r2 r3 assms(1) d c blit_append [of n "subpacket_bytes flags tab p t" "[C_XON]" arr]
    by (auto simp: encode_zdata_bytes_def xon_after_def blit_append subpacket_bytes_def simp del: C_CAN_def C_XON_def ZCRCW_def)
qed

section \<open>Decoding a subpacket\<close>

text \<open>The bytes of \<open>packet_buffer\<close> that are in use.\<close>

definition pending :: "zmodem \<Rightarrow> byte list" where
  "pending z = take (packet_buffer_n z) (packet_buffer z)"

definition buffer_ok :: "zmodem \<Rightarrow> bool" where
  "buffer_ok z \<longleftrightarrow> length (packet_buffer z) = ZMODEM_MAX_BLOCK_SIZE
     \<and> packet_buffer_n z \<le> ZMODEM_MAX_BLOCK_SIZE"

lemma length_pending: "buffer_ok z \<Longrightarrow> length (pending z) = packet_buffer_n z"
  by (simp add: pending_def buffer_ok_def)

lemma pending_nth: "buffer_ok z \<Longrightarrow> i < packet_buffer_n z \<Longrightarrow> packet_buffer z ! i = pending z ! i"
  by (simp add: pending_def)

lemma drop_input_pending:
  assumes "buffer_ok z" "i \<le> packet_buffer_n z"
  shows "pending (drop_input i z) = drop i (pending z)" "buffer_ok (drop_input i z)"
    "packet_buffer_n (drop_input i z) = packet_buffer_n z - i"
proof -
  have l: "length (slice i (packet_buffer_n z - i) (packet_buffer z)) = packet_buffer_n z - i"
    using assms by (simp add: buffer_ok_def diff_le_mono)
  then show "pending (drop_input i z) = drop i (pending z)"
    using assms
    by (simp add: pending_def drop_input_def buffer_ok_def blit_def slice_def drop_take)
  show "buffer_ok (drop_input i z)" using l assms by (simp add: buffer_ok_def drop_input_def)
qed (simp add: drop_input_def)

lemma drop_input_frame [simp]:
  "packet (drop_input i z) = packet z" "z_state (drop_input i z) = z_state z"
  "z_prior_state (drop_input i z) = z_prior_state z" "z_crc_32_tab (drop_input i z) = z_crc_32_tab z"
  "z_file_stream (drop_input i z) = z_file_stream z" "z_file_position (drop_input i z) = z_file_position z"
  "out_buffer (drop_input i z) = out_buffer z" "out_n (drop_input i z) = out_n z"
  "world (drop_input i z) = world z" "z_flags (drop_input i z) = z_flags z"
  by (simp_all add: drop_input_def)

lemma decode_subpacket_bytes:
  assumes "t \<in> set crc_escapes" "p_type p \<noteq> P_ZSINIT"
  shows "decode_loop (if p_use_crc32 p then 5 else 3) (subpacket_bytes flags tab p t @ rest) [] None
       = Subpacket (take (p_data_n p) (p_data p)) (t # subpacket_crc tab p t) rest"
proof -
  have l: "length (subpacket_crc tab p t) = (if p_use_crc32 p then 4 else 2)"
    using assms(2) by (simp add: length_subpacket_crc)
  then have "subpacket_crc tab p t \<noteq> []" by (metis list.size(3) zero_neq_numeral)
  from decode_subpacket [OF assms(1) this, of flags "take (p_data_n p) (p_data p)" rest] l
  show ?thesis by (cases "p_use_crc32 p") (simp_all add: subpacket_bytes_def del: C_CAN_def)
qed

lemma length_escaped: "length bs \<le> length (escaped flags bs)"
proof (induction bs)
  case (Cons b bs)
  have "encoded (encode_map flags) b \<noteq> []" by (rule length_encoded)
  then have "1 \<le> length (encoded (encode_map flags) b)" by (cases "encoded (encode_map flags) b") simp_all
  with Cons show ?case by simp
qed simp

lemma decode_zdata_result:
  assumes "buffer_ok z" "p_data_n (packet z) = 0" "p_use_crc32 (packet z) = p_use_crc32 p"
    "t \<in> set crc_escapes" "p_type p \<noteq> P_ZSINIT"
    "pending z = subpacket_bytes flags tab p t @ xon_after t @ rest"
  shows "decode_zdata_bytes z
       = Inr (True, drop_input (length (subpacket_bytes flags tab p t @ xon_after t))
                 (z_decoded (take (p_data_n p) (p_data p)) (t # subpacket_crc tab p t) z))"
proof -
  let ?s = "subpacket_bytes flags tab p t" and ?d = "take (p_data_n p) (p_data p)"
  have n: "packet_buffer_n z = length (?s @ xon_after t @ rest)"
    using length_pending [OF assms(1)] assms(6) by simp
  have i: "packet_buffer_n z - length (xon_after t @ rest) = length ?s" using n by simp
  have scan: "has_crc_escape (pending z)"
    using scan_finds_escape [OF assms(4)] by (simp add: assms(6) subpacket_bytes_def del: C_CAN_def)
  have dec: "decode_loop (if p_use_crc32 (packet z) then 5 else 3) (pending z) [] None
      = Subpacket ?d (t # subpacket_crc tab p t) (xon_after t @ rest)"
    unfolding assms(3,6) by (rule decode_subpacket_bytes [OF assms(4,5)])
  have "length ?d \<le> length ?s" using length_escaped [of ?d flags] by (simp add: subpacket_bytes_def)
  then have d: "length ?d \<le> ZMODEM_MAX_BLOCK_SIZE"
    using n assms(1) by (simp add: buffer_ok_def)
  then have d': "\<not> (2058 < length (p_data p) \<and> 2058 < p_data_n p)" by auto
  have x: "t = ZCRCW \<Longrightarrow> packet_buffer z ! length ?s = C_XON \<and> length ?s < packet_buffer_n z"
    using pending_nth [OF assms(1), of "length ?s"] n by (simp add: assms(6) xon_after_def nth_append)
  have "decode_zdata_bytes z =
      (let i = length ?s; z1 = z_decoded ?d (t # subpacket_crc tab p t) z in
       if t \<noteq> ZCRCW then Inr (True, drop_input i z1)
       else if length (packet_buffer z) \<le> i then Inl Buffer_overflow
       else if packet_buffer z ! i \<noteq> C_XON then Inr (True, drop_input i z1)
       else if packet_buffer_n z < i + 1 then Inl Buffer_overflow
       else Inr (True, drop_input (i + 1) z1))"
    using assms(1,2) d' scan
    unfolding decode_zdata_bytes_def pending_def [symmetric] Let_def dec zdecode.case i
    by (auto simp: buffer_ok_def simp del: C_XON_def ZCRCW_def)
  then show ?thesis using x assms(1) by (cases "t = ZCRCW") (auto simp: xon_after_def buffer_ok_def)
qed

section \<open>The CRC of a subpacket\<close>

lemma zdata_check_result:
  assumes "p_data_n p \<le> length (p_data p)" "p_data_n p < length (p_data (packet z))"
    "length (p_crc_buffer (packet z)) = 5" "p_crc16 (packet z) = 0" "p_type p \<noteq> P_ZSINIT"
    "p_data_n (packet z) = 0" "p_use_crc32 (packet z) = p_use_crc32 p" "z_crc_32_tab z = tab"
  shows "\<exists>c16 c32. zdata_check (z_decoded (take (p_data_n p) (p_data p)) (t # subpacket_crc tab p t) z)
       = (True, z\<lparr>packet := (packet z)\<lparr>
             p_data := blit 0 (take (p_data_n p) (p_data p) @ [t]) (p_data (packet z)),
             p_data_n := p_data_n p, p_crc16 := c16, p_crc32 := c32,
             p_crc_buffer := blit 0 (t # subpacket_crc tab p t) (p_crc_buffer (packet z))\<rparr>\<rparr>)"
proof -
  let ?d = "take (p_data_n p) (p_data p)" and ?c = "subpacket_crc tab p t"
  let ?pd = "p_data (packet z)" and ?cb = "blit 0 (t # subpacket_crc tab p t) (p_crc_buffer (packet z))"
  have l: "length ?c = (if p_use_crc32 p then 4 else 2)" using assms(5) by (simp add: length_subpacket_crc)
  have t0: "?cb ! 0 = t" by (simp add: blit_def)
  have tc: "take (length ?c) (drop 1 ?cb) = ?c" by (simp add: blit_def)
  have d: "length ?d = p_data_n p" using assms(1) by simp
  have stored: "(blit 0 ?d ?pd)[p_data_n p := t] = blit 0 (?d @ [t]) ?pd"
    using assms(2) d by (intro nth_equalityI) (auto simp: nth_list_update nth_blit nth_append)
  have covered: "take (p_data_n p + 1) (blit 0 (?d @ [t]) ?pd) = ?d @ [t]"
    using d by (simp add: blit_def)
  show ?thesis
  proof (cases "p_use_crc32 p")
    case True
    have "?c = le_bytes 4 (compute_crc32 tab crc32_preset (?d @ [t]))"
      using True assms(5) by (simp only: subpacket_crc_def Let_def data_crc32_at_once simp_thms if_True)
    moreover have "or_up 0 (take 4 (drop 1 ?cb)) = or_up 0 ?c" using tc l True by simp
    ultimately show ?thesis
      using True assms(6-8) stored covered t0 d
      by (rule_tac x = "p_crc16 (packet z)" in exI,
          rule_tac x = "compute_crc32 (z_crc_32_tab z) crc32_preset (?d @ [t])" in exI)
        (auto simp: zdata_check_def z_decoded_def Let_def or_up_le_bytes)
  next
    case False
    have "?c = be_bytes 2 (compute_crc16 0 (?d @ [t]))"
      using False by (simp only: subpacket_crc_def Let_def compute_crc16_append simp_thms if_False)
    moreover have "or_down 8 (take 2 (drop 1 ?cb)) = or_down 8 ?c" using tc l False by simp
    ultimately show ?thesis
      using False assms(4,6,7) stored covered t0 d
      by (rule_tac x = "compute_crc16 0 (?d @ [t])" in exI, rule_tac x = "p_crc32 (packet z)" in exI)
        (auto simp: zdata_check_def z_decoded_def Let_def or_down_crc16)
  qed
qed

section \<open>Headers have room\<close>

lemma length_header_bytes [simp]: "length (header_bytes typ arg) = 5"
  by (simp add: header_bytes_def)

lemma length_hex_header [simp]: "length h = 5 \<Longrightarrow> length (hex_header h) = 20"
  by (simp add: hex_header_def)

lemma encode_bytes_frame:
  "n + 2 * length bs \<le> length arr \<Longrightarrow>
    \<exists>arr' n'. encode_bytes emap bs (arr, n) = Inr (arr', n') \<and> length arr' = length arr
      \<and> n' \<le> n + 2 * length bs"
  using encode_bytes_result [of n bs arr emap] by (auto simp: blit_def)

lemma build_packet_frame:
  assumes "n + 21 \<le> length arr"
  shows "\<exists>p m b k. build_packet typ arg z (arr, n) = Inr (z\<lparr>packet := p, encode_byte_map := m\<rparr>, (b, k))
       \<and> length b = length arr \<and> k \<le> n + 21
       \<and> p_data p = p_data (packet z) \<and> p_data_n p = 0 \<and> p_crc_buffer p = p_crc_buffer (packet z)"
proof -
  have "\<exists>b k. build_hex typ (header_bytes typ arg) (arr, n) = Inr (b, k) \<and> length b = length arr \<and> k \<le> n + 21"
    using assms by (auto simp: build_hex_def Let_def)
  moreover have "\<exists>b k. build_binary emap tab wide (header_bytes typ arg) (arr, n) = Inr (b, k)
      \<and> length b = length arr \<and> k \<le> n + 21" for emap tab wide
  proof -
    have "length (header_bytes typ arg @ header_crc tab wide (header_bytes typ arg)) \<le> 9"
      by (simp add: header_crc_def)
    with assms encode_bytes_frame [of "n + 3" "header_bytes typ arg @ header_crc tab wide (header_bytes typ arg)"
        "blit 0 [ZPAD, C_CAN, if wide then 0x43 else 0x41] arr" emap]
    show ?thesis by (auto simp: build_binary_def Let_def simp del: ZPAD_def C_CAN_def)
  qed
  ultimately have "\<exists>b k. (if header_in_hex typ z then build_hex typ (header_bytes typ arg) (arr, n)
      else build_binary emap (z_crc_32_tab z) (z_use_crc32 z) (header_bytes typ arg) (arr, n)) = Inr (b, k)
      \<and> length b = length arr \<and> k \<le> n + 21" for emap by auto
  then obtain b k where "(if header_in_hex typ z then build_hex typ (header_bytes typ arg) (arr, n)
      else build_binary (if \<not> header_in_hex typ z \<and> typ = P_ZSINIT \<and> z_flags z AND TX_ESCAPE_CTRL = 0
                         then encode_map (z_flags z OR TX_ESCAPE_CTRL) else encode_byte_map z)
        (z_crc_32_tab z) (z_use_crc32 z) (header_bytes typ arg) (arr, n)) = Inr (b, k)"
      "length b = length arr" "k \<le> n + 21" by blast
  moreover define z2 where "z2 = (if \<not> header_in_hex typ z \<and> typ = P_ZSINIT \<and> z_flags z AND TX_ESCAPE_CTRL = 0
      then encode_map (z_flags z) else encode_byte_map z)"
  moreover have "(if \<not> header_in_hex typ z \<and> typ = P_ZSINIT \<and> z_flags z AND TX_ESCAPE_CTRL = 0
      then setup_encode_byte_map (z\<lparr>packet := q\<rparr>) else z\<lparr>packet := q\<rparr>)
    = z\<lparr>packet := q, encode_byte_map := z2\<rparr>" for q
    by (rule zmodem.equality) (auto simp: z2_def setup_encode_byte_map_def)
  ultimately have "build_packet typ arg z (arr, n)
      = Inr (z\<lparr>packet := (packet z)\<lparr>p_type := typ, p_use_crc32 := (z_use_crc32 z \<and> \<not> header_in_hex typ z),
                p_data_n := 0\<rparr>, encode_byte_map := z2\<rparr>, (b, k))"
    using assms unfolding build_packet_def Let_def by (simp only: bind_res.simps fst_conv snd_conv) simp
  with \<open>length b = length arr\<close> \<open>k \<le> n + 21\<close> show ?thesis by auto
qed

lemma send_header_frame:
  assumes "out_n z + 21 \<le> length (out_buffer z)"
  shows "\<exists>p m b n. send_header typ arg z = Inr (z\<lparr>packet := p, encode_byte_map := m, out_buffer := b, out_n := n\<rparr>)
       \<and> length b = length (out_buffer z) \<and> n \<le> out_n z + 21
       \<and> p_data p = p_data (packet z) \<and> p_data_n p = 0 \<and> p_crc_buffer p = p_crc_buffer (packet z)"
proof -
  obtain p m b k where *: "build_packet typ arg z (out_buffer z, out_n z)
        = Inr (z\<lparr>packet := p, encode_byte_map := m\<rparr>, (b, k))"
      "length b = length (out_buffer z)" "k \<le> out_n z + 21"
      "p_data p = p_data (packet z)" "p_data_n p = 0" "p_crc_buffer p = p_crc_buffer (packet z)"
    using build_packet_frame [OF assms, of "typ" arg z] by blast
  show ?thesis
    by (rule exI [of _ p], rule exI [of _ m], rule exI [of _ b], rule exI [of _ k])
      (simp add: send_header_def *)
qed

section \<open>A subpacket arrives in the file\<close>

definition receiving :: "cfile \<Rightarrow> zmodem \<Rightarrow> bool" where
  "receiving f z \<longleftrightarrow>
     buffer_ok z \<and> z_state z = ZDATA \<and> z_prior_state z = ZRPOS_WAIT \<and> z_file_stream z = Some f
     \<and> f_room f = None \<and> f_pos f = length (f_data f)
     \<and> p_data_n (packet z) = 0 \<and> p_crc16 (packet z) = 0
     \<and> length (p_data (packet z)) = ZMODEM_MAX_BLOCK_SIZE \<and> length (p_crc_buffer (packet z)) = 5"

definition appended :: "byte list \<Rightarrow> cfile \<Rightarrow> cfile" where
  "appended d f = f\<lparr>f_data := f_data f @ d, f_pos := length (f_data f) + length d\<rparr>"

lemma z_decoded_drop: "z_decoded out crc (drop_input i z) = drop_input i (z_decoded out crc z)"
  by (simp add: z_decoded_def drop_input_def)

lemma receive_zdata_checked:
  assumes "receiving f z" "t \<in> set crc_escapes"
    "p_data_n p \<le> length (p_data p)" "p_data_n p < ZMODEM_MAX_BLOCK_SIZE" "p_type p \<noteq> P_ZSINIT"
    "p_use_crc32 (packet z) = p_use_crc32 p"
    "pending z = subpacket_bytes flags (z_crc_32_tab z) p t @ xon_after t @ rest"
  shows "\<exists>z1. receive_zdata z = zdata_in_file t z1
     \<and> receiving f (z1\<lparr>packet := (packet z1)\<lparr>p_data_n := 0, p_crc16 := 0\<rparr>\<rparr>)
     \<and> take (p_data_n (packet z1)) (p_data (packet z1)) = take (p_data_n p) (p_data p)
     \<and> p_data_n (packet z1) = p_data_n p \<and> pending z1 = rest
     \<and> z_file_position z1 = z_file_position z
     \<and> p_use_crc32 (packet z1) = p_use_crc32 (packet z) \<and> z_crc_32_tab z1 = z_crc_32_tab z
     \<and> out_buffer z1 = out_buffer z \<and> out_n z1 = out_n z"
proof -
  let ?s = "subpacket_bytes flags (z_crc_32_tab z) p t @ xon_after t"
  let ?d = "take (p_data_n p) (p_data p)" and ?c = "subpacket_crc (z_crc_32_tab z) p t"
  let ?z = "drop_input (length ?s) z"
  have ok: "buffer_ok z" using assms(1) by (simp add: receiving_def)
  have n: "length ?s \<le> packet_buffer_n z" using length_pending [OF ok] assms(7) by simp
  note pend = drop_input_pending [OF ok n]
  have dec: "decode_zdata_bytes z = Inr (True, z_decoded ?d (t # ?c) ?z)"
    unfolding z_decoded_drop using assms by (intro decode_zdata_result) (simp_all add: receiving_def)
  obtain c16 c32 where chk: "zdata_check (z_decoded ?d (t # ?c) ?z)
       = (True, ?z\<lparr>packet := (packet ?z)\<lparr>
             p_data := blit 0 (?d @ [t]) (p_data (packet ?z)), p_data_n := p_data_n p,
             p_crc16 := c16, p_crc32 := c32,
             p_crc_buffer := blit 0 (t # ?c) (p_crc_buffer (packet ?z))\<rparr>\<rparr>)"
    using zdata_check_result [of p ?z "z_crc_32_tab z" t] assms by (auto simp: receiving_def)
  let ?z1 = "?z\<lparr>packet := (packet ?z)\<lparr>
             p_data := blit 0 (?d @ [t]) (p_data (packet ?z)), p_data_n := p_data_n p,
             p_crc16 := c16, p_crc32 := c32,
             p_crc_buffer := blit 0 (t # ?c) (p_crc_buffer (packet ?z))\<rparr>\<rparr>"
  have c: "length ?c \<le> 4" by (simp add: length_subpacket_crc)
  have t0: "blit 0 (t # ?c) (p_crc_buffer (packet z)) ! 0 = t" by (simp add: blit_def)
  have "zdata_received (z_decoded ?d (t # ?c) ?z) = zdata_in_file t ?z1"
    using assms(1-4) chk t0
    by (simp add: zdata_received_def Let_def z_decoded_def receiving_def)
  then have 1: "receive_zdata z = zdata_in_file t ?z1"
    by (simp add: receive_zdata_def dec)
  have 2: "pending ?z1 = rest" using pend(1) assms(7) by (simp add: pending_def)
  have 3: "receiving f (?z1\<lparr>packet := (packet ?z1)\<lparr>p_data_n := 0, p_crc16 := 0\<rparr>\<rparr>)"
    using pend(2) assms(1,3,4) c by (simp add: receiving_def buffer_ok_def)
  show ?thesis
    by (rule exI [of _ ?z1]) (use 1 2 3 assms(3) in \<open>simp add: blit_def drop_input_def\<close>)
qed

lemma zdata_write_result:
  assumes "receiving f (z\<lparr>packet := (packet z)\<lparr>p_data_n := 0, p_crc16 := 0\<rparr>\<rparr>)"
  shows "\<exists>z1. zdata_write z = Inr z1
     \<and> receiving (appended (take (p_data_n (packet z)) (p_data (packet z))) f) z1
     \<and> pending z1 = pending z
     \<and> z_file_position z1 = z_file_position z + int (p_data_n (packet z))
     \<and> p_use_crc32 (packet z1) = p_use_crc32 (packet z) \<and> z_crc_32_tab z1 = z_crc_32_tab z
     \<and> out_buffer z1 = out_buffer z \<and> out_n z1 = out_n z"
  using assms
  by (auto simp: zdata_write_def receiving_def Let_def fwrite_append appended_def fresh_crc_def
      z_stats_increment_blocks_def z_stats_def buffer_ok_def pending_def)

text \<open>The way back to the header state, or on to the next subpacket of the frame.\<close>

lemma subpacket_into_file:
  assumes "receiving f z" "t \<in> set crc_escapes"
    "p_data_n p \<le> length (p_data p)" "p_data_n p < ZMODEM_MAX_BLOCK_SIZE" "p_type p \<noteq> P_ZSINIT"
    "p_use_crc32 (packet z) = p_use_crc32 p"
    "pending z = subpacket_bytes flags (z_crc_32_tab z) p t @ xon_after t @ rest"
    "t \<in> {ZCRCW, ZCRCQ} \<Longrightarrow> out_n z + 21 \<le> length (out_buffer z)"
  shows "\<exists>z1. receive_zdata z = Inr (False, z1)
     \<and> z_file_stream z1 = Some (appended (take (p_data_n p) (p_data p)) f)
     \<and> z_file_position z1 = z_file_position z + int (p_data_n p) \<and> pending z1 = rest
     \<and> z_state z1 = (if t \<in> {ZCRCE, ZCRCW} then ZRPOS_WAIT else ZDATA)
     \<and> (t = ZCRCG \<longrightarrow> receiving (appended (take (p_data_n p) (p_data p)) f) z1
          \<and> p_use_crc32 (packet z1) = p_use_crc32 p \<and> z_crc_32_tab z1 = z_crc_32_tab z)"
proof -
  let ?d = "take (p_data_n p) (p_data p)"
  obtain z1 where 1: "receive_zdata z = zdata_in_file t z1"
      "receiving f (z1\<lparr>packet := (packet z1)\<lparr>p_data_n := 0, p_crc16 := 0\<rparr>\<rparr>)"
      "take (p_data_n (packet z1)) (p_data (packet z1)) = ?d"
      "p_data_n (packet z1) = p_data_n p" "pending z1 = rest" "z_file_position z1 = z_file_position z"
      "p_use_crc32 (packet z1) = p_use_crc32 (packet z)" "z_crc_32_tab z1 = z_crc_32_tab z"
      "out_buffer z1 = out_buffer z" "out_n z1 = out_n z"
    using receive_zdata_checked [OF assms(1-7)] by blast
  obtain z2 where 2: "zdata_write z1 = Inr z2" "receiving (appended ?d f) z2" "pending z2 = rest"
      "z_file_position z2 = z_file_position z + int (p_data_n p)"
      "p_use_crc32 (packet z2) = p_use_crc32 p" "z_crc_32_tab z2 = z_crc_32_tab z"
      "out_buffer z2 = out_buffer z" "out_n z2 = out_n z"
    using zdata_write_result [OF 1(2)] 1(3-) assms(6) by auto
  have st: "z_state z2 = ZDATA" "z_file_stream z2 = Some (appended ?d f)"
    using 2(2) by (simp_all add: receiving_def)
  show ?thesis
  proof (cases "t \<in> {ZCRCW, ZCRCQ}")
    case True
    with assms(8) 2(7,8) have "out_n z2 + 21 \<le> length (out_buffer z2)" by simp
    from send_header_frame [OF this, of P_ZACK "big_to_little_endian (word_of_int (z_file_position z2))"]
    obtain q m b n where "send_header P_ZACK (big_to_little_endian (word_of_int (z_file_position z2))) z2
        = Inr (z2\<lparr>packet := q, encode_byte_map := m, out_buffer := b, out_n := n\<rparr>)" by blast
    with True 1(1) 2 st show ?thesis
      by (auto simp: zdata_in_file_def pending_def simp del: P_ZACK_def)
  next
    case False
    then have "zdata_in_file t z1 = Inr (False, z2\<lparr>z_state := if t \<in> {ZCRCE, ZCRCW} then ZRPOS_WAIT else ZDATA\<rparr>)"
      using 2(1) by (simp add: zdata_in_file_def)
    then show ?thesis using 1(1) 2 st by (auto simp: pending_def receiving_def buffer_ok_def)
  qed
qed

text \<open>What \<open>encode_zdata_bytes\<close> puts into an empty output buffer.\<close>

definition wire :: "u32 \<Rightarrow> u32 list \<Rightarrow> byte \<Rightarrow> zpacket \<Rightarrow> byte list" where
  "wire flags tab t p =
     (case encode_zdata_bytes (encode_map flags) tab p t (replicate 4096 0, 0) of
        Inr (arr, n) \<Rightarrow> take n arr
      | Inl _ \<Rightarrow> [])"

definition block :: "bool \<Rightarrow> zpacket \<Rightarrow> bool" where
  "block wide p \<longleftrightarrow>
     p_data_n p \<le> ZMODEM_BLOCK_SIZE \<and> p_data_n p \<le> length (p_data p)
     \<and> p_type p \<noteq> P_ZSINIT \<and> p_use_crc32 p = wide"

lemma wire_bytes:
  assumes "block wide p"
  shows "wire flags tab t p = subpacket_bytes flags tab p t @ xon_after t"
proof -
  have "0 + 2 * p_data_n p + 11 \<le> length (replicate 4096 (0 :: byte))" "p_data_n p \<le> length (p_data p)"
    using assms by (simp_all add: block_def)
  from encode_zdata_result [OF this] show ?thesis by (simp add: wire_def blit_def)
qed

lemma length_subpacket_bytes: "length (subpacket_bytes flags tab p t) \<le> 2 * p_data_n p + 10"
proof -
  have e: "length (escaped flags bs) \<le> 2 * length bs" for bs
  proof (induction bs)
    case (Cons b bs)
    have "length (encoded (encode_map flags) b) \<le> 2" by (rule length_encoded)
    with Cons show ?case by simp
  qed simp
  show ?thesis
    using e [of "take (p_data_n p) (p_data p)"] e [of "subpacket_crc tab p t"]
    by (simp add: subpacket_bytes_def length_subpacket_crc split: if_splits)
qed

lemma length_subpacket:
  "block wide p \<Longrightarrow> length (subpacket_bytes flags tab p t) \<le> ZMODEM_MAX_BLOCK_SIZE"
  using length_subpacket_bytes [of flags tab p t] by (simp add: block_def)

section \<open>A stream of subpackets\<close>

lemma add_input_pending:
  assumes "buffer_ok z" "add_input input z = (rest, z1)"
  shows "pending z1 @ rest = pending z @ input" "buffer_ok z1"
    "rest = [] \<or> packet_buffer_n z1 = ZMODEM_MAX_BLOCK_SIZE"
    "\<exists>b n. z1 = z\<lparr>packet_buffer := b, packet_buffer_n := n\<rparr>"
proof -
  let ?n = "packet_buffer_n z" and ?k = "min (length input) (length (packet_buffer z) - packet_buffer_n z)"
  have z1: "z1 = z\<lparr>packet_buffer := blit ?n (take ?k input) (packet_buffer z), packet_buffer_n := ?n + ?k\<rparr>"
    and r: "rest = drop ?k input"
    using assms(2) by (auto simp: add_input_def Let_def)
  have n: "?n \<le> length (packet_buffer z)" using assms(1) by (simp add: buffer_ok_def)
  then have t: "take (?n + ?k) (blit ?n (take ?k input) (packet_buffer z)) = pending z @ take ?k input"
    using take_blit_end [of ?n "packet_buffer z" "take ?k input"] by (simp add: pending_def)
  then show "pending z1 @ rest = pending z @ input" by (simp add: z1 r pending_def)
  show "buffer_ok z1" using assms(1) by (auto simp: z1 buffer_ok_def)
  show "rest = [] \<or> packet_buffer_n z1 = ZMODEM_MAX_BLOCK_SIZE"
    using assms(1) by (auto simp: z1 r buffer_ok_def)
  show "\<exists>b n. z1 = z\<lparr>packet_buffer := b, packet_buffer_n := n\<rparr>" using z1 by blast
qed

lemma receiving_add_input:
  assumes "receiving f z" "add_input input z = (rest, z1)"
  shows "receiving f z1" "z_file_position z1 = z_file_position z"
    "p_use_crc32 (packet z1) = p_use_crc32 (packet z)" "z_crc_32_tab z1 = z_crc_32_tab z"
proof -
  have ok: "buffer_ok z" using assms(1) by (simp add: receiving_def)
  obtain b n where "z1 = z\<lparr>packet_buffer := b, packet_buffer_n := n\<rparr>"
    using add_input_pending(4) [OF ok assms(2)] by blast
  with assms(1) add_input_pending(2) [OF ok assms(2)]
  show "receiving f z1" "z_file_position z1 = z_file_position z"
    "p_use_crc32 (packet z1) = p_use_crc32 (packet z)" "z_crc_32_tab z1 = z_crc_32_tab z"
    by (simp_all add: receiving_def)
qed

lemma appended_appended: "appended e (appended d f) = appended (d @ e) f"
  by (simp add: appended_def)

lemma appended_Nil: "f_pos f = length (f_data f) \<Longrightarrow> appended [] f = f"
  by (cases f) (simp add: appended_def)

abbreviation contents :: "zpacket \<Rightarrow> byte list" where
  "contents p \<equiv> take (p_data_n p) (p_data p)"

lemma stream_delivered:
  assumes "receiving f z" "list_all (block (p_use_crc32 (packet z))) ps"
    "pending z @ input = concat (map (\<lambda>p. subpacket_bytes flags (z_crc_32_tab z) p ZCRCG) ps)"
  shows "\<exists>z1. receive_loop input z = Some (Inr z1)
     \<and> receiving (appended (concat (map contents ps)) f) z1
     \<and> z_file_position z1 = z_file_position z + int (length (concat (map contents ps)))
     \<and> pending z1 = []"
  using assms
proof (induction ps arbitrary: f z input)
  case Nil
  have ok: "buffer_ok z" using Nil(1) by (simp add: receiving_def)
  have e: "pending z = []" "input = []" using Nil(3) by simp_all
  obtain rest z1 where a: "add_input input z = (rest, z1)" by fastforce
  have r: "receiving f z1" "z_file_position z1 = z_file_position z"
    using receiving_add_input [OF Nil(1) a] by simp_all
  have p: "pending z1 = []" using add_input_pending(1) [OF ok a] e by simp
  have ok1: "buffer_ok z1" using r(1) by (simp add: receiving_def)
  have n: "packet_buffer_n z1 = 0" using length_pending [OF ok1] p by simp
  have "receive_zdata z1 = Inr (True, z1)"
    using p n r(1) by (simp add: receive_zdata_def decode_zdata_bytes_def Let_def receiving_def)
  then have "receive_loop input z = Some (Inr z1)"
    using r(1) by (subst receive_loop.simps) (simp add: a receive_dispatch_def receiving_def)
  moreover have "appended [] f = f" using r(1) by (intro appended_Nil) (simp add: receiving_def)
  ultimately show ?case using r p by simp
next
  case (Cons p ps)
  let ?s = "subpacket_bytes flags (z_crc_32_tab z) p ZCRCG"
  let ?rest = "concat (map (\<lambda>p. subpacket_bytes flags (z_crc_32_tab z) p ZCRCG) ps)"
  have ok: "buffer_ok z" using Cons.prems(1) by (simp add: receiving_def)
  have blk: "block (p_use_crc32 (packet z)) p" using Cons.prems(2) by simp
  obtain more z1 where a: "add_input input z = (more, z1)" by fastforce
  note r = receiving_add_input [OF Cons.prems(1) a]
  have ok1: "buffer_ok z1" using r(1) by (simp add: receiving_def)
  have tot: "pending z1 @ more = ?s @ ?rest"
    using add_input_pending(1) [OF ok a] Cons.prems(3) by simp
  have "length ?s \<le> length (pending z1)"
  proof (cases "more = []")
    case True
    with tot show ?thesis by (metis append_Nil2 length_append le_add1)
  next
    case False
    then have "packet_buffer_n z1 = ZMODEM_MAX_BLOCK_SIZE" using add_input_pending(3) [OF ok a] by simp
    then show ?thesis using length_subpacket [OF blk] length_pending [OF ok1] by simp
  qed
  then obtain ys where ys: "pending z1 = ?s @ ys" "ys @ more = ?rest"
    using tot by (metis append_eq_append_conv_if append_eq_conv_conj append_take_drop_id)
  have "\<exists>z2. receive_zdata z1 = Inr (False, z2)
     \<and> z_file_stream z2 = Some (appended (contents p) f)
     \<and> z_file_position z2 = z_file_position z1 + int (p_data_n p) \<and> pending z2 = ys
     \<and> z_state z2 = (if ZCRCG \<in> {ZCRCE, ZCRCW} then ZRPOS_WAIT else ZDATA)
     \<and> (ZCRCG = ZCRCG \<longrightarrow> receiving (appended (contents p) f) z2
          \<and> p_use_crc32 (packet z2) = p_use_crc32 p \<and> z_crc_32_tab z2 = z_crc_32_tab z1)"
    using r blk ys(1)
    by (intro subpacket_into_file [where flags = flags])
       (simp_all add: block_def crc_escapes_def xon_after_def)
  then obtain z2 where z2: "receive_zdata z1 = Inr (False, z2)" "receiving (appended (contents p) f) z2"
      "z_file_position z2 = z_file_position z + int (p_data_n p)" "pending z2 = ys"
      "p_use_crc32 (packet z2) = p_use_crc32 (packet z)" "z_crc_32_tab z2 = z_crc_32_tab z"
    using r blk by (auto simp: block_def)
  have "receive_loop input z = receive_loop more z2"
    using r(1) z2(1) by (subst receive_loop.simps) (simp add: a receive_dispatch_def receiving_def)
  moreover have "\<exists>z3. receive_loop more z2 = Some (Inr z3)
     \<and> receiving (appended (concat (map contents ps)) (appended (contents p) f)) z3
     \<and> z_file_position z3 = z_file_position z2 + int (length (concat (map contents ps)))
     \<and> pending z3 = []"
    using z2(2,4-6) Cons.prems(2) ys(2) by (intro Cons.IH) simp_all
  moreover have "length (contents p) = p_data_n p" using blk by (simp add: block_def)
  ultimately show ?case using z2(3) by (auto simp: appended_appended)
qed

section \<open>Delivery\<close>

text \<open>
  C7. A data subpacket that the sender's \<open>encode_zdata_bytes\<close> has put into its output is taken by
  the receiver's \<open>receive_zdata\<close> without loss, whatever the escaping flags of the sender, the width
  of the CRC and the way the subpacket ends: the CRC is accepted, exactly its data is appended to
  the file, the position advances by its length, what follows the subpacket stays in the buffer
  (the XON behind a ZCRCW is dropped), and the next state is ZRPOS_WAIT when the frame ends.
\<close>

theorem zmodem_subpacket_delivered:
  assumes "receiving f z" "t \<in> {ZCRCE, ZCRCG, ZCRCQ, ZCRCW}" "block (p_use_crc32 (packet z)) p"
    "out_n z + 21 \<le> length (out_buffer z)"
    "encode_zdata_bytes (encode_map flags) (z_crc_32_tab z) p t (replicate 4096 0, 0) = Inr (arr, n)"
    "pending z = take n arr @ rest"
  shows "\<exists>z1. receive_zdata z = Inr (False, z1)
     \<and> z_file_stream z1 = Some (f\<lparr>f_data := f_data f @ take (p_data_n p) (p_data p),
                                  f_pos := length (f_data f) + p_data_n p\<rparr>)
     \<and> z_file_position z1 = z_file_position z + int (p_data_n p) \<and> pending z1 = rest
     \<and> z_state z1 = (if t \<in> {ZCRCE, ZCRCW} then ZRPOS_WAIT else ZDATA)"
proof -
  have "pending z = subpacket_bytes flags (z_crc_32_tab z) p t @ xon_after t @ rest"
    using assms(5,6) wire_bytes [OF assms(3), of flags "z_crc_32_tab z" t] by (simp add: wire_def)
  moreover have "length (contents p) = p_data_n p" using assms(3) by (simp add: block_def)
  ultimately show ?thesis
    using subpacket_into_file [of f z t p flags rest] assms(1-4)
    by (auto simp: block_def crc_escapes_def appended_def)
qed

text \<open>A receiver in the middle of a frame, and a packet with data.\<close>

definition receiving_sample :: "bool \<Rightarrow> byte list \<Rightarrow> zmodem" where
  "receiving_sample wide xs =
     (zmodem_initial (idle (disk_with [] [])))\<lparr>z_state := ZDATA, z_prior_state := ZRPOS_WAIT,
        z_file_stream := Some (open_file [7] 1), z_file_position := 1,
        packet := empty_packet\<lparr>p_type := P_ZDATA, p_use_crc32 := wide\<rparr>,
        packet_buffer := xs @ replicate (ZMODEM_MAX_BLOCK_SIZE - length xs) 0,
        packet_buffer_n := length xs\<rparr>"

definition block_sample :: "bool \<Rightarrow> byte list \<Rightarrow> zpacket" where
  "block_sample wide d = empty_packet\<lparr>p_use_crc32 := wide, p_data := d, p_data_n := length d\<rparr>"

lemma receiving_sample_ok:
  "length xs \<le> ZMODEM_MAX_BLOCK_SIZE \<Longrightarrow> receiving (open_file [7] 1) (receiving_sample wide xs)"
  "length xs \<le> ZMODEM_MAX_BLOCK_SIZE \<Longrightarrow> pending (receiving_sample wide xs) = xs"
  by (simp_all add: receiving_sample_def receiving_def zmodem_initial_def empty_packet_def
      buffer_ok_def pending_def)

lemma receiving_sample_fields [simp]:
  "p_use_crc32 (packet (receiving_sample wide xs)) = wide"
  "z_crc_32_tab (receiving_sample wide xs) = replicate 256 0"
  "out_n (receiving_sample wide xs) = 0" "length (out_buffer (receiving_sample wide xs)) = 4096"
  "z_file_position (receiving_sample wide xs) = 1"
  "\<not> z_sending (receiving_sample wide xs)"
  by (simp_all add: receiving_sample_def receiving_def zmodem_initial_def empty_packet_def
      buffer_ok_def pending_def)

lemma block_sample_ok: "length d \<le> ZMODEM_BLOCK_SIZE \<Longrightarrow> block wide (block_sample wide d)"
  by (simp add: block_sample_def block_def empty_packet_def)

lemma block_sample_data [simp]:
  "p_data_n (block_sample wide d) = length d" "p_data (block_sample wide d) = d"
  by (simp_all add: block_sample_def)

lemma zmodem_subpacket_delivered_witness:
  "\<exists>arr n z1. encode_zdata_bytes (encode_map TX_ESCAPE_CTRL) (replicate 256 0) (block_sample False [24, 65, 255])
        ZCRCW (replicate 4096 0, 0) = Inr (arr, n)
     \<and> receive_zdata (receiving_sample False (take n arr @ [1])) = Inr (False, z1)
     \<and> z_file_stream z1 = Some ((open_file [7] 1)\<lparr>f_data := [7, 24, 65, 255], f_pos := 4\<rparr>)
     \<and> pending z1 = [1] \<and> z_state z1 = ZRPOS_WAIT"
proof -
  let ?p = "block_sample False [24, 65, 255]" and ?t = "replicate 256 0 :: u32 list"
  have b: "block False ?p" by (rule block_sample_ok) simp
  obtain arr n where e: "encode_zdata_bytes (encode_map TX_ESCAPE_CTRL) ?t ?p ZCRCW (replicate 4096 0, 0)
      = Inr (arr, n)" "take n arr = subpacket_bytes TX_ESCAPE_CTRL ?t ?p ZCRCW @ xon_after ZCRCW"
    using encode_zdata_result [of 0 ?p "replicate 4096 0" TX_ESCAPE_CTRL ?t ZCRCW] by (auto simp: blit_def)
  have l: "length (take n arr @ [1]) \<le> ZMODEM_MAX_BLOCK_SIZE"
    unfolding e(2) using length_subpacket_bytes [of TX_ESCAPE_CTRL ?t ?p ZCRCW] by (simp add: xon_after_def)
  let ?z = "receiving_sample False (take n arr @ [1])"
  note ok = receiving_sample_ok [OF l]
  have "\<exists>z1. receive_zdata ?z = Inr (False, z1)
     \<and> z_file_stream z1 = Some ((open_file [7] 1)\<lparr>f_data := f_data (open_file [7] 1) @ take (p_data_n ?p) (p_data ?p),
                                  f_pos := length (f_data (open_file [7] 1)) + p_data_n ?p\<rparr>)
     \<and> z_file_position z1 = z_file_position ?z + int (p_data_n ?p) \<and> pending z1 = [1]
     \<and> z_state z1 = (if ZCRCW \<in> {ZCRCE, ZCRCW} then ZRPOS_WAIT else ZDATA)"
    using e(1) b ok by (intro zmodem_subpacket_delivered) simp_all
  with e(1) show ?thesis by auto
qed

text \<open>
  C2. A stream of data subpackets in the middle of a frame, as many as there are, each of them
  ended with ZCRCG (the frame goes on and no answer is wanted), that are handed to \<open>zmodem\<close> in
  one call goes into the file completely and in order, although \<open>packet_buffer\<close> only holds one escaped
  block: the loop takes a subpacket, refills the buffer, and stops when nothing is left. No byte is
  lost, the position is the number of bytes received, and the receiver waits for the next
  subpacket of the frame.
\<close>

theorem zmodem_stream_delivered:
  assumes "receiving f z" "\<not> z_sending z" "ZMODEM_MAX_BLOCK_SIZE < length (out_buffer z)"
    "list_all (block (p_use_crc32 (packet z))) ps" "pending z = []"
  shows "\<exists>z1. zmodem_process (concat (map (wire flags (z_crc_32_tab z) ZCRCG) ps)) z = Inr z1
     \<and> z_file_stream z1 = Some (f\<lparr>f_data := f_data f @ concat (map contents ps),
                                  f_pos := length (f_data f) + length (concat (map contents ps))\<rparr>)
     \<and> z_file_position z1 = z_file_position z + int (length (concat (map contents ps)))
     \<and> pending z1 = [] \<and> z_state z1 = ZDATA"
proof -
  let ?s = "concat (map (wire flags (z_crc_32_tab z) ZCRCG) ps)"
  define y where "y = (if ?s \<noteq> [] then z_reset_timer z else z)"
  have y: "receiving f y" "p_use_crc32 (packet y) = p_use_crc32 (packet z)" "z_crc_32_tab y = z_crc_32_tab z"
      "z_file_position y = z_file_position z" "pending y = []" "\<not> z_sending y"
    using assms(1,2,5) by (simp_all add: y_def receiving_def z_reset_timer_def buffer_ok_def pending_def)
  have "wire flags (z_crc_32_tab z) ZCRCG p = subpacket_bytes flags (z_crc_32_tab z) p ZCRCG"
    if "p \<in> set ps" for p
    using that assms(4) wire_bytes [of "p_use_crc32 (packet z)" p flags "z_crc_32_tab z" ZCRCG]
    by (simp add: list_all_iff xon_after_def)
  then have s: "pending y @ ?s = concat (map (\<lambda>p. subpacket_bytes flags (z_crc_32_tab y) p ZCRCG) ps)"
    using y(3,5) by (metis (no_types, lifting) append_Nil map_cong)
  have blk: "list_all (block (p_use_crc32 (packet y))) ps" using assms(4) y(2) by simp
  obtain z1 where z1: "receive_loop ?s y = Some (Inr z1)"
      "receiving (appended (concat (map contents ps)) f) z1"
      "z_file_position z1 = z_file_position z + int (length (concat (map contents ps)))" "pending z1 = []"
    using stream_delivered [OF y(1) blk s] y(4) by auto
  have st: "z_state z \<noteq> Z_ABORT" "z_state z \<noteq> Z_COMPLETE" using assms(1) by (simp_all add: receiving_def)
  have "zmodem_process ?s z = Inr (if 0 < out_n z1 then z_reset_timer z1 else z1)"
    using assms(3) st y(6) z1(1)
    unfolding zmodem_process_def Let_def y_def [symmetric] zmodem_receive_def by simp
  then show ?thesis
    using z1(2-4) by (auto simp: receiving_def z_reset_timer_def pending_def appended_def)
qed

lemma zmodem_stream_delivered_witness:
  "\<exists>z1. zmodem_process (concat (map (wire 0 (replicate 256 0) ZCRCG)
            [block_sample True [1, 2, 24], block_sample True []])) (receiving_sample True []) = Inr z1
     \<and> z_file_stream z1 = Some ((open_file [7] 1)\<lparr>f_data := [7, 1, 2, 24], f_pos := 4\<rparr>)
     \<and> z_file_position z1 = 4 \<and> pending z1 = [] \<and> z_state z1 = ZDATA"
proof -
  have l: "length ([] :: byte list) \<le> ZMODEM_MAX_BLOCK_SIZE" by simp
  note ok = receiving_sample_ok [OF l]
  have four: "Suc (Suc (Suc (Suc 0))) = 4" by simp
  show ?thesis
    using zmodem_stream_delivered [of "open_file [7] 1" "receiving_sample True []"
        "[block_sample True [1, 2, 24], block_sample True []]" 0] ok
    by (simp add: block_sample_ok four)
qed

end
