(* ===== verification/Zmodem_Header.thy ===== *)
theory Zmodem_Header
  imports Zmodem_Delivery
begin

text \<open>
  Headers: what \<open>build_packet\<close> writes \<open>parse_packet\<close> reads, in all three formats; the one type whose
  argument arrives with its bytes reversed; and what becomes of two headers in one output buffer.
\<close>

section \<open>The bytes of a header\<close>

definition header_escapes :: "byte \<Rightarrow> zmodem \<Rightarrow> u32" where
  "header_escapes typ z =
     (if typ = P_ZSINIT \<and> z_flags z AND TX_ESCAPE_CTRL = 0 then z_flags z OR TX_ESCAPE_CTRL else z_flags z)"

definition header_wire :: "byte \<Rightarrow> u32 \<Rightarrow> zmodem \<Rightarrow> byte list" where
  "header_wire typ arg z =
     (let h = header_bytes typ arg in
      if header_in_hex typ z then hex_header h @ (if typ \<in> {P_ZFIN, P_ZACK} then [] else [C_XON])
      else [ZPAD, C_CAN, if z_use_crc32 z then 0x43 else 0x41]
             @ escaped (header_escapes typ z) (h @ header_crc (z_crc_32_tab z) (z_use_crc32 z) h))"

lemma length_header_crc: "length (header_crc tab wide h) = (if wide then 4 else 2)"
  by (simp add: header_crc_def)

lemma build_packet_bytes:
  assumes "encode_byte_map z = encode_map (z_flags z)" "21 \<le> length arr"
  shows "build_packet typ arg z (arr, 0)
       = Inr (z\<lparr>packet := (packet z)\<lparr>p_type := typ, p_use_crc32 := (z_use_crc32 z \<and> \<not> header_in_hex typ z),
                                         p_data_n := 0\<rparr>\<rparr>,
              (blit 0 (header_wire typ arg z) arr, length (header_wire typ arg z)))"
    and "length (header_wire typ arg z) \<le> 21"
proof -
  have map: "setup_encode_byte_map (z\<lparr>packet := q\<rparr>) = z\<lparr>packet := q\<rparr>" for q
    using assms(1) by (intro zmodem.equality) (simp_all add: setup_encode_byte_map_def)
  have "build_packet typ arg z (arr, 0)
       = Inr (z\<lparr>packet := (packet z)\<lparr>p_type := typ, p_use_crc32 := (z_use_crc32 z \<and> \<not> header_in_hex typ z),
                                         p_data_n := 0\<rparr>\<rparr>,
              (blit 0 (header_wire typ arg z) arr, length (header_wire typ arg z)))
     \<and> length (header_wire typ arg z) \<le> 21"
proof (cases "header_in_hex typ z")
  case True
  let ?h = "hex_header (header_bytes typ arg)"
  have "build_hex typ (header_bytes typ arg) (arr, 0)
      = Inr (blit 0 (header_wire typ arg z) arr, length (header_wire typ arg z))"
    using assms(2) True blit_append [of 0 ?h "[C_XON]" arr]
    by (auto simp: build_hex_def header_wire_def Let_def simp del: C_XON_def)
  moreover have "length (header_wire typ arg z) \<le> 21"
    using True by (simp add: header_wire_def Let_def)
  ultimately show ?thesis
    using assms(2) True by (simp add: build_packet_def Let_def)
next
  case False
  let ?h = "header_bytes typ arg" and ?w = "z_use_crc32 z" and ?fl = "header_escapes typ z"
  let ?f = "?h @ header_crc (z_crc_32_tab z) ?w ?h"
  define pre where "pre = [ZPAD, C_CAN, if ?w then 0x43 else 0x41]"
  define body where "body = escaped ?fl ?f"
  have em: "(if \<not> header_in_hex typ z \<and> typ = P_ZSINIT \<and> z_flags z AND TX_ESCAPE_CTRL = 0
       then encode_map (z_flags z OR TX_ESCAPE_CTRL) else encode_byte_map z) = encode_map ?fl"
    using False assms(1) by (simp add: header_escapes_def)
  have f: "length ?f \<le> 9" by (simp add: length_header_crc)
  have p: "length pre = 3" by (simp add: pre_def)
  have "encode_bytes (encode_map ?fl) ?f (blit 0 pre arr, 3)
      = Inr (blit 3 body (blit 0 pre arr), 3 + length body) \<and> length body \<le> 2 * length ?f"
    unfolding body_def using f p assms(2) by (intro encode_bytes_result) simp
  then have e: "encode_bytes (encode_map ?fl) ?f (blit 0 pre arr, 3)
      = Inr (blit 0 (pre @ body) arr, 3 + length body)" and b: "length body \<le> 18"
    using blit_append [of 0 pre body arr] f p assms(2) by auto
  have w: "header_wire typ arg z = pre @ body"
    using False by (simp add: header_wire_def Let_def pre_def body_def)
  have "build_binary (encode_map ?fl) (z_crc_32_tab z) ?w ?h (arr, 0)
      = Inr (blit 0 (header_wire typ arg z) arr, length (header_wire typ arg z))
      \<and> length (header_wire typ arg z) \<le> 21"
    using assms(2) p b unfolding build_binary_def Let_def prod.case pre_def [symmetric] w
    by (simp only: add_0 e) simp
  then show ?thesis
    using assms(2) unfolding build_packet_def Let_def em
    using False by (auto simp: map)
qed
  then show "build_packet typ arg z (arr, 0)
       = Inr (z\<lparr>packet := (packet z)\<lparr>p_type := typ, p_use_crc32 := (z_use_crc32 z \<and> \<not> header_in_hex typ z),
                                         p_data_n := 0\<rparr>\<rparr>,
              (blit 0 (header_wire typ arg z) arr, length (header_wire typ arg z)))"
    "length (header_wire typ arg z) \<le> 21" by simp_all
qed

section \<open>Parsing it\<close>

lemma take_fields_encoded:
  "take_fields (Suc k) False acc (encoded (encode_map fl) b @ xs) = take_fields k False (acc @ [b]) xs"
proof -
  have "take_escaped (encoded (encode_map fl) b @ xs) = Some (b, xs)" by (rule zescape.takes) simp
  then show ?thesis
  proof (cases rule: take_escaped_cases)
    case (2 d)
    then have "d \<noteq> C_CAN" by (auto simp: unescape_def)
    with 2 show ?thesis by (simp del: C_CAN_def)
  qed (simp del: C_CAN_def)
qed

lemma take_fields_escaped:
  "take_fields (length fs) False acc (escaped fl fs @ xs) = (acc @ fs, Fields_complete xs)"
  by (induction fs arbitrary: acc) (simp_all add: take_fields_encoded del: take_fields.simps(3))

text \<open>The packet of a complete header, before its argument is put in order.\<close>

definition header_packet :: "bool \<Rightarrow> u32 list \<Rightarrow> byte list \<Rightarrow> zpacket" where
  "header_packet wide tab h = with_fields wide (h @ header_crc tab wide h)"

lemma parse_binary_wire:
  assumes "length h = 5"
  shows "parse_binary wide ((if wide then 0x43 else 0x41) # escaped fl (h @ header_crc tab wide h) @ rest)
       = Header (header_packet wide tab h) h rest"
proof -
  let ?f = "h @ header_crc tab wide h"
  have l: "length ?f = (if wide then 9 else 7)" using assms by (simp add: length_header_crc)
  have "length ?f \<le> length (escaped fl ?f)" by (rule length_escaped)
  then have n: "\<not> length ((if wide then 0x43 else 0x41 :: byte) # escaped fl ?f @ rest) < (if wide then 10 else 8)"
    using l by auto
  have t: "take_fields (if wide then 9 else 7) False [] (escaped fl ?f @ rest) = (?f, Fields_complete rest)"
    using take_fields_escaped [of ?f "[]" fl rest] l by simp
  have "take 5 ?f = h" using assms by simp
  then show ?thesis
    unfolding parse_binary_def if_not_P [OF n] drop_0 drop_Suc_Cons One_nat_def t Let_def
    by (simp add: header_packet_def)
qed

lemma parse_hex_wire:
  assumes "length h = 5"
  shows "parse_hex (hexify_string h @ hexify_string (header_crc tab False h) @ [C_CR, C_LF OR 0x80] @ xs)
       = (if hd h \<in> {P_ZFIN, P_ZACK} then Header (header_packet False tab h) h xs
          else if xs = [] then No_header ZM_PP_NODATA (header_packet False tab h)
          else Header (header_packet False tab h) h (tl xs))"
proof -
  obtain t a b c d where h: "h = [t, a, b, c, d]"
    using assms by (auto simp: length_Suc_conv eval_nat_numeral)
  obtain x y where crc: "header_crc tab False h = [x, y]"
    using length_header_crc [of tab False h] by (auto simp: length_Suc_conv eval_nat_numeral)
  let ?x = "hexify_string h @ hexify_string (header_crc tab False h) @ [C_CR, C_LF OR 0x80] @ xs"
  have 1: "take 2 ?x = hexify_string [t]" "take 8 (drop 2 ?x) = hexify_string [a, b, c, d]"
      "take 4 (drop 10 ?x) = hexify_string [x, y]" "drop 16 ?x = xs"
    unfolding crc unfolding h by (simp_all add: hexify_string_def)
  have 2: "\<not> length ?x < 14 + 2" by (simp add: assms crc)
  have p: "p_type (with_fields False (t # r)) = t" for r by (simp add: with_fields_def Let_def)
  show ?thesis
    unfolding parse_hex_def if_not_P [OF 2] 1 dehexify_hexify option.case Let_def
    unfolding header_packet_def crc unfolding h by (simp add: p)
qed

lemma header_packet_fields:
  "p_type (header_packet wide tab (header_bytes typ arg)) = typ"
  "p_use_crc32 (header_packet wide tab h) = wide"
  "p_argument (header_packet wide tab (header_bytes typ arg))
     = (if typ \<in> set little_endian_types \<or> typ = P_ZSINIT then big_to_little_endian arg else arg)"
  "header_crc_ok tab ((header_packet wide tab (header_bytes typ arg))\<lparr>p_argument := a\<rparr>) (header_bytes typ arg)"
  "header_crc_ok tab (header_packet wide tab (header_bytes typ arg)) (header_bytes typ arg)"
proof -
  have d: "drop 5 (header_bytes typ arg @ c) = c" for c by simp
  have t: "take 4 (drop 1 (header_bytes typ arg @ c)) = tl (header_bytes typ arg)" for c
    by (simp add: header_bytes_def)
  show "p_type (header_packet wide tab (header_bytes typ arg)) = typ"
    by (simp add: header_packet_def with_fields_def header_bytes_def Let_def)
  show "p_use_crc32 (header_packet wide tab h) = wide"
    by (simp add: header_packet_def with_fields_def Let_def split: list.split)
  show "p_argument (header_packet wide tab (header_bytes typ arg))
     = (if typ \<in> set little_endian_types \<or> typ = P_ZSINIT then big_to_little_endian arg else arg)"
    unfolding header_packet_def with_fields_def Let_def t
    by (simp add: header_bytes_def or_down_le_bytes or_down_be_bytes)
  show "header_crc_ok tab ((header_packet wide tab (header_bytes typ arg))\<lparr>p_argument := a\<rparr>) (header_bytes typ arg)"
      "header_crc_ok tab (header_packet wide tab (header_bytes typ arg)) (header_bytes typ arg)"
    unfolding header_packet_def with_fields_def Let_def d
    by (simp_all add: header_bytes_def header_crc_ok_def header_crc_def or_up_le_bytes or_down_crc16)
qed

text \<open>The argument as the receiver of the header sees it.\<close>

definition received_argument :: "byte \<Rightarrow> u32 \<Rightarrow> u32" where
  "received_argument typ arg = (if typ = P_ZSINIT then big_to_little_endian arg else arg)"

definition parsed :: "byte \<Rightarrow> u32 \<Rightarrow> bool \<Rightarrow> zpacket \<Rightarrow> bool" where
  "parsed typ arg wide q \<longleftrightarrow>
     p_type q = typ \<and> p_argument q = received_argument typ arg \<and> p_use_crc32 q = wide
     \<and> p_data_n q = 0 \<and> (typ \<in> set types_with_data \<longrightarrow> p_crc16 q = 0)
     \<and> length (p_data q) = ZMODEM_MAX_BLOCK_SIZE \<and> length (p_crc_buffer q) = 5"

definition with_parsed :: "byte \<Rightarrow> zpacket \<Rightarrow> zmodem \<Rightarrow> zmodem" where
  "with_parsed typ q z =
     (if typ \<in> set types_with_data then z\<lparr>z_prior_state := z_state z, z_state := ZDATA, packet := q\<rparr>
      else z\<lparr>packet := q\<rparr>)"

lemma with_fields_frame [simp]:
  "p_data_n (with_fields wide fs) = 0" "length (p_data (with_fields wide fs)) = ZMODEM_MAX_BLOCK_SIZE"
  "length (p_crc_buffer (with_fields wide fs)) = 5"
  by (simp_all add: with_fields_def Let_def empty_packet_def split: list.split)

lemma header_found_wire:
  assumes "typ \<in> set known_types" "wide \<longrightarrow> tab = z_crc_32_tab z"
  shows "\<exists>q. header_found (header_packet wide tab (header_bytes typ arg)) (header_bytes typ arg) start stop z
          = (ZM_PP_OK, stop, with_parsed typ q z) \<and> parsed typ arg wide q"
proof -
  let ?h = "header_bytes typ arg" and ?p = "header_packet wide tab (header_bytes typ arg)"
  have tab: "header_packet wide (z_crc_32_tab z) ?h = ?p"
    using assms(2) by (cases wide) (simp_all add: header_packet_def header_crc_def)
  have ok: "header_crc_ok (z_crc_32_tab z) (?p\<lparr>p_argument := a\<rparr>) ?h"
      "header_crc_ok (z_crc_32_tab z) ?p ?h" for a
    using header_packet_fields(4) [of "z_crc_32_tab z" a wide "typ" arg]
      header_packet_fields(5) [of "z_crc_32_tab z" wide "typ" arg] tab by simp_all
  have sin: "P_ZSINIT \<notin> set little_endian_types" by (simp add: little_endian_types_def)
  have fr: "p_data_n ?p = 0" "length (p_data ?p) = ZMODEM_MAX_BLOCK_SIZE" "length (p_crc_buffer ?p) = 5"
    by (simp_all add: header_packet_def)
  let ?q = "if typ \<in> set little_endian_types then ?p\<lparr>p_argument := big_to_little_endian (p_argument ?p)\<rparr> else ?p"
  let ?r = "if typ \<in> set types_with_data then ?q\<lparr>p_data_n := 0, p_crc16 := 0, p_crc32 := crc32_preset\<rparr> else ?q"
  have "header_found ?p ?h start stop z = (ZM_PP_OK, stop, with_parsed typ ?r z)"
    using assms(1) ok header_packet_fields(1)
    by (simp add: header_found_def Let_def with_parsed_def)
  moreover have "parsed typ arg wide ?r"
    using sin fr header_packet_fields(1-3)
    by (auto simp: parsed_def received_argument_def big_to_little_endian_involution simp del: P_ZSINIT_def)
  ultimately show ?thesis by blast
qed

text \<open>The part of \<open>parse_packet\<close> behind the CAN, and the whole on a header at the front.\<close>

lemma parse_packet_front:
  assumes "pending y = pads @ C_CAN # c # xs" "pads \<noteq> []" "set pads \<subseteq> {ZPAD}" "c \<in> {0x41, 0x42, 0x43}"
  shows "parse_packet y
       = (case (if c = 0x42 then parse_hex xs else parse_binary (c = 0x43) (c # xs)) of
            No_header r p \<Rightarrow> (r, 0, y\<lparr>packet := p\<rparr>)
          | Header p h rest \<Rightarrow>
              header_found p h 0 (length (pending y) - length rest) (y\<lparr>packet := empty_packet\<rparr>))"
proof -
  let ?i = "take (packet_buffer_n (y\<lparr>packet := empty_packet\<rparr>)) (packet_buffer (y\<lparr>packet := empty_packet\<rparr>))"
  have i: "?i = pending y" by (simp add: pending_def)
  have s: "length (takeWhile (\<lambda>c. c \<noteq> ZPAD) (pending y)) = 0"
    using assms(1-3) by (cases pads) auto
  have d: "dropWhile (\<lambda>c. c = ZPAD) (drop 0 (pending y)) = C_CAN # c # xs"
    using assms(1,3) by (auto simp: dropWhile_append2 subset_iff)
  show ?thesis
    unfolding parse_packet_def Let_def i s d
    using assms(4) by (auto split: header_parse.splits simp del: C_CAN_def)
qed

lemma parse_packet_hex:
  assumes "pending y = [ZPAD, ZPAD] @ C_CAN # 0x42 # xs"
  shows "parse_packet y
       = (case parse_hex xs of
            No_header r p \<Rightarrow> (r, 0, y\<lparr>packet := p\<rparr>)
          | Header p h rest \<Rightarrow>
              header_found p h 0 (length (pending y) - length rest) (y\<lparr>packet := empty_packet\<rparr>))"
  by (simp add: parse_packet_front [OF assms] del: C_CAN_def ZPAD_def)

lemma parse_header_wire:
  assumes "typ \<in> set known_types" "pending y = header_wire typ arg z @ rest"
    "\<not> header_in_hex typ z \<and> z_use_crc32 z \<longrightarrow> z_crc_32_tab y = z_crc_32_tab z"
  shows "\<exists>q. parse_packet y = (ZM_PP_OK, length (header_wire typ arg z), with_parsed typ q y)
       \<and> parsed typ arg (\<not> header_in_hex typ z \<and> z_use_crc32 z) q"
proof -
  let ?h = "header_bytes typ arg" and ?y = "y\<lparr>packet := empty_packet\<rparr>"
  let ?w = "\<not> header_in_hex typ z \<and> z_use_crc32 z"
  let ?stop = "length (header_wire typ arg z)"
  have stop: "length (pending y) - length rest = ?stop" using assms(2) by simp
  have "parse_packet y = header_found (header_packet ?w (z_crc_32_tab z) ?h) ?h 0 ?stop ?y"
  proof (cases "header_in_hex typ z")
    case True
    let ?x = "(if typ \<in> {P_ZFIN, P_ZACK} then [] else [C_XON]) @ rest"
    let ?xs = "hexify_string ?h @ hexify_string (header_crc (z_crc_32_tab z) False ?h) @ [C_CR, C_LF OR 0x80] @ ?x"
    have "pending y = [ZPAD, ZPAD] @ C_CAN # 0x42 # ?xs"
      using True assms(2)
      by (simp add: header_wire_def Let_def hex_header_def header_crc_def del: C_CAN_def ZPAD_def C_XON_def P_ZFIN_def P_ZACK_def)
    note f = parse_packet_hex [OF this]
    have hd: "hd ?h = typ" by (simp add: header_bytes_def)
    have "parse_hex ?xs = Header (header_packet False (z_crc_32_tab z) ?h) ?h rest"
      using parse_hex_wire [of ?h "z_crc_32_tab z" ?x] hd
      by (auto simp del: P_ZFIN_def P_ZACK_def)
    then show ?thesis using f True stop by simp
  next
    case False
    let ?c = "if z_use_crc32 z then 0x43 else 0x41 :: byte"
    let ?xs = "escaped (header_escapes typ z) (?h @ header_crc (z_crc_32_tab z) (z_use_crc32 z) ?h) @ rest"
    have "pending y = [ZPAD] @ C_CAN # ?c # ?xs"
      using False assms(2) by (simp add: header_wire_def Let_def del: C_CAN_def ZPAD_def)
    from parse_packet_front [OF this]
    have f: "parse_packet y
       = (case parse_binary (z_use_crc32 z) (?c # ?xs) of
            No_header r p \<Rightarrow> (r, 0, y\<lparr>packet := p\<rparr>)
          | Header p h r \<Rightarrow> header_found p h 0 (length (pending y) - length r) ?y)"
      by (cases "z_use_crc32 z") (simp_all del: C_CAN_def ZPAD_def)
    have "parse_binary (z_use_crc32 z) (?c # ?xs)
        = Header (header_packet (z_use_crc32 z) (z_crc_32_tab z) ?h) ?h rest"
      by (rule parse_binary_wire) simp
    then show ?thesis using f False stop by simp
  qed
  moreover obtain q where "header_found (header_packet ?w (z_crc_32_tab z) ?h) ?h 0 ?stop ?y
        = (ZM_PP_OK, ?stop, with_parsed typ q ?y)" "parsed typ arg ?w q"
    using header_found_wire [OF assms(1), of ?w "z_crc_32_tab z" ?y arg 0 ?stop] assms(3) by auto
  moreover have "with_parsed typ q ?y = with_parsed typ q y" by (simp add: with_parsed_def)
  ultimately show ?thesis by (metis (no_types, lifting))
qed

lemma next_header_wire:
  assumes "typ \<in> set known_types" "pending y = header_wire typ arg z @ rest" "buffer_ok y"
    "\<not> header_in_hex typ z \<and> z_use_crc32 z \<longrightarrow> z_crc_32_tab y = z_crc_32_tab z"
  shows "\<exists>q. next_header y = (ZM_PP_OK, with_parsed typ q (drop_input (length (header_wire typ arg z)) y))
       \<and> parsed typ arg (\<not> header_in_hex typ z \<and> z_use_crc32 z) q
       \<and> pending (drop_input (length (header_wire typ arg z)) y) = rest
       \<and> buffer_ok (drop_input (length (header_wire typ arg z)) y)"
proof -
  let ?w = "header_wire typ arg z"
  have n: "length ?w \<le> packet_buffer_n y" using length_pending [OF assms(3)] assms(2) by simp
  have "drop_input (length ?w) (with_parsed typ q y) = with_parsed typ q (drop_input (length ?w) y)" for q
    by (simp add: drop_input_def with_parsed_def)
  then show ?thesis
    using parse_header_wire [OF assms(1,2,4)] drop_input_pending(1,2) [OF assms(3) n] assms(2)
    by (auto simp: next_header_def)
qed

section \<open>The round trip\<close>

text \<open>
  C8. Every header that \<open>build_packet\<close> puts into an empty output buffer, in hex or binary and with
  either CRC, is recognised by the other side when it is at the front of the input: type and
  argument come out as they went in, the CRC is accepted, exactly the bytes of the header are taken
  off the stream, and a type with data switches to ZDATA. The one exception is ZSINIT, whose
  argument is sent least significant byte first but not turned around again.
\<close>

theorem zmodem_header_roundtrip:
  assumes "typ \<in> set known_types" "encode_byte_map z = encode_map (z_flags z)" "21 \<le> length arr"
    "build_packet typ arg z (arr, 0) = Inr (z1, (arr1, n))"
    "buffer_ok y" "pending y = take n arr1 @ rest" "z_crc_32_tab y = z_crc_32_tab z"
  shows "\<exists>y1. next_header y = (ZM_PP_OK, y1)
     \<and> p_type (packet y1) = typ
     \<and> p_argument (packet y1) = (if typ = P_ZSINIT then big_to_little_endian arg else arg)
     \<and> pending y1 = rest
     \<and> z_state y1 = (if typ \<in> {P_ZSINIT, P_ZFILE, P_ZDATA, P_ZCOMMAND} then ZDATA else z_state y)"
proof -
  let ?w = "header_wire typ arg z"
  have "take n arr1 = ?w"
    using build_packet_bytes [OF assms(2,3), of "typ" arg] assms(4) by (auto simp: blit_def)
  then obtain q where "next_header y = (ZM_PP_OK, with_parsed typ q (drop_input (length ?w) y))"
      "parsed typ arg (\<not> header_in_hex typ z \<and> z_use_crc32 z) q" "pending (drop_input (length ?w) y) = rest"
    using next_header_wire [OF assms(1) _ assms(5), of arg z rest] assms(6,7) by auto
  then show ?thesis
    by (auto simp: with_parsed_def parsed_def received_argument_def types_with_data_def pending_def)
qed

text \<open>A receiver that waits, with some bytes in its buffer.\<close>

definition waiting_sample :: "zstate \<Rightarrow> byte list \<Rightarrow> zmodem" where
  "waiting_sample st xs =
     (zmodem_initial (idle (disk_with [] [])))\<lparr>z_state := st, encode_byte_map := encode_map 0,
        packet_buffer := xs @ replicate (ZMODEM_MAX_BLOCK_SIZE - length xs) 0,
        packet_buffer_n := length xs\<rparr>"

lemma waiting_sample_ok:
  assumes "length xs \<le> ZMODEM_MAX_BLOCK_SIZE"
  shows "buffer_ok (waiting_sample st xs)" "pending (waiting_sample st xs) = xs"
  using assms by (simp_all add: waiting_sample_def zmodem_initial_def buffer_ok_def pending_def)

lemma waiting_sample_fields [simp]:
  "z_state (waiting_sample st xs) = st" "z_flags (waiting_sample st xs) = 0"
  "encode_byte_map (waiting_sample st xs) = encode_map 0"
  "z_crc_32_tab (waiting_sample st xs) = replicate 256 0" "out_n (waiting_sample st xs) = 0"
  "length (out_buffer (waiting_sample st xs)) = 4096" "z_use_crc32 (waiting_sample st xs)"
  "\<not> z_sending (waiting_sample st xs)" "now (world (waiting_sample st xs)) = 1000"
  by (simp_all add: waiting_sample_def zmodem_initial_def)

lemma zmodem_header_roundtrip_witness:
  "\<exists>z1 arr1 n y1. build_packet P_ZRPOS 0x12345678 (waiting_sample ZRPOS []) (replicate 4096 0, 0) = Inr (z1, (arr1, n))
     \<and> next_header (waiting_sample ZFILE_WAIT (take n arr1 @ [1, 2])) = (ZM_PP_OK, y1)
     \<and> p_type (packet y1) = P_ZRPOS \<and> p_argument (packet y1) = 0x12345678 \<and> pending y1 = [1, 2]"
proof -
  let ?z = "waiting_sample ZRPOS []" and ?arr = "replicate 4096 0 :: byte list"
  obtain z1 arr1 n where b: "build_packet P_ZRPOS 0x12345678 ?z (?arr, 0) = Inr (z1, (arr1, n))"
      "n = length (header_wire P_ZRPOS 0x12345678 ?z)" "take n arr1 = header_wire P_ZRPOS 0x12345678 ?z"
    using build_packet_bytes [of ?z ?arr P_ZRPOS "0x12345678"] by (auto simp: blit_def)
  have l: "length (take n arr1 @ [1, 2]) \<le> ZMODEM_MAX_BLOCK_SIZE"
    unfolding b(3) by (simp add: header_wire_def Let_def header_in_hex_def)
  let ?y = "waiting_sample ZFILE_WAIT (take n arr1 @ [1, 2])"
  have "\<exists>y1. next_header ?y = (ZM_PP_OK, y1) \<and> p_type (packet y1) = P_ZRPOS
     \<and> p_argument (packet y1) = (if P_ZRPOS = P_ZSINIT then big_to_little_endian 0x12345678 else 0x12345678)
     \<and> pending y1 = [1, 2]
     \<and> z_state y1 = (if P_ZRPOS \<in> {P_ZSINIT, P_ZFILE, P_ZDATA, P_ZCOMMAND} then ZDATA else z_state ?y)"
    using b(1) waiting_sample_ok [OF l]
    by (intro zmodem_header_roundtrip [where z = ?z and arr = ?arr and n = n]) (simp_all add: known_types_def)
  with b(1) show ?thesis by auto
qed

end
