(* ===== verification/Zmodem_Faults.thy ===== *)
theory Zmodem_Faults
  imports Zmodem_Header
begin

text \<open>
  How \<open>zmodem.c\<close> deals with damaged headers, with the headers it did not expect and with leftovers
  in its buffer. Several of these end the program or the transfer.
\<close>

section \<open>Headers in hex that are damaged\<close>

lemma drop_input_0: "packet_buffer_n z \<le> length (packet_buffer z) \<Longrightarrow> drop_input 0 z = z"
  by (simp add: drop_input_def blit_def slice_def)

text \<open>A hex header with any two CRC bytes.\<close>

definition hex_frame :: "byte list \<Rightarrow> byte list \<Rightarrow> byte list" where
  "hex_frame h crc =
     [ZPAD, ZPAD, C_CAN, 0x42] @ hexify_string h @ hexify_string crc @ [C_CR, C_LF OR 0x80, C_XON]"

lemma parse_hex_any:
  assumes "length h = 5" "length crc = 2"
  shows "\<exists>r. parse_hex (hexify_string h @ hexify_string crc @ [C_CR, C_LF OR 0x80, C_XON] @ xs)
       = Header (with_fields False (h @ crc)) h r"
proof -
  obtain t a b c d where h: "h = [t, a, b, c, d]"
    using assms(1) by (auto simp: length_Suc_conv eval_nat_numeral)
  obtain x y where crc: "crc = [x, y]" using assms(2) by (auto simp: length_Suc_conv eval_nat_numeral)
  let ?x = "hexify_string h @ hexify_string crc @ [C_CR, C_LF OR 0x80, C_XON] @ xs"
  have 1: "take 2 ?x = hexify_string [t]" "take 8 (drop 2 ?x) = hexify_string [a, b, c, d]"
      "take 4 (drop 10 ?x) = hexify_string [x, y]" "drop 16 ?x = C_XON # xs"
    unfolding h crc by (simp_all add: hexify_string_def)
  have 2: "\<not> length ?x < 14 + 2" by (simp add: assms)
  show ?thesis
    unfolding parse_hex_def if_not_P [OF 2] 1 dehexify_hexify option.case Let_def
    by (simp add: h crc)
qed

text \<open>A wrong CRC is counted as an error, and nothing is taken off the stream.\<close>

lemma parse_damaged:
  assumes "pending y = hex_frame h crc @ xs" "length h = 5" "length crc = 2"
    "hd h \<in> set known_types" "or_down 8 crc \<noteq> compute_crc16 0 h"
  shows "\<exists>p. parse_packet y = (ZM_PP_CRCERROR, 0, z_stats_increment_errors ''CRC ERROR'' (y\<lparr>packet := p\<rparr>))"
proof -
  let ?xs = "hexify_string h @ hexify_string crc @ [C_CR, C_LF OR 0x80, C_XON] @ xs"
  have "pending y = [ZPAD, ZPAD] @ C_CAN # 0x42 # ?xs" using assms(1) by (simp add: hex_frame_def)
  note f = parse_packet_hex [OF this]
  obtain r where r: "parse_hex ?xs = Header (with_fields False (h @ crc)) h r"
    using parse_hex_any [OF assms(2,3)] by blast
  let ?p = "with_fields False (h @ crc)"
  obtain t h' where h: "h = t # h'" using assms(2) by (cases h) auto
  have d: "drop 5 (h @ crc) = crc" using assms(2) by simp
  have p: "p_type ?p = hd h" "\<not> p_use_crc32 ?p" "p_crc16 ?p = or_down 8 crc"
    using d by (simp_all add: with_fields_def Let_def h)
  have "\<exists>q. header_found ?p h 0 n z = (ZM_PP_CRCERROR, 0, z_stats_increment_errors ''CRC ERROR'' (z\<lparr>packet := q\<rparr>))"
    for n z
    using assms(4,5) p by (auto simp: header_found_def header_crc_ok_def Let_def)
  from this [of "length (pending y) - length r" "y\<lparr>packet := empty_packet\<rparr>"]
  show ?thesis using f r by auto
qed

text \<open>The receiver between two frames of a file: a first ZDATA frame has been received.\<close>

definition between_frames :: "zmodem \<Rightarrow> bool" where
  "between_frames z \<longleftrightarrow> z_state z = ZRPOS_WAIT \<and> z_prior_state z = ZRPOS_WAIT \<and> buffer_ok z"

lemma between_frames_add_input:
  assumes "between_frames z" "add_input input z = (rest, z1)"
  shows "between_frames z1" "\<exists>ys. pending z1 = pending z @ ys"
    "z_consecutive_errors z1 = z_consecutive_errors z"
proof -
  have ok: "buffer_ok z" using assms(1) by (simp add: between_frames_def)
  obtain b n where b: "z1 = z\<lparr>packet_buffer := b, packet_buffer_n := n\<rparr>"
    using add_input_pending(4) [OF ok assms(2)] by blast
  then show "between_frames z1" "z_consecutive_errors z1 = z_consecutive_errors z"
    using assms(1) add_input_pending(2) [OF ok assms(2)] by (simp_all add: between_frames_def)
  have "\<exists>k. z1 = z\<lparr>packet_buffer := blit (packet_buffer_n z) (take k input) (packet_buffer z),
                   packet_buffer_n := packet_buffer_n z + k\<rparr> \<and> k \<le> length input"
    using assms(2) by (auto simp: add_input_def Let_def)
  then obtain k where k: "z1 = z\<lparr>packet_buffer := blit (packet_buffer_n z) (take k input) (packet_buffer z),
                   packet_buffer_n := packet_buffer_n z + k\<rparr>" "k \<le> length input" by blast
  have "pending z1 = pending z @ take k input"
    using take_blit_end [of "packet_buffer_n z" "packet_buffer z" "take k input"] k ok
    by (simp add: pending_def buffer_ok_def)
  then show "\<exists>ys. pending z1 = pending z @ ys" by blast
qed

text \<open>Anything but a complete header or its beginning makes no progress there.\<close>

lemma between_frames_bad:
  assumes "between_frames y" "pending y \<noteq> []" "parse_packet y = (r, 0, y1)"
    "r = ZM_PP_CRCERROR \<or> r = ZM_PP_INVALID"
    "packet_buffer y1 = packet_buffer y" "packet_buffer_n y1 = packet_buffer_n y"
    "z_prior_state y1 = ZRPOS_WAIT"
  shows "receive_dispatch y = Inr (False, y1)"
proof -
  have n: "0 < packet_buffer_n y" using assms(2) by (auto simp: pending_def)
  have "drop_input 0 y1 = y1"
    using assms(1,5,6) by (intro drop_input_0) (simp add: between_frames_def buffer_ok_def)
  then show ?thesis
    using assms n
    by (auto simp: receive_dispatch_def between_frames_def receive_zrpos_wait_def await_header_def next_header_def)
qed

definition cancelled :: "zmodem \<Rightarrow> bool" where
  "cancelled z \<longleftrightarrow> z_state z = Z_ABORT \<and> ts_state (stats (world z)) = Q_TRANSFER_STATE_ABORT"

lemma errors_cancel:
  assumes "z_state z \<noteq> ZDATA" "15 \<le> z_consecutive_errors z + 1"
  shows "cancelled (z_stats_increment_errors m z)"
  using assms
  by (simp add: z_stats_increment_errors_def Let_def z_stats_def z_message_def cancelled_def
      z_stop_file_transfer_def stop_file_transfer_def)

lemma errors_counted:
  assumes "z_consecutive_errors z + 1 < 15"
  shows "z_consecutive_errors (z_stats_increment_errors m z) = z_consecutive_errors z + 1"
    "z_state (z_stats_increment_errors m z) = z_state z"
    "z_prior_state (z_stats_increment_errors m z) = z_prior_state z"
  using assms by (simp_all add: z_stats_increment_errors_def Let_def z_stats_def z_message_def)

lemma errors_frame [simp]:
  "packet_buffer (z_stats_increment_errors m z) = packet_buffer z"
  "packet_buffer_n (z_stats_increment_errors m z) = packet_buffer_n z"
  "z_prior_state (z_stats_increment_errors m z) = z_prior_state z"
  "packet (z_stats_increment_errors m z) = packet z"
  "z_crc_32_tab (z_stats_increment_errors m z) = z_crc_32_tab z"
  by (simp_all add: z_stats_increment_errors_def Let_def z_stats_def z_message_def
      z_stop_file_transfer_def zmodem_stop_def z_fclose_def split: option.splits)

lemma cancelled_loop:
  assumes "cancelled z"
  shows "\<exists>z1. receive_loop input z = Some (Inr z1) \<and> cancelled z1"
proof -
  obtain rest z1 where a: "add_input input z = (rest, z1)" by fastforce
  then have "cancelled z1" using assms by (auto simp: add_input_def Let_def cancelled_def)
  moreover from this have "receive_loop input z = Some (Inr z1)"
    by (subst receive_loop.simps) (simp add: a receive_dispatch_def cancelled_def)
  ultimately show ?thesis by blast
qed

lemma damaged_loop:
  assumes "length h = 5" "length crc = 2" "hd h \<in> set known_types" "or_down 8 crc \<noteq> compute_crc16 0 h"
    "between_frames z" "pending z = hex_frame h crc @ xs"
  shows "\<exists>z1. receive_loop input z = Some (Inr z1) \<and> cancelled z1"
  using assms(5,6)
proof (induction "nat (15 - z_consecutive_errors z)" arbitrary: z input xs rule: less_induct)
  case less
  obtain rest y where a: "add_input input z = (rest, y)" by fastforce
  note y = between_frames_add_input [OF less.prems(1) a]
  obtain ys where p: "pending y = hex_frame h crc @ xs @ ys" using y(2) less.prems(2) by auto
  obtain q where q: "parse_packet y = (ZM_PP_CRCERROR, 0, z_stats_increment_errors ''CRC ERROR'' (y\<lparr>packet := q\<rparr>))"
    using parse_damaged [OF p assms(1-4)] by blast
  let ?y1 = "z_stats_increment_errors ''CRC ERROR'' (y\<lparr>packet := q\<rparr>)"
  have ne: "pending y \<noteq> []" using p by (simp add: hex_frame_def)
  have "receive_dispatch y = Inr (False, ?y1)"
    using y(1) by (intro between_frames_bad [OF y(1) ne q]) (simp_all add: between_frames_def)
  then have loop: "receive_loop input z = receive_loop rest ?y1"
    by (subst receive_loop.simps) (simp add: a)
  show ?case
  proof (cases "z_consecutive_errors z + 1 < 15")
    case True
    then have e: "z_consecutive_errors (y\<lparr>packet := q\<rparr>) + 1 < 15" using y(3) by simp
    have "between_frames ?y1"
      using errors_counted(2) [OF e] y(1) by (simp add: between_frames_def buffer_ok_def)
    moreover have "pending ?y1 = hex_frame h crc @ xs @ ys" using p by (simp add: pending_def)
    moreover have "nat (15 - z_consecutive_errors ?y1) < nat (15 - z_consecutive_errors z)"
      using errors_counted(1) [OF e] y(3) True by simp
    ultimately show ?thesis unfolding loop using less.hyps by blast
  next
    case False
    then have "cancelled ?y1" using y(1,3) by (intro errors_cancel) (simp_all add: between_frames_def)
    then show ?thesis unfolding loop by (rule cancelled_loop)
  qed
qed

text \<open>
  C19. Between two frames of a file, a single damaged header cancels the download: a hex header of a
  known type whose CRC does not match stays in \<open>packet_buffer\<close>, because \<open>parse_packet\<close> then
  discards nothing and \<open>receive_zrpos_wait\<close> goes on with the same bytes; every turn of the loop
  counts another error for it, until there are fifteen.
\<close>

theorem damaged_header_cancels:
  assumes "between_frames z" "pending z = hex_frame h crc @ xs" "length h = 5" "length crc = 2"
    "hd h \<in> set known_types" "or_down 8 crc \<noteq> compute_crc16 0 h"
  shows "\<exists>z1. zmodem_receive input z = Inr z1 \<and> z_state z1 = Z_ABORT
       \<and> ts_state (stats (world z1)) = Q_TRANSFER_STATE_ABORT"
  using damaged_loop [OF assms(3-6,1,2), of input] by (auto simp: zmodem_receive_def cancelled_def)

definition between_frames_sample :: "byte list \<Rightarrow> zmodem" where
  "between_frames_sample xs = (waiting_sample ZRPOS_WAIT xs)\<lparr>z_prior_state := ZRPOS_WAIT\<rparr>"

lemma between_frames_sample_ok:
  "length xs \<le> ZMODEM_MAX_BLOCK_SIZE \<Longrightarrow> between_frames (between_frames_sample xs)"
  "length xs \<le> ZMODEM_MAX_BLOCK_SIZE \<Longrightarrow> pending (between_frames_sample xs) = xs"
  using waiting_sample_ok [of xs ZRPOS_WAIT]
  by (simp_all add: between_frames_sample_def between_frames_def buffer_ok_def pending_def)

lemma damaged_header_cancels_witness:
  "\<exists>z1. zmodem_receive [] (between_frames_sample (hex_frame [P_ZEOF, 0, 0, 0, 0] [0, 0])) = Inr z1
     \<and> z_state z1 = Z_ABORT"
proof -
  let ?x = "hex_frame [P_ZEOF, 0, 0, 0, 0] [0, 0]"
  have l: "length ?x \<le> ZMODEM_MAX_BLOCK_SIZE" by (simp add: hex_frame_def)
  have "or_down 8 [0, 0] \<noteq> compute_crc16 0 [P_ZEOF, 0, 0, 0, 0]"
    by code_simp
  then show ?thesis
    using damaged_header_cancels [of "between_frames_sample ?x" "[P_ZEOF, 0, 0, 0, 0]" "[0, 0]" "[]" "[]"]
      between_frames_sample_ok [OF l]
    by (auto simp: known_types_def)
qed

section \<open>Headers that are not hexadecimal\<close>

definition garbled_start :: "byte \<Rightarrow> byte list \<Rightarrow> byte list" where
  "garbled_start c xs = [ZPAD, ZPAD, C_CAN, 0x42] @ c # xs"

lemma parse_garbled:
  assumes "pending y = garbled_start c xs" "hex_value c = None" "15 \<le> length xs"
  shows "parse_packet y = (ZM_PP_INVALID, 0, y\<lparr>packet := empty_packet\<rparr>)"
proof -
  have "pending y = [ZPAD, ZPAD] @ C_CAN # 0x42 # c # xs" using assms(1) by (simp add: garbled_start_def)
  note f = parse_packet_hex [OF this]
  obtain d ds where "xs = d # ds" using assms(3) by (cases xs) auto
  then have "parse_hex (c # xs) = No_header ZM_PP_INVALID empty_packet"
    using assms(2,3) by (simp add: parse_hex_def)
  with f show ?thesis by simp
qed

definition stuck :: "zmodem \<Rightarrow> bool" where
  "stuck z \<longleftrightarrow> between_frames z
     \<and> (\<exists>c xs. pending z = garbled_start c xs \<and> hex_value c = None \<and> 15 \<le> length xs)"

lemma stuck_step:
  assumes "stuck z" "add_input input z = (rest, y)"
  shows "\<exists>y1. receive_dispatch y = Inr (False, y1) \<and> stuck y1"
proof -
  obtain c xs where g: "pending z = garbled_start c xs" "hex_value c = None" "15 \<le> length xs"
    using assms(1) by (auto simp: stuck_def)
  have "between_frames z" using assms(1) by (simp add: stuck_def)
  note y = between_frames_add_input [OF this assms(2)]
  obtain ys where p: "pending y = garbled_start c (xs @ ys)" using y(2) g(1) by (auto simp: garbled_start_def)
  have l: "15 \<le> length (xs @ ys)" using g(3) by simp
  have ne: "pending y \<noteq> []" using p by (simp add: garbled_start_def)
  have "receive_dispatch y = Inr (False, y\<lparr>packet := empty_packet\<rparr>)"
    using y(1) by (intro between_frames_bad [OF y(1) ne parse_garbled [OF p g(2) l]])
      (simp_all add: between_frames_def)
  moreover have "stuck (y\<lparr>packet := empty_packet\<rparr>)"
    unfolding stuck_def
    using y(1) p g(2) l
    by (intro conjI exI [of _ c] exI [of _ "xs @ ys"])
      (simp_all add: between_frames_def buffer_ok_def pending_def)
  ultimately show ?thesis by blast
qed

lemma stuck_loop: "receive_loop input z = Some r \<Longrightarrow> \<not> stuck z"
proof (induction input z r rule: receive_loop.raw_induct [rotated 1, consumes 1, case_names turn])
  case (turn loop input z r)
  show ?case
  proof
    assume s: "stuck z"
    obtain rest y where a: "add_input input z = (rest, y)" by fastforce
    obtain y1 where "receive_dispatch y = Inr (False, y1)" "stuck y1" using stuck_step [OF s a] by blast
    with turn a show False by auto
  qed
qed

text \<open>
  C20. Between two frames of a file, a single header in hex whose first digit is not hexadecimal
  hangs the receiver: such a header is invalid but nothing of it is discarded, and
  \<open>receive_zrpos_wait\<close> then neither throws the buffer away nor counts an error, so the loop of
  \<open>zmodem_receive\<close> parses the same bytes for ever, whatever else has arrived.
\<close>

theorem garbled_header_hangs:
  assumes "between_frames z" "pending z = garbled_start c xs" "hex_value c = None" "15 \<le> length xs"
  shows "zmodem_receive input z = Inl Diverges"
proof -
  have "stuck z" using assms by (auto simp: stuck_def)
  then have "receive_loop input z = None" using stuck_loop [of input z] by (cases "receive_loop input z") auto
  then show ?thesis by (simp add: zmodem_receive_def)
qed

lemma garbled_header_hangs_witness:
  "zmodem_receive [1, 2, 3] (between_frames_sample (garbled_start 0x7A (replicate 16 0x30))) = Inl Diverges"
proof -
  let ?x = "garbled_start 0x7A (replicate 16 0x30)"
  have l: "length ?x \<le> ZMODEM_MAX_BLOCK_SIZE" by (simp add: garbled_start_def)
  have "hex_value 0x7A = None" by (simp add: hex_value_def to_lower_byte_def Let_def)
  then show ?thesis
    using between_frames_sample_ok [OF l]
    by (intro garbled_header_hangs [of _ "0x7A" "replicate 16 0x30"]) simp_all
qed

end
