(* ===== verification/Zmodem_Exchange.thy ===== *)
theory Zmodem_Exchange
  imports Zmodem_Faults
begin

text \<open>
  Exchanges between a sender and a receiver that are both this program: the ZSINIT frame, the XON
  behind a ZCRCW, a ZNAK in the middle of a file, and crash recovery with ZCRC.
\<close>

section \<open>A subpacket before its XON\<close>

lemma decode_needs_xon:
  assumes "buffer_ok z" "p_data_n (packet z) = 0" "p_use_crc32 (packet z) = p_use_crc32 p"
    "p_type p \<noteq> P_ZSINIT" "pending z = subpacket_bytes flags tab p ZCRCW"
    "packet_buffer_n z < ZMODEM_MAX_BLOCK_SIZE" "packet_buffer z ! packet_buffer_n z = C_XON"
  shows "decode_zdata_bytes z = Inl Buffer_overflow"
proof -
  let ?s = "subpacket_bytes flags tab p ZCRCW" and ?d = "take (p_data_n p) (p_data p)"
  have t: "ZCRCW \<in> set crc_escapes" by (simp add: crc_escapes_def)
  have n: "packet_buffer_n z = length ?s" using length_pending [OF assms(1)] assms(5) by simp
  have scan: "has_crc_escape (pending z)"
    using scan_finds_escape [OF t, of flags ?d "escaped flags (subpacket_crc tab p ZCRCW)"] assms(5)
    by (simp add: subpacket_bytes_def del: C_CAN_def ZCRCW_def)
  have dec: "decode_loop (if p_use_crc32 (packet z) then 5 else 3) (pending z) [] None
      = Subpacket ?d (ZCRCW # subpacket_crc tab p ZCRCW) []"
    using decode_subpacket_bytes [OF t assms(4), of flags tab "[]"] assms(3,5) by (simp only: append_Nil2)
  show ?thesis
    using assms(1,2,6,7) scan n
    unfolding decode_zdata_bytes_def pending_def [symmetric] Let_def dec zdecode.case
    by (auto simp: buffer_ok_def)
qed

text \<open>
  C28. When a subpacket that ends with ZCRCW is complete but the XON behind it has not arrived yet,
  \<open>decode_zdata_bytes\<close> looks for it in the byte after the input. If an XON of an earlier
  subpacket is left over there, the count of bytes to move down wraps around, and \<open>memmove\<close> runs
  out of the buffer.
\<close>

theorem missing_xon_overflows:
  assumes "receiving f z" "block (p_use_crc32 (packet z)) p" "pending z @ [C_XON] = wire flags tab ZCRCW p"
    "packet_buffer_n z < ZMODEM_MAX_BLOCK_SIZE" "packet_buffer z ! packet_buffer_n z = C_XON"
  shows "receive_zdata z = Inl Buffer_overflow"
proof -
  have "pending z = subpacket_bytes flags tab p ZCRCW"
    using assms(3) wire_bytes [OF assms(2), of flags tab ZCRCW] by (simp add: xon_after_def)
  then show ?thesis
    using decode_needs_xon [of z p flags tab] assms(1,2,4,5)
    by (simp add: receive_zdata_def receiving_def block_def)
qed

lemma missing_xon_overflows_witness:
  "\<exists>xs. xs @ [C_XON] = wire 0 (replicate 256 0) ZCRCW (block_sample True [1, 2])
     \<and> receive_zdata ((receiving_sample True (xs @ [C_XON]))\<lparr>packet_buffer_n := length xs\<rparr>)
         = Inl Buffer_overflow"
proof -
  let ?p = "block_sample True [1, 2]" and ?t = "replicate 256 0 :: u32 list"
  let ?xs = "subpacket_bytes 0 ?t ?p ZCRCW"
  let ?z = "(receiving_sample True (?xs @ [C_XON]))\<lparr>packet_buffer_n := length ?xs\<rparr>"
  have b: "block True ?p" by (rule block_sample_ok) simp
  have w: "?xs @ [C_XON] = wire 0 ?t ZCRCW ?p" using wire_bytes [OF b] by (simp add: xon_after_def)
  have l: "length ?xs \<le> 14" using length_subpacket_bytes [of 0 ?t ?p ZCRCW] by simp
  have "receiving (open_file [7] 1) ?z" "pending ?z = ?xs" "packet_buffer ?z ! packet_buffer_n ?z = C_XON"
    using receiving_sample_ok(1) [of "?xs @ [C_XON]" True] l
    by (simp_all add: receiving_def buffer_ok_def pending_def receiving_sample_def nth_append)
  moreover have "packet_buffer_n ?z < ZMODEM_MAX_BLOCK_SIZE" "p_use_crc32 (packet ?z)"
    using l by (simp_all add: receiving_sample_def)
  ultimately have "receive_zdata ?z = Inl Buffer_overflow"
    using b w by (intro missing_xon_overflows) simp_all
  with w show ?thesis by blast
qed

section \<open>The ZSINIT frame\<close>

lemma decode_crc_short:
  "length crc + length bs < w \<Longrightarrow>
    decode_loop w (escaped flags bs @ rest) out (Some crc) = decode_loop w rest out (Some (crc @ bs))"
proof (induction bs arbitrary: crc)
  case (Cons b bs)
  then show ?case
    using decode_step [OF zescape.takes [OF TrueI, of flags b "escaped flags bs @ rest"]]
    by (simp add: crc_complete_def crc_bytes_def)
qed simp

text \<open>A subpacket with a 16-bit CRC where a 32-bit CRC is expected: one byte is missing even after
  the XON.\<close>

lemma decode_narrow:
  assumes "\<not> p_use_crc32 p \<or> p_type p = P_ZSINIT"
  shows "decode_loop 5 (subpacket_bytes flags tab p ZCRCW @ xon_after ZCRCW) [] None
       = Short (contents p) (ZCRCW # subpacket_crc tab p ZCRCW @ [C_XON])"
proof -
  let ?c = "subpacket_crc tab p ZCRCW"
  have l: "length ?c = 2" using assms by (auto simp: length_subpacket_crc)
  have t: "ZCRCW \<in> set crc_escapes" by (simp add: crc_escapes_def)
  have "decode_loop 5 (escaped flags (contents p) @ [C_CAN, ZCRCW] @ escaped flags ?c @ [C_XON]) [] None
      = decode_loop 5 (C_CAN # ZCRCW # (escaped flags ?c @ [C_XON])) (contents p) None"
    by (simp only: decode_data append_Nil append_Cons)
  also have "\<dots> = decode_loop 5 (escaped flags ?c @ [C_XON]) (contents p) (Some [ZCRCW])"
    by (rule decode_escape [OF t]) simp
  also have "\<dots> = decode_loop 5 [C_XON] (contents p) (Some ([ZCRCW] @ ?c))"
    using l by (intro decode_crc_short) simp
  also have "\<dots> = Short (contents p) (ZCRCW # ?c @ [C_XON])"
    using l by (simp add: decode_loop.simps crc_complete_def crc_bytes_def)
  finally show ?thesis by (simp only: subpacket_bytes_def xon_after_def append_assoc append_Cons append_Nil if_True refl)
qed

text \<open>As long as nothing arrives the receiver stays in ZDATA; it does not look at the clock there.\<close>

lemma zdata_short:
  assumes "z_state z = ZDATA" "buffer_ok z" "p_data_n (packet z) = 0" "pending z \<noteq> []"
    "decode_loop (if p_use_crc32 (packet z) then 5 else 3) (pending z) [] None = Short out crc"
    "length out \<le> ZMODEM_MAX_BLOCK_SIZE"
  shows "\<exists>p. receive_dispatch z = Inr (True, z\<lparr>packet := p\<rparr>)
       \<and> p_data_n p = 0 \<and> p_use_crc32 p = p_use_crc32 (packet z)"
proof -
  have n: "0 < packet_buffer_n z" using assms(4) by (auto simp: pending_def)
  have e: "z = z\<lparr>packet := packet z\<rparr>" by (rule zmodem.equality) simp_all
  have "decode_zdata_bytes z = Inr (False, z) \<or> decode_zdata_bytes z = Inr (False, z_decoded out crc z)"
    using assms(2,3,6)
    unfolding decode_zdata_bytes_def pending_def [symmetric] Let_def assms(5) zdecode.case
    by (auto simp: buffer_ok_def)
  then show ?thesis
  proof
    assume "decode_zdata_bytes z = Inr (False, z)"
    then show ?thesis using assms(1) n
      by (auto simp: receive_dispatch_def receive_zdata_def intro!: exI [of _ "(packet z)\<lparr>p_data_n := 0\<rparr>"])
  next
    assume "decode_zdata_bytes z = Inr (False, z_decoded out crc z)"
    then show ?thesis using assms(1) n by (auto simp: receive_dispatch_def receive_zdata_def z_decoded_def)
  qed
qed

lemma add_input_all:
  assumes "buffer_ok z" "length (pending z) + length input < ZMODEM_MAX_BLOCK_SIZE"
  shows "\<exists>b n. add_input input z = ([], z\<lparr>packet_buffer := b, packet_buffer_n := n\<rparr>)
       \<and> pending (z\<lparr>packet_buffer := b, packet_buffer_n := n\<rparr>) = pending z @ input
       \<and> buffer_ok (z\<lparr>packet_buffer := b, packet_buffer_n := n\<rparr>)"
proof -
  obtain rest z1 where a: "add_input input z = (rest, z1)" by fastforce
  note f = add_input_pending [OF assms(1) a]
  have "length (pending z1) + length rest = length (pending z) + length input"
    using f(1) by (metis length_append)
  then have "rest = []" using f(3) length_pending [OF f(2)] assms(2) by auto
  with a f show ?thesis by auto
qed

text \<open>A sender that wants control characters escaped, and what it puts out for ZSINIT.\<close>

definition zsinit_sender :: "zmodem \<Rightarrow> bool" where
  "zsinit_sender z \<longleftrightarrow>
     z_sending z \<and> z_use_crc32 z \<and> zescape_ctrl_option z \<and> z_flags z AND TX_ESCAPE_CTRL = 0
     \<and> encode_byte_map z = encode_map (z_flags z) \<and> out_n z = 0 \<and> 64 \<le> length (out_buffer z)
     \<and> p_data (packet z) \<noteq> []"

lemma send_zsinit_bytes:
  assumes "zsinit_sender z"
  shows "\<exists>z1 p. send_zsinit z = Inr (False, z1) \<and> p_type p = P_ZSINIT \<and> p_data_n p = 1
       \<and> take (out_n z1) (out_buffer z1)
         = header_wire P_ZSINIT TX_ESCAPE_CTRL z
             @ subpacket_bytes (z_flags z) (z_crc_32_tab z) p ZCRCW @ xon_after ZCRCW"
proof -
  let ?w = "header_wire P_ZSINIT TX_ESCAPE_CTRL z"
  have s: "encode_byte_map z = encode_map (z_flags z)" "21 \<le> length (out_buffer z)" "out_n z = 0"
    using assms by (simp_all add: zsinit_sender_def)
  let ?p = "(packet z)\<lparr>p_type := P_ZSINIT, p_data := (p_data (packet z))[0 := 0], p_data_n := 1,
               p_use_crc32 := False\<rparr>"
  let ?arr = "blit 0 ?w (out_buffer z)"
  have e: "encode_zdata_bytes (encode_map (z_flags z)) (z_crc_32_tab z) ?p ZCRCW (?arr, length ?w)
      = Inr (blit (length ?w) (subpacket_bytes (z_flags z) (z_crc_32_tab z) ?p ZCRCW @ xon_after ZCRCW) ?arr,
             length ?w + length (subpacket_bytes (z_flags z) (z_crc_32_tab z) ?p ZCRCW @ xon_after ZCRCW))"
    using assms build_packet_bytes(2) [OF s(1,2), of P_ZSINIT TX_ESCAPE_CTRL]
    by (intro encode_zdata_result) (auto simp: zsinit_sender_def Suc_le_eq)
  define b where "b = subpacket_bytes (z_flags z) (z_crc_32_tab z) ?p ZCRCW @ xon_after ZCRCW"
  have out: "take (length ?w + length b) (blit (length ?w) b ?arr) = ?w @ b"
    using build_packet_bytes(2) [OF s(1,2), of P_ZSINIT TX_ESCAPE_CTRL] s(2)
    by (subst take_blit_end) (simp_all add: blit_def)
  obtain z1 where "send_zsinit z = Inr (False, z1)" "out_n z1 = length ?w + length b"
      "out_buffer z1 = blit (length ?w) b ?arr"
    using assms e s(1) build_packet_bytes(1) [OF s(1,2), of P_ZSINIT TX_ESCAPE_CTRL]
    unfolding b_def [symmetric]
    by (auto simp: send_zsinit_def z_again_def zsinit_sender_def send_header_def send_subpacket_def
        z_message_def Let_def simp del: P_ZSINIT_def TX_ESCAPE_CTRL_def ZCRCW_def)
  with out show ?thesis unfolding b_def by (intro exI [of _ z1] exI [of _ ?p]) simp
qed

text \<open>A receiver in ZDATA whose buffer holds a subpacket with too short a CRC.\<close>

definition stalled :: "byte list \<Rightarrow> zmodem \<Rightarrow> bool" where
  "stalled xs z \<longleftrightarrow>
     z_state z = ZDATA \<and> buffer_ok z \<and> p_data_n (packet z) = 0 \<and> p_use_crc32 (packet z)
     \<and> pending z = xs \<and> xs \<noteq> [] \<and> length xs < ZMODEM_MAX_BLOCK_SIZE
     \<and> (\<exists>out crc. decode_loop 5 xs [] None = Short out crc \<and> length out \<le> ZMODEM_MAX_BLOCK_SIZE)"

lemma stalled_loop:
  assumes "stalled xs z"
  shows "\<exists>z1. receive_loop [] z = Some (Inr z1) \<and> stalled xs z1
       \<and> out_n z1 = out_n z \<and> z_flags z1 = z_flags z"
proof -
  have "buffer_ok z" "length (pending z) + length ([] :: byte list) < ZMODEM_MAX_BLOCK_SIZE"
    using assms by (simp_all add: stalled_def)
  from add_input_all [OF this] obtain b n where
    a: "add_input [] z = ([], z\<lparr>packet_buffer := b, packet_buffer_n := n\<rparr>)"
      "pending (z\<lparr>packet_buffer := b, packet_buffer_n := n\<rparr>) = pending z"
      "buffer_ok (z\<lparr>packet_buffer := b, packet_buffer_n := n\<rparr>)" by auto
  let ?y = "z\<lparr>packet_buffer := b, packet_buffer_n := n\<rparr>"
  have y: "stalled xs ?y" using assms a(2,3) by (simp add: stalled_def)
  then obtain out crc where d: "decode_loop 5 xs [] None = Short out crc" "length out \<le> ZMODEM_MAX_BLOCK_SIZE"
    by (auto simp: stalled_def)
  obtain p where p: "receive_dispatch ?y = Inr (True, ?y\<lparr>packet := p\<rparr>)" "p_data_n p = 0" "p_use_crc32 p"
    using zdata_short [of ?y out crc] y d by (auto simp: stalled_def)
  have "receive_loop [] z = Some (Inr (?y\<lparr>packet := p\<rparr>))"
    by (subst receive_loop.simps) (simp add: a(1) p(1))
  moreover have "stalled xs (?y\<lparr>packet := p\<rparr>)"
    using y p(2,3) by (simp add: stalled_def buffer_ok_def pending_def)
  ultimately show ?thesis by auto
qed

text \<open>Calls without input, at the times \<open>ts\<close>.\<close>

fun idle_calls :: "int list \<Rightarrow> zmodem \<Rightarrow> fault + zmodem" where
  "idle_calls [] z = Inr z"
| "idle_calls (t # ts) z =
     bind_res (zmodem_receive [] (z\<lparr>world := (world z)\<lparr>now := t\<rparr>\<rparr>)) (idle_calls ts)"

lemma stalled_calls:
  "stalled xs z \<Longrightarrow> \<exists>z1. idle_calls ts z = Inr z1 \<and> stalled xs z1 \<and> out_n z1 = out_n z"
proof (induction ts arbitrary: z)
  case (Cons t ts)
  have "stalled xs (z\<lparr>world := (world z)\<lparr>now := t\<rparr>\<rparr>)"
    using Cons.prems by (simp add: stalled_def buffer_ok_def pending_def)
  from stalled_loop [OF this] obtain z1 where
    "zmodem_receive [] (z\<lparr>world := (world z)\<lparr>now := t\<rparr>\<rparr>) = Inr z1" "stalled xs z1" "out_n z1 = out_n z"
    by (auto simp: zmodem_receive_def)
  with Cons.IH [of z1] show ?case by simp
qed simp

lemma zsinit_arrives:
  assumes "z_state y = ZRINIT_WAIT" "buffer_ok y" "zsinit_sender z" "z_crc_32_tab y = z_crc_32_tab z"
    "pending y = header_wire P_ZSINIT TX_ESCAPE_CTRL z @ xs"
  shows "\<exists>y1. receive_dispatch y = Inr (False, y1) \<and> z_state y1 = ZDATA \<and> buffer_ok y1
       \<and> p_data_n (packet y1) = 0 \<and> p_use_crc32 (packet y1) \<and> pending y1 = xs
       \<and> out_n y1 = out_n y \<and> z_flags y1 = z_flags y"
proof -
  have k: "P_ZSINIT \<in> set known_types" by (simp add: known_types_def)
  have b: "\<not> header_in_hex P_ZSINIT z \<and> z_use_crc32 z"
    using assms(3) by (simp add: header_in_hex_def zsinit_sender_def)
  obtain q where q: "next_header y = (ZM_PP_OK, with_parsed P_ZSINIT q (drop_input (length (header_wire P_ZSINIT TX_ESCAPE_CTRL z)) y))"
      "parsed P_ZSINIT TX_ESCAPE_CTRL True q"
      "pending (drop_input (length (header_wire P_ZSINIT TX_ESCAPE_CTRL z)) y) = xs"
      "buffer_ok (drop_input (length (header_wire P_ZSINIT TX_ESCAPE_CTRL z)) y)"
    using next_header_wire [OF k assms(5,2)] assms(4) b by auto
  have "pending y \<noteq> []" using assms(5) by (simp add: header_wire_def Let_def hex_header_def)
  then have n: "0 < packet_buffer_n y" by (auto simp: pending_def)
  have arg: "p_argument q AND TX_ESCAPE_CTRL = 0" "p_argument q AND TX_ESCAPE_8BIT = 0" "p_type q = P_ZSINIT"
    using q(2) by (simp_all add: parsed_def received_argument_def big_to_little_endian_def)
  show ?thesis
    using assms(1) q n arg
    by (auto simp: receive_dispatch_def receive_zrinit_wait_def await_header_def with_parsed_def types_with_data_def
        zsinit_options_def switch_to_zdata_def fresh_crc_def setup_encode_byte_map_def z_message_def Let_def
        parsed_def buffer_ok_def pending_def)
qed

text \<open>
  C26. The ZSINIT frame this program sends is not understood by this program. Its header arrives
  with the argument reversed, so the receiver does not see that control characters are to be
  escaped; and its data has a 16-bit CRC behind a header that announces 32 bits, so the receiver
  waits for more: however many calls follow without input, and whatever the clock says then, it
  stays in ZDATA and writes nothing, so it neither answers nor gives up.
\<close>

theorem zsinit_frame_stalls:
  assumes "zsinit_sender z" "z_state y = ZRINIT_WAIT" "buffer_ok y" "pending y = []"
    "z_crc_32_tab y = z_crc_32_tab z"
  shows "\<exists>z1 y1. send_zsinit z = Inr (False, z1)
     \<and> zmodem_receive (take (out_n z1) (out_buffer z1)) y = Inr y1
     \<and> z_state y1 = ZDATA \<and> z_flags y1 = z_flags y \<and> out_n y1 = out_n y
     \<and> (\<forall>ts. \<exists>y2. idle_calls ts y1 = Inr y2 \<and> z_state y2 = ZDATA \<and> out_n y2 = out_n y)"
proof -
  obtain z1 p where z1: "send_zsinit z = Inr (False, z1)" "p_type p = P_ZSINIT" "p_data_n p = 1"
      "take (out_n z1) (out_buffer z1) = header_wire P_ZSINIT TX_ESCAPE_CTRL z
         @ subpacket_bytes (z_flags z) (z_crc_32_tab z) p ZCRCW @ xon_after ZCRCW"
    using send_zsinit_bytes [OF assms(1)] by blast
  let ?w = "header_wire P_ZSINIT TX_ESCAPE_CTRL z"
  let ?s = "subpacket_bytes (z_flags z) (z_crc_32_tab z) p ZCRCW @ xon_after ZCRCW"
  have "length ?w \<le> 21"
    using assms(1) by (intro build_packet_bytes(2) [of _ "replicate 21 0"]) (simp_all add: zsinit_sender_def)
  moreover have s: "length ?s \<le> 13"
    using length_subpacket_bytes [of "z_flags z" "z_crc_32_tab z" p ZCRCW] z1(3) by (simp add: xon_after_def)
  ultimately have "length (pending y) + length (?w @ ?s) < ZMODEM_MAX_BLOCK_SIZE" using assms(4) by simp
  from add_input_all [OF assms(3) this] obtain b n where
    a: "add_input (?w @ ?s) y = ([], y\<lparr>packet_buffer := b, packet_buffer_n := n\<rparr>)"
      "pending (y\<lparr>packet_buffer := b, packet_buffer_n := n\<rparr>) = ?w @ ?s"
      "buffer_ok (y\<lparr>packet_buffer := b, packet_buffer_n := n\<rparr>)" using assms(4) by auto
  let ?y = "y\<lparr>packet_buffer := b, packet_buffer_n := n\<rparr>"
  obtain y1 where y1: "receive_dispatch ?y = Inr (False, y1)" "z_state y1 = ZDATA" "buffer_ok y1"
      "p_data_n (packet y1) = 0" "p_use_crc32 (packet y1)" "pending y1 = ?s"
      "out_n y1 = out_n y" "z_flags y1 = z_flags y"
    using zsinit_arrives [of ?y z ?s] assms(1,2,5) a(2,3) by auto
  have "length (contents p) \<le> ZMODEM_MAX_BLOCK_SIZE" using z1(3) by simp
  then have st: "stalled ?s y1"
    using y1 s decode_narrow [of p "z_flags z" "z_crc_32_tab z"] z1(2)
    by (simp add: stalled_def xon_after_def)
  obtain y2 where y2: "receive_loop [] y1 = Some (Inr y2)" "stalled ?s y2" "out_n y2 = out_n y" "z_flags y2 = z_flags y"
    using stalled_loop [OF st] y1(7,8) by auto
  have "receive_loop (?w @ ?s) y = receive_loop [] y1"
    by (subst receive_loop.simps) (simp only: a(1) Let_def prod.case y1(1) sum.case if_False)
  then have r: "zmodem_receive (?w @ ?s) y = Inr y2" using y2(1) by (simp add: zmodem_receive_def)
  have "\<exists>y3. idle_calls ts y2 = Inr y3 \<and> z_state y3 = ZDATA \<and> out_n y3 = out_n y" for ts
    using stalled_calls [OF y2(2), of ts] y2(3) by (auto simp: stalled_def)
  with z1(1,4) r y2 show ?thesis
    by (intro exI [of _ z1] exI [of _ y2]) (simp add: stalled_def)
qed

definition sender_sample :: "zstate \<Rightarrow> zmodem" where
  "sender_sample st = (waiting_sample st [])\<lparr>z_sending := True, zescape_ctrl_option := True\<rparr>"

lemma sender_sample_fields [simp]:
  "z_state (sender_sample st) = st" "z_sending (sender_sample st)" "z_use_crc32 (sender_sample st)"
  "zescape_ctrl_option (sender_sample st)" "z_flags (sender_sample st) = 0" "out_n (sender_sample st) = 0"
  "encode_byte_map (sender_sample st) = encode_map 0" "length (out_buffer (sender_sample st)) = 4096"
  "z_crc_32_tab (sender_sample st) = replicate 256 0" "can_count (sender_sample st) = 0"
  "outbound_packet_n (sender_sample st) = 0" "outbound_packet (sender_sample st) = replicate 2058 0"
  "p_data (packet (sender_sample st)) = replicate 2058 0" "world (sender_sample st) = idle (disk_with [] [])"
  by (simp_all add: sender_sample_def waiting_sample_def zmodem_initial_def empty_packet_def)

lemma zsinit_frame_stalls_witness:
  "\<exists>z1 y1. send_zsinit (sender_sample ZSINIT) = Inr (False, z1)
     \<and> zmodem_receive (take (out_n z1) (out_buffer z1)) (waiting_sample ZRINIT_WAIT []) = Inr y1
     \<and> z_state y1 = ZDATA"
proof -
  have "p_data (packet (sender_sample ZSINIT)) \<noteq> []" by (simp only: sender_sample_fields) simp
  then have z: "zsinit_sender (sender_sample ZSINIT)" by (simp add: zsinit_sender_def)
  have l: "length ([] :: byte list) \<le> ZMODEM_MAX_BLOCK_SIZE" by simp
  show ?thesis
    using zsinit_frame_stalls [OF z, of "waiting_sample ZRINIT_WAIT []"] waiting_sample_ok [OF l] by auto
qed

section \<open>A ZNAK in the middle of a file\<close>

lemma scan_word:
  assumes "can_count z = 0"
  shows "fold scan_can (encoded (encode_map fl) b) z = z"
proof -
  have one: "scan_can c z = z" if "c \<noteq> C_CAN" for c
    using that assms by (simp add: scan_can_def Let_def)
  have two: "scan_can c (scan_can C_CAN z) = z" if "c \<noteq> C_CAN" for c
    using that assms by (simp add: scan_can_def Let_def)
  have "take_escaped (encoded (encode_map fl) b @ []) = Some (b, [])" by (rule zescape.takes) simp
  then show ?thesis
  proof (cases rule: take_escaped_cases)
    case (2 d)
    then have "d \<noteq> C_CAN" by (auto simp: unescape_def)
    with 2 two show ?thesis by (simp del: C_CAN_def)
  qed (use one in \<open>simp del: C_CAN_def\<close>)
qed

lemma scan_escaped: "can_count z = 0 \<Longrightarrow> fold scan_can (escaped fl bs) z = z"
  by (induction bs) (simp_all add: scan_word)

lemma scan_one: "can_count z = 0 \<Longrightarrow> c \<noteq> C_CAN \<Longrightarrow> scan_can c z = z"
  by (simp add: scan_can_def Let_def)

lemma scan_two: "can_count z = 0 \<Longrightarrow> c \<noteq> C_CAN \<Longrightarrow> scan_can c (scan_can C_CAN z) = z"
  by (simp add: scan_can_def Let_def)

lemma scan_plain:
  "can_count z = 0 \<Longrightarrow> C_CAN \<notin> set xs \<Longrightarrow> fold scan_can xs z = z"
  by (induction xs) (auto simp: scan_one simp del: C_CAN_def)

lemma hex_digits_plain: "C_CAN \<notin> set (hexify_string bs)"
proof -
  have "C_CAN \<noteq> hex_digit d" if "d < 16" for d
  proof
    assume "C_CAN = hex_digit d"
    then have "hex_value (hex_digit d) = None"
      by (simp add: hex_value_def to_lower_byte_def Let_def flip: \<open>C_CAN = hex_digit d\<close>)
    with hex_digit_value [OF that] show False by simp
  qed
  then show ?thesis by (auto simp: hexify_string_def nibbles simp del: C_CAN_def drop_bit_and)
qed

lemma scan_header:
  assumes "can_count z = 0"
  shows "fold scan_can (header_wire typ arg r) z = z"
proof -
  have w: "scan_can ZPAD z = z" "scan_can 0x42 (scan_can C_CAN z) = z" "scan_can 0x43 (scan_can C_CAN z) = z"
      "scan_can 0x41 (scan_can C_CAN z) = z" "scan_can C_CR z = z" "scan_can (C_LF OR 0x80) z = z"
      "scan_can C_XON z = z"
    by (rule scan_one [OF assms] scan_two [OF assms]; simp)+
  show ?thesis
    using w scan_escaped [OF assms] scan_plain [OF assms hex_digits_plain]
    by (auto simp: header_wire_def Let_def hex_header_def
        simp del: C_CAN_def ZPAD_def C_XON_def C_CR_def C_LF_def map_append concat_append)
qed

text \<open>A sender that has sent the window and waits for the ZACK.\<close>

definition awaiting_ack :: "zmodem \<Rightarrow> bool" where
  "awaiting_ack z \<longleftrightarrow>
     z_sending z \<and> z_state z = ZDATA \<and> z_waiting_for_ack z \<and> buffer_ok z \<and> pending z = []
     \<and> outbound_packet_n z = 0 \<and> can_count z = 0 \<and> ZMODEM_MAX_BLOCK_SIZE < length (out_buffer z)"

lemma znak_arrives:
  assumes "awaiting_ack z" "z_crc_32_tab z = z_crc_32_tab r" "length (header_wire P_ZNAK 0 r) \<le> 21"
  shows "\<exists>z1. send_loop (header_wire P_ZNAK 0 r) z = Some (Inr z1)
     \<and> awaiting_ack (z1\<lparr>z_state := ZDATA\<rparr>) \<and> z_state z1 = ZRPOS"
proof -
  let ?w = "header_wire P_ZNAK 0 r"
  have ok: "buffer_ok z" "length (pending z) + length ?w < ZMODEM_MAX_BLOCK_SIZE"
    using assms(1,3) by (simp_all add: awaiting_ack_def)
  from add_input_all [OF this] obtain b n where
    a: "add_input ?w z = ([], z\<lparr>packet_buffer := b, packet_buffer_n := n\<rparr>)"
      "pending (z\<lparr>packet_buffer := b, packet_buffer_n := n\<rparr>) = ?w @ []"
      "buffer_ok (z\<lparr>packet_buffer := b, packet_buffer_n := n\<rparr>)"
    using assms(1) by (auto simp: awaiting_ack_def)
  let ?y = "z\<lparr>packet_buffer := b, packet_buffer_n := n\<rparr>"
  have scan: "scan_cans ?y = ?y"
    using scan_header [of ?y P_ZNAK 0 r] a(2) assms(1)
    by (simp add: scan_cans_def pending_def awaiting_ack_def)
  have k: "P_ZNAK \<in> set known_types" by (simp add: known_types_def)
  obtain q where q: "next_header ?y = (ZM_PP_OK, with_parsed P_ZNAK q (drop_input (length ?w) ?y))"
      "p_type q = P_ZNAK" "pending (drop_input (length ?w) ?y) = []" "buffer_ok (drop_input (length ?w) ?y)"
    using next_header_wire [OF k a(2,3)] assms(2) by (auto simp: parsed_def)
  have "?w \<noteq> []" by (simp add: header_wire_def Let_def hex_header_def)
  then have n: "0 < packet_buffer_n ?y" using a(2) by (cases n) (simp_all add: pending_def)
  let ?y1 = "drop_input (length ?w) ?y\<lparr>packet := q\<rparr>"
  let ?z1 = "(z_stats_increment_errors ''ZNAK'' ?y1)\<lparr>z_state := ZRPOS\<rparr>"
  have wp: "with_parsed P_ZNAK q (drop_input (length ?w) ?y) = ?y1"
    by (simp add: with_parsed_def types_with_data_def)
  have "zdata_input ?y = Inr (Next (False, ?z1))"
    using n q(1) [unfolded wp] q(2) by (simp add: zdata_input_def)
  moreover have "zdata_output ?z1 = Inr (True, ?z1)"
    using assms(1)
    by (simp add: zdata_output_def awaiting_ack_def z_stats_increment_errors_def z_stats_def z_message_def
        drop_input_def Let_def)
  ultimately have "send_zdata ?y = Inr (True, ?z1)" by (simp add: send_zdata_def)
  then have "send_dispatch ?y = Inr (True, ?z1)" using assms(1) by (simp add: send_dispatch_def awaiting_ack_def)
  then have "send_loop ?w z = Some (Inr ?z1)"
    by (subst send_loop.simps) (simp only: a(1) scan Let_def prod.case sum.case if_True)
  moreover have "awaiting_ack (?z1\<lparr>z_state := ZDATA\<rparr>)"
    using assms(1) q(3,4)
    by (simp add: awaiting_ack_def z_stats_increment_errors_def z_stats_def z_message_def
        drop_input_def Let_def buffer_ok_def pending_def)
  ultimately show ?thesis by auto
qed

text \<open>
  C27. A ZNAK that arrives while the sender waits for the ZACK of its data ends the program:
  \<open>send_zdata\<close> answers it by switching to ZRPOS, which is a state of the receiver, and on the next
  call \<open>zmodem_send\<close> runs into its \<open>abort()\<close>. The receiver of this program sends a ZNAK just
  then, when the first ZDATA header is garbled.
\<close>

theorem znak_aborts_sender:
  assumes "awaiting_ack z" "z_crc_32_tab z = z_crc_32_tab r" "length (header_wire P_ZNAK 0 r) \<le> 21"
  shows "\<exists>z1. zmodem_process (header_wire P_ZNAK 0 r) z = Inr z1
     \<and> zmodem_process [] z1 = Inl Abort_called"
proof -
  let ?w = "header_wire P_ZNAK 0 r"
  have w: "?w \<noteq> []" by (simp add: header_wire_def Let_def hex_header_def)
  have "awaiting_ack (z_reset_timer z)" "z_crc_32_tab (z_reset_timer z) = z_crc_32_tab r"
    using assms(1,2) by (simp_all add: awaiting_ack_def z_reset_timer_def buffer_ok_def pending_def)
  from znak_arrives [OF this assms(3)] obtain z1 where
    z1: "send_loop ?w (z_reset_timer z) = Some (Inr z1)" "awaiting_ack (z1\<lparr>z_state := ZDATA\<rparr>)" "z_state z1 = ZRPOS"
    by blast
  let ?z2 = "if 0 < out_n z1 then z_reset_timer z1 else z1"
  have "zmodem_process ?w z = Inr ?z2"
    using assms(1) w z1(1)
    by (simp add: zmodem_process_def awaiting_ack_def zmodem_send_def z_reset_timer_def)
  moreover have z2: "awaiting_ack (?z2\<lparr>z_state := ZDATA\<rparr>)" "z_state ?z2 = ZRPOS"
    using z1(2,3) by (auto simp: awaiting_ack_def z_reset_timer_def buffer_ok_def pending_def)
  moreover have "zmodem_process [] y = Inl Abort_called"
    if y: "awaiting_ack (y\<lparr>z_state := ZDATA\<rparr>)" "z_state y = ZRPOS" for y
  proof -
    have ok: "buffer_ok y" "pending y = []" using y(1) by (simp_all add: awaiting_ack_def buffer_ok_def pending_def)
    have "length (pending y) + length ([] :: byte list) < ZMODEM_MAX_BLOCK_SIZE" using ok(2) by simp
    from add_input_all [OF ok(1) this] obtain b n where
      a: "add_input [] y = ([], y\<lparr>packet_buffer := b, packet_buffer_n := n\<rparr>)"
        "pending (y\<lparr>packet_buffer := b, packet_buffer_n := n\<rparr>) = []" using ok(2) by auto
    then have "scan_cans (y\<lparr>packet_buffer := b, packet_buffer_n := n\<rparr>) = y\<lparr>packet_buffer := b, packet_buffer_n := n\<rparr>"
      by (auto simp: scan_cans_def pending_def)
    then have "send_loop [] y = Some (Inl Abort_called)"
      using y by (subst send_loop.simps) (simp add: a(1) send_dispatch_def awaiting_ack_def)
    then show ?thesis using y by (simp add: zmodem_process_def zmodem_send_def awaiting_ack_def)
  qed
  ultimately show ?thesis by blast
qed

lemma znak_aborts_sender_witness:
  "\<exists>z1. zmodem_process (header_wire P_ZNAK 0 (waiting_sample ZRPOS_WAIT []))
          ((sender_sample ZDATA)\<lparr>z_waiting_for_ack := True\<rparr>) = Inr z1
     \<and> zmodem_process [] z1 = Inl Abort_called"
proof (rule znak_aborts_sender)
  have l: "length ([] :: byte list) \<le> ZMODEM_MAX_BLOCK_SIZE" by simp
  show "awaiting_ack ((sender_sample ZDATA)\<lparr>z_waiting_for_ack := True\<rparr>)"
    using waiting_sample_ok [OF l, of ZDATA]
    by (simp add: awaiting_ack_def buffer_ok_def pending_def)
       (simp add: sender_sample_def)
  show "length (header_wire P_ZNAK 0 (waiting_sample ZRPOS_WAIT [])) \<le> 21"
    by (intro build_packet_bytes(2) [of _ "replicate 21 0"]) simp_all
qed simp

end
