(* ===== verification/Zmodem_Recovery.thy ===== *)
theory Zmodem_Recovery
  imports Zmodem_Exchange Xmodem_Strip
begin

text \<open>
  Crash recovery: the receiver that finds the file on its disk asks the sender for the CRC of as
  many bytes as it has, and goes on behind them when it is the CRC of its own bytes.
\<close>

section \<open>The CRC of a file\<close>

definition crc_turn :: "u32 list \<Rightarrow> u32 \<Rightarrow> byte \<Rightarrow> u32" where
  "crc_turn tab c b = drop_bit 8 c XOR tab ! unat ((c XOR ucast b) AND 0xFF)"

lemma crc_turn_fold:
  "NOT (compute_crc32 tab c bs) = foldl (crc_turn tab) c bs"
  by (simp add: compute_crc32_def invert crc_turn_def [abs_def])

lemma fread_one:
  "\<not> f_bad f \<Longrightarrow> \<not> f_eof f \<Longrightarrow> f_pos f < length (f_data f) \<Longrightarrow>
    fread 1 f = ([f_data f ! f_pos f], f\<lparr>f_pos := f_pos f + 1\<rparr>)"
  by (subst fread_more) (simp_all add: slice_def take_Suc_conv_app_nth Cons_nth_drop_Suc [symmetric])

lemma fread_end:
  "\<not> f_bad f \<Longrightarrow> f_pos f = length (f_data f) \<Longrightarrow> fread 1 f = ([], f\<lparr>f_eof := True\<rparr>)"
  by (subst fread_last) simp_all

text \<open>From the start: to the end of the file, or as many bytes as were asked for.\<close>

lemma crc_file_loop_end:
  assumes "\<not> f_bad f" "\<not> f_eof f" "f_pos f \<le> length (f_data f)" "length (f_data f) < 2 ^ 31"
    "cnt = int (f_pos f)"
  shows "crc_file_loop tab (\<lambda>_. True) f crc cnt
       = Inr (f\<lparr>f_pos := length (f_data f), f_eof := True\<rparr>,
              foldl (crc_turn tab) crc (drop (f_pos f) (f_data f)), int (length (f_data f)))"
  using assms
proof (induction "length (f_data f) - f_pos f" arbitrary: f crc cnt)
  case 0
  then have "fread 1 f = ([], f\<lparr>f_eof := True\<rparr>)" by (intro fread_end) simp_all
  with 0 show ?case
    by (subst crc_file_loop.simps) (simp add: crc_file_loop.simps crc_turn_fold c_int_id)
next
  case (Suc k)
  then have p: "f_pos f < length (f_data f)" by simp
  then have r: "fread 1 f = ([f_data f ! f_pos f], f\<lparr>f_pos := f_pos f + 1\<rparr>)"
    using Suc.prems(1,2) by (intro fread_one)
  have c: "c_int (cnt + 1) = int (f_pos f + 1)" using Suc.prems(4,5) p by (simp add: c_int_id)
  have "crc_file_loop tab (\<lambda>_. True) f crc cnt
      = crc_file_loop tab (\<lambda>_. True) (f\<lparr>f_pos := f_pos f + 1\<rparr>) (crc_turn tab crc (f_data f ! f_pos f))
          (int (f_pos f + 1))"
    using Suc.prems(1,2) r c by (subst crc_file_loop.simps) (simp add: crc_turn_fold)
  also have "\<dots> = Inr (f\<lparr>f_pos := length (f_data f), f_eof := True\<rparr>,
      foldl (crc_turn tab) (crc_turn tab crc (f_data f ! f_pos f)) (drop (f_pos f + 1) (f_data f)),
      int (length (f_data f)))"
    using Suc.hyps(1) [of "f\<lparr>f_pos := f_pos f + 1\<rparr>"] Suc.hyps(2) Suc.prems p by simp
  also have "foldl (crc_turn tab) (crc_turn tab crc (f_data f ! f_pos f)) (drop (f_pos f + 1) (f_data f))
      = foldl (crc_turn tab) crc (drop (f_pos f) (f_data f))"
    using p by (simp add: Cons_nth_drop_Suc [symmetric])
  finally show ?case .
qed

lemma crc_file_loop_limit:
  assumes "\<not> f_bad f" "\<not> f_eof f" "n \<le> length (f_data f)" "n < 2 ^ 31" "f_pos f \<le> n" "cnt = int (f_pos f)"
  shows "crc_file_loop tab (\<lambda>i. word_of_int i < (of_nat n :: u32)) f crc cnt
       = Inr (f\<lparr>f_pos := n\<rparr>, foldl (crc_turn tab) crc (slice (f_pos f) (n - f_pos f) (f_data f)), int n)"
  using assms(1-3,5,6)
proof (induction "n - f_pos f" arbitrary: f crc cnt)
  case 0
  then show ?case by (subst crc_file_loop.simps) (simp add: slice_def)
next
  case (Suc k)
  then have p: "f_pos f < n" "f_pos f < length (f_data f)" by simp_all
  have w: "word_of_int cnt < (of_nat n :: u32)"
    using p(1) assms(4) Suc.prems(5) by (simp add: word_less_nat_alt unat_of_nat)
  have r: "fread 1 f = ([f_data f ! f_pos f], f\<lparr>f_pos := f_pos f + 1\<rparr>)"
    using Suc.prems(1,2) p(2) by (intro fread_one)
  have c: "c_int (cnt + 1) = int (f_pos f + 1)" using Suc.prems(5) assms(4) p(1) by (simp add: c_int_id)
  have "crc_file_loop tab (\<lambda>i. word_of_int i < (of_nat n :: u32)) f crc cnt
      = crc_file_loop tab (\<lambda>i. word_of_int i < (of_nat n :: u32)) (f\<lparr>f_pos := f_pos f + 1\<rparr>)
          (crc_turn tab crc (f_data f ! f_pos f)) (int (f_pos f + 1))"
    using Suc.prems(1,2) r c w by (subst crc_file_loop.simps) (simp add: crc_turn_fold)
  also have "\<dots> = Inr (f\<lparr>f_pos := n\<rparr>,
      foldl (crc_turn tab) (crc_turn tab crc (f_data f ! f_pos f)) (slice (f_pos f + 1) (n - (f_pos f + 1)) (f_data f)),
      int n)"
    using Suc.hyps(1) [of "f\<lparr>f_pos := f_pos f + 1\<rparr>"] Suc.hyps(2) Suc.prems p by simp
  also have "f_data f ! f_pos f # slice (f_pos f + 1) (n - (f_pos f + 1)) (f_data f)
      = slice (f_pos f) (n - f_pos f) (f_data f)"
    using p by (simp add: slice_def Cons_nth_drop_Suc [symmetric] take_Cons')
  then have "foldl (crc_turn tab) (crc_turn tab crc (f_data f ! f_pos f))
        (slice (f_pos f + 1) (n - (f_pos f + 1)) (f_data f))
      = foldl (crc_turn tab) crc (slice (f_pos f) (n - f_pos f) (f_data f))"
    by (metis foldl_Cons)
  finally show ?case .
qed

section \<open>Headers sent and received\<close>

definition header_ready :: "zmodem \<Rightarrow> bool" where
  "header_ready z \<longleftrightarrow>
     encode_byte_map z = encode_map (z_flags z) \<and> out_n z = 0 \<and> 21 \<le> length (out_buffer z)"

definition sent :: "zmodem \<Rightarrow> byte list" where
  "sent z = take (out_n z) (out_buffer z)"

lemma header_wire_cong:
  "z_flags a = z_flags b \<Longrightarrow> z_sending a = z_sending b \<Longrightarrow> z_use_crc32 a = z_use_crc32 b \<Longrightarrow>
    z_crc_32_tab a = z_crc_32_tab b \<Longrightarrow> header_wire typ arg a = header_wire typ arg b"
  unfolding header_wire_def header_escapes_def header_in_hex_def Let_def by presburger

lemma send_header_bytes:
  assumes "header_ready z"
  shows "\<exists>p b n. send_header typ arg z = Inr (z\<lparr>packet := p, out_buffer := b, out_n := n\<rparr>)
       \<and> sent (z\<lparr>packet := p, out_buffer := b, out_n := n\<rparr>) = header_wire typ arg z
       \<and> length (header_wire typ arg z) \<le> 21"
proof -
  have e: "encode_byte_map z = encode_map (z_flags z)" "21 \<le> length (out_buffer z)" and n: "out_n z = 0"
    using assms by (simp_all add: header_ready_def)
  note b = build_packet_bytes [OF e, of "typ" arg]
  show ?thesis
    by (rule exI, rule exI [of _ "blit 0 (header_wire typ arg z) (out_buffer z)"],
        rule exI [of _ "length (header_wire typ arg z)"])
      (use b in \<open>simp add: send_header_def n sent_def blit_def\<close>)
qed

lemma header_arrives:
  assumes "typ \<in> set known_types" "typ \<notin> set types_with_data" "buffer_ok y" "pending y = []"
    "z_crc_32_tab y = z_crc_32_tab z" "length (header_wire typ arg z) \<le> 21"
  shows "\<exists>b n q. 0 < packet_buffer_n (snd (add_input (header_wire typ arg z) y))
       \<and> next_header (snd (add_input (header_wire typ arg z) y))
           = (ZM_PP_OK, y\<lparr>packet_buffer := b, packet_buffer_n := n, packet := q\<rparr>)
       \<and> p_type q = typ \<and> p_argument q = received_argument typ arg"
proof -
  let ?w = "header_wire typ arg z"
  have "length (pending y) + length ?w < ZMODEM_MAX_BLOCK_SIZE" using assms(4,6) by simp
  from add_input_all [OF assms(3) this] obtain b n where
    a: "add_input ?w y = ([], y\<lparr>packet_buffer := b, packet_buffer_n := n\<rparr>)"
      "pending (y\<lparr>packet_buffer := b, packet_buffer_n := n\<rparr>) = ?w @ []"
      "buffer_ok (y\<lparr>packet_buffer := b, packet_buffer_n := n\<rparr>)"
    using assms(4) by auto
  let ?y = "y\<lparr>packet_buffer := b, packet_buffer_n := n\<rparr>"
  obtain q where q: "next_header ?y = (ZM_PP_OK, with_parsed typ q (drop_input (length ?w) ?y))"
      "parsed typ arg (\<not> header_in_hex typ z \<and> z_use_crc32 z) q"
    using next_header_wire [OF assms(1) a(2,3)] assms(5) by auto
  have "?w \<noteq> []" by (simp add: header_wire_def Let_def hex_header_def)
  then have "0 < packet_buffer_n ?y" using a(2) by (cases n) (simp_all add: pending_def)
  moreover have "\<exists>b n. with_parsed typ q (drop_input (length ?w) ?y)
      = y\<lparr>packet_buffer := b, packet_buffer_n := n, packet := q\<rparr>"
    using assms(2) by (auto simp: with_parsed_def drop_input_def Let_def)
  ultimately show ?thesis using q a(1) by (auto simp: parsed_def)
qed

section \<open>The agreement on a CRC\<close>

abbreviation file_crc :: "u32 list \<Rightarrow> byte list \<Rightarrow> u32" where
  "file_crc tab bs \<equiv> compute_crc32 tab crc32_preset bs"

lemma receive_zcrc_result:
  assumes "header_ready y" "z_file_stream y = Some f" "\<not> f_bad f" "length (f_data f) < 2 ^ 31"
  shows "\<exists>y1 f1. receive_zcrc y = Inr (False, y1)
     \<and> sent y1 = header_wire P_ZCRC (of_nat (length (f_data f))) y
     \<and> length (header_wire P_ZCRC (of_nat (length (f_data f))) y) \<le> 21
     \<and> y1 = y\<lparr>z_file_stream := Some f1, z_file_crc32 := file_crc (z_crc_32_tab y) (f_data f),
              packet := packet y1, out_buffer := out_buffer y1, out_n := out_n y1,
              z_state := ZCRC_WAIT, packet_buffer_n := 0\<rparr>
     \<and> f_data f1 = f_data f"
proof -
  let ?c = "foldl (crc_turn (z_crc_32_tab y)) crc32_preset (f_data f)"
  let ?f = "f\<lparr>f_pos := length (f_data f), f_eof := True\<rparr>"
  have l: "crc_file_loop (z_crc_32_tab y) (\<lambda>_. True) (fseek_set 0 f) crc32_preset 0
      = Inr (?f, ?c, int (length (f_data f)))"
    using crc_file_loop_end [of "f\<lparr>f_pos := 0, f_eof := False\<rparr>" 0 "z_crc_32_tab y" crc32_preset] assms(3,4)
    by (simp add: fseek_set_def)
  have c: "NOT ?c = file_crc (z_crc_32_tab y) (f_data f)"
    by (simp flip: crc_turn_fold)
  let ?y = "y\<lparr>z_file_stream := Some (fseek_set (z_file_position y) ?f),
              z_file_crc32 := file_crc (z_crc_32_tab y) (f_data f)\<rparr>"
  have r: "header_ready ?y" using assms(1) by (simp add: header_ready_def)
  have w: "header_wire typ arg ?y = header_wire typ arg y" for "typ" arg
    by (rule header_wire_cong) simp_all
  obtain p b n where h: "send_header P_ZCRC (of_nat (length (f_data f))) ?y
        = Inr (?y\<lparr>packet := p, out_buffer := b, out_n := n\<rparr>)"
      "sent (?y\<lparr>packet := p, out_buffer := b, out_n := n\<rparr>) = header_wire P_ZCRC (of_nat (length (f_data f))) y"
      "length (header_wire P_ZCRC (of_nat (length (f_data f))) y) \<le> 21"
    using send_header_bytes [OF r, of P_ZCRC "of_nat (length (f_data f))"] unfolding w by auto
  let ?y1 = "?y\<lparr>packet := p, out_buffer := b, out_n := n, z_state := ZCRC_WAIT, packet_buffer_n := 0\<rparr>"
  have "receive_zcrc y = Inr (False, ?y1)"
    using assms(2) l c h(1) by (simp add: receive_zcrc_def z_again_def)
  then show ?thesis
    using h(2,3)
    by (intro exI [of _ ?y1] exI [of _ "fseek_set (z_file_position y) ?f"])
      (simp add: sent_def fseek_set_def)
qed

lemma send_zfile_wait_zcrc:
  assumes "header_ready z" "z_file_stream z = Some g" "\<not> f_bad g" "n \<le> length (f_data g)" "n < 2 ^ 31"
    "buffer_ok z" "pending z = []" "z_crc_32_tab z = z_crc_32_tab y"
    "length (header_wire P_ZCRC (of_nat n) y) \<le> 21"
  shows "\<exists>z1. send_zfile_wait (snd (add_input (header_wire P_ZCRC (of_nat n) y) z)) = Inr (False, z1)
     \<and> sent z1 = header_wire P_ZCRC (file_crc (z_crc_32_tab z) (take n (f_data g))) z
     \<and> length (sent z1) \<le> 21 \<and> z_state z1 = z_state z"
proof -
  have k: "P_ZCRC \<in> set known_types" "P_ZCRC \<notin> set types_with_data" "P_ZCRC \<noteq> P_ZSINIT"
    by (simp_all add: known_types_def types_with_data_def)
  obtain b m q where a: "0 < packet_buffer_n (snd (add_input (header_wire P_ZCRC (of_nat n) y) z))"
      "next_header (snd (add_input (header_wire P_ZCRC (of_nat n) y) z))
         = (ZM_PP_OK, z\<lparr>packet_buffer := b, packet_buffer_n := m, packet := q\<rparr>)"
      "p_type q = P_ZCRC" "p_argument q = of_nat n"
    using header_arrives [OF k(1,2) assms(6-9)] k(3) by (auto simp: received_argument_def)
  let ?z = "z_message ''ZCRC'' (z\<lparr>packet_buffer := b, packet_buffer_n := m, packet := q\<rparr>)"
  let ?c = "foldl (crc_turn (z_crc_32_tab z)) crc32_preset (take n (f_data g))"
  have l: "crc_file_loop (z_crc_32_tab z) (\<lambda>i. word_of_int i < (of_nat n :: u32)) (fseek_set 0 g) crc32_preset 0
      = Inr (g\<lparr>f_pos := n, f_eof := False\<rparr>, ?c, int n)"
    using crc_file_loop_limit [of "g\<lparr>f_pos := 0, f_eof := False\<rparr>" n 0 "z_crc_32_tab z" crc32_preset] assms(3-5)
    by (simp add: fseek_set_def slice_def)
  have c: "NOT ?c = file_crc (z_crc_32_tab z) (take n (f_data g))" by (simp flip: crc_turn_fold)
  let ?z1 = "?z\<lparr>z_file_stream := Some (fseek_set (z_file_position z) (g\<lparr>f_pos := n, f_eof := False\<rparr>)),
               z_file_crc32 := file_crc (z_crc_32_tab z) (take n (f_data g))\<rparr>"
  have r: "header_ready ?z1" using assms(1) by (simp add: header_ready_def z_message_def)
  have w: "header_wire typ arg ?z1 = header_wire typ arg z" for "typ" arg
    by (rule header_wire_cong) (simp_all add: z_message_def)
  obtain p b2 n2 where h: "send_header P_ZCRC (file_crc (z_crc_32_tab z) (take n (f_data g))) ?z1
        = Inr (?z1\<lparr>packet := p, out_buffer := b2, out_n := n2\<rparr>)"
      "sent (?z1\<lparr>packet := p, out_buffer := b2, out_n := n2\<rparr>)
        = header_wire P_ZCRC (file_crc (z_crc_32_tab z) (take n (f_data g))) z"
      "length (header_wire P_ZCRC (file_crc (z_crc_32_tab z) (take n (f_data g))) z) \<le> 21"
    using send_header_bytes [OF r, of P_ZCRC "file_crc (z_crc_32_tab z) (take n (f_data g))"] unfolding w by auto
  have "zfile_zcrc ?z = Inr (False, ?z1\<lparr>packet := p, out_buffer := b2, out_n := n2\<rparr>)"
    using assms(2) l c h(1) a(4) by (simp add: zfile_zcrc_def z_again_def z_message_def)
  moreover have "send_zfile_wait (snd (add_input (header_wire P_ZCRC (of_nat n) y) z)) = zfile_zcrc ?z"
    using a by (simp add: send_zfile_wait_def await_header_def)
  ultimately show ?thesis using h(2,3) by (auto simp: z_message_def)
qed

text \<open>
  C9. Crash recovery: a receiver that finds an intact beginning of the file on its disk asks for the
  CRC of as many bytes as it has; the sender answers with the CRC of that many bytes of its file; the
  two agree, and the receiver goes on at the position it had, or skips the file when it has all of
  it, and leaves the file on the disk and its name alone.
\<close>

theorem crash_recovery_agrees:
  assumes "header_ready y" "z_file_stream y = Some f" "\<not> f_bad f"
    "header_ready z" "z_file_stream z = Some g" "\<not> f_bad g" "buffer_ok y" "buffer_ok z" "pending z = []"
    "z_crc_32_tab z = z_crc_32_tab y" "take (length (f_data f)) (f_data g) = f_data f"
    "length (f_data f) < 2 ^ 31"
  shows "\<exists>y1 z1 y2. receive_zcrc y = Inr (False, y1)
     \<and> send_zfile_wait (snd (add_input (sent y1) z)) = Inr (False, z1)
     \<and> receive_zcrc_wait (snd (add_input (sent z1) y1)) = Inr (False, y2)
     \<and> z_state y2 = (if uint (z_file_size y) = z_file_position y then ZSKIP else ZRPOS)
     \<and> z_file_position y2 = z_file_position y \<and> z_file_fullname y2 = z_file_fullname y
     \<and> (\<exists>f2. z_file_stream y2 = Some f2 \<and> f_data f2 = f_data f) \<and> fsys (world y2) = fsys (world y)
     \<and> z_state z1 = z_state z"
proof -
  let ?n = "length (f_data f)"
  let ?crc = "file_crc (z_crc_32_tab y) (f_data f)"
  have n: "?n \<le> length (f_data g)" using assms(11) by (metis length_take min.cobounded1 min_def nat_le_linear)
  obtain y1 f1 where y1: "receive_zcrc y = Inr (False, y1)" "sent y1 = header_wire P_ZCRC (of_nat ?n) y"
      "length (header_wire P_ZCRC (of_nat ?n) y) \<le> 21"
      "y1 = y\<lparr>z_file_stream := Some f1, z_file_crc32 := ?crc, packet := packet y1, out_buffer := out_buffer y1,
              out_n := out_n y1, z_state := ZCRC_WAIT, packet_buffer_n := 0\<rparr>" "f_data f1 = f_data f"
    using receive_zcrc_result [OF assms(1-3,12)] by blast
  obtain z1 where z1: "send_zfile_wait (snd (add_input (sent y1) z)) = Inr (False, z1)"
      "sent z1 = header_wire P_ZCRC ?crc z" "length (sent z1) \<le> 21" "z_state z1 = z_state z"
    using send_zfile_wait_zcrc [OF assms(4-6) n assms(12,8,9,10) y1(3)] y1(2) assms(10,11) by auto
  have k: "P_ZCRC \<in> set known_types" "P_ZCRC \<notin> set types_with_data" "P_ZCRC \<noteq> P_ZSINIT"
    by (simp_all add: known_types_def types_with_data_def)
  have "packet_buffer_n y1 = 0" "packet_buffer y1 = packet_buffer y" "z_crc_32_tab y1 = z_crc_32_tab y"
    by (subst y1(4), simp)+
  then have "buffer_ok y1" "pending y1 = []" "z_crc_32_tab y1 = z_crc_32_tab z"
    using assms(7,10) by (simp_all add: buffer_ok_def pending_def)
  from header_arrives [OF k(1,2) this z1(3) [unfolded z1(2)]] z1(2) obtain b m q where
    a: "0 < packet_buffer_n (snd (add_input (sent z1) y1))"
      "next_header (snd (add_input (sent z1) y1))
         = (ZM_PP_OK, y1\<lparr>packet_buffer := b, packet_buffer_n := m, packet := q\<rparr>)"
      "p_type q = P_ZCRC" "p_argument q = ?crc"
    using k(3) by (auto simp: received_argument_def)
  let ?y2 = "y1\<lparr>packet_buffer := b, packet_buffer_n := m, packet := q,
    z_state := if uint (z_file_size y) = z_file_position y then ZSKIP else ZRPOS\<rparr>"
  have y1f: "z_file_size y1 = z_file_size y" "z_file_position y1 = z_file_position y"
      "z_file_fullname y1 = z_file_fullname y" "world y1 = world y" "z_file_stream y1 = Some f1"
      "z_file_crc32 y1 = ?crc"
    by (subst y1(4), simp)+
  have "receive_zcrc_wait (snd (add_input (sent z1) y1)) = Inr (False, ?y2)"
    using a y1f by (simp add: receive_zcrc_wait_def await_header_def zcrc_answer_def)
  then show ?thesis using y1(1,5) z1(1,4) y1f by auto
qed


text \<open>A receiver with two bytes of a file of four, and its sender.\<close>

definition recovery_receiver :: zmodem where
  "recovery_receiver = (waiting_sample ZCRC [])\<lparr>z_file_stream := Some (open_file [7, 8] 2),
     z_file_position := 2, z_file_size := 4\<rparr>"

definition recovery_sender :: zmodem where
  "recovery_sender = (sender_sample ZFILE_WAIT)\<lparr>z_file_stream := Some (open_file [7, 8, 9, 10] 0)\<rparr>"

lemma crash_recovery_agrees_witness:
  "\<exists>y1 z1 y2. receive_zcrc recovery_receiver = Inr (False, y1)
     \<and> send_zfile_wait (snd (add_input (sent y1) recovery_sender)) = Inr (False, z1)
     \<and> receive_zcrc_wait (snd (add_input (sent z1) y1)) = Inr (False, y2)
     \<and> z_state y2 = ZRPOS \<and> z_file_position y2 = 2"
proof -
  have l: "length ([] :: byte list) \<le> ZMODEM_MAX_BLOCK_SIZE" by simp
  have y: "header_ready recovery_receiver" "buffer_ok recovery_receiver"
      "z_file_stream recovery_receiver = Some (open_file [7, 8] 2)"
      "z_crc_32_tab recovery_receiver = replicate 256 0" "z_file_size recovery_receiver = 4"
      "z_file_position recovery_receiver = 2"
    using waiting_sample_ok [OF l] by (simp_all add: recovery_receiver_def header_ready_def buffer_ok_def)
  have z: "header_ready recovery_sender" "buffer_ok recovery_sender" "pending recovery_sender = []"
      "z_file_stream recovery_sender = Some (open_file [7, 8, 9, 10] 0)"
      "z_crc_32_tab recovery_sender = replicate 256 0"
    using waiting_sample_ok [OF l]
    by (simp_all add: recovery_sender_def sender_sample_def header_ready_def buffer_ok_def pending_def)
  show ?thesis
    using crash_recovery_agrees [of recovery_receiver "open_file [7, 8] 2" recovery_sender
        "open_file [7, 8, 9, 10] 0"] y z
    by (auto simp: open_file_def)
qed

end
