(* ===== verification/Kermit_Base.thy ===== *)
theory Kermit_Base
  imports Transfer_World
begin

text \<open>
  The types and static variables of \<open>kermit.c\<close> as a record around the world of \<open>protocols.c\<close>, and
  its helpers: session parameters, statistics, timer, ending the transfer. The packet type
  \<open>-1\<close> of an unknown type character is the constructor \<open>P_KNONE\<close>. The data of a packet is the
  list of the \<open>data_n\<close> bytes in use; \<open>data_max\<close> is the size of the array, 0 before the first
  \<open>kermit_start\<close> (the pointer is NULL). The output of the current call is the list \<open>k_out\<close> of the
  bytes in use of an array of \<open>k_out_max\<close> bytes.
\<close>

section \<open>Types\<close>

definition KERMIT_BLOCK_SIZE :: nat where [simp]: "KERMIT_BLOCK_SIZE = 1024"

datatype packet_type =
    P_KSINIT | P_KACK | P_KNAK | P_KDATA | P_KFILE | P_KEOF | P_KBREAK | P_KERROR | P_KSERVINIT
  | P_KTEXT | P_KRINIT | P_KATTRIBUTES | P_KCOMMAND | P_KKERMIT_COMMAND | P_KGENERIC_COMMAND
  | P_KRESERVED1 | P_KRESERVED2 | P_KNONE

text \<open>\<open>S Y N D F Z B E I X R A C K G T Q\<close>.\<close>

definition packet_type_chars :: "(packet_type \<times> byte) list" where
  "packet_type_chars =
     [(P_KSINIT, 0x53), (P_KACK, 0x59), (P_KNAK, 0x4E), (P_KDATA, 0x44), (P_KFILE, 0x46),
      (P_KEOF, 0x5A), (P_KBREAK, 0x42), (P_KERROR, 0x45), (P_KSERVINIT, 0x49), (P_KTEXT, 0x58),
      (P_KRINIT, 0x52), (P_KATTRIBUTES, 0x41), (P_KCOMMAND, 0x43), (P_KKERMIT_COMMAND, 0x4B),
      (P_KGENERIC_COMMAND, 0x47), (P_KRESERVED1, 0x54), (P_KRESERVED2, 0x51)]"

definition packet_type_of :: "byte \<Rightarrow> packet_type" where
  "packet_type_of c = (case find (\<lambda>(t, ch). ch = c) packet_type_chars of None \<Rightarrow> P_KNONE | Some (t, _) \<Rightarrow> t)"

definition packet_char :: "packet_type \<Rightarrow> byte" where
  "packet_char t = (case map_of packet_type_chars t of None \<Rightarrow> 0 | Some c \<Rightarrow> c)"

datatype kstate =
    KM_INIT | KM_COMPLETE | KM_ABORT
  | KM_S | KM_SF | KM_SA | KM_SDW | KM_SZ | KM_SB
  | KM_R | KM_RF | KM_RDW

datatype k_access = K_ACCESS_NEW | K_ACCESS_SUPERSEDE | K_ACCESS_APPEND | K_ACCESS_WARN

record session_parameters =
  MARK :: byte
  MAXL :: byte
  TIME :: byte
  NPAD :: byte
  PADC :: byte
  EOL :: byte
  QCTL :: byte
  QBIN :: byte
  CHKT :: byte
  REPT :: byte
  CAPAS :: byte
  WINDO :: byte
  MAXLX1 :: byte
  MAXLX2 :: byte
  WHATAMI :: byte
  attributes :: bool
  windowing :: bool
  long_packets :: bool
  streaming :: bool
  WINDO_in :: nat
  WINDO_out :: nat

record kermit_packet =
  parsed_ok :: bool
  kp_seq :: int
  kp_type :: packet_type
  kp_length :: int
  long_packet :: bool
  kp_data :: "byte list"
  data_max :: nat

text \<open>\<open>struct kermit_packet_serial\<close>: a slot of a window; the data is NULL or a copy of a packet.\<close>

record kermit_slot =
  sl_seq :: int
  try_count :: nat
  acked :: bool
  sl_type :: packet_type
  sl_data :: "byte list option"

text \<open>What \<open>memset\<close> makes of a packet header and of a slot.\<close>

definition zero_packet :: "nat \<Rightarrow> kermit_packet" where
  "zero_packet n =
     \<lparr>parsed_ok = False, kp_seq = 0, kp_type = P_KSINIT, kp_length = 0, long_packet = False,
      kp_data = [], data_max = n\<rparr>"

definition zero_slot :: kermit_slot where
  "zero_slot = \<lparr>sl_seq = 0, try_count = 0, acked = False, sl_type = P_KSINIT, sl_data = None\<rparr>"

section \<open>State\<close>

text \<open>
  The options of \<open>q_status\<close>, the state of the serial port and the time zone (the local time of a
  UTC time and the other way round, in seconds) come from the rest of the program and its
  environment; then \<open>struct KERMIT_STATUS\<close> and the other static variables.
\<close>

record kermit =
  kworld :: xfer
  kermit_long_packets_option :: bool
  kermit_streaming_option :: bool
  kermit_uploads_force_binary :: bool
  kermit_downloads_convert_text :: bool
  kermit_robust_filename :: bool
  kermit_resend :: bool
  serial_7bit :: bool
  local_of_utc :: "int \<Rightarrow> int"
  utc_of_local :: "int \<Rightarrow> int"
  local_parms :: session_parameters
  remote_parms :: session_parameters
  session_parms :: session_parameters
  k_state :: kstate
  check_type :: int
  sequence_number :: nat
  k_sending :: bool
  k_file_name :: "path option"
  k_file_size :: u32
  k_file_size_k :: u32
  k_file_modtime :: int
  k_file_position :: int
  k_file_stream :: "cfile option"
  file_protection :: u32
  outstanding_bytes :: int
  k_block_size :: int
  k_access :: k_access
  k_timeout_begin :: int
  k_timeout_max :: int
  k_timeout_count :: int
  first_R :: bool
  first_S :: bool
  first_SB :: bool
  sent_nak :: bool
  skip_file :: bool
  text_mode :: bool
  seven_bit_only :: bool
  do_resend :: bool
  is_first_data_packet :: bool
  k_file_fullname :: path
  k_upload_file_list :: "file_info list option"
  k_upload_file_list_i :: nat
  k_download_path :: "path option"
  input_packet :: kermit_packet
  output_packet :: kermit_packet
  k_buffer :: "byte list"
  k_buffer_n :: nat
  input_window :: "kermit_slot list"
  input_window_begin :: nat
  input_window_i :: nat
  input_window_n :: nat
  output_window :: "kermit_slot list"
  output_window_begin :: nat
  output_window_i :: nat
  output_window_n :: nat
  k_crc_16_tab :: "u16 list"
  ctrl_c_count :: nat
  k_out :: "byte list"
  k_out_max :: nat

section \<open>Parameters\<close>

definition zero_parameters :: session_parameters where
  "zero_parameters =
     \<lparr>MARK = 0, MAXL = 0, TIME = 0, NPAD = 0, PADC = 0, EOL = 0, QCTL = 0, QBIN = 0, CHKT = 0,
      REPT = 0, CAPAS = 0, WINDO = 0, MAXLX1 = 0, MAXLX2 = 0, WHATAMI = 0, attributes = False,
      windowing = False, long_packets = False, streaming = False, WINDO_in = 0, WINDO_out = 0\<rparr>"

text \<open>\<open>#\<close> is 0x23, \<open>&\<close> 0x26, \<open>Y\<close> 0x59, \<open>3\<close> 0x33 and \<open>~\<close> 0x7E.\<close>

definition default_session_parameters :: "kermit \<Rightarrow> session_parameters" where
  "default_session_parameters k =
     \<lparr>MARK = C_SOH, MAXL = 80, TIME = 5, NPAD = 0, PADC = 0, EOL = C_CR, QCTL = 0x23,
      QBIN = (if seven_bit_only k then 0x26 else 0x59), CHKT = 0x33, REPT = 0x7E,
      CAPAS = 0x10 OR 0x08 OR 0x04 OR (if kermit_long_packets_option k then 0x02 else 0),
      WINDO = 30, MAXLX1 = of_nat (KERMIT_BLOCK_SIZE div 95), MAXLX2 = of_nat (KERMIT_BLOCK_SIZE mod 95),
      WHATAMI = (if kermit_streaming_option k then 0x28 else 0),
      attributes = True, windowing = True, long_packets = kermit_long_packets_option k,
      streaming = kermit_streaming_option k, WINDO_in = 1, WINDO_out = 1\<rparr>"

text \<open>The static initializers, with an arbitrary time zone.\<close>

definition kermit_initial :: "(int \<Rightarrow> int) \<Rightarrow> (int \<Rightarrow> int) \<Rightarrow> xfer \<Rightarrow> kermit" where
  "kermit_initial tolocal toutc w =
     \<lparr>kworld = w, kermit_long_packets_option = True, kermit_streaming_option = True,
      kermit_uploads_force_binary = True, kermit_downloads_convert_text = True,
      kermit_robust_filename = False, kermit_resend = True, serial_7bit = False,
      local_of_utc = tolocal, utc_of_local = toutc,
      local_parms = zero_parameters, remote_parms = zero_parameters, session_parms = zero_parameters,
      k_state = KM_INIT, check_type = 1, sequence_number = 0, k_sending = False, k_file_name = None,
      k_file_size = 0, k_file_size_k = 0, k_file_modtime = 0, k_file_position = 0,
      k_file_stream = None, file_protection = 0, outstanding_bytes = 0, k_block_size = 1024,
      k_access = K_ACCESS_WARN, k_timeout_begin = 0, k_timeout_max = 5, k_timeout_count = 0,
      first_R = False, first_S = False, first_SB = False, sent_nak = False, skip_file = False,
      text_mode = False, seven_bit_only = False, do_resend = False, is_first_data_packet = False,
      k_file_fullname = [], k_upload_file_list = None, k_upload_file_list_i = 0,
      k_download_path = None, input_packet = zero_packet 0, output_packet = zero_packet 0,
      k_buffer = replicate (2 * KERMIT_BLOCK_SIZE) 0, k_buffer_n = 0,
      input_window = [], input_window_begin = 0, input_window_i = 0, input_window_n = 0,
      output_window = [], output_window_begin = 0, output_window_i = 0, output_window_n = 0,
      k_crc_16_tab = replicate 256 0, ctrl_c_count = 0,
      k_out = [], k_out_max = nat Q_BUFFER_SIZE\<rparr>"

section \<open>Statistics and timer\<close>

definition k_message :: "string \<Rightarrow> kermit \<Rightarrow> kermit" where
  "k_message m k = k\<lparr>kworld := set_transfer_stats_last_message (Msg m) (kworld k)\<rparr>"

definition k_stats :: "(tstats \<Rightarrow> tstats) \<Rightarrow> kermit \<Rightarrow> kermit" where
  "k_stats f k = k\<lparr>kworld := (kworld k)\<lparr>stats := f (stats (kworld k))\<rparr>\<rparr>"

definition k_stats_new_file :: "path \<Rightarrow> int \<Rightarrow> kermit \<Rightarrow> kermit" where
  "k_stats_new_file fname filesize k =
     k_stats (\<lambda>t. t\<lparr>ts_blocks_transfer := 0, ts_bytes_transfer := 0, ts_error_count := 0,
             ts_bytes_total := word_of_int filesize,
             ts_blocks := word_of_int (c_quot filesize 1024)
                          + (if 0 < c_rem filesize 1024 then 1 else 0),
             ts_filename := Some (basename fname), ts_pathname := Some (dirname fname),
             ts_state := Q_TRANSFER_STATE_TRANSFER,
             ts_file_start_time := now (kworld k)\<rparr>) (k_message '''' k)"

text \<open>The divisions by \<open>MAXL\<close> stop the program when it is zero.\<close>

definition k_stats_increment_blocks :: "kermit \<Rightarrow> fault + kermit" where
  "k_stats_increment_blocks k =
     (let m = uint (MAXL (session_parms k)) in
      if m = 0 then Inl Division_by_zero
      else Inr (k_stats (\<lambda>t. t\<lparr>ts_block_size := word_of_int (k_block_size k),
             ts_blocks_transfer := word_of_int (c_quot (k_file_position k) m)
                                   + (if 0 < c_rem (k_file_position k) m then 1 else 0),
             ts_blocks := word_of_int (uint (k_file_size k) div m)\<rparr>) k))"

definition k_stats_increment_errors :: "msg \<Rightarrow> kermit \<Rightarrow> kermit" where
  "k_stats_increment_errors m k =
     k_stats (\<lambda>t. t\<lparr>ts_last_message := Some m, ts_error_count := ts_error_count t + 1\<rparr>) k"

definition k_reset_timer :: "kermit \<Rightarrow> kermit" where
  "k_reset_timer k = k\<lparr>k_timeout_begin := now (kworld k)\<rparr>"

section \<open>Ending a transfer\<close>

definition k_fclose :: "kermit \<Rightarrow> kermit" where
  "k_fclose k =
     (case k_file_stream k of
        None \<Rightarrow> k
      | Some f \<Rightarrow> k\<lparr>kworld := (kworld k)\<lparr>fsys := fclose f (fsys (kworld k))\<rparr>\<rparr>)"

definition kermit_stop :: "bool \<Rightarrow> kermit \<Rightarrow> kermit" where
  "kermit_stop save_partial k =
     (let k1 = k_fclose k;
          k2 = (if save_partial \<or> k_sending k \<or> k_file_stream k = None then k1
                else case k_file_name k of
                  None \<Rightarrow> k1
                | Some p \<Rightarrow> k1\<lparr>kworld := (kworld k1)\<lparr>fsys := unlink p (fsys (kworld k1))\<rparr>\<rparr>)
      in k2\<lparr>k_file_stream := None, k_file_name := None, k_download_path := None\<rparr>)"

text \<open>\<open>stop_file_transfer\<close>, with the part of the switch that calls back into \<open>kermit.c\<close>.\<close>

definition k_stop_file_transfer :: "q_transfer_state \<Rightarrow> kermit \<Rightarrow> kermit" where
  "k_stop_file_transfer q k =
     (let k1 = (if ts_protocol (stats (kworld k)) = Q_PROTOCOL_KERMIT then kermit_stop True k else k)
      in k1\<lparr>kworld := stop_file_transfer q (kworld k1)\<rparr>)"

definition kermit_skip_file :: "kermit \<Rightarrow> kermit" where
  "kermit_skip_file k = k\<lparr>skip_file := True\<rparr>"

section \<open>Output packets\<close>

text \<open>
  What all the functions that make a packet do: type, number and data; the packet is to be sent.
\<close>

definition put_packet :: "packet_type \<Rightarrow> int \<Rightarrow> byte list \<Rightarrow> kermit \<Rightarrow> fault + kermit" where
  "put_packet t seq data k =
     (let p = output_packet k in
      if data_max p < length data then Inl (if data_max p = 0 then Null_pointer else Buffer_overflow)
      else Inr (k\<lparr>output_packet := p\<lparr>parsed_ok := True, kp_type := t, kp_seq := seq, kp_data := data\<rparr>\<rparr>))"

definition error_packet :: "string \<Rightarrow> kermit \<Rightarrow> fault + kermit" where
  "error_packet m k = put_packet P_KERROR (int (sequence_number k mod 64)) (ascii m) k"

text \<open>The way every fatal error ends: state, message, the end of the transfer, an error packet.\<close>

definition k_fail :: "string \<Rightarrow> string \<Rightarrow> kermit \<Rightarrow> fault + kermit" where
  "k_fail m err k =
     error_packet err (k_message m (k_stop_file_transfer Q_TRANSFER_STATE_ABORT (k\<lparr>k_state := KM_ABORT\<rparr>)))"

definition k_check_timeout :: "kermit \<Rightarrow> fault + bool \<times> kermit" where
  "k_check_timeout k =
     (if streaming (session_parms k) \<and> k_state k \<in> {KM_RDW, KM_SDW} then Inr (False, k_reset_timer k)
      else if uint (TIME (session_parms k)) \<le> now (kworld k) - k_timeout_begin k then
        (let k1 = k\<lparr>k_timeout_count := k_timeout_count k + 1\<rparr> in
         bind_res
           (if k_timeout_max k1 \<le> k_timeout_count k1 then
              error_packet ''Too many timeouts''
                ((k_stop_file_transfer Q_TRANSFER_STATE_ABORT
                   (k_stats_increment_errors (Msg ''TOO MANY TIMEOUTS, TRANSFER CANCELLED'') k1))
                   \<lparr>k_state := KM_ABORT\<rparr>)
            else Inr (k_stats_increment_errors (Msg ''TIMEOUT'') k1))
           (\<lambda>k2. Inr (True, k_reset_timer k2)))
      else Inr (False, k))"

text \<open>\<open>ack_packet\<close>, \<open>ack_packet_param\<close>, \<open>ack_file_packet\<close>: only the receiver acknowledges.\<close>

definition ack_packet :: "bool \<Rightarrow> kermit \<Rightarrow> fault + kermit" where
  "ack_packet really k =
     (if k_sending k then Inl Assert_failed
      else if skip_file k then
        put_packet P_KACK (kp_seq (input_packet k)) [0x58] (k\<lparr>skip_file := False\<rparr>)
      else if \<not> streaming (session_parms k) \<or> really then
        put_packet P_KACK (kp_seq (input_packet k)) [] k
      else Inr k)"

definition ack_packet_param :: "byte list \<Rightarrow> kermit \<Rightarrow> fault + kermit" where
  "ack_packet_param param k =
     (if k_sending k then Inl Assert_failed
      else put_packet P_KACK (kp_seq (input_packet k)) param k)"

definition ack_file_packet :: "kermit \<Rightarrow> fault + kermit" where
  "ack_file_packet k =
     (case k_file_name k of
        None \<Rightarrow> Inl Null_pointer
      | Some name \<Rightarrow> put_packet P_KACK (kp_seq (input_packet k)) name k)"

end
