(* ===== verification/Kermit_Codec.thy ===== *)
theory Kermit_Codec
  imports Kermit_Base Crc_Register
begin

text \<open>
  The byte layer of \<open>kermit.c\<close>: the checks of a packet, printable characters, and the quoting of
  the data field with its control prefix, 8-bit prefix and repeat counts.
\<close>

section \<open>Checks\<close>

definition KCRC16 :: u16 where "KCRC16 = 0x8408"

definition k_crc_step :: "u16 \<Rightarrow> u16" where
  "k_crc_step crc = drop_bit 1 crc XOR (if crc AND 1 \<noteq> 0 then KCRC16 else 0)"

definition k_makecrc :: "u16 list" where
  "k_makecrc = map (\<lambda>i. (k_crc_step ^^ 8) (of_nat i)) [0..<256]"

text \<open>The bytes a check sees: on a seven-bit line only their low bits.\<close>

definition line_byte :: "bool \<Rightarrow> byte \<Rightarrow> byte" where
  "line_byte seven b = (if seven then b AND 0x7F else b)"

definition k_compute_crc16 :: "bool \<Rightarrow> u16 list \<Rightarrow> byte list \<Rightarrow> u16" where
  "k_compute_crc16 seven tab bs =
     foldl (\<lambda>crc b. tab ! unat ((crc XOR ucast (line_byte seven b)) AND 0xFF) XOR drop_bit 8 crc) 0 bs"

definition compute_checksum :: "bool \<Rightarrow> byte list \<Rightarrow> byte" where
  "compute_checksum seven bs =
     (let sum = sum_list (map (line_byte seven) bs)
      in (sum + drop_bit 6 (sum AND 0xC0)) AND 0x3F)"

definition compute_checksum2 :: "bool \<Rightarrow> byte list \<Rightarrow> u16" where
  "compute_checksum2 seven bs = sum_list (map (\<lambda>b. ucast (line_byte seven b)) bs) AND 0x0FFF"

section \<open>Printable characters\<close>

definition kermit_tochar :: "byte \<Rightarrow> byte" where
  "kermit_tochar b = b + 32"

definition kermit_unchar :: "byte \<Rightarrow> byte" where
  "kermit_unchar ch = ch - 32"

definition kermit_ctl :: "byte \<Rightarrow> byte" where
  "kermit_ctl b = b XOR 0x40"

text \<open>The characters that quote; a space means that the prefix is not used.\<close>

record quoting =
  q_rept :: byte
  q_bin :: byte
  q_ctl :: byte

section \<open>Decoding the data field\<close>

text \<open>
  The variables of the loop of \<open>decode_data_field\<close>: the prefixes seen, the repeat count, the
  character that is output before the next one is read (\<open>do_output_ch\<close> and \<open>output_ch\<close>), the
  output and the size of its array, which doubles when it is full.
\<close>

record decoding =
  d_ctrl :: bool
  d_8bit :: bool
  d_rept :: bool
  d_count :: nat
  d_pending :: "byte option"
  d_out :: "byte list"
  d_max :: nat

definition decoding_start :: "nat \<Rightarrow> decoding" where
  "decoding_start m =
     \<lparr>d_ctrl = False, d_8bit = False, d_rept = False, d_count = 1, d_pending = None, d_out = [],
      d_max = m\<rparr>"

definition d_put :: "byte \<Rightarrow> decoding \<Rightarrow> decoding" where
  "d_put b d =
     d\<lparr>d_out := d_out d @ [b], d_max := if length (d_out d) = d_max d then 2 * d_max d else d_max d\<rparr>"

text \<open>A character as often as the repeat count says; \<open>strip\<close> leaves out the CRs of a text file.\<close>

definition d_put_run :: "bool \<Rightarrow> byte \<Rightarrow> decoding \<Rightarrow> decoding" where
  "d_put_run strip b d =
     (if strip \<and> b = C_CR then d else (d_put b ^^ d_count d) d)\<lparr>d_count := 1\<rparr>"

definition d_flush :: "bool \<Rightarrow> decoding \<Rightarrow> decoding" where
  "d_flush strip d =
     (case d_pending d of None \<Rightarrow> d | Some b \<Rightarrow> (d_put_run strip b d)\<lparr>d_pending := None\<rparr>)"

text \<open>One byte of the field, by the sections of the loop; \<open>None\<close> when an 8-bit prefix is doubled.\<close>

definition decode_rept :: "quoting \<Rightarrow> decoding \<Rightarrow> decoding" where
  "decode_rept q d =
     (if d_ctrl d \<and> d_8bit d then
        d\<lparr>d_pending := Some (q_rept q OR 0x80), d_ctrl := False, d_8bit := False, d_rept := False\<rparr>
      else if d_ctrl d then d\<lparr>d_pending := Some (q_rept q), d_ctrl := False, d_rept := False\<rparr>
      else if d_rept d then d\<lparr>d_count := unat (kermit_unchar (q_rept q)), d_rept := False\<rparr>
      else d\<lparr>d_rept := True\<rparr>)"

definition decode_qctl :: "quoting \<Rightarrow> decoding \<Rightarrow> decoding" where
  "decode_qctl q d =
     (if d_8bit d \<and> d_ctrl d then
        d\<lparr>d_pending := Some (q_ctl q OR 0x80), d_ctrl := False, d_8bit := False\<rparr>
      else if d_ctrl d then d\<lparr>d_pending := Some (q_ctl q), d_ctrl := False\<rparr>
      else d\<lparr>d_ctrl := True\<rparr>)"

definition decode_qbin :: "quoting \<Rightarrow> decoding \<Rightarrow> decoding option" where
  "decode_qbin q d =
     (if d_8bit d \<and> \<not> d_ctrl d then None
      else if d_8bit d \<and> d_ctrl d then
        Some (d\<lparr>d_pending := Some (q_bin q OR 0x80), d_ctrl := False, d_8bit := False\<rparr>)
      else if d_ctrl d then Some (d\<lparr>d_pending := Some (q_bin q), d_ctrl := False\<rparr>)
      else Some (d\<lparr>d_8bit := True\<rparr>))"

definition decode_regular :: "bool \<Rightarrow> byte \<Rightarrow> decoding \<Rightarrow> decoding" where
  "decode_regular strip ch d =
     (let c1 = (if d_ctrl d \<and> (kermit_ctl ch AND 0x7F < 0x20 \<or> kermit_ctl ch AND 0x7F = 0x7F)
                then kermit_ctl ch else ch);
          c2 = (if d_8bit d then c1 OR 0x80 else c1)
      in d_put_run strip c2 (d\<lparr>d_ctrl := False, d_8bit := False\<rparr>))"

definition decode_byte :: "quoting \<Rightarrow> bool \<Rightarrow> byte \<Rightarrow> decoding \<Rightarrow> decoding option" where
  "decode_byte q strip ch d =
     (if q_rept q \<noteq> 32 \<and> ch = q_rept q then Some (decode_rept q d)
      else if d_rept d then Some (d\<lparr>d_count := unat (kermit_unchar ch), d_rept := False\<rparr>)
      else if ch = q_ctl q then Some (decode_qctl q d)
      else if q_bin q \<noteq> 32 \<and> ch = q_bin q then decode_qbin q d
      else Some (decode_regular strip ch d))"

text \<open>
  The loop: whether the field was well formed, and its variables at the end. Send-Init packets,
  the acknowledgement of packet 0 and attributes are \<open>raw\<close>: not quoted at all.
\<close>

fun decode_loop_k :: "quoting \<Rightarrow> bool \<Rightarrow> bool \<Rightarrow> byte list \<Rightarrow> decoding \<Rightarrow> bool \<times> decoding" where
  "decode_loop_k q raw strip [] d = (True, d_flush strip d)"
| "decode_loop_k q raw strip (c # cs) d =
     (let d1 = d_flush strip d in
      if raw then decode_loop_k q raw strip cs (d_put c d1)
      else case decode_byte q strip c d1 of
        None \<Rightarrow> (False, d1)
      | Some d2 \<Rightarrow> decode_loop_k q raw strip cs d2)"

section \<open>Encoding the data field\<close>

definition encode_char :: "quoting \<Rightarrow> byte \<Rightarrow> byte list" where
  "encode_char q ch =
     (let ch7bit = ch AND 0x7F;
          need_qbin = (q_bin q \<noteq> 32 \<and> ch AND 0x80 \<noteq> 0);
          quoted = (q_rept q \<noteq> 32 \<and> ch7bit = q_rept q \<or> q_bin q \<noteq> 32 \<and> ch7bit = q_bin q
                    \<or> ch7bit = q_ctl q);
          is_ctl = (\<not> quoted \<and> (ch7bit < 0x20 \<or> ch7bit = 0x7F));
          output_ch = (if need_qbin then ch7bit else ch)
      in (if need_qbin then [q_bin q] else [])
           @ (if quoted \<or> is_ctl then [q_ctl q] else [])
           @ [if is_ctl then kermit_ctl output_ch else output_ch])"

text \<open>\<open>b\<close>: the 12-bit check \<open>B\<close>, under which spaces are always sent with a repeat count.\<close>

definition encode_one_byte :: "quoting \<Rightarrow> bool \<Rightarrow> byte \<Rightarrow> nat \<Rightarrow> byte list" where
  "encode_one_byte q b ch repeat_count =
     (if 3 < repeat_count \<or> b \<and> ch = 32 then
        [q_rept q, kermit_tochar (of_nat repeat_count)] @ encode_char q ch
      else concat (replicate repeat_count (encode_char q ch)))"

text \<open>
  The variables of the loop of \<open>encode_data_field\<close>, and what it is called with: the quoting, the
  two bounds on the length (unsigned, so that a short \<open>MAXL\<close> wraps around), whether the file is a
  text and whether the packet is raw.
\<close>

record encoding =
  e_data :: "byte list"
  e_last :: byte
  e_count :: nat
  e_first :: bool
  e_crlf :: bool
  e_read :: nat

record encode_call =
  g_quoting :: quoting
  g_b_check :: bool
  g_room :: u32
  g_text_room :: u32
  g_text :: bool
  g_raw :: bool

definition encoding_start :: encoding where
  "encoding_start =
     \<lparr>e_data = [], e_last = 0, e_count = 0, e_first = True, e_crlf = False, e_read = 0\<rparr>"

definition encode_full :: "encode_call \<Rightarrow> encoding \<Rightarrow> bool" where
  "encode_full g e \<longleftrightarrow>
     g_room g \<le> of_nat (length (e_data e)) \<or> g_text g \<and> g_text_room g \<le> of_nat (length (e_data e))"

definition count_char :: "encode_call \<Rightarrow> byte \<Rightarrow> encoding \<Rightarrow> encoding" where
  "count_char g ch e =
     (let e1 = (if e_first e then e\<lparr>e_last := ch, e_first := False, e_count := 0\<rparr> else e)
      in if e_last e1 = ch \<and> e_count e1 < 94 then e1\<lparr>e_count := e_count e1 + 1\<rparr>
         else e1\<lparr>e_data := e_data e1 @ encode_one_byte (g_quoting g) (g_b_check g) (e_last e1) (e_count e1),
                 e_count := 1, e_last := ch\<rparr>)"

text \<open>
  The loop over the bytes of the packet or the file: whether it ran into their end, and its
  variables. In a text a CR is dropped and an LF goes out as CR and LF; when the packet is full
  between the two, \<open>crlf\<close> stays set.
\<close>

fun encode_loop :: "encode_call \<Rightarrow> byte list \<Rightarrow> encoding \<Rightarrow> bool \<times> encoding" where
  "encode_loop g [] e = (\<not> encode_full g e, e)"
| "encode_loop g (c # cs) e =
     (if encode_full g e then (False, e)
      else
       (let e1 = e\<lparr>e_read := e_read e + 1\<rparr> in
        if g_raw g then encode_loop g cs (e1\<lparr>e_data := e_data e1 @ [c]\<rparr>)
        else if g_text g \<and> c = C_CR then encode_loop g cs e1
        else if g_text g \<and> c = C_LF then
          (let e2 = count_char g C_CR e1 in
           if encode_full g e2 then (False, e2\<lparr>e_crlf := True\<rparr>)
           else encode_loop g cs (count_char g C_LF e2))
        else encode_loop g cs (count_char g c e1)))"

text \<open>What is left when the loop ends: the run that was counted, and an LF.\<close>

definition encode_rest :: "encode_call \<Rightarrow> encoding \<Rightarrow> byte list" where
  "encode_rest g e =
     e_data e
       @ (if 0 < e_count e then encode_one_byte (g_quoting g) (g_b_check g) (e_last e) (e_count e) else [])
       @ (if g_text g \<and> e_crlf e then encode_one_byte (g_quoting g) (g_b_check g) C_LF 1 else [])"

end
