(* ===== verification/Kermit_File.thy ===== *)
theory Kermit_File
  imports Kermit_Codec Xmodem_Block
begin

text \<open>
  The files of a Kermit session: opening the next upload, opening a download, and the File-Header
  and Attributes packets with the size, the time and the protection of a file.
\<close>

section \<open>Times\<close>

text \<open>Days since 1970 in the Gregorian calendar, and back.\<close>

definition days_of_civil :: "int \<Rightarrow> int \<Rightarrow> int \<Rightarrow> int" where
  "days_of_civil y m d =
     (let y1 = (if m \<le> 2 then y - 1 else y);
          doy = (153 * (if m \<le> 2 then m + 9 else m - 3) + 2) div 5 + d - 1;
          yoe = y1 mod 400
      in (y1 div 400) * 146097 + yoe * 365 + yoe div 4 - yoe div 100 + doy - 719468)"

definition civil_of_days :: "int \<Rightarrow> int \<times> int \<times> int" where
  "civil_of_days z =
     (let doe = (z + 719468) mod 146097;
          yoe = (doe - doe div 1460 + doe div 36524 - doe div 146096) div 365;
          doy = doe - (365 * yoe + yoe div 4 - yoe div 100);
          mp = (5 * doy + 2) div 153;
          d = doy - (153 * mp + 2) div 5 + 1;
          m = (if mp < 10 then mp + 3 else mp - 9);
          y = yoe + ((z + 719468) div 146097) * 400
      in (if m \<le> 2 then y + 1 else y, m, d))"

text \<open>
  \<open>struct tm\<close>, which \<open>process_attributes\<close> does not initialise, and \<open>strptime\<close> for the
  directives the formats use, as the GNU C library reads them: a failed call leaves what it has
  stored. The year in \<open>tm_year\<close> counts from 1900.
\<close>

datatype time_directive = F_C | F_y | F_m | F_d | F_H | F_M | F_S | F_space | F_colon

record c_tm =
  tm_sec :: "int option"
  tm_min :: "int option"
  tm_hour :: "int option"
  tm_mday :: "int option"
  tm_mon :: "int option"
  tm_year :: "int option"

definition tm_unset :: c_tm where
  "tm_unset = \<lparr>tm_sec = None, tm_min = None, tm_hour = None, tm_mday = None, tm_mon = None, tm_year = None\<rparr>"

text \<open>At most two digits; the second is only taken if the first could be followed by one.\<close>

definition get_number :: "int \<Rightarrow> int \<Rightarrow> cstring \<Rightarrow> (int \<times> cstring) option" where
  "get_number lo hi s =
     (case dropWhile (\<lambda>b. b = 32) s of
        [] \<Rightarrow> None
      | c # cs \<Rightarrow>
          if \<not> is_digit 10 c then None
          else
           (let v = int (unat c) - 48;
                (n, r) = (case cs of
                            [] \<Rightarrow> (v, [])
                          | e # es \<Rightarrow>
                              if v * 10 \<le> hi \<and> is_digit 10 e then (v * 10 + int (unat e) - 48, es)
                              else (v, cs))
            in if n < lo \<or> hi < n then None else Some (n, r)))"

fun strptime :: "time_directive list \<Rightarrow> cstring \<Rightarrow> int option \<Rightarrow> c_tm \<Rightarrow> bool \<times> c_tm" where
  "strptime [] s century t =
     (case (century, tm_year t) of
        (Some c, Some y) \<Rightarrow> (True, t\<lparr>tm_year := Some (c_rem y 100 + (c - 19) * 100)\<rparr>)
      | _ \<Rightarrow> (True, t))"
| "strptime (F_C # fs) s century t =
     (case get_number 0 99 s of None \<Rightarrow> (False, t) | Some (n, r) \<Rightarrow> strptime fs r (Some n) t)"
| "strptime (F_y # fs) s century t =
     (case get_number 0 99 s of None \<Rightarrow> (False, t)
      | Some (n, r) \<Rightarrow> strptime fs r century (t\<lparr>tm_year := Some (if 69 \<le> n then n else n + 100)\<rparr>))"
| "strptime (F_m # fs) s century t =
     (case get_number 1 12 s of None \<Rightarrow> (False, t)
      | Some (n, r) \<Rightarrow> strptime fs r century (t\<lparr>tm_mon := Some (n - 1)\<rparr>))"
| "strptime (F_d # fs) s century t =
     (case get_number 1 31 s of None \<Rightarrow> (False, t)
      | Some (n, r) \<Rightarrow> strptime fs r century (t\<lparr>tm_mday := Some n\<rparr>))"
| "strptime (F_H # fs) s century t =
     (case get_number 0 23 s of None \<Rightarrow> (False, t)
      | Some (n, r) \<Rightarrow> strptime fs r century (t\<lparr>tm_hour := Some n\<rparr>))"
| "strptime (F_M # fs) s century t =
     (case get_number 0 59 s of None \<Rightarrow> (False, t)
      | Some (n, r) \<Rightarrow> strptime fs r century (t\<lparr>tm_min := Some n\<rparr>))"
| "strptime (F_S # fs) s century t =
     (case get_number 0 61 s of None \<Rightarrow> (False, t)
      | Some (n, r) \<Rightarrow> strptime fs r century (t\<lparr>tm_sec := Some n\<rparr>))"
| "strptime (F_space # fs) s century t = strptime fs (dropWhile is_space s) century t"
| "strptime (F_colon # fs) s century t =
     (case s of
        [] \<Rightarrow> (False, t)
      | c # cs \<Rightarrow> if c = 58 then strptime fs cs century t else (False, t))"

text \<open>The six formats, in the order in which they are tried, on one \<open>struct tm\<close>.\<close>

definition time_formats :: "time_directive list list" where
  "time_formats =
     [[F_C, F_y, F_m, F_d, F_space, F_H, F_colon, F_M, F_colon, F_S],
      [F_y, F_m, F_d, F_space, F_H, F_colon, F_M, F_colon, F_S],
      [F_C, F_y, F_m, F_d, F_space, F_H, F_colon, F_M],
      [F_y, F_m, F_d, F_space, F_H, F_colon, F_M],
      [F_C, F_y, F_m, F_d],
      [F_y, F_m, F_d]]"

fun try_formats :: "time_directive list list \<Rightarrow> cstring \<Rightarrow> c_tm \<Rightarrow> bool \<times> c_tm" where
  "try_formats [] s t = (False, t)"
| "try_formats (f # fs) s t =
     (let (ok, t1) = strptime f s None t in if ok then (True, t1) else try_formats fs s t1)"

text \<open>\<open>mktime\<close>; reading a member that was never set is a fault.\<close>

definition mktime :: "(int \<Rightarrow> int) \<Rightarrow> c_tm \<Rightarrow> fault + int" where
  "mktime toutc t =
     (case (tm_sec t, tm_min t, tm_hour t, tm_mday t, tm_mon t, tm_year t) of
        (Some s, Some mi, Some h, Some d, Some m, Some y) \<Rightarrow>
          Inr (toutc (86400 * days_of_civil (y + 1900) (m + 1) d + 3600 * h + 60 * mi + s))
      | _ \<Rightarrow> Inl Uninitialised)"

text \<open>\<open>strftime(buffer, n, "%Y%m%d %H:%M:%S", localtime(&t))\<close>.\<close>

definition two_digits :: "int \<Rightarrow> byte list" where
  "two_digits n = [of_int (48 + n div 10), of_int (48 + n mod 10)]"

definition time_text :: "(int \<Rightarrow> int) \<Rightarrow> int \<Rightarrow> byte list" where
  "time_text tolocal t =
     (let l = tolocal t; (y, m, d) = civil_of_days (l div 86400); s = l mod 86400
      in (if y < 0 then [45] else []) @ digits_of 10 (nat \<bar>y\<bar>) @ two_digits m @ two_digits d @ [32]
           @ two_digits (s div 3600) @ [58] @ two_digits ((s div 60) mod 60) @ [58] @ two_digits (s mod 60))"

section \<open>The File-Header packet\<close>

definition is_lower :: "byte \<Rightarrow> bool" where "is_lower c \<longleftrightarrow> 97 \<le> c \<and> c \<le> 122"
definition is_upper :: "byte \<Rightarrow> bool" where "is_upper c \<longleftrightarrow> 65 \<le> c \<and> c \<le> 90"
definition is_alnum :: "byte \<Rightarrow> bool" where
  "is_alnum c \<longleftrightarrow> is_lower c \<or> is_upper c \<or> is_digit 10 c"

definition common_form :: "byte \<Rightarrow> byte" where
  "common_form c = (if is_lower c then c - 32 else if is_alnum c then c else 95)"

text \<open>The last dot survives, and neither the first nor the last character is one.\<close>

definition robust_name :: "path \<Rightarrow> fault + path" where
  "robust_name name =
     (let d = map common_form name;
          d1 = (if 46 \<in> set name
                then d[length name - 1 - length (takeWhile (\<lambda>c. c \<noteq> 46) (rev name)) := 46] else d);
          d2 = (case d1 of [] \<Rightarrow> [] | c # cs \<Rightarrow> if c = 46 then cs else d1)
      in if d2 = [] then Inl Buffer_overflow
         else Inr (if last d2 = 46 then butlast d2 else d2))"

definition send_file_header :: "kermit \<Rightarrow> fault + kermit" where
  "send_file_header k =
     (case k_file_name k of
        None \<Rightarrow> Inl Null_pointer
      | Some name \<Rightarrow>
          bind_res (put_packet P_KFILE (int (sequence_number k mod 64)) name k) (\<lambda>k1.
          if kermit_robust_filename k1 then
            bind_res (robust_name name) (\<lambda>d.
              put_packet P_KFILE (int (sequence_number k mod 64)) d k1)
          else Inr k1))"

text \<open>The receiver: a name without lower case letters is taken for one in upper case.\<close>

definition k_to_lower :: "byte \<Rightarrow> byte" where
  "k_to_lower c = (if is_upper c then c + 32 else c)"

text \<open>Terminating the data with a zero, as all the functions that read it as text do.\<close>

definition terminate_data :: "kermit \<Rightarrow> fault + kermit" where
  "terminate_data k =
     (if data_max (input_packet k) \<le> length (kp_data (input_packet k)) then Inl Buffer_overflow
      else Inr k)"

definition process_file_header :: "kermit \<Rightarrow> fault + kermit" where
  "process_file_header k =
     bind_res (terminate_data k) (\<lambda>k.
       let d = kp_data (input_packet k);
           d1 = (if list_ex is_lower d then d else map k_to_lower d)
       in Inr (k\<lparr>input_packet := (input_packet k)\<lparr>kp_data := d1\<rparr>, k_file_name := Some (c_str d1),
                 k_file_size := 0, k_file_size_k := 0, file_protection := 0xFFFF,
                 k_file_modtime := -1\<rparr>))"

section \<open>The Attributes packet\<close>

definition attribute :: "byte \<Rightarrow> byte list \<Rightarrow> byte list" where
  "attribute c v = [c, kermit_tochar (of_nat (length v))] @ v"

text \<open>Only the lowest three bits of the protection, in another order.\<close>

definition kermit_protection :: "u32 \<Rightarrow> byte" where
  "kermit_protection p =
     (if p AND 1 \<noteq> 0 then 4 else 0) OR (if p AND 2 \<noteq> 0 then 2 else 0) OR (if p AND 4 \<noteq> 0 then 1 else 0)"

definition attributes_text :: "kermit \<Rightarrow> byte list" where
  "attributes_text k =
     (if text_mode k then attribute 0x22 [0x41] else attribute 0x22 [0x42, 0x38])
       @ attribute 0x31 (digits_of 10 (unat (k_file_size k)))
       @ attribute 0x23 (time_text (local_of_utc k) (k_file_modtime k))
       @ attribute 0x2C (digits_of 8 (unat (file_protection k AND 0x1FF)))
       @ attribute 0x2D [kermit_tochar (kermit_protection (file_protection k))]"

definition send_file_attributes :: "kermit \<Rightarrow> fault + kermit" where
  "send_file_attributes k =
     (let resend = (CAPAS (session_parms k) AND 0x10 \<noteq> 0 \<and> kermit_resend k) in
      bind_res (put_packet P_KATTRIBUTES (int (sequence_number k mod 64))
                  (attributes_text k @ (if resend then attribute 0x2B [0x52] else [])) k)
        (\<lambda>k1. Inr (if resend then k1\<lparr>do_resend := True\<rparr> else k1)))"

text \<open>\<open>atoi\<close> and \<open>strtol(s, NULL, 8)\<close>, assigned to an \<open>int\<close>.\<close>

definition atoi :: "cstring \<Rightarrow> int" where
  "atoi s = c_int (atol s)"

definition strtol_octal :: "cstring \<Rightarrow> int" where
  "strtol_octal s =
     (let (neg, ds) = scan_sign s; n = int (number_of 8 (takeWhile (is_digit 8) ds))
      in max (- (2 ^ 63)) (min (2 ^ 63 - 1) (if neg then - n else n)))"

text \<open>
  One attribute: its type, its value, and the byte at the start of the value, which is the byte
  behind it when the value is empty. The value of \<open>kermit_protection\<close> is passed on.
\<close>

definition process_date :: "byte list \<Rightarrow> kermit \<Rightarrow> fault + kermit" where
  "process_date v k =
     (let (ok, t) = try_formats time_formats (c_str v) tm_unset in
      if ok then bind_res (mktime (utc_of_local k) t) (\<lambda>m. Inr (k\<lparr>k_file_modtime := m\<rparr>))
      else Inr (k\<lparr>k_file_modtime := now (kworld k)\<rparr>))"

definition process_attribute :: "byte \<Rightarrow> byte list \<Rightarrow> byte \<Rightarrow> byte \<Rightarrow> kermit \<Rightarrow> fault + byte \<times> kermit" where
  "process_attribute c v first prot k =
     (if c = 0x21 then Inr (prot, k\<lparr>k_file_size_k := word_of_int (atoi (c_str v))\<rparr>)
      else if c = 0x22 then
        Inr (prot, if v \<noteq> [] \<and> hd v = 0x41 \<and> kermit_downloads_convert_text k
                   then k\<lparr>text_mode := True\<rparr> else k)
      else if c = 0x23 then bind_res (process_date v k) (\<lambda>k1. Inr (prot, k1))
      else if c = 0x29 then
        Inr (prot, if first = 0x4E then k\<lparr>k_access := K_ACCESS_NEW\<rparr>
                   else if first = 0x53 then k\<lparr>k_access := K_ACCESS_SUPERSEDE\<rparr>
                   else if first = 0x41 then k\<lparr>k_access := K_ACCESS_APPEND\<rparr>
                   else if first = 0x57 then k\<lparr>k_access := K_ACCESS_WARN\<rparr> else k)
      else if c = 0x2B then Inr (prot, if first = 0x52 then k\<lparr>do_resend := True\<rparr> else k)
      else if c = 0x2C then
        Inr (prot, k\<lparr>file_protection := word_of_int (c_int (strtol_octal (c_str v)))\<rparr>)
      else if c = 0x2D then Inr (kermit_unchar first, k)
      else if c = 0x31 then Inr (prot, k\<lparr>k_file_size := word_of_int (atoi (c_str v))\<rparr>)
      else Inr (prot, k))"

text \<open>The loop over the attributes: \<open>None\<close> instead of a protection when one was malformed.\<close>

function attributes_loop :: "byte list \<Rightarrow> byte \<Rightarrow> kermit \<Rightarrow> fault + byte option \<times> kermit" where
  "attributes_loop [] prot k = Inr (Some prot, k)"
| "attributes_loop [c] prot k =
     bind_res (k_fail ''ERROR PARSING ATTRIBUTE PACKET'' ''Error parsing packet'' k) (\<lambda>k1. Inr (None, k1))"
| "attributes_loop (c # l # rest) prot k =
     (let n = unat (kermit_unchar l) in
      if length rest < n then
        bind_res (k_fail ''ERROR PARSING PACKET'' ''Error parsing packet'' k) (\<lambda>k1. Inr (None, k1))
      else
        bind_res (process_attribute c (take n rest) (hd (rest @ [0])) prot k) (\<lambda>(prot1, k1).
          attributes_loop (drop n rest) prot1 k1))"
  by pat_completeness auto
termination by (relation "measure (\<lambda>(xs, prot, k). length xs)") auto

text \<open>The bits as the code tests them (octal 600, 44, 22, 111): the third test is for 1 again.\<close>

definition translated_protection :: "byte \<Rightarrow> u32" where
  "translated_protection prot =
     0x180 OR (if prot AND 1 \<noteq> 0 then 0x24 else 0) OR (if prot AND 2 \<noteq> 0 then 0x12 else 0)
       OR (if prot AND 1 \<noteq> 0 then 0x49 else 0)"

definition process_attributes :: "kermit \<Rightarrow> fault + bool \<times> kermit" where
  "process_attributes k =
     bind_res (terminate_data k) (\<lambda>k.
     bind_res (attributes_loop (kp_data (input_packet k)) 0 k) (\<lambda>(prot, k1).
       case prot of
         None \<Rightarrow> Inr (False, k1)
       | Some p \<Rightarrow>
           Inr (True, if file_protection k1 = 0xFFFF
                      then k1\<lparr>file_protection := translated_protection p\<rparr> else k1)))"

section \<open>Opening a download\<close>

definition k_set_fullname :: "byte list \<Rightarrow> kermit \<Rightarrow> fault + kermit" where
  "k_set_fullname suffix k =
     (case (k_download_path k, k_file_name k) of
        (Some dp, Some name) \<Rightarrow>
          (let full = dp @ [47] @ name @ suffix in
           if FILENAME_SIZE \<le> length full then Inl Buffer_overflow
           else Inr (k\<lparr>k_file_fullname := full\<rparr>))
      | _ \<Rightarrow> Inl Null_pointer)"

definition k_name_suffix :: "nat \<Rightarrow> byte list" where
  "k_name_suffix i = (let ds = digits_of 10 i in [46] @ replicate (4 - length ds) 48 @ ds)"

text \<open>The search for a name no file has (\<open>True\<close>), or one for which \<open>stat\<close> fails otherwise.\<close>

partial_function (option) k_free_name :: "nat \<Rightarrow> kermit \<Rightarrow> (fault + bool \<times> kermit) option" where
  "k_free_name i k =
     (case k_set_fullname (k_name_suffix i) k of
        Inl e \<Rightarrow> Some (Inl e)
      | Inr k1 \<Rightarrow>
          if disk (fsys (kworld k1)) (k_file_fullname k1) = None
          then Some (Inr (\<not> stat_refused (fsys (kworld k1)) (k_file_fullname k1), k1))
          else k_free_name (i + 1) k1)"

definition k_new_name :: "kermit \<Rightarrow> fault + bool \<times> kermit" where
  "k_new_name k = (case k_free_name 0 k of None \<Rightarrow> Inl Diverges | Some r \<Rightarrow> r)"

text \<open>
  What is decided from the name, the access attribute and the size: whether the file exists and is
  to be extended, or a new name is needed. \<open>n\<close> is the size of the file on the disk.
\<close>

definition existing_file :: "int \<Rightarrow> kermit \<Rightarrow> bool \<times> kermit" where
  "existing_file n k =
     (let file_size = (if 0 < k_file_size k then uint (k_file_size k)
                       else if 0 < k_file_size_k k then uint (k_file_size_k k * 1024) else 0) in
      case k_access k of
        K_ACCESS_NEW \<Rightarrow> (True, k)
      | K_ACCESS_SUPERSEDE \<Rightarrow> (True, k)
      | K_ACCESS_WARN \<Rightarrow> if do_resend k then (False, k\<lparr>k_file_position := n\<rparr>) else (True, k)
      | K_ACCESS_APPEND \<Rightarrow>
          if file_size < n then (True, k\<lparr>k_file_position := 0\<rparr>)
          else if 0 < file_size then (False, k_message ''APPEND'' (k\<lparr>k_file_position := n\<rparr>))
          else (False, k\<lparr>k_file_position := n\<rparr>))"

text \<open>The answer to an Attributes packet: \<open>Y\<close>, or how much of the file is there.\<close>

definition resend_answer :: "int \<Rightarrow> byte list" where
  "resend_answer pos =
     (let ds = digits_of 10 (nat (pos mod 2 ^ 64)) in [0x31, of_nat (length ds + 32)] @ ds)"

definition opened_download :: "bool \<Rightarrow> kermit \<Rightarrow> fault + bool \<times> kermit" where
  "opened_download exists k =
     (let p = k_file_fullname k; fs = fsys (kworld k) in
      case (if exists then fopen_rplus p fs else fopen_wb p fs) of
        None \<Rightarrow>
          bind_res (k_fail ''CANNOT CREATE FILE'' ''Disk I/O error: cannot create file'' k)
            (\<lambda>k1. Inr (False, k1))
      | Some f \<Rightarrow>
         (let k1 = k\<lparr>k_file_stream := Some (snd (fseek_end 0 f)),
                     kworld := (kworld k)\<lparr>fsys := if exists then fs else created p fs\<rparr>\<rparr> in
          bind_res
            (if kp_type (input_packet k1) = P_KATTRIBUTES then
               ack_packet_param (if do_resend k1 then resend_answer (k_file_position k1) else [0x59]) k1
             else Inr k1)
            (\<lambda>k2.
             let k3 = (if k_file_modtime k2 = -1 then k2\<lparr>k_file_modtime := now (kworld k2)\<rparr> else k2);
                 size = (if 0 < k_file_size_k k3 \<and> k_file_size k3 = 0
                         then sint (k_file_size_k k3 * 1024) else sint (k_file_size k3))
             in Inr (True, k_stats (\<lambda>t. t\<lparr>ts_bytes_transfer := word_of_int (k_file_position k3)\<rparr>)
                             (k_stats_new_file (k_file_fullname k3) size k3)))))"

definition open_receive_file :: "kermit \<Rightarrow> fault + bool \<times> kermit" where
  "open_receive_file k =
     (if k_file_stream k \<noteq> None then Inl Assert_failed
      else if do_resend k \<and> text_mode k then
        bind_res (ack_packet_param [0x4E, 0x2B] k) (\<lambda>k1. Inr (False, k1))
      else
        bind_res (k_set_fullname [] k) (\<lambda>k1.
          let fs = fsys (kworld k1); p = k_file_fullname k1 in
          case stat_size p fs of
            None \<Rightarrow>
              if stat_refused fs p then
                bind_res (k_fail ''DISK I/O ERROR'' ''Disk I/O error'' k1) (\<lambda>k2. Inr (False, k2))
              else opened_download False (k_message ''FILE HEADER'' (k1\<lparr>k_file_position := 0\<rparr>))
          | Some n \<Rightarrow>
             (let (need_new_file, k2) = existing_file n k1 in
              if \<not> need_new_file then opened_download True k2
              else bind_res (k_new_name k2) (\<lambda>(free, k3).
                if free then opened_download False (k3\<lparr>k_file_position := 0\<rparr>)
                else bind_res (k_fail ''DISK I/O ERROR'' ''Disk I/O error'' k3) (\<lambda>k4. Inr (False, k4))))))"

section \<open>Opening the next upload\<close>

text \<open>A file is a text when none of its first 1024 bytes has the high bit.\<close>

definition probe_text :: "kermit \<Rightarrow> cfile \<Rightarrow> bool \<times> cfile" where
  "probe_text k f =
     (if kermit_uploads_force_binary k then (False, f)
      else
       (let (bs, f1) = fread 1024 (fseek_set 0 f)
        in (list_all (\<lambda>b. b AND 0x80 = 0) bs, fseek_set 0 f1)))"

definition k_setup_for_next_file :: "kermit \<Rightarrow> fault + bool \<times> kermit" where
  "k_setup_for_next_file k =
     (let k1 = (k_fclose k)\<lparr>k_file_stream := None, k_file_name := None\<rparr> in
      case k_upload_file_list k1 of
        None \<Rightarrow> Inl Null_pointer
      | Some l \<Rightarrow>
         (if length l \<le> k_upload_file_list_i k1 then Inl Buffer_overflow
          else
           (let fi = l ! k_upload_file_list_i k1 in
            case fi_name fi of
              None \<Rightarrow>
                Inr (True, (k_stats (\<lambda>t. t\<lparr>ts_batch_bytes_transfer := ts_batch_bytes_total t\<rparr>) k1)
                             \<lparr>k_state := KM_SB\<rparr>)
            | Some p \<Rightarrow>
               (let k2 = k1\<lparr>k_file_modtime := fi_mtime fi, k_file_size := word_of_int (fi_size fi),
                            file_protection := fi_mode fi\<rparr> in
                case fopen_rb p (fsys (kworld k2)) of
                  None \<Rightarrow>
                    bind_res (k_fail ''DISK I/O ERROR'' ''Disk I/O error'' k2) (\<lambda>k3. Inr (False, k3))
                | Some f \<Rightarrow>
                   (let (text, f1) = probe_text k2 f;
                        k3 = (k_stats_new_file p (c_int (fi_size fi))
                                (k2\<lparr>k_file_stream := Some f1, text_mode := text,
                                    k_file_name := Some (basename p)\<rparr>))\<lparr>k_file_position := 0\<rparr>
                    in if k_state k3 = KM_ABORT then Inr (True, k3)
                       else bind_res (send_file_header
                              (k_message ''FILE HEADER''
                                (k_stats (\<lambda>t. t\<lparr>ts_state := Q_TRANSFER_STATE_TRANSFER\<rparr>) k3)))
                            (\<lambda>k4. Inr (True, k4\<lparr>k_state := KM_SF\<rparr>)))))))"

end
