(* ===== verification/Kermit_Window.thy ===== *)
theory Kermit_Window
  imports Kermit_File
begin

text \<open>
  The sliding windows of \<open>kermit.c\<close>: two rings of slots, each with the index of its first slot, the
  index behind its last one and the number of slots in use. A ring holds as many slots as
  \<open>WINDO_in\<close> or \<open>WINDO_out\<close> says.
\<close>

section \<open>Rings\<close>

text \<open>
  The indices a loop \<open>i = b; do { ...; i++; i %= n; } while (i != stop)\<close> visits, \<open>b\<close> and \<open>stop\<close>
  below \<open>n\<close>.
\<close>

definition ring :: "nat \<Rightarrow> nat \<Rightarrow> nat \<Rightarrow> nat list" where
  "ring n b stop =
     (if n = 0 then []
      else let d = (stop + n - b) mod n in map (\<lambda>j. (b + j) mod n) [0..<if d = 0 then n else d])"

definition slot_at :: "kermit_slot list \<Rightarrow> nat \<Rightarrow> fault + kermit_slot" where
  "slot_at w i = (if i < length w then Inr (w ! i) else Inl Buffer_overflow)"

definition set_slot :: "nat \<Rightarrow> kermit_slot \<Rightarrow> kermit_slot list \<Rightarrow> fault + kermit_slot list" where
  "set_slot i s w = (if i < length w then Inr (w[i := s]) else Inl Buffer_overflow)"

text \<open>The first slot of the ring that was not acknowledged.\<close>

definition first_unacked :: "kermit_slot list \<Rightarrow> nat list \<Rightarrow> nat option" where
  "first_unacked w is = find (\<lambda>i. \<not> acked (w ! i)) is"

section \<open>The input window\<close>

definition size_in :: "kermit \<Rightarrow> nat" where
  "size_in k = WINDO_in (session_parms k)"

definition input_ring :: "kermit \<Rightarrow> nat list" where
  "input_ring k = ring (size_in k) (input_window_begin k) (input_window_i k)"

text \<open>The slot before \<open>input_window_i\<close>; \<open>wrap\<close> is what the code takes for the size of the ring.\<close>

definition last_input_slot :: "nat \<Rightarrow> kermit \<Rightarrow> fault + kermit_slot" where
  "last_input_slot wrap k =
     slot_at (input_window k) (if input_window_i k = 0 then wrap - 1 else input_window_i k - 1)"

definition window_next_packet_seq :: "int \<Rightarrow> kermit \<Rightarrow> fault + bool" where
  "window_next_packet_seq seq k =
     (if input_window_n k = 0 then Inr True
      else bind_res (last_input_slot (size_in k) k) (\<lambda>s. Inr (seq = (sl_seq s + 1) mod 64)))"

text \<open>The packet at the beginning of the window goes into the file.\<close>

definition save_first_packet :: "kermit \<Rightarrow> fault + kermit" where
  "save_first_packet k =
     bind_res (slot_at (input_window k) (input_window_begin k)) (\<lambda>s.
       case (sl_data s, k_file_stream k) of
         (Some d, Some f) \<Rightarrow>
           (let k1 = k\<lparr>k_file_stream := Some (snd (fwrite d f)),
                       k_file_position := k_file_position k + int (length d)\<rparr>
            in k_stats_increment_blocks
                 (k_stats (\<lambda>t. t\<lparr>ts_bytes_transfer := word_of_int (k_file_position k1)\<rparr>) k1))
       | _ \<Rightarrow> Inl Null_pointer)"

definition save_data_packet :: "kermit \<Rightarrow> fault + kermit" where
  "save_data_packet k =
     bind_res (slot_at (input_window k) (input_window_begin k)) (\<lambda>s.
       if sl_type s = P_KDATA then save_first_packet k else Inr k)"

definition roll_off_input :: "kermit \<Rightarrow> fault + kermit" where
  "roll_off_input k =
     bind_res (slot_at (input_window k) (input_window_begin k)) (\<lambda>s.
     bind_res (set_slot (input_window_begin k) (s\<lparr>sl_data := None\<rparr>) (input_window k)) (\<lambda>w.
       Inr (k\<lparr>input_window := w,
              input_window_begin := (input_window_begin k + 1) mod size_in k,
              input_window_n := input_window_n k - 1\<rparr>)))"

text \<open>A slot behind the last one; its data must be NULL.\<close>

definition append_slot :: "kermit_slot \<Rightarrow> kermit \<Rightarrow> fault + kermit" where
  "append_slot s k =
     bind_res (slot_at (input_window k) (input_window_i k)) (\<lambda>old.
       if sl_data old \<noteq> None then Inl Assert_failed
       else bind_res (set_slot (input_window_i k) s (input_window k)) (\<lambda>w.
         Inr (k\<lparr>input_window := w, input_window_i := (input_window_i k + 1) mod size_in k,
                input_window_n := input_window_n k + 1\<rparr>)))"

function window_save_all :: "kermit \<Rightarrow> fault + bool \<times> kermit" where
  "window_save_all k =
     (if input_window_n k = 0 then Inr (True, k)
      else
       (case slot_at (input_window k) (input_window_begin k) of
          Inl e \<Rightarrow> Inl e
        | Inr s \<Rightarrow>
            if \<not> acked s then Inr (False, k)
            else
             (case save_data_packet k of
                Inl e \<Rightarrow> Inl e
              | Inr k1 \<Rightarrow>
                 (case roll_off_input k1 of
                    Inl e \<Rightarrow> Inl e
                  | Inr k2 \<Rightarrow> window_save_all k2))))"
  by pat_completeness auto

lemma stats_increment_blocks_window [simp]:
  "k_stats_increment_blocks k = Inr k1 \<Longrightarrow> input_window_n k1 = input_window_n k"
  by (auto simp: k_stats_increment_blocks_def k_stats_def Let_def split: if_splits)

lemma save_data_packet_window: "save_data_packet k = Inr k1 \<Longrightarrow> input_window_n k1 = input_window_n k"
  by (auto simp: save_data_packet_def save_first_packet_def bind_res_Inr Let_def k_stats_def
      split: option.splits if_splits dest!: stats_increment_blocks_window)

lemma roll_off_window: "roll_off_input k = Inr k1 \<Longrightarrow> input_window_n k1 = input_window_n k - 1"
  by (auto simp: roll_off_input_def bind_res_Inr)

termination window_save_all
proof (relation "measure input_window_n", goal_cases)
  case (2 k s k1 k2)
  then show ?case using save_data_packet_window [of k k1] roll_off_window [of k1 k2] by simp
qed simp

section \<open>Negative acknowledgements\<close>

text \<open>Which packet is asked for.\<close>

definition nak_seq :: "kermit \<Rightarrow> fault + int" where
  "nak_seq k =
     bind_res
       (if 0 < input_window_n k then
          (case first_unacked (input_window k) (input_ring k) of
             Some i \<Rightarrow> Inr (sl_seq (input_window k ! i))
           | None \<Rightarrow>
               bind_res (last_input_slot (input_window_n k) k) (\<lambda>s. Inr (sl_seq s + 1)))
        else Inr (int (sequence_number k) + 1))
       (\<lambda>seq. Inr (if sequence_number k = 0 \<and> kp_seq (input_packet k) = 0 then 0 else seq))"

text \<open>
  With windows, a full window whose first slot is acknowledged rolls on, and a slot that waits for
  the packet is added.
\<close>

definition nak_window :: "kermit \<Rightarrow> fault + kermit" where
  "nak_window k =
     bind_res (window_next_packet_seq (kp_seq (input_packet k)) k) (\<lambda>next.
     if \<not> next then Inr k
     else bind_res (slot_at (input_window k) (input_window_begin k)) (\<lambda>s.
       if input_window_n k = size_in k \<and> \<not> acked s then
         Inr (k\<lparr>output_packet := (output_packet k)\<lparr>parsed_ok := False\<rparr>\<rparr>)
       else if size_in k = 0 then Inl Assert_failed
       else if acked s \<and> input_window_n k = size_in k then
         bind_res (save_data_packet k) (\<lambda>k1.
         bind_res (roll_off_input k1) (\<lambda>k2.
           append_slot \<lparr>sl_seq = kp_seq (input_packet k2), try_count = 1, acked = False,
                        sl_type = kp_type (input_packet k2), sl_data = None\<rparr> k2))
       else Inr k))"

definition nak_packet :: "kermit \<Rightarrow> fault + kermit" where
  "nak_packet k =
     (if k_sending k then Inl Assert_failed
      else
        bind_res (nak_seq k) (\<lambda>seq.
        bind_res (put_packet P_KNAK seq [] k) (\<lambda>k1.
          let k2 = k_stats_increment_errors (MsgN ''NAK - SEQ %u'' (word_of_int seq)) k1
          in if windowing (session_parms k2) then nak_window k2 else Inr k2)))"

section \<open>Where a packet goes\<close>

text \<open>Case 2 of the protocol: the packet is further ahead, so that one was lost.\<close>

definition packet_was_lost :: "int \<Rightarrow> int \<Rightarrow> int \<Rightarrow> bool" where
  "packet_was_lost seq seq_end seq_end_ws \<longleftrightarrow>
     seq_end + 2 < seq_end_ws \<and> seq_end + 2 \<le> seq \<and> seq \<le> seq_end_ws
     \<or> seq_end_ws < seq_end + 2 \<and> (seq_end + 2 \<le> seq \<or> seq \<le> seq_end_ws)"

text \<open>Slots for the packets up to \<open>seq\<close>, which keep the type and the count of what was there.\<close>

function make_gaps :: "int \<Rightarrow> int \<Rightarrow> kermit \<Rightarrow> fault + kermit" where
  "make_gaps seq_end seq k =
     (if seq_end \<noteq> seq \<and> input_window_n k < size_in k then
       (case slot_at (input_window k) (input_window_i k) of
          Inl e \<Rightarrow> Inl e
        | Inr s \<Rightarrow>
           (case append_slot (s\<lparr>sl_seq := seq_end, acked := False, sl_data := None\<rparr>) k of
              Inl e \<Rightarrow> Inl e
            | Inr k1 \<Rightarrow> make_gaps ((seq_end + 1) mod 64) seq k1))
      else Inr k)"
  by pat_completeness auto

lemma append_slot_window:
  "append_slot s k = Inr k1 \<Longrightarrow> input_window_n k1 = input_window_n k + 1 \<and> session_parms k1 = session_parms k"
  by (auto simp: append_slot_def bind_res_Inr split: if_splits)

termination make_gaps
  by (relation "measure (\<lambda>(e, s, k). size_in k - input_window_n k)")
    (auto dest: append_slot_window simp: size_in_def)

definition lost_packet :: "int \<Rightarrow> kermit \<Rightarrow> fault + kermit" where
  "lost_packet seq_end k =
     (let seq = kp_seq (input_packet k) in
      bind_res (nak_packet (k\<lparr>input_packet := (input_packet k)\<lparr>kp_seq := (seq_end + 1) mod 64\<rparr>\<rparr>)) (\<lambda>k1.
      bind_res (window_save_all (k1\<lparr>input_packet := (input_packet k1)\<lparr>kp_seq := seq\<rparr>\<rparr>)) (\<lambda>(_, k2).
      bind_res (last_input_slot (size_in k2) k2) (\<lambda>s.
      bind_res (make_gaps ((sl_seq s + 1) mod 64) seq k2) (\<lambda>k3.
        if input_window_n k3 < size_in k3 then
          bind_res (slot_at (input_window k3) (input_window_i k3)) (\<lambda>old.
            append_slot (old\<lparr>sl_seq := seq, sl_type := kp_type (input_packet k3), acked := True,
                             sl_data := Some (kp_data (input_packet k3))\<rparr>) k3)
        else Inr k3)))))"

text \<open>Case 1: the next packet; the first one of the window is written before it may roll off.\<close>

definition next_packet :: "kermit \<Rightarrow> fault + nat option \<times> kermit" where
  "next_packet k =
     bind_res (slot_at (input_window k) (input_window_begin k)) (\<lambda>s.
     bind_res (if sl_type s = P_KDATA \<and> acked s then save_first_packet k else Inr k) (\<lambda>k1.
     bind_res (if acked s \<and> input_window_n k1 = size_in k1 then roll_off_input k1 else Inr k1) (\<lambda>k2.
       Inr (Some (input_window_i k2), k2))))"

definition find_input_slot :: "kermit \<Rightarrow> fault + nat option \<times> kermit" where
  "find_input_slot k =
     (if \<not> parsed_ok (input_packet k) then Inl Assert_failed
      else if input_window_n k = 0 then Inr (Some (input_window_i k), k)
      else
        bind_res (last_input_slot (size_in k) k) (\<lambda>s.
          let seq = kp_seq (input_packet k);
              seq_end = sl_seq s;
              seq_end_ws = (seq_end + int (size_in k)) mod 64
          in if seq = (seq_end + 1) mod 64 then next_packet k
             else if packet_was_lost seq seq_end seq_end_ws then
               bind_res (lost_packet seq_end k) (\<lambda>k1. Inr (None, k1))
             else Inr (find (\<lambda>i. sl_seq (input_window k ! i) = seq) (input_ring k), k)))"

definition input_slot :: "kermit \<Rightarrow> kermit_slot" where
  "input_slot k =
     \<lparr>sl_seq = kp_seq (input_packet k), try_count = 0, acked = True, sl_type = kp_type (input_packet k),
      sl_data = Some (kp_data (input_packet k))\<rparr>"

definition save_input_packet :: "kermit \<Rightarrow> fault + kermit" where
  "save_input_packet k =
     (if \<not> parsed_ok (input_packet k) \<or> k_sending k then Inr k
      else
        bind_res (find_input_slot k) (\<lambda>(slot, k1).
          case slot of
            None \<Rightarrow> Inr (k1\<lparr>input_packet := (input_packet k1)\<lparr>parsed_ok := False\<rparr>\<rparr>)
          | Some i \<Rightarrow>
              bind_res (set_slot i (input_slot k1) (input_window k1)) (\<lambda>w.
                let k2 = k1\<lparr>input_window := w\<rparr> in
                if input_window_n k2 = size_in k2 \<and> input_window_i k2 \<noteq> input_window_begin k2
                then Inl Assert_failed
                else if i \<noteq> input_window_i k2 then Inr k2
                else if input_window_n k2 < size_in k2 then
                  Inr (k2\<lparr>input_window_n := input_window_n k2 + 1,
                          input_window_i := (input_window_i k2 + 1) mod size_in k2,
                          sequence_number := sequence_number k2 + 1\<rparr>)
                else if i \<noteq> input_window_begin k2 then Inl Assert_failed
                else Inr (k2\<lparr>sequence_number := sequence_number k2 + 1\<rparr>))))"

section \<open>The output window\<close>

definition size_out :: "kermit \<Rightarrow> nat" where
  "size_out k = WINDO_out (session_parms k)"

definition output_ring :: "kermit \<Rightarrow> nat list" where
  "output_ring k = ring (size_out k) (output_window_begin k) (output_window_i k)"

definition find_output_slot :: "kermit \<Rightarrow> fault + nat option" where
  "find_output_slot k =
     (if \<not> parsed_ok (input_packet k) then Inl Assert_failed
      else
       (let seq = kp_seq (input_packet k) in
        if 1 < output_window_n k then
          Inr (find (\<lambda>i. sl_seq (output_window k ! i) = seq) (output_ring k))
        else if output_window_n k = 1 then
          bind_res (slot_at (output_window k) (output_window_begin k)) (\<lambda>s.
            Inr (if sl_seq s = seq then Some (output_window_begin k) else None))
        else Inr None))"

text \<open>The bytes of a slot are sent once more.\<close>

definition put_output :: "byte list \<Rightarrow> kermit \<Rightarrow> fault + kermit" where
  "put_output bs k =
     (if k_out_max k < length (k_out k) + length bs then Inl Buffer_overflow
      else Inr (k\<lparr>k_out := k_out k @ bs\<rparr>))"

definition resend_slot :: "nat \<Rightarrow> kermit \<Rightarrow> fault + kermit" where
  "resend_slot i k =
     bind_res (slot_at (output_window k) i) (\<lambda>s.
     bind_res (put_output (case sl_data s of None \<Rightarrow> [] | Some d \<Rightarrow> d) k) (\<lambda>k1.
     bind_res (set_slot i (s\<lparr>try_count := try_count s + 1\<rparr>) (output_window k1)) (\<lambda>w.
       Inr (k1\<lparr>output_window := w\<rparr>))))"

text \<open>
  A NAK for the packet after the last one sent: everything in the window counts as received, and
  the NAK becomes an acknowledgement.
\<close>

definition clear_output_window :: "kermit \<Rightarrow> fault + kermit" where
  "clear_output_window k =
     (if \<exists>i\<in>set (output_ring k). 0 < output_window_n k \<and> sl_data (output_window k ! i) = None
      then Inl Assert_failed
      else Inr (k\<lparr>output_window :=
                    (if 0 < output_window_n k
                     then fold (\<lambda>i w. w[i := (w ! i)\<lparr>sl_data := None\<rparr>]) (output_ring k) (output_window k)
                     else output_window k),
                  output_window_n :=
                    (if 0 < output_window_n k then output_window_n k - length (output_ring k) else 0),
                  output_window_i := 0, output_window_begin := 0,
                  input_packet := (input_packet k)\<lparr>kp_type := P_KACK,
                     kp_seq := int (sequence_number k mod 64), kp_data := []\<rparr>\<rparr>))"

definition answer_repeat :: "nat \<Rightarrow> kermit \<Rightarrow> fault + kermit" where
  "answer_repeat i k =
     bind_res (resend_slot i k) (\<lambda>k1. Inr (k1\<lparr>input_packet := (input_packet k1)\<lparr>parsed_ok := False\<rparr>\<rparr>))"

definition check_for_repeat :: "kermit \<Rightarrow> fault + kermit" where
  "check_for_repeat k =
     (let p = input_packet k in
      if \<not> parsed_ok p then Inr k
      else if streaming (session_parms k) \<and> k_state k \<in> {KM_RDW, KM_SDW} then Inr k
      else
        bind_res (find_output_slot k) (\<lambda>found.
          case found of
            None \<Rightarrow>
              if k_sending k \<and> kp_seq p = int ((sequence_number k + 1) mod 64) \<and> kp_type p = P_KNAK
              then clear_output_window k else Inr k
          | Some i \<Rightarrow>
              if \<not> k_sending k then answer_repeat i k
              else if kp_type p = P_KACK then
                bind_res (slot_at (output_window k) i) (\<lambda>s.
                bind_res (set_slot i (s\<lparr>acked := True\<rparr>) (output_window k)) (\<lambda>w.
                  Inr (k\<lparr>output_window := w\<rparr>)))
              else if kp_type p = P_KNAK then
                answer_repeat i
                  (k_stats_increment_errors (MsgN ''NAK - SEQ %u'' (word_of_int (kp_seq p))) k)
              else
                bind_res (k_fail ''PACKET SEQUENCE ERROR'' ''Wrong packet in sequence'' k) (\<lambda>k1.
                  Inr (k1\<lparr>input_packet := (input_packet k1)\<lparr>parsed_ok := False\<rparr>\<rparr>))))"

text \<open>The sender forgets the acknowledged packets at the beginning of its window.\<close>

function move_output_window :: "kermit \<Rightarrow> fault + kermit" where
  "move_output_window k =
     (if output_window_n k = 0 then Inr k
      else
       (case slot_at (output_window k) (output_window_begin k) of
          Inl e \<Rightarrow> Inl e
        | Inr s \<Rightarrow>
            if \<not> acked s then Inr k
            else move_output_window
              (k\<lparr>output_window_n := output_window_n k - 1,
                 output_window := (output_window k)[output_window_begin k := s\<lparr>sl_data := None\<rparr>],
                 output_window_begin := (output_window_begin k + 1) mod size_out k\<rparr>)))"
  by pat_completeness auto
termination by (relation "measure output_window_n") auto

definition move_windows :: "kermit \<Rightarrow> fault + kermit" where
  "move_windows k = (if k_sending k then move_output_window k else Inr k)"

section \<open>Timeouts\<close>

text \<open>
  The receiver asks again for a packet. When nothing is missing in its window it looks at the slot
  before \<open>input_window_i\<close>, but wraps around to the index behind the last slot.
\<close>

definition handle_timeout :: "kermit \<Rightarrow> fault + kermit" where
  "handle_timeout k =
     (if \<not> k_sending k then
        bind_res
          (if 0 < input_window_n k then
             (case first_unacked (input_window k) (input_ring k) of
                Some i \<Rightarrow> Inr (sl_seq (input_window k ! i))
              | None \<Rightarrow>
                  bind_res (slot_at (input_window k)
                      (if input_window_i k = 0 then size_in k else input_window_i k - 1))
                    (\<lambda>s. Inr (sl_seq s)))
           else Inr (int (sequence_number k)))
          (\<lambda>seq. nak_packet (k\<lparr>input_packet := (input_packet k)\<lparr>kp_seq := seq\<rparr>\<rparr>))
      else if windowing (session_parms k) \<and> 0 < output_window_n k then
        (case first_unacked (output_window k) (output_ring k) of
           Some i \<Rightarrow> resend_slot i k
         | None \<Rightarrow> Inl Abort_called)
      else Inr k)"

end
