(* ===== verification/Kermit_Packet.thy ===== *)
theory Kermit_Packet
  imports Kermit_Window
begin

text \<open>
  The packet layer of \<open>kermit.c\<close>: Send-Init and its negotiation, the packets without data, and the
  two functions that turn packets into bytes and bytes into packets.
\<close>

section \<open>Send-Init\<close>

text \<open>The bare defaults a Send-Init packet starts from.\<close>

definition bare_parameters :: session_parameters where
  "bare_parameters =
     zero_parameters\<lparr>MARK := C_SOH, MAXL := 80, TIME := 5, EOL := C_CR, QCTL := 0x23, QBIN := 0x20,
        CHKT := 0x31, REPT := 0x20, WINDO_in := 1, WINDO_out := 1\<rparr>"

text \<open>The number of capability bytes: the last one has its lowest bit clear.\<close>

fun capas_length :: "byte list \<Rightarrow> nat" where
  "capas_length [] = 0"
| "capas_length (c # cs) = (if kermit_unchar c AND 1 = 0 then 1 else 1 + capas_length cs)"

text \<open>The \<open>i\<close>th byte of the packet, unless it is missing or a space.\<close>

definition init_byte :: "nat \<Rightarrow> byte list \<Rightarrow> byte option" where
  "init_byte i d = (if i < length d \<and> d ! i \<noteq> 32 then Some (d ! i) else None)"

definition init_field :: "byte list \<Rightarrow> nat \<Rightarrow> (byte \<Rightarrow> byte) \<Rightarrow> byte \<Rightarrow> byte" where
  "init_field d i f old = (case init_byte i d of None \<Rightarrow> old | Some b \<Rightarrow> f b)"

definition basic_parameters :: "byte list \<Rightarrow> session_parameters" where
  "basic_parameters d =
     (let p = bare_parameters in
      p\<lparr>MAXL := init_field d 0 kermit_unchar (MAXL p), TIME := init_field d 1 kermit_unchar (TIME p),
        NPAD := init_field d 2 kermit_unchar (NPAD p), PADC := init_field d 3 kermit_ctl (PADC p),
        EOL := init_field d 4 kermit_unchar (EOL p), QCTL := init_field d 5 id (QCTL p),
        QBIN := init_field d 6 id (QBIN p), CHKT := init_field d 7 id (CHKT p),
        REPT := init_field d 8 id (REPT p)\<rparr>)"

text \<open>The capabilities and what follows them; four checkpoint bytes are passed over.\<close>

definition with_capabilities :: "byte list \<Rightarrow> session_parameters \<Rightarrow> session_parameters" where
  "with_capabilities d p =
     (if length d < 10 then p
      else
       (let capas = kermit_unchar (d ! 9);
            rest = drop (9 + capas_length (drop 9 d)) d;
            byte = (\<lambda>i old. if i < length rest then kermit_unchar (rest ! i) else old)
        in p\<lparr>CAPAS := capas, attributes := (capas AND 0x08 \<noteq> 0), windowing := (capas AND 0x04 \<noteq> 0),
             long_packets := (capas AND 0x02 \<noteq> 0),
             WINDO := byte 0 (WINDO p), MAXLX1 := byte 1 (MAXLX1 p), MAXLX2 := byte 2 (MAXLX2 p),
             streaming := (byte 7 0 AND 0x08 \<noteq> 0)\<rparr>))"

definition with_long_length :: "session_parameters \<Rightarrow> session_parameters" where
  "with_long_length p =
     (if long_packets p then
       (let p1 = (if MAXLX1 p = 0 \<and> MAXLX2 p = 0
                  then p\<lparr>MAXLX1 := of_nat (500 div 95), MAXLX2 := of_nat (500 mod 95)\<rparr> else p)
        in if KERMIT_BLOCK_SIZE < unat (MAXLX1 p1) * 95 + unat (MAXLX2 p1)
           then p1\<lparr>MAXLX1 := of_nat (KERMIT_BLOCK_SIZE div 95), MAXLX2 := of_nat (KERMIT_BLOCK_SIZE mod 95)\<rparr>
           else p1)
      else p)"

definition process_send_init :: "kermit \<Rightarrow> bool \<times> kermit" where
  "process_send_init k =
     (let d = kp_data (input_packet k); p = basic_parameters d in
      if 94 < MAXL p then (False, k)
      else (True, k\<lparr>remote_parms := with_long_length (with_capabilities d p)\<rparr>))"

definition send_init_data :: "kermit \<Rightarrow> byte list" where
  "send_init_data k =
     (let l = local_parms k; s = session_parms k in
      [kermit_tochar (MAXL s), kermit_tochar (TIME s), kermit_tochar (NPAD l), kermit_ctl (PADC l),
       kermit_tochar (EOL l), QCTL l, QBIN s, CHKT s, REPT s, kermit_tochar (CAPAS s),
       kermit_tochar (WINDO s), kermit_tochar (MAXLX1 s), kermit_tochar (MAXLX2 s),
       0x30, 0x5F, 0x5F, 0x5F, kermit_tochar (WHATAMI s)])"

definition ack_send_init :: "kermit \<Rightarrow> fault + kermit" where
  "ack_send_init k = put_packet P_KACK 0 (send_init_data k) (k\<lparr>sequence_number := 0\<rparr>)"

section \<open>Negotiation\<close>

definition valid_prefix :: "byte \<Rightarrow> bool" where
  "valid_prefix b \<longleftrightarrow> 33 \<le> b \<and> b \<le> 62 \<or> 96 \<le> b \<and> b \<le> 126"

text \<open>\<open>Y\<close> is 0x59, \<open>N\<close> 0x4E, \<open>B\<close> 0x42.\<close>

definition negotiate_qbin :: "session_parameters \<Rightarrow> session_parameters \<Rightarrow> byte \<Rightarrow> byte" where
  "negotiate_qbin l r old =
     (let q = (if QBIN r = 0x59 then (if valid_prefix (QBIN l) then QBIN l else old)
               else if QBIN r = 0x4E then 32
               else if valid_prefix (QBIN r) then QBIN r else old);
          q1 = (if q = 0x59 then 32 else q)
      in if QBIN r = QCTL l then 32 else q1)"

definition negotiate_rept :: "session_parameters \<Rightarrow> session_parameters \<Rightarrow> byte \<Rightarrow> byte" where
  "negotiate_rept l r qbin =
     (if REPT r = QCTL l \<or> REPT r = qbin then 32 else if REPT l = REPT r then REPT r else 32)"

definition negotiate_basic ::
    "session_parameters \<Rightarrow> session_parameters \<Rightarrow> session_parameters \<Rightarrow> session_parameters" where
  "negotiate_basic l r s =
     (let qbin = negotiate_qbin l r (QBIN s) in
      s\<lparr>MAXL := (if MAXL l < MAXL r then MAXL l else MAXL r), TIME := TIME l, NPAD := NPAD r,
        PADC := PADC r, EOL := EOL r, QCTL := QCTL l, QBIN := qbin,
        CHKT := (if CHKT l = CHKT r then CHKT r else 0x31), REPT := negotiate_rept l r qbin\<rparr>)"

definition negotiate_capabilities ::
    "session_parameters \<Rightarrow> session_parameters \<Rightarrow> session_parameters \<Rightarrow> session_parameters" where
  "negotiate_capabilities l r s =
     (let same = (attributes l = attributes r);
          long = (long_packets l = long_packets r \<and> long_packets l);
          stream = (streaming l = streaming r \<and> streaming l)
      in s\<lparr>attributes := (same \<and> attributes l),
           CAPAS := (if same then 0x10 OR 0x08 else 0) OR (if long then 0x02 else 0),
           long_packets := long, streaming := stream,
           WHATAMI := (if streaming l \<noteq> streaming r then 0 else if stream then 0x28 else WHATAMI s)\<rparr>)"

text \<open>
  The windows. One of a single slot is turned off first and on again below; streaming turns
  windows off.
\<close>

definition negotiate_window ::
    "session_parameters \<Rightarrow> session_parameters \<Rightarrow> session_parameters \<Rightarrow> session_parameters" where
  "negotiate_window l r s =
     (if windowing l \<noteq> windowing r then s\<lparr>windowing := False\<rparr>
      else
       (let w = (if WINDO r < WINDO l then WINDO r else WINDO l);
            s1 = (if w < 2 then s\<lparr>WINDO := 0, windowing := False, WINDO_out := 1\<rparr>
                  else s\<lparr>WINDO := w, WINDO_in := unat w, WINDO_out := unat w\<rparr>);
            s2 = (if streaming s1 then s1\<lparr>windowing := False\<rparr>
                  else s1\<lparr>windowing := windowing l,
                          CAPAS := CAPAS s1 OR (if windowing l then 0x04 else 0)\<rparr>)
        in if windowing s2 then s2 else s2\<lparr>WINDO_in := 1, WINDO_out := 1\<rparr>))"

definition negotiate_send_init :: "kermit \<Rightarrow> fault + kermit" where
  "negotiate_send_init k =
     (let l = local_parms k; r = remote_parms k;
          s = negotiate_window l r (negotiate_capabilities l r (negotiate_basic l r (session_parms k)));
          k1 = k\<lparr>session_parms := s,
                 check_type := (if CHKT s = 0x42 then 12 else uint (CHKT s) - 48),
                 do_resend := (do_resend k \<or> CAPAS s AND 0x10 \<noteq> 0)\<rparr>
      in if windowing s then
          (if input_window k = [] \<or> output_window k = [] then Inl Assert_failed
           else Inr (k1\<lparr>input_window := replicate (WINDO_in s) zero_slot,
                        output_window := replicate (WINDO_out s) zero_slot,
                        input_window_n := 0, input_window_i := 0, input_window_begin := 0\<rparr>))
         else Inr k1)"

section \<open>Other packets\<close>

definition process_error_packet :: "kermit \<Rightarrow> fault + kermit" where
  "process_error_packet k =
     bind_res (terminate_data k) (\<lambda>k.
       Inr (k_stop_file_transfer Q_TRANSFER_STATE_ABORT
              (k_message (map (\<lambda>b. char_of (unat b)) (c_str (kp_data (input_packet k))))
                (k\<lparr>k_state := KM_ABORT\<rparr>))))"

definition send_file_data :: "kermit \<Rightarrow> fault + bool \<times> kermit" where
  "send_file_data k =
     (case k_file_stream k of
        None \<Rightarrow> Inl Null_pointer
      | Some f \<Rightarrow>
          if f_eof f then Inr (False, k)
          else bind_res (put_packet P_KDATA (int (sequence_number k mod 64)) [] k) (\<lambda>k1. Inr (True, k1)))"

definition send_eof :: "kermit \<Rightarrow> fault + kermit" where
  "send_eof k =
     put_packet P_KEOF (int (sequence_number k mod 64)) (if skip_file k then [0x44] else [])
       (k\<lparr>skip_file := False\<rparr>)"

definition send_eot :: "kermit \<Rightarrow> fault + kermit" where
  "send_eot k = put_packet P_KBREAK (int (sequence_number k mod 64)) [] k"

section \<open>The check of a packet\<close>

definition check_length :: "int \<Rightarrow> nat" where
  "check_length ct = (if ct = 12 then 2 else nat ct)"

definition check_bytes :: "bool \<Rightarrow> u16 list \<Rightarrow> int \<Rightarrow> byte list \<Rightarrow> byte list" where
  "check_bytes seven tab ct bs =
     (let c2 = compute_checksum2 seven bs;
          crc = k_compute_crc16 seven tab bs;
          six = (\<lambda>x :: u16. ucast (x AND 0x3F) :: byte)
      in if ct = 1 then [kermit_tochar (compute_checksum seven bs)]
         else if ct = 2 then [kermit_tochar (six (drop_bit 6 c2)), kermit_tochar (six c2)]
         else if ct = 12 then [kermit_tochar (six (drop_bit 6 c2) + 1), kermit_tochar (six c2 + 1)]
         else if ct = 3 then
           [kermit_tochar (ucast (drop_bit 12 crc AND 0x0F)), kermit_tochar (six (drop_bit 6 crc)),
            kermit_tochar (six crc)]
         else [])"

text \<open>
  How a check is tested: against the numbers the characters stand for. An unknown type has no
  check.
\<close>

definition check_matches :: "bool \<Rightarrow> u16 list \<Rightarrow> int \<Rightarrow> byte list \<Rightarrow> byte list \<Rightarrow> bool" where
  "check_matches seven tab ct bs cs =
     (let num = (\<lambda>i. ucast (kermit_unchar (cs ! i)) :: u32)
      in if ct = 1 then kermit_tochar (compute_checksum seven bs) = cs ! 0
         else if ct = 2 then ucast (compute_checksum2 seven bs) = push_bit 6 (num 0) OR num 1
         else if ct = 12 then
           ucast (compute_checksum2 seven bs) = push_bit 6 (num 0 - 1) OR (num 1 - 1)
         else if ct = 3 then
           ucast (k_compute_crc16 seven tab bs)
             = push_bit 12 (num 0) OR push_bit 6 (num 1) OR num 2
         else True)"

section \<open>From a packet to bytes\<close>

definition output_check_type :: "kermit \<Rightarrow> int" where
  "output_check_type k =
     (case kp_type (output_packet k) of
        P_KSINIT \<Rightarrow> 1
      | P_KNAK \<Rightarrow> 1
      | P_KACK \<Rightarrow> if sequence_number k = 0 then 1 else check_type k
      | _ \<Rightarrow> check_type k)"

definition encode_call_of :: "kermit \<Rightarrow> encode_call" where
  "encode_call_of k =
     (let s = session_parms k; p = output_packet k;
          long_max = (ucast (MAXLX1 s) * 95 + ucast (MAXLX2 s) - 9 :: u32)
      in \<lparr>g_quoting = \<lparr>q_rept = REPT s, q_bin = QBIN s, q_ctl = QCTL (local_parms k)\<rparr>,
          g_b_check = (check_type k = 12),
          g_room = (if long_packet p then long_max else ucast (MAXL s)) - 5,
          g_text_room = ucast (MAXL s) - 5 - 2,
          g_text = text_mode k,
          g_raw = (kp_type p = P_KSINIT \<or> sequence_number k = 0 \<and> kp_type p = P_KACK
                   \<or> kp_type p = P_KATTRIBUTES)\<rparr>)"

text \<open>
  \<open>encode_data_field\<close>: the data of a packet, or in the state SDW bytes of the file from its
  position on. After \<open>n\<close> bytes, and one more attempt when the file ended, the file is where that
  many calls of \<open>fread\<close> leave it.
\<close>

definition read_bytes :: "nat \<Rightarrow> cfile \<Rightarrow> cfile" where
  "read_bytes n f = (if n = 0 then f else snd (fread n f))"

definition encode_data_field :: "kermit \<Rightarrow> fault + byte list \<times> kermit" where
  "encode_data_field k =
     (let g = encode_call_of k in
      if kp_type (output_packet k) = P_KDATA \<and> k_state k = KM_SDW then
       (case k_file_stream k of
          None \<Rightarrow> Inl Null_pointer
        | Some f \<Rightarrow>
           (let f1 = fseek_set (k_file_position k) f;
                (at_end, e) = encode_loop g (if f_bad f1 then [] else drop (f_pos f1) (f_data f1)) encoding_start;
                data = encode_rest g e
            in Inr (data, k\<lparr>k_file_stream := Some (read_bytes (e_read e + (if at_end then 1 else 0)) f1),
                            outstanding_bytes := int (e_read e), k_block_size := int (length data)\<rparr>)))
      else
       (let (_, e) = encode_loop g (kp_data (output_packet k)) encoding_start
        in Inr (encode_rest g e, k\<lparr>outstanding_bytes := outstanding_bytes k + int (e_read e)\<rparr>)))"

text \<open>The bytes from LEN to the end of the data; a long packet counts three bytes for its check.\<close>

definition header_check :: "byte list \<Rightarrow> byte" where
  "header_check bs =
     (let h = sum_list (map ucast bs) :: u16 in ucast ((h + drop_bit 6 (h AND 192)) AND 63))"

definition packet_head :: "bool \<Rightarrow> int \<Rightarrow> packet_type \<Rightarrow> nat \<Rightarrow> nat \<Rightarrow> byte list" where
  "packet_head long seq t n cl =
     (let seq_type = [kermit_tochar (word_of_int seq), packet_char t] in
      if long then
       (let h = kermit_tochar 0 # seq_type
                  @ [kermit_tochar (of_nat ((n + 3) div 95)), kermit_tochar (of_nat ((n + 3) mod 95))]
        in h @ [kermit_tochar (header_check h)])
      else kermit_tochar (of_nat (n + 2 + cl)) # seq_type)"

definition encode_output_packet :: "kermit \<Rightarrow> fault + kermit" where
  "encode_output_packet k =
     (if \<not> parsed_ok (output_packet k) then Inr k
      else
       (let t = kp_type (output_packet k);
            ct = output_check_type k;
            long = (t = P_KDATA \<and> long_packets (session_parms k))
        in if ct \<notin> {1, 2, 3, 12} then Inl Uninitialised
           else
            bind_res (encode_data_field (k\<lparr>output_packet := (output_packet k)\<lparr>long_packet := long\<rparr>\<rparr>)) (\<lambda>(data, k1).
            let body = packet_head long (kp_seq (output_packet k1)) t (length data) (check_length ct) @ data
            in bind_res (put_output (MARK (session_parms k1) # body
                           @ check_bytes (seven_bit_only k1) (k_crc_16_tab k1) ct body
                           @ [EOL (session_parms k1)]) k1) (\<lambda>k2.
               let k3 = k2\<lparr>output_packet := (output_packet k2)\<lparr>parsed_ok := False\<rparr>\<rparr>
               in if (streaming (session_parms k3) \<or> windowing (session_parms k3)) \<and> t = P_KDATA then
                    (let k4 = k3\<lparr>k_file_position := k_file_position k3 + outstanding_bytes k3\<rparr>
                     in k_stats_increment_blocks
                          (k_stats (\<lambda>s. s\<lparr>ts_bytes_transfer := word_of_int (k_file_position k4)\<rparr>) k4))
                  else Inr k3))))"

section \<open>From bytes to a packet\<close>

type_synonym k_decoded = "fault + bool \<times> nat \<times> kermit"

definition buffer_at :: "kermit \<Rightarrow> nat \<Rightarrow> fault + byte" where
  "buffer_at k i = (if i < length (k_buffer k) then Inr (k_buffer k ! i) else Inl Buffer_overflow)"

definition buffer_slice :: "kermit \<Rightarrow> nat \<Rightarrow> nat \<Rightarrow> fault + byte list" where
  "buffer_slice k i n =
     (if i + n \<le> length (k_buffer k) then Inr (slice i n (k_buffer k)) else Inl Buffer_overflow)"

text \<open>A bad packet: the receiver asks for it again, and all the input is thrown away.\<close>

definition reject_packet :: "kermit \<Rightarrow> k_decoded" where
  "reject_packet k =
     bind_res (if k_sending k then Inr k else nak_packet k) (\<lambda>k1. Inr (True, k_buffer_n k1, k1))"

text \<open>
  \<open>decode_data_field\<close> on the \<open>n\<close> bytes from \<open>start\<close> on. A file is opened by its first data packet
  if it was not opened by an Attributes packet; whether that succeeds is not asked.
\<close>

definition decode_quoting :: "kermit \<Rightarrow> quoting" where
  "decode_quoting k =
     \<lparr>q_rept = REPT (session_parms k), q_bin = QBIN (session_parms k), q_ctl = QCTL (remote_parms k)\<rparr>"

definition decode_data_field :: "nat \<Rightarrow> nat \<Rightarrow> kermit \<Rightarrow> fault + bool \<times> kermit" where
  "decode_data_field start n k =
     (let t = kp_type (input_packet k) in
      bind_res (if t = P_KDATA \<and> k_state k = KM_RDW \<and> k_file_stream k = None
                then bind_res (open_receive_file k) (\<lambda>(_, k1). Inr k1) else Inr k) (\<lambda>k1.
      let p = input_packet k1;
          raw = (kp_seq p = 0 \<and> t \<in> {P_KACK, P_KSINIT} \<or> t = P_KATTRIBUTES);
          strip = (t = P_KDATA \<and> k_state k1 = KM_RDW \<and> text_mode k1);
          (ok, d) = decode_loop_k (decode_quoting k1) raw strip (slice start n (k_buffer k1))
                      (decoding_start (data_max p))
      in if \<not> ok then Inr (False, k1\<lparr>input_packet := p\<lparr>data_max := d_max d\<rparr>\<rparr>)
         else if length (k_buffer k1) < start + n then Inl Buffer_overflow
         else Inr (True, k1\<lparr>input_packet := p\<lparr>kp_data := d_out d, data_max := d_max d\<rparr>\<rparr>)))"

definition input_check_type :: "packet_type \<Rightarrow> byte \<Rightarrow> kermit \<Rightarrow> int" where
  "input_check_type t len k =
     (case t of
        P_KSINIT \<Rightarrow> 1
      | P_KNAK \<Rightarrow> (let c = uint (kermit_unchar len) - 2 in if c < 1 \<or> 3 < c then 1 else c)
      | _ \<Rightarrow> check_type k)"

text \<open>What a whole and correct packet does besides.\<close>

definition process_payload :: "kermit \<Rightarrow> fault + kermit" where
  "process_payload k =
     (let judged = (\<lambda>(ok, k1). Inr (k1\<lparr>input_packet := (input_packet k1)\<lparr>parsed_ok := ok\<rparr>\<rparr>)) in
      case kp_type (input_packet k) of
        P_KSINIT \<Rightarrow> judged (process_send_init k)
      | P_KFILE \<Rightarrow> bind_res (process_file_header k) (\<lambda>k1. judged (True, k1))
      | P_KATTRIBUTES \<Rightarrow> bind_res (process_attributes k) judged
      | P_KERROR \<Rightarrow> process_error_packet k
      | P_KRESERVED1 \<Rightarrow>
          bind_res (k_fail ''ERROR - WRONG PACKET TYPE'' ''Improper packet type'' k) (\<lambda>k1. judged (False, k1))
      | P_KRESERVED2 \<Rightarrow>
          bind_res (k_fail ''ERROR - WRONG PACKET TYPE'' ''Improper packet type'' k) (\<lambda>k1. judged (False, k1))
      | P_KNAK \<Rightarrow>
          if k_sending k \<and> streaming (session_parms k) \<and> k_state k \<in> {KM_SDW, KM_SZ} then
            bind_res (k_fail ''ERROR - NAK WHILE STREAMING'' ''NAK while streaming'' k) (\<lambda>k1. judged (False, k1))
          else Inr k
      | _ \<Rightarrow> Inr k)"

text \<open>
  The rest of the packet, once it is there: \<open>m\<close> is the index of the MARK, \<open>b\<close> that of the data,
  \<open>extra\<close> what the length counts before the data. Lengths are unsigned and wrap around.
\<close>

definition decode_body :: "nat \<Rightarrow> byte \<Rightarrow> nat \<Rightarrow> nat \<Rightarrow> kermit \<Rightarrow> k_decoded" where
  "decode_body m len b extra k =
     (let p = input_packet k;
          ct = input_check_type (kp_type p) len k;
          data_length = word_of_int (kp_length p) - of_nat extra - of_nat (check_length ct) :: u32;
          region = unat (data_length + of_nat (b - (m + 1)))
      in bind_res (buffer_slice k (m + 1) region) (\<lambda>bs.
         bind_res (buffer_slice k (m + 1 + region) (if ct \<in> {1, 2, 3, 12} then check_length ct else 0)) (\<lambda>cs.
           if \<not> check_matches (seven_bit_only k) (k_crc_16_tab k) ct bs cs then reject_packet k
           else
             bind_res (decode_data_field b (unat data_length) k) (\<lambda>(ok, k1).
               if \<not> ok then reject_packet k1
               else
                 bind_res (process_payload (k1\<lparr>input_packet := (input_packet k1)\<lparr>parsed_ok := True\<rparr>\<rparr>))
                   (\<lambda>k2. Inr (True, nat (int b + kp_length p - int extra), k2))))))"

definition decode_long :: "nat \<Rightarrow> byte \<Rightarrow> kermit \<Rightarrow> k_decoded" where
  "decode_long m len k =
     bind_res (buffer_slice k (m + 1) 6) (\<lambda>h.
       let s = session_parms k;
           l = uint (kermit_unchar (h ! 3)) * 95 + uint (kermit_unchar (h ! 4));
           k1 = k\<lparr>input_packet := (input_packet k)\<lparr>kp_length := l\<rparr>\<rparr>;
           k2 = k\<lparr>input_packet := (input_packet k)\<lparr>kp_length := l + 5\<rparr>\<rparr>
       in if uint (MAXLX1 s) * 95 + uint (MAXLX2 s) < l then reject_packet k1
          else if kermit_unchar (h ! 5) \<noteq> header_check (take 5 h) then reject_packet k2
          else if (of_nat (k_buffer_n k) - of_nat (m + 7) :: u32) < word_of_int l then Inr (False, m, k2)
          else decode_body m len (m + 7) 5 k2)"

definition decode_from_mark :: "nat \<Rightarrow> kermit \<Rightarrow> k_decoded" where
  "decode_from_mark m k =
     bind_res (buffer_at k (m + 1)) (\<lambda>len.
       let s = session_parms k;
           l = uint (kermit_unchar len);
           there = (of_nat (k_buffer_n k) - of_nat (m + 2) :: u32);
           long = (l = 0 \<and> long_packets s);
           k1 = k\<lparr>input_packet := (input_packet k)\<lparr>kp_length := l, long_packet := long\<rparr>\<rparr>
       in if l < 3 \<and> \<not> long then reject_packet k1
          else if \<not> long \<and> uint (MAXL s) < l then reject_packet k1
          else if there < (if long then 5 else word_of_int l) then Inr (False, m, k1)
          else
            bind_res (buffer_slice k (m + 2) 2) (\<lambda>h.
              let seq = uint (kermit_unchar (h ! 0));
                  k2 = k1\<lparr>input_packet := (input_packet k1)\<lparr>kp_seq := seq\<rparr>\<rparr>;
                  k3 = k2\<lparr>input_packet := (input_packet k2)\<lparr>kp_type := packet_type_of (h ! 1)\<rparr>\<rparr>
              in if 63 < seq then reject_packet k2
                 else if long then decode_long m len k3
                 else decode_body m len (m + 4) 2 k3))"

definition decode_input_bytes :: "kermit \<Rightarrow> k_decoded" where
  "decode_input_bytes k =
     (let n = k_buffer_n k in
      if n < 5 then Inr (False, 0, k)
      else
       (let k1 = k\<lparr>input_packet := zero_packet (data_max (input_packet k))\<rparr>;
            m = length (takeWhile (\<lambda>b. b \<noteq> MARK (session_parms k)) (take n (k_buffer k)))
        in if m = n then Inr (False, n, k1) else decode_from_mark m k1))"

end
