(* ===== verification/Kermit_Quote.thy ===== *)
theory Kermit_Quote
  imports Kermit_Packet
begin

text \<open>
  The data field of a Kermit packet through the encoder of the sender and the decoder of the
  receiver: quoting, repeat counts and text conversion give the bytes of the file back.
\<close>

section \<open>Bytes\<close>

text \<open>A property of all bytes holds when it holds for every pair of hexadecimal digits.\<close>

lemma all_nibbles:
  assumes "list_all (\<lambda>h :: byte. list_all (\<lambda>l. P (16 * h + l)) [0, 1, 2, 3, 4, 5, 6, 7, 8, 9, 10, 11, 12, 13, 14, 15]) [0, 1, 2, 3, 4, 5, 6, 7, 8, 9, 10, 11, 12, 13, 14, 15]"
  shows "P (b :: byte)"
proof -
  have *: "list_all Q [0, 1, 2, 3, 4, 5, 6, 7, 8, 9, 10, 11, 12, 13, 14, 15] \<longleftrightarrow> (\<forall>x :: byte. x < 16 \<longrightarrow> Q x)" for Q
  proof
    assume q: "list_all Q [0, 1, 2, 3, 4, 5, 6, 7, 8, 9, 10, 11, 12, 13, 14, 15]"
    show "\<forall>x :: byte. x < 16 \<longrightarrow> Q x"
    proof (intro allI impI)
      fix x :: byte assume "x < 16"
      then have "unat x < 16" by (simp add: word_less_nat_alt)
      then have "unat x \<in> set [0..<16]" by simp
      then have "word_of_nat (unat x) \<in> (word_of_nat ` set [0..<16] :: byte set)" by (rule imageI)
      then have "x \<in> set [0, 1, 2, 3, 4, 5, 6, 7, 8, 9, 10, 11, 12, 13, 14, 15]" by (simp add: upt_conv_Cons)
      with q show "Q x" by (auto simp only: list_all_iff)
    qed
  qed (simp add: list_all_iff)
  have "b div 16 < 16" "b mod 16 < 16" by (simp_all add: word_less_nat_alt unat_div unat_mod unsigned_less [of b, where 'a = nat, simplified] less_mult_imp_div_less)
  with assms have "P (16 * (b div 16) + b mod 16)" by (simp only: *)
  then show ?thesis by (simp only: mult_div_mod_eq)
qed

text \<open>
  Prefix characters, control characters (bytes without their high bit) and \<open>ctl\<close>.
\<close>

definition control7 :: "byte \<Rightarrow> bool" where
  "control7 b \<longleftrightarrow> b < 0x20 \<or> b = 0x7F"

lemma ctl_ctl [simp]: "kermit_ctl (kermit_ctl b) = b"
  by (simp add: kermit_ctl_def xor.assoc)

lemma high_bit_restored: "b AND 0x80 \<noteq> 0 \<longrightarrow> b AND 0x7F OR 0x80 = b" for b :: byte
  by (rule all_nibbles [where P = "\<lambda>b. b AND 0x80 \<noteq> 0 \<longrightarrow> b AND 0x7F OR 0x80 = b"])
    (simp add: kermit_ctl_def valid_prefix_def control7_def)

lemma low_bits_all: "b AND 0x80 = 0 \<longrightarrow> b AND 0x7F = b" for b :: byte
  by (rule all_nibbles [where P = "\<lambda>b. b AND 0x80 = 0 \<longrightarrow> b AND 0x7F = b"])
    (simp add: kermit_ctl_def valid_prefix_def control7_def)

lemma ctl_high: "kermit_ctl b AND 0x80 = b AND 0x80" for b :: byte
  by (rule all_nibbles [where P = "\<lambda>b. kermit_ctl b AND 0x80 = b AND 0x80"])
    (simp add: kermit_ctl_def valid_prefix_def control7_def)

lemma ctl_low: "kermit_ctl b AND 0x7F = kermit_ctl (b AND 0x7F)" for b :: byte
  by (rule all_nibbles [where P = "\<lambda>b. kermit_ctl b AND 0x7F = kermit_ctl (b AND 0x7F)"])
    (simp add: kermit_ctl_def valid_prefix_def control7_def)

lemma prefix_high: "valid_prefix b \<longrightarrow> b AND 0x80 = 0" for b :: byte
  by (rule all_nibbles [where P = "\<lambda>b. valid_prefix b \<longrightarrow> b AND 0x80 = 0"])
    (simp add: kermit_ctl_def valid_prefix_def control7_def)

lemma prefix_not_ctl: "valid_prefix b \<longrightarrow> \<not> control7 (kermit_ctl b) \<and> \<not> control7 b" for b :: byte
  by (rule all_nibbles [where P = "\<lambda>b. valid_prefix b \<longrightarrow> \<not> control7 (kermit_ctl b) \<and> \<not> control7 b"])
    (simp add: kermit_ctl_def valid_prefix_def control7_def, simp add: word_le_nat_alt)

lemma ctl_not_prefix: "control7 b \<longrightarrow> \<not> valid_prefix (kermit_ctl b) \<and> kermit_ctl b AND 0x80 = 0" for b :: byte
  by (rule all_nibbles [where P = "\<lambda>b. control7 b \<longrightarrow> \<not> valid_prefix (kermit_ctl b) \<and> kermit_ctl b AND 0x80 = 0"])
    (simp add: kermit_ctl_def valid_prefix_def control7_def)

lemma small_high: "b < 0x7F \<longrightarrow> b AND 0x80 = 0" for b :: byte
  by (rule all_nibbles [where P = "\<lambda>b. b < 0x7F \<longrightarrow> b AND 0x80 = 0"]) simp

lemma low_bits_high [simp]: "(b AND 0x7F) AND 0x80 = 0" for b :: byte
  by (simp add: and.assoc)

section \<open>The variables of the decoder\<close>

text \<open>
  The prefixes two ends can agree on: characters of the two ranges, all different; a space for one
  that is not used.
\<close>

definition good_quoting :: "quoting \<Rightarrow> bool" where
  "good_quoting q \<longleftrightarrow>
     valid_prefix (q_ctl q)
     \<and> (q_bin q = 32 \<or> valid_prefix (q_bin q) \<and> q_bin q \<noteq> q_ctl q)
     \<and> (q_rept q = 32 \<or> valid_prefix (q_rept q) \<and> q_rept q \<noteq> q_ctl q \<and> q_rept q \<noteq> q_bin q)"

text \<open>No prefix is open and no character waits to be put out.\<close>

definition d_clean :: "decoding \<Rightarrow> bool" where
  "d_clean d \<longleftrightarrow> \<not> d_ctrl d \<and> \<not> d_8bit d \<and> \<not> d_rept d \<and> d_pending d = None"

text \<open>The size of the array after \<open>n\<close> more bytes behind the first \<open>l\<close>.\<close>

fun grown :: "nat \<Rightarrow> nat \<Rightarrow> nat \<Rightarrow> nat" where
  "grown 0 l m = m"
| "grown (Suc n) l m = grown n (l + 1) (if l = m then 2 * m else m)"

lemma d_put_funpow:
  "(d_put b ^^ n) d
     = d\<lparr>d_out := d_out d @ replicate n b, d_max := grown n (length (d_out d)) (d_max d)\<rparr>"
  by (induction n arbitrary: d) (simp_all add: funpow_swap1 d_put_def del: funpow.simps(2) add: funpow_Suc_right)

definition run_out :: "bool \<Rightarrow> byte \<Rightarrow> nat \<Rightarrow> byte list" where
  "run_out strip b n = (if strip \<and> b = C_CR then [] else replicate n b)"

lemma d_put_run_eq:
  "d_put_run strip b d
     = d\<lparr>d_out := d_out d @ run_out strip b (d_count d),
         d_max := grown (length (run_out strip b (d_count d))) (length (d_out d)) (d_max d), d_count := 1\<rparr>"
  by (simp add: d_put_run_def d_put_funpow run_out_def)

lemma d_flush_clean: "d_pending d = None \<Longrightarrow> d_flush strip d = d"
  by (simp add: d_flush_def)

lemma d_flush_pending [simp]: "d_pending (d_flush strip d) = None"
  by (simp add: d_flush_def split: option.splits)

lemma decode_loop_flush:
  "decode_loop_k q raw strip cs (d_flush strip d) = decode_loop_k q raw strip cs d"
  by (cases cs) (simp_all add: d_flush_clean)

section \<open>One character\<close>

lemma good_quotingD:
  assumes "good_quoting q"
  shows "valid_prefix (q_ctl q)" "q_bin q \<noteq> 32 \<Longrightarrow> valid_prefix (q_bin q)" "q_bin q \<noteq> 32 \<Longrightarrow> q_bin q \<noteq> q_ctl q"
    "q_rept q \<noteq> 32 \<Longrightarrow> valid_prefix (q_rept q)" "q_rept q \<noteq> 32 \<Longrightarrow> q_rept q \<noteq> q_ctl q"
    "q_rept q \<noteq> 32 \<Longrightarrow> q_rept q \<noteq> q_bin q"
  using assms by (auto simp: good_quoting_def)

lemma decode_open_bin:
  assumes "good_quoting q" "d_clean d" "q_bin q \<noteq> 32"
  shows "decode_loop_k q False strip (q_bin q # r) d = decode_loop_k q False strip r (d\<lparr>d_8bit := True\<rparr>)"
  using assms good_quotingD [OF assms(1)]
  by (auto simp: d_clean_def d_flush_clean decode_byte_def decode_qbin_def)

lemma decode_open_ctl:
  assumes "good_quoting q" "\<not> d_ctrl d" "\<not> d_rept d" "d_pending d = None"
  shows "decode_loop_k q False strip (q_ctl q # r) d = decode_loop_k q False strip r (d\<lparr>d_ctrl := True\<rparr>)"
  using assms good_quotingD [OF assms(1)]
  by (auto simp: d_flush_clean decode_byte_def decode_qctl_def)

text \<open>The last byte of an encoded character: plain, a control character, or a quoted prefix.\<close>

definition is_prefix :: "quoting \<Rightarrow> byte \<Rightarrow> bool" where
  "is_prefix q b \<longleftrightarrow> q_rept q \<noteq> 32 \<and> b = q_rept q \<or> q_bin q \<noteq> 32 \<and> b = q_bin q \<or> b = q_ctl q"

lemma is_prefix_valid: "good_quoting q \<Longrightarrow> is_prefix q b \<Longrightarrow> valid_prefix b"
  by (auto simp: is_prefix_def dest: good_quotingD)

lemma decode_last_regular:
  assumes "\<not> is_prefix q b" "\<not> d_rept d" "d_pending d = None"
  shows "decode_loop_k q False strip (b # r) d = decode_loop_k q False strip r (decode_regular strip b d)"
  using assms by (auto simp: is_prefix_def d_flush_clean decode_byte_def)

lemma decode_last_prefix:
  assumes "good_quoting q" "is_prefix q b" "d_clean d"
  shows "decode_loop_k q False strip (b # r) (d\<lparr>d_8bit := e, d_ctrl := True\<rparr>)
       = decode_loop_k q False strip r (d_put_run strip (if e then b OR 0x80 else b) d)"
proof -
  have "d_flush strip (d\<lparr>d_pending := Some c\<rparr>) = d_put_run strip c d" for c
    using assms(3) by (simp add: d_flush_def d_put_run_eq d_clean_def)
  then have *: "decode_loop_k q False strip r (d\<lparr>d_pending := Some c\<rparr>)
      = decode_loop_k q False strip r (d_put_run strip c d)" for c
    by (metis decode_loop_flush)
  have [simp]: "d\<lparr>d_8bit := False, d_ctrl := False\<rparr> = d" "d\<lparr>d_ctrl := False, d_8bit := False\<rparr> = d"
    "d\<lparr>d_ctrl := False, d_8bit := False, d_rept := False\<rparr> = d"
    using assms(3) by (simp_all add: d_clean_def)
  have "decode_byte q strip b (d\<lparr>d_8bit := e, d_ctrl := True\<rparr>)
      = Some (d\<lparr>d_pending := Some (if e then b OR 0x80 else b)\<rparr>)"
    using assms(2,3) good_quotingD [OF assms(1)]
    by (cases d) (auto simp: is_prefix_def decode_byte_def decode_rept_def decode_qctl_def decode_qbin_def d_clean_def)
  then show ?thesis using assms(3) * by (simp add: d_flush_clean d_clean_def)
qed

definition needs_bin :: "quoting \<Rightarrow> byte \<Rightarrow> bool" where
  "needs_bin q ch \<longleftrightarrow> q_bin q \<noteq> 32 \<and> ch AND 0x80 \<noteq> 0"

lemma encode_char_cases:
  assumes "good_quoting q"
  defines "o7 ch \<equiv> if needs_bin q ch then ch AND 0x7F else ch"
  shows "encode_char q ch = (if needs_bin q ch then [q_bin q] else [])
     @ (if is_prefix q (ch AND 0x7F) then [q_ctl q, o7 ch]
        else if control7 (ch AND 0x7F) then [q_ctl q, kermit_ctl (o7 ch)] else [o7 ch])"
  by (auto simp: encode_char_def Let_def needs_bin_def is_prefix_def control7_def o7_def)

text \<open>What the second of two bytes, after the control prefix, or a single byte decodes to.\<close>

lemma decode_regular_ctl:
  assumes "d_clean d" "control7 (b AND 0x7F)" "e \<longrightarrow> b AND 0x80 = 0"
  shows "decode_regular strip (kermit_ctl b) (d\<lparr>d_8bit := e, d_ctrl := True\<rparr>)
       = d_put_run strip (if e then b OR 0x80 else b) d"
  using assms ctl_low [of "kermit_ctl b"]
  by (cases d) (auto simp: decode_regular_def Let_def d_clean_def control7_def d_put_run_eq)

lemma decode_regular_plain:
  assumes "d_clean d"
  shows "decode_regular strip b (d\<lparr>d_8bit := e\<rparr>) = d_put_run strip (if e then b OR 0x80 else b) d"
  using assms by (cases d) (auto simp: decode_regular_def Let_def d_clean_def d_put_run_eq)

lemma decode_regular_quoted:
  assumes "d_clean d" "valid_prefix (b AND 0x7F)"
  shows "decode_regular strip b (d\<lparr>d_ctrl := True\<rparr>) = d_put_run strip b d"
proof -
  have "\<not> control7 (kermit_ctl (b AND 0x7F))" using assms(2) prefix_not_ctl by blast
  then have "\<not> control7 (kermit_ctl b AND 0x7F)" by (simp add: ctl_low)
  then show ?thesis
    using assms(1) by (cases d) (auto simp: decode_regular_def Let_def d_clean_def d_put_run_eq control7_def)
qed

lemma decode_encode_char:
  assumes q: "good_quoting q" and d: "d_clean d"
  shows "decode_loop_k q False strip (encode_char q ch @ r) d
       = decode_loop_k q False strip r (d_put_run strip ch d)"
proof -
  let ?e = "needs_bin q ch" and ?c7 = "ch AND 0x7F"
  define b where "b = (if ?e then ?c7 else ch)"
  let ?d = "d\<lparr>d_8bit := ?e\<rparr>"
  have same: "d\<lparr>d_8bit := False\<rparr> = d" using d by (simp add: d_clean_def)
  have b: "(if ?e then b OR 0x80 else b) = ch" "?e \<longrightarrow> b AND 0x80 = 0" "b AND 0x7F = ?c7"
    using high_bit_restored [of ch] by (auto simp: b_def needs_bin_def and.assoc)
  have d': "\<not> d_ctrl ?d" "\<not> d_rept ?d" "d_pending ?d = None" using d by (auto simp: d_clean_def)
  have open_bin: "decode_loop_k q False strip ((if ?e then [q_bin q] else []) @ s) d
      = decode_loop_k q False strip s ?d" for s
    using decode_open_bin [OF q d] same by (auto simp: needs_bin_def)
  have no_prefix: "b AND 0x80 \<noteq> 0 \<Longrightarrow> \<not> is_prefix q b" using is_prefix_valid [OF q] prefix_high by blast
  consider (quoted) "is_prefix q ?c7" | (ctl) "\<not> is_prefix q ?c7" "control7 ?c7"
    | (plain) "\<not> is_prefix q ?c7" "\<not> control7 ?c7" by blast
  then show ?thesis
  proof cases
    case quoted
    then have v: "valid_prefix ?c7" by (rule is_prefix_valid [OF q])
    have "decode_loop_k q False strip (b # r) (?d\<lparr>d_ctrl := True\<rparr>)
        = decode_loop_k q False strip r (d_put_run strip ch d)"
    proof (cases "b AND 0x80 = 0")
      case True
      then have "b = ?c7" using low_bits_all [of b] b(3) by simp
      with quoted show ?thesis using decode_last_prefix [OF q _ d, of b strip r ?e] b(1) by simp
    next
      case False
      then have "\<not> ?e" "b = ch" using b(1,2) by auto
      then show ?thesis
        using decode_last_regular [OF no_prefix [OF False], of "d\<lparr>d_ctrl := True\<rparr>" strip r] same d' v
          decode_regular_quoted [OF d, of ch] by simp
    qed
    with quoted show ?thesis
      by (simp add: encode_char_cases [OF q] open_bin decode_open_ctl [OF q d'] del: decode_loop_k.simps flip: b_def)
  next
    case ctl
    have n: "\<not> is_prefix q (kermit_ctl b)"
    proof
      assume "is_prefix q (kermit_ctl b)"
      then have v: "valid_prefix (kermit_ctl b)" by (rule is_prefix_valid [OF q])
      then have "b AND 0x80 = 0" using prefix_high [of "kermit_ctl b"] by (simp add: ctl_high)
      then have "control7 b" using low_bits_all [of b] b(3) ctl(2) by simp
      with v show False using ctl_not_prefix by blast
    qed
    have "decode_loop_k q False strip (kermit_ctl b # r) (?d\<lparr>d_ctrl := True\<rparr>)
        = decode_loop_k q False strip r (d_put_run strip ch d)"
      using decode_last_regular [OF n, of "?d\<lparr>d_ctrl := True\<rparr>" strip r] d'
        decode_regular_ctl [OF d, of b ?e strip] b ctl(2) by simp
    with ctl show ?thesis
      by (simp add: encode_char_cases [OF q] open_bin decode_open_ctl [OF q d'] del: decode_loop_k.simps flip: b_def)
  next
    case plain
    have "\<not> is_prefix q b"
      using no_prefix low_bits_all [of b] b(3) plain(1) by fastforce
    then have "decode_loop_k q False strip (b # r) ?d = decode_loop_k q False strip r (d_put_run strip ch d)"
      using decode_last_regular [of q b ?d strip r] d' decode_regular_plain [OF d, of strip b ?e] b(1) by simp
    with plain show ?thesis by (simp add: encode_char_cases [OF q] open_bin del: decode_loop_k.simps flip: b_def)
  qed
qed

section \<open>Code words\<close>

text \<open>
  The bytes \<open>xs\<close> decode to \<open>ys\<close> wherever they stand between whole code words; this is kept by
  putting code words together.
\<close>

definition decodes_to :: "quoting \<Rightarrow> bool \<Rightarrow> byte list \<Rightarrow> byte list \<Rightarrow> bool" where
  "decodes_to q strip xs ys \<longleftrightarrow>
     (\<forall>d r. d_clean d \<and> d_count d = 1 \<longrightarrow>
       (\<exists>d'. decode_loop_k q False strip (xs @ r) d = decode_loop_k q False strip r d'
             \<and> d_clean d' \<and> d_count d' = 1 \<and> d_out d' = d_out d @ ys))"

lemma decodes_to_Nil: "decodes_to q strip [] []"
  by (auto simp: decodes_to_def)

lemma decodes_to_append:
  assumes "decodes_to q strip xs ys" "decodes_to q strip xs' ys'"
  shows "decodes_to q strip (xs @ xs') (ys @ ys')"
  unfolding decodes_to_def
proof (intro allI impI)
  fix d r assume d: "d_clean d \<and> d_count d = 1"
  obtain d1 where 1: "decode_loop_k q False strip (xs @ xs' @ r) d = decode_loop_k q False strip (xs' @ r) d1"
    "d_clean d1 \<and> d_count d1 = 1" "d_out d1 = d_out d @ ys"
    using assms(1) d unfolding decodes_to_def by blast
  obtain d2 where 2: "decode_loop_k q False strip (xs' @ r) d1 = decode_loop_k q False strip r d2"
    "d_clean d2 \<and> d_count d2 = 1" "d_out d2 = d_out d1 @ ys'"
    using assms(2) 1(2) unfolding decodes_to_def by blast
  show "\<exists>d'. decode_loop_k q False strip ((xs @ xs') @ r) d = decode_loop_k q False strip r d'
      \<and> d_clean d' \<and> d_count d' = 1 \<and> d_out d' = d_out d @ ys @ ys'"
    using 1 2 by (intro exI [of _ d2]) (simp only: append_assoc simp_thms)
qed

lemma decodes_to_whole:
  assumes "decodes_to q strip xs ys"
  shows "\<exists>d. decode_loop_k q False strip xs (decoding_start m) = (True, d) \<and> d_out d = ys"
proof -
  have "d_clean (decoding_start m) \<and> d_count (decoding_start m) = 1"
    by (simp add: decoding_start_def d_clean_def)
  then obtain d' where "decode_loop_k q False strip (xs @ []) (decoding_start m) = decode_loop_k q False strip [] d'"
    "d_clean d'" "d_out d' = d_out (decoding_start m) @ ys"
    using assms unfolding decodes_to_def by blast
  then show ?thesis by (simp add: decoding_start_def d_clean_def d_flush_clean)
qed

lemma decodes_to_char:
  assumes "good_quoting q"
  shows "decodes_to q strip (encode_char q ch) (run_out strip ch 1)"
  unfolding decodes_to_def
proof (intro allI impI)
  fix d r assume d: "d_clean d \<and> d_count d = 1"
  let ?d = "d_put_run strip ch d"
  have "d_clean ?d" "d_count ?d = 1" "d_out ?d = d_out d @ run_out strip ch 1"
    using d by (simp_all add: d_put_run_eq d_clean_def)
  with decode_encode_char [OF assms, of d strip ch r] d
  show "\<exists>d'. decode_loop_k q False strip (encode_char q ch @ r) d = decode_loop_k q False strip r d'
      \<and> d_clean d' \<and> d_count d' = 1 \<and> d_out d' = d_out d @ run_out strip ch 1" by blast
qed

lemma run_out_append: "run_out strip ch m @ run_out strip ch n = run_out strip ch (m + n)"
  by (simp add: run_out_def replicate_add)

lemma run_out_0 [simp]: "run_out strip ch 0 = []"
  by (simp add: run_out_def)

lemma decodes_to_chars:
  "good_quoting q \<Longrightarrow> decodes_to q strip (concat (replicate n (encode_char q ch))) (run_out strip ch n)"
proof (induction n)
  case (Suc n)
  then show ?case
    using decodes_to_append [OF decodes_to_char [of q strip ch] Suc.IH] by (simp add: run_out_append)
qed (simp add: decodes_to_Nil)

lemma unchar_tochar_count: "n \<le> 94 \<Longrightarrow> unat (kermit_unchar (kermit_tochar (of_nat n))) = n"
  by (simp add: kermit_unchar_def kermit_tochar_def unat_of_nat)

lemma decodes_to_repeat:
  assumes q: "good_quoting q" and r: "q_rept q \<noteq> 32" and n: "n \<le> 94"
  shows "decodes_to q strip ([q_rept q, kermit_tochar (of_nat n)] @ encode_char q ch) (run_out strip ch n)"
  unfolding decodes_to_def
proof (intro allI impI)
  fix d s assume d: "d_clean d \<and> d_count d = 1"
  let ?t = "kermit_tochar (of_nat n)" and ?d = "d\<lparr>d_count := n\<rparr>"
  let ?d' = "d_put_run strip ch ?d"
  have 1: "decode_byte q strip (q_rept q) d = Some (d\<lparr>d_rept := True\<rparr>)"
    using d r by (simp add: decode_byte_def decode_rept_def d_clean_def)
  have 2: "decode_byte q strip ?t (d\<lparr>d_rept := True\<rparr>) = Some ?d"
    using d n unchar_tochar_count [of n]
    by (cases d) (auto simp: decode_byte_def decode_rept_def d_clean_def)
  have "decode_loop_k q False strip (([q_rept q, ?t] @ encode_char q ch) @ s) d
      = decode_loop_k q False strip (encode_char q ch @ s) ?d"
    using d 1 2 by (simp add: d_flush_clean d_clean_def)
  also have "\<dots> = decode_loop_k q False strip s ?d'"
    using decode_encode_char [OF q, of ?d strip ch s] d by (simp add: d_clean_def)
  finally have "decode_loop_k q False strip (([q_rept q, ?t] @ encode_char q ch) @ s) d
      = decode_loop_k q False strip s ?d'" .
  moreover have "d_clean ?d'" "d_count ?d' = 1" "d_out ?d' = d_out d @ run_out strip ch n"
    using d by (simp_all add: d_put_run_eq d_clean_def)
  ultimately show "\<exists>d'. decode_loop_k q False strip (([q_rept q, ?t] @ encode_char q ch) @ s) d
        = decode_loop_k q False strip s d' \<and> d_clean d' \<and> d_count d' = 1
      \<and> d_out d' = d_out d @ run_out strip ch n" by blast
qed

text \<open>A run needs the repeat prefix when it is longer than three, and for a space under check B.\<close>

lemma decodes_to_run:
  assumes "good_quoting q" "3 < n \<or> b \<and> ch = 32 \<Longrightarrow> q_rept q \<noteq> 32" "n \<le> 94"
  shows "decodes_to q strip (encode_one_byte q b ch n) (run_out strip ch n)"
  using decodes_to_chars [OF assms(1), of strip n ch] decodes_to_repeat [OF assms(1) _ assms(3), of strip ch] assms(2)
  by (simp add: encode_one_byte_def)

section \<open>The whole field\<close>

text \<open>The bytes of a file the receiver gets back: of a text all but the CRs.\<close>

definition without_crs :: "bool \<Rightarrow> byte list \<Rightarrow> byte list" where
  "without_crs txt bs = (if txt then filter (\<lambda>b. b \<noteq> C_CR) bs else bs)"

lemma without_crs_simps [simp]:
  "without_crs txt [] = []"
  "without_crs txt (b # bs) = run_out txt b 1 @ without_crs txt bs"
  by (simp_all add: without_crs_def run_out_def)

text \<open>
  What the encoder has taken in so far: the field and the run that is still counted decode to \<open>ys\<close>.
\<close>

definition encodes :: "encode_call \<Rightarrow> encoding \<Rightarrow> byte list \<Rightarrow> bool" where
  "encodes g e ys \<longleftrightarrow>
     (\<exists>xs. decodes_to (g_quoting g) (g_text g) (e_data e) xs
           \<and> ys = xs @ run_out (g_text g) (e_last e) (e_count e))
     \<and> e_count e \<le> 94 \<and> (e_first e \<longrightarrow> e_count e = 0)"

lemma encodes_start: "encodes g encoding_start []"
  by (simp add: encodes_def encoding_start_def decodes_to_Nil)

definition can_repeat :: "encode_call \<Rightarrow> bool" where
  "can_repeat g \<longleftrightarrow> good_quoting (g_quoting g) \<and> q_rept (g_quoting g) \<noteq> 32"

lemma decodes_to_last:
  assumes "can_repeat g" "encodes g e ys"
  shows "decodes_to (g_quoting g) (g_text g)
           (e_data e @ encode_one_byte (g_quoting g) (g_b_check g) (e_last e) (e_count e)) ys"
  using assms decodes_to_append decodes_to_run by (fastforce simp: encodes_def can_repeat_def)

lemma encodes_count_char:
  assumes g: "can_repeat g" and e: "encodes g e ys"
  shows "encodes g (count_char g ch e) (ys @ run_out (g_text g) ch 1)"
proof (cases "(e_first e \<or> e_last e = ch) \<and> e_count e < 94")
  case True
  then show ?thesis
    using e by (auto simp: count_char_def encodes_def run_out_append)
next
  case False
  moreover have "\<not> e_first e" using e False by (auto simp: encodes_def)
  ultimately have "count_char g ch e
      = e\<lparr>e_data := e_data e @ encode_one_byte (g_quoting g) (g_b_check g) (e_last e) (e_count e),
          e_count := 1, e_last := ch\<rparr>"
    by (auto simp: count_char_def)
  with decodes_to_last [OF g e] \<open>\<not> e_first e\<close> show ?thesis
    by (auto simp: encodes_def)
qed

lemma encodes_more [simp]:
  "encodes g (e\<lparr>e_read := n\<rparr>) ys = encodes g e ys" "encodes g (e\<lparr>e_crlf := b\<rparr>) ys = encodes g e ys"
  by (simp_all add: encodes_def)

lemma count_char_more [simp]:
  "e_read (count_char g ch e) = e_read e" "e_crlf (count_char g ch e) = e_crlf e"
  by (simp_all add: count_char_def Let_def)

text \<open>An LF that is still to be sent comes after everything else.\<close>

definition encodes_all :: "encode_call \<Rightarrow> encoding \<Rightarrow> byte list \<Rightarrow> bool" where
  "encodes_all g e ys \<longleftrightarrow>
     (\<exists>xs. encodes g e xs \<and> ys = xs @ (if g_text g \<and> e_crlf e then [C_LF] else []))"

lemma encodes_loop:
  assumes "can_repeat g" "\<not> g_raw g" "encodes g e ys" "\<not> e_crlf e" "encode_loop g bs e = (fin, e')"
  shows "e_read e \<le> e_read e' \<and> (fin \<longrightarrow> e_read e' = e_read e + length bs)
    \<and> encodes_all g e' (ys @ without_crs (g_text g) (take (e_read e' - e_read e) bs))"
  using assms(3-5)
proof (induction bs arbitrary: e ys)
  case Nil
  then show ?case by (auto simp: encodes_all_def)
next
  case (Cons b bs)
  define e1 where "e1 = e\<lparr>e_read := e_read e + 1\<rparr>"
  have e1: "encodes g e1 ys" "\<not> e_crlf e1" "e_read e1 = e_read e + 1"
    using Cons.prems by (simp_all add: e1_def)
  have on: ?case if "encode_loop g bs e2 = (fin, e')" "encodes g e2 (ys @ run_out (g_text g) b 1)"
    "\<not> e_crlf e2" "e_read e2 = e_read e + 1" for e2
  proof -
    note ih = Cons.IH [OF that(2,3,1)]
    then have "Suc (e_read e) \<le> e_read e'" using that(4) by simp
    then have "e_read e' - e_read e = Suc (e_read e' - e_read e2)" using that(4) by simp
    with ih that(4) show ?thesis by simp
  qed
  consider (full) "encode_full g e" | (cr) "\<not> encode_full g e" "g_text g" "b = C_CR"
    | (lf) "\<not> encode_full g e" "g_text g" "b = C_LF"
    | (other) "\<not> encode_full g e" "\<not> (g_text g \<and> b \<in> {C_CR, C_LF})" by blast
  then show ?case
  proof cases
    case full
    with Cons.prems show ?thesis by (auto simp: encodes_all_def)
  next
    case cr
    with Cons.prems(3) e1 assms(2) show ?thesis
      by (intro on [of e1]) (simp_all add: e1_def run_out_def)
  next
    case lf
    define e2 where "e2 = count_char g C_CR e1"
    have e2: "encodes g e2 ys" "\<not> e_crlf e2" "e_read e2 = e_read e + 1"
      using encodes_count_char [OF assms(1) e1(1), of C_CR] lf(2) e1(2,3)
      by (simp_all add: e2_def run_out_def)
    show ?thesis
    proof (cases "encode_full g e2")
      case True
      then have "e' = e2\<lparr>e_crlf := True\<rparr>" "\<not> fin"
        using Cons.prems(3) lf assms(2) by (auto simp: e1_def e2_def)
      with e2 lf show ?thesis by (auto simp: encodes_all_def run_out_def)
    next
      case False
      then have "encode_loop g bs (count_char g C_LF e2) = (fin, e')"
        using Cons.prems(3) lf assms(2) by (simp add: e1_def e2_def)
      moreover have "encodes g (count_char g C_LF e2) (ys @ run_out (g_text g) b 1)"
        using encodes_count_char [OF assms(1) e2(1), of C_LF] lf(3) by simp
      ultimately show ?thesis using e2 by (intro on [of "count_char g C_LF e2"]) simp_all
    qed
  next
    case other
    have "encode_loop g bs (count_char g b e1) = (fin, e')"
      using Cons.prems(3) other assms(2) by (auto simp: e1_def)
    with encodes_count_char [OF assms(1) e1(1), of b] e1 show ?thesis
      by (intro on [of "count_char g b e1"]) simp_all
  qed
qed

lemma decodes_to_rest:
  assumes "can_repeat g" "encodes_all g e ys"
  shows "decodes_to (g_quoting g) (g_text g) (encode_rest g e) ys"
proof -
  from assms(2) obtain xs where xs: "encodes g e xs" "ys = xs @ (if g_text g \<and> e_crlf e then [C_LF] else [])"
    by (auto simp: encodes_all_def)
  let ?run = "if 0 < e_count e then encode_one_byte (g_quoting g) (g_b_check g) (e_last e) (e_count e) else []"
  have 1: "decodes_to (g_quoting g) (g_text g) (e_data e @ ?run) xs"
    using decodes_to_last [OF assms(1) xs(1)] xs(1) by (auto simp: encodes_def)
  have lf: "decodes_to (g_quoting g) (g_text g) (encode_one_byte (g_quoting g) (g_b_check g) C_LF 1) [C_LF]"
    using decodes_to_run [of "g_quoting g" 1 "g_b_check g" C_LF "g_text g"] assms(1)
    by (simp add: can_repeat_def run_out_def)
  have 2: "decodes_to (g_quoting g) (g_text g)
      (if g_text g \<and> e_crlf e then encode_one_byte (g_quoting g) (g_b_check g) C_LF 1 else [])
      (if g_text g \<and> e_crlf e then [C_LF] else [])"
    using lf decodes_to_Nil by (cases "g_text g") simp_all
  show ?thesis
    using decodes_to_append [OF 1 2] by (simp only: encode_rest_def xs(2) append_assoc)
qed

text \<open>
  C11. What the sender of a file puts into a packet is what the receiver takes out of it, when the
  two agreed on a repeat prefix, and whatever the bytes, the control prefix, the 8-bit prefix (if
  any), the room in the packet and the kind of check: the decoder accepts the field and gives
  back the bytes the encoder read, of a text file all but the CRs (an LF that goes
  out as CR and LF comes back as LF, also when the packet is full between the two). If the encoder
  did not stop for want of room, these are all the bytes.
\<close>

theorem kermit_data_delivered:
  assumes "good_quoting (g_quoting g)" "q_rept (g_quoting g) \<noteq> 32" "\<not> g_raw g"
    and "encode_loop g bs encoding_start = (at_end, e)"
  shows "(\<exists>d. decode_loop_k (g_quoting g) False (g_text g) (encode_rest g e) (decoding_start m) = (True, d)
              \<and> d_out d = without_crs (g_text g) (take (e_read e) bs))
         \<and> (at_end \<longrightarrow> e_read e = length bs)"
proof -
  have g: "can_repeat g" using assms(1,2) by (simp add: can_repeat_def)
  have s: "\<not> e_crlf encoding_start" "e_read encoding_start = 0" by (simp_all add: encoding_start_def)
  note loop = encodes_loop [OF g assms(3) encodes_start s(1) assms(4)]
  then have "decodes_to (g_quoting g) (g_text g) (encode_rest g e) (without_crs (g_text g) (take (e_read e) bs))"
    using decodes_to_rest [OF g] s(2) by simp
  then show ?thesis using decodes_to_whole loop s(2) by auto
qed

definition sample_call :: encode_call where
  "sample_call =
     \<lparr>g_quoting = \<lparr>q_rept = 0x7E, q_bin = 0x26, q_ctl = 0x23\<rparr>, g_b_check = False, g_room = 75,
      g_text_room = 73, g_text = True, g_raw = False\<rparr>"

lemma kermit_data_delivered_witness:
  "\<exists>d. decode_loop_k (g_quoting sample_call) False True
        (encode_rest sample_call (snd (encode_loop sample_call [0x41, 0x41, 0x41, 0x41, 0x41, 0x0D, 0x0A, 0xE1] encoding_start)))
        (decoding_start 1024) = (True, d)
      \<and> d_out d = [0x41, 0x41, 0x41, 0x41, 0x41, 0x0A, 0xE1]"
proof -
  let ?bs = "[0x41, 0x41, 0x41, 0x41, 0x41, 0x0D, 0x0A, 0xE1] :: byte list"
  let ?e = "snd (encode_loop sample_call ?bs encoding_start)"
  have e: "encode_loop sample_call ?bs encoding_start = (True, ?e)" "e_read ?e = 8"
    by code_simp+
  have "good_quoting (g_quoting sample_call)" "q_rept (g_quoting sample_call) \<noteq> 32" "\<not> g_raw sample_call"
    by (simp_all add: good_quoting_def valid_prefix_def sample_call_def)
  note sent = kermit_data_delivered [OF this e(1), of 1024]
  have "g_text sample_call = True" by (simp add: sample_call_def)
  moreover have "without_crs True (take 8 ?bs) = [0x41, 0x41, 0x41, 0x41, 0x41, 0x0A, 0xE1]"
    by (simp add: without_crs_def)
  ultimately show ?thesis using sent by (simp only: e(2) simp_thms)
qed

section \<open>Printable characters\<close>

definition printable :: "byte \<Rightarrow> bool" where
  "printable b \<longleftrightarrow> 0x20 \<le> b \<and> b \<le> 0x7E"

lemma printable_7bit: "b AND 0x80 = 0 \<longrightarrow> (if control7 b then printable (kermit_ctl b) else printable b)"
  for b :: byte
  by (rule all_nibbles [where P = "\<lambda>b. b AND 0x80 = 0 \<longrightarrow> (if control7 b then printable (kermit_ctl b) else printable b)"])
    (simp add: kermit_ctl_def printable_def control7_def)

lemma printable_prefix: "valid_prefix b \<Longrightarrow> printable b"
  by (auto simp: valid_prefix_def printable_def word_le_nat_alt)

lemma printable_count: "n \<le> 94 \<Longrightarrow> printable (kermit_tochar (of_nat n))"
  by (simp add: printable_def kermit_tochar_def word_le_nat_alt unat_word_ariths unat_of_nat)

lemma printable_char:
  assumes "good_quoting q" "q_bin q \<noteq> 32"
  shows "list_all printable (encode_char q ch)"
proof -
  define b where "b = (if needs_bin q ch then ch AND 0x7F else ch)"
  have b: "b AND 0x80 = 0" "b AND 0x7F = ch AND 0x7F" using assms(2) by (auto simp: b_def needs_bin_def)
  then have "b = ch AND 0x7F" using low_bits_all [of b] by simp
  then show ?thesis
    using printable_7bit [of b] b assms(2) good_quotingD [OF assms(1)] is_prefix_valid [OF assms(1), of b]
    by (auto simp: encode_char_cases [OF assms(1)] printable_prefix simp flip: b_def split: if_splits)
qed

lemma printable_run:
  assumes "good_quoting q" "q_bin q \<noteq> 32" "n \<le> 94"
  shows "list_all printable (encode_one_byte q b ch n)"
proof -
  have "printable 32" by (simp add: printable_def)
  then have "printable (q_rept q)" using assms(1) by (auto simp: good_quoting_def printable_prefix)
  then show ?thesis
    using printable_char [OF assms(1,2), of ch] printable_count [OF assms(3)]
    by (auto simp: encode_one_byte_def list_all_iff)
qed

definition encoding_ok :: "encoding \<Rightarrow> bool" where
  "encoding_ok e \<longleftrightarrow> list_all printable (e_data e) \<and> e_count e \<le> 94"

lemma printable_loop:
  assumes "good_quoting (g_quoting g)" "q_bin (g_quoting g) \<noteq> 32" "\<not> g_raw g"
    and "encoding_ok e"
  shows "encoding_ok (snd (encode_loop g bs e))"
  using assms
proof (induction g bs e rule: encode_loop.induct)
  case (2 g c cs e)
  have "encoding_ok (count_char g ch e')" if "encoding_ok e'" for ch e'
    using that printable_run [OF "2.prems"(1,2)] by (auto simp: encoding_ok_def count_char_def)
  with 2 show ?case by (auto simp: encoding_ok_def Let_def)
qed simp

text \<open>
  C24. With an 8-bit prefix every byte of a data field is a printable character, from space to
  tilde, whatever is in the file: what goes over a seven-bit line loses nothing, and no byte of
  the data can be taken for the mark at the beginning of a packet or for its end.
\<close>

theorem kermit_field_printable:
  assumes "good_quoting (g_quoting g)" "q_bin (g_quoting g) \<noteq> 32" "\<not> g_raw g"
    and "encode_loop g bs encoding_start = (at_end, e)"
  shows "list_all (\<lambda>b. 0x20 \<le> b \<and> b \<le> 0x7E) (encode_rest g e)"
proof -
  have "encoding_ok encoding_start" by (simp add: encoding_ok_def encoding_start_def)
  then have "encoding_ok e" using printable_loop [OF assms(1-3), of encoding_start bs] assms(4) by simp
  then have "list_all printable (encode_rest g e)"
    using printable_run [OF assms(1,2)] by (auto simp: encode_rest_def encoding_ok_def)
  then show ?thesis by (simp add: printable_def [abs_def])
qed

lemma kermit_field_printable_witness:
  "list_all (\<lambda>b. 0x20 \<le> b \<and> b \<le> 0x7E)
     (encode_rest sample_call (snd (encode_loop sample_call [0x01, 0x80, 0xFF, 0x0D] encoding_start)))"
proof -
  have "good_quoting (g_quoting sample_call)" "q_bin (g_quoting sample_call) \<noteq> 32" "\<not> g_raw sample_call"
    by (simp_all add: good_quoting_def valid_prefix_def sample_call_def)
  from kermit_field_printable [OF this prod.collapse [symmetric]] show ?thesis .
qed

section \<open>Repeat counts nobody asked for\<close>

text \<open>
  C23. The sender writes runs of more than three equal bytes with the repeat prefix even when the
  two ends did not agree on one, and \<open>REPT\<close> is a space. A run of a plain character \<open>c\<close> then
  arrives as three other bytes: a space, the count as a character, and one \<open>c\<close>.
\<close>

theorem unnegotiated_repeat_garbles:
  assumes "good_quoting q" "q_rept q = 32" "3 < n" "n \<le> 94"
    and "0x20 < c" "c < 0x7F" "\<not> is_prefix q c" "\<not> is_prefix q (kermit_tochar (of_nat n))"
  shows "\<exists>d. decode_loop_k q False False (encode_one_byte q False c n) (decoding_start m) = (True, d)
             \<and> d_out d = [0x20, of_nat (n + 32), c]"
proof -
  have plain: "decodes_to q False [b] [b]" if "\<not> is_prefix q b" for b
    unfolding decodes_to_def
  proof (intro allI impI)
    fix d r assume d: "d_clean d \<and> d_count d = 1"
    then have "d\<lparr>d_8bit := False\<rparr> = d" by (simp add: d_clean_def)
    then have reg: "decode_regular False b d = d_put_run False b d"
      using decode_regular_plain [of d False b False] d by metis
    have "decode_loop_k q False False ([b] @ r) d = decode_loop_k q False False r (d_put_run False b d)"
      using decode_last_regular [OF that, of d False r] d reg
      by (simp add: d_clean_def del: decode_loop_k.simps)
    moreover have "d_clean (d_put_run False b d)" "d_count (d_put_run False b d) = 1"
      "d_out (d_put_run False b d) = d_out d @ [b]"
      using d by (simp_all add: d_put_run_eq d_clean_def run_out_def)
    ultimately show "\<exists>d'. decode_loop_k q False False ([b] @ r) d = decode_loop_k q False False r d'
        \<and> d_clean d' \<and> d_count d' = 1 \<and> d_out d' = d_out d @ [b]" by blast
  qed
  have "\<not> valid_prefix 32" by (simp add: valid_prefix_def)
  then have "\<not> is_prefix q 32" using is_prefix_valid [OF assms(1)] by blast
  moreover have "c AND 0x80 = 0" "c AND 0x7F = c" "\<not> control7 c"
  proof -
    show "c AND 0x80 = 0" using assms(6) small_high by blast
    then show "c AND 0x7F = c" using low_bits_all by blast
    show "\<not> control7 c" using assms(5,6) by (auto simp: control7_def word_less_nat_alt)
  qed
  then have "encode_char q c = [c]"
    using assms(7) by (simp add: encode_char_cases [OF assms(1)] needs_bin_def)
  then have "encode_one_byte q False c n = ([32] @ [kermit_tochar (of_nat n)]) @ [c]"
    using assms(2,3) by (simp add: encode_one_byte_def)
  ultimately show ?thesis
    using decodes_to_whole [OF decodes_to_append [OF decodes_to_append [OF plain plain] plain]] assms(7,8)
    by (simp add: kermit_tochar_def add.commute)
qed

lemma unnegotiated_repeat_garbles_witness:
  "\<exists>d. decode_loop_k \<lparr>q_rept = 32, q_bin = 32, q_ctl = 0x23\<rparr> False False
         (encode_one_byte \<lparr>q_rept = 32, q_bin = 32, q_ctl = 0x23\<rparr> False 0x41 5) (decoding_start 1024) = (True, d)
       \<and> d_out d = [0x20, 0x25, 0x41]"
  using unnegotiated_repeat_garbles [of "\<lparr>q_rept = 32, q_bin = 32, q_ctl = 0x23\<rparr>" 5 "0x41" 1024]
  by (simp add: good_quoting_def valid_prefix_def is_prefix_def kermit_tochar_def)

end
