(* ===== verification/Kermit_Check.thy ===== *)
theory Kermit_Check
  imports Kermit_Packet
begin

text \<open>
  The checks of a Kermit packet: the table of \<open>makecrc\<close> is the one of the bit-by-bit register,
  what the sender writes behind a packet is what the receiver compares it with, and which damage
  the checks find.
\<close>

section \<open>The CRC\<close>

lemma k_crc_step_lsb: "k_crc_step = lsb_step KCRC16"
proof
  fix c :: u16
  have "c AND 1 \<noteq> 0 \<longleftrightarrow> bit c 0" using and_exp_eq_0_iff_not_bit [of c 0] by simp
  then show "k_crc_step c = lsb_step KCRC16 c" by (simp add: k_crc_step_def lsb_step_def)
qed

lemma k_makecrc_entry: "k_makecrc ! unat (i :: byte) = lsb_entry KCRC16 i"
proof -
  have i: "unat i < 256" using unsigned_less [of i, where 'a = nat] by simp
  have "of_nat (unat i) = (ucast i :: u16)" by (rule of_nat_unat)
  with i show ?thesis by (simp add: k_makecrc_def lsb_entry_def k_crc_step_lsb)
qed

lemma low_byte_index: "unat ((c XOR ucast b) AND 0xFF :: u16) = unat (ucast c XOR b :: byte)"
proof -
  have "(c XOR ucast b) AND 0xFF = (ucast (ucast c XOR b :: byte) :: u16)"
  proof (rule bit_word_eqI)
    fix i assume "i < LENGTH(16)"
    show "bit ((c XOR ucast b) AND 0xFF) i = bit (ucast (ucast c XOR b :: byte) :: u16) i"
      using \<open>i < LENGTH(16)\<close> by (auto simp: bit_ucast bit_and_iff bit_xor_iff bit_mask8
        dest: bit_imp_le_length)
  qed
  then show ?thesis by (simp add: unat_ucast_up)
qed

definition kcrc_upd :: "u16 \<Rightarrow> byte \<Rightarrow> u16" where
  "kcrc_upd = lsb_upd KCRC16"

interpretation kcrc: crc_register kcrc_upd 2
  unfolding kcrc_upd_def by (rule lsb_upd_crc_register) (simp_all add: KCRC16_def bit_iff_odd)

lemma k_compute_crc16_foldl:
  "k_compute_crc16 seven k_makecrc bs = foldl kcrc_upd 0 (map (line_byte seven) bs)"
proof -
  have "k_makecrc ! unat ((c XOR ucast b) AND 0xFF) XOR drop_bit 8 c = kcrc_upd c b" for c b
    by (simp add: low_byte_index k_makecrc_entry kcrc_upd_def lsb_upd_table xor.commute)
  then show ?thesis by (simp add: k_compute_crc16_def foldl_map)
qed

text \<open>
  The CRC of \<open>kermit.c\<close>, a byte at a time with the table of \<open>makecrc\<close>, is the bit-by-bit
  register of the reversed CCITT polynomial, starting from 0 and fed with the bytes that go over
  the line.
\<close>

theorem kermit_crc_is_register:
  "k_compute_crc16 seven k_makecrc bs = foldl (lsb_upd 0x8408) 0 (map (line_byte seven) bs)"
  by (simp add: k_compute_crc16_foldl kcrc_upd_def KCRC16_def)

section \<open>Check characters\<close>

lemma and_3F: "x AND 0x3F = take_bit 6 x" for x :: u16
  by (simp add: take_bit_eq_mask mask_eq_exp_minus_1)

lemma six_bit_mask: "bit (ucast (x AND 0x3F :: u16) :: byte) i \<longleftrightarrow> i < 6 \<and> bit x i"
  by (auto simp: and_3F bit_ucast bit_take_bit_iff)

lemma unchar_tochar [simp]: "kermit_unchar (kermit_tochar b) = b"
  by (simp add: kermit_unchar_def kermit_tochar_def)

lemma six_up: "(ucast (ucast (x AND 0x3F :: u16) :: byte) :: u32) = ucast (take_bit 6 x)"
proof (rule bit_word_eqI)
  fix i
  show "bit (ucast (ucast (x AND 0x3F :: u16) :: byte) :: u32) i = bit (ucast (take_bit 6 x) :: u32) i"
    if "i < LENGTH(32)"
    using that by (auto simp: bit_ucast and_3F bit_take_bit_iff)
qed

lemma number_12:
  "push_bit 6 (ucast (take_bit 6 (drop_bit 6 s))) OR ucast (take_bit 6 s) = (ucast (take_bit 12 s) :: u32)"
  for s :: u16
proof (rule bit_word_eqI)
  fix i assume "i < LENGTH(32)"
  then show "bit (push_bit 6 (ucast (take_bit 6 (drop_bit 6 s))) OR ucast (take_bit 6 s) :: u32) i
      = bit (ucast (take_bit 12 s) :: u32) i"
    by (auto simp: bit_or_iff bit_push_bit_iff bit_ucast bit_take_bit_iff bit_drop_bit_eq)
qed

lemma number_16:
  "push_bit 12 (ucast (take_bit 4 (drop_bit 12 s))) OR push_bit 6 (ucast (take_bit 6 (drop_bit 6 s)))
     OR ucast (take_bit 6 s) = (ucast s :: u32)"
  for s :: u16
proof (rule bit_word_eqI)
  fix i assume "i < LENGTH(32)"
  then show "bit (push_bit 12 (ucast (take_bit 4 (drop_bit 12 s))) OR push_bit 6 (ucast (take_bit 6 (drop_bit 6 s)))
      OR ucast (take_bit 6 s) :: u32) i = bit (ucast s :: u32) i"
    by (cases "i < 6"; cases "i < 12") (auto simp: bit_or_iff bit_push_bit_iff bit_ucast bit_take_bit_iff bit_drop_bit_eq
        dest: bit_imp_le_length)
qed

lemma four_up: "(ucast (ucast (x AND 0x0F :: u16) :: byte) :: u32) = ucast (take_bit 4 x)"
proof (rule bit_word_eqI)
  fix i
  have "x AND 0x0F = take_bit 4 x" by (simp add: take_bit_eq_mask mask_eq_exp_minus_1)
  then show "bit (ucast (ucast (x AND 0x0F :: u16) :: byte) :: u32) i = bit (ucast (take_bit 4 x) :: u32) i"
    if "i < LENGTH(32)"
    using that by (auto simp: bit_ucast bit_take_bit_iff)
qed

lemma six_plus_one: "ucast (ucast (x AND 0x3F :: u16) + 1 :: byte) - 1 = (ucast (ucast (x AND 0x3F) :: byte) :: u32)"
proof -
  let ?s = "ucast (x AND 0x3F :: u16) :: byte"
  have "take_bit 6 ?s = ?s"
    by (rule bit_word_eqI) (auto simp: bit_take_bit_iff six_bit_mask)
  then have "unat ?s < 64" using take_bit_nat_less_exp [of 6 "unat ?s"] by (simp flip: unsigned_take_bit_eq)
  then have "unat (?s + 1) = unat ?s + 1" by (simp add: unat_word_ariths)
  then have "of_nat (unat (?s + 1)) = (of_nat (unat ?s) + 1 :: u32)" by (simp only: of_nat_add of_nat_1)
  then show ?thesis by simp
qed

lemma ucast_inj_up: "(ucast (x :: u16) :: u32) = ucast y \<longleftrightarrow> x = y"
proof
  assume "(ucast x :: u32) = ucast y"
  then have "(ucast (ucast x :: u32) :: u16) = ucast (ucast y :: u32)" by simp
  then show "x = y" by (simp add: ucast_ucast_down)
qed simp

lemma checksum2_12: "take_bit 12 (compute_checksum2 seven bs) = compute_checksum2 seven bs"
proof -
  have "x AND 0xFFF = take_bit 12 x" for x :: u16 by (simp add: take_bit_eq_mask mask_eq_exp_minus_1)
  then show ?thesis by (simp add: compute_checksum2_def)
qed

lemma check_matches_1 [simp]:
  "check_matches seven tab 1 bs (check_bytes seven tab 1 bs')
     \<longleftrightarrow> compute_checksum seven bs = compute_checksum seven bs'"
  by (simp add: check_matches_def check_bytes_def kermit_tochar_def Let_def)

lemma check_matches_2 [simp]:
  "check_matches seven tab 2 bs (check_bytes seven tab 2 bs')
     \<longleftrightarrow> compute_checksum2 seven bs = compute_checksum2 seven bs'"
  by (simp add: check_matches_def check_bytes_def Let_def six_up number_12 checksum2_12 ucast_inj_up)

lemma check_matches_12 [simp]:
  "check_matches seven tab 12 bs (check_bytes seven tab 12 bs')
     \<longleftrightarrow> compute_checksum2 seven bs = compute_checksum2 seven bs'"
  by (simp add: check_matches_def check_bytes_def Let_def six_plus_one six_up number_12 checksum2_12 ucast_inj_up)

lemma check_matches_3 [simp]:
  "check_matches seven tab 3 bs (check_bytes seven tab 3 bs')
     \<longleftrightarrow> k_compute_crc16 seven tab bs = k_compute_crc16 seven tab bs'"
  by (simp add: check_matches_def check_bytes_def Let_def four_up six_up number_16 ucast_inj_up)

lemma check_matches_self:
  "ct \<in> {1, 2, 3, 12} \<Longrightarrow> check_matches seven tab ct bs (check_bytes seven tab ct bs)"
  by auto

lemma length_check_bytes:
  "ct \<in> {1, 2, 3, 12} \<Longrightarrow> length (check_bytes seven tab ct bs) = check_length ct"
  by (auto simp: check_bytes_def check_length_def Let_def)

section \<open>What the checks find\<close>

text \<open>
  C25. Damage to a packet is noticed: the CRC tells two packets apart that differ in at most two
  neighbouring bytes, the two sums of twelve bits two packets that differ in one byte. The receiver
  does not accept the check characters of the one for the other.
\<close>

theorem kermit_damage_detected:
  assumes "length bs = length cs" "bs \<noteq> cs"
    and "ct = 3 \<and> length bs \<le> 2 \<or> ct \<in> {2, 12} \<and> length bs \<le> 1"
  shows "\<not> check_matches False k_makecrc ct (xs @ cs @ ys) (check_bytes False k_makecrc ct (xs @ bs @ ys))"
proof (cases "ct = 3")
  case True
  have "map (line_byte False) zs = zs" for zs by (simp add: line_byte_def map_idI)
  with True assms kcrc.burst_detected [of bs cs 0 xs ys] show ?thesis
    by (auto simp: k_compute_crc16_foldl)
next
  case False
  then have ct: "ct \<in> {2, 12}" "length bs \<le> 1" using assms(3) by auto
  with assms(1,2) obtain b c where bc: "bs = [b]" "cs = [c]" "b \<noteq> c"
    by (cases bs; cases cs) auto
  have 12: "x AND 0xFFF = take_bit 12 x" for x :: u16 by (simp add: take_bit_eq_mask mask_eq_exp_minus_1)
  have "compute_checksum2 False (xs @ cs @ ys) \<noteq> compute_checksum2 False (xs @ bs @ ys)"
  proof
    define s where "s = sum_list (map ucast (xs @ ys)) + (0 :: u16)"
    assume "compute_checksum2 False (xs @ cs @ ys) = compute_checksum2 False (xs @ bs @ ys)"
    then have "take_bit 12 (s + ucast c) = take_bit 12 (s + (ucast b :: u16))"
      by (simp add: compute_checksum2_def line_byte_def 12 bc s_def algebra_simps)
    then have "uint (take_bit 12 (s + ucast c)) = uint (take_bit 12 (s + (ucast b :: u16)))" by simp
    moreover have "uint (take_bit 12 (s + (ucast z :: u16))) = (uint s + uint z) mod 4096" for z :: byte
    proof -
      have "uint (ucast z :: u16) = uint z" by (simp add: uint_up_ucast is_up)
      then have "uint (s + (ucast z :: u16)) = (uint s + uint z) mod 2 ^ 16" by (simp only: uint_word_ariths) simp
      moreover have "uint (take_bit 12 (s + (ucast z :: u16))) = take_bit 12 (uint (s + (ucast z :: u16)))"
        by (rule unsigned_take_bit_eq)
      ultimately show ?thesis by (simp only: take_bit_eq_mod) (simp add: mod_mod_cancel)
    qed
    ultimately have "(uint s + uint c) mod 4096 = (uint s + uint b) mod 4096" by simp
    then have "(uint s + uint c - uint s) mod 4096 = (uint s + uint b - uint s) mod 4096"
      by (rule mod_diff_cong) simp
    moreover have "0 \<le> uint z \<and> uint z < 4096" for z :: byte
      using unsigned_greater_eq [of z, where 'a = int] unsigned_less [of z, where 'a = int] by simp
    ultimately have "uint c = uint b" by simp
    then show False using bc(3) by (metis word_uint_eq_iff)
  qed
  with ct show ?thesis by auto
qed

lemma kermit_damage_detected_witness:
  "\<not> check_matches False k_makecrc 3 ([0x25] @ [0x41, 0x43] @ [0x44])
       (check_bytes False k_makecrc 3 ([0x25] @ [0x43, 0x41] @ [0x44]))"
proof -
  have "[0x43, 0x41] \<noteq> ([0x41, 0x43] :: byte list)" by simp
  from kermit_damage_detected [OF _ this, of 3 "[0x25]" "[0x44]"] show ?thesis by simp
qed

end
