(* ===== verification/Kermit_Link.thy ===== *)
theory Kermit_Link
  imports Samples Kermit_Quote Kermit_Check
begin

text \<open>
  Packets from one end to the other: what \<open>encode_output_packet\<close> puts on the line, and what
  \<open>decode_input_bytes\<close> makes of it.
\<close>

section \<open>A packet on the line\<close>

definition wire_body :: "bool \<Rightarrow> int \<Rightarrow> packet_type \<Rightarrow> int \<Rightarrow> byte list \<Rightarrow> byte list" where
  "wire_body long seq t ct data = packet_head long seq t (length data) (check_length ct) @ data"

definition wire_packet :: "byte \<Rightarrow> bool \<Rightarrow> int \<Rightarrow> bool \<Rightarrow> int \<Rightarrow> packet_type \<Rightarrow> byte list \<Rightarrow> byte list" where
  "wire_packet mark seven ct long seq t data =
     mark # wire_body long seq t ct data @ check_bytes seven k_makecrc ct (wire_body long seq t ct data)"

lemma length_packet_head [simp]: "length (packet_head long seq t n cl) = (if long then 6 else 3)"
  by (simp add: packet_head_def Let_def)

lemma length_wire_packet:
  "ct \<in> {1, 2, 3, 12} \<Longrightarrow>
    length (wire_packet mark seven ct long seq t data) = 1 + (if long then 6 else 3) + length data + check_length ct"
  by (simp add: wire_packet_def wire_body_def length_check_bytes)

lemma check_length_bounds: "ct \<in> {1, 2, 3, 12} \<Longrightarrow> 1 \<le> check_length ct \<and> check_length ct \<le> 3"
  by (auto simp: check_length_def)

lemma packet_type_of_char: "t \<noteq> P_KNONE \<Longrightarrow> packet_type_of (packet_char t) = t"
  by (cases t) (simp_all add: packet_type_of_def packet_char_def packet_type_chars_def)

lemma unchar_tochar_of_nat: "n < 256 \<Longrightarrow> uint (kermit_unchar (kermit_tochar (of_nat n))) = int n"
  by (simp add: unsigned_of_nat take_bit_nat_eq_self_iff uint_word_of_int flip: of_nat_take_bit)

lemma unchar_tochar_of_int: "0 \<le> i \<Longrightarrow> i < 64 \<Longrightarrow> uint (kermit_unchar (kermit_tochar (word_of_int i))) = i"
  by (simp add: uint_word_of_int)

lemma slice_middle: "length xs = i \<Longrightarrow> length ys = n \<Longrightarrow> slice i n (xs @ ys @ zs) = ys"
  by (simp add: slice_def)

lemma buffer_slice_middle:
  "k_buffer k = xs @ ys @ zs \<Longrightarrow> length xs = i \<Longrightarrow> length ys = n \<Longrightarrow> buffer_slice k i n = Inr ys"
  by (simp add: buffer_slice_def slice_middle)

text \<open>Small numbers as unsigned integers.\<close>

lemma unat_small: "m < 4294967296 \<Longrightarrow> unat (of_nat m :: u32) = m"
  by (simp add: unat_of_nat)

lemma not_less_small:
  assumes "a + c \<le> n" "n \<le> 2048"
  shows "\<not> (of_nat n - of_nat c :: u32) < word_of_int (int a)"
proof -
  have "(of_nat n - of_nat c :: u32) = of_nat (n - c)"
    by (rule of_nat_diff [symmetric]) (use assms in simp)
  moreover have "(word_of_int (int a) :: u32) = of_nat a" by (rule of_int_of_nat_eq)
  ultimately show ?thesis
    using assms unat_small [of "n - c"] unat_small [of a] by (simp only: word_less_nat_alt)
qed

section \<open>The receiver finds it\<close>

text \<open>The packet when its header was read, and the check was found right.\<close>

definition headed :: "int \<Rightarrow> packet_type \<Rightarrow> int \<Rightarrow> bool \<Rightarrow> kermit \<Rightarrow> kermit" where
  "headed seq t len long j =
     j\<lparr>input_packet := \<lparr>parsed_ok = False, kp_seq = seq, kp_type = t, kp_length = len, long_packet = long,
                        kp_data = [], data_max = data_max (input_packet j)\<rparr>\<rparr>"

lemma headed_simps [simp]:
  "kp_type (input_packet (headed seq t l long j)) = t" "kp_seq (input_packet (headed seq t l long j)) = seq"
  "kp_length (input_packet (headed seq t l long j)) = l" "long_packet (input_packet (headed seq t l long j)) = long"
  "data_max (input_packet (headed seq t l long j)) = data_max (input_packet j)"
  "k_buffer (headed seq t l long j) = k_buffer j" "k_buffer_n (headed seq t l long j) = k_buffer_n j"
  "session_parms (headed seq t l long j) = session_parms j" "remote_parms (headed seq t l long j) = remote_parms j"
  "seven_bit_only (headed seq t l long j) = seven_bit_only j" "k_crc_16_tab (headed seq t l long j) = k_crc_16_tab j"
  "k_state (headed seq t l long j) = k_state j" "k_file_stream (headed seq t l long j) = k_file_stream j"
  "text_mode (headed seq t l long j) = text_mode j" "k_sending (headed seq t l long j) = k_sending j"
  "input_check_type t' c (headed seq t l long j) = input_check_type t' c j"
  by (simp_all add: headed_def input_check_type_def split: packet_type.splits)

text \<open>What is done with the data, which starts at the index \<open>b\<close>.\<close>

definition decode_rest :: "nat \<Rightarrow> nat \<Rightarrow> nat \<Rightarrow> kermit \<Rightarrow> k_decoded" where
  "decode_rest b n d k =
     bind_res (decode_data_field b n k) (\<lambda>(ok, k1).
       if \<not> ok then reject_packet k1
       else bind_res (process_payload (k1\<lparr>input_packet := (input_packet k1)\<lparr>parsed_ok := True\<rparr>\<rparr>))
              (\<lambda>k2. Inr (True, d, k2)))"

lemma decode_body_wire:
  assumes ct: "ct \<in> {1, 2, 3, 12}" "input_check_type (kp_type (input_packet k)) len k = ct"
    and tab: "k_crc_16_tab k = k_makecrc"
    and buf: "k_buffer k = mark # body @ check_bytes (seven_bit_only k) k_makecrc ct body @ rest"
    and len: "length body = b - 1 + n" "1 \<le> b" "n < 10000"
    and kl: "kp_length (input_packet k) = int (n + extra + check_length ct)" "extra < 10" "b < 10"
  shows "decode_body 0 len b extra k = decode_rest b n (n + b + check_length ct) k"
proof -
  let ?cs = "check_bytes (seven_bit_only k) k_makecrc ct body"
  have cl: "check_length ct < 10" using check_length_bounds [OF ct(1)] by simp
  have dl: "word_of_int (kp_length (input_packet k)) - of_nat extra - of_nat (check_length ct) = (of_nat n :: u32)"
    by (simp add: kl)
  have n: "unat (of_nat n :: u32) = n" using len unat_small [of n] by simp
  have region: "unat (of_nat n + of_nat (b - (0 + 1)) :: u32) = n + (b - 1)"
    using len kl(3) unat_small [of "n + (b - 1)"] by (simp only: of_nat_add add_0)
  have 1: "buffer_slice k (0 + 1) (n + (b - 1)) = Inr body"
    by (rule buffer_slice_middle [where xs = "[mark]"]) (simp_all add: buf len)
  have 2: "buffer_slice k (0 + 1 + (n + (b - 1))) (check_length ct) = Inr ?cs"
    by (rule buffer_slice_middle [where xs = "mark # body"]) (use ct in \<open>simp_all add: buf len length_check_bytes\<close>)
  have d: "nat (int b + kp_length (input_packet k) - int extra) = n + b + check_length ct"
    by (simp add: kl)
  have cs: "(if ct \<in> {1, 2, 3, 12} then check_length ct else 0) = check_length ct" using ct(1) by simp
  show ?thesis
    unfolding decode_body_def Let_def ct(2) dl region 1 cs bind_res.simps 2 tab n d decode_rest_def
    by (simp add: check_matches_self [OF ct(1)])
qed

lemma decode_input_short:
  assumes ct: "ct \<in> {1, 2, 3, 12}" "input_check_type t (kermit_tochar (of_nat (length data + 2 + check_length ct))) j = ct"
    and tab: "k_crc_16_tab j = k_makecrc"
    and buf: "k_buffer j = wire_packet (MARK (session_parms j)) (seven_bit_only j) ct False seq t data @ rest"
    and there: "length data + check_length ct + 4 \<le> k_buffer_n j" "k_buffer_n j \<le> 2048"
    and seq: "0 \<le> seq" "seq < 64" and t: "t \<noteq> P_KNONE"
    and fits: "length data + 2 + check_length ct \<le> unat (MAXL (session_parms j))"
  shows "decode_input_bytes j
       = decode_rest 4 (length data) (length data + 4 + check_length ct)
           (headed seq t (int (length data + 2 + check_length ct)) False j)"
proof -
  let ?cl = "check_length ct" and ?n = "length data"
  let ?l = "?n + 2 + ?cl"
  have cl: "1 \<le> ?cl" "?cl \<le> 3" using check_length_bounds [OF ct(1)] by simp_all
  have l: "?l < 256" using fits unsigned_less [of "MAXL (session_parms j)", where 'a = nat] by simp
  let ?len = "kermit_tochar (of_nat ?l)"
  have ul: "uint (kermit_unchar ?len) = int ?l" using l by (rule unchar_tochar_of_nat)
  have buf': "k_buffer j = MARK (session_parms j) # ?len # kermit_tochar (word_of_int seq) # packet_char t # data
      @ check_bytes (seven_bit_only j) k_makecrc ct (wire_body False seq t ct data) @ rest"
    by (simp add: buf wire_packet_def wire_body_def packet_head_def)
  have there': "\<not> (of_nat (k_buffer_n j) - of_nat 2 :: u32) < word_of_int (int ?l)"
    by (rule not_less_small) (use there in simp_all)
  have "uint (MAXL (session_parms j)) = int (unat (MAXL (session_parms j)))" by (rule uint_nat)
  then have "\<not> uint (MAXL (session_parms j)) < int ?l" using fits by (simp only: of_nat_less_iff not_less)
  let ?k1 = "j\<lparr>input_packet := zero_packet (data_max (input_packet j))\<rparr>"
  have "decode_input_bytes j = decode_from_mark 0 ?k1"
    using there cl by (auto simp: decode_input_bytes_def Let_def buf' take_Cons')
  also have "\<dots> = decode_body 0 ?len 4 2 (headed seq t (int ?l) False j)"
  proof -
    have s: "buffer_slice ?k1 2 2 = Inr [kermit_tochar (word_of_int seq), packet_char t]"
      by (rule buffer_slice_middle [where xs = "[MARK (session_parms j), ?len]"]) (simp_all add: buf')
    have a: "buffer_at ?k1 (0 + 1) = Inr ?len" by (simp add: buffer_at_def buf')
    have c: "\<not> int ?l < 3" "int ?l \<noteq> 0" using cl by simp_all
    have "\<not> 63 < seq" using seq by simp
    then show ?thesis
      unfolding decode_from_mark_def Let_def a bind_res.simps ul
      using there' \<open>\<not> uint (MAXL (session_parms j)) < int ?l\<close>
      by (simp only: c simp_thms if_False if_True s bind_res.simps nth_Cons_0 nth_Cons_Suc One_nat_def
          unchar_tochar_of_int [OF seq] kermit.simps kermit_packet.simps add_0)
        (simp add: packet_type_of_char [OF t] headed_def zero_packet_def)
  qed
  also have "\<dots> = decode_rest 4 ?n (?n + 4 + ?cl) (headed seq t (int ?l) False j)"
    by (rule decode_body_wire [where mark = "MARK (session_parms j)" and body = "wire_body False seq t ct data" and rest = rest])
      (use ct tab l in \<open>simp_all add: buf wire_packet_def wire_body_def\<close>)
  finally show ?thesis .
qed

lemma decode_input_long:
  assumes ct: "input_check_type t (kermit_tochar 0) j = 3"
    and tab: "k_crc_16_tab j = k_makecrc" and long: "long_packets (session_parms j)"
    and buf: "k_buffer j = wire_packet (MARK (session_parms j)) (seven_bit_only j) 3 True seq t data @ rest"
    and there: "length data + 10 \<le> k_buffer_n j" "k_buffer_n j \<le> 2048"
    and seq: "0 \<le> seq" "seq < 64" and t: "t \<noteq> P_KNONE"
    and fits: "length data + 3 \<le> unat (MAXLX1 (session_parms j)) * 95 + unat (MAXLX2 (session_parms j))"
  shows "decode_input_bytes j
       = decode_rest 7 (length data) (length data + 10) (headed seq t (int (length data + 8)) True j)"
proof -
  let ?n = "length data"
  let ?l1 = "kermit_tochar (of_nat ((?n + 3) div 95))" and ?l2 = "kermit_tochar (of_nat ((?n + 3) mod 95))"
  let ?h5 = "[kermit_tochar 0, kermit_tochar (word_of_int seq), packet_char t, ?l1, ?l2]"
  let ?head = "?h5 @ [kermit_tochar (header_check ?h5)]"
  let ?cs = "check_bytes (seven_bit_only j) k_makecrc 3 (wire_body True seq t 3 data)"
  have buf': "k_buffer j = MARK (session_parms j) # ?head @ data @ ?cs @ rest"
    by (simp add: buf wire_packet_def wire_body_def packet_head_def Let_def)
  let ?k1 = "j\<lparr>input_packet := zero_packet (data_max (input_packet j))\<rparr>"
  have "decode_input_bytes j = decode_from_mark 0 ?k1"
    using there by (auto simp: decode_input_bytes_def Let_def buf' take_Cons')
  also have "\<dots> = decode_long 0 (kermit_tochar 0) (headed seq t 0 True j)"
  proof -
    have s: "buffer_slice ?k1 2 2 = Inr [kermit_tochar (word_of_int seq), packet_char t]"
      by (rule buffer_slice_middle [where xs = "[MARK (session_parms j), kermit_tochar 0]"]) (simp_all add: buf')
    have a: "buffer_at ?k1 (0 + 1) = Inr (kermit_tochar 0)" by (simp add: buffer_at_def buf')
    have ul: "uint (kermit_unchar (kermit_tochar 0)) = 0" by simp
    have there': "\<not> (of_nat (k_buffer_n j) - of_nat 2 :: u32) < 5"
      using not_less_small [of 5 2 "k_buffer_n j"] there by simp
    have "\<not> 63 < seq" using seq by simp
    then show ?thesis
      unfolding decode_from_mark_def Let_def a bind_res.simps ul
      using there' long
      by (simp only: simp_thms if_False if_True s bind_res.simps nth_Cons_0 nth_Cons_Suc One_nat_def
          unchar_tochar_of_int [OF seq] kermit.simps kermit_packet.simps add_0)
        (simp add: packet_type_of_char [OF t] headed_def zero_packet_def)
  qed
  also have "\<dots> = decode_body 0 (kermit_tochar 0) 7 5 (headed seq t (int (?n + 8)) True j)"
  proof -
    let ?k = "headed seq t 0 True j"
    have small: "(?n + 3) div 95 < 256" "(?n + 3) mod 95 < 256" using there by auto
    have s: "buffer_slice ?k (0 + 1) 6 = Inr ?head"
      by (rule buffer_slice_middle [where xs = "[MARK (session_parms j)]"]) (simp_all add: buf')
    have h: "?head ! 3 = ?l1" "?head ! 4 = ?l2" "?head ! 5 = kermit_tochar (header_check ?h5)" "take 5 ?head = ?h5"
      by simp_all
    have "int ((?n + 3) div 95) * 95 + int ((?n + 3) mod 95) = int ((?n + 3) div 95 * 95 + (?n + 3) mod 95)"
      by (simp only: of_nat_add of_nat_mult of_nat_numeral)
    then have l: "uint (kermit_unchar ?l1) * 95 + uint (kermit_unchar ?l2) = int (?n + 3)"
      unfolding unchar_tochar_of_nat [OF small(1)] unchar_tochar_of_nat [OF small(2)] by (simp only: div_mult_mod_eq)
    have "int (unat (MAXLX1 (session_parms j)) * 95 + unat (MAXLX2 (session_parms j)))
        = uint (MAXLX1 (session_parms j)) * 95 + uint (MAXLX2 (session_parms j))"
      by (simp only: of_nat_add of_nat_mult of_nat_numeral uint_nat)
    then have m: "\<not> uint (MAXLX1 (session_parms j)) * 95 + uint (MAXLX2 (session_parms j)) < int (?n + 3)"
      using fits by linarith
    have there': "\<not> (of_nat (k_buffer_n j) - of_nat 7 :: u32) < word_of_int (int (?n + 3))"
      by (rule not_less_small) (use there in simp_all)
    have l5: "int (?n + 3) + 5 = int (?n + 8)" by simp
    show ?thesis
      unfolding decode_long_def Let_def s bind_res.simps h l headed_simps l5
      using m there' by (simp add: headed_def)
  qed
  also have "\<dots> = decode_rest 7 ?n (?n + 7 + check_length 3) (headed seq t (int (?n + 8)) True j)"
    by (rule decode_body_wire [where mark = "MARK (session_parms j)" and ct = 3 and body = "wire_body True seq t 3 data" and rest = rest])
      (use ct tab there in \<open>simp_all add: buf wire_packet_def wire_body_def check_length_def\<close>)
  finally show ?thesis by (simp add: check_length_def add.commute)
qed

section \<open>A piece of a file\<close>

text \<open>
  What the two ends must have in common: the parameters of the session, so that a packet of the one
  can be read by the other. A long packet counts three bytes for its check, whatever the check is.
\<close>

definition tuned :: "kermit \<Rightarrow> kermit \<Rightarrow> bool" where
  "tuned k j \<longleftrightarrow>
     (let s = session_parms k; r = session_parms j in
      MARK s = MARK r \<and> MAXL s = MAXL r \<and> long_packets s = long_packets r
      \<and> MAXLX1 s = MAXLX1 r \<and> MAXLX2 s = MAXLX2 r
      \<and> seven_bit_only k = seven_bit_only j \<and> k_crc_16_tab k = k_makecrc \<and> k_crc_16_tab j = k_makecrc
      \<and> check_type k = check_type j \<and> check_type k \<in> {1, 2, 3, 12} \<and> (long_packets s \<longrightarrow> check_type k = 3)
      \<and> decode_quoting j = g_quoting (encode_call_of k) \<and> can_repeat (encode_call_of k)
      \<and> text_mode k = text_mode j)"

text \<open>The size of a packet as it is limited by the receiver, \<open>n\<close> bytes with mark and end of line.\<close>

definition packet_fits :: "session_parameters \<Rightarrow> nat \<Rightarrow> bool" where
  "packet_fits s n \<longleftrightarrow>
     (if long_packets s then n \<le> unat (MAXLX1 s) * 95 + unat (MAXLX2 s) + 8 else n \<le> unat (MAXL s) + 3)"

text \<open>The sender reads bytes of the file into a packet.\<close>

definition file_call :: "kermit \<Rightarrow> encode_call" where
  "file_call k = encode_call_of (k\<lparr>output_packet := (output_packet k)\<lparr>long_packet := long_packets (session_parms k)\<rparr>\<rparr>)"

lemma file_call_simps:
  "g_quoting (file_call k) = g_quoting (encode_call_of k)" "g_text (file_call k) = text_mode k"
  "kp_type (output_packet k) = P_KDATA \<Longrightarrow> \<not> g_raw (file_call k)"
  by (simp_all add: file_call_def encode_call_of_def Let_def)

lemma k_increment_blocks_frame:
  "k_stats_increment_blocks k = Inr k1 \<Longrightarrow> k_out k1 = k_out k \<and> outstanding_bytes k1 = outstanding_bytes k"
  by (auto simp: k_stats_increment_blocks_def k_stats_def Let_def split: if_splits)

lemma encode_output_wire:
  assumes k: "kp_type (output_packet k) = P_KDATA" "parsed_ok (output_packet k)" "k_state k = KM_SDW"
    and fl: "k_file_stream k = Some f" "\<not> f_bad f" "0 \<le> k_file_position k"
    and tab: "k_crc_16_tab k = k_makecrc" and ct: "check_type k \<in> {1, 2, 3, 12}"
    and sent: "encode_output_packet k = Inr k'"
  shows "\<exists>at_end e. encode_loop (file_call k) (drop (nat (k_file_position k)) (f_data f)) encoding_start = (at_end, e)
     \<and> outstanding_bytes k' = int (e_read e)
     \<and> k_out k' = k_out k @ wire_packet (MARK (session_parms k)) (seven_bit_only k) (check_type k)
          (long_packets (session_parms k)) (kp_seq (output_packet k)) P_KDATA (encode_rest (file_call k) e)
          @ [EOL (session_parms k)]"
proof -
  obtain at_end e where e: "encode_loop (file_call k) (drop (nat (k_file_position k)) (f_data f)) encoding_start = (at_end, e)"
    by fastforce
  have f: "\<not> f_bad (fseek_set (k_file_position k) f)"
    "f_pos (fseek_set (k_file_position k) f) = nat (k_file_position k)"
    using fl by (simp_all add: fseek_set_def)
  have oct: "output_check_type k = check_type k" using k(1) by (simp add: output_check_type_def)
  show ?thesis
    using sent ct
    by (auto simp: encode_output_packet_def k oct Let_def encode_data_field_def fl f
        e [unfolded file_call_def] bind_res_Inr put_output_def wire_packet_def wire_body_def tab file_call_def
        k_stats_def split: if_splits dest!: k_increment_blocks_frame)
qed

text \<open>The receiver of a file takes the data out.\<close>

lemma decode_rest_data:
  assumes j: "k_state j = KM_RDW" "k_file_stream j \<noteq> None"
    and buf: "k_buffer j = xs @ data @ ys" "length xs = b" "length data = n"
    and dec: "decode_loop_k (decode_quoting j) False (text_mode j) data (decoding_start (data_max (input_packet j))) = (True, e)"
  shows "decode_rest b n d (headed seq P_KDATA l long j)
       = Inr (True, d, j\<lparr>input_packet := \<lparr>parsed_ok = True, kp_seq = seq, kp_type = P_KDATA, kp_length = l,
                           long_packet = long, kp_data = d_out e, data_max = d_max e\<rparr>\<rparr>)"
proof -
  let ?j = "headed seq P_KDATA l long j"
  from j(2) obtain f where "k_file_stream j = Some f" by auto
  have q: "decode_quoting ?j = decode_quoting j" by (simp add: decode_quoting_def)
  have "slice b n (k_buffer ?j) = data" "\<not> length (k_buffer ?j) < b + n"
    using buf by (simp_all add: slice_middle)
  then have "decode_data_field b n ?j
      = Inr (True, ?j\<lparr>input_packet := (input_packet ?j)\<lparr>kp_data := d_out e, data_max := d_max e\<rparr>\<rparr>)"
    using j(1) dec \<open>k_file_stream j = Some f\<close> by (simp add: decode_data_field_def q Let_def)
  then show ?thesis
    by (simp add: decode_rest_def process_payload_def Let_def) (simp add: headed_def)
qed

text \<open>
  C3. A piece of a file arrives. The sender in the state SDW reads its file from
  \<open>file_position\<close> on and puts a data packet on the line; the receiver in the state RDW, which has
  its file open and agreed on the same parameters, finds the packet at the front of its buffer,
  finds its check right, and has as data the bytes the sender counts as outstanding, of a text
  without the CRs. It takes all of the packet but the end of line, and nothing else of its state
  changes. This holds for two ends that are \<open>tuned\<close>: they agree on MARK, line width, quoting and
  check, have negotiated the repeat prefix, and use long packets only with the CRC; the check of
  short packets is any of the four, with or without an 8-bit prefix. The packet must be no longer
  than the receiver said it can be. (Without a negotiated repeat prefix, and with full short
  packets and the CRC, data does get lost, as shown further on.)
\<close>

theorem kermit_data_packet_delivered:
  assumes sender: "kp_type (output_packet k) = P_KDATA" "parsed_ok (output_packet k)" "k_state k = KM_SDW"
      "k_file_stream k = Some f" "\<not> f_bad f" "0 \<le> k_file_position k"
      "0 \<le> kp_seq (output_packet k)" "kp_seq (output_packet k) < 64"
    and sent: "encode_output_packet k = Inr k'" "packet = drop (length (k_out k)) (k_out k')"
    and receiver: "k_state j = KM_RDW" "k_file_stream j \<noteq> None" "tuned k j"
      "k_buffer j = packet @ rest" "length packet \<le> k_buffer_n j" "k_buffer_n j \<le> 2048"
      "packet_fits (session_parms j) (length packet)"
  shows "\<exists>n p. decode_input_bytes j = Inr (True, n, j\<lparr>input_packet := p\<rparr>) \<and> n + 1 = length packet
    \<and> parsed_ok p \<and> kp_type p = P_KDATA \<and> kp_seq p = kp_seq (output_packet k)
    \<and> kp_data p = without_crs (text_mode k)
        (take (nat (outstanding_bytes k')) (drop (nat (k_file_position k)) (f_data f)))"
proof -
  let ?s = "session_parms j" and ?ct = "check_type k" and ?seq = "kp_seq (output_packet k)"
  have t: "MARK (session_parms k) = MARK ?s" "long_packets (session_parms k) = long_packets ?s"
    "seven_bit_only k = seven_bit_only j" "k_crc_16_tab k = k_makecrc" "k_crc_16_tab j = k_makecrc"
    "check_type j = ?ct" "?ct \<in> {1, 2, 3, 12}" "long_packets ?s \<Longrightarrow> ?ct = 3"
    "decode_quoting j = g_quoting (file_call k)" "can_repeat (file_call k)" "text_mode j = text_mode k"
    using receiver(3) by (auto simp: tuned_def Let_def file_call_simps can_repeat_def)
  from encode_output_wire [OF sender(1-6) t(4,7) sent(1)] obtain at_end e where
    e: "encode_loop (file_call k) (drop (nat (k_file_position k)) (f_data f)) encoding_start = (at_end, e)"
    and out: "outstanding_bytes k' = int (e_read e)"
    and wire: "k_out k' = k_out k @ wire_packet (MARK (session_parms k)) (seven_bit_only k) ?ct
        (long_packets (session_parms k)) ?seq P_KDATA (encode_rest (file_call k) e) @ [EOL (session_parms k)]"
    by blast
  define data where "data = encode_rest (file_call k) e"
  have pk: "packet = wire_packet (MARK ?s) (seven_bit_only j) ?ct (long_packets ?s) ?seq P_KDATA data @ [EOL (session_parms k)]"
    using wire sent(2) t(1-3) by (simp add: data_def)
  have len: "length packet = length data + check_length ?ct + (if long_packets ?s then 8 else 5)"
    by (simp add: pk length_wire_packet [OF t(7)])
  obtain d where d: "decode_loop_k (decode_quoting j) False (text_mode j) data (decoding_start (data_max (input_packet j))) = (True, d)"
    "d_out d = without_crs (text_mode k) (take (e_read e) (drop (nat (k_file_position k)) (f_data f)))"
    using kermit_data_delivered [OF _ _ _ e, of "data_max (input_packet j)"] t(9-11) sender(1)
    by (auto simp: can_repeat_def data_def file_call_simps)
  have ict: "input_check_type P_KDATA c j = ?ct" for c using t(6) by (simp add: input_check_type_def)
  have buf: "k_buffer j = wire_packet (MARK ?s) (seven_bit_only j) ?ct (long_packets ?s) ?seq P_KDATA data
      @ EOL (session_parms k) # rest" using receiver(4) pk by simp
  let ?p = "\<lambda>l. \<lparr>parsed_ok = True, kp_seq = ?seq, kp_type = P_KDATA, kp_length = int l,
                 long_packet = long_packets ?s, kp_data = d_out d, data_max = d_max d\<rparr>"
  show ?thesis
  proof (cases "long_packets ?s")
    case False
    let ?n = "length data + 4 + check_length ?ct" and ?l = "length data + 2 + check_length ?ct"
    have "decode_input_bytes j = decode_rest 4 (length data) ?n (headed ?seq P_KDATA (int ?l) False j)"
      by (rule decode_input_short [OF t(7) ict t(5)])
        (use buf False receiver(5-7) len sender(7,8) in \<open>simp_all add: packet_fits_def\<close>)
    also have "\<dots> = Inr (True, ?n, j\<lparr>input_packet := ?p ?l\<rparr>)"
    proof -
      have "k_buffer j = (MARK ?s # packet_head False ?seq P_KDATA (length data) (check_length ?ct)) @ data
          @ check_bytes (seven_bit_only j) k_makecrc ?ct (wire_body False ?seq P_KDATA ?ct data) @ EOL (session_parms k) # rest"
        using buf False by (simp add: wire_packet_def wire_body_def)
      from decode_rest_data [OF receiver(1,2) this _ refl d(1)] show ?thesis using False by simp
    qed
    finally show ?thesis
      by (intro exI [of _ ?n] exI [of _ "?p ?l"]) (use d(2) out len False in simp)
  next
    case True
    let ?n = "length data + 10" and ?l = "length data + 8"
    have "decode_input_bytes j = decode_rest 7 (length data) ?n (headed ?seq P_KDATA (int ?l) True j)"
      by (rule decode_input_long [OF _ t(5) True])
        (use buf True receiver(5-7) len sender(7,8) t(8) ict in \<open>simp_all add: packet_fits_def check_length_def\<close>)
    also have "\<dots> = Inr (True, ?n, j\<lparr>input_packet := ?p ?l\<rparr>)"
    proof -
      have "k_buffer j = (MARK ?s # packet_head True ?seq P_KDATA (length data) (check_length ?ct)) @ data
          @ check_bytes (seven_bit_only j) k_makecrc ?ct (wire_body True ?seq P_KDATA ?ct data) @ EOL (session_parms k) # rest"
        using buf True by (simp add: wire_packet_def wire_body_def)
      from decode_rest_data [OF receiver(1,2) this _ refl d(1)] show ?thesis using True by simp
    qed
    finally show ?thesis
      by (intro exI [of _ ?n] exI [of _ "?p ?l"]) (use d(2) out len True t(8) in \<open>simp add: check_length_def\<close>)
  qed
qed

text \<open>Two ends that agreed on short packets with a CRC, an 8-bit prefix and repeat counts.\<close>

definition agreed_parms :: session_parameters where
  "agreed_parms =
     zero_parameters\<lparr>MARK := C_SOH, MAXL := 80, TIME := 5, EOL := C_CR, QCTL := 0x23, QBIN := 0x26,
        CHKT := 0x33, REPT := 0x7E, WINDO_in := 1, WINDO_out := 1\<rparr>"

definition kermit_end :: "fsys \<Rightarrow> kermit" where
  "kermit_end fs =
     (kermit_initial id id (idle fs))\<lparr>local_parms := agreed_parms, remote_parms := agreed_parms,
        session_parms := agreed_parms, check_type := 3, sequence_number := 3, k_crc_16_tab := k_makecrc,
        input_packet := zero_packet 1024, output_packet := zero_packet 1024,
        input_window := [zero_slot], output_window := [zero_slot]\<rparr>"

definition sending_end :: "byte list \<Rightarrow> kermit" where
  "sending_end d =
     (kermit_end (disk_with (ascii ''f'') d))\<lparr>k_state := KM_SDW, k_sending := True,
        k_file_stream := Some (open_file d 0),
        output_packet := (zero_packet 1024)\<lparr>parsed_ok := True, kp_seq := 3, kp_type := P_KDATA\<rparr>\<rparr>"

definition receiving_end :: "byte list \<Rightarrow> kermit" where
  "receiving_end bs =
     (kermit_end (disk_with (ascii ''f'') []))\<lparr>k_state := KM_RDW, k_file_stream := Some (open_file [] 0),
        k_buffer := bs, k_buffer_n := length bs\<rparr>"

definition sample_bytes :: "byte list" where
  "sample_bytes = [0x41, 0x41, 0x41, 0x41, 0x41, 0x0D, 0xE1, 0x23]"

lemma sending_end_simps [simp]:
  "kp_type (output_packet (sending_end d)) = P_KDATA" "parsed_ok (output_packet (sending_end d))"
  "kp_seq (output_packet (sending_end d)) = 3" "k_state (sending_end d) = KM_SDW"
  "k_file_stream (sending_end d) = Some (open_file d 0)" "k_file_position (sending_end d) = 0"
  "check_type (sending_end d) = 3" "session_parms (sending_end d) = agreed_parms"
  "seven_bit_only (sending_end d) = False" "k_crc_16_tab (sending_end d) = k_makecrc"
  "text_mode (sending_end d) = False" "k_out (sending_end d) = []" "k_out_max (sending_end d) = nat Q_BUFFER_SIZE"
  by (simp_all add: sending_end_def kermit_end_def kermit_initial_def zero_packet_def)

lemma agreed_parms_simps [simp]:
  "MARK agreed_parms = C_SOH" "MAXL agreed_parms = 80" "long_packets agreed_parms = False"
  "streaming agreed_parms = False" "windowing agreed_parms = False"
  "MAXLX1 agreed_parms = 0" "MAXLX2 agreed_parms = 0"
  by (simp_all add: agreed_parms_def zero_parameters_def)

lemma sending_end_call: "file_call (sending_end d) = sample_call\<lparr>g_text := False\<rparr>"
  by (simp add: file_call_def encode_call_of_def sample_call_def sending_end_def kermit_end_def kermit_initial_def
      zero_packet_def agreed_parms_def zero_parameters_def Let_def)

lemma sending_end_sends:
  assumes "encode_loop (sample_call\<lparr>g_text := False\<rparr>) d encoding_start = (at_end, e)"
    and "length (encode_rest (sample_call\<lparr>g_text := False\<rparr>) e) \<le> 94"
  shows "\<exists>k'. encode_output_packet (sending_end d) = Inr k' \<and> outstanding_bytes k' = int (e_read e)
     \<and> length (k_out k') = length (encode_rest (sample_call\<lparr>g_text := False\<rparr>) e) + 8"
proof -
  let ?g = "sample_call\<lparr>g_text := False\<rparr>" and ?k = "sending_end d"
  let ?k1 = "?k\<lparr>output_packet := (output_packet ?k)\<lparr>long_packet := False\<rparr>\<rparr>"
  have "encode_call_of ?k1 = ?g" using sending_end_call [of d] by (simp add: file_call_def)
  then have "encode_data_field ?k1
      = Inr (encode_rest ?g e, ?k1\<lparr>k_file_stream := Some (read_bytes (e_read e + (if at_end then 1 else 0)) (open_file d 0)),
          outstanding_bytes := int (e_read e), k_block_size := int (length (encode_rest ?g e))\<rparr>)"
    using assms(1) by (simp add: encode_data_field_def Let_def fseek_set_def open_file_def)
  with assms(2) show ?thesis
    by (simp add: encode_output_packet_def output_check_type_def put_output_def length_check_bytes check_length_def Let_def)
qed

lemma ends_tuned: "tuned (sending_end d) (receiving_end bs)"
  by (simp add: tuned_def Let_def can_repeat_def good_quoting_def valid_prefix_def encode_call_of_def decode_quoting_def
      sending_end_def receiving_end_def kermit_end_def kermit_initial_def agreed_parms_def zero_parameters_def)

lemma receiving_end_simps [simp]:
  "k_state (receiving_end bs) = KM_RDW" "k_file_stream (receiving_end bs) = Some (open_file [] 0)"
  "session_parms (receiving_end bs) = agreed_parms" "k_buffer (receiving_end bs) = bs"
  "k_buffer_n (receiving_end bs) = length bs"
  by (simp_all add: receiving_end_def kermit_end_def)

lemma kermit_data_packet_delivered_witness:
  "\<exists>k' n p. encode_output_packet (sending_end sample_bytes) = Inr k'
     \<and> decode_input_bytes (receiving_end (k_out k'))
         = Inr (True, n, (receiving_end (k_out k'))\<lparr>input_packet := p\<rparr>)
     \<and> kp_data p = sample_bytes"
proof -
  let ?g = "sample_call\<lparr>g_text := False\<rparr>"
  define e where "e = snd (encode_loop ?g sample_bytes encoding_start)"
  have e: "encode_loop ?g sample_bytes encoding_start = (True, e)" "e_read e = 8" "length (encode_rest ?g e) = 9"
    unfolding e_def by code_simp+
  obtain k' where k': "encode_output_packet (sending_end sample_bytes) = Inr k'" "outstanding_bytes k' = 8"
    "length (k_out k') = 17" using sending_end_sends [OF e(1)] e(2,3) by auto
  let ?j = "receiving_end (k_out k')"
  from kermit_data_packet_delivered [OF _ _ _ _ _ _ _ _ k'(1) refl _ _ ends_tuned, of "open_file sample_bytes 0" "k_out k'" "[]"]
  obtain n p where "decode_input_bytes ?j = Inr (True, n, ?j\<lparr>input_packet := p\<rparr>)"
    "kp_data p = without_crs False (take 8 sample_bytes)"
    using k' by (auto simp: packet_fits_def)
  then show ?thesis using k'(1) by (auto simp: without_crs_def sample_bytes_def)
qed

section \<open>Packets that are too long\<close>

text \<open>Bytes that are sent as they are, no two neighbours equal.\<close>

definition plain_bytes :: "quoting \<Rightarrow> byte list \<Rightarrow> bool" where
  "plain_bytes q bs \<longleftrightarrow> list_all (\<lambda>b. encode_char q b = [b]) bs \<and> successively (\<noteq>) bs"

lemma count_plain:
  assumes "e_last e \<noteq> b" "e_count e = 1" "\<not> e_first e" "encode_char (g_quoting g) (e_last e) = [e_last e]"
    and "\<not> g_b_check g"
  shows "count_char g b e = e\<lparr>e_data := e_data e @ [e_last e], e_last := b\<rparr>"
  using assms by (cases e) (simp add: count_char_def encode_one_byte_def)

lemma encode_full_iff:
  assumes "\<not> g_text g" "length (e_data e) \<le> unat (g_room g)"
  shows "encode_full g e \<longleftrightarrow> unat (g_room g) \<le> length (e_data e)"
proof -
  have "unat (g_room g) < 2 ^ 32" using unsigned_less [of "g_room g", where 'a = nat] by simp
  then have "unat (of_nat (length (e_data e)) :: u32) = length (e_data e)"
    using assms(2) by (intro unat_small) simp
  then show ?thesis using assms(1) by (simp add: encode_full_def word_le_nat_alt)
qed

lemma plain_loop:
  assumes "\<not> g_raw g" "\<not> g_text g" "\<not> g_b_check g" "unat (g_room g) = r"
  shows "plain_bytes (g_quoting g) (x # bs) \<Longrightarrow> e_last e = x \<Longrightarrow> e_count e = 1 \<Longrightarrow> \<not> e_first e \<Longrightarrow>
    length (e_data e) \<le> r \<Longrightarrow> r \<le> length (e_data e) + length bs \<Longrightarrow>
    \<exists>e'. encode_loop g bs e = (False, e') \<and> encode_rest g e' = take (r + 1) (e_data e @ x # bs)"
proof (induction bs arbitrary: x e)
  case Nil
  then have full: "encode_full g e" "length (e_data e) = r"
    using assms(2,4) encode_full_iff [of g e] by simp_all
  have "encode_rest g e = e_data e @ [x]"
    using Nil.prems assms(2,3) by (simp add: encode_rest_def encode_one_byte_def plain_bytes_def)
  with full show ?case by simp
next
  case (Cons b bs)
  have full: "encode_full g e \<longleftrightarrow> r \<le> length (e_data e)"
    using assms(2,4) encode_full_iff [of g e] Cons.prems(5) by simp
  show ?case
  proof (cases "r \<le> length (e_data e)")
    case True
    have "encode_rest g e = e_data e @ [x]"
      using Cons.prems assms(2,3) by (simp add: encode_rest_def encode_one_byte_def plain_bytes_def)
    with True full Cons.prems(5) show ?thesis by (simp add: take_Cons')
  next
    case False
    let ?e = "e\<lparr>e_read := e_read e + 1, e_data := e_data e @ [x], e_last := b\<rparr>"
    have "count_char g b (e\<lparr>e_read := e_read e + 1\<rparr>) = ?e"
      using count_plain [of "e\<lparr>e_read := e_read e + 1\<rparr>" b g] Cons.prems assms(3) by (simp add: plain_bytes_def)
    moreover have "\<exists>e'. encode_loop g bs ?e = (False, e') \<and> encode_rest g e' = take (r + 1) (e_data ?e @ b # bs)"
      by (rule Cons.IH) (use Cons.prems False in \<open>simp_all add: plain_bytes_def\<close>)
    ultimately show ?thesis using full False assms(1,2) by (simp add: Let_def)
  qed
qed

lemma plain_field:
  assumes "\<not> g_raw g" "\<not> g_text g" "\<not> g_b_check g" "plain_bytes (g_quoting g) bs"
    and "0 < unat (g_room g)" "unat (g_room g) < length bs"
  shows "\<exists>e. encode_loop g bs encoding_start = (False, e)
    \<and> encode_rest g e = take (unat (g_room g) + 1) bs"
proof -
  from assms(6) obtain b cs where bs: "bs = b # cs" by (cases bs) auto
  let ?e = "encoding_start\<lparr>e_read := 1, e_last := b, e_first := False, e_count := 1\<rparr>"
  have "\<not> encode_full g encoding_start"
    using assms(2,5) by (simp add: encode_full_def encoding_start_def word_le_nat_alt)
  then have "encode_loop g bs encoding_start = encode_loop g cs ?e"
    using assms(1,2) by (simp add: bs Let_def count_char_def encoding_start_def)
  moreover have "\<exists>e. encode_loop g cs ?e = (False, e) \<and> encode_rest g e = take (unat (g_room g) + 1) (e_data ?e @ b # cs)"
    by (rule plain_loop [OF assms(1-3) refl]) (use assms(4,6) bs in \<open>simp_all add: encoding_start_def\<close>)
  ultimately show ?thesis by (simp add: bs encoding_start_def)
qed

text \<open>
  C22. The data field of a short packet is filled up to \<open>MAXL - 4\<close> bytes, which leaves too little
  for a CRC. When the two ends agreed on the CRC and not on long packets, a data packet of plain
  bytes is one byte longer than the receiver allows, and the receiver throws it away and asks for
  it again: two such programs never get a file across.
\<close>

theorem short_packet_with_crc_rejected:
  assumes sender: "kp_type (output_packet k) = P_KDATA" "parsed_ok (output_packet k)" "k_state k = KM_SDW"
      "k_file_stream k = Some f" "\<not> f_bad f" "0 \<le> k_file_position k" "\<not> text_mode k"
    and sent: "encode_output_packet k = Inr k'" "packet = drop (length (k_out k)) (k_out k')"
    and agreed: "tuned k j" "\<not> long_packets (session_parms j)" "check_type k = 3"
      "5 < unat (MAXL (session_parms j))" "unat (MAXL (session_parms j)) \<le> 94"
    and bytes: "plain_bytes (decode_quoting j) (drop (nat (k_file_position k)) (f_data f))"
      "unat (MAXL (session_parms j)) \<le> length (drop (nat (k_file_position k)) (f_data f)) + 4"
    and there: "k_buffer j = packet @ rest" "length packet \<le> k_buffer_n j"
  shows "length packet = unat (MAXL (session_parms j)) + 4
    \<and> (\<exists>p. \<not> parsed_ok p \<and> decode_input_bytes j = reject_packet (j\<lparr>input_packet := p\<rparr>))"
proof -
  let ?s = "session_parms j"
  let ?bs = "drop (nat (k_file_position k)) (f_data f)"
  let ?m = "unat (MAXL ?s)"
  have t: "MARK (session_parms k) = MARK ?s" "MAXL (session_parms k) = MAXL ?s" "long_packets (session_parms k) = long_packets ?s"
    "seven_bit_only k = seven_bit_only j" "k_crc_16_tab k = k_makecrc" "check_type k \<in> {1, 2, 3, 12}"
    "decode_quoting j = g_quoting (file_call k)"
    using agreed(1) by (auto simp: tuned_def Let_def file_call_simps)
  have room: "unat (g_room (file_call k)) = ?m - 5"
  proof -
    have "g_room (file_call k) = ucast (MAXL ?s) - 5"
      using agreed(2) t(2,3) by (simp add: file_call_def encode_call_of_def Let_def)
    also have "\<dots> = of_nat ?m - of_nat 5" by simp
    also have "\<dots> = of_nat (?m - 5)" by (rule of_nat_diff [symmetric]) (use agreed(4) in simp)
    finally show ?thesis using agreed(5) by (simp only: unat_small)
  qed
  have g: "\<not> g_raw (file_call k)" "\<not> g_text (file_call k)" "\<not> g_b_check (file_call k)"
    using sender(1,7) agreed(3) by (simp_all add: file_call_simps) (simp add: file_call_def encode_call_of_def Let_def)
  have "0 < unat (g_room (file_call k))" "unat (g_room (file_call k)) < length ?bs"
    using room agreed(4) bytes(2) by simp_all
  from plain_field [OF g bytes(1) [unfolded t(7)] this] obtain e where
    e: "encode_loop (file_call k) ?bs encoding_start = (False, e)" "encode_rest (file_call k) e = take (?m - 5 + 1) ?bs"
    unfolding room by blast
  have "?m - 5 + 1 = ?m - 4" using agreed(4) by simp
  note e = e [unfolded this]
  define data where "data = take (?m - 4) ?bs"
  have n: "length data = ?m - 4" using bytes(2) agreed(4) by (simp add: data_def)
  have pk: "packet = wire_packet (MARK ?s) (seven_bit_only j) 3 False (kp_seq (output_packet k)) P_KDATA data
      @ [EOL (session_parms k)]"
    using encode_output_wire [OF sender(1-6) t(5,6) sent(1)] e sent(2) t(1,3,4) agreed(2,3) by (auto simp: data_def)
  have len: "length packet = ?m + 4"
    using n agreed(4) by (simp add: pk length_wire_packet check_length_def)
  let ?len = "kermit_tochar (of_nat (?m + 1))"
  have buf: "k_buffer j = MARK ?s # ?len # drop 2 (k_buffer j)" "4 < length (k_buffer j)"
    using n agreed(4) len there(1) by (simp_all add: pk wire_packet_def wire_body_def packet_head_def check_length_def)
  have ul: "uint (kermit_unchar ?len) = int (?m + 1)" by (rule unchar_tochar_of_nat) (use agreed(5) in simp)
  let ?k1 = "j\<lparr>input_packet := zero_packet (data_max (input_packet j))\<rparr>"
  have "takeWhile (\<lambda>b. b \<noteq> MARK ?s) (take (k_buffer_n j) (k_buffer j)) = []"
    by (subst buf(1)) (simp add: take_Cons')
  then have "decode_input_bytes j = decode_from_mark 0 ?k1"
    using there(2) len agreed(4) by (auto simp: decode_input_bytes_def Let_def)
  also have "\<dots> = reject_packet (j\<lparr>input_packet := (zero_packet (data_max (input_packet j)))\<lparr>kp_length := int (?m + 1)\<rparr>\<rparr>)"
  proof -
    have a: "buffer_at ?k1 (0 + 1) = Inr ?len"
      using buf by (simp add: buffer_at_def) (metis nth_Cons_0 nth_Cons_Suc)
    have "uint (MAXL ?s) < int (?m + 1)" using uint_nat [of "MAXL ?s"] by linarith
    then show ?thesis
      unfolding decode_from_mark_def Let_def a bind_res.simps ul
      using agreed(2,4) by (simp add: zero_packet_def)
  qed
  finally show ?thesis
    using len by (intro conjI exI [of _ "(zero_packet (data_max (input_packet j)))\<lparr>kp_length := int (?m + 1)\<rparr>"])
      (simp_all add: zero_packet_def)
qed

lemma short_packet_with_crc_rejected_witness:
  "\<exists>k' p. encode_output_packet (sending_end (concat (replicate 40 [0x41, 0x42]))) = Inr k'
     \<and> \<not> parsed_ok p
     \<and> decode_input_bytes (receiving_end (k_out k')) = reject_packet ((receiving_end (k_out k'))\<lparr>input_packet := p\<rparr>)"
proof -
  let ?g = "sample_call\<lparr>g_text := False\<rparr>" and ?d = "concat (replicate 40 [0x41, 0x42]) :: byte list"
  have plain: "plain_bytes (g_quoting ?g) ?d" "length ?d = 80"
    by code_simp+
  have "\<exists>e. encode_loop ?g ?d encoding_start = (False, e) \<and> encode_rest ?g e = take (unat (g_room ?g) + 1) ?d"
    by (rule plain_field) (use plain in \<open>simp_all add: sample_call_def\<close>)
  then obtain e where "encode_loop ?g ?d encoding_start = (False, e)" "length (encode_rest ?g e) = 76"
    using plain(2) by (auto simp: sample_call_def)
  then obtain k' where k': "encode_output_packet (sending_end ?d) = Inr k'" "length (k_out k') = 84"
    using sending_end_sends [of ?d False e] by auto
  let ?j = "receiving_end (k_out k')"
  have q: "decode_quoting ?j = g_quoting ?g"
    by (simp add: decode_quoting_def sample_call_def receiving_end_def kermit_end_def agreed_parms_def)
  from short_packet_with_crc_rejected [OF _ _ _ _ _ _ _ k'(1) refl ends_tuned, of "open_file ?d 0" "k_out k'" "[]"]
  have "\<exists>p. \<not> parsed_ok p \<and> decode_input_bytes ?j = reject_packet (?j\<lparr>input_packet := p\<rparr>)"
    using plain k' by (simp add: q)
  then show ?thesis using k'(1) by blast
qed

end
