(* ===== verification/Kermit_States.thy ===== *)
theory Kermit_States
  imports Kermit_Packet
begin

text \<open>
  The states of the receiver and of the sender of \<open>kermit.c\<close>. A state's function returns whether
  the loop over the states is to be left.
\<close>

type_synonym k_step = "fault + bool \<times> kermit"

text \<open>What the functions share: the packet was used, or it is the wrong one.\<close>

definition k_step :: "bool \<Rightarrow> fault + kermit \<Rightarrow> k_step" where
  "k_step fin m = bind_res m (\<lambda>k. Inr (fin, k))"

definition packet_used :: "kermit \<Rightarrow> kermit" where
  "packet_used k = k\<lparr>input_packet := (input_packet k)\<lparr>parsed_ok := False\<rparr>\<rparr>"

definition packet_sequence_error :: "kermit \<Rightarrow> k_step" where
  "packet_sequence_error k =
     k_step True (k_fail ''PACKET SEQUENCE ERROR'' ''Wrong packet in sequence'' k)"

section \<open>The receiver\<close>

definition receive_R :: "kermit \<Rightarrow> k_step" where
  "receive_R k =
     (let k0 = (if first_R k then (k_message ''WAITING FOR SEND-INIT...'' k)\<lparr>first_R := False\<rparr> else k) in
      if \<not> parsed_ok (input_packet k0) then Inr (True, k0)
      else if kp_type (input_packet k0) = P_KSINIT then
        bind_res (negotiate_send_init (k_message ''ACK SEND-INIT'' k0)) (\<lambda>k1.
        bind_res (ack_send_init k1) (\<lambda>k2.
          Inr (True, (k_message ''WAITING FOR FILE HEADER...'' (packet_used k2))\<lparr>k_state := KM_RF\<rparr>)))
      else packet_sequence_error k0)"

definition receive_RF :: "kermit \<Rightarrow> k_step" where
  "receive_RF k =
     (if \<not> parsed_ok (input_packet k) then Inr (True, k)
      else if kp_type (input_packet k) = P_KFILE then
        bind_res (ack_file_packet (k_message ''FILE HEADER'' k)) (\<lambda>k1.
          Inr (True, (k_message ''WAITING FOR ATTRIBUTES OR FILE DATA...'' (packet_used k1))
                       \<lparr>k_state := KM_RDW\<rparr>))
      else if kp_type (input_packet k) = P_KBREAK then
        bind_res (ack_packet True (k_message ''END OF TRANSMISSION'' (packet_used k))) (\<lambda>k1.
          Inr (True, k_stop_file_transfer Q_TRANSFER_STATE_END
                       (k_message ''SUCCESS'' (k1\<lparr>k_state := KM_COMPLETE\<rparr>))))
      else packet_sequence_error k)"

text \<open>The end of a file: protection, close, time, acknowledgement.\<close>

definition close_received_file :: "kermit \<Rightarrow> k_step" where
  "close_received_file k =
     (case k_file_stream k of
        None \<Rightarrow> Inl Null_pointer
      | Some f \<Rightarrow>
         (let fs0 = fsys (kworld k);
              fs1 = (if file_protection k \<noteq> 0xFFFF then fchmod f (file_protection k) fs0 else fs0);
              fs2 = utime (k_file_fullname k) (k_file_modtime k) (fclose f fs1);
              k1 = (k_stats (\<lambda>t. t\<lparr>ts_state := Q_TRANSFER_STATE_FILE_DONE\<rparr>) k)
          in if k_file_name k = None then Inl Assert_failed
             else
              bind_res (ack_packet True
                  (k1\<lparr>kworld := (kworld k1)\<lparr>fsys := fs2\<rparr>, k_file_name := None, k_file_stream := None\<rparr>))
                (\<lambda>k2. Inr (False, (k_message ''WAITING FOR FILE HEADER...'' (packet_used k2))
                                    \<lparr>k_state := KM_RF\<rparr>))))"

definition receive_eof :: "kermit \<Rightarrow> k_step" where
  "receive_eof k =
     (if kp_data (input_packet k) \<noteq> [] \<and> hd (kp_data (input_packet k)) = 0x44 then
        close_received_file (k_message ''SKIP FILE'' k)
      else if windowing (session_parms k) then
        bind_res (window_save_all k) (\<lambda>(all_saved, k1).
          if all_saved then close_received_file (k_message ''EOF'' k1)
          else bind_res (nak_packet k1) (\<lambda>k2. Inr (False, packet_used k2)))
      else close_received_file (k_message ''EOF'' k))"

definition receive_RDW :: "kermit \<Rightarrow> k_step" where
  "receive_RDW k =
     (if \<not> parsed_ok (input_packet k) then Inr (True, k)
      else if kp_type (input_packet k) = P_KEOF then receive_eof k
      else if kp_type (input_packet k) = P_KDATA then
        (let k1 = (k_message ''DATA'' k)\<lparr>k_block_size := kp_length (input_packet k)\<rparr> in
         bind_res (k_stats_increment_blocks
             (k_stats (\<lambda>t. t\<lparr>ts_bytes_transfer := word_of_int (k_file_position k1)\<rparr>) k1)) (\<lambda>k2.
         bind_res (ack_packet False k2) (\<lambda>k3. Inr (True, packet_used k3))))
      else if kp_type (input_packet k) = P_KATTRIBUTES then
        (let k1 = k_message ''ATTRIBUTES'' k in
         bind_res (if k_file_stream k1 = None then bind_res (open_receive_file k1) (\<lambda>(_, k2). Inr k2)
                   else Inr k1)
           (\<lambda>k2. Inr (True, packet_used k2)))
      else packet_sequence_error k)"

definition receive_state :: "kermit \<Rightarrow> k_step" where
  "receive_state k =
     (case k_state k of
        KM_INIT \<Rightarrow> Inr (False, k\<lparr>k_state := KM_R, text_mode := False\<rparr>)
      | KM_R \<Rightarrow> receive_R k
      | KM_RF \<Rightarrow> receive_RF k
      | KM_RDW \<Rightarrow> receive_RDW k
      | KM_ABORT \<Rightarrow> Inr (True, k)
      | KM_COMPLETE \<Rightarrow> Inr (True, k)
      | _ \<Rightarrow> Inl Abort_called)"

section \<open>The sender\<close>

definition send_send_init :: "kermit \<Rightarrow> fault + kermit" where
  "send_send_init k =
     bind_res (ack_send_init k) (\<lambda>k1.
       Inr (k1\<lparr>output_packet := (output_packet k1)\<lparr>kp_type := P_KSINIT\<rparr>\<rparr>))"

definition send_S :: "kermit \<Rightarrow> k_step" where
  "send_S k =
     bind_res (if first_S k
               then bind_res (send_send_init (k_message ''SENDING SEND-INIT...'' k)) (\<lambda>k1.
                      Inr (k1\<lparr>first_S := False\<rparr>))
               else Inr k) (\<lambda>k0.
       if \<not> parsed_ok (input_packet k0) then Inr (True, k0)
       else if kp_type (input_packet k0) = P_KNAK then
         bind_res (send_send_init k0) (\<lambda>k1. Inr (True, packet_used k1))
       else if kp_type (input_packet k0) = P_KACK then
         bind_res (negotiate_send_init (snd (process_send_init k0))) (\<lambda>k1.
           let k2 = packet_used k1; k3 = k2\<lparr>sequence_number := sequence_number k2 + 1\<rparr> in
           bind_res (send_file_header (k_message ''FILE HEADER'' k3)) (\<lambda>k4.
             Inr (False, k4\<lparr>k_state := KM_SF\<rparr>)))
       else packet_sequence_error k0)"

text \<open>More data if the file has any, or the end of the file.\<close>

definition end_of_upload :: "kermit \<Rightarrow> fault + kermit" where
  "end_of_upload k =
     bind_res (send_eof (k_message ''EOF'' k)) (\<lambda>k1. Inr (k1\<lparr>k_state := KM_SZ\<rparr>))"

definition send_SF :: "kermit \<Rightarrow> k_step" where
  "send_SF k =
     (if \<not> parsed_ok (input_packet k) then Inr (True, k)
      else if kp_type (input_packet k) = P_KACK then
        (let k1 = (packet_used k)\<lparr>sequence_number := sequence_number k + 1\<rparr> in
         if attributes (session_parms k1) then
           bind_res (send_file_attributes (k_message ''ATTRIBUTES'' k1)) (\<lambda>k2.
             Inr (False, k2\<lparr>k_state := KM_SA\<rparr>))
         else
           bind_res (send_file_data (k_message ''DATA'' k1)) (\<lambda>(more_data, k2).
             if more_data then Inr (False, k2\<lparr>k_state := KM_SDW\<rparr>) else k_step False (end_of_upload k2)))
      else packet_sequence_error k)"

text \<open>The answer to the Attributes packet may say how much of the file is there already.\<close>

definition resend_position :: "kermit \<Rightarrow> kermit" where
  "resend_position k =
     (let d = kp_data (input_packet k) in
      if do_resend k \<and> d \<noteq> [] \<and> hd d = 0x31 then
        (let p = max 0 (atol (c_str (drop 2 d)))
         in k\<lparr>k_file_position := p, k_file_stream := map_option (fseek_set p) (k_file_stream k),
              outstanding_bytes := 0\<rparr>)
      else k)"

definition send_SA :: "kermit \<Rightarrow> k_step" where
  "send_SA k =
     (if \<not> parsed_ok (input_packet k) then Inr (True, k)
      else if kp_type (input_packet k) = P_KACK then
        (let k1 = (packet_used k)\<lparr>output_packet := (output_packet k)\<lparr>parsed_ok := False\<rparr>,
                                  is_first_data_packet := True\<rparr>;
             k2 = resend_position k1;
             k3 = (if streaming (session_parms k2) \<or> windowing (session_parms k2) then k2
                   else k2\<lparr>sequence_number := sequence_number k2 + 1\<rparr>)
         in Inr (False, (k_message ''DATA'' k3)\<lparr>k_state := KM_SDW\<rparr>))
      else packet_sequence_error k)"

definition send_SD_next_packet :: "kermit \<Rightarrow> fault + kermit" where
  "send_SD_next_packet k =
     (if streaming (session_parms k) \<and> parsed_ok (output_packet k) then Inr k
      else
       (let k1 = (if streaming (session_parms k) \<or> windowing (session_parms k)
                  then k\<lparr>sequence_number := sequence_number k + 1\<rparr> else k)
        in if k_file_position k1 = uint (k_file_size k1) \<or> skip_file k1 then end_of_upload k1
           else bind_res (send_file_data k1) (\<lambda>(more_data, k2).
                  if more_data then Inr k2 else end_of_upload k2)))"

text \<open>\<open>X\<close> (0x58) or \<open>Z\<close> (0x5A) in an acknowledgement: the receiver skips the file.\<close>

definition skip_requested :: "kermit \<Rightarrow> kermit" where
  "skip_requested k =
     (let d = kp_data (input_packet k) in
      if d \<noteq> [] \<and> hd d \<in> {0x58, 0x5A} then (k_message ''SKIP FILE'' k)\<lparr>skip_file := True\<rparr> else k)"

definition send_SDW :: "kermit \<Rightarrow> k_step" where
  "send_SDW k =
     (let s = session_parms k in
      if \<not> parsed_ok (input_packet k) then
        (if streaming s \<or> windowing s \<or> is_first_data_packet k
         then k_step True (send_SD_next_packet (k\<lparr>is_first_data_packet := False\<rparr>))
         else Inr (True, k))
      else if kp_type (input_packet k) = P_KACK then
        (let k1 = skip_requested (packet_used k) in
         if windowing s \<and> output_window k1 \<noteq> [] then k_step True (send_SD_next_packet k1)
         else if streaming s \<or> windowing s then k_step False (send_SD_next_packet k1)
         else
          (let k2 = k1\<lparr>sequence_number := sequence_number k1 + 1,
                       k_file_position := k_file_position k1 + outstanding_bytes k1\<rparr> in
           bind_res (k_stats_increment_blocks
               (k_stats (\<lambda>t. t\<lparr>ts_bytes_transfer := word_of_int (k_file_position k2)\<rparr>) k2)) (\<lambda>k3.
             k_step False (send_SD_next_packet k3))))
      else packet_sequence_error k)"

definition send_SZ :: "kermit \<Rightarrow> k_step" where
  "send_SZ k =
     (if \<not> parsed_ok (input_packet k) then Inr (True, k)
      else if kp_type (input_packet k) = P_KACK then
        (let k1 = packet_used k in
         if windowing (session_parms k1) \<and> output_window k1 \<noteq> [] \<and> 0 < output_window_n k1 then Inr (True, k1)
         else
          (case k_file_stream k1 of
             None \<Rightarrow> Inl Null_pointer
           | Some f \<Rightarrow>
              (let k2 = k_stats (\<lambda>t. t\<lparr>ts_batch_bytes_transfer := ts_batch_bytes_transfer t + ucast (k_file_size k1),
                                      ts_state := Q_TRANSFER_STATE_FILE_DONE\<rparr>)
                          (k_fclose (k1\<lparr>sequence_number := sequence_number k1 + 1\<rparr>))
               in if k_file_name k2 = None then Inl Assert_failed
                  else bind_res (k_setup_for_next_file
                         (k2\<lparr>k_file_name := None, k_file_stream := None,
                             k_upload_file_list_i := k_upload_file_list_i k2 + 1\<rparr>))
                       (\<lambda>(_, k3). Inr (False, k3)))))
      else packet_sequence_error k)"

definition send_SB :: "kermit \<Rightarrow> k_step" where
  "send_SB k =
     bind_res (if first_SB k
               then bind_res (send_eot (k_message ''SENDING EOT...'' k)) (\<lambda>k1. Inr (k1\<lparr>first_SB := False\<rparr>))
               else Inr k) (\<lambda>k0.
       if \<not> parsed_ok (input_packet k0) then Inr (True, k0)
       else if kp_type (input_packet k0) = P_KACK then
         Inr (False, k_stop_file_transfer Q_TRANSFER_STATE_END
                       (k_message ''SUCCESS'' ((packet_used k0)\<lparr>k_state := KM_COMPLETE\<rparr>)))
       else packet_sequence_error k0)"

definition send_state :: "kermit \<Rightarrow> k_step" where
  "send_state k =
     (case k_state k of
        KM_INIT \<Rightarrow> Inr (False, k\<lparr>k_state := KM_S\<rparr>)
      | KM_S \<Rightarrow> send_S k
      | KM_SF \<Rightarrow> send_SF k
      | KM_SA \<Rightarrow> send_SA k
      | KM_SDW \<Rightarrow> send_SDW k
      | KM_SZ \<Rightarrow> send_SZ k
      | KM_SB \<Rightarrow> send_SB k
      | KM_ABORT \<Rightarrow> Inr (True, k)
      | KM_COMPLETE \<Rightarrow> Inr (True, k)
      | _ \<Rightarrow> Inl Abort_called)"

section \<open>The loops over the states\<close>

partial_function (option) receive_states :: "kermit \<Rightarrow> (fault + kermit) option" where
  "receive_states k =
     (case receive_state k of
        Inl e \<Rightarrow> Some (Inl e)
      | Inr (fin, k1) \<Rightarrow> if fin then Some (Inr k1) else receive_states k1)"

partial_function (option) send_states :: "kermit \<Rightarrow> (fault + kermit) option" where
  "send_states k =
     (case send_state k of
        Inl e \<Rightarrow> Some (Inl e)
      | Inr (fin, k1) \<Rightarrow> if fin then Some (Inr k1) else send_states k1)"

definition kermit_receive :: "kermit \<Rightarrow> fault + kermit" where
  "kermit_receive k = (case receive_states k of None \<Rightarrow> Inl Diverges | Some r \<Rightarrow> r)"

definition kermit_send :: "kermit \<Rightarrow> fault + kermit" where
  "kermit_send k = (case send_states k of None \<Rightarrow> Inl Diverges | Some r \<Rightarrow> r)"

end
