(* ===== verification/Kermit_Session.thy ===== *)
theory Kermit_Session
  imports Kermit_States
begin

text \<open>
  The main loop of \<open>kermit.c\<close>: \<open>kermit\<close> with its input of one call, and \<open>kermit_start\<close>.
\<close>

section \<open>Input\<close>

text \<open>Three \<open>^C\<close> in a row, in inputs of less than ten bytes, end the transfer.\<close>

definition count_ctrl_c :: "byte list \<Rightarrow> nat \<Rightarrow> nat" where
  "count_ctrl_c input n =
     (if length input < 10 then fold (\<lambda>b c. if b = 0x03 then c + 1 else 0) input n else n)"

definition look_for_ctrl_c :: "byte list \<Rightarrow> kermit \<Rightarrow> fault + kermit" where
  "look_for_ctrl_c input k =
     (let k1 = k\<lparr>ctrl_c_count := count_ctrl_c input (ctrl_c_count k)\<rparr> in
      if 3 \<le> ctrl_c_count k1 then k_fail ''ABORTED BY REMOTE SIDE'' ''Aborted by remote side'' k1
      else Inr k1)"

text \<open>As much input as fits goes behind what is in \<open>packet_buffer\<close>; the rest is given back.\<close>

definition fill_buffer :: "byte list \<Rightarrow> kermit \<Rightarrow> byte list \<times> kermit" where
  "fill_buffer input k =
     (let n = k_buffer_n k; m = min (length input) (length (k_buffer k) - n)
      in (drop m input, k\<lparr>k_buffer := blit n (take m input) (k_buffer k), k_buffer_n := n + m\<rparr>))"

definition discard_input :: "nat \<Rightarrow> kermit \<Rightarrow> fault + kermit" where
  "discard_input d k =
     (if d = 0 then Inr k
      else if k_buffer_n k < d then Inl Assert_failed
      else if d = k_buffer_n k then Inr (k\<lparr>k_buffer_n := 0\<rparr>)
      else Inr (k\<lparr>k_buffer := blit 0 (slice d (k_buffer_n k - d) (k_buffer k)) (k_buffer k),
                  k_buffer_n := k_buffer_n k - d\<rparr>))"

section \<open>Output\<close>

definition put_padding :: "kermit \<Rightarrow> fault + kermit" where
  "put_padding k =
     (if 0 < NPAD (remote_parms k) \<and> parsed_ok (output_packet k)
      then put_output (replicate (unat (NPAD (remote_parms k))) (PADC (remote_parms k))) k
      else Inr k)"

text \<open>
  A packet that went out, unless it is a NAK, is kept in the output window: the sender adds it, the
  receiver and a streaming sender only keep the last one. \<open>n\<close> is the length of the output before.
\<close>

definition save_output_packet :: "nat \<Rightarrow> kermit \<Rightarrow> fault + kermit" where
  "save_output_packet n k =
     (if length (k_out k) = n \<or> kp_type (output_packet k) = P_KNAK then Inr k
      else if k_sending k \<and> size_out k \<le> output_window_n k then Inl Assert_failed
      else
       (let rotate = (k_sending k \<and> \<not> streaming (session_parms k)) in
        bind_res (set_slot (output_window_i k)
            \<lparr>sl_seq = kp_seq (output_packet k), try_count = 1, acked = \<not> rotate,
             sl_type = kp_type (output_packet k), sl_data = Some (drop n (k_out k))\<rparr> (output_window k)) (\<lambda>w.
          Inr (if rotate then
                 k\<lparr>output_window := w, output_window_n := output_window_n k + 1,
                   output_window_i := (output_window_i k + 1) mod size_out k\<rparr>
               else k\<lparr>output_window := w, output_window_n := 1\<rparr>))))"

definition emit_packet :: "kermit \<Rightarrow> fault + kermit" where
  "emit_packet k =
     bind_res (put_padding k) (\<lambda>k1.
     bind_res (encode_output_packet k1) (\<lambda>k2. save_output_packet (length (k_out k1)) k2))"

section \<open>The main loop\<close>

definition free_space_needed :: "kermit \<Rightarrow> u32" where
  "free_space_needed k =
     (let s = session_parms k in
      (if long_packets s then ucast (MAXLX1 s) * 95 + ucast (MAXLX2 s) else ucast (MAXL s))
        + ucast (NPAD (remote_parms k)) + 10)"

definition no_more_room :: "u32 \<Rightarrow> kermit \<Rightarrow> bool" where
  "no_more_room needed k \<longleftrightarrow> (of_nat (k_out_max k) - of_nat (length (k_out k)) :: u32) < needed"

text \<open>The window of a sender that does not stream is full.\<close>

definition window_full :: "kermit \<Rightarrow> bool" where
  "window_full k \<longleftrightarrow>
     output_window_n k = size_out k \<and> k_sending k \<and> \<not> streaming (session_parms k)"

text \<open>A packet is taken from the input and the windows are brought up to date.\<close>

definition take_packet :: "kermit \<Rightarrow> fault + bool \<times> kermit" where
  "take_packet k =
     bind_res (decode_input_bytes k) (\<lambda>(had_some_input, d, k1).
     bind_res (discard_input d k1) (\<lambda>k2.
     bind_res (check_for_repeat k2) (\<lambda>k3.
     bind_res (save_input_packet k3) (\<lambda>k4.
     bind_res (move_windows k4) (\<lambda>k5. Inr (had_some_input, k5))))))"

text \<open>
  One turn of the loop: whether it is left at once, whether there was a packet, the input that is
  left, the state. \<open>toss\<close> throws the input away.
\<close>

definition kermit_turn :: "bool \<Rightarrow> byte list \<Rightarrow> kermit \<Rightarrow> fault + bool \<times> bool \<times> byte list \<times> kermit" where
  "kermit_turn toss input k =
     bind_res (look_for_ctrl_c input k) (\<lambda>k1.
       let (rest, k2) = fill_buffer (if toss then [] else input) k1 in
       bind_res (take_packet k2) (\<lambda>(had_some_input, k3).
         if window_full k3 then Inr (True, had_some_input, rest, k3)
         else
           bind_res (if k_sending k3 then kermit_send k3 else kermit_receive k3) (\<lambda>k4.
           bind_res (emit_packet k4) (\<lambda>k5. Inr (False, had_some_input, rest, k5)))))"

partial_function (option) kermit_loop ::
    "u32 \<Rightarrow> bool \<Rightarrow> bool \<Rightarrow> byte list \<Rightarrow> kermit \<Rightarrow> (fault + kermit) option" where
  "kermit_loop needed toss had_some_input input k =
     (if no_more_room needed k then Some (if k_sending k then Inr k else Inl Assert_failed)
      else if window_full k \<and> input = [] \<and> \<not> had_some_input then Some (Inr k)
      else
       (case kermit_turn toss input k of
          Inl e \<Rightarrow> Some (Inl e)
        | Inr (fin, had_some, rest, k1) \<Rightarrow>
            if fin \<or> rest = [] \<and> \<not> had_some then Some (Inr k1)
            else kermit_loop needed toss had_some rest k1))"

text \<open>What happens before the loop: the first NAK, and the clock.\<close>

definition first_call :: "kermit \<Rightarrow> bool" where
  "first_call k \<longleftrightarrow> sequence_number k = 0 \<and> \<not> sent_nak k"

definition start_call :: "byte list \<Rightarrow> kermit \<Rightarrow> fault + kermit" where
  "start_call input k =
     bind_res
       (if first_call k then
          bind_res (if k_state k = KM_INIT \<and> \<not> k_sending k then nak_packet k else Inr k) (\<lambda>k1.
            Inr (k1\<lparr>sent_nak := True\<rparr>))
        else Inr k) (\<lambda>k1.
       if input \<noteq> [] then Inr (k_reset_timer k1)
       else bind_res (k_check_timeout k1) (\<lambda>(timeout, k2).
              if timeout then handle_timeout k2 else Inr k2))"

definition end_call :: "kermit \<Rightarrow> kermit" where
  "end_call k = packet_used (if k_out k \<noteq> [] then k_reset_timer k else k)"

definition kermit_process :: "byte list \<Rightarrow> kermit \<Rightarrow> fault + kermit" where
  "kermit_process input k =
     (if k_out_max k \<le> 2 * KERMIT_BLOCK_SIZE then Inl Assert_failed
      else if k_state k \<in> {KM_ABORT, KM_COMPLETE} then Inr k
      else
       (let needed = free_space_needed k; toss = first_call k in
        bind_res (start_call input k) (\<lambda>k1.
          if no_more_room needed k1 \<or> window_full k1 \<and> input = [] \<and> k_buffer_n k1 < 5
          then Inr (end_call k1)
          else case kermit_loop needed toss True input k1 of
            None \<Rightarrow> Inl Diverges
          | Some (Inl e) \<Rightarrow> Inl e
          | Some (Inr k2) \<Rightarrow> Inr (end_call k2))))"

section \<open>Starting\<close>

text \<open>
  The loop that frees the output window of the session before never moves to the next slot: it
  does not end unless its first slot is the one to stop at.
\<close>

definition free_windows :: "kermit \<Rightarrow> fault + kermit" where
  "free_windows k =
     (if output_window k \<noteq> [] \<and> 0 < output_window_n k
         \<and> output_window_begin k mod size_out k \<noteq> output_window_i k
      then Inl Diverges
      else Inr (k\<lparr>input_window := [zero_slot], input_window_begin := 0, input_window_i := 0,
                  input_window_n := 0, output_window := [zero_slot], output_window_begin := 0,
                  output_window_i := 0, output_window_n := 0\<rparr>))"

definition k_start_reset :: "kermit \<Rightarrow> kermit" where
  "k_start_reset k =
     k\<lparr>k_crc_16_tab := k_makecrc, k_state := KM_INIT, check_type := 1, sequence_number := 0,
       first_R := True, first_S := True, first_SB := True, sent_nak := False, skip_file := False,
       seven_bit_only := serial_7bit k, do_resend := False, is_first_data_packet := False\<rparr>"

definition k_start_buffers :: "kermit \<Rightarrow> kermit" where
  "k_start_buffers k =
     (let k1 = (k_reset_timer (k_message '''' k))\<lparr>k_buffer_n := 0,
                  input_packet := zero_packet KERMIT_BLOCK_SIZE,
                  output_packet := zero_packet KERMIT_BLOCK_SIZE, k_timeout_count := 0\<rparr>
      in k1\<lparr>local_parms := default_session_parameters k1, session_parms := default_session_parameters k1\<rparr>)"

definition kermit_start :: "file_info list option \<Rightarrow> path option \<Rightarrow> bool \<Rightarrow> kermit \<Rightarrow> fault + bool \<times> kermit" where
  "kermit_start file_list pathname send k =
     (if send \<longleftrightarrow> file_list = None then Inl Assert_failed
      else
       (let k1 = k\<lparr>k_state := KM_ABORT, k_upload_file_list := file_list, k_upload_file_list_i := 0,
                   k_sending := send\<rparr> in
        bind_res
          (if send then k_setup_for_next_file k1
           else
            (let k2 = k_stats (\<lambda>t. t\<lparr>ts_bytes_total := 0\<rparr>) (k1\<lparr>k_download_path := pathname\<rparr>)
             in Inr (True, k2\<lparr>kworld := set_transfer_stats_pathname pathname
                                          (set_transfer_stats_filename [] (kworld k2))\<rparr>)))
          (\<lambda>(ok, k3).
            if \<not> ok then Inr (False, k3)
            else bind_res (free_windows (k_start_reset k3)) (\<lambda>k4. Inr (True, k_start_buffers k4)))))"

end
