(* ===== verification/Kermit_Negotiation.thy ===== *)
theory Kermit_Negotiation
  imports Kermit_Link Kermit_Session
begin

text \<open>
  The beginning of a Kermit transfer: the Send-Init packet with its parameters, its acknowledgement,
  and the session both ends derive from them. The options of the two ends are arbitrary; that their
  combinations lead to the same session is computed once, the rest follows the packets through the
  calls of \<open>kermit\<close> on both sides.
\<close>

section \<open>The parameters\<close>

text \<open>\<open>default_session_parameters\<close> by the three options it depends on.\<close>

definition end_parms :: "bool \<Rightarrow> bool \<Rightarrow> bool \<Rightarrow> session_parameters" where
  "end_parms long stream seven =
     \<lparr>MARK = C_SOH, MAXL = 80, TIME = 5, NPAD = 0, PADC = 0, EOL = C_CR, QCTL = 0x23,
      QBIN = (if seven then 0x26 else 0x59), CHKT = 0x33, REPT = 0x7E,
      CAPAS = (if long then 0x1E else 0x1C), WINDO = 30, MAXLX1 = 10, MAXLX2 = 74,
      WHATAMI = (if stream then 0x28 else 0),
      attributes = True, windowing = True, long_packets = long,
      streaming = stream, WINDO_in = 1, WINDO_out = 1\<rparr>"

lemma default_end_parms:
  "default_session_parameters k = end_parms (kermit_long_packets_option k) (kermit_streaming_option k) (seven_bit_only k)"
  by (simp add: default_session_parameters_def end_parms_def)

text \<open>The parameters two ends should end up with.\<close>

definition common_parms :: "bool \<Rightarrow> bool \<Rightarrow> bool \<Rightarrow> session_parameters" where
  "common_parms long stream seven =
     (end_parms long stream seven)
       \<lparr>QBIN := (if seven then 0x26 else 0x20),
        CAPAS := (if long then 0x1A else 0x18) OR (if stream then 0 else 0x04),
        windowing := \<not> stream, WINDO_in := (if stream then 1 else 30), WINDO_out := (if stream then 1 else 30)\<rparr>"

definition parms_data :: "session_parameters \<Rightarrow> byte list" where
  "parms_data s =
     [kermit_tochar (MAXL s), kermit_tochar (TIME s), kermit_tochar 0, kermit_ctl 0,
       kermit_tochar C_CR, 0x23, QBIN s, CHKT s, REPT s, kermit_tochar (CAPAS s),
       kermit_tochar (WINDO s), kermit_tochar (MAXLX1 s), kermit_tochar (MAXLX2 s),
       0x30, 0x5F, 0x5F, 0x5F, kermit_tochar (WHATAMI s)]"

definition parms_of_data :: "byte list \<Rightarrow> session_parameters" where
  "parms_of_data d = with_long_length (with_capabilities d (basic_parameters d))"

lemma read_parms:
  "parms_of_data (parms_data (end_parms long stream seven)) = 
    (end_parms long stream seven)\<lparr>WHATAMI := 0\<rparr>"
  by (cases long; cases stream; cases seven)
   (simp_all add: parms_of_data_def parms_data_def end_parms_def basic_parameters_def with_capabilities_def with_long_length_def
     init_field_def init_byte_def bare_parameters_def zero_parameters_def kermit_tochar_def kermit_unchar_def kermit_ctl_def)

definition negotiated :: "session_parameters \<Rightarrow> session_parameters \<Rightarrow> session_parameters \<Rightarrow> session_parameters" where
  "negotiated l r s = negotiate_window l r (negotiate_capabilities l r (negotiate_basic l r s))"

lemmas negotiate_defs = negotiated_def negotiate_window_def negotiate_capabilities_def negotiate_basic_def
  negotiate_qbin_def negotiate_rept_def valid_prefix_def

lemma receiver_negotiates:
  "negotiated (end_parms l1 s1 b1) ((end_parms l2 s2 b2)\<lparr>WHATAMI := 0\<rparr>) (end_parms l1 s1 b1)
   = common_parms (l1 \<and> l2) (s1 \<and> s2) (b1 \<or> b2)"
  by (cases l1; cases l2; cases s1; cases s2; cases b1; cases b2)
    (simp_all add: negotiate_defs end_parms_def common_parms_def)

lemma read_answer:
  "parms_of_data (parms_data (common_parms long stream seven)) = 
    (common_parms long stream seven)\<lparr>WHATAMI := 0, WINDO_in := 1, WINDO_out := 1\<rparr>"
  by (cases long; cases stream; cases seven)
   (simp_all add: parms_of_data_def parms_data_def end_parms_def common_parms_def basic_parameters_def with_capabilities_def with_long_length_def
     init_field_def init_byte_def bare_parameters_def zero_parameters_def kermit_tochar_def kermit_unchar_def kermit_ctl_def)

lemma sender_negotiates:
  "negotiated (end_parms l1 s1 b1) ((common_parms (l1 \<and> l2) (s1 \<and> s2) (b1 \<or> b2))\<lparr>WHATAMI := 0, WINDO_in := 1, WINDO_out := 1\<rparr>) (end_parms l1 s1 b1)
   = common_parms (l1 \<and> l2) (s1 \<and> s2) (b1 \<or> b2)"
  by (cases l1; cases l2; cases s1; cases s2; cases b1; cases b2)
    (simp_all add: negotiate_defs end_parms_def common_parms_def)

section \<open>Packets that are not quoted\<close>

lemma encode_loop_raw:
  assumes "g_raw g" "\<And>n. n \<le> length (e_data e) + length bs \<Longrightarrow> of_nat n < g_room g \<and> of_nat n < g_text_room g"
  shows "encode_loop g bs e = (True, e\<lparr>e_data := e_data e @ bs, e_read := e_read e + length bs\<rparr>)"
  using assms(2)
proof (induction bs arbitrary: e)
  case (Cons b bs)
  have f: "\<not> encode_full g e" using Cons.prems [of "length (e_data e)"] by (simp add: encode_full_def not_le)
  have "encode_loop g bs (e\<lparr>e_read := e_read e + 1, e_data := e_data e @ [b]\<rparr>)
      = (True, e\<lparr>e_data := e_data e @ b # bs, e_read := e_read e + length (b # bs)\<rparr>)"
    using Cons.IH [of "e\<lparr>e_read := e_read e + 1, e_data := e_data e @ [b]\<rparr>"] Cons.prems by simp
  then show ?case using f assms(1) by simp
next
  case Nil
  then have "\<not> encode_full g e" using Nil [of "length (e_data e)"] by (simp add: encode_full_def not_le)
  then show ?case by simp
qed

lemma decode_loop_raw:
  assumes "d_pending d = None" "length (d_out d) + length bs \<le> d_max d"
  shows "decode_loop_k q True strip bs d = (True, d\<lparr>d_out := d_out d @ bs\<rparr>)"
  using assms by (induction bs arbitrary: d) (simp_all add: d_flush_def d_put_def)

lemma check_of_seven_bits:
  assumes "list_all (\<lambda>b. b < 0x80) bs"
  shows "check_bytes seven tab 1 bs = check_bytes False tab 1 bs"
proof -
  have "b AND 0x7F = b" if "b < 0x80" for b :: byte
    using less_mask_eq [of b 7] that by (simp add: mask_eq_exp_minus_1)
  then have "map (line_byte seven) bs = map (line_byte False) bs"
    using assms by (auto simp: list_all_iff line_byte_def)
  then have "compute_checksum seven bs = compute_checksum False bs" by (simp only: compute_checksum_def)
  then show ?thesis by (simp add: check_bytes_def)
qed

section \<open>Send-Init and its acknowledgement\<close>

definition init_wire :: "session_parameters \<Rightarrow> packet_type \<Rightarrow> byte list \<Rightarrow> byte list" where
  "init_wire s t d = wire_packet (MARK s) False 1 False 0 t d @ [EOL s]"

lemma init_body_seven_bits:
  assumes "length d = 18" "list_all (\<lambda>b. b < 0x80) d" "t = P_KSINIT \<or> t = P_KACK"
  shows "list_all (\<lambda>b. b < 0x80) (wire_body False 0 t 1 d)"
  using assms by (auto simp: wire_body_def packet_head_def packet_char_def packet_type_chars_def check_length_def
      kermit_tochar_def)

lemma encode_init:
  assumes "parsed_ok (output_packet k)" "kp_type (output_packet k) = t" "kp_seq (output_packet k) = 0"
    and "t = P_KSINIT \<or> t = P_KACK \<and> sequence_number k = 0" "kp_data (output_packet k) = d" "length d = 18"
    and "list_all (\<lambda>b. b < 0x80) d" "MAXL (session_parms k) = 80" "k_crc_16_tab k = k_makecrc"
    and "length (k_out k) + 24 \<le> k_out_max k"
  shows "encode_output_packet k
       = Inr (k\<lparr>output_packet := (output_packet k)\<lparr>long_packet := False, parsed_ok := False\<rparr>,
                outstanding_bytes := outstanding_bytes k + 18,
                k_out := k_out k @ init_wire (session_parms k) t d\<rparr>)"
proof -
  let ?k = "k\<lparr>output_packet := (output_packet k)\<lparr>long_packet := False\<rparr>\<rparr>"
  have ct: "output_check_type k = 1" using assms(2,4) by (auto simp: output_check_type_def)
  have t: "t \<noteq> P_KDATA" using assms(4) by auto
  have raw: "g_raw (encode_call_of ?k)" using assms(2,4) by (auto simp: encode_call_of_def Let_def)
  have room: "of_nat n < g_room (encode_call_of ?k) \<and> of_nat n < g_text_room (encode_call_of ?k)" if "n \<le> 18" for n
    using that by (simp add: encode_call_of_def Let_def assms(8) word_less_nat_alt unat_of_nat)
  have "encode_loop (encode_call_of ?k) d encoding_start = (True, encoding_start\<lparr>e_data := d, e_read := 18\<rparr>)"
    using encode_loop_raw [OF raw, of encoding_start d] room assms(6) by (simp add: encoding_start_def)
  then have field: "encode_data_field ?k = Inr (d, ?k\<lparr>outstanding_bytes := outstanding_bytes k + 18\<rparr>)"
    using assms(2,5) t by (simp add: encode_data_field_def Let_def encode_rest_def encoding_start_def)
  have chk: "check_bytes (seven_bit_only k) k_makecrc 1 (wire_body False 0 t 1 d) = check_bytes False k_makecrc 1 (wire_body False 0 t 1 d)"
    by (rule check_of_seven_bits, rule init_body_seven_bits) (use assms(4,6,7) in auto)
  have len: "length (init_wire (session_parms k) t d) = 24"
    using assms(6) by (simp add: init_wire_def length_wire_packet check_length_def)
  show ?thesis
    using assms(1,2,3,9,10) t field chk len
    by (simp add: encode_output_packet_def ct Let_def put_output_def init_wire_def wire_packet_def wire_body_def)
qed

definition init_packet :: "packet_type \<Rightarrow> byte list \<Rightarrow> kermit_packet" where
  "init_packet t d =
     \<lparr>parsed_ok = True, kp_seq = 0, kp_type = t, kp_length = 21, long_packet = False, kp_data = d, data_max = 1024\<rparr>"

lemma decode_init:
  assumes t: "t = P_KSINIT \<and> MAXL (basic_parameters d) \<le> 94 \<or> t = P_KACK \<and> check_type j = 1"
    and d: "length d = 18" "list_all (\<lambda>b. b < 0x80) d"
    and j: "MARK (session_parms j) = MARK s" "MAXL (session_parms j) = 80" "k_crc_16_tab j = k_makecrc"
      "data_max (input_packet j) = 1024"
    and buf: "k_buffer j = init_wire s t d @ rest" "k_buffer_n j = 24"
  shows "decode_input_bytes j
       = Inr (True, 23, j\<lparr>input_packet := init_packet t d,
                           remote_parms := (if t = P_KSINIT then parms_of_data d else remote_parms j)\<rparr>)"
proof -
  have chk: "check_bytes (seven_bit_only j) k_makecrc 1 (wire_body False 0 t 1 d) = check_bytes False k_makecrc 1 (wire_body False 0 t 1 d)"
    by (rule check_of_seven_bits, rule init_body_seven_bits) (use t d in auto)
  have ict: "input_check_type t c j = 1" for c using t by (auto simp: input_check_type_def)
  have b: "k_buffer j = wire_packet (MARK (session_parms j)) (seven_bit_only j) 1 False 0 t d @ EOL s # rest"
    by (simp add: buf init_wire_def wire_packet_def chk j(1))
  have len: "length (wire_packet (MARK (session_parms j)) (seven_bit_only j) 1 False 0 t d) = 23"
    using d(1) by (simp add: length_wire_packet check_length_def)
  have "decode_input_bytes j = decode_rest 4 18 23 (headed 0 t 21 False j)"
    using decode_input_short [OF _ ict j(3) b] t d(1) j(2) buf(2) by (auto simp: check_length_def)
  also have "\<dots> = Inr (True, 23, j\<lparr>input_packet := init_packet t d,
                           remote_parms := (if t = P_KSINIT then parms_of_data d else remote_parms j)\<rparr>)"
  proof -
    let ?j = "headed 0 t 21 False j"
    have sl: "slice 4 18 (k_buffer ?j) = d" "\<not> length (k_buffer ?j) < 4 + 18"
    proof -
      have "k_buffer ?j = (MARK s # packet_head False 0 t 18 1) @ d @ (check_bytes False k_makecrc 1 (wire_body False 0 t 1 d) @ EOL s # rest)"
        using d(1) by (simp add: buf init_wire_def wire_packet_def wire_body_def check_length_def)
      then show "slice 4 18 (k_buffer ?j) = d" by (simp only:) (rule slice_middle, simp_all add: d(1))
      show "\<not> length (k_buffer ?j) < 4 + 18" using len by (simp add: b)
    qed
    have raw: "decode_loop_k q True strip d (decoding_start 1024) = (True, (decoding_start 1024)\<lparr>d_out := d\<rparr>)" for q strip
      using decode_loop_raw [of "decoding_start 1024" d] d(1) by (simp add: decoding_start_def)
    have m: "d_max (decoding_start 1024) = 1024" by (simp add: decoding_start_def)
    have "decode_data_field 4 18 ?j = Inr (True, ?j\<lparr>input_packet := (input_packet ?j)\<lparr>kp_data := d, data_max := 1024\<rparr>\<rparr>)"
      using t j(4) by (auto simp: decode_data_field_def sl [simplified] raw Let_def m)
    then have dr: "decode_rest 4 18 23 ?j
        = bind_res (process_payload (?j\<lparr>input_packet := init_packet t d\<rparr>)) (\<lambda>k2. Inr (True, 23, k2))"
      by (simp add: decode_rest_def init_packet_def) (simp add: headed_def)
    show ?thesis
    proof (cases "t = P_KSINIT")
      case True
      then have "\<not> 94 < MAXL (basic_parameters d)" using t by auto
      then show ?thesis
        unfolding dr by (simp add: True process_payload_def process_send_init_def init_packet_def parms_of_data_def Let_def)
          (simp add: headed_def)
    next
      case False
      then have "t = P_KACK" using t by simp
      then show ?thesis
        unfolding dr by (simp add: process_payload_def init_packet_def Let_def) (simp add: headed_def)
    qed
  qed
  finally show ?thesis .
qed

section \<open>Two ends that were just started\<close>

text \<open>What \<open>kermit_start\<close> leaves behind.\<close>

definition started :: "bool \<Rightarrow> kermit \<Rightarrow> bool" where
  "started send k \<longleftrightarrow>
     k_sending k = send \<and> k_state k = KM_INIT \<and> check_type k = 1 \<and> sequence_number k = 0 \<and> first_S k
     \<and> first_R k \<and> seven_bit_only k = serial_7bit k
     \<and> local_parms k = default_session_parameters k \<and> session_parms k = default_session_parameters k
     \<and> input_packet k = zero_packet 1024 \<and> output_packet k = zero_packet 1024 \<and> k_buffer_n k = 0
     \<and> k_crc_16_tab k = k_makecrc
     \<and> input_window k = [zero_slot] \<and> input_window_begin k = 0 \<and> input_window_i k = 0 \<and> input_window_n k = 0
     \<and> output_window k = [zero_slot] \<and> output_window_begin k = 0 \<and> output_window_i k = 0 \<and> output_window_n k = 0"

lemma put_packet_sending: "put_packet t seq d k = Inr k1 \<Longrightarrow> k_sending k1 = k_sending k"
  by (auto simp: put_packet_def Let_def split: if_splits)

lemma setup_sending: "k_setup_for_next_file k = Inr (ok, k1) \<Longrightarrow> k_sending k1 = k_sending k"
  by (auto simp: k_setup_for_next_file_def send_file_header_def k_fail_def error_packet_def k_fclose_def k_message_def
      k_stats_def k_stats_new_file_def k_stop_file_transfer_def kermit_stop_def bind_res_Inr Let_def
      dest!: put_packet_sending split: option.splits prod.splits if_splits)

lemma start_buffers_started:
  assumes "free_windows (k_start_reset k3) = Inr k4"
  shows "k_sending k3 = send \<Longrightarrow> started send (k_start_buffers k4)" "\<not> sent_nak (k_start_buffers k4)"
proof -
  have k4: "k4 = (k_start_reset k3)\<lparr>input_window := [zero_slot], input_window_begin := 0, input_window_i := 0,
                  input_window_n := 0, output_window := [zero_slot], output_window_begin := 0,
                  output_window_i := 0, output_window_n := 0\<rparr>"
    using assms(1) by (simp add: free_windows_def split: if_splits)
  show "started send (k_start_buffers k4)" if "k_sending k3 = send"
    unfolding started_def k4 k_start_buffers_def k_start_reset_def k_reset_timer_def k_message_def Let_def
    by (simp add: that default_session_parameters_def)
  show "\<not> sent_nak (k_start_buffers k4)"
    by (simp add: k4 k_start_buffers_def k_start_reset_def k_reset_timer_def k_message_def Let_def)
qed

lemma kermit_start_started:
  assumes "kermit_start fl pn send k = Inr (True, k')"
  shows "started send k'" "\<not> sent_nak k'"
  using assms
  by (auto simp: kermit_start_def bind_res_Inr Let_def k_stats_def split: if_splits dest!: setup_sending
      intro: start_buffers_started(1) dest: start_buffers_started(2))

text \<open>Between the calls: what the record \<open>kermit\<close> has beside the session, for a first transfer.\<close>

definition quiet :: "kermit \<Rightarrow> bool" where
  "quiet k \<longleftrightarrow>
     ctrl_c_count k < 3 \<and> length (k_buffer k) = 2048 \<and> NPAD (remote_parms k) = 0 \<and> k_out k = []
     \<and> 2048 < k_out_max k \<and> k_out_max k < 2 ^ 31"

definition own_parms :: "kermit \<Rightarrow> session_parameters" where
  "own_parms k = end_parms (kermit_long_packets_option k) (kermit_streaming_option k) (serial_7bit k)"

lemma send_init_parms:
  "send_init_data (k\<lparr>local_parms := end_parms l s b, session_parms := common_parms l' s' b'\<rparr>) = parms_data (common_parms l' s' b')"
  "send_init_data (k\<lparr>local_parms := end_parms l s b, session_parms := end_parms l s b\<rparr>) = parms_data (end_parms l s b)"
  by (simp_all add: send_init_data_def parms_data_def end_parms_def common_parms_def Let_def)

lemma parms_data_fits:
  "length (parms_data s) = 18"
  "list_all (\<lambda>b. b < 0x80) (parms_data (end_parms l st b))" "list_all (\<lambda>b. b < 0x80) (parms_data (common_parms l st b))"
  "list_all (\<lambda>b. b < 0x80) (parms_data (own_parms k))" "MAXL (basic_parameters (parms_data (own_parms k))) \<le> 94"
  "MAXL (basic_parameters (parms_data (end_parms l st b))) \<le> 94"
  "MAXL (basic_parameters (parms_data (common_parms l st b))) \<le> 94"
  by (simp_all add: parms_data_def own_parms_def end_parms_def common_parms_def kermit_tochar_def kermit_ctl_def
     basic_parameters_def bare_parameters_def init_field_def init_byte_def kermit_unchar_def)

text \<open>A call without input finds nothing to read.\<close>

lemma idle_turn:
  assumes "ctrl_c_count k < 3" "\<not> parsed_ok (input_packet k)" "k_buffer_n k = 0" "output_window_n k = 0"
    "size_out k = 1"
  shows "kermit_turn toss [] k
       = bind_res (if k_sending k then kermit_send k else kermit_receive k) (\<lambda>k4. bind_res (emit_packet k4) (\<lambda>k5. Inr (False, False, [], k5)))"
proof -
  have look: "look_for_ctrl_c [] k = Inr k"
    using assms(1) by (simp add: look_for_ctrl_c_def count_ctrl_c_def)
  have fill: "fill_buffer (if toss then [] else []) k = ([], k)"
    using assms(3) by (simp add: fill_buffer_def Let_def blit_def)
  have take: "take_packet k = Inr (False, k)"
    using assms by (simp add: take_packet_def decode_input_bytes_def discard_input_def check_for_repeat_def
        save_input_packet_def move_windows_def move_output_window.simps)
  show ?thesis
    unfolding kermit_turn_def look bind_res.simps fill take Let_def prod.case
    using assms by (simp add: window_full_def)
qed

text \<open>The sender, its Send-Init packet on the line.\<close>

definition asking :: "kermit \<Rightarrow> kermit \<Rightarrow> bool" where
  "asking k k1 \<longleftrightarrow>
     k_sending k1 \<and> k_state k1 = KM_S \<and> \<not> first_S k1 \<and> check_type k1 = 1 \<and> sequence_number k1 = 0
     \<and> local_parms k1 = own_parms k \<and> session_parms k1 = own_parms k \<and> seven_bit_only k1 = serial_7bit k
     \<and> k_out_max k1 = k_out_max k \<and> text_mode k1 = text_mode k \<and> k_file_name k1 = k_file_name k \<and> kermit_robust_filename k1 = kermit_robust_filename k
     \<and> input_packet k1 = zero_packet 1024 \<and> data_max (output_packet k1) = 1024
     \<and> kp_length (output_packet k1) = 0 \<and> \<not> long_packet (output_packet k1) \<and> k_buffer_n k1 = 0
     \<and> length (k_buffer k1) = 2048 \<and> ctrl_c_count k1 < 3 \<and> k_crc_16_tab k1 = k_makecrc
     \<and> input_window k1 = [zero_slot] \<and> output_window_begin k1 = 0 \<and> output_window_i k1 = 0 \<and> output_window_n k1 = 1
     \<and> (\<exists>s. output_window k1 = [s] \<and> sl_seq s = 0)"

lemma startedD:
  assumes "started send k"
  shows "k_sending k = send" "k_state k = KM_INIT" "check_type k = 1" "sequence_number k = 0" "first_S k" "first_R k"
    "input_packet k = zero_packet 1024" "output_packet k = zero_packet 1024" "k_buffer_n k = 0"
    "k_crc_16_tab k = k_makecrc" "input_window k = [zero_slot]" "input_window_begin k = 0" "input_window_i k = 0"
    "input_window_n k = 0" "output_window k = [zero_slot]" "output_window_begin k = 0" "output_window_i k = 0"
    "output_window_n k = 0"
  using assms by (simp_all add: started_def)

lemma started_own_parms:
  "started send k \<Longrightarrow> session_parms k = own_parms k \<and> local_parms k = own_parms k \<and> seven_bit_only k = serial_7bit k"
  by (auto simp: started_def own_parms_def default_end_parms)

lemma own_parms_simps [simp]:
  "MARK (own_parms k) = C_SOH" "MAXL (own_parms k) = 80" "EOL (own_parms k) = C_CR" "WINDO_out (own_parms k) = 1"
  "WINDO_in (own_parms k) = 1" "QCTL (own_parms k) = 0x23" "TIME (own_parms k) = 5"
  "MAXLX1 (own_parms k) = 10" "MAXLX2 (own_parms k) = 74" "windowing (own_parms k)"
  by (simp_all add: own_parms_def end_parms_def)

definition send_init_wire :: "kermit \<Rightarrow> byte list" where
  "send_init_wire k = init_wire (own_parms k) P_KSINIT (parms_data (own_parms k))"

lemma length_send_init_wire: "length (send_init_wire k) = 24"
  by (simp add: send_init_wire_def init_wire_def length_wire_packet check_length_def parms_data_fits)

lemma sender_asks:
  assumes "started True k" "quiet k"
  shows "\<exists>k1. kermit_turn toss [] k = Inr (False, False, [], k1) \<and> k_out k1 = send_init_wire k \<and> asking k k1"
proof -
  note st = startedD [OF assms(1)]
  note own = started_own_parms [OF assms(1)]
  let ?d = "parms_data (own_parms k)"
  let ?m = "k_message ''SENDING SEND-INIT...'' (k\<lparr>k_state := KM_S\<rparr>)"
  let ?p = "\<lparr>parsed_ok = True, kp_seq = 0, kp_type = P_KSINIT, kp_length = 0, long_packet = False,
             kp_data = ?d, data_max = 1024\<rparr>"
  let ?k1 = "?m\<lparr>sequence_number := 0, output_packet := ?p, first_S := False\<rparr>"
  have data: "send_init_data ?m = ?d"
    using own by (simp add: send_init_data_def k_message_def parms_data_def Let_def own_parms_def end_parms_def)
  have "send_send_init ?m = Inr (?m\<lparr>sequence_number := 0, output_packet := ?p\<rparr>)"
    using st unfolding send_send_init_def ack_send_init_def data put_packet_def
    by (simp add: parms_data_fits Let_def) (simp add: k_message_def zero_packet_def)
  then have sS: "send_S (k\<lparr>k_state := KM_S\<rparr>) = Inr (True, ?k1)"
    using st by (simp add: send_S_def) (simp add: k_message_def zero_packet_def)
  have "send_states k = Some (Inr ?k1)"
    using st sS by (subst send_states.simps) (simp add: send_state_def, subst send_states.simps, simp add: send_state_def)
  then have send: "kermit_send k = Inr ?k1" by (simp add: kermit_send_def)
  let ?k2 = "?k1\<lparr>output_packet := ?p\<lparr>parsed_ok := False\<rparr>, outstanding_bytes := outstanding_bytes k + 18, k_out := send_init_wire k\<rparr>"
  have enc: "encode_output_packet ?k1 = Inr ?k2"
    using encode_init [of ?k1 P_KSINIT ?d] st own assms(2)
    by (simp add: k_message_def quiet_def parms_data_fits send_init_wire_def)
  have "emit_packet ?k1 = save_output_packet 0 ?k2"
    using assms(2) enc by (simp add: emit_packet_def put_padding_def quiet_def k_message_def)
  then have emit: "emit_packet ?k1 = Inr (?k2\<lparr>output_window :=
      [\<lparr>sl_seq = 0, try_count = 1, acked = streaming (own_parms k), sl_type = P_KSINIT, sl_data = Some (send_init_wire k)\<rparr>],
      output_window_n := 1\<rparr>)"
    using st own length_send_init_wire [of k]
    by (cases "streaming (own_parms k)") (simp_all add: save_output_packet_def Let_def size_out_def set_slot_def k_message_def)
  have "kermit_turn toss [] k = bind_res (kermit_send k) (\<lambda>k4. bind_res (emit_packet k4) (\<lambda>k5. Inr (False, False, [], k5)))"
    by (subst idle_turn) (use st own assms(2) in \<open>simp_all add: quiet_def zero_packet_def size_out_def\<close>)
  then show ?thesis
    using st own assms(2) unfolding send bind_res.simps emit asking_def quiet_def
    by (simp add: k_message_def)
qed

text \<open>A call with one whole initial packet as its input.\<close>

lemma bind_res_assoc: "bind_res (bind_res m f) g = bind_res m (\<lambda>x. bind_res (f x) g)"
  by (cases m) simp_all

lemma init_packet_arrives:
  assumes "ctrl_c_count j < 3" "k_buffer_n j = 0" "length (k_buffer j) = 2048" "k_crc_16_tab j = k_makecrc"
    and "MARK (session_parms j) = MARK s" "MAXL (session_parms j) = 80" "data_max (input_packet j) = 1024"
    and "t = P_KSINIT \<and> MAXL (basic_parameters d) \<le> 94 \<or> t = P_KACK \<and> check_type j = 1"
    and "length d = 18" "list_all (\<lambda>b. b < 0x80) d"
  shows "\<exists>buf. length buf = 2048 \<and>
    kermit_turn False (init_wire s t d) j
     = bind_res (check_for_repeat (j\<lparr>k_buffer := buf, k_buffer_n := 1, input_packet := init_packet t d,
           remote_parms := (if t = P_KSINIT then parms_of_data d else remote_parms j)\<rparr>)) (\<lambda>k3.
       bind_res (save_input_packet k3) (\<lambda>k4.
       bind_res (move_windows k4) (\<lambda>k5.
         if window_full k5 then Inr (True, True, [], k5)
         else
           bind_res (if k_sending k5 then kermit_send k5 else kermit_receive k5) (\<lambda>k6.
           bind_res (emit_packet k6) (\<lambda>k7. Inr (False, True, [], k7))))))"
proof -
  let ?w = "init_wire s t d"
  have len: "length ?w = 24" using assms(9) by (simp add: init_wire_def length_wire_packet check_length_def)
  let ?buf = "blit 0 ?w (k_buffer j)"
  let ?buf' = "blit 0 (slice 23 1 ?buf) ?buf"
  let ?j = "j\<lparr>k_buffer := ?buf, k_buffer_n := 24\<rparr>"
  let ?j' = "j\<lparr>k_buffer := ?buf', k_buffer_n := 1, input_packet := init_packet t d,
           remote_parms := (if t = P_KSINIT then parms_of_data d else remote_parms j)\<rparr>"
  have look: "look_for_ctrl_c ?w j = Inr j"
    using assms(1) len by (simp add: look_for_ctrl_c_def count_ctrl_c_def)
  have fill: "fill_buffer (if False then [] else ?w) j = ([], ?j)"
    using assms(2,3) len by (simp add: fill_buffer_def Let_def)
  have dec: "decode_input_bytes ?j = Inr (True, 23, ?j\<lparr>input_packet := init_packet t d,
      remote_parms := (if t = P_KSINIT then parms_of_data d else remote_parms j)\<rparr>)"
    using decode_init [of t d ?j s "drop 24 (k_buffer j)"] assms len by (simp add: blit_def)
  have dis: "discard_input 23 (?j\<lparr>input_packet := init_packet t d,
      remote_parms := (if t = P_KSINIT then parms_of_data d else remote_parms j)\<rparr>) = Inr ?j'"
    by (simp add: discard_input_def)
  have "take_packet ?j = bind_res (check_for_repeat ?j') (\<lambda>k3. bind_res (save_input_packet k3) (\<lambda>k4.
      bind_res (move_windows k4) (\<lambda>k5. Inr (True, k5))))"
    unfolding take_packet_def dec bind_res.simps prod.case dis ..
  moreover have "length ?buf' = 2048" using assms(3) len by (simp add: slice_def)
  ultimately show ?thesis
    unfolding kermit_turn_def look bind_res.simps fill Let_def prod.case
    by (intro exI [of _ ?buf']) (simp add: bind_res_assoc)
qed

text \<open>
  The receiver as it waits for a Send-Init: just started, or after its first call, in which it asks
  with a NAK and throws away what has arrived.
\<close>

definition listening :: "kermit \<Rightarrow> bool" where
  "listening j \<longleftrightarrow>
     \<not> k_sending j \<and> k_state j \<in> {KM_INIT, KM_R} \<and> check_type j = 1 \<and> sequence_number j = 0
     \<and> (k_state j = KM_R \<longrightarrow> \<not> text_mode j) \<and> local_parms j = own_parms j \<and> session_parms j = own_parms j \<and> seven_bit_only j = serial_7bit j
     \<and> data_max (input_packet j) = 1024 \<and> \<not> parsed_ok (input_packet j) \<and> data_max (output_packet j) = 1024
     \<and> k_buffer_n j = 0 \<and> k_crc_16_tab j = k_makecrc
     \<and> input_window j = [zero_slot] \<and> input_window_i j = 0 \<and> input_window_n j = 0
     \<and> output_window j = [zero_slot] \<and> output_window_i j = 0 \<and> output_window_n j = 0"

text \<open>What both ends are to agree on, and the answer of the receiver.\<close>

definition session_of :: "kermit \<Rightarrow> kermit \<Rightarrow> session_parameters" where
  "session_of k j =
     common_parms (kermit_long_packets_option k \<and> kermit_long_packets_option j)
       (kermit_streaming_option k \<and> kermit_streaming_option j) (serial_7bit k \<or> serial_7bit j)"

lemma session_of_simps [simp]:
  "MARK (session_of k j) = C_SOH" "MAXL (session_of k j) = 80" "EOL (session_of k j) = C_CR"
  "CHKT (session_of k j) = 0x33" "CAPAS (session_of k j) AND 0x10 \<noteq> 0"
  "windowing (session_of k j) = (\<not> (kermit_streaming_option k \<and> kermit_streaming_option j))"
  "streaming (session_of k j) = (kermit_streaming_option k \<and> kermit_streaming_option j)"
  "list_all (\<lambda>b. b < 0x80) (parms_data (session_of k j))" "MAXL (basic_parameters (parms_data (session_of k j))) \<le> 94"
  by (simp_all add: session_of_def parms_data_fits) (simp_all add: common_parms_def end_parms_def)

lemma negotiated_receiver:
  "negotiated (own_parms j) (parms_of_data (parms_data (own_parms k))) (own_parms j) = session_of k j"
  unfolding own_parms_def read_parms receiver_negotiates session_of_def by (simp only: conj_commute disj_commute)

lemma negotiated_sender:
  "negotiated (own_parms k) (parms_of_data (parms_data (session_of k j))) (own_parms k) = session_of k j"
  unfolding own_parms_def session_of_def read_answer sender_negotiates ..

lemma read_own [simp]:
  "NPAD (parms_of_data (parms_data (own_parms k))) = 0" "QCTL (parms_of_data (parms_data (own_parms k))) = 0x23"
  "QCTL (parms_of_data (parms_data (session_of k j))) = 0x23" "NPAD (parms_of_data (parms_data (session_of k j))) = 0"
  unfolding own_parms_def session_of_def read_parms read_answer by (simp_all add: end_parms_def common_parms_def)

lemma session_windows [simp]: "0 < WINDO_out (session_of k j)" "WINDO_out (session_of k j) \<noteq> 0"
  by (simp_all add: session_of_def common_parms_def end_parms_def)

definition after_negotiation :: "session_parameters \<Rightarrow> kermit \<Rightarrow> kermit" where
  "after_negotiation s k =
     (let k1 = k\<lparr>session_parms := s, check_type := 3, do_resend := True\<rparr>
      in if windowing s
         then k1\<lparr>input_window := replicate (WINDO_in s) zero_slot, output_window := replicate (WINDO_out s) zero_slot,
                 input_window_n := 0, input_window_i := 0, input_window_begin := 0\<rparr>
         else k1)"

lemma negotiate_send_init_result:
  assumes "negotiated (local_parms k) (remote_parms k) (session_parms k) = s" "CHKT s = 0x33" "CAPAS s AND 0x10 \<noteq> 0"
    and "input_window k \<noteq> []" "output_window k \<noteq> []"
  shows "negotiate_send_init k = Inr (after_negotiation s k)"
  using assms(2-5) unfolding negotiate_send_init_def Let_def assms(1) [unfolded negotiated_def]
  by (simp add: after_negotiation_def)

lemma after_negotiation_simps [simp]:
  "session_parms (after_negotiation s k) = s" "check_type (after_negotiation s k) = 3"
  "local_parms (after_negotiation s k) = local_parms k" "remote_parms (after_negotiation s k) = remote_parms k"
  "input_packet (after_negotiation s k) = input_packet k" "output_packet (after_negotiation s k) = output_packet k"
  "k_sending (after_negotiation s k) = k_sending k" "k_state (after_negotiation s k) = k_state k"
  "seven_bit_only (after_negotiation s k) = seven_bit_only k" "k_crc_16_tab (after_negotiation s k) = k_crc_16_tab k"
  "text_mode (after_negotiation s k) = text_mode k" "k_file_name (after_negotiation s k) = k_file_name k"
  "kermit_robust_filename (after_negotiation s k) = kermit_robust_filename k"
  "k_out (after_negotiation s k) = k_out k" "k_out_max (after_negotiation s k) = k_out_max k"
  "sequence_number (after_negotiation s k) = sequence_number k"
  "output_window_i (after_negotiation s k) = output_window_i k"
  "output_window_begin (after_negotiation s k) = output_window_begin k"
  "output_window_n (after_negotiation s k) = output_window_n k"
  "output_window (after_negotiation s k)
     = (if windowing s then replicate (WINDO_out s) zero_slot else output_window k)"
  by (simp_all add: after_negotiation_def Let_def)

lemma ack_send_init_result:
  assumes "send_init_data k = parms_data s" "data_max (output_packet k) = 1024"
  shows "ack_send_init k
       = Inr (k\<lparr>sequence_number := 0,
                output_packet := (output_packet k)\<lparr>parsed_ok := True, kp_type := P_KACK, kp_seq := 0,
                                                     kp_data := parms_data s\<rparr>\<rparr>)"
  using assms by (simp add: ack_send_init_def put_packet_def parms_data_fits Let_def)

text \<open>The receiver, its acknowledgement on the line.\<close>

definition answered :: "kermit \<Rightarrow> kermit \<Rightarrow> kermit \<Rightarrow> bool" where
  "answered k j j1 \<longleftrightarrow>
     \<not> k_sending j1 \<and> k_state j1 = KM_RF \<and> check_type j1 = 3 \<and> session_parms j1 = session_of k j
     \<and> QCTL (remote_parms j1) = 0x23 \<and> seven_bit_only j1 = serial_7bit j \<and> k_crc_16_tab j1 = k_makecrc
     \<and> \<not> text_mode j1"

definition answer_wire :: "kermit \<Rightarrow> kermit \<Rightarrow> byte list" where
  "answer_wire k j = init_wire (session_of k j) P_KACK (parms_data (session_of k j))"

lemma receiver_answers:
  assumes "listening j" "quiet j"
  shows "\<exists>j1. kermit_turn False (send_init_wire k) j = Inr (False, True, [], j1)
    \<and> k_out j1 = answer_wire k j \<and> answered k j j1"
proof -
  note st = assms(1) [unfolded listening_def]
  let ?d = "parms_data (own_parms k)" and ?S = "session_of k j"
  let ?j1 = "\<lambda>buf. j\<lparr>k_buffer := buf, k_buffer_n := 1, input_packet := init_packet P_KSINIT ?d,
           remote_parms := parms_of_data ?d\<rparr>"
  from init_packet_arrives [of j "own_parms k" P_KSINIT ?d] st assms(2) obtain buf where
    buf: "length buf = 2048" and turn: "kermit_turn False (send_init_wire k) j
     = bind_res (check_for_repeat (?j1 buf)) (\<lambda>k3. bind_res (save_input_packet k3) (\<lambda>k4. bind_res (move_windows k4) (\<lambda>k5.
         if window_full k5 then Inr (True, True, [], k5)
         else bind_res (if k_sending k5 then kermit_send k5 else kermit_receive k5) (\<lambda>k6.
              bind_res (emit_packet k6) (\<lambda>k7. Inr (False, True, [], k7))))))"
    by (auto simp: quiet_def send_init_wire_def parms_data_fits zero_packet_def)
  have rep: "check_for_repeat (?j1 buf) = Inr (?j1 buf)"
    using st by (simp add: check_for_repeat_def find_output_slot_def init_packet_def Let_def)
  let ?j2 = "(?j1 buf)\<lparr>input_window := [input_slot (?j1 buf)], input_window_n := 1, sequence_number := 1\<rparr>"
  have save: "save_input_packet (?j1 buf) = Inr ?j2"
    using st by (simp add: save_input_packet_def find_input_slot_def init_packet_def Let_def set_slot_def size_in_def)
  have move: "move_windows ?j2 = Inr ?j2" "window_full ?j2 = False" "k_sending ?j2 = False"
    using st by (simp_all add: move_windows_def window_full_def)
  let ?jr = "?j2\<lparr>k_state := KM_R, text_mode := False\<rparr>"
  have "\<exists>w. (if first_R X then (k_message ''WAITING FOR SEND-INIT...'' X)\<lparr>first_R := False\<rparr> else X)
      = X\<lparr>first_R := False, kworld := w\<rparr>" for X
    by (rule exI [of _ "if first_R X then kworld (k_message ''WAITING FOR SEND-INIT...'' X) else kworld X"])
      (simp add: k_message_def)
  then obtain w where w: "(if first_R ?jr then (k_message ''WAITING FOR SEND-INIT...'' ?jr)\<lparr>first_R := False\<rparr> else ?jr)
      = ?jr\<lparr>first_R := False, kworld := w\<rparr>" by blast
  let ?j3 = "k_message ''ACK SEND-INIT'' (?jr\<lparr>first_R := False, kworld := w\<rparr>)"
  have neg: "negotiate_send_init ?j3 = Inr (after_negotiation ?S ?j3)"
    by (rule negotiate_send_init_result) (use st negotiated_receiver [of j k] in \<open>simp_all add: k_message_def\<close>)
  let ?j4 = "after_negotiation ?S ?j3"
  let ?p = "(output_packet j)\<lparr>parsed_ok := True, kp_type := P_KACK, kp_seq := 0, kp_data := parms_data ?S\<rparr>"
  let ?j5 = "?j4\<lparr>sequence_number := 0, output_packet := ?p\<rparr>"
  let ?j6 = "(k_message ''WAITING FOR FILE HEADER...'' (packet_used ?j5))\<lparr>k_state := KM_RF\<rparr>"
  have data: "send_init_data ?j4 = parms_data ?S"
    using st by (simp add: send_init_data_def parms_data_def Let_def k_message_def)
      (simp add: own_parms_def end_parms_def session_of_def common_parms_def)
  have "ack_send_init ?j4 = Inr ?j5"
    using st ack_send_init_result [OF data] by (simp add: k_message_def)
  then have R: "receive_R ?jr = Inr (True, ?j6)"
    using st neg unfolding receive_R_def w Let_def by (simp add: init_packet_def)
  have "receive_states ?j2 = receive_states ?jr"
  proof (cases "k_state j = KM_INIT")
    case True
    then show ?thesis by (subst receive_states.simps) (simp add: receive_state_def)
  next
    case False
    then have "?jr = ?j2" using st by simp
    then show ?thesis by simp
  qed
  also have "\<dots> = Some (Inr ?j6)"
    using R by (subst receive_states.simps) (simp add: receive_state_def)
  finally have "receive_states ?j2 = Some (Inr ?j6)" .
  then have rec: "kermit_receive ?j2 = Inr ?j6" by (simp add: kermit_receive_def)
  let ?j7 = "?j6\<lparr>output_packet := ?p\<lparr>long_packet := False, parsed_ok := False\<rparr>, outstanding_bytes := outstanding_bytes ?j6 + 18, k_out := answer_wire k j\<rparr>"
  have enc: "encode_output_packet ?j6 = Inr ?j7"
    using encode_init [of ?j6 P_KACK "parms_data ?S"] st assms(2)
    by (simp add: k_message_def packet_used_def quiet_def parms_data_fits answer_wire_def)
  have len: "length (answer_wire k j) = 24"
    by (simp add: answer_wire_def init_wire_def length_wire_packet check_length_def parms_data_fits)
  have "emit_packet ?j6 = save_output_packet 0 ?j7"
    using assms(2) enc by (simp add: emit_packet_def put_padding_def quiet_def k_message_def packet_used_def)
  then have emit: "emit_packet ?j6 = Inr (?j7\<lparr>output_window := (output_window ?j6)[0 :=
      \<lparr>sl_seq = 0, try_count = 1, acked = True, sl_type = P_KACK, sl_data = Some (answer_wire k j)\<rparr>],
      output_window_n := 1\<rparr>)"
    using st len by (simp add: save_output_packet_def Let_def set_slot_def k_message_def packet_used_def)
  show ?thesis
    unfolding turn rep bind_res.simps save move if_False rec emit
    using st by (simp add: answered_def) (simp add: k_message_def packet_used_def)
qed

text \<open>A packet without a file: how long it can be.\<close>

lemma length_encode_one: "0 < n \<Longrightarrow> length (encode_one_byte q False c n) \<le> 3 * n"
proof -
  assume n: "0 < n"
  have char: "length (encode_char q c) \<le> 3" by (simp add: encode_char_def Let_def)
  show ?thesis
  proof (cases "3 < n")
    case True
    then show ?thesis using char by (simp add: encode_one_byte_def)
  next
    case False
    have "length (concat (replicate m xs)) = m * length xs" for m and xs :: "byte list" by (induction m) simp_all
    then show ?thesis using False char by (simp add: encode_one_byte_def mult.commute)
  qed
qed

definition encoded_within :: "encoding \<Rightarrow> bool" where
  "encoded_within e \<longleftrightarrow>
     length (e_data e) + 3 * e_count e + (if e_crlf e then 3 else 0) \<le> 6 * e_read e
     \<and> (\<not> e_first e \<longrightarrow> 0 < e_count e)"

lemma count_char_within:
  assumes "\<not> g_b_check g" "\<not> e_first e \<longrightarrow> 0 < e_count e" "length (e_data e) + 3 * e_count e + 3 \<le> m"
  shows "length (e_data (count_char g c e)) + 3 * e_count (count_char g c e) \<le> m"
    "e_read (count_char g c e) = e_read e" "e_crlf (count_char g c e) = e_crlf e" "0 < e_count (count_char g c e)"
  using assms length_encode_one [of "e_count e" "g_quoting g" "e_last e"] by (auto simp: count_char_def Let_def)

lemma encode_loop_within:
  assumes "encode_loop g bs e = (at_end, e')" "\<not> g_b_check g" "encoded_within e" "\<not> e_crlf e"
  shows "encoded_within e' \<and> e_read e' \<le> e_read e + length bs"
  using assms
proof (induction g bs e rule: encode_loop.induct)
  case (2 g c cs e)
  let ?e1 = "e\<lparr>e_read := e_read e + 1\<rparr>"
  let ?e2 = "count_char g C_CR ?e1"
  note b = "2.prems"(2) and w = "2.prems"(3) [unfolded encoded_within_def]
  have c1: "length (e_data (count_char g x ?e1)) + 3 * e_count (count_char g x ?e1) \<le> 6 * e_read e + 3"
    "e_read (count_char g x ?e1) = e_read e + 1" "\<not> e_crlf (count_char g x ?e1)" "0 < e_count (count_char g x ?e1)" for x
    using count_char_within [OF b, of ?e1 "6 * e_read e + 3" x] w "2.prems"(4) by simp_all
  have c2: "length (e_data (count_char g C_LF ?e2)) + 3 * e_count (count_char g C_LF ?e2) \<le> 6 * e_read e + 6"
    "e_read (count_char g C_LF ?e2) = e_read e + 1" "\<not> e_crlf (count_char g C_LF ?e2)" "0 < e_count (count_char g C_LF ?e2)"
    using count_char_within [OF b, of ?e2 "6 * e_read e + 6" C_LF] c1 [of C_CR] by simp_all
  consider "encode_full g e" | "\<not> encode_full g e" "g_raw g" | "\<not> encode_full g e" "\<not> g_raw g" "g_text g" "c = C_CR"
    | "\<not> encode_full g e" "\<not> g_raw g" "g_text g" "c = C_LF" "encode_full g ?e2"
    | "\<not> encode_full g e" "\<not> g_raw g" "g_text g" "c = C_LF" "\<not> encode_full g ?e2"
    | "\<not> encode_full g e" "\<not> g_raw g" "\<not> (g_text g \<and> (c = C_CR \<or> c = C_LF))" by blast
  then show ?case
  proof cases
    case 2
    then have "encode_loop g cs (?e1\<lparr>e_data := e_data e @ [c]\<rparr>) = (at_end, e')" using "2.prems"(1) by simp
    moreover have "encoded_within (?e1\<lparr>e_data := e_data e @ [c]\<rparr>)" using w by (simp add: encoded_within_def)
    ultimately show ?thesis using 2 "2.IH"(1) [OF 2(1) refl 2(2)] b "2.prems"(4) by simp
  next
    case 3
    then have "encode_loop g cs ?e1 = (at_end, e')" using "2.prems"(1) by simp
    moreover have "encoded_within ?e1" using w by (simp add: encoded_within_def)
    ultimately show ?thesis using 3 "2.IH"(2) [OF 3(1) refl 3(2)] b "2.prems"(4) by simp
  next
    case 4
    then have "e' = ?e2\<lparr>e_crlf := True\<rparr>" using "2.prems"(1) by (simp add: Let_def C_CR_def C_LF_def)
    then show ?thesis using c1 [of C_CR] by (simp add: encoded_within_def)
  next
    case 5
    then have "encode_loop g cs (count_char g C_LF ?e2) = (at_end, e')" using "2.prems"(1) by (simp add: Let_def C_CR_def C_LF_def)
    moreover have "encoded_within (count_char g C_LF ?e2)" using c2 by (simp add: encoded_within_def)
    ultimately show ?thesis using 5 "2.IH"(3) [OF 5(1) refl 5(2) _ _ refl 5(5)] b c2 by (simp add: C_CR_def C_LF_def)
  next
    case 6
    then have "encode_loop g cs (count_char g c ?e1) = (at_end, e')" using "2.prems"(1) by (auto simp: Let_def)
    moreover have "encoded_within (count_char g c ?e1)" using c1 [of c] by (simp add: encoded_within_def)
    ultimately show ?thesis using 6 "2.IH"(4) [OF 6(1) refl 6(2)] b c1 [of c] by auto
  qed (use "2.prems" in \<open>simp_all add: encoded_within_def\<close>)
qed simp

lemma length_encode_rest:
  assumes "encode_loop g bs encoding_start = (at_end, e)" "\<not> g_b_check g"
  shows "length (encode_rest g e) \<le> 6 * length bs"
proof -
  have "encoded_within e" "e_read e \<le> length bs"
    using encode_loop_within [OF assms] by (simp_all add: encoded_within_def encoding_start_def)
  then show ?thesis
    using length_encode_one [of "e_count e" "g_quoting g" "e_last e"] length_encode_one [of 1 "g_quoting g" C_LF] assms(2)
    by (auto simp: encode_rest_def encoded_within_def)
qed

text \<open>The packet with the name of the file goes out, whatever the name is.\<close>

definition header_packet :: "byte list \<Rightarrow> kermit_packet" where
  "header_packet name =
     \<lparr>parsed_ok = True, kp_seq = 1, kp_type = P_KFILE, kp_length = 0, long_packet = False, kp_data = name,
      data_max = 1024\<rparr>"

lemma header_goes_out:
  assumes "output_packet k = header_packet name" "length name \<le> 255" "check_type k = 3" "k_out k = []"
    and "2048 < k_out_max k" "NPAD (remote_parms k) = 0" "k_state k = KM_SF"
    and "output_window k \<noteq> []" "output_window_i k = 0" "output_window_n k = 0" "0 < size_out k"
  shows "\<exists>k1. emit_packet k = Inr k1 \<and> session_parms k1 = session_parms k \<and> local_parms k1 = local_parms k
    \<and> check_type k1 = check_type k \<and> seven_bit_only k1 = seven_bit_only k \<and> k_crc_16_tab k1 = k_crc_16_tab k
    \<and> text_mode k1 = text_mode k \<and> k_state k1 = KM_SF"
proof -
  let ?k = "k\<lparr>output_packet := header_packet name\<rparr>"
  obtain at_end e where e: "encode_loop (encode_call_of ?k) name encoding_start = (at_end, e)" by fastforce
  have "length (encode_rest (encode_call_of ?k) e) \<le> 6 * 255"
    using length_encode_rest [OF e] assms(2,3) by (simp add: encode_call_of_def Let_def)
  then have fits: "length (encode_rest (encode_call_of ?k) e) \<le> 1530" by simp
  let ?data = "encode_rest (encode_call_of ?k) e"
  let ?body = "packet_head False 1 P_KFILE (length ?data) 3 @ ?data"
  let ?w = "MARK (session_parms k) # ?body @ check_bytes (seven_bit_only k) (k_crc_16_tab k) 3 ?body @ [EOL (session_parms k)]"
  let ?k1 = "k\<lparr>output_packet := (header_packet name)\<lparr>parsed_ok := False\<rparr>,
              outstanding_bytes := outstanding_bytes k + int (e_read e), k_out := ?w\<rparr>"
  have same: "(output_packet k)\<lparr>long_packet := False\<rparr> = header_packet name" by (simp add: assms(1) header_packet_def)
  have hp: "parsed_ok (header_packet name)" "kp_type (header_packet name) = P_KFILE" "kp_seq (header_packet name) = 1"
    "kp_data (header_packet name) = name"
    by (simp_all add: header_packet_def)
  have ct: "output_check_type k = 3" using assms(1,3) hp by (simp add: output_check_type_def)
  have field: "encode_data_field ?k = Inr (?data, ?k\<lparr>outstanding_bytes := outstanding_bytes k + int (e_read e)\<rparr>)"
    using e hp by (simp add: encode_data_field_def)
  have len: "length ?w \<le> 1539" using fits by (simp add: length_check_bytes check_length_def)
  have "encode_output_packet k = Inr ?k1"
    unfolding encode_output_packet_def Let_def ct
    using assms(4,5) field len by (simp add: assms(1) same [unfolded assms(1)] hp check_length_def put_output_def)
  moreover have "put_padding k = Inr k" using assms(6) by (simp add: put_padding_def)
  ultimately have emit: "emit_packet k = save_output_packet 0 ?k1" using assms(4) by (simp add: emit_packet_def)
  show ?thesis
    unfolding emit using assms(7-11) by (simp add: save_output_packet_def hp Let_def set_slot_def size_out_def)
qed


lemma sender_agrees:
  assumes "asking k k1" "k_file_name k = Some name" "length name \<le> 255" "\<not> kermit_robust_filename k"
    and "2048 < k_out_max k"
  shows "\<exists>k2. kermit_turn False (answer_wire k j) (k1\<lparr>k_out := []\<rparr>) = Inr (False, True, [], k2)
    \<and> k_state k2 = KM_SF \<and> session_parms k2 = session_of k j \<and> check_type k2 = 3
    \<and> QCTL (local_parms k2) = 0x23 \<and> seven_bit_only k2 = serial_7bit k \<and> k_crc_16_tab k2 = k_makecrc
    \<and> text_mode k2 = text_mode k"
proof -
  note as = assms(1) [unfolded asking_def]
  let ?S = "session_of k j"
  let ?d = "parms_data ?S"
  let ?k = "k1\<lparr>k_out := []\<rparr>"
  from as obtain s where s: "output_window k1 = [s]" "sl_seq s = 0" by blast
  let ?j1 = "\<lambda>buf. ?k\<lparr>k_buffer := buf, k_buffer_n := 1, input_packet := init_packet P_KACK ?d\<rparr>"
  have "?k\<lparr>k_buffer := b, k_buffer_n := 1, input_packet := p, remote_parms := remote_parms ?k\<rparr>
      = ?k\<lparr>k_buffer := b, k_buffer_n := 1, input_packet := p\<rparr>" for b p by simp
  with init_packet_arrives [of ?k ?S P_KACK ?d] as obtain buf where
    turn: "kermit_turn False (answer_wire k j) ?k
     = bind_res (check_for_repeat (?j1 buf)) (\<lambda>k3. bind_res (save_input_packet k3) (\<lambda>k4. bind_res (move_windows k4) (\<lambda>k5.
         if window_full k5 then Inr (True, True, [], k5)
         else bind_res (if k_sending k5 then kermit_send k5 else kermit_receive k5) (\<lambda>k6.
              bind_res (emit_packet k6) (\<lambda>k7. Inr (False, True, [], k7))))))"
    by (auto simp: answer_wire_def parms_data_fits zero_packet_def)
  let ?j2 = "(?j1 buf)\<lparr>output_window := [s\<lparr>acked := True\<rparr>]\<rparr>"
  have rep: "check_for_repeat (?j1 buf) = Inr ?j2"
    using as s by (simp add: check_for_repeat_def find_output_slot_def init_packet_def Let_def slot_at_def set_slot_def)
  have save: "save_input_packet ?j2 = Inr ?j2" using as by (simp add: save_input_packet_def)
  let ?j3 = "?j2\<lparr>output_window_n := 0, output_window := [s\<lparr>acked := True, sl_data := None\<rparr>], output_window_begin := 0\<rparr>"
  have move: "move_windows ?j2 = Inr ?j3" "window_full ?j3 = False" "k_sending ?j3 = True"
    using as by (simp_all add: move_windows_def move_output_window.simps slot_at_def size_out_def window_full_def)
  let ?j4 = "?j3\<lparr>remote_parms := parms_of_data ?d\<rparr>"
  let ?j5 = "after_negotiation ?S ?j4"
  have neg: "negotiate_send_init ?j4 = Inr ?j5"
    by (rule negotiate_send_init_result) (use as negotiated_sender [of k j] in simp_all)
  have process: "process_send_init ?j3 = (True, ?j4)"
    by (simp add: process_send_init_def init_packet_def parms_of_data_def Let_def not_less)
  let ?j6 = "k_message ''FILE HEADER'' ((packet_used ?j5)\<lparr>sequence_number := 1\<rparr>)"
  let ?j7 = "?j6\<lparr>output_packet := header_packet name\<rparr>"
  have header: "send_file_header ?j6 = Inr ?j7"
    using as assms(2-4)
    by (simp add: send_file_header_def put_packet_def Let_def k_message_def packet_used_def)
      (simp add: header_packet_def)
  have "send_S ?j3 = Inr (False, ?j7\<lparr>k_state := KM_SF\<rparr>)"
    using as process neg header by (simp add: send_S_def init_packet_def Let_def) (simp add: packet_used_def)
  then have "send_states ?j3 = Some (Inr (?j7\<lparr>k_state := KM_SF\<rparr>))"
    using as
    by (subst send_states.simps) (simp add: send_state_def, subst send_states.simps,
      simp add: send_state_def send_SF_def k_message_def packet_used_def)
  then have send: "kermit_send ?j3 = Inr (?j7\<lparr>k_state := KM_SF\<rparr>)" by (simp add: kermit_send_def)
  have "\<exists>k2. emit_packet (?j7\<lparr>k_state := KM_SF\<rparr>) = Inr k2 \<and> session_parms k2 = ?S \<and> local_parms k2 = own_parms k
    \<and> check_type k2 = 3 \<and> seven_bit_only k2 = serial_7bit k \<and> k_crc_16_tab k2 = k_makecrc
    \<and> text_mode k2 = text_mode k \<and> k_state k2 = KM_SF"
    using header_goes_out [of "?j7\<lparr>k_state := KM_SF\<rparr>" name] as assms(3,5)
    by (simp add: k_message_def packet_used_def size_out_def)
  then show ?thesis
    unfolding turn rep bind_res.simps save move if_False if_True send
    by auto
qed


section \<open>The first call of the receiver\<close>

text \<open>
  With no input and before the timeout the receiver asks for a packet with a NAK, and waits.
\<close>

lemma own_parms_cong:
  "kermit_long_packets_option j = kermit_long_packets_option k \<Longrightarrow> kermit_streaming_option j = kermit_streaming_option k
    \<Longrightarrow> serial_7bit j = serial_7bit k \<Longrightarrow> own_parms j = own_parms k"
  by (simp add: own_parms_def)

definition nak_wire :: "kermit \<Rightarrow> byte list" where
  "nak_wire k = wire_packet C_SOH (serial_7bit k) 1 False 0 P_KNAK [] @ [C_CR]"

lemma nak_goes_out:
  assumes "output_packet k = p" "parsed_ok p" "kp_type p = P_KNAK" "kp_seq p = 0" "kp_data p = []" "\<not> long_packet p"
    and "MARK (session_parms k) = C_SOH" "EOL (session_parms k) = C_CR" "MAXL (session_parms k) = 80"
    and "k_crc_16_tab k = k_makecrc" "seven_bit_only k = serial_7bit j" "k_out k = []" "2048 < k_out_max k"
    and "NPAD (remote_parms k) = 0"
  shows "emit_packet k = Inr (k\<lparr>output_packet := p\<lparr>parsed_ok := False\<rparr>, k_out := nak_wire j\<rparr>)"
proof -
  have same: "p\<lparr>long_packet := False\<rparr> = p" using assms(6) by simp
  then have k: "k\<lparr>output_packet := p\<lparr>long_packet := False\<rparr>\<rparr> = k" using assms(1) by (simp del: kermit_packet.simps)
  have "\<not> encode_full (encode_call_of k) encoding_start"
    using assms(1,6,9) by (simp add: encode_full_def encode_call_of_def encoding_start_def Let_def)
  then have field: "encode_data_field k = Inr ([], k)"
    using assms(1,3,5) by (simp add: encode_data_field_def encode_rest_def Let_def) (simp add: encoding_start_def)
  have len: "length (nak_wire j) = 6" by (simp add: nak_wire_def length_wire_packet check_length_def)
  have w: "nak_wire j = MARK (session_parms k) # packet_head False 0 P_KNAK 0 1
      @ check_bytes (seven_bit_only k) k_makecrc 1 (packet_head False 0 P_KNAK 0 1) @ [EOL (session_parms k)]"
    using assms(7,8,11) by (simp add: nak_wire_def wire_packet_def wire_body_def check_length_def)
  have "encode_output_packet k = Inr (k\<lparr>output_packet := p\<lparr>parsed_ok := False\<rparr>, k_out := nak_wire j\<rparr>)"
    using assms(1-6,10,12,13) len
    by (simp add: encode_output_packet_def output_check_type_def Let_def put_output_def check_length_def k field w
        length_check_bytes)
  moreover have "put_padding k = Inr k" using assms(14) by (simp add: put_padding_def)
  ultimately show ?thesis using assms(3,12) len by (simp add: emit_packet_def save_output_packet_def)
qed

lemma started_room:
  assumes "started send k" "quiet k" "k_out k' = []" "k_out_max k' = k_out_max k"
  shows "\<not> no_more_room (free_space_needed k) k'"
proof -
  have "free_space_needed k \<le> 1034"
    using started_own_parms [OF assms(1)] assms(2) by (simp add: free_space_needed_def Let_def quiet_def)
  moreover have "unat (of_nat (k_out_max k) :: u32) = k_out_max k"
    using assms(2) by (intro unat_small) (simp add: quiet_def)
  then have "1034 < (of_nat (k_out_max k) :: u32)" using assms(2) by (simp add: quiet_def word_less_nat_alt)
  ultimately show ?thesis using assms(3,4) by (simp add: no_more_room_def)
qed

lemma first_process:
  assumes "started send k" "\<not> sent_nak k" "quiet k" "start_call [] k = Inr k'" "k_out k' = []" "k_out_max k' = k_out_max k"
    and "output_window_n k' = 0" "size_out k' = 1" "kermit_turn True [] k' = Inr (False, False, [], k1)"
  shows "kermit_process [] k = Inr (end_call k1)"
proof -
  have first: "first_call k" using startedD [OF assms(1)] assms(2) by (simp add: first_call_def)
  have w: "\<not> window_full k'" using assms(7,8) by (simp add: window_full_def)
  have "kermit_loop (free_space_needed k) True True [] k' = Some (Inr k1)"
    using started_room [OF assms(1,3,5,6)] w assms(9) by (subst kermit_loop.simps) simp
  then show ?thesis
    using startedD [OF assms(1)] assms(3,4) first w started_room [OF assms(1,3,5,6)]
    by (simp add: kermit_process_def quiet_def Let_def)
qed

lemma receiver_first_call:
  assumes "started False j" "\<not> sent_nak j" "quiet j" "now (kworld j) < k_timeout_begin j + 5"
  shows "\<exists>j1. kermit_process [] j = Inr j1 \<and> k_out j1 = nak_wire j \<and> listening j1 \<and> quiet (j1\<lparr>k_out := []\<rparr>)
    \<and> own_parms j1 = own_parms j"
proof -
  note st = startedD [OF assms(1)]
  note own = started_own_parms [OF assms(1)]
  let ?p = "(zero_packet 1024)\<lparr>parsed_ok := True, kp_type := P_KNAK, kp_seq := 0\<rparr>"
  let ?j1 = "(k_stats_increment_errors (MsgN ''NAK - SEQ %u'' 0) (j\<lparr>output_packet := ?p\<rparr>))\<lparr>sent_nak := True\<rparr>"
  have nak: "nak_packet j = Inr (k_stats_increment_errors (MsgN ''NAK - SEQ %u'' 0) (j\<lparr>output_packet := ?p\<rparr>))"
    using st own by (simp add: nak_packet_def nak_seq_def put_packet_def zero_packet_def Let_def k_stats_increment_errors_def
        k_stats_def nak_window_def window_next_packet_seq_def slot_at_def zero_slot_def size_in_def)
  have start: "start_call [] j = Inr ?j1"
    using st own nak assms(2,4)
    by (simp add: start_call_def first_call_def k_check_timeout_def k_stats_increment_errors_def k_stats_def)
  let ?jr = "?j1\<lparr>k_state := KM_R, text_mode := False\<rparr>"
  let ?j2 = "(k_message ''WAITING FOR SEND-INIT...'' ?jr)\<lparr>first_R := False\<rparr>"
  have "receive_states ?j1 = Some (Inr ?j2)"
    using st by (subst receive_states.simps)
      (simp add: receive_state_def k_stats_increment_errors_def k_stats_def, subst receive_states.simps,
       simp add: receive_state_def receive_R_def k_message_def zero_packet_def Let_def)
  then have rec: "kermit_receive ?j1 = Inr ?j2" by (simp add: kermit_receive_def)
  let ?j3 = "?j2\<lparr>output_packet := ?p\<lparr>parsed_ok := False\<rparr>, k_out := nak_wire j\<rparr>"
  have emit: "emit_packet ?j2 = Inr ?j3"
    by (rule nak_goes_out) (use st own assms(3) in
      \<open>simp_all add: quiet_def k_message_def k_stats_increment_errors_def k_stats_def zero_packet_def\<close>)
  have turn: "kermit_turn True [] ?j1 = Inr (False, False, [], ?j3)"
    using rec emit idle_turn [of ?j1 True] st own assms(3)
    by (simp add: quiet_def size_out_def k_stats_increment_errors_def k_stats_def zero_packet_def)
  have ready: "kermit_process [] j = Inr (end_call ?j3)"
    by (rule first_process [OF assms(1-3) start _ _ _ _ turn])
      (use st own assms(3) in \<open>simp_all add: quiet_def size_out_def k_stats_increment_errors_def k_stats_def\<close>)
  have "listening (end_call ?j3)"
    unfolding listening_def using st own
    by (simp add: end_call_def packet_used_def k_reset_timer_def k_message_def k_stats_increment_errors_def k_stats_def
        zero_packet_def own_parms_def)
  moreover have "quiet ((end_call ?j3)\<lparr>k_out := []\<rparr>)" "k_out (end_call ?j3) = nak_wire j" "own_parms (end_call ?j3) = own_parms j"
    using assms(3)
    by (simp_all add: quiet_def end_call_def packet_used_def k_reset_timer_def k_message_def k_stats_increment_errors_def
        k_stats_def own_parms_def)
  ultimately show ?thesis using ready by blast
qed

lemma sender_first_call:
  assumes "started True k" "\<not> sent_nak k" "quiet k" "now (kworld k) < k_timeout_begin k + 5"
  shows "\<exists>k1. kermit_process [] k = Inr k1 \<and> k_out k1 = send_init_wire k \<and> asking k k1"
proof -
  note st = startedD [OF assms(1)]
  note own = started_own_parms [OF assms(1)]
  let ?k = "k\<lparr>sent_nak := True\<rparr>"
  have "started True ?k" "quiet ?k"
    using assms(1,3) by (simp_all add: started_def quiet_def default_session_parameters_def)
  from sender_asks [OF this] obtain k1 where
    k1: "kermit_turn True [] ?k = Inr (False, False, [], k1)" "k_out k1 = send_init_wire ?k" "asking ?k k1" by blast
  have start: "start_call [] k = Inr ?k"
    using st own assms(2,4) by (simp add: start_call_def first_call_def k_check_timeout_def)
  have ready: "kermit_process [] k = Inr (end_call k1)"
    by (rule first_process [OF assms(1-3) start _ _ _ _ k1(1)]) (use st own assms(3) in \<open>simp_all add: quiet_def size_out_def\<close>)
  have "asking k (end_call k1)"
    using k1(3) by (simp add: asking_def end_call_def packet_used_def k_reset_timer_def own_parms_def zero_packet_def)
  moreover have "k_out (end_call k1) = send_init_wire k"
    using k1(2) by (simp add: end_call_def packet_used_def k_reset_timer_def send_init_wire_def own_parms_def)
  ultimately show ?thesis using ready by blast
qed

section \<open>The agreement\<close>

text \<open>
  C4. Two ends started by \<open>kermit_start\<close> agree. In its first call the sender puts its Send-Init on
  the line and the receiver asks with a NAK; the receiver takes the Send-Init and answers, and the
  sender takes the answer and announces its file. Whatever the two users chose of long packets,
  streaming and a seven-bit line, on either side, both ends then have the same session
  parameters: what both want is used, an 8-bit prefix is used as soon as one line needs it, and
  windows of thirty packets unless both stream. The sender sends file names as they are (no
  robust file names), and the name has at most 255 bytes. Over lines of the same width, and for a
  sender that is not in text mode, the ends are also tuned: the receiver reads the data packets
  of the sender.
\<close>

theorem kermit_ends_agree:
  assumes "kermit_start fl pn True k0 = Inr (True, k)" "kermit_start fl' pn' False j0 = Inr (True, j)"
    and "quiet k" "now (kworld k) < k_timeout_begin k + 5" "quiet j" "now (kworld j) < k_timeout_begin j + 5"
    and "k_file_name k = Some name" "length name \<le> 255" "\<not> kermit_robust_filename k"
  shows "\<exists>k1 j1 j2 k2. kermit_process [] k = Inr k1 \<and> kermit_process [] j = Inr j1
    \<and> kermit_turn False (k_out k1) (j1\<lparr>k_out := []\<rparr>) = Inr (False, True, [], j2) \<and> k_state j2 = KM_RF
    \<and> kermit_turn False (k_out j2) (k1\<lparr>k_out := []\<rparr>) = Inr (False, True, [], k2) \<and> k_state k2 = KM_SF
    \<and> session_parms k2 = session_of k j \<and> session_parms j2 = session_of k j
    \<and> (serial_7bit k = serial_7bit j \<and> \<not> text_mode k \<longrightarrow> tuned k2 j2)"
proof -
  from sender_first_call [OF kermit_start_started [OF assms(1)] assms(3,4)] obtain k1 where
    k1: "kermit_process [] k = Inr k1" "k_out k1 = send_init_wire k" "asking k k1" by blast
  from receiver_first_call [OF kermit_start_started [OF assms(2)] assms(5,6)] obtain j1 where
    j1: "kermit_process [] j = Inr j1" "listening j1" "quiet (j1\<lparr>k_out := []\<rparr>)" "own_parms j1 = own_parms j" by blast
  have "listening (j1\<lparr>k_out := []\<rparr>)" using j1(2) by (simp add: listening_def own_parms_def)
  from receiver_answers [OF this j1(3), of k] obtain j2 where
    j2: "kermit_turn False (send_init_wire k) (j1\<lparr>k_out := []\<rparr>) = Inr (False, True, [], j2)"
      "k_out j2 = answer_wire k (j1\<lparr>k_out := []\<rparr>)" "answered k (j1\<lparr>k_out := []\<rparr>) j2" by blast
  have same: "session_of k (j1\<lparr>k_out := []\<rparr>) = session_of k j" "serial_7bit j1 = serial_7bit j"
    using j1(4) by (auto simp: session_of_def own_parms_def end_parms_def split: if_splits)
  from sender_agrees [OF k1(3) assms(7-9), of j] assms(3) obtain k2 where
    k2: "kermit_turn False (answer_wire k j) (k1\<lparr>k_out := []\<rparr>) = Inr (False, True, [], k2)" "k_state k2 = KM_SF"
      "session_parms k2 = session_of k j" "check_type k2 = 3" "QCTL (local_parms k2) = 0x23"
      "seven_bit_only k2 = serial_7bit k" "k_crc_16_tab k2 = k_makecrc" "text_mode k2 = text_mode k"
    by (auto simp: quiet_def)
  have "tuned k2 j2" if "serial_7bit k = serial_7bit j" "\<not> text_mode k"
    using that k2 j2(3) same
    by (simp add: answered_def tuned_def Let_def decode_quoting_def encode_call_of_def can_repeat_def good_quoting_def)
      (simp add: session_of_def common_parms_def end_parms_def valid_prefix_def)
  moreover have "k_out j2 = answer_wire k j" "k_state j2 = KM_RF" "session_parms j2 = session_of k j"
    using j2(2,3) same by (simp_all add: answer_wire_def answered_def)
  ultimately show ?thesis using k1 j1(1) j2(1) k2(1-3) by auto
qed

text \<open>
  A sender with one file, and a receiver that does not want to stream.
\<close>

definition one_file :: fsys where
  "one_file =
     \<lparr>disk = [[0x61] \<mapsto> [1, 2, 3]], mtimes = \<lambda>_. None, modes = \<lambda>_. None, writable = \<lambda>_. True,
      stat_refused = \<lambda>_. False, dev_bad = \<lambda>_. False, dev_room = None\<rparr>"

definition sample_upload :: "file_info list" where
  "sample_upload = [\<lparr>fi_name = Some [0x61], fi_size = 3, fi_mtime = 0, fi_mode = 0\<rparr>]"

lemma basename_a: "basename [0x61] = [0x61]"
  by (simp add: basename_def strip_slashes_def)

lemma sample_upload_starts:
  "\<exists>k. kermit_start (Some sample_upload) None True (kermit_initial id id (idle one_file)) = Inr (True, k)
     \<and> quiet k \<and> now (kworld k) < k_timeout_begin k + 5 \<and> k_file_name k = Some [0x61]
     \<and> \<not> kermit_robust_filename k"
  by (simp add: kermit_start_def k_setup_for_next_file_def sample_upload_def k_fclose_def fopen_rb_def one_file_def opened_def
     probe_text_def k_stats_new_file_def basename_a
     free_windows_def kermit_initial_def k_start_reset_def k_stats_def Let_def set_transfer_stats_last_message_def
     k_start_buffers_def k_reset_timer_def k_message_def quiet_def Q_BUFFER_SIZE_def zero_parameters_def)

lemma sample_download_starts:
  "\<exists>j. kermit_start None (Some []) False ((kermit_initial id id (idle one_file))\<lparr>kermit_streaming_option := False\<rparr>)
       = Inr (True, j)
     \<and> quiet j \<and> now (kworld j) < k_timeout_begin j + 5"
  by (simp add: kermit_start_def free_windows_def kermit_initial_def k_start_reset_def k_stats_def Let_def
     k_start_buffers_def k_reset_timer_def k_message_def quiet_def Q_BUFFER_SIZE_def zero_parameters_def)

lemma kermit_ends_agree_witness:
  "\<exists>k j k1 j1 j2 k2.
      kermit_start (Some sample_upload) None True (kermit_initial id id (idle one_file)) = Inr (True, k)
    \<and> kermit_start None (Some []) False ((kermit_initial id id (idle one_file))\<lparr>kermit_streaming_option := False\<rparr>)
       = Inr (True, j)
    \<and> kermit_process [] k = Inr k1 \<and> kermit_process [] j = Inr j1
    \<and> kermit_turn False (k_out k1) (j1\<lparr>k_out := []\<rparr>) = Inr (False, True, [], j2)
    \<and> kermit_turn False (k_out j2) (k1\<lparr>k_out := []\<rparr>) = Inr (False, True, [], k2)
    \<and> session_parms k2 = session_parms j2"
proof -
  from sample_upload_starts obtain k where
    k: "kermit_start (Some sample_upload) None True (kermit_initial id id (idle one_file)) = Inr (True, k)"
      "quiet k" "now (kworld k) < k_timeout_begin k + 5" "k_file_name k = Some [0x61]" "\<not> kermit_robust_filename k" by blast
  from sample_download_starts obtain j where
    j: "kermit_start None (Some []) False ((kermit_initial id id (idle one_file))\<lparr>kermit_streaming_option := False\<rparr>)
       = Inr (True, j)" "quiet j" "now (kworld j) < k_timeout_begin j + 5" by blast
  from kermit_ends_agree [OF k(1) j(1) k(2,3) j(2,3) k(4) _ k(5)] k(1) j(1) show ?thesis by auto
qed

end
