(* ===== verification/Kermit_Ring.thy ===== *)
theory Kermit_Ring
  imports Kermit_Link
begin

text \<open>
  The receiver's window as a queue of slots: the ring of \<open>kermit.c\<close> with its three indices stays
  well formed whatever arrives, adding and rolling off a slot are the operations of a queue, and
  packets that arrive in order end up in the file in order.
\<close>

section \<open>A bounded queue\<close>

text \<open>
  What a ring promises: \<open>push\<close> adds an element behind the others while there is room, \<open>pop\<close> removes
  the first one; the capacity stays.
\<close>

locale bounded_queue =
  fixes contents :: "'s \<Rightarrow> 'a list" and well :: "'s \<Rightarrow> bool" and room :: "'s \<Rightarrow> nat"
    and good :: "'a \<Rightarrow> bool" and push :: "'a \<Rightarrow> 's \<Rightarrow> fault + 's" and pop :: "'s \<Rightarrow> fault + 's"
  assumes push_adds: "well s \<Longrightarrow> good x \<Longrightarrow> 0 < room s \<Longrightarrow>
           \<exists>s'. push x s = Inr s' \<and> well s' \<and> contents s' = contents s @ [x] \<and> room s' + 1 = room s"
    and pop_removes: "well s \<Longrightarrow> contents s \<noteq> [] \<Longrightarrow>
           \<exists>s'. pop s = Inr s' \<and> well s' \<and> contents s' = tl (contents s) \<and> room s' = room s + 1"
begin

lemma pushE:
  assumes "push x s = Inr s'" "well s" "good x" "0 < room s"
  shows "well s'" "contents s' = contents s @ [x]" "room s' + 1 = room s"
  using push_adds [OF assms(2-4)] assms(1) by auto

lemma popE:
  assumes "pop s = Inr s'" "well s" "contents s \<noteq> []"
  shows "well s'" "contents s' = tl (contents s)" "room s' = room s + 1"
  using pop_removes [OF assms(2,3)] assms(1) by auto

text \<open>A full queue that lets go of its first element can take another one.\<close>

lemma pop_push:
  assumes "well s" "contents s \<noteq> []" "good x"
  shows "\<exists>s'. bind_res (pop s) (push x) = Inr s' \<and> well s' \<and> contents s' = tl (contents s) @ [x] \<and> room s' = room s"
proof -
  from pop_removes [OF assms(1,2)] obtain s1 where
    1: "pop s = Inr s1" "well s1" "contents s1 = tl (contents s)" "room s1 = room s + 1" by blast
  from push_adds [OF 1(2) assms(3)] 1(4) obtain s2 where
    "push x s1 = Inr s2" "well s2" "contents s2 = contents s1 @ [x]" "room s2 + 1 = room s1" by auto
  with 1 show ?thesis by simp
qed

end

section \<open>The ring of the receiver\<close>

definition slot_index :: "kermit \<Rightarrow> nat \<Rightarrow> nat" where
  "slot_index k j = (input_window_begin k + j) mod size_in k"

definition window_slots :: "kermit \<Rightarrow> kermit_slot list" where
  "window_slots k = map (\<lambda>j. input_window k ! slot_index k j) [0..<input_window_n k]"

text \<open>
  The indices are inside the ring and belong together; a slot that is not in use holds no data, and
  one that was acknowledged does.
\<close>

definition slot_good :: "kermit_slot \<Rightarrow> bool" where
  "slot_good s \<longleftrightarrow> (acked s \<longrightarrow> sl_data s \<noteq> None)"

definition window_ok :: "kermit \<Rightarrow> bool" where
  "window_ok k \<longleftrightarrow>
     0 < size_in k \<and> length (input_window k) = size_in k \<and> input_window_begin k < size_in k
     \<and> input_window_n k \<le> size_in k
     \<and> input_window_i k = slot_index k (input_window_n k)
     \<and> (\<forall>j < size_in k. input_window_n k \<le> j \<longrightarrow> sl_data (input_window k ! slot_index k j) = None)
     \<and> (\<forall>s\<in>set (window_slots k). slot_good s)"

definition free_slots :: "kermit \<Rightarrow> nat" where
  "free_slots k = size_in k - input_window_n k"

lemma slot_index_less [simp]: "0 < size_in k \<Longrightarrow> slot_index k j < size_in k"
  by (simp add: slot_index_def)

lemma slot_index_eq:
  "input_window_begin k < size_in k \<Longrightarrow> j \<le> size_in k \<Longrightarrow>
    slot_index k j = (if input_window_begin k + j < size_in k then input_window_begin k + j
                      else input_window_begin k + j - size_in k)"
  by (simp add: slot_index_def mod_if)

lemma slot_index_inj:
  assumes "slot_index k i = slot_index k j" "i < size_in k" "j < size_in k" "input_window_begin k < size_in k"
  shows "i = j"
  using assms by (auto simp: slot_index_eq split: if_splits)

lemma window_okD:
  assumes "window_ok k"
  shows "0 < size_in k" "length (input_window k) = size_in k" "input_window_begin k < size_in k"
    "input_window_n k \<le> size_in k" "input_window_i k = slot_index k (input_window_n k)"
    "input_window_i k < size_in k"
    "j < size_in k \<Longrightarrow> input_window_n k \<le> j \<Longrightarrow> sl_data (input_window k ! slot_index k j) = None"
    "s \<in> set (window_slots k) \<Longrightarrow> slot_good s"
  using assms by (auto simp: window_ok_def)

lemma length_window_slots [simp]: "length (window_slots k) = input_window_n k"
  by (simp add: window_slots_def)

lemma nth_window_slots: "j < input_window_n k \<Longrightarrow> window_slots k ! j = input_window k ! slot_index k j"
  by (simp add: window_slots_def)

text \<open>The window only depends on its slots, its indices and its size.\<close>

definition same_window :: "kermit \<Rightarrow> kermit \<Rightarrow> bool" where
  "same_window k k' \<longleftrightarrow>
     input_window k' = input_window k \<and> input_window_begin k' = input_window_begin k
     \<and> input_window_i k' = input_window_i k \<and> input_window_n k' = input_window_n k
     \<and> session_parms k' = session_parms k"

lemma same_windowD:
  assumes "same_window k k'"
  shows "window_ok k' = window_ok k" "window_slots k' = window_slots k" "free_slots k' = free_slots k"
    "size_in k' = size_in k" "input_window_n k' = input_window_n k"
proof -
  have "slot_index k' = slot_index k" using assms by (auto simp: same_window_def slot_index_def size_in_def)
  with assms show "window_slots k' = window_slots k" by (simp add: same_window_def window_slots_def)
  with assms \<open>slot_index k' = slot_index k\<close> show "window_ok k' = window_ok k"
    by (simp add: same_window_def window_ok_def size_in_def)
qed (use assms in \<open>simp_all add: same_window_def free_slots_def size_in_def\<close>)

lemma append_slot_adds:
  assumes ok: "window_ok k" and s: "slot_good s" and room: "0 < free_slots k"
  shows "\<exists>k'. append_slot s k = Inr k' \<and> window_ok k' \<and> window_slots k' = window_slots k @ [s]
    \<and> free_slots k' + 1 = free_slots k"
proof -
  let ?i = "input_window_i k" and ?n = "input_window_n k"
  note d = window_okD [OF ok]
  have n: "?n < size_in k" using room by (simp add: free_slots_def)
  define k' where "k' = k\<lparr>input_window := (input_window k)[?i := s], input_window_i := (?i + 1) mod size_in k,
    input_window_n := ?n + 1\<rparr>"
  have sz: "size_in k' = size_in k" "slot_index k' = slot_index k" "input_window_n k' = ?n + 1"
    by (auto simp: k'_def size_in_def slot_index_def)
  have old: "input_window k' ! slot_index k j = (if j = ?n then s else input_window k ! slot_index k j)"
    if "j < size_in k" for j
    using slot_index_inj [of k j ?n] that n d by (auto simp: k'_def nth_list_update)
  have "sl_data (input_window k ! ?i) = None" using d(7) [OF n order_refl] d(5) by simp
  then have "append_slot s k = Inr k'"
    using d(2,6) by (simp add: append_slot_def slot_at_def set_slot_def k'_def size_in_def)
  moreover have slots: "window_slots k' = window_slots k @ [s]"
  proof (rule nth_equalityI)
    show "length (window_slots k') = length (window_slots k @ [s])" by (simp add: k'_def)
    fix j assume "j < length (window_slots k')"
    then have "j < ?n + 1" by (simp add: k'_def)
    then show "window_slots k' ! j = (window_slots k @ [s]) ! j"
      using n old [of j] by (auto simp: nth_append nth_window_slots sz less_Suc_eq)
  qed
  moreover have "window_ok k'"
    unfolding window_ok_def
  proof (intro conjI allI impI ballI)
    fix t assume "t \<in> set (window_slots k')"
    with slots s d(8) show "slot_good t" by auto
  next
    fix j assume "j < size_in k'" "input_window_n k' \<le> j"
    then have "j < size_in k" "?n < j" by (simp_all add: sz)
    then show "sl_data (input_window k' ! slot_index k' j) = None" using old [of j] d(7) [of j] by (simp add: sz)
  next
    show "input_window_i k' = slot_index k' (input_window_n k')"
      using d(5) n by (simp add: sz) (simp add: k'_def slot_index_def mod_simps)
  qed (use d n in \<open>simp_all add: k'_def size_in_def\<close>)
  moreover have "free_slots k' + 1 = free_slots k" using n by (simp add: free_slots_def sz)
  ultimately show ?thesis by blast
qed

lemma roll_off_removes:
  assumes ok: "window_ok k" and ne: "window_slots k \<noteq> []"
  shows "\<exists>k'. roll_off_input k = Inr k' \<and> window_ok k' \<and> window_slots k' = tl (window_slots k)
    \<and> free_slots k' = free_slots k + 1"
proof -
  let ?b = "input_window_begin k" and ?n = "input_window_n k"
  note d = window_okD [OF ok]
  have n: "0 < ?n" using ne by (simp add: window_slots_def)
  define s where "s = (input_window k ! ?b)\<lparr>sl_data := None\<rparr>"
  define k' where "k' = k\<lparr>input_window := (input_window k)[?b := s], input_window_begin := (?b + 1) mod size_in k,
    input_window_n := ?n - 1\<rparr>"
  have sz: "size_in k' = size_in k" "input_window_n k' = ?n - 1" by (simp_all add: k'_def size_in_def)
  have ix: "slot_index k' j = slot_index k (Suc j)" for j
    by (simp add: slot_index_def sz) (simp add: k'_def mod_simps)
  have b: "?b = slot_index k 0" using d(3) by (simp add: slot_index_def)
  have old: "input_window k' ! slot_index k j = (if j = 0 then s else input_window k ! slot_index k j)"
    if "j < size_in k" for j
    using slot_index_inj [of k j 0] that d b by (auto simp: k'_def nth_list_update)
  have roll: "roll_off_input k = Inr k'"
    using d(2,3) by (simp add: roll_off_input_def slot_at_def set_slot_def k'_def s_def)
  have slots: "window_slots k' = tl (window_slots k)"
  proof (rule nth_equalityI)
    show "length (window_slots k') = length (tl (window_slots k))" by (simp add: k'_def)
    fix j assume "j < length (window_slots k')"
    then have "Suc j < ?n" by (simp add: k'_def)
    then show "window_slots k' ! j = tl (window_slots k) ! j"
      using d(4) old [of "Suc j"] by (simp add: nth_tl nth_window_slots ix sz)
  qed
  moreover have "window_ok k'"
    unfolding window_ok_def
  proof (intro conjI allI impI ballI)
    fix t assume "t \<in> set (window_slots k')"
    with slots d(8) show "slot_good t" by (metis list.set_sel(2) tl_Nil)
  next
    fix j assume "j < size_in k'" "input_window_n k' \<le> j"
    then have j: "j < size_in k" "?n \<le> Suc j" using n by (simp_all add: sz)
    show "sl_data (input_window k' ! slot_index k' j) = None"
    proof (cases "Suc j = size_in k")
      case True
      then have "slot_index k (Suc j) = slot_index k 0" by (simp add: slot_index_def)
      then show ?thesis using old [of 0] d(1) by (simp add: ix s_def)
    next
      case False
      then show ?thesis using old [of "Suc j"] d(7) [of "Suc j"] j by (simp add: ix)
    qed
  next
    show "input_window_i k' = slot_index k' (input_window_n k')"
      using d(5) n by (simp add: ix) (simp add: k'_def)
  qed (use d n in \<open>simp_all add: k'_def size_in_def\<close>)
  moreover have "free_slots k' = free_slots k + 1"
    using n d(4) by (simp add: free_slots_def sz)
  ultimately show ?thesis using roll by blast
qed

interpretation window: bounded_queue window_slots window_ok free_slots slot_good append_slot roll_off_input
  by unfold_locales (blast intro: append_slot_adds roll_off_removes)+

section \<open>Every step keeps the window\<close>

declare make_gaps.simps [simp del] window_save_all.simps [simp del]

definition gives :: "fault + 'a \<Rightarrow> ('a \<Rightarrow> bool) \<Rightarrow> bool" where
  "gives m P \<longleftrightarrow> (\<exists>x. m = Inr x \<and> P x)"

lemma gives_Inr [simp]: "gives (Inr x) P = P x" "\<not> gives (Inl e) P"
  by (simp_all add: gives_def)

lemma gives_bind: "gives m P \<Longrightarrow> (\<And>x. P x \<Longrightarrow> gives (f x) Q) \<Longrightarrow> gives (bind_res m f) Q"
  by (auto simp: gives_def)

lemma gives_mono: "gives m P \<Longrightarrow> (\<And>x. P x \<Longrightarrow> Q x) \<Longrightarrow> gives m Q"
  by (auto simp: gives_def)

text \<open>A receiver with an open file, and what none of the steps on the window touches.\<close>

definition receiving :: "kermit \<Rightarrow> bool" where
  "receiving k \<longleftrightarrow> window_ok k \<and> \<not> k_sending k \<and> k_file_stream k \<noteq> None \<and> 0 < uint (MAXL (session_parms k))"

definition rest_same :: "kermit \<Rightarrow> kermit \<Rightarrow> bool" where
  "rest_same k k' \<longleftrightarrow>
     k_sending k' = k_sending k \<and> session_parms k' = session_parms k \<and> input_packet k' = input_packet k
     \<and> (k_file_stream k' = None) = (k_file_stream k = None)"

lemma rest_same_trans: "rest_same k k1 \<Longrightarrow> rest_same k1 k2 \<Longrightarrow> rest_same k k2"
  by (simp add: rest_same_def)

lemma rest_same_refl [simp]: "rest_same k k"
  by (simp add: rest_same_def)

lemma rest_same_size: "rest_same k k' \<Longrightarrow> size_in k' = size_in k"
  by (simp add: rest_same_def size_in_def)

lemma receiving_same: "receiving k \<Longrightarrow> rest_same k k' \<Longrightarrow> window_ok k' \<Longrightarrow> receiving k'"
  by (simp add: receiving_def rest_same_def)

lemma slot_at_ok: "receiving k \<Longrightarrow> i < size_in k \<Longrightarrow> slot_at (input_window k) i = Inr (input_window k ! i)"
  using window_okD(2) by (auto simp: receiving_def slot_at_def)

lemma append_rest: "append_slot s k = Inr k' \<Longrightarrow> rest_same k k' \<and> k_file_stream k' = k_file_stream k"
  by (auto simp: append_slot_def bind_res_Inr rest_same_def split: if_splits)

lemma roll_rest: "roll_off_input k = Inr k' \<Longrightarrow> rest_same k k' \<and> k_file_stream k' = k_file_stream k"
  by (auto simp: roll_off_input_def bind_res_Inr rest_same_def)

lemma append_gives:
  assumes "receiving k" "slot_good s" "input_window_n k < size_in k"
  shows "gives (append_slot s k) (\<lambda>k'. receiving k' \<and> rest_same k k' \<and> k_file_stream k' = k_file_stream k
    \<and> window_slots k' = window_slots k @ [s])"
proof -
  have "0 < free_slots k" using assms(3) by (simp add: free_slots_def)
  from append_slot_adds [OF _ assms(2) this] assms(1) obtain k' where
    "append_slot s k = Inr k'" "window_ok k'" "window_slots k' = window_slots k @ [s]"
    by (auto simp: receiving_def)
  then show ?thesis using append_rest [of s k k'] receiving_same [OF assms(1)] by (auto simp: gives_def)
qed

lemma roll_gives:
  assumes "receiving k" "0 < input_window_n k"
  shows "gives (roll_off_input k) (\<lambda>k'. receiving k' \<and> rest_same k k' \<and> k_file_stream k' = k_file_stream k
    \<and> window_slots k' = tl (window_slots k))"
proof -
  have "window_slots k \<noteq> []" using assms(2) by (simp add: window_slots_def)
  from roll_off_removes [OF _ this] assms(1) obtain k' where
    "roll_off_input k = Inr k'" "window_ok k'" "window_slots k' = tl (window_slots k)"
    by (auto simp: receiving_def)
  then show ?thesis using roll_rest [of k k'] receiving_same [OF assms(1)] by (auto simp: gives_def)
qed

lemma first_slot:
  assumes "window_ok k" "0 < input_window_n k"
  shows "input_window k ! input_window_begin k = hd (window_slots k)" "window_slots k \<noteq> []"
proof -
  have "slot_index k 0 = input_window_begin k" using window_okD(3) [OF assms(1)] by (simp add: slot_index_def)
  then show "input_window k ! input_window_begin k = hd (window_slots k)"
    using assms(2) by (simp add: window_slots_def hd_map upt_conv_Cons)
  show "window_slots k \<noteq> []" using assms(2) by (simp add: window_slots_def)
qed

text \<open>Writing the first packet of the window to the file.\<close>

definition written :: "byte list \<Rightarrow> kermit \<Rightarrow> kermit \<Rightarrow> bool" where
  "written d k k' \<longleftrightarrow>
     same_window k k' \<and> rest_same k k' \<and> sequence_number k' = sequence_number k
     \<and> (\<exists>f. k_file_stream k = Some f \<and> k_file_stream k' = Some (snd (fwrite d f)))"

lemma save_first_gives:
  assumes "receiving k" "0 < input_window_n k" "acked (hd (window_slots k))"
  shows "gives (save_first_packet k) (\<lambda>k'. receiving k' \<and> written (the (sl_data (hd (window_slots k)))) k k')"
proof -
  let ?s = "hd (window_slots k)"
  have ok: "window_ok k" using assms(1) by (simp add: receiving_def)
  note f = first_slot [OF ok assms(2)]
  obtain d where d: "sl_data ?s = Some d"
    using window_okD(8) [OF ok, of ?s] f(2) assms(3) by (auto simp: slot_good_def)
  obtain fl where fl: "k_file_stream k = Some fl" using assms(1) by (auto simp: receiving_def)
  have "slot_at (input_window k) (input_window_begin k) = Inr ?s"
    using slot_at_ok [OF assms(1)] window_okD(3) [OF ok] f(1) by simp
  then obtain k' where k': "save_first_packet k = Inr k'" "written d k k'"
    using assms(1) d fl by (auto simp: save_first_packet_def k_stats_increment_blocks_def k_stats_def receiving_def
      written_def same_window_def rest_same_def Let_def)
  moreover have "window_ok k'" using k'(2) ok same_windowD(1) by (auto simp: written_def)
  moreover have "rest_same k k'" using k'(2) by (simp add: written_def)
  ultimately show ?thesis using receiving_same [OF assms(1)] d by (simp add: gives_def)
qed

definition step_ok :: "kermit \<Rightarrow> kermit \<Rightarrow> bool" where
  "step_ok k k' \<longleftrightarrow> receiving k' \<and> rest_same k k'"

lemma step_ok_trans: "step_ok k k1 \<Longrightarrow> step_ok k1 k2 \<Longrightarrow> step_ok k k2"
  by (auto simp: step_ok_def intro: rest_same_trans)

lemma step_ok_same: "receiving k \<Longrightarrow> same_window k k' \<Longrightarrow> rest_same k k' \<Longrightarrow> step_ok k k'"
  using same_windowD(1) [of k k'] by (simp add: step_ok_def receiving_def rest_same_def)

lemma step_ok_output: "receiving k \<Longrightarrow> step_ok k (k\<lparr>output_packet := p\<rparr>)"
  by (rule step_ok_same) (simp_all add: same_window_def rest_same_def)

lemma save_data_gives:
  assumes "receiving k" "0 < input_window_n k" "acked (hd (window_slots k))"
  shows "gives (save_data_packet k) (\<lambda>k'. step_ok k k' \<and> same_window k k')"
proof -
  have ok: "window_ok k" using assms(1) by (simp add: receiving_def)
  have "slot_at (input_window k) (input_window_begin k) = Inr (hd (window_slots k))"
    using slot_at_ok [OF assms(1)] window_okD(3) [OF ok] first_slot(1) [OF ok assms(2)] by simp
  then show ?thesis
    using gives_mono [OF save_first_gives [OF assms]] assms(1)
    by (auto simp: save_data_packet_def step_ok_def written_def same_window_def)
qed

lemma window_save_all_gives:
  "receiving k \<Longrightarrow> gives (window_save_all k) (\<lambda>(b, k'). step_ok k k')"
proof (induction k rule: window_save_all.induct)
  case (1 k)
  have ok: "window_ok k" using "1.prems" by (simp add: receiving_def)
  show ?case
  proof (cases "input_window_n k = 0")
    case True
    with "1.prems" show ?thesis by (subst window_save_all.simps) (simp add: step_ok_def)
  next
    case n: False
    let ?s = "hd (window_slots k)"
    have s: "slot_at (input_window k) (input_window_begin k) = Inr ?s"
      using slot_at_ok [OF "1.prems"] window_okD(3) [OF ok] first_slot(1) [OF ok] n by simp
    show ?thesis
    proof (cases "acked ?s")
      case False
      with n s "1.prems" show ?thesis by (subst window_save_all.simps) (simp add: step_ok_def)
    next
      case True
      from save_data_gives [OF "1.prems" _ True] n obtain k1 where
        k1: "save_data_packet k = Inr k1" "step_ok k k1" "same_window k k1" by (auto simp: gives_def)
      moreover have "0 < input_window_n k1" using k1(3) n by (simp add: same_window_def)
      ultimately obtain k2 where k2: "roll_off_input k1 = Inr k2" "step_ok k1 k2"
        using roll_gives [of k1] by (auto simp: gives_def step_ok_def)
      have "gives (window_save_all k2) (\<lambda>(b, k'). step_ok k2 k')"
        using "1.IH" [OF n s _ k1(1) k2(1)] True k2(2) by (simp add: step_ok_def)
      then have "gives (window_save_all k2) (\<lambda>(b, k'). step_ok k k')"
        by (rule gives_mono) (use k1(2) k2(2) step_ok_trans in blast)
      then show ?thesis using n s True k1(1) k2(1) by (subst window_save_all.simps) simp
    qed
  qed
qed

lemma last_input_slot_gives:
  assumes "receiving k" "0 < wrap" "wrap \<le> size_in k"
  shows "gives (last_input_slot wrap k) (\<lambda>s. True)"
proof -
  have "input_window_i k < size_in k" using assms(1) window_okD(6) by (simp add: receiving_def)
  then show ?thesis using slot_at_ok [OF assms(1)] assms(2,3) by (simp add: last_input_slot_def)
qed

lemma input_ring_slots:
  assumes "window_ok k" "0 < input_window_n k"
  shows "input_ring k = map (slot_index k) [0..<input_window_n k]"
proof -
  note d = window_okD [OF assms(1)]
  let ?s = "size_in k" and ?b = "input_window_begin k" and ?n = "input_window_n k"
  have "(input_window_i k + ?s - ?b) mod ?s = ?n mod ?s"
  proof (cases "?b + ?n < ?s")
    case True
    then have "input_window_i k + ?s - ?b = ?n + ?s" using d(3,5) by (simp add: slot_index_eq)
    then show ?thesis by simp
  next
    case False
    then have "input_window_i k + ?s - ?b = ?n" using d(3,4,5) by (simp add: slot_index_eq)
    then show ?thesis by simp
  qed
  then have "(if (input_window_i k + ?s - ?b) mod ?s = 0 then ?s else (input_window_i k + ?s - ?b) mod ?s) = ?n"
    using d(4) assms(2) by (auto simp: le_less)
  then show ?thesis using d(1) by (simp add: input_ring_def ring_def Let_def slot_index_def [abs_def])
qed

lemma put_packet_gives:
  assumes "receiving k"
  shows "gives (put_packet t seq [] k) (\<lambda>k'. step_ok k k' \<and> same_window k k' \<and> sequence_number k' = sequence_number k
    \<and> k_file_stream k' = k_file_stream k)"
  using step_ok_output [OF assms] by (simp add: put_packet_def same_window_def)

lemma errors_same: "same_window k (k_stats_increment_errors m k)" "rest_same k (k_stats_increment_errors m k)"
  "sequence_number (k_stats_increment_errors m k) = sequence_number k"
  by (simp_all add: k_stats_increment_errors_def k_stats_def same_window_def rest_same_def)

lemma step_ok_errors: "receiving k \<Longrightarrow> step_ok k (k_stats_increment_errors m k)"
  by (rule step_ok_same [OF _ errors_same(1,2)])

lemma nak_seq_gives:
  assumes "receiving k"
  shows "gives (nak_seq k) (\<lambda>_. True)"
proof -
  have "0 < input_window_n k \<Longrightarrow> gives (last_input_slot (input_window_n k) k) (\<lambda>s. True)"
    using last_input_slot_gives [OF assms] assms window_okD(4) by (simp add: receiving_def)
  then show ?thesis
    by (auto simp: nak_seq_def gives_def split: option.splits)
qed

lemma nak_window_gives:
  assumes "receiving k"
  shows "gives (nak_window k) (step_ok k)"
proof -
  have ok: "window_ok k" using assms by (simp add: receiving_def)
  note d = window_okD [OF ok]
  have sz: "size_in k \<noteq> 0" using d(1) by simp
  have b: "slot_at (input_window k) (input_window_begin k) = Inr (input_window k ! input_window_begin k)"
    using slot_at_ok [OF assms] d(3) by simp
  have "gives (window_next_packet_seq seq k) (\<lambda>_. True)" for seq
    using last_input_slot_gives [OF assms d(1)] by (auto simp: window_next_packet_seq_def gives_def)
  then obtain nx where nx: "window_next_packet_seq (kp_seq (input_packet k)) k = Inr nx" by (auto simp: gives_def)
  let ?new = "\<lambda>k. \<lparr>sl_seq = kp_seq (input_packet k), try_count = 1, acked = False, sl_type = kp_type (input_packet k), sl_data = None\<rparr>"
  show ?thesis
  proof (cases "nx \<and> acked (input_window k ! input_window_begin k) \<and> input_window_n k = size_in k")
    case True
    then have n: "0 < input_window_n k" "acked (hd (window_slots k))" using d(1) first_slot(1) [OF ok] by simp_all
    from save_data_gives [OF assms n] obtain k1 where
      k1: "save_data_packet k = Inr k1" "step_ok k k1" "same_window k k1" by (auto simp: gives_def)
    have "0 < input_window_n k1" using k1(3) n by (simp add: same_window_def)
    then obtain k2 where k2: "roll_off_input k1 = Inr k2" "step_ok k1 k2" "window_slots k2 = tl (window_slots k1)"
      using roll_gives [of k1] k1(2) by (auto simp: gives_def step_ok_def)
    have "length (window_slots k2) < size_in k2"
      using k2 k1 True d(1) rest_same_size [of k k1] rest_same_size [of k1 k2] by (simp add: step_ok_def same_window_def)
    then have "gives (append_slot (?new k2) k2) (step_ok k2)"
      using append_gives [of k2 "?new k2"] k2(2) by (auto simp: gives_def step_ok_def slot_good_def)
    then have "gives (append_slot (?new k2) k2) (step_ok k)"
      by (rule gives_mono) (use k1(2) k2(2) step_ok_trans in blast)
    then show ?thesis using True nx b k1(1) k2(1) sz by (simp add: nak_window_def)
  next
    case False
    note step_ok_output [OF assms]
    moreover have "step_ok k k" using assms by (simp add: step_ok_def)
    ultimately show ?thesis using False nx b sz by (auto simp: nak_window_def)
  qed
qed

lemma nak_packet_gives:
  assumes "receiving k"
  shows "gives (nak_packet k) (step_ok k)"
proof -
  have "\<not> k_sending k" using assms by (simp add: receiving_def)
  moreover from nak_seq_gives [OF assms] obtain seq where "nak_seq k = Inr seq" by (auto simp: gives_def)
  moreover from put_packet_gives [OF assms] obtain k1 where "put_packet P_KNAK seq [] k = Inr k1" "step_ok k k1"
    by (fastforce simp: gives_def)
  moreover define k2 where "k2 = k_stats_increment_errors (MsgN ''NAK - SEQ %u'' (word_of_int seq)) k1"
  moreover have "step_ok k k2"
    using step_ok_errors step_ok_trans \<open>step_ok k k1\<close> unfolding k2_def step_ok_def by blast
  moreover have "gives (nak_window k2) (step_ok k)"
    using gives_mono [OF nak_window_gives [of k2]] \<open>step_ok k k2\<close> step_ok_trans by (auto simp: step_ok_def)
  ultimately show ?thesis by (simp add: nak_packet_def Let_def)
qed

lemma receiving_input: "receiving k \<Longrightarrow> receiving (k\<lparr>input_packet := p\<rparr>)"
  using same_windowD(1) [of k "k\<lparr>input_packet := p\<rparr>"] by (simp add: receiving_def same_window_def)

lemma make_gaps_gives: "receiving k \<Longrightarrow> gives (make_gaps e seq k) (step_ok k)"
proof (induction e seq k rule: make_gaps.induct)
  case (1 e seq k)
  show ?case
  proof (cases "e \<noteq> seq \<and> input_window_n k < size_in k")
    case False
    with "1.prems" show ?thesis by (subst make_gaps.simps) (auto simp: step_ok_def)
  next
    case True
    have "input_window_i k < size_in k" using "1.prems" window_okD(6) by (simp add: receiving_def)
    then have s: "slot_at (input_window k) (input_window_i k) = Inr (input_window k ! input_window_i k)"
      by (rule slot_at_ok [OF "1.prems"])
    let ?new = "(input_window k ! input_window_i k)\<lparr>sl_seq := e, acked := False, sl_data := None\<rparr>"
    obtain k1 where k1: "append_slot ?new k = Inr k1" "step_ok k k1"
      using append_gives [OF "1.prems", of ?new] True by (auto simp: gives_def step_ok_def slot_good_def)
    have "gives (make_gaps ((e + 1) mod 64) seq k1) (step_ok k1)"
      by (rule "1.IH" [OF True s k1(1)]) (use k1(2) in \<open>simp add: step_ok_def\<close>)
    then have "gives (make_gaps ((e + 1) mod 64) seq k1) (step_ok k)"
      by (rule gives_mono) (use k1(2) step_ok_trans in blast)
    then show ?thesis using True s k1(1) by (subst make_gaps.simps) simp
  qed
qed

lemma lost_packet_gives:
  assumes "receiving k"
  shows "gives (lost_packet e k) (\<lambda>k'. receiving k' \<and> kp_data (input_packet k') = kp_data (input_packet k))"
proof -
  let ?p = "(input_packet k)\<lparr>kp_seq := (e + 1) mod 64\<rparr>"
  from nak_packet_gives [OF receiving_input [OF assms]] obtain k1 where
    k1: "nak_packet (k\<lparr>input_packet := ?p\<rparr>) = Inr k1" "step_ok (k\<lparr>input_packet := ?p\<rparr>) k1"
    by (auto simp: gives_def)
  let ?k1 = "k1\<lparr>input_packet := (input_packet k1)\<lparr>kp_seq := kp_seq (input_packet k)\<rparr>\<rparr>"
  have "receiving ?k1" using receiving_input k1(2) by (simp add: step_ok_def)
  from window_save_all_gives [OF this] obtain b k2 where
    k2: "window_save_all ?k1 = Inr (b, k2)" "step_ok ?k1 k2" by (auto simp: gives_def)
  have r2: "receiving k2" using k2(2) by (simp add: step_ok_def)
  then have "0 < size_in k2" using window_okD(1) by (simp add: receiving_def)
  from last_input_slot_gives [OF r2 this order_refl] obtain s where s: "last_input_slot (size_in k2) k2 = Inr s"
    by (auto simp: gives_def)
  from make_gaps_gives [OF r2] obtain k3 where
    k3: "make_gaps ((sl_seq s + 1) mod 64) (kp_seq (input_packet k)) k2 = Inr k3" "step_ok k2 k3"
    by (fastforce simp: gives_def)
  have r3: "receiving k3" using k3(2) by (simp add: step_ok_def)
  have data: "kp_data (input_packet k3) = kp_data (input_packet k)"
    using k1(2) k2(2) k3(2) by (simp add: step_ok_def rest_same_def)
  have i: "slot_at (input_window k3) (input_window_i k3) = Inr (input_window k3 ! input_window_i k3)"
    using slot_at_ok [OF r3] r3 window_okD(6) by (simp add: receiving_def)
  show ?thesis
  proof (cases "input_window_n k3 < size_in k3")
    case True
    let ?new = "(input_window k3 ! input_window_i k3)\<lparr>sl_seq := kp_seq (input_packet k),
      sl_type := kp_type (input_packet k3), acked := True, sl_data := Some (kp_data (input_packet k3))\<rparr>"
    have "gives (append_slot ?new k3) (\<lambda>k'. receiving k' \<and> kp_data (input_packet k') = kp_data (input_packet k))"
      using append_gives [OF r3 _ True, of ?new] data by (auto simp: gives_def slot_good_def rest_same_def)
    then show ?thesis
      using True k1(1) k2(1) k3(1) s i by (simp add: lost_packet_def Let_def)
  next
    case False
    then show ?thesis using r3 data k1(1) k2(1) k3(1) s by (simp add: lost_packet_def Let_def)
  qed
qed

lemma next_packet_gives:
  assumes "receiving k" "0 < input_window_n k"
  shows "gives (next_packet k) (\<lambda>(r, k'). step_ok k k' \<and> r = Some (input_window_i k'))"
proof -
  let ?s = "hd (window_slots k)"
  have ok: "window_ok k" using assms(1) by (simp add: receiving_def)
  have b: "slot_at (input_window k) (input_window_begin k) = Inr ?s"
    using slot_at_ok [OF assms(1)] window_okD(3) [OF ok] first_slot(1) [OF ok assms(2)] by simp
  obtain k1 where k1: "(if sl_type ?s = P_KDATA \<and> acked ?s then save_first_packet k else Inr k) = Inr k1"
    "step_ok k k1" "same_window k k1"
  proof (cases "sl_type ?s = P_KDATA \<and> acked ?s")
    case True
    then show thesis using that save_first_gives [OF assms] by (auto simp: gives_def written_def step_ok_def)
  next
    case False
    then show thesis using that [of k] assms(1) by (auto simp: step_ok_def same_window_def)
  qed
  have n1: "0 < input_window_n k1" using k1(3) assms(2) by (simp add: same_window_def)
  obtain k2 where "(if acked ?s \<and> input_window_n k1 = size_in k1 then roll_off_input k1 else Inr k1) = Inr k2" "step_ok k1 k2"
    using roll_gives [OF _ n1] k1(2)
    by (cases "acked ?s \<and> input_window_n k1 = size_in k1") (auto simp: gives_def step_ok_def)
  then show ?thesis using b k1 step_ok_trans [of k k1 k2] by (simp add: next_packet_def)
qed

lemma find_input_slot_gives:
  assumes "receiving k" "parsed_ok (input_packet k)"
  shows "gives (find_input_slot k) (\<lambda>(r, k'). receiving k' \<and> kp_data (input_packet k') = kp_data (input_packet k)
    \<and> (\<forall>i. r = Some i \<longrightarrow> i = input_window_i k' \<or> (\<exists>j<input_window_n k'. i = slot_index k' j)))"
proof -
  have ok: "window_ok k" using assms(1) by (simp add: receiving_def)
  show ?thesis
  proof (cases "input_window_n k = 0")
    case True
    then show ?thesis using assms by (simp add: find_input_slot_def)
  next
    case n: False
    from last_input_slot_gives [OF assms(1) window_okD(1) [OF ok] order_refl] obtain s where
      s: "last_input_slot (size_in k) k = Inr s" by (auto simp: gives_def)
    let ?Q = "\<lambda>(r, k'). receiving k' \<and> kp_data (input_packet k') = kp_data (input_packet k)
      \<and> (\<forall>i. r = Some i \<longrightarrow> i = input_window_i k' \<or> (\<exists>j<input_window_n k'. i = slot_index k' j))"
    have nxt: "gives (next_packet k) ?Q"
      by (rule gives_mono [OF next_packet_gives [OF assms(1)]]) (use n in \<open>auto simp: step_ok_def rest_same_def\<close>)
    have lost: "gives (bind_res (lost_packet e k) (\<lambda>k1. Inr (None, k1))) ?Q" for e
      by (rule gives_bind [OF lost_packet_gives [OF assms(1), of e]]) simp
    have "\<exists>j<input_window_n k. i = slot_index k j"
      if "find P (input_ring k) = Some i" for P i
      using that n by (auto simp: input_ring_slots [OF ok] find_Some_iff)
    then have ring: "gives (Inr (find P (input_ring k), k)) ?Q" for P
      using assms(1) by auto
    show ?thesis
      using nxt lost ring n s assms(2) by (simp add: find_input_slot_def Let_def)
  qed
qed

lemma slot_update_ok:
  assumes "window_ok k" "j < input_window_n k" "slot_good s"
  shows "window_ok (k\<lparr>input_window := (input_window k)[slot_index k j := s]\<rparr>)"
proof -
  let ?k = "k\<lparr>input_window := (input_window k)[slot_index k j := s]\<rparr>"
  note d = window_okD [OF assms(1)]
  have ix: "slot_index ?k = slot_index k" "size_in ?k = size_in k" by (auto simp: slot_index_def size_in_def)
  have old: "input_window ?k ! slot_index k i = (if i = j then s else input_window k ! slot_index k i)"
    if "i < size_in k" for i
    using slot_index_inj [of k i j] that d assms(2) by (auto simp: nth_list_update)
  have "slot_good t" if t: "t \<in> set (window_slots ?k)" for t
  proof -
    obtain i where i: "i < input_window_n k" "t = input_window ?k ! slot_index k i"
      using t by (auto simp: window_slots_def ix)
    then have "i = j \<or> t \<in> set (window_slots k)" using old [of i] d(4) by (auto simp: window_slots_def)
    then show ?thesis using i old [of i] d(4,8) assms(3) by auto
  qed
  moreover have "sl_data (input_window ?k ! slot_index k i) = None" if "i < size_in k" "input_window_n k \<le> i" for i
    using old [OF that(1)] d(7) [OF that] assms(2) that(2) by auto
  ultimately show ?thesis using d(1-5) by (simp add: window_ok_def ix)
qed

text \<open>
  C10. The receiver's window is kept in order by whatever arrives: a packet that is next, one that
  shows that others were lost, a repeated one, one from outside the window. With a file open, a
  window whose indices lie inside its ring and belong together, whose free slots hold no data and
  whose acknowledged slots do, \<open>save_input_packet\<close> returns (no assertion fails, nothing is read
  or written outside the ring, no NULL data is written to the file) and leaves such a window.
\<close>

theorem save_input_packet_keeps_window:
  assumes "receiving k"
  shows "\<exists>k'. save_input_packet k = Inr k' \<and> receiving k'"
proof (cases "parsed_ok (input_packet k)")
  case False
  then show ?thesis using assms by (simp add: save_input_packet_def)
next
  case p: True
  have sending: "\<not> k_sending k" using assms by (simp add: receiving_def)
  from find_input_slot_gives [OF assms p] obtain r k1 where
    f: "find_input_slot k = Inr (r, k1)" "receiving k1"
    and r: "\<And>i. r = Some i \<Longrightarrow> i = input_window_i k1 \<or> (\<exists>j<input_window_n k1. i = slot_index k1 j)"
    by (auto simp: gives_def)
  have ok: "window_ok k1" using f(2) by (simp add: receiving_def)
  note d = window_okD [OF ok]
  have good: "slot_good (input_slot k1)" by (simp add: slot_good_def input_slot_def)
  show ?thesis
  proof (cases r)
    case None
    then show ?thesis using p sending f receiving_input by (simp add: save_input_packet_def)
  next
    case (Some i)
    have i: "i < size_in k1" using r [OF Some] d(1,6) by auto
    let ?k2 = "k1\<lparr>input_window := (input_window k1)[i := input_slot k1]\<rparr>"
    have set: "set_slot i (input_slot k1) (input_window k1) = Inr ((input_window k1)[i := input_slot k1])"
      using i d(2) by (simp add: set_slot_def)
    have sz: "size_in (k1\<lparr>input_window := w\<rparr>) = size_in k1" for w by (simp add: size_in_def)
    have seq: "receiving (x\<lparr>sequence_number := n\<rparr>) = receiving x" for x n
      using same_windowD(1) [of x "x\<lparr>sequence_number := n\<rparr>"] by (simp add: receiving_def same_window_def)
    show ?thesis
    proof (cases "i = input_window_i k1 \<and> input_window_n k1 < size_in k1")
      case True
      let ?k3 = "k1\<lparr>input_window := (input_window k1)[i := input_slot k1],
        input_window_n := input_window_n k1 + 1, input_window_i := (i + 1) mod size_in k1\<rparr>"
      have "append_slot (input_slot k1) k1 = Inr ?k3"
        using True d(2,5,6) d(7) [of "input_window_n k1"] by (simp add: append_slot_def slot_at_def set_slot_def)
      then have "receiving ?k3" using append_gives [OF f(2) good] True by (auto simp: gives_def)
      then have "receiving (?k3\<lparr>sequence_number := sequence_number k1 + 1\<rparr>)" by (simp only: seq)
      then show ?thesis
        using p sending f(1) Some set True by (simp add: save_input_packet_def sz Let_def)
    next
      case False
      have used: "\<exists>j<input_window_n k1. i = slot_index k1 j"
      proof (cases "i = input_window_i k1")
        case True
        then have "input_window_n k1 = size_in k1" using False d(4) by simp
        then show ?thesis using True d(1,3,5) by (intro exI [of _ 0]) (simp add: slot_index_def)
      qed (use r [OF Some] in simp)
      then have "window_ok ?k2" using slot_update_ok [OF ok _ good] by blast
      then have r2: "receiving ?k2" using f(2) by (simp add: receiving_def)
      have full: "input_window_n k1 = size_in k1 \<Longrightarrow> input_window_i k1 = input_window_begin k1"
        using d(3,5) by (simp add: slot_index_def)
      have r3: "receiving (?k2\<lparr>sequence_number := sequence_number k1 + 1\<rparr>)" using r2 by (simp only: seq)
      show ?thesis
      proof (cases "i = input_window_i k1")
        case True
        then have "input_window_n k1 = size_in k1" "input_window_i k1 = input_window_begin k1"
          using False d(4) full by simp_all
        with True r3 show ?thesis
          using p sending f(1) Some set by (simp add: save_input_packet_def sz Let_def)
      next
        case False
        with r2 full show ?thesis
          using p sending f(1) Some set by (simp add: save_input_packet_def sz Let_def)
      qed
    qed
  qed
qed

end
