(* ===== verification/Kermit_Delivery.thy ===== *)
theory Kermit_Delivery
  imports Kermit_Ring
begin

text \<open>
  Packets that arrive in order: the window and the file together are a stream of bytes to which
  every data packet adds its data, and when the window is emptied at the end of the file the stream
  is what is on the disk. Then what happens when a packet was lost on the way.
\<close>

section \<open>The stream a receiver stands for\<close>

definition slot_bytes :: "kermit_slot \<Rightarrow> byte list" where
  "slot_bytes s = (if sl_type s = P_KDATA then the (sl_data s) else [])"

definition packet_bytes :: "kermit_packet \<Rightarrow> byte list" where
  "packet_bytes p = (if kp_type p = P_KDATA then kp_data p else [])"

text \<open>What is written, and what waits in the window; the file is open at its end.\<close>

definition on_disk :: "kermit \<Rightarrow> byte list" where
  "on_disk k = (case k_file_stream k of None \<Rightarrow> [] | Some f \<Rightarrow> f_data f)"

definition in_window :: "kermit \<Rightarrow> byte list" where
  "in_window k = concat (map slot_bytes (window_slots k))"

definition stream :: "kermit \<Rightarrow> byte list" where
  "stream k = on_disk k @ in_window k"

definition at_end :: "kermit \<Rightarrow> bool" where
  "at_end k \<longleftrightarrow> (\<exists>f. k_file_stream k = Some f \<and> f_room f = None \<and> f_pos f = length (f_data f))"

definition all_acked :: "kermit \<Rightarrow> bool" where
  "all_acked k \<longleftrightarrow> list_all acked (window_slots k)"

text \<open>The first slot is written only when it leaves the window.\<close>

definition settled :: "kermit \<Rightarrow> bool" where
  "settled k \<longleftrightarrow>
     receiving k \<and> at_end k \<and> all_acked k
     \<and> (window_slots k \<noteq> [] \<longrightarrow> sl_type (hd (window_slots k)) \<noteq> P_KDATA \<or> input_window_n k = size_in k)"

definition comes_next :: "kermit_packet \<Rightarrow> kermit \<Rightarrow> bool" where
  "comes_next p k \<longleftrightarrow>
     parsed_ok p \<and> (window_slots k \<noteq> [] \<longrightarrow> kp_seq p = (sl_seq (last (window_slots k)) + 1) mod 64)"

lemma written_stream:
  assumes "written d k k'" "at_end k"
  shows "on_disk k' = on_disk k @ d" "at_end k'" "window_slots k' = window_slots k"
proof -
  obtain f where f: "k_file_stream k = Some f" "k_file_stream k' = Some (snd (fwrite d f))" "same_window k k'"
    using assms(1) by (auto simp: written_def)
  have "f_room f = None" "f_pos f = length (f_data f)" using assms(2) f(1) by (auto simp: at_end_def)
  note w = fwrite_append [OF this, of d]
  show "on_disk k' = on_disk k @ d" by (simp add: on_disk_def f w)
  show "at_end k'" using \<open>f_room f = None\<close> by (simp add: at_end_def f w)
  show "window_slots k' = window_slots k" by (rule same_windowD(2) [OF f(3)])
qed

lemma index_before:
  "b < s \<Longrightarrow> 0 < n \<Longrightarrow> n \<le> s \<Longrightarrow> i = (if b + n < s then b + n else b + n - s) \<Longrightarrow>
    (if i = 0 then s - 1 else i - 1) = (if b + (n - 1) < s then b + (n - 1) else b + (n - 1) - s)" for b s n i :: nat
  by auto

lemma last_window_slot:
  assumes "receiving k" "window_slots k \<noteq> []"
  shows "last_input_slot (size_in k) k = Inr (last (window_slots k))"
proof -
  have ok: "window_ok k" using assms(1) by (simp add: receiving_def)
  note d = window_okD [OF ok]
  let ?n = "input_window_n k"
  have n: "0 < ?n" using assms(2) by (simp add: window_slots_def)
  have "input_window_i k = (if input_window_begin k + ?n < size_in k then input_window_begin k + ?n
      else input_window_begin k + ?n - size_in k)"
    using d(5) slot_index_eq [OF d(3,4)] by (simp only:)
  moreover have "slot_index k (?n - 1) = (if input_window_begin k + (?n - 1) < size_in k
      then input_window_begin k + (?n - 1) else input_window_begin k + (?n - 1) - size_in k)"
    by (rule slot_index_eq [OF d(3)]) (use d(4) in simp)
  ultimately have "(if input_window_i k = 0 then size_in k - 1 else input_window_i k - 1) = slot_index k (?n - 1)"
    using index_before [OF d(3) n d(4)] by (simp only:)
  moreover have "last (window_slots k) = input_window k ! slot_index k (?n - 1)"
    using n assms(2) by (simp add: last_conv_nth nth_window_slots)
  ultimately show ?thesis
    using slot_at_ok [OF assms(1)] d(1) by (simp add: last_input_slot_def)
qed

text \<open>The next packet makes room for itself when the window is full.\<close>

lemma next_packet_settled:
  assumes k: "settled k" "window_slots k \<noteq> []"
  shows "\<exists>k'. next_packet k = Inr (Some (input_window_i k'), k') \<and> receiving k' \<and> at_end k' \<and> all_acked k'
    \<and> rest_same k k' \<and> input_window_n k' < size_in k' \<and> stream k' = stream k
    \<and> window_slots k' = (if input_window_n k = size_in k then tl (window_slots k) else window_slots k)"
proof -
  let ?s = "hd (window_slots k)"
  have r: "receiving k" and ok: "window_ok k" and e: "at_end k" and acks: "\<forall>s\<in>set (window_slots k). acked s"
    using k(1) by (simp_all add: settled_def receiving_def all_acked_def list_all_iff)
  have n: "0 < input_window_n k" using k(2) by (simp add: window_slots_def)
  have a: "acked ?s" using acks k(2) by simp
  have b: "slot_at (input_window k) (input_window_begin k) = Inr ?s"
    using slot_at_ok [OF r] window_okD(3) [OF ok] first_slot(1) [OF ok n] by simp
  have split: "in_window k = slot_bytes ?s @ concat (map slot_bytes (tl (window_slots k)))"
    using k(2) by (simp add: in_window_def) (metis concat.simps(2) list.collapse list.simps(9))
  show ?thesis
  proof (cases "input_window_n k = size_in k")
    case False
    then have "sl_type ?s \<noteq> P_KDATA" using k by (simp add: settled_def)
    moreover have "input_window_n k < size_in k" using False window_okD(4) [OF ok] by simp
    ultimately show ?thesis
      using k(1) b False by (simp add: next_packet_def settled_def)
  next
    case True
    obtain k1 where k1: "(if sl_type ?s = P_KDATA \<and> acked ?s then save_first_packet k else Inr k) = Inr k1"
      "receiving k1" "at_end k1" "window_slots k1 = window_slots k" "rest_same k k1" "same_window k k1"
      "on_disk k1 = on_disk k @ slot_bytes ?s"
    proof (cases "sl_type ?s = P_KDATA")
      case True
      from save_first_gives [OF r n a] obtain k1 where
        "save_first_packet k = Inr k1" "receiving k1" "written (slot_bytes ?s) k k1"
        using True by (auto simp: gives_def slot_bytes_def)
      with True a written_stream [OF this(3) e] show thesis
        by (intro that [of k1]) (auto simp: written_def)
    next
      case False
      then show thesis using that [of k] r e by (simp add: slot_bytes_def same_window_def)
    qed
    have n1: "input_window_n k1 = input_window_n k" "size_in k1 = size_in k"
      using same_windowD [OF k1(6)] by simp_all
    from roll_gives [OF k1(2)] n n1 obtain k2 where
      k2: "roll_off_input k1 = Inr k2" "receiving k2" "rest_same k1 k2" "k_file_stream k2 = k_file_stream k1"
      "window_slots k2 = tl (window_slots k)"
      using k1(4) by (auto simp: gives_def)
    have "input_window_n k2 = size_in k - 1" using arg_cong [OF k2(5), of length] True by simp
    then have "input_window_n k2 < size_in k2"
      using k2(3) n n1 True rest_same_size [of k1 k2] by simp
    moreover have "all_acked k2"
      using acks k2(5) k(2) list.set_sel(2) [of "window_slots k"] by (auto simp: all_acked_def list_all_iff)
    moreover have "at_end k2" "stream k2 = stream k"
      using k1(3,7) k2(4,5) split by (simp_all add: at_end_def stream_def on_disk_def in_window_def)
    moreover have "rest_same k k2" using k1(5) k2(3) by (rule rest_same_trans)
    ultimately show ?thesis
      using b a k1(1) k2(1,2,5) n1 True by (simp add: next_packet_def)
  qed
qed

lemma receiving_sequence [simp]: "receiving (k\<lparr>sequence_number := n\<rparr>) = receiving k"
  using same_windowD(1) [of k "k\<lparr>sequence_number := n\<rparr>"] by (simp add: receiving_def same_window_def)

lemma window_slots_sequence [simp]: "window_slots (k\<lparr>sequence_number := n\<rparr>) = window_slots k"
  by (rule same_windowD(2)) (simp add: same_window_def)

lemma save_appends:
  assumes "parsed_ok (input_packet k)" "\<not> k_sending k" "find_input_slot k = Inr (Some (input_window_i k1), k1)"
    and k1: "receiving k1" "input_window_n k1 < size_in k1"
  shows "\<exists>k'. save_input_packet k = Inr k' \<and> receiving k' \<and> window_slots k' = window_slots k1 @ [input_slot k1]
    \<and> k_file_stream k' = k_file_stream k1 \<and> size_in k' = size_in k1"
proof -
  have ok: "window_ok k1" using k1(1) by (simp add: receiving_def)
  note d = window_okD [OF ok]
  let ?i = "input_window_i k1"
  have good: "slot_good (input_slot k1)" by (simp add: slot_good_def input_slot_def)
  have set: "set_slot ?i (input_slot k1) (input_window k1) = Inr ((input_window k1)[?i := input_slot k1])"
    using d(2,6) by (simp add: set_slot_def)
  have sz: "size_in (k1\<lparr>input_window := w\<rparr>) = size_in k1" for w by (simp add: size_in_def)
  let ?k3 = "k1\<lparr>input_window := (input_window k1)[?i := input_slot k1],
    input_window_n := input_window_n k1 + 1, input_window_i := (?i + 1) mod size_in k1\<rparr>"
  have a: "append_slot (input_slot k1) k1 = Inr ?k3"
    using k1(2) d(2,5,6) d(7) [of "input_window_n k1"] by (simp add: append_slot_def slot_at_def set_slot_def)
  have r: "receiving ?k3" "window_slots ?k3 = window_slots k1 @ [input_slot k1]"
    using append_gives [OF k1(1) good k1(2)] a by (auto simp: gives_def)
  let ?k' = "?k3\<lparr>sequence_number := sequence_number k1 + 1\<rparr>"
  have "save_input_packet k = Inr ?k'"
    using assms(1-3) set k1(2) by (simp add: save_input_packet_def sz Let_def)
  moreover have "receiving ?k'" "window_slots ?k' = window_slots k1 @ [input_slot k1]"
    unfolding receiving_sequence window_slots_sequence by (rule r)+
  ultimately show ?thesis by (simp add: size_in_def)
qed

lemma input_packet_same:
  "window_slots (k\<lparr>input_packet := p\<rparr>) = window_slots k" "size_in (k\<lparr>input_packet := p\<rparr>) = size_in k"
  "receiving (k\<lparr>input_packet := p\<rparr>) = receiving k" "stream (k\<lparr>input_packet := p\<rparr>) = stream k"
  "settled (k\<lparr>input_packet := p\<rparr>) = settled k"
proof -
  have same: "same_window k (k\<lparr>input_packet := p\<rparr>)" by (simp add: same_window_def)
  show w: "window_slots (k\<lparr>input_packet := p\<rparr>) = window_slots k" by (rule same_windowD(2) [OF same])
  show z: "size_in (k\<lparr>input_packet := p\<rparr>) = size_in k" by (simp add: size_in_def)
  show r: "receiving (k\<lparr>input_packet := p\<rparr>) = receiving k" using same_windowD(1) [OF same] by (simp add: receiving_def)
  show "stream (k\<lparr>input_packet := p\<rparr>) = stream k" by (simp add: stream_def on_disk_def in_window_def w)
  show "settled (k\<lparr>input_packet := p\<rparr>) = settled k" by (simp add: settled_def at_end_def all_acked_def w z r)
qed

text \<open>One packet, in its turn: the stream grows by its data.\<close>

lemma next_packet_refines:
  assumes k: "settled k" "comes_next p k" "window_slots k = [] \<Longrightarrow> kp_type p \<noteq> P_KDATA \<or> size_in k = 1"
  shows "\<exists>k'. save_input_packet (k\<lparr>input_packet := p\<rparr>) = Inr k' \<and> settled k' \<and> window_slots k' \<noteq> []
    \<and> sl_seq (last (window_slots k')) = kp_seq p \<and> stream k' = stream k @ packet_bytes p"
proof -
  let ?k = "k\<lparr>input_packet := p\<rparr>"
  have s: "settled ?k" using k(1) by (simp add: input_packet_same)
  then have r: "receiving ?k" by (simp add: settled_def)
  have p: "parsed_ok (input_packet ?k)" "\<not> k_sending ?k" using k(2) r by (simp_all add: comes_next_def receiving_def)
  have sz: "0 < size_in k" using r window_okD(1) [of ?k] by (simp add: receiving_def input_packet_same)
  obtain k1 where k1: "find_input_slot ?k = Inr (Some (input_window_i k1), k1)" "receiving k1" "at_end k1" "all_acked k1"
    "rest_same ?k k1" "input_window_n k1 < size_in k1" "stream k1 = stream k"
    "window_slots k1 = (if input_window_n k = size_in k then tl (window_slots k) else window_slots k)"
  proof (cases "window_slots k = []")
    case True
    then have n: "input_window_n k = 0" by (simp add: window_slots_def)
    then have "find_input_slot ?k = Inr (Some (input_window_i ?k), ?k)" using p by (simp add: find_input_slot_def)
    then show thesis
      using that [of ?k] r s n sz input_packet_same by (simp add: settled_def)
  next
    case False
    have "last_input_slot (size_in ?k) ?k = Inr (last (window_slots k))"
      using last_window_slot [OF r] False by (simp add: input_packet_same)
    moreover have "input_window_n k \<noteq> 0" using False by (simp add: window_slots_def)
    ultimately have "find_input_slot ?k = next_packet ?k"
      using p k(2) False by (simp add: find_input_slot_def comes_next_def Let_def)
    then show thesis
      using next_packet_settled [OF s, unfolded input_packet_same, OF False] that by auto
  qed
  have in1: "input_packet k1 = p" using k1(5) by (simp add: rest_same_def)
  have sz1: "size_in k1 = size_in k" using rest_same_size [OF k1(5)] by (simp add: input_packet_same)
  from save_appends [OF p k1(1,2,6)] obtain k' where
    k': "save_input_packet ?k = Inr k'" "receiving k'" "window_slots k' = window_slots k1 @ [input_slot k1]"
    "k_file_stream k' = k_file_stream k1" "size_in k' = size_in k1" by blast
  have new: "acked (input_slot k1)" "sl_seq (input_slot k1) = kp_seq p" "slot_bytes (input_slot k1) = packet_bytes p"
    "sl_type (input_slot k1) = kp_type p"
    by (simp_all add: input_slot_def in1 slot_bytes_def packet_bytes_def)
  have "at_end k'" "all_acked k'" using k1(3,4) k'(3,4) new(1) by (simp_all add: at_end_def all_acked_def)
  moreover have "sl_type (hd (window_slots k')) \<noteq> P_KDATA \<or> input_window_n k' = size_in k'"
  proof (cases "window_slots k1 = []")
    case True
    have n': "input_window_n k' = 1" using arg_cong [OF k'(3), of length] True by simp
    have "window_slots k = [] \<or> size_in k = 1"
    proof (rule disjCI)
      assume "size_in k \<noteq> 1"
      then have "length (tl (window_slots k)) \<noteq> 0" if "input_window_n k = size_in k"
        unfolding length_tl length_window_slots that using sz by simp
      then have "input_window_n k \<noteq> size_in k" using True k1(8) by (metis list.size(3))
      then show "window_slots k = []" using True k1(8) by simp
    qed
    then show ?thesis using k(3) True k'(3,5) sz1 new(4) n' by auto
  next
    case False
    then have hd: "hd (window_slots k') = hd (window_slots k1)" using k'(3) by simp
    show ?thesis
    proof (cases "input_window_n k = size_in k")
      case True
      then have "input_window_n k' = size_in k'"
        using arg_cong [OF k'(3), of length] arg_cong [OF k1(8), of length] sz k'(5) sz1 by simp
      then show ?thesis by simp
    next
      case full: False
      then have "window_slots k1 = window_slots k" using k1(8) by simp
      then show ?thesis using k(1) False full hd by (simp add: settled_def)
    qed
  qed
  ultimately have "settled k'" using k'(2) by (simp add: settled_def)
  moreover have "stream k' = stream k @ packet_bytes p"
    using k1(7) k'(3,4) new(3) by (simp add: stream_def on_disk_def in_window_def)
  ultimately show ?thesis using k'(1,3) new(2) by auto
qed

text \<open>At the end of the file everything is written.\<close>

lemma window_save_all_writes:
  "receiving k \<Longrightarrow> at_end k \<Longrightarrow> all_acked k \<Longrightarrow>
    \<exists>k'. window_save_all k = Inr (True, k') \<and> on_disk k' = stream k \<and> input_window_n k' = 0"
proof (induction k rule: window_save_all.induct)
  case (1 k)
  have ok: "window_ok k" using "1.prems"(1) by (simp add: receiving_def)
  show ?case
  proof (cases "input_window_n k = 0")
    case True
    then show ?thesis by (subst window_save_all.simps) (simp add: stream_def in_window_def window_slots_def)
  next
    case n: False
    let ?s = "hd (window_slots k)"
    have ne: "window_slots k \<noteq> []" using first_slot(2) [OF ok] n by simp
    have a: "acked ?s" using "1.prems"(3) ne by (simp add: all_acked_def list_all_iff)
    have s: "slot_at (input_window k) (input_window_begin k) = Inr ?s"
      using slot_at_ok [OF "1.prems"(1)] window_okD(3) [OF ok] first_slot(1) [OF ok] n by simp
    obtain k1 where k1: "save_data_packet k = Inr k1" "receiving k1" "at_end k1" "window_slots k1 = window_slots k"
      "on_disk k1 = on_disk k @ slot_bytes ?s" "input_window_n k1 = input_window_n k"
    proof (cases "sl_type ?s = P_KDATA")
      case True
      from save_first_gives [OF "1.prems"(1) _ a] n obtain k1 where
        k1: "save_first_packet k = Inr k1" "receiving k1" "written (slot_bytes ?s) k k1"
        using True by (auto simp: gives_def slot_bytes_def)
      show thesis
        using True s k1 written_stream [OF k1(3) "1.prems"(2)]
        by (intro that [of k1]) (auto simp: save_data_packet_def written_def same_window_def)
    next
      case False
      then show thesis using that [of k] s "1.prems" by (simp add: save_data_packet_def slot_bytes_def)
    qed
    from roll_gives [OF k1(2)] k1(6) n obtain k2 where
      k2: "roll_off_input k1 = Inr k2" "receiving k2" "k_file_stream k2 = k_file_stream k1" "window_slots k2 = tl (window_slots k)"
      using k1(4) by (auto simp: gives_def)
    have "at_end k2" "all_acked k2"
      using k1(3) k2(3,4) "1.prems"(3) ne list.set_sel(2) [of "window_slots k"]
      by (auto simp: at_end_def all_acked_def list_all_iff)
    with "1.IH" [OF n s _ k1(1) k2(1)] a k2(2) obtain k' where
      k': "window_save_all k2 = Inr (True, k')" "on_disk k' = stream k2" "input_window_n k' = 0" by auto
    have "in_window k = slot_bytes ?s @ in_window k2"
      using ne k2(4) by (simp add: in_window_def) (metis concat.simps(2) list.collapse list.simps(9))
    then have "stream k2 = stream k" using k1(5) k2(3) by (simp add: stream_def on_disk_def)
    then show ?thesis using n s a k1(1) k2(1) k' by (subst window_save_all.simps) simp
  qed
qed

fun receive_all :: "kermit_packet list \<Rightarrow> kermit \<Rightarrow> fault + kermit" where
  "receive_all [] k = Inr k"
| "receive_all (p # ps) k = bind_res (save_input_packet (k\<lparr>input_packet := p\<rparr>)) (receive_all ps)"

fun in_sequence :: "int \<Rightarrow> kermit_packet list \<Rightarrow> bool" where
  "in_sequence n [] = True"
| "in_sequence n (p # ps) = (parsed_ok p \<and> kp_seq p = n \<and> in_sequence ((n + 1) mod 64) ps)"

lemma receive_all_refines:
  "settled k \<Longrightarrow> window_slots k \<noteq> [] \<Longrightarrow> in_sequence ((sl_seq (last (window_slots k)) + 1) mod 64) ps \<Longrightarrow>
    \<exists>k'. receive_all ps k = Inr k' \<and> settled k' \<and> stream k' = stream k @ concat (map packet_bytes ps)"
proof (induction ps arbitrary: k)
  case (Cons p ps)
  have "comes_next p k" using Cons.prems by (simp add: comes_next_def)
  with next_packet_refines [OF Cons.prems(1)] Cons.prems(2) obtain k1 where
    k1: "save_input_packet (k\<lparr>input_packet := p\<rparr>) = Inr k1" "settled k1" "window_slots k1 \<noteq> []"
      "sl_seq (last (window_slots k1)) = kp_seq p" "stream k1 = stream k @ packet_bytes p" by blast
  with Cons.IH [OF k1(2,3)] Cons.prems(3) show ?case by auto
qed simp

text \<open>
  C5. A file that arrives without loss is on the disk as it was sent, through a window of any
  size. The receiver holds packets up to some number; then packets come whose numbers follow one
  another modulo 64, among them the data packets of the file. Every call of \<open>save_input_packet\<close>
  takes its packet, and when \<open>window_save_all\<close> empties the window at the end, it reports that
  nothing is missing, and the file holds what it held, what waited in the window, and the data of
  the packets, in order and once each.
\<close>

theorem kermit_window_refines_stream:
  assumes "settled k" "window_slots k \<noteq> []"
    and "in_sequence ((sl_seq (last (window_slots k)) + 1) mod 64) ps"
  shows "\<exists>k1 k2. receive_all ps k = Inr k1 \<and> window_save_all k1 = Inr (True, k2) \<and> input_window_n k2 = 0
    \<and> on_disk k2 = on_disk k @ in_window k @ concat (map packet_bytes ps)"
proof -
  from receive_all_refines [OF assms] obtain k1 where
    k1: "receive_all ps k = Inr k1" "settled k1" "stream k1 = stream k @ concat (map packet_bytes ps)" by blast
  then have "receiving k1" "at_end k1" "all_acked k1" by (simp_all add: settled_def)
  from window_save_all_writes [OF this] obtain k2 where
    "window_save_all k1 = Inr (True, k2)" "on_disk k2 = stream k1" "input_window_n k2 = 0" by blast
  with k1 show ?thesis by (simp add: stream_def)
qed

section \<open>After a loss\<close>

text \<open>
  C21. Once a packet was lost and sent again, data goes into the file twice. A loss empties the
  window up to the missing packet (\<open>window_save_all\<close>), so that, when it arrives, a data packet is
  first in a window that is not full. \<open>find_input_slot\<close> writes the first data packet whenever the
  next one comes, but lets it leave the window only when the window is full: each further packet
  appends the same data to the file again, and \<open>window_save_all\<close> writes it once more at the end.
\<close>

theorem first_packet_written_again:
  assumes "receiving k" "at_end k" "all_acked k" "window_slots k \<noteq> []" "input_window_n k < size_in k"
    and "sl_type (hd (window_slots k)) = P_KDATA" "sl_data (hd (window_slots k)) = Some d"
    and "comes_next p k"
  shows "\<exists>k1 k2. save_input_packet (k\<lparr>input_packet := p\<rparr>) = Inr k1
    \<and> on_disk k1 = on_disk k @ d \<and> window_slots k1 \<noteq> [] \<and> hd (window_slots k1) = hd (window_slots k)
    \<and> window_save_all k1 = Inr (True, k2)
    \<and> on_disk k2 = on_disk k @ d @ in_window k @ packet_bytes p"
proof -
  let ?k = "k\<lparr>input_packet := p\<rparr>"
  have r: "receiving ?k" using assms(1) by (simp add: input_packet_same)
  have e: "at_end ?k" using assms(2) by (simp add: at_end_def)
  have ok: "window_ok ?k" using r by (simp add: receiving_def)
  have n: "0 < input_window_n ?k" using assms(4) by (simp add: window_slots_def)
  have a: "acked (hd (window_slots ?k))"
    using assms(3,4) by (simp add: input_packet_same all_acked_def list_all_iff)
  have p: "parsed_ok (input_packet ?k)" "\<not> k_sending ?k" using assms(8) r by (simp_all add: comes_next_def receiving_def)
  from save_first_gives [OF r n a] assms(7) obtain k1 where
    k1: "save_first_packet ?k = Inr k1" "receiving k1" "written d ?k k1"
    by (auto simp: gives_def input_packet_same)
  note w = written_stream [OF k1(3) e]
  have same: "same_window ?k k1" "rest_same ?k k1" using k1(3) by (simp_all add: written_def)
  have n1: "input_window_n k1 = input_window_n k" "size_in k1 = size_in k"
    using same_windowD [OF same(1)] by (simp_all add: input_packet_same)
  have "slot_at (input_window ?k) (input_window_begin ?k) = Inr (hd (window_slots k))"
    using slot_at_ok [OF r] window_okD(3) [OF ok] first_slot(1) [OF ok n] by (simp only: input_packet_same)
  then have "next_packet ?k = Inr (Some (input_window_i k1), k1)"
    using a k1(1) assms(5,6) n1 by (simp add: next_packet_def input_packet_same)
  moreover have "last_input_slot (size_in ?k) ?k = Inr (last (window_slots k))"
    using last_window_slot [OF r] assms(4) by (simp add: input_packet_same)
  ultimately have "find_input_slot ?k = Inr (Some (input_window_i k1), k1)"
    using p assms(4,8) n by (simp add: find_input_slot_def comes_next_def Let_def)
  from save_appends [OF p this k1(2)] n1 assms(5) obtain k' where
    k': "save_input_packet ?k = Inr k'" "receiving k'" "window_slots k' = window_slots k @ [input_slot k1]"
    "k_file_stream k' = k_file_stream k1"
    using w(3) by (auto simp: input_packet_same)
  have in1: "input_packet k1 = p" using same(2) by (simp add: rest_same_def)
  have "acked (input_slot k1)" "slot_bytes (input_slot k1) = packet_bytes p"
    by (simp_all add: input_slot_def slot_bytes_def packet_bytes_def in1)
  then have "all_acked k'" "in_window k' = in_window k @ packet_bytes p"
    using k'(3) assms(3) by (simp_all add: all_acked_def in_window_def)
  moreover have "at_end k'" "on_disk k' = on_disk k @ d"
    using w k'(4) by (simp_all add: at_end_def on_disk_def)
  ultimately show ?thesis
    using k' assms(4) window_save_all_writes [OF k'(2)] by (auto simp: stream_def)
qed

text \<open>A window of four slots with the packets \<open>ss\<close> in it, and the file \<open>d\<close> open at its end.\<close>

definition waiting :: "byte list \<Rightarrow> kermit_slot list \<Rightarrow> kermit" where
  "waiting d ss =
     (receiving_end [])\<lparr>session_parms := agreed_parms\<lparr>windowing := True, WINDO_in := 4\<rparr>,
        k_file_stream := Some (open_file d (length d)),
        input_window := ss @ replicate (4 - length ss) zero_slot, input_window_begin := 0,
        input_window_n := length ss, input_window_i := length ss mod 4\<rparr>"

definition slot_of :: "packet_type \<Rightarrow> int \<Rightarrow> byte list \<Rightarrow> kermit_slot" where
  "slot_of t seq d = \<lparr>sl_seq = seq, try_count = 0, acked = True, sl_type = t, sl_data = Some d\<rparr>"

definition packet_of :: "packet_type \<Rightarrow> int \<Rightarrow> byte list \<Rightarrow> kermit_packet" where
  "packet_of t seq d = (zero_packet 1024)\<lparr>parsed_ok := True, kp_seq := seq, kp_type := t, kp_data := d\<rparr>"

lemma three_zero_slots: "replicate 3 x = [x, x, x]"
  by (simp add: numeral_eq_Suc)

lemma waiting_one:
  assumes "acked s" "sl_data s = Some x"
  shows "receiving (waiting d [s])" "window_slots (waiting d [s]) = [s]" "at_end (waiting d [s])"
    "all_acked (waiting d [s])" "on_disk (waiting d [s]) = d" "size_in (waiting d [s]) = 4"
    "input_window_n (waiting d [s]) = 1"
proof -
  let ?k = "waiting d [s]"
  show sz: "size_in ?k = 4" and n: "input_window_n ?k = 1"
    by (simp_all add: waiting_def size_in_def)
  have w: "input_window ?k = [s, zero_slot, zero_slot, zero_slot]" "input_window_begin ?k = 0"
    "input_window_i ?k = 1"
    by (simp_all add: waiting_def three_zero_slots)
  have ix: "slot_index ?k j = j mod 4" for j by (simp add: slot_index_def sz w)
  show slots: "window_slots ?k = [s]" by (simp add: window_slots_def n ix w)
  have rest: "sl_data (input_window ?k ! (j mod 4)) = None" if "j < 4" "1 \<le> j" for j
  proof -
    have "j = 1 \<or> j = 2 \<or> j = 3" using that by linarith
    then show ?thesis by (auto simp: w(1) zero_slot_def)
  qed
  then have "window_ok ?k"
    using assms by (simp add: window_ok_def sz n w ix slots slot_good_def)
  then show "receiving ?k"
    by (simp add: receiving_def) (simp add: waiting_def receiving_end_def kermit_end_def kermit_initial_def)
  show "at_end ?k" "on_disk ?k = d" by (simp_all add: at_end_def on_disk_def waiting_def)
  show "all_acked ?k" using assms by (simp add: all_acked_def slots)
qed

lemma slot_of_fields [simp]:
  "sl_seq (slot_of t n x) = n" "acked (slot_of t n x)" "sl_type (slot_of t n x) = t"
  "sl_data (slot_of t n x) = Some x"
  by (simp_all add: slot_of_def)

lemma packet_of_fields [simp]:
  "kp_seq (packet_of t n x) = n" "parsed_ok (packet_of t n x)" "kp_type (packet_of t n x) = t"
  "kp_data (packet_of t n x) = x"
  by (simp_all add: packet_of_def)

text \<open>Packet 8 comes while packet 6 is the next one: two places of the window are left for 6 and 7.\<close>

lemma save_input_packet_keeps_window_witness:
  "\<exists>k'. save_input_packet ((waiting [9] [slot_of P_KDATA 5 [1]])\<lparr>input_packet := packet_of P_KDATA 8 [3]\<rparr>) = Inr k'
     \<and> receiving k'"
  using save_input_packet_keeps_window [of "(waiting [9] [slot_of P_KDATA 5 [1]])\<lparr>input_packet := packet_of P_KDATA 8 [3]\<rparr>"]
    waiting_one [of "slot_of P_KDATA 5 [1]" "[1]" "[9]"]
  by (simp add: receiving_input)

lemma kermit_window_refines_stream_witness:
  "\<exists>k1 k2. receive_all [packet_of P_KDATA 62 [1, 2], packet_of P_KDATA 63 [3], packet_of P_KDATA 0 [4],
       packet_of P_KDATA 1 [5, 6], packet_of P_KEOF 2 []] (waiting [9] [slot_of P_KATTRIBUTES 61 []]) = Inr k1
     \<and> window_save_all k1 = Inr (True, k2) \<and> on_disk k2 = [9, 1, 2, 3, 4, 5, 6]"
proof -
  let ?k = "waiting [9] [slot_of P_KATTRIBUTES 61 []]"
  have "settled ?k" "window_slots ?k \<noteq> []" "sl_seq (last (window_slots ?k)) = 61" "in_window ?k = []"
    by (simp_all add: waiting_one settled_def in_window_def slot_bytes_def)
  with kermit_window_refines_stream [of ?k "[packet_of P_KDATA 62 [1, 2], packet_of P_KDATA 63 [3],
      packet_of P_KDATA 0 [4], packet_of P_KDATA 1 [5, 6], packet_of P_KEOF 2 []]"]
  show ?thesis by (auto simp: waiting_one packet_bytes_def)
qed

lemma first_packet_written_again_witness:
  "\<exists>k1 k2. save_input_packet ((waiting [9] [slot_of P_KDATA 5 [1, 2]])\<lparr>input_packet := packet_of P_KDATA 6 [3]\<rparr>) = Inr k1
     \<and> window_save_all k1 = Inr (True, k2) \<and> on_disk k2 = [9, 1, 2, 1, 2, 3]"
proof -
  let ?k = "waiting [9] [slot_of P_KDATA 5 [1, 2]]"
  have "sl_type (hd (window_slots ?k)) = P_KDATA" "sl_data (hd (window_slots ?k)) = Some [1, 2]"
    "comes_next (packet_of P_KDATA 6 [3]) ?k" "in_window ?k = [1, 2]"
    by (simp_all add: waiting_one comes_next_def in_window_def slot_bytes_def)
  with first_packet_written_again [of ?k "[1, 2]" "packet_of P_KDATA 6 [3]"]
  show ?thesis by (auto simp: waiting_one packet_bytes_def)
qed

end
