(* ===== verification/Codepage.thy ===== *)
theory Codepage
  imports Codepage_Tables
begin

text \<open>
  \<open>codepage.c\<close>: the 8-bit codepages, the way from a byte to its Unicode code point and back,
  and their names. The way back searches the codepage's table from its start. The tables hold
  the glyphs of CP437 in the range of the control characters, so a code point may stand there
  and at its own place above: the search then finds the control character.
\<close>

section \<open>The enumerations\<close>

datatype q_emulation =
    Q_EMUL_TTY | Q_EMUL_ANSI | Q_EMUL_VT52 | Q_EMUL_VT100 | Q_EMUL_VT102 | Q_EMUL_VT220
  | Q_EMUL_AVATAR | Q_EMUL_PETSCII | Q_EMUL_ATASCII | Q_EMUL_DEBUG | Q_EMUL_LINUX
  | Q_EMUL_LINUX_UTF8 | Q_EMUL_XTERM | Q_EMUL_XTERM_UTF8

datatype q_codepage =
    Q_CODEPAGE_CP437 | Q_CODEPAGE_ISO8859_1
  | Q_CODEPAGE_CP720 | Q_CODEPAGE_CP737 | Q_CODEPAGE_CP775 | Q_CODEPAGE_CP850
  | Q_CODEPAGE_CP852 | Q_CODEPAGE_CP857 | Q_CODEPAGE_CP858 | Q_CODEPAGE_CP860
  | Q_CODEPAGE_CP862 | Q_CODEPAGE_CP863 | Q_CODEPAGE_CP866
  | Q_CODEPAGE_CP1250 | Q_CODEPAGE_CP1251 | Q_CODEPAGE_CP1252
  | Q_CODEPAGE_KOI8_R | Q_CODEPAGE_KOI8_U
  | Q_CODEPAGE_DEC | Q_CODEPAGE_PETSCII | Q_CODEPAGE_ATASCII

section \<open>Bytes and code points\<close>

text \<open>The table of a codepage; the last three do not have one in \<open>codepage.c\<close>.\<close>

fun codepage_chars :: "q_codepage \<Rightarrow> int list" where
  "codepage_chars Q_CODEPAGE_CP437 = cp437_chars"
| "codepage_chars Q_CODEPAGE_ISO8859_1 = iso8859_1_chars"
| "codepage_chars Q_CODEPAGE_CP720 = cp720_chars"
| "codepage_chars Q_CODEPAGE_CP737 = cp737_chars"
| "codepage_chars Q_CODEPAGE_CP775 = cp775_chars"
| "codepage_chars Q_CODEPAGE_CP850 = cp850_chars"
| "codepage_chars Q_CODEPAGE_CP852 = cp852_chars"
| "codepage_chars Q_CODEPAGE_CP857 = cp857_chars"
| "codepage_chars Q_CODEPAGE_CP858 = cp858_chars"
| "codepage_chars Q_CODEPAGE_CP860 = cp860_chars"
| "codepage_chars Q_CODEPAGE_CP862 = cp862_chars"
| "codepage_chars Q_CODEPAGE_CP863 = cp863_chars"
| "codepage_chars Q_CODEPAGE_CP866 = cp866_chars"
| "codepage_chars Q_CODEPAGE_CP1250 = cp1250_chars"
| "codepage_chars Q_CODEPAGE_CP1251 = cp1251_chars"
| "codepage_chars Q_CODEPAGE_CP1252 = cp1252_chars"
| "codepage_chars Q_CODEPAGE_KOI8_R = koi8_r_chars"
| "codepage_chars Q_CODEPAGE_KOI8_U = koi8_u_chars"
| "codepage_chars Q_CODEPAGE_DEC = cp437_chars"
| "codepage_chars Q_CODEPAGE_PETSCII = []"
| "codepage_chars Q_CODEPAGE_ATASCII = atascii_chars"

definition has_table :: "q_codepage \<Rightarrow> bool" where
  "has_table cp \<longleftrightarrow> cp \<notin> {Q_CODEPAGE_DEC, Q_CODEPAGE_PETSCII, Q_CODEPAGE_ATASCII}"

definition codepage_map_char :: "q_emulation \<Rightarrow> q_codepage \<Rightarrow> byte \<Rightarrow> int" where
  "codepage_map_char emul cp ch =
     (if cp = Q_CODEPAGE_PETSCII \<or> cp = Q_CODEPAGE_ATASCII then uint ch
      else if cp = Q_CODEPAGE_DEC \<and> emul \<noteq> Q_EMUL_VT52 then uint ch
      else codepage_chars cp ! unat ch)"

text \<open>\<open>for (i = 0; i < n; i++) if (table[i] == ch) return i;\<close>\<close>

fun search_from :: "nat \<Rightarrow> int \<Rightarrow> int list \<Rightarrow> nat option" where
  "search_from i ch [] = None"
| "search_from i ch (x # xs) = (if x = ch then Some i else search_from (Suc i) ch xs)"

text \<open>\<open>None\<close> is a result with \<open>*success == Q_FALSE\<close>; the byte returned then is 0.\<close>

definition codepage_unmap_byte :: "int \<Rightarrow> q_codepage \<Rightarrow> fault + nat option" where
  "codepage_unmap_byte ch cp =
     (if cp = Q_CODEPAGE_DEC then Inl Assert_failed
      else if cp = Q_CODEPAGE_PETSCII then Inl Abort_called
      else if cp = Q_CODEPAGE_ATASCII then Inr (search_from 0 (ch AND 0x7F) (codepage_chars cp))
      else Inr (search_from 0 ch (codepage_chars cp)))"

section \<open>The first byte with a code point\<close>

lemma search_from_Some:
  "search_from i ch xs = Some k \<Longrightarrow>
     i \<le> k \<and> k < i + length xs \<and> xs ! (k - i) = ch \<and> (\<forall>j < k - i. xs ! j \<noteq> ch)"
proof (induction xs arbitrary: i)
  case (Cons x xs)
  show ?case
  proof (cases "x = ch")
    case False
    with Cons.prems have "search_from (Suc i) ch xs = Some k" by simp
    from Cons.IH [OF this] have IH: "Suc i \<le> k" "k < Suc i + length xs" "xs ! (k - Suc i) = ch"
        "\<forall>j < k - Suc i. xs ! j \<noteq> ch" by auto
    then have "k - i = Suc (k - Suc i)" by simp
    with IH False show ?thesis by (auto simp: less_Suc_eq_0_disj)
  qed (use Cons.prems in auto)
qed simp

lemma search_from_nth:
  "j < length xs \<Longrightarrow> (\<And>k. k < j \<Longrightarrow> xs ! k \<noteq> xs ! j) \<Longrightarrow> search_from i (xs ! j) xs = Some (i + j)"
proof (induction xs arbitrary: i j)
  case (Cons x xs)
  show ?case
  proof (cases j)
    case (Suc k)
    have "xs ! n \<noteq> xs ! k" if "n < k" for n using Cons.prems(2) [of "Suc n"] that Suc by simp
    moreover have "x \<noteq> xs ! k" using Cons.prems(2) [of 0] Suc by simp
    ultimately show ?thesis using Cons Suc by simp
  qed simp
qed simp

text \<open>
  All tables have the same lower half but for its last entry. A table is in order when the
  entries of its upper half are distinct, except for glyphs of control characters and spaces.
\<close>

definition glyphs :: "int list" where
  "glyphs =
    [0x2007, 0x263A, 0x263B, 0x2665, 0x2666, 0x2663, 0x2660, 0x2022,
     0x25D8, 0x25CB, 0x25D9, 0x2642, 0x2640, 0x266A, 0x266B, 0x263C,
     0x25B6, 0x25C0, 0x2195, 0x203C, 0x00B6, 0x00A7, 0x25AC, 0x21A8,
     0x2191, 0x2193, 0x2192, 0x2190, 0x221F, 0x2194, 0x25B2, 0x25BC]"

definition lower_half :: "int \<Rightarrow> int list" where
  "lower_half x =
    [0x2007, 0x263A, 0x263B, 0x2665, 0x2666, 0x2663, 0x2660, 0x2022,
     0x25D8, 0x25CB, 0x25D9, 0x2642, 0x2640, 0x266A, 0x266B, 0x263C,
     0x25B6, 0x25C0, 0x2195, 0x203C, 0x00B6, 0x00A7, 0x25AC, 0x21A8,
     0x2191, 0x2193, 0x2192, 0x2190, 0x221F, 0x2194, 0x25B2, 0x25BC,
     0x0020, 0x0021, 0x0022, 0x0023, 0x0024, 0x0025, 0x0026, 0x0027,
     0x0028, 0x0029, 0x002A, 0x002B, 0x002C, 0x002D, 0x002E, 0x002F,
     0x0030, 0x0031, 0x0032, 0x0033, 0x0034, 0x0035, 0x0036, 0x0037,
     0x0038, 0x0039, 0x003A, 0x003B, 0x003C, 0x003D, 0x003E, 0x003F,
     0x0040, 0x0041, 0x0042, 0x0043, 0x0044, 0x0045, 0x0046, 0x0047,
     0x0048, 0x0049, 0x004A, 0x004B, 0x004C, 0x004D, 0x004E, 0x004F,
     0x0050, 0x0051, 0x0052, 0x0053, 0x0054, 0x0055, 0x0056, 0x0057,
     0x0058, 0x0059, 0x005A, 0x005B, 0x005C, 0x005D, 0x005E, 0x005F,
     0x0060, 0x0061, 0x0062, 0x0063, 0x0064, 0x0065, 0x0066, 0x0067,
     0x0068, 0x0069, 0x006A, 0x006B, 0x006C, 0x006D, 0x006E, 0x006F,
     0x0070, 0x0071, 0x0072, 0x0073, 0x0074, 0x0075, 0x0076, 0x0077,
     0x0078, 0x0079, 0x007A, 0x007B, 0x007C, 0x007D, 0x007E, x]"

definition low_code :: "int \<Rightarrow> bool" where
  "low_code x \<longleftrightarrow> x = 32 \<or> x \<in> set glyphs"

definition table_in_order :: "int list \<Rightarrow> bool" where
  "table_in_order xs \<longleftrightarrow>
     length xs = 256 \<and> (take 128 xs = lower_half 0x2302 \<or> take 128 xs = lower_half 0x7F) \<and>
     distinct (filter (\<lambda>x. \<not> low_code x) (drop 128 xs)) \<and>
     list_all (\<lambda>x. low_code x \<or> 128 \<le> x \<and> x \<noteq> 0x2302) (drop 128 xs)"

text \<open>The check of the tables, one by one.\<close>

lemma low_code_check:
  "low_code x \<longleftrightarrow> x \<in> {32, 0x2007, 0x263A, 0x263B, 0x2665, 0x2666, 0x2663, 0x2660, 0x2022, 0x25D8,
     0x25CB, 0x25D9, 0x2642, 0x2640, 0x266A, 0x266B, 0x263C, 0x25B6, 0x25C0, 0x2195, 0x203C,
     0x00B6, 0x00A7, 0x25AC, 0x21A8, 0x2191, 0x2193, 0x2192, 0x2190, 0x221F, 0x2194, 0x25B2, 0x25BC}"
  by (simp add: low_code_def glyphs_def)

lemmas cp437_upper = arg_cong [where f = "drop 128", OF cp437_chars_def, simplified]

lemma cp437_in_order: "table_in_order cp437_chars"
proof -
  have "length cp437_chars = 256" "take 128 cp437_chars = lower_half 0x2302"
    by (simp_all add: cp437_chars_def lower_half_def)
  moreover have "distinct (filter (\<lambda>x. \<not> low_code x) (drop 128 cp437_chars))"
    unfolding cp437_upper low_code_check by simp
  moreover have "list_all (\<lambda>x. low_code x \<or> 128 \<le> x \<and> x \<noteq> 0x2302) (drop 128 cp437_chars)"
    unfolding cp437_upper low_code_check by simp
  ultimately show ?thesis by (simp only: table_in_order_def simp_thms)
qed

lemmas iso8859_1_upper = arg_cong [where f = "drop 128", OF iso8859_1_chars_def, simplified]

lemma iso8859_1_in_order: "table_in_order iso8859_1_chars"
proof -
  have "length iso8859_1_chars = 256" "take 128 iso8859_1_chars = lower_half 0x7F"
    by (simp_all add: iso8859_1_chars_def lower_half_def)
  moreover have "distinct (filter (\<lambda>x. \<not> low_code x) (drop 128 iso8859_1_chars))"
    unfolding iso8859_1_upper low_code_check by simp
  moreover have "list_all (\<lambda>x. low_code x \<or> 128 \<le> x \<and> x \<noteq> 0x2302) (drop 128 iso8859_1_chars)"
    unfolding iso8859_1_upper low_code_check by simp
  ultimately show ?thesis by (simp only: table_in_order_def simp_thms)
qed

lemmas cp720_upper = arg_cong [where f = "drop 128", OF cp720_chars_def, simplified]

lemma cp720_in_order: "table_in_order cp720_chars"
proof -
  have "length cp720_chars = 256" "take 128 cp720_chars = lower_half 0x2302"
    by (simp_all add: cp720_chars_def lower_half_def)
  moreover have "distinct (filter (\<lambda>x. \<not> low_code x) (drop 128 cp720_chars))"
    unfolding cp720_upper low_code_check by simp
  moreover have "list_all (\<lambda>x. low_code x \<or> 128 \<le> x \<and> x \<noteq> 0x2302) (drop 128 cp720_chars)"
    unfolding cp720_upper low_code_check by simp
  ultimately show ?thesis by (simp only: table_in_order_def simp_thms)
qed

lemmas cp737_upper = arg_cong [where f = "drop 128", OF cp737_chars_def, simplified]

lemma cp737_in_order: "table_in_order cp737_chars"
proof -
  have "length cp737_chars = 256" "take 128 cp737_chars = lower_half 0x2302"
    by (simp_all add: cp737_chars_def lower_half_def)
  moreover have "distinct (filter (\<lambda>x. \<not> low_code x) (drop 128 cp737_chars))"
    unfolding cp737_upper low_code_check by simp
  moreover have "list_all (\<lambda>x. low_code x \<or> 128 \<le> x \<and> x \<noteq> 0x2302) (drop 128 cp737_chars)"
    unfolding cp737_upper low_code_check by simp
  ultimately show ?thesis by (simp only: table_in_order_def simp_thms)
qed

lemmas cp775_upper = arg_cong [where f = "drop 128", OF cp775_chars_def, simplified]

lemma cp775_in_order: "table_in_order cp775_chars"
proof -
  have "length cp775_chars = 256" "take 128 cp775_chars = lower_half 0x2302"
    by (simp_all add: cp775_chars_def lower_half_def)
  moreover have "distinct (filter (\<lambda>x. \<not> low_code x) (drop 128 cp775_chars))"
    unfolding cp775_upper low_code_check by simp
  moreover have "list_all (\<lambda>x. low_code x \<or> 128 \<le> x \<and> x \<noteq> 0x2302) (drop 128 cp775_chars)"
    unfolding cp775_upper low_code_check by simp
  ultimately show ?thesis by (simp only: table_in_order_def simp_thms)
qed

lemmas cp850_upper = arg_cong [where f = "drop 128", OF cp850_chars_def, simplified]

lemma cp850_in_order: "table_in_order cp850_chars"
proof -
  have "length cp850_chars = 256" "take 128 cp850_chars = lower_half 0x2302"
    by (simp_all add: cp850_chars_def lower_half_def)
  moreover have "distinct (filter (\<lambda>x. \<not> low_code x) (drop 128 cp850_chars))"
    unfolding cp850_upper low_code_check by simp
  moreover have "list_all (\<lambda>x. low_code x \<or> 128 \<le> x \<and> x \<noteq> 0x2302) (drop 128 cp850_chars)"
    unfolding cp850_upper low_code_check by simp
  ultimately show ?thesis by (simp only: table_in_order_def simp_thms)
qed

lemmas cp852_upper = arg_cong [where f = "drop 128", OF cp852_chars_def, simplified]

lemma cp852_in_order: "table_in_order cp852_chars"
proof -
  have "length cp852_chars = 256" "take 128 cp852_chars = lower_half 0x2302"
    by (simp_all add: cp852_chars_def lower_half_def)
  moreover have "distinct (filter (\<lambda>x. \<not> low_code x) (drop 128 cp852_chars))"
    unfolding cp852_upper low_code_check by simp
  moreover have "list_all (\<lambda>x. low_code x \<or> 128 \<le> x \<and> x \<noteq> 0x2302) (drop 128 cp852_chars)"
    unfolding cp852_upper low_code_check by simp
  ultimately show ?thesis by (simp only: table_in_order_def simp_thms)
qed

lemmas cp857_upper = arg_cong [where f = "drop 128", OF cp857_chars_def, simplified]

lemma cp857_in_order: "table_in_order cp857_chars"
proof -
  have "length cp857_chars = 256" "take 128 cp857_chars = lower_half 0x2302"
    by (simp_all add: cp857_chars_def lower_half_def)
  moreover have "distinct (filter (\<lambda>x. \<not> low_code x) (drop 128 cp857_chars))"
    unfolding cp857_upper low_code_check by simp
  moreover have "list_all (\<lambda>x. low_code x \<or> 128 \<le> x \<and> x \<noteq> 0x2302) (drop 128 cp857_chars)"
    unfolding cp857_upper low_code_check by simp
  ultimately show ?thesis by (simp only: table_in_order_def simp_thms)
qed

lemmas cp858_upper = arg_cong [where f = "drop 128", OF cp858_chars_def, simplified]

lemma cp858_in_order: "table_in_order cp858_chars"
proof -
  have "length cp858_chars = 256" "take 128 cp858_chars = lower_half 0x2302"
    by (simp_all add: cp858_chars_def lower_half_def)
  moreover have "distinct (filter (\<lambda>x. \<not> low_code x) (drop 128 cp858_chars))"
    unfolding cp858_upper low_code_check by simp
  moreover have "list_all (\<lambda>x. low_code x \<or> 128 \<le> x \<and> x \<noteq> 0x2302) (drop 128 cp858_chars)"
    unfolding cp858_upper low_code_check by simp
  ultimately show ?thesis by (simp only: table_in_order_def simp_thms)
qed

lemmas cp860_upper = arg_cong [where f = "drop 128", OF cp860_chars_def, simplified]

lemma cp860_in_order: "table_in_order cp860_chars"
proof -
  have "length cp860_chars = 256" "take 128 cp860_chars = lower_half 0x2302"
    by (simp_all add: cp860_chars_def lower_half_def)
  moreover have "distinct (filter (\<lambda>x. \<not> low_code x) (drop 128 cp860_chars))"
    unfolding cp860_upper low_code_check by simp
  moreover have "list_all (\<lambda>x. low_code x \<or> 128 \<le> x \<and> x \<noteq> 0x2302) (drop 128 cp860_chars)"
    unfolding cp860_upper low_code_check by simp
  ultimately show ?thesis by (simp only: table_in_order_def simp_thms)
qed

lemmas cp862_upper = arg_cong [where f = "drop 128", OF cp862_chars_def, simplified]

lemma cp862_in_order: "table_in_order cp862_chars"
proof -
  have "length cp862_chars = 256" "take 128 cp862_chars = lower_half 0x2302"
    by (simp_all add: cp862_chars_def lower_half_def)
  moreover have "distinct (filter (\<lambda>x. \<not> low_code x) (drop 128 cp862_chars))"
    unfolding cp862_upper low_code_check by simp
  moreover have "list_all (\<lambda>x. low_code x \<or> 128 \<le> x \<and> x \<noteq> 0x2302) (drop 128 cp862_chars)"
    unfolding cp862_upper low_code_check by simp
  ultimately show ?thesis by (simp only: table_in_order_def simp_thms)
qed

lemmas cp863_upper = arg_cong [where f = "drop 128", OF cp863_chars_def, simplified]

lemma cp863_in_order: "table_in_order cp863_chars"
proof -
  have "length cp863_chars = 256" "take 128 cp863_chars = lower_half 0x2302"
    by (simp_all add: cp863_chars_def lower_half_def)
  moreover have "distinct (filter (\<lambda>x. \<not> low_code x) (drop 128 cp863_chars))"
    unfolding cp863_upper low_code_check by simp
  moreover have "list_all (\<lambda>x. low_code x \<or> 128 \<le> x \<and> x \<noteq> 0x2302) (drop 128 cp863_chars)"
    unfolding cp863_upper low_code_check by simp
  ultimately show ?thesis by (simp only: table_in_order_def simp_thms)
qed

lemmas cp866_upper = arg_cong [where f = "drop 128", OF cp866_chars_def, simplified]

lemma cp866_in_order: "table_in_order cp866_chars"
proof -
  have "length cp866_chars = 256" "take 128 cp866_chars = lower_half 0x2302"
    by (simp_all add: cp866_chars_def lower_half_def)
  moreover have "distinct (filter (\<lambda>x. \<not> low_code x) (drop 128 cp866_chars))"
    unfolding cp866_upper low_code_check by simp
  moreover have "list_all (\<lambda>x. low_code x \<or> 128 \<le> x \<and> x \<noteq> 0x2302) (drop 128 cp866_chars)"
    unfolding cp866_upper low_code_check by simp
  ultimately show ?thesis by (simp only: table_in_order_def simp_thms)
qed

lemmas cp1250_upper = arg_cong [where f = "drop 128", OF cp1250_chars_def, simplified]

lemma cp1250_in_order: "table_in_order cp1250_chars"
proof -
  have "length cp1250_chars = 256" "take 128 cp1250_chars = lower_half 0x2302"
    by (simp_all add: cp1250_chars_def lower_half_def)
  moreover have "distinct (filter (\<lambda>x. \<not> low_code x) (drop 128 cp1250_chars))"
    unfolding cp1250_upper low_code_check by simp
  moreover have "list_all (\<lambda>x. low_code x \<or> 128 \<le> x \<and> x \<noteq> 0x2302) (drop 128 cp1250_chars)"
    unfolding cp1250_upper low_code_check by simp
  ultimately show ?thesis by (simp only: table_in_order_def simp_thms)
qed

lemmas cp1251_upper = arg_cong [where f = "drop 128", OF cp1251_chars_def, simplified]

lemma cp1251_in_order: "table_in_order cp1251_chars"
proof -
  have "length cp1251_chars = 256" "take 128 cp1251_chars = lower_half 0x2302"
    by (simp_all add: cp1251_chars_def lower_half_def)
  moreover have "distinct (filter (\<lambda>x. \<not> low_code x) (drop 128 cp1251_chars))"
    unfolding cp1251_upper low_code_check by simp
  moreover have "list_all (\<lambda>x. low_code x \<or> 128 \<le> x \<and> x \<noteq> 0x2302) (drop 128 cp1251_chars)"
    unfolding cp1251_upper low_code_check by simp
  ultimately show ?thesis by (simp only: table_in_order_def simp_thms)
qed

lemmas cp1252_upper = arg_cong [where f = "drop 128", OF cp1252_chars_def, simplified]

lemma cp1252_in_order: "table_in_order cp1252_chars"
proof -
  have "length cp1252_chars = 256" "take 128 cp1252_chars = lower_half 0x2302"
    by (simp_all add: cp1252_chars_def lower_half_def)
  moreover have "distinct (filter (\<lambda>x. \<not> low_code x) (drop 128 cp1252_chars))"
    unfolding cp1252_upper low_code_check by simp
  moreover have "list_all (\<lambda>x. low_code x \<or> 128 \<le> x \<and> x \<noteq> 0x2302) (drop 128 cp1252_chars)"
    unfolding cp1252_upper low_code_check by simp
  ultimately show ?thesis by (simp only: table_in_order_def simp_thms)
qed

lemmas koi8_r_upper = arg_cong [where f = "drop 128", OF koi8_r_chars_def, simplified]

lemma koi8_r_in_order: "table_in_order koi8_r_chars"
proof -
  have "length koi8_r_chars = 256" "take 128 koi8_r_chars = lower_half 0x2302"
    by (simp_all add: koi8_r_chars_def lower_half_def)
  moreover have "distinct (filter (\<lambda>x. \<not> low_code x) (drop 128 koi8_r_chars))"
    unfolding koi8_r_upper low_code_check by simp
  moreover have "list_all (\<lambda>x. low_code x \<or> 128 \<le> x \<and> x \<noteq> 0x2302) (drop 128 koi8_r_chars)"
    unfolding koi8_r_upper low_code_check by simp
  ultimately show ?thesis by (simp only: table_in_order_def simp_thms)
qed

lemmas koi8_u_upper = arg_cong [where f = "drop 128", OF koi8_u_chars_def, simplified]

lemma koi8_u_in_order: "table_in_order koi8_u_chars"
proof -
  have "length koi8_u_chars = 256" "take 128 koi8_u_chars = lower_half 0x2302"
    by (simp_all add: koi8_u_chars_def lower_half_def)
  moreover have "distinct (filter (\<lambda>x. \<not> low_code x) (drop 128 koi8_u_chars))"
    unfolding koi8_u_upper low_code_check by simp
  moreover have "list_all (\<lambda>x. low_code x \<or> 128 \<le> x \<and> x \<noteq> 0x2302) (drop 128 koi8_u_chars)"
    unfolding koi8_u_upper low_code_check by simp
  ultimately show ?thesis by (simp only: table_in_order_def simp_thms)
qed

lemma tables_in_order: "has_table cp \<Longrightarrow> table_in_order (codepage_chars cp)"
  by (cases cp)
    (simp_all add: has_table_def
      cp437_in_order iso8859_1_in_order cp720_in_order cp737_in_order cp775_in_order
      cp850_in_order cp852_in_order cp857_in_order cp858_in_order cp860_in_order
      cp862_in_order cp863_in_order cp866_in_order cp1250_in_order cp1251_in_order
      cp1252_in_order koi8_r_in_order koi8_u_in_order)

text \<open>So an entry that is not the glyph of a control character is the first with its code point.\<close>

lemma lower_half_nth:
  assumes "i < 128"
  shows "lower_half x ! i =
           (if i < 32 then glyphs ! i else if i < 127 then int i else x)"
proof -
  have eq: "lower_half x = glyphs @ map int [32..<127] @ [x]"
    by (simp add: lower_half_def glyphs_def upt_rec_numeral)
  have "length glyphs = 32" by (simp add: glyphs_def)
  then show ?thesis using assms by (auto simp: eq nth_append simp del: upt_rec_numeral)
qed

lemma lower_half_distinct: "distinct (lower_half 0x2302)" "distinct (lower_half 0x7F)"
  by (simp_all add: lower_half_def)

lemma filter_distinct_nth:
  "distinct (filter P ys) \<Longrightarrow> i < length ys \<Longrightarrow> k < i \<Longrightarrow> P (ys ! i) \<Longrightarrow> ys ! k \<noteq> ys ! i"
proof (induction ys arbitrary: i k)
  case (Cons y ys)
  then obtain i' where i: "i = Suc i'" "i' < length ys" by (cases i) auto
  show ?case
  proof (cases k)
    case 0
    have "ys ! i' \<in> set (filter P ys)" using Cons.prems(4) i by simp
    with 0 Cons.prems(1) i show ?thesis by (auto split: if_splits)
  next
    case (Suc k')
    with Cons i show ?thesis by (auto split: if_splits)
  qed
qed simp

lemma search_first:
  assumes "table_in_order xs" "i < 256" "i < 128 \<or> \<not> low_code (xs ! i)"
  shows "search_from 0 (xs ! i) xs = Some i"
proof -
  have len: "length xs = 256" using assms(1) by (simp add: table_in_order_def)
  obtain x where x: "x = 0x2302 \<or> x = 0x7F" "take 128 xs = lower_half x"
    using assms(1) by (auto simp: table_in_order_def)
  have low: "xs ! k = lower_half x ! k" if "k < 128" for k
    using that x(2) len by (metis nth_take)
  have "xs ! k \<noteq> xs ! i" if k: "k < i" for k
  proof (cases "i < 128")
    case True
    have "distinct (lower_half x)" using x(1) lower_half_distinct by auto
    moreover have "length (lower_half x) = 128" by (simp add: lower_half_def)
    ultimately show ?thesis using True k low by (simp add: nth_eq_iff_index_eq)
  next
    case False
    have up: "drop 128 xs ! (j - 128) = xs ! j" if "128 \<le> j" "j < 256" for j using that len by simp
    have new: "\<not> low_code (xs ! i)" using False assms(3) by simp
    moreover have "drop 128 xs ! (i - 128) \<in> set (drop 128 xs)"
      by (rule nth_mem) (use False assms(2) len in simp)
    then have "xs ! i \<in> set (drop 128 xs)" using up [of i] False assms(2) by simp
    ultimately have big: "128 \<le> xs ! i" "xs ! i \<noteq> 0x2302"
      using assms(1) by (auto simp: table_in_order_def list_all_iff)
    show ?thesis
    proof (cases "k < 128")
      case True
      have "length glyphs = 32" by (simp add: glyphs_def)
      then have "k < 32 \<Longrightarrow> glyphs ! k \<in> set glyphs" by simp
      with True low lower_half_nth [OF True, of x] x(1) new big show ?thesis
        by (auto simp: low_code_def split: if_splits)
    next
      case False
      with filter_distinct_nth [of "\<lambda>x. \<not> low_code x" "drop 128 xs" "i - 128" "k - 128"] assms(1,2) k new len
      show ?thesis by (simp add: table_in_order_def)
    qed
  qed
  with search_from_nth [of i xs 0] len assms(2) show ?thesis by simp
qed

section \<open>There and back\<close>

lemma table_length: "has_table cp \<Longrightarrow> length (codepage_chars cp) = 256"
  using tables_in_order [of cp] by (simp add: table_in_order_def)

lemma map_char_table:
  "has_table cp \<Longrightarrow> codepage_map_char e cp b = codepage_chars cp ! unat b"
  by (auto simp: has_table_def codepage_map_char_def)

lemma unmap_table:
  "has_table cp \<Longrightarrow> codepage_unmap_byte ch cp = Inr (search_from 0 ch (codepage_chars cp))"
  by (auto simp: has_table_def codepage_unmap_byte_def)

text \<open>A code point that stands in the lower half at an index of at most 32 is found there.\<close>

lemma search_low:
  assumes "table_in_order xs" "low_code x"
  shows "\<exists>k \<le> 32. search_from 0 x xs = Some k \<and> xs ! k = x"
proof -
  have glyph: "length glyphs = 32" by (simp add: glyphs_def)
  obtain y where y: "take 128 xs = lower_half y" and len: "length xs = 256"
    using assms(1) by (auto simp: table_in_order_def)
  have low: "xs ! k = lower_half y ! k" if "k < 128" for k using that y len by (metis nth_take)
  obtain j where j: "j \<le> 32" "xs ! j = x"
  proof (cases "x = 32")
    case True
    with low [of 32] lower_half_nth [of 32 y] that [of 32] show ?thesis by simp
  next
    case False
    then obtain j where "j < 32" "glyphs ! j = x"
      using assms(2) glyph by (auto simp: low_code_def in_set_conv_nth)
    with low [of j] lower_half_nth [of j y] that [of j] show ?thesis by simp
  qed
  define k where "k = (LEAST k. xs ! k = x)"
  have "xs ! k = x" "k \<le> j" "\<And>i. i < k \<Longrightarrow> xs ! i \<noteq> x"
    using j(2) unfolding k_def by (auto intro: LeastI Least_le dest: not_less_Least)
  with search_from_nth [of k xs 0] j(1) len show ?thesis by auto
qed

text \<open>
  C31. Every byte of every selectable codepage goes to a code point that goes back to a byte
  with the same code point. That is the byte itself, unless it is above 0x7F and its code point
  is also the glyph of a control character (or the space that fills an undefined entry): then
  the control character, at most 32, is what comes back.
\<close>
theorem codepage_there_and_back:
  assumes "has_table cp"
  shows "\<exists>k. codepage_unmap_byte (codepage_map_char emul cp b) cp = Inr (Some k) \<and> k < 256 \<and>
             codepage_map_char emul cp (of_nat k) = codepage_map_char emul cp b \<and>
             (if 128 \<le> unat b \<and> low_code (codepage_map_char emul cp b) then k \<le> 32 else k = unat b)"
proof -
  let ?xs = "codepage_chars cp"
  have order: "table_in_order ?xs" by (rule tables_in_order [OF assms])
  have b: "unat b < 256" using unsigned_less [of b, where 'a = nat] by simp
  have nat: "unat (of_nat k :: byte) = k" if "k < 256" for k using that by (simp add: unat_of_nat)
  show ?thesis
  proof (cases "128 \<le> unat b \<and> low_code (?xs ! unat b)")
    case False
    then show ?thesis
      using search_first [OF order b] assms b by (auto simp: unmap_table map_char_table not_le)
  next
    case True
    then obtain k where "k \<le> 32" "search_from 0 (?xs ! unat b) ?xs = Some k" "?xs ! k = ?xs ! unat b"
      using search_low [OF order] by blast
    with True assms nat [of k] show ?thesis by (simp add: unmap_table map_char_table)
  qed
qed

theorem codepage_there_and_back_witness:
  "\<exists>k. codepage_unmap_byte (codepage_map_char Q_EMUL_ANSI Q_CODEPAGE_CP437 0x9B) Q_CODEPAGE_CP437 = Inr (Some k) \<and> k < 256 \<and>
       codepage_map_char Q_EMUL_ANSI Q_CODEPAGE_CP437 (of_nat k) = codepage_map_char Q_EMUL_ANSI Q_CODEPAGE_CP437 0x9B \<and>
       (if 128 \<le> unat (0x9B :: byte) \<and> low_code (codepage_map_char Q_EMUL_ANSI Q_CODEPAGE_CP437 0x9B)
        then k \<le> 32 else k = unat (0x9B :: byte))"
  by (rule codepage_there_and_back) (simp add: has_table_def)

text \<open>A search that succeeds is right.\<close>

lemma unmap_sound:
  assumes "has_table cp" "codepage_unmap_byte ch cp = Inr (Some k)"
  shows "k < 256" "codepage_map_char emul cp (of_nat k) = ch"
proof -
  have s: "search_from 0 ch (codepage_chars cp) = Some k" using assms by (simp add: unmap_table)
  from search_from_Some [OF s] table_length [OF assms(1)] show k: "k < 256" by simp
  have "unat (of_nat k :: byte) = k" using k by (simp add: unat_of_nat)
  with search_from_Some [OF s] show "codepage_map_char emul cp (of_nat k) = ch"
    by (simp add: map_char_table [OF assms(1)])
qed

text \<open>In the graphics half of ATASCII the search masks the code point and finds a letter.\<close>

lemma atascii_heart_is_e: "codepage_unmap_byte 0x2665 Q_CODEPAGE_ATASCII = Inr (Some 0x65)"
  by (simp add: codepage_unmap_byte_def atascii_chars_def)

section \<open>Names\<close>

fun codepage_string :: "q_codepage \<Rightarrow> string" where
  "codepage_string Q_CODEPAGE_CP437 = ''CP437''"
| "codepage_string Q_CODEPAGE_ISO8859_1 = ''ISO 8859-1''"
| "codepage_string Q_CODEPAGE_DEC = ''DEC''"
| "codepage_string Q_CODEPAGE_PETSCII = ''PETSCII''"
| "codepage_string Q_CODEPAGE_ATASCII = ''ATASCII''"
| "codepage_string Q_CODEPAGE_CP720 = ''CP720''"
| "codepage_string Q_CODEPAGE_CP737 = ''CP737''"
| "codepage_string Q_CODEPAGE_CP775 = ''CP775''"
| "codepage_string Q_CODEPAGE_CP850 = ''CP850''"
| "codepage_string Q_CODEPAGE_CP852 = ''CP852''"
| "codepage_string Q_CODEPAGE_CP857 = ''CP857''"
| "codepage_string Q_CODEPAGE_CP858 = ''CP858''"
| "codepage_string Q_CODEPAGE_CP860 = ''CP860''"
| "codepage_string Q_CODEPAGE_CP862 = ''CP862''"
| "codepage_string Q_CODEPAGE_CP863 = ''CP863''"
| "codepage_string Q_CODEPAGE_CP866 = ''CP866''"
| "codepage_string Q_CODEPAGE_CP1250 = ''CP1250''"
| "codepage_string Q_CODEPAGE_CP1251 = ''CP1251''"
| "codepage_string Q_CODEPAGE_CP1252 = ''CP1252''"
| "codepage_string Q_CODEPAGE_KOI8_R = ''KOI8_R''"
| "codepage_string Q_CODEPAGE_KOI8_U = ''KOI8_U''"

text \<open>\<open>strcasecmp\<close> on ASCII names; the two names of ISO 8859-1 are compared with their case.\<close>

definition lower_char :: "char \<Rightarrow> char" where
  "lower_char c = (if 65 \<le> (of_char c :: nat) \<and> (of_char c :: nat) \<le> 90 then char_of (of_char c + 32 :: nat) else c)"

definition same_name :: "string \<Rightarrow> string \<Rightarrow> bool" where
  "same_name a b \<longleftrightarrow> map lower_char a = map lower_char b"

definition codepage_names :: "(q_codepage \<times> string) list" where
  "codepage_names =
     [(Q_CODEPAGE_DEC, ''DEC''), (Q_CODEPAGE_PETSCII, ''PETSCII''), (Q_CODEPAGE_ATASCII, ''ATASCII''),
      (Q_CODEPAGE_CP437, ''CP437''), (Q_CODEPAGE_CP720, ''CP720''), (Q_CODEPAGE_CP737, ''CP737''),
      (Q_CODEPAGE_CP775, ''CP775''), (Q_CODEPAGE_CP850, ''CP850''), (Q_CODEPAGE_CP852, ''CP852''),
      (Q_CODEPAGE_CP857, ''CP857''), (Q_CODEPAGE_CP858, ''CP858''), (Q_CODEPAGE_CP860, ''CP860''),
      (Q_CODEPAGE_CP862, ''CP862''), (Q_CODEPAGE_CP863, ''CP863''), (Q_CODEPAGE_CP866, ''CP866''),
      (Q_CODEPAGE_CP1250, ''CP1250''), (Q_CODEPAGE_CP1251, ''CP1251''), (Q_CODEPAGE_CP1252, ''CP1252''),
      (Q_CODEPAGE_CP1250, ''Windows-1250''), (Q_CODEPAGE_CP1251, ''Windows-1251''),
      (Q_CODEPAGE_CP1252, ''Windows-1252''), (Q_CODEPAGE_KOI8_R, ''KOI8_R''),
      (Q_CODEPAGE_KOI8_U, ''KOI8_U''), (Q_CODEPAGE_KOI8_R, ''KOI8-R''), (Q_CODEPAGE_KOI8_U, ''KOI8-U'')]"

definition codepage_from_string :: "string \<Rightarrow> q_codepage" where
  "codepage_from_string s =
     (if s = ''ISO 8859-1'' \<or> s = ''ISO-8859-1'' then Q_CODEPAGE_ISO8859_1
      else case find (\<lambda>(cp, n). same_name s n) codepage_names of
             Some (cp, n) \<Rightarrow> cp
           | None \<Rightarrow> Q_CODEPAGE_DEC)"

lemma codepage_name_round_trip: "codepage_from_string (codepage_string cp) = cp"
  by (cases cp) (simp_all add: codepage_from_string_def codepage_names_def same_name_def lower_char_def)

end
