(* ===== verification/Translate.thy ===== *)
theory Translate
  imports Codepage
begin

text \<open>
  \<open>translate.c\<close> without its editor: the 8-bit and the Unicode translation tables between the
  line and the screen, the mapping of a code point to a byte of the codepage, and the text
  file of the 8-bit tables. A table of bytes is a list of 256 bytes, the Unicode tables are
  lists of pairs that are searched from the front.
\<close>

section \<open>The tables\<close>

type_synonym table_8bit = "byte list"
type_synonym table_unicode = "(int \<times> int) list"

record translate_tables =
  table_8bit_input :: table_8bit
  table_8bit_output :: table_8bit
  table_unicode_input :: table_unicode
  table_unicode_output :: table_unicode

definition reset_table_8bit :: table_8bit where
  "reset_table_8bit = map of_nat [0..<256]"

definition reset_table_unicode :: table_unicode where
  "reset_table_unicode = []"

fun unicode_table_get :: "table_unicode \<Rightarrow> int \<Rightarrow> int" where
  "unicode_table_get [] key = key"
| "unicode_table_get ((k, v) # t) key = (if k = key then v else unicode_table_get t key)"

fun unicode_table_set :: "table_unicode \<Rightarrow> int \<Rightarrow> int \<Rightarrow> table_unicode" where
  "unicode_table_set [] key val = [(key, val)]"
| "unicode_table_set ((k, v) # t) key val =
     (if k = key then (k, val) # t else (k, v) # unicode_table_set t key val)"

definition translate_8bit_in :: "translate_tables \<Rightarrow> byte \<Rightarrow> byte" where
  "translate_8bit_in ts b = table_8bit_input ts ! unat b"

definition translate_8bit_out :: "translate_tables \<Rightarrow> byte \<Rightarrow> byte" where
  "translate_8bit_out ts b = table_8bit_output ts ! unat b"

definition translate_unicode_in :: "translate_tables \<Rightarrow> int \<Rightarrow> int" where
  "translate_unicode_in ts c = unicode_table_get (table_unicode_input ts) c"

definition translate_unicode_out :: "translate_tables \<Rightarrow> int \<Rightarrow> int" where
  "translate_unicode_out ts c = unicode_table_get (table_unicode_output ts) c"

lemma unicode_get_set:
  "unicode_table_get (unicode_table_set t k v) k' = (if k' = k then v else unicode_table_get t k')"
  by (induction t k v rule: unicode_table_set.induct) auto

text \<open>\<open>'?'\<close> is the byte 63. Code points below 0x80 go through the 8-bit table.\<close>

definition translate_unicode_to_8bit :: "translate_tables \<Rightarrow> int \<Rightarrow> q_codepage \<Rightarrow> fault + byte" where
  "translate_unicode_to_8bit ts c cp =
     (if c < 0x80 then Inr (table_8bit_output ts ! nat (c AND 0x7F))
      else if cp = Q_CODEPAGE_DEC then Inr 63
      else if cp = Q_CODEPAGE_PETSCII then Inr (if c < 0x100 then word_of_int (c AND 0xFF) else 63)
      else bind_res (codepage_unmap_byte (translate_unicode_out ts c) cp) (\<lambda>r.
             Inr (case r of Some k \<Rightarrow> of_nat k | None \<Rightarrow> 63)))"

text \<open>The tables at the start of the program.\<close>

definition default_tables :: translate_tables where
  "default_tables = \<lparr>table_8bit_input = reset_table_8bit, table_8bit_output = reset_table_8bit,
                     table_unicode_input = [], table_unicode_output = []\<rparr>"

section \<open>What a typed character sends\<close>

text \<open>
  With the tables of the start of the program, a character of the codepage that was received
  as some byte goes back to the line as this byte, but for the glyphs of control characters.
\<close>

lemma typed_character_goes_back:
  assumes "has_table cp" "\<not> low_code (codepage_map_char emul cp b)" "0x80 \<le> codepage_map_char emul cp b"
  shows "translate_unicode_to_8bit default_tables (codepage_map_char emul cp b) cp = Inr b"
proof -
  have "cp \<noteq> Q_CODEPAGE_DEC" "cp \<noteq> Q_CODEPAGE_PETSCII" using assms(1) by (auto simp: has_table_def)
  moreover have "unat b < 256" using unsigned_less [of b, where 'a = nat] by simp
  then have "codepage_unmap_byte (codepage_map_char emul cp b) cp = Inr (Some (unat b))"
    using search_first [OF tables_in_order [OF assms(1)], of "unat b"] assms(1,2)
    by (simp add: unmap_table map_char_table)
  ultimately show ?thesis
    using assms(3) by (simp add: translate_unicode_to_8bit_def default_tables_def translate_unicode_out_def)
qed

text \<open>
  For example the section sign and the pilcrow of ISO 8859-1, the bullet of Windows-1252: typing
  them sends the control characters NAK, DC4 and BEL, whose glyphs in the tables are the same
  code points, and not the bytes 0xA7, 0xB6 and 0x95 that the far end shows as these characters.
\<close>
lemma section_sign_sends_nak:
  "codepage_map_char emul Q_CODEPAGE_ISO8859_1 0xA7 = 0xA7 \<and>
   translate_unicode_to_8bit default_tables 0xA7 Q_CODEPAGE_ISO8859_1 = Inr 0x15 \<and>
   translate_unicode_to_8bit default_tables 0xB6 Q_CODEPAGE_ISO8859_1 = Inr 0x14 \<and>
   codepage_map_char emul Q_CODEPAGE_CP1252 0x95 = 0x2022 \<and>
   translate_unicode_to_8bit default_tables 0x2022 Q_CODEPAGE_CP1252 = Inr 0x07"
  by (simp add: codepage_map_char_def translate_unicode_to_8bit_def default_tables_def
      translate_unicode_out_def codepage_unmap_byte_def iso8859_1_chars_def cp1252_chars_def)

section \<open>The file of the 8-bit tables\<close>

definition q_isspace :: "byte \<Rightarrow> bool" where
  "q_isspace b \<longleftrightarrow> b = 32 \<or> b = 13 \<or> b = 10"

text \<open>\<open>strtoul(s, &end, 10)\<close>: the number and what \<open>end\<close> points to.\<close>

definition strtoul10 :: "cstring \<Rightarrow> u64 \<times> cstring" where
  "strtoul10 s =
     (let (neg, ds) = scan_sign s; od = takeWhile (is_digit 10) ds; n = number_of 10 od
      in if od = [] then (0, s)
         else (if 2 ^ 64 \<le> n then - 1 else if neg then - of_nat n else of_nat n,
               dropWhile (is_digit 10) ds))"

datatype scan_state = SCAN_INPUT | SCAN_INPUT_VALUES | SCAN_OUTPUT_VALUES

definition strip_end :: "cstring \<Rightarrow> cstring" where
  "strip_end s = rev (dropWhile q_isspace (rev s))"

text \<open>A line \<open>key = value\<close>, 61 is the equals sign.\<close>

definition parse_entry :: "cstring \<Rightarrow> (byte \<times> byte) option" where
  "parse_entry l =
     (let key = dropWhile q_isspace l; rest = dropWhile (\<lambda>b. b \<noteq> 61) key in
      if rest = [] then None
      else
        let val = dropWhile q_isspace (tl rest) in
        if val = [] then None
        else
          let (to, e) = strtoul10 val in
          if e \<noteq> [] then None
          else
            let (from, e) = strtoul10 (strip_end (takeWhile (\<lambda>b. b \<noteq> 61) key)) in
            if e \<noteq> [] then None else Some (ucast from, ucast to))"

type_synonym load_state = "scan_state \<times> table_8bit \<times> table_8bit"

definition load_line :: "byte list \<Rightarrow> load_state \<Rightarrow> load_state" where
  "load_line raw st =
     (let l = c_str raw; (state, tin, tout) = st in
      if l = [] \<or> hd l = 35 then st
      else
        let l = strip_end l in
        if state = SCAN_INPUT
        then (if l = ascii ''[input]'' then (SCAN_INPUT_VALUES, tin, tout) else st)
        else if l = ascii ''[output]'' then (SCAN_OUTPUT_VALUES, tin, tout)
        else case parse_entry l of
               None \<Rightarrow> st
             | Some (from, to) \<Rightarrow>
                 if state = SCAN_INPUT_VALUES then (state, tin[unat from := to], tout)
                 else (state, tin, tout[unat from := to]))"

text \<open>\<open>fgets(line, 128, file)\<close>: at most 127 bytes, up to and with a newline.\<close>

fun fgets :: "nat \<Rightarrow> byte list \<Rightarrow> byte list \<times> byte list" where
  "fgets 0 bs = ([], bs)"
| "fgets (Suc n) [] = ([], [])"
| "fgets (Suc n) (b # bs) =
     (if b = 10 then ([b], bs) else let (l, r) = fgets n bs in (b # l, r))"

lemma fgets_shorter: "length (snd (fgets n bs)) \<le> length bs"
  by (induction n bs rule: fgets.induct) (auto simp: Let_def split: prod.split)

lemma fgets_progress: "length (snd (fgets (Suc n) (b # bs))) < Suc (length bs)"
  using fgets_shorter [of n bs] by (auto simp: Let_def split: prod.split)

function load_lines :: "byte list \<Rightarrow> load_state \<Rightarrow> load_state" where
  "load_lines [] st = st"
| "load_lines (b # bs) st =
     (let (l, r) = fgets 127 (b # bs) in load_lines r (load_line l st))"
  by pat_completeness auto
termination
proof (relation "measure (\<lambda>(bs, st). length bs)", goal_cases)
  case (2 b bs st x l r)
  have "(127 :: nat) = Suc 126" by simp
  with fgets_progress [of 126 b bs] 2 show ?case by (metis case_prod_conv in_measure length_Cons snd_conv)
qed simp

definition load_translate_tables_8bit :: "byte list \<Rightarrow> table_8bit \<times> table_8bit" where
  "load_translate_tables_8bit content =
     snd (load_lines content (SCAN_INPUT, reset_table_8bit, reset_table_8bit))"

definition save_header :: "byte list" where
  "save_header =
     concat (map (\<lambda>l. ascii l @ [10])
       [''# Qodem ASCII translate tables file'',
        ''# ---------------------------------'',
        ''#'',
        ''# The default is an identity mapping.  Entries in this'',
        ''# file record overrides from that default.'',
        ''#'',
        ''# This is the list of 8-bit overrides.  Entries use'',
        ''# base 10 (0-255).  For example, to make all incoming'',
        ''# '$' bytes turn into 'o', add a line that has:'',
        ''#     36 = 111'',
        ''# ...in the [input] section.'',
        ''#''])"

definition entry_line :: "nat \<Rightarrow> nat \<Rightarrow> byte list" where
  "entry_line i v = digits_of 10 i @ ascii '' = '' @ digits_of 10 v @ [10]"

definition save_entries :: "table_8bit \<Rightarrow> byte list" where
  "save_entries t =
     concat (map (\<lambda>i. if unat (t ! i) \<noteq> i then entry_line i (unat (t ! i)) else []) [0..<256])"

definition save_translate_tables_8bit :: "table_8bit \<Rightarrow> table_8bit \<Rightarrow> byte list" where
  "save_translate_tables_8bit tin tout =
     save_header @ [10] @ ascii ''[input]'' @ [10] @ save_entries tin @
     [10] @ ascii ''[output]'' @ [10] @ save_entries tout"


section \<open>Loading what was saved\<close>

lemma fgets_line:
  "10 \<notin> set l \<Longrightarrow> length l < n \<Longrightarrow> fgets n (l @ 10 # r) = (l @ [10], r)"
proof (induction l arbitrary: n)
  case Nil
  then show ?case by (cases n) auto
next
  case (Cons b l)
  then show ?case by (cases n) auto
qed

lemma load_lines_line:
  assumes "10 \<notin> set l" "length l < 127"
  shows "load_lines (l @ 10 # r) st = load_lines r (load_line (l @ [10]) st)"
proof (cases l)
  case Nil
  with fgets_line [OF assms, of r] show ?thesis by simp
next
  case (Cons b bs)
  with fgets_line [OF assms, of r] show ?thesis by (simp del: fgets.simps)
qed

lemma load_lines_comment:
  "10 \<notin> set l \<Longrightarrow> length l < 126 \<Longrightarrow> load_lines ((35 # l) @ 10 # r) st = load_lines r st"
  by (subst load_lines_line) (auto simp: load_line_def c_str_def split: prod.split)

text \<open>The parts of an entry line.\<close>

lemma digit_neq: "is_digit 10 b \<Longrightarrow> b \<noteq> 61 \<and> b \<noteq> 0 \<and> b \<noteq> 35 \<and> b \<noteq> 10 \<and> b \<noteq> 32 \<and> b \<noteq> 13 \<and> b \<noteq> 45 \<and> b \<noteq> 43 \<and> \<not> is_space b"
  by (auto simp: is_digit_def is_space_def word_le_nat_alt)

lemma digits_digits: "b \<in> set (digits_of 10 n) \<Longrightarrow> is_digit 10 b"
  using digits_of_digits [of 10 n] by (auto simp: list_all_iff)

lemma digits_front: "\<exists>d ds. digits_of 10 n = d # ds \<and> is_digit 10 d"
  using digits_digits [of _ n] by (cases "digits_of 10 n") auto

lemma digits_back: "\<exists>d ds. digits_of 10 n = ds @ [d] \<and> is_digit 10 d"
  using digits_digits [of _ n] by (cases "digits_of 10 n" rule: rev_exhaust) auto

lemma length_digits: "n < 1000 \<Longrightarrow> length (digits_of 10 n) \<le> 3"
  by (subst digits_of.simps, simp, subst digits_of.simps, simp, subst digits_of.simps, simp)

lemma strtoul10_digits:
  assumes "n < 256"
  shows "strtoul10 (digits_of 10 n) = (of_nat n, [])"
proof -
  obtain d ds where d: "digits_of 10 n = d # ds" "is_digit 10 d" using digits_front by blast
  have sign: "scan_sign (digits_of 10 n) = (False, digits_of 10 n)"
    using d digit_neq [OF d(2)] by (simp add: scan_sign_def)
  have all: "takeWhile (is_digit 10) (digits_of 10 n) = digits_of 10 n"
    using digits_digits by (simp only: takeWhile_eq_all_conv) blast
  have none: "dropWhile (is_digit 10) (digits_of 10 n) = []"
    using digits_digits by (simp only: dropWhile_eq_Nil_conv) blast
  show ?thesis
    using assms number_of_digits_of [of 10 n] by (simp add: strtoul10_def Let_def sign all none)
qed

lemma strip_end_digits:
  "list_all q_isspace sp \<Longrightarrow> strip_end (pre @ digits_of 10 n @ sp) = pre @ digits_of 10 n"
proof -
  assume sp: "list_all q_isspace sp"
  obtain d ds where d: "digits_of 10 n = ds @ [d]" "is_digit 10 d" using digits_back by blast
  have "dropWhile q_isspace (rev sp @ rest) = dropWhile q_isspace rest" for rest
    using sp by (subst dropWhile_append2) (auto simp: list_all_iff)
  then show ?thesis using d digit_neq [OF d(2)] by (simp add: strip_end_def q_isspace_def)
qed

lemma parse_entry_line:
  assumes "i < 256" "v < 256"
  shows "parse_entry (digits_of 10 i @ ascii '' = '' @ digits_of 10 v) = Some (of_nat i, of_nat v)"
proof -
  let ?l = "digits_of 10 i @ ascii '' = '' @ digits_of 10 v"
  have eq: "ascii '' = '' = [32, 61, 32]" by (simp add: ascii_def)
  obtain d ds where d: "digits_of 10 i = d # ds" "is_digit 10 d" using digits_front by blast
  have key: "dropWhile q_isspace ?l = ?l" using d digit_neq [OF d(2)] by (simp add: q_isspace_def)
  have no: "\<forall>b \<in> set (digits_of 10 i @ [32]). b \<noteq> 61" using digits_digits digit_neq by auto
  have split: "?l = (digits_of 10 i @ [32]) @ 61 # 32 # digits_of 10 v" by (simp add: eq)
  have rest: "dropWhile (\<lambda>b. b \<noteq> 61) ?l = 61 # 32 # digits_of 10 v"
    unfolding split using no by (subst dropWhile_append2) auto
  have front: "takeWhile (\<lambda>b. b \<noteq> 61) ?l = digits_of 10 i @ [32]"
    unfolding split using no by (subst takeWhile_append2) auto
  obtain c cs where c: "digits_of 10 v = c # cs" "is_digit 10 c" using digits_front by blast
  have val: "dropWhile q_isspace (32 # digits_of 10 v) = digits_of 10 v"
    using c digit_neq [OF c(2)] by (simp add: q_isspace_def)
  have "strip_end (digits_of 10 i @ [32]) = digits_of 10 i"
    using strip_end_digits [of "[32]" "[]" i] by (simp add: q_isspace_def)
  moreover have "ucast (of_nat n :: u64) = (of_nat n :: byte)" for n by (simp add: unsigned_of_nat word_of_nat_eq_iff)
  ultimately show ?thesis
    using assms unfolding parse_entry_def Let_def key rest front list.sel val
    by (simp add: strtoul10_digits)
qed


text \<open>Reading one section of entries.\<close>

definition put_entry :: "table_8bit \<Rightarrow> nat \<Rightarrow> load_state \<Rightarrow> load_state" where
  "put_entry t i st =
     (let (state, tin, tout) = st in
      if unat (t ! i) = i then st
      else if state = SCAN_INPUT_VALUES then (state, tin[i := t ! i], tout)
      else (state, tin, tout[i := t ! i]))"

lemma load_line_entry:
  assumes "i < 256" "state \<noteq> SCAN_INPUT"
  shows "load_line (digits_of 10 i @ ascii '' = '' @ digits_of 10 (unat v) @ [10]) (state, tin, tout) =
           (if state = SCAN_INPUT_VALUES then (state, tin[i := v], tout) else (state, tin, tout[i := v]))"
proof -
  let ?l = "digits_of 10 i @ ascii '' = '' @ digits_of 10 (unat v)"
  have v: "unat v < 256" using unsigned_less [of v, where 'a = nat] by simp
  have eq: "ascii '' = '' = [32, 61, 32]" by (simp add: ascii_def)
  have "b \<noteq> 0" if "b \<in> set (?l @ [10])" for b
    using that digits_digits digit_neq by (auto simp: eq)
  then have "c_str (?l @ [10]) = ?l @ [10]"
    unfolding c_str_def by (subst takeWhile_eq_all_conv) auto
  moreover have "strip_end (?l @ [10]) = ?l"
    using strip_end_digits [of "[10]" "digits_of 10 i @ ascii '' = ''" "unat v"] by (simp add: q_isspace_def)
  moreover obtain d ds where "digits_of 10 i = d # ds" "is_digit 10 d" using digits_front by blast
  then have "hd (?l @ [10]) \<noteq> 35" "hd ?l \<noteq> 91"
    using digit_neq [of d] by (auto simp: is_digit_def word_le_nat_alt)
  moreover have "hd (ascii ''[output]'') = 91" by (simp add: ascii_def)
  then have "?l \<noteq> ascii ''[output]''" using \<open>hd ?l \<noteq> 91\<close> by metis
  moreover have "parse_entry ?l = Some (of_nat i, v)"
    using parse_entry_line [OF assms(1) v] by simp
  ultimately show ?thesis
    using assms by (simp add: load_line_def Let_def unat_of_nat)
qed

lemma load_entries:
  "set is \<subseteq> {0..<256} \<Longrightarrow> fst st \<noteq> SCAN_INPUT \<Longrightarrow>
   load_lines (concat (map (\<lambda>i. if unat (t ! i) \<noteq> i then entry_line i (unat (t ! i)) else []) is) @ r) st =
     load_lines r (foldl (\<lambda>st i. put_entry t i st) st is)"
proof (induction "is" arbitrary: st)
  case Nil
  then show ?case by simp
next
  case (Cons i "is")
  have keep: "fst (put_entry t i st) \<noteq> SCAN_INPUT"
    using Cons.prems(2) by (cases st) (auto simp: put_entry_def)
  show ?case
  proof (cases "unat (t ! i) = i")
    case True
    with Cons show ?thesis by (cases st) (simp add: put_entry_def)
  next
    case False
    let ?l = "digits_of 10 i @ ascii '' = '' @ digits_of 10 (unat (t ! i))"
    have i: "i < 256" using Cons.prems(1) by simp
    have v: "unat (t ! i) < 256" using unsigned_less [of "t ! i", where 'a = nat] by simp
    have eq: "ascii '' = '' = [32, 61, 32]" by (simp add: ascii_def)
    have "10 \<notin> set ?l" using digits_digits digit_neq by (auto simp: eq)
    moreover have "length ?l < 127"
      using length_digits [of i] length_digits [of "unat (t ! i)"] i v by (simp add: eq)
    ultimately have step: "load_lines (?l @ 10 # r') st = load_lines r' (load_line (?l @ [10]) st)" for r'
      by (rule load_lines_line)
    obtain state tin tout where st: "st = (state, tin, tout)" by (cases st)
    have "load_line (?l @ [10]) st = put_entry t i st"
      using load_line_entry [OF i, of state "t ! i" tin tout] Cons.prems(2) False
      by (simp add: st put_entry_def)
    with step Cons.IH [OF _ keep] Cons.prems(1) False show ?thesis by (simp add: entry_line_def)
  qed
qed

text \<open>The entries turn the identity into the table.\<close>

lemma put_entries:
  assumes "length a = 256"
  shows "foldl (\<lambda>st i. put_entry t i st) (SCAN_INPUT_VALUES, a, b) is =
           (SCAN_INPUT_VALUES, foldl (\<lambda>a i. if unat (t ! i) = i then a else a[i := t ! i]) a is, b)"
    and "foldl (\<lambda>st i. put_entry t i st) (SCAN_OUTPUT_VALUES, b, a) is =
           (SCAN_OUTPUT_VALUES, b, foldl (\<lambda>a i. if unat (t ! i) = i then a else a[i := t ! i]) a is)"
  by (induction "is" arbitrary: a) (auto simp: put_entry_def)

lemma fold_entries_nth:
  "j < length a \<Longrightarrow> distinct is \<Longrightarrow>
   foldl (\<lambda>a i. if unat (t ! i) = i then a else a[i := t ! i]) a is ! j =
     (if j \<in> set is \<and> unat (t ! j) \<noteq> j then t ! j else a ! j)"
proof (induction "is" arbitrary: a)
  case (Cons i "is")
  then show ?case by (cases "i = j") (auto simp: nth_list_update)
qed simp

lemma fold_entries_length:
  "length (foldl (\<lambda>a i. if unat (t ! i) = i then a else a[i := t ! i]) a is) = length a"
  by (induction "is" arbitrary: a) auto

lemma fold_entries_table:
  assumes "length t = 256"
  shows "foldl (\<lambda>a i. if unat (t ! i) = i then a else a[i := t ! i]) reset_table_8bit [0..<256] = t"
proof (rule nth_equalityI)
  fix j assume "j < length (foldl (\<lambda>a i. if unat (t ! i) = i then a else a[i := t ! i]) reset_table_8bit [0..<256])"
  then have j: "j < 256" by (simp add: fold_entries_length reset_table_8bit_def)
  have "unat (t ! j) = j \<Longrightarrow> of_nat j = t ! j" by (metis of_nat_unat ucast_id)
  with j show "foldl (\<lambda>a i. if unat (t ! i) = i then a else a[i := t ! i]) reset_table_8bit [0..<256] ! j = t ! j"
    by (subst fold_entries_nth) (auto simp: reset_table_8bit_def simp del: upt_rec_numeral)
qed (simp add: fold_entries_length reset_table_8bit_def assms)


lemma load_comments:
  "list_all (\<lambda>l. l \<noteq> [] \<and> hd l = CHR ''#'' \<and> 10 \<notin> set (ascii l) \<and> length l < 126) ls \<Longrightarrow>
   load_lines (concat (map (\<lambda>l. ascii l @ [10]) ls) @ r) st = load_lines r st"
proof (induction ls)
  case (Cons l ls)
  then obtain l' where l: "l = CHR ''#'' # l'" by (cases l) auto
  have "10 \<notin> set (ascii l')" "length (ascii l') < 126" using Cons.prems l by (auto simp: ascii_def)
  from load_lines_comment [OF this] Cons l show ?case by (simp add: ascii_def)
qed simp

lemma load_header: "load_lines (save_header @ r) st = load_lines r st"
  unfolding save_header_def by (rule load_comments) (simp add: ascii_def)

text \<open>
  C32. The file of the 8-bit translation tables: what \<open>save_translate_tables_8bit\<close> writes,
  \<open>load_translate_tables_8bit\<close> reads back as the same pair of tables.
\<close>
theorem translate_tables_round_trip:
  assumes "length tin = 256" "length tout = 256"
  shows "load_translate_tables_8bit (save_translate_tables_8bit tin tout) = (tin, tout)"
proof -
  let ?id = reset_table_8bit
  have id: "length ?id = 256" by (simp add: reset_table_8bit_def)
  have line: "load_lines (ascii ''[input]'' @ 10 # r) st = load_lines r (load_line (ascii ''[input]'' @ [10]) st)"
    "load_lines (ascii ''[output]'' @ 10 # r) st = load_lines r (load_line (ascii ''[output]'' @ [10]) st)" for r st
    by (rule load_lines_line; simp add: ascii_def)+
  have blank: "load_lines (10 # r) st = load_lines r (load_line [10] st)" for r st
    using load_lines_line [of "[]" r st] by simp
  have empty: "load_line [10] st = st" for st
    by (cases st) (auto simp: load_line_def c_str_def strip_end_def q_isspace_def parse_entry_def ascii_def)
  have input: "load_line (ascii ''[input]'' @ [10]) (SCAN_INPUT, a, b) = (SCAN_INPUT_VALUES, a, b)" for a b
    by (simp add: load_line_def c_str_def strip_end_def q_isspace_def ascii_def)
  have outp: "load_line (ascii ''[output]'' @ [10]) (SCAN_INPUT_VALUES, a, b) = (SCAN_OUTPUT_VALUES, a, b)" for a b
    by (simp add: load_line_def c_str_def strip_end_def q_isspace_def ascii_def)
  have range: "set [0..<256] \<subseteq> {0..<256 :: nat}" by (simp del: upt_rec_numeral)
  have "load_lines (save_translate_tables_8bit tin tout) (SCAN_INPUT, ?id, ?id) =
      load_lines (save_entries tin @ [10] @ ascii ''[output]'' @ [10] @ save_entries tout)
        (SCAN_INPUT_VALUES, ?id, ?id)"
    by (simp add: save_translate_tables_8bit_def load_header blank empty line input
        del: load_lines.simps)
  also have "\<dots> = load_lines ([10] @ ascii ''[output]'' @ [10] @ save_entries tout) (SCAN_INPUT_VALUES, tin, ?id)"
    unfolding save_entries_def
    by (subst load_entries [OF range]) (simp_all add: put_entries id fold_entries_table assms del: upt_rec_numeral)
  also have "\<dots> = load_lines (save_entries tout @ []) (SCAN_OUTPUT_VALUES, tin, ?id)"
    by (simp add: blank empty line outp del: load_lines.simps)
  also have "\<dots> = (SCAN_OUTPUT_VALUES, tin, tout)"
    unfolding save_entries_def
    by (subst load_entries [OF range]) (simp_all add: put_entries id fold_entries_table assms del: upt_rec_numeral)
  finally show ?thesis by (simp add: load_translate_tables_8bit_def)
qed

theorem translate_tables_round_trip_witness:
  "load_translate_tables_8bit (save_translate_tables_8bit (reset_table_8bit[36 := 111]) reset_table_8bit) =
     (reset_table_8bit[36 := 111], reset_table_8bit)"
  by (rule translate_tables_round_trip) (simp_all add: reset_table_8bit_def)

end
