(* ===== verification/Term_Line.thy ===== *)
theory Term_Line
  imports Codepage
begin

text \<open>
  The lines of the scrollback buffer (\<open>scrollback.h\<close>) and what the code does to one line: a
  line owns two arrays of \<open>Q_MAX_LINE_LENGTH\<close> cells, one with the characters and one with
  their colours, and a length up to which the cells are shown. Every write names its index
  and an index outside the array is the fault \<open>Buffer_overflow\<close>; \<open>memmove\<close> and \<open>memcpy\<close> with a
  negative or too large count are that fault, too. Characters are code points (\<open>wchar_t\<close>) and
  colours are curses attributes, 32-bit words.
\<close>

type_synonym attr = "32 word"

section \<open>Colours\<close>

text \<open>
  The curses library is a parameter: its two colour macros and its attribute bits. The entry
  \<open>Q_COLOR_CONSOLE_TEXT\<close> of the colour table of qodem stands beside them.
\<close>

record text_color =
  tc_bold :: bool
  tc_fg :: int
  tc_bg :: int

record curses =
  PAIR_NUMBER :: "attr \<Rightarrow> int"
  COLOR_PAIR :: "int \<Rightarrow> attr"
  A_BOLD :: attr
  A_DIM :: attr
  A_UNDERLINE :: attr
  A_BLINK :: attr
  A_REVERSE :: attr
  A_PROTECT :: attr
  A_COLOR :: attr
  curses_color :: "int \<Rightarrow> int"   \<comment> \<open>\<open>COLOR_BLACK\<close>, \<open>COLOR_RED\<close>, ..., \<open>COLOR_WHITE\<close>\<close>
  console_text :: text_color

definition A_NORMAL :: attr where
  "A_NORMAL = 0"

definition color_from_attr :: "curses \<Rightarrow> attr \<Rightarrow> int" where
  "color_from_attr cu a = PAIR_NUMBER cu a"

definition color_to_attr :: "curses \<Rightarrow> int \<Rightarrow> attr" where
  "color_to_attr cu color = COLOR_PAIR cu color"

definition screen_color :: "text_color \<Rightarrow> int" where
  "screen_color tc = (8 * tc_fg tc) OR tc_bg tc"

definition screen_attr :: "curses \<Rightarrow> text_color \<Rightarrow> attr" where
  "screen_attr cu tc = (if tc_bold tc then A_NORMAL OR A_BOLD cu else A_NORMAL)"

definition scrollback_full_attr :: "curses \<Rightarrow> text_color \<Rightarrow> attr" where
  "scrollback_full_attr cu tc = color_to_attr cu (screen_color tc) OR screen_attr cu tc"

section \<open>One line\<close>

definition Q_MAX_LINE_LENGTH :: nat where
  "Q_MAX_LINE_LENGTH = 256"

record scrolline =
  l_length :: int
  colors :: "attr list"
  chars :: "int list"
  dirty :: bool
  double_width :: bool
  double_height :: int
  reverse_color :: bool

text \<open>What \<open>Xmalloc\<close>, \<open>memset\<close> and the loop over the characters leave in a new line.\<close>

definition blank_line :: scrolline where
  "blank_line =
     \<lparr> l_length = 0, colors = replicate Q_MAX_LINE_LENGTH 0,
       chars = replicate Q_MAX_LINE_LENGTH 32, dirty = True, double_width = False,
       double_height = 0, reverse_color = False \<rparr>"

definition in_line :: "int \<Rightarrow> bool" where
  "in_line i \<longleftrightarrow> 0 \<le> i \<and> i < int Q_MAX_LINE_LENGTH"

definition set_color :: "int \<Rightarrow> attr \<Rightarrow> scrolline \<Rightarrow> fault + scrolline" where
  "set_color i a l =
     (if in_line i then Inr (l\<lparr>colors := (colors l)[nat i := a]\<rparr>) else Inl Buffer_overflow)"

definition put_cell :: "int \<Rightarrow> int \<Rightarrow> attr \<Rightarrow> scrolline \<Rightarrow> fault + scrolline" where
  "put_cell i c a l =
     (if in_line i
      then Inr (l\<lparr>chars := (chars l)[nat i := c], colors := (colors l)[nat i := a]\<rparr>)
      else Inl Buffer_overflow)"

definition char_at :: "scrolline \<Rightarrow> int \<Rightarrow> fault + int" where
  "char_at l i = (if in_line i then Inr (chars l ! nat i) else Inl Buffer_overflow)"

definition color_at :: "scrolline \<Rightarrow> int \<Rightarrow> fault + attr" where
  "color_at l i = (if in_line i then Inr (colors l ! nat i) else Inl Buffer_overflow)"

text \<open>The loops that write a run of cells, from index \<open>i\<close> on.\<close>

fun fill_cells :: "nat \<Rightarrow> int \<Rightarrow> int \<Rightarrow> attr \<Rightarrow> scrolline \<Rightarrow> fault + scrolline" where
  "fill_cells 0 i c a l = Inr l"
| "fill_cells (Suc k) i c a l = bind_res (put_cell i c a l) (fill_cells k (i + 1) c a)"

text \<open>
  The padding loops \<open>for (i = length; i < n; i++) { chars[i] = ' '; colors[i] = ...; length = m; }\<close>:
  the length is set by the body, so a loop without a round leaves it alone.
\<close>

definition pad_line :: "int \<Rightarrow> int \<Rightarrow> attr \<Rightarrow> scrolline \<Rightarrow> fault + scrolline" where
  "pad_line n m a l =
     (if l_length l < n
      then bind_res (fill_cells (nat (n - l_length l)) (l_length l) 32 a l)
             (\<lambda>l. Inr (l\<lparr>l_length := m\<rparr>))
      else Inr l)"

text \<open>
  \<open>memmove\<close> inside a line and \<open>memcpy\<close> between two lines, of the characters and of the colours:
  \<open>n\<close> cells from index \<open>src\<close> to index \<open>dst\<close>.
\<close>

definition in_range :: "int \<Rightarrow> int \<Rightarrow> bool" where
  "in_range i n \<longleftrightarrow> 0 \<le> n \<and> 0 \<le> i \<and> i + n \<le> int Q_MAX_LINE_LENGTH"

definition copy_cells ::
  "int \<Rightarrow> scrolline \<Rightarrow> int \<Rightarrow> int \<Rightarrow> scrolline \<Rightarrow> fault + scrolline" where
  "copy_cells dst from src n l =
     (if in_range dst n \<and> in_range src n
      then Inr (l\<lparr>chars := blit (nat dst) (slice (nat src) (nat n) (chars from)) (chars l),
                  colors := blit (nat dst) (slice (nat src) (nat n) (colors from)) (colors l)\<rparr>)
      else Inl Buffer_overflow)"

definition move_cells :: "int \<Rightarrow> int \<Rightarrow> int \<Rightarrow> scrolline \<Rightarrow> fault + scrolline" where
  "move_cells dst src n l = copy_cells dst l src n l"

section \<open>Well-formed lines\<close>

text \<open>
  Both arrays have their size and the length is at most \<open>m\<close>; no emulation that is modelled
  here makes a line double-width.
\<close>

definition line_ok :: "int \<Rightarrow> scrolline \<Rightarrow> bool" where
  "line_ok m l \<longleftrightarrow>
     length (chars l) = Q_MAX_LINE_LENGTH \<and> length (colors l) = Q_MAX_LINE_LENGTH \<and>
     0 \<le> l_length l \<and> l_length l \<le> m \<and> \<not> double_width l"

lemma line_okI [intro?]:
  "length (chars l) = Q_MAX_LINE_LENGTH \<Longrightarrow> length (colors l) = Q_MAX_LINE_LENGTH \<Longrightarrow>
   0 \<le> l_length l \<Longrightarrow> l_length l \<le> m \<Longrightarrow> \<not> double_width l \<Longrightarrow> line_ok m l"
  by (simp add: line_ok_def)

lemma line_ok_mono: "line_ok m l \<Longrightarrow> m \<le> m' \<Longrightarrow> line_ok m' l"
  by (auto simp: line_ok_def)

lemma line_ok_blank [simp]: "0 \<le> m \<Longrightarrow> line_ok m blank_line"
  by (simp add: line_ok_def blank_line_def)

lemma line_ok_updates [simp]:
  "line_ok m (l\<lparr>dirty := b\<rparr>) = line_ok m l"
  "line_ok m (l\<lparr>reverse_color := b\<rparr>) = line_ok m l"
  "line_ok m (l\<lparr>double_height := k\<rparr>) = line_ok m l"
  by (auto simp: line_ok_def)

lemma line_ok_length: "line_ok m l \<Longrightarrow> 0 \<le> n \<Longrightarrow> n \<le> m' \<Longrightarrow> line_ok m' (l\<lparr>l_length := n\<rparr>)"
  by (simp add: line_ok_def)

lemma line_ok_cells:
  "line_ok m l \<Longrightarrow> length cs = Q_MAX_LINE_LENGTH \<Longrightarrow> length ks = Q_MAX_LINE_LENGTH \<Longrightarrow>
    line_ok m (l\<lparr>chars := cs, colors := ks\<rparr>)"
  by (simp add: line_ok_def)

text \<open>Two updates of the cells of one line commute with the update of its length.\<close>

definition with_cells :: "int list \<Rightarrow> attr list \<Rightarrow> scrolline \<Rightarrow> scrolline" where
  "with_cells cs ks l = l\<lparr>chars := cs, colors := ks\<rparr>"

lemma with_cells_sel [simp]:
  "chars (with_cells cs ks l) = cs" "colors (with_cells cs ks l) = ks"
  "l_length (with_cells cs ks l) = l_length l" "dirty (with_cells cs ks l) = dirty l"
  "double_width (with_cells cs ks l) = double_width l"
  "with_cells cs' ks' (with_cells cs ks l) = with_cells cs' ks' l"
  "with_cells (chars l) (colors l) l = l"
  by (simp_all add: with_cells_def)

lemma put_cell_ok:
  "0 \<le> i \<Longrightarrow> i < 256 \<Longrightarrow>
    put_cell i c a l = Inr (with_cells ((chars l)[nat i := c]) ((colors l)[nat i := a]) l)"
  by (simp add: put_cell_def in_line_def Q_MAX_LINE_LENGTH_def with_cells_def)

lemma blit_Cons:
  "i < length xs \<Longrightarrow> blit i (x # ys) xs = blit (Suc i) ys (xs[i := x])"
  by (simp add: blit_def take_Suc_conv_app_nth)

lemma fill_cells_ok:
  assumes "0 \<le> i" "i + int k \<le> 256" "length (chars l) = 256" "length (colors l) = 256"
  shows "fill_cells k i c a l =
           Inr (with_cells (blit (nat i) (replicate k c) (chars l))
                           (blit (nat i) (replicate k a) (colors l)) l)"
  using assms
proof (induction k arbitrary: i l)
  case 0
  then show ?case by simp
next
  case (Suc k)
  have n: "nat (i + 1) = Suc (nat i)" using Suc.prems by simp
  have "nat i < 256" using Suc.prems by linarith
  with Suc.prems Suc.IH [of "i + 1" "with_cells ((chars l)[nat i := c]) ((colors l)[nat i := a]) l"]
  show ?case by (simp add: put_cell_ok n blit_Cons)
qed

lemma fill_cells_line_ok:
  assumes "line_ok m l" "0 \<le> i" "i + int k \<le> 256"
  shows "total_res (\<lambda>l'. line_ok m l' \<and> l_length l' = l_length l) (fill_cells k i c a l)"
proof -
  from assms(2,3) have "nat i + k \<le> 256" by linarith
  with assms show ?thesis
    by (subst fill_cells_ok) (auto simp: line_ok_def Q_MAX_LINE_LENGTH_def)
qed

lemma pad_line_ok:
  assumes "line_ok m l" "n \<le> 256" "n \<le> m'" "0 \<le> m'" "m' \<le> m''" "m \<le> m''"
  shows "total_res (\<lambda>l'. line_ok m'' l' \<and> l_length l' = (if l_length l < n then m' else l_length l))
           (pad_line n m' a l)"
proof (cases "l_length l < n")
  case True
  with assms fill_cells_line_ok [of m l "l_length l" "nat (n - l_length l)" 32 a]
  show ?thesis by (auto simp: pad_line_def line_ok_def elim!: total_res_mono)
next
  case False
  with assms show ?thesis by (auto simp: pad_line_def line_ok_def)
qed

lemma copy_cells_ok:
  "0 \<le> n \<Longrightarrow> 0 \<le> dst \<Longrightarrow> 0 \<le> src \<Longrightarrow> dst + n \<le> 256 \<Longrightarrow> src + n \<le> 256 \<Longrightarrow>
    copy_cells dst from src n l =
      Inr (with_cells (blit (nat dst) (slice (nat src) (nat n) (chars from)) (chars l))
                      (blit (nat dst) (slice (nat src) (nat n) (colors from)) (colors l)) l)"
  by (simp add: copy_cells_def in_range_def Q_MAX_LINE_LENGTH_def with_cells_def)

lemma copy_cells_line_ok:
  assumes "line_ok m l" "line_ok m' from" "0 \<le> n" "0 \<le> dst" "0 \<le> src" "dst + n \<le> 256"
    "src + n \<le> 256"
  shows "total_res (\<lambda>l'. line_ok m l' \<and> l_length l' = l_length l) (copy_cells dst from src n l)"
proof -
  from assms(3-7) have "nat dst + nat n \<le> 256" "nat src + nat n \<le> 256" by linarith+
  with assms show ?thesis
    by (simp add: copy_cells_ok) (simp add: line_ok_def Q_MAX_LINE_LENGTH_def)
qed

lemma with_cells_line_ok:
  "line_ok m l \<Longrightarrow> length cs = 256 \<Longrightarrow> length ks = 256 \<Longrightarrow> line_ok m (with_cells cs ks l)"
  by (simp add: line_ok_def Q_MAX_LINE_LENGTH_def)

lemma put_cell_line_ok:
  "line_ok m l \<Longrightarrow> 0 \<le> i \<Longrightarrow> i < 256 \<Longrightarrow>
    total_res (\<lambda>l'. line_ok m l' \<and> l_length l' = l_length l) (put_cell i c a l)"
  by (simp add: put_cell_ok) (simp add: line_ok_def)

end
