(* ===== verification/Term_Screen.thy ===== *)
theory Term_Screen
  imports Term_Line
begin

text \<open>
  The operations of \<open>scrollback.c\<close> that the emulations call: the scrollback buffer with the
  screen at its end, the cursor, printing, erasing, scrolling.

  The buffer is a doubly linked list in the code. Here it is the list of its lines, oldest
  first, and a pointer to a line is the line's number: the head of the list has the number
  \<open>first_no\<close> and the line \<open>p\<close> is at index \<open>p - first_no\<close>. Lines that are added at the end or
  removed from the front leave the numbers of the other lines alone. Following a pointer to a
  line that is no longer in the list is the fault \<open>Use_after_free\<close>, following the \<open>next\<close> of
  the last or the \<open>prev\<close> of the first line is \<open>Null_pointer\<close>.

  The program is in one of the states that show new lines at once (\<open>Q_STATE_CONSOLE\<close>); no
  script runs or is learned (\<open>quicklearn\<close>) and no capture file is open, so the blocks that copy what is printed to those
  are left out, and so is the bell.
\<close>

section \<open>The state\<close>

record screen =
  first_no :: int
  lines :: "scrolline list"
  buffer_no :: int            \<comment> \<open>\<open>q_scrollback_buffer\<close>\<close>
  current :: int              \<comment> \<open>\<open>q_scrollback_current\<close>\<close>
  position :: int             \<comment> \<open>\<open>q_scrollback_position\<close>\<close>
  scrollback_max :: int
  scrollback_lines :: int
  scrollback_enabled :: bool
  in_handle_resize :: bool
  WIDTH :: int
  HEIGHT :: int
  STATUS_HEIGHT :: int
  status_visible :: bool
  emulation :: q_emulation
  cursor_x :: int
  cursor_y :: int
  scroll_region_top :: int
  scroll_region_bottom :: int
  reverse_video :: bool
  insert_mode :: bool
  origin_mode :: bool
  line_wrap :: bool
  line_feed_on_cr :: bool
  display_null :: bool
  assume_80_columns :: bool
  atascii_has_wide_font :: bool
  petscii_has_wide_font :: bool
  emulation_right_margin :: int
  vt100_wrap_line_flag :: bool
  current_color :: attr
  curses_lib :: curses

definition last_no :: "screen \<Rightarrow> int" where
  "last_no s = first_no s + int (length (lines s)) - 1"

definition linked :: "screen \<Rightarrow> int \<Rightarrow> bool" where
  "linked s p \<longleftrightarrow> first_no s \<le> p \<and> p \<le> last_no s"

definition get_line :: "screen \<Rightarrow> int \<Rightarrow> fault + scrolline" where
  "get_line s p = (if linked s p then Inr (lines s ! nat (p - first_no s)) else Inl Use_after_free)"

definition put_line :: "int \<Rightarrow> scrolline \<Rightarrow> screen \<Rightarrow> screen" where
  "put_line p l s = s\<lparr>lines := (lines s)[nat (p - first_no s) := l]\<rparr>"

definition on_line :: "int \<Rightarrow> (scrolline \<Rightarrow> fault + scrolline) \<Rightarrow> screen \<Rightarrow> fault + screen" where
  "on_line p f s =
     bind_res (get_line s p) (\<lambda>l. bind_res (f l) (\<lambda>l'. Inr (put_line p l' s)))"

definition on_current :: "(scrolline \<Rightarrow> fault + scrolline) \<Rightarrow> screen \<Rightarrow> fault + screen" where
  "on_current f s = on_line (current s) f s"

definition next_line :: "screen \<Rightarrow> int \<Rightarrow> fault + int option" where
  "next_line s p =
     (if \<not> linked s p then Inl Use_after_free
      else Inr (if p = last_no s then None else Some (p + 1)))"

definition prev_line :: "screen \<Rightarrow> int \<Rightarrow> fault + int option" where
  "prev_line s p =
     (if \<not> linked s p then Inl Use_after_free
      else Inr (if p = first_no s then None else Some (p - 1)))"

definition the_line :: "int option \<Rightarrow> fault + int" where
  "the_line q = (case q of None \<Rightarrow> Inl Null_pointer | Some p \<Rightarrow> Inr p)"

definition console_attr :: "screen \<Rightarrow> attr" where
  "console_attr s = scrollback_full_attr (curses_lib s) (console_text (curses_lib s))"

text \<open>The last row of the screen, counted from 0.\<close>

definition bottom_row :: "screen \<Rightarrow> int" where
  "bottom_row s = HEIGHT s - STATUS_HEIGHT s - 1"

section \<open>Lines come and go\<close>

fun walk_up :: "nat \<Rightarrow> screen \<Rightarrow> int \<Rightarrow> fault + int \<times> bool" where
  "walk_up 0 s p = Inr (p, True)"
| "walk_up (Suc n) s p =
     bind_res (prev_line s p)
       (\<lambda>q. case q of None \<Rightarrow> Inr (p, False) | Some p' \<Rightarrow> walk_up n s p')"

definition find_top_scrollback_line :: "screen \<Rightarrow> fault + int" where
  "find_top_scrollback_line s =
     (let row = HEIGHT s - 1 - (if status_visible s then STATUS_HEIGHT s else 0) in
      if row \<le> 0 then Inl Assert_failed
      else bind_res (walk_up (nat (row + 1)) s (position s)) (\<lambda>(p, above).
             if above
             then bind_res (next_line s p) (\<lambda>q. Inr (case q of None \<Rightarrow> p | Some p' \<Rightarrow> p'))
             else Inr p))"

text \<open>A new line; \<open>insert_scrollback_line\<close> does not have the case of the DEBUG emulation.\<close>

definition plain_new_line :: "screen \<Rightarrow> scrolline" where
  "plain_new_line s =
     (if reverse_video s
      then blank_line\<lparr>reverse_color := True, l_length := WIDTH s,
                      colors := replicate Q_MAX_LINE_LENGTH (console_attr s)\<rparr>
      else blank_line)"

definition fresh_line :: "screen \<Rightarrow> scrolline" where
  "fresh_line s =
     (if emulation s = Q_EMUL_DEBUG
      then (plain_new_line s)\<lparr>colors :=
              replicate Q_MAX_LINE_LENGTH (A_REVERSE (curses_lib s) OR console_attr s)\<rparr>
      else plain_new_line s)"

definition must_roll :: "screen \<Rightarrow> bool" where
  "must_roll s \<longleftrightarrow>
     (0 < scrollback_max s \<and> scrollback_max s \<le> scrollback_lines s) \<or>
     (\<not> scrollback_enabled s \<and> \<not> in_handle_resize s \<and> bottom_row s < scrollback_lines s)"

text \<open>
  The two ways to drop a line when one was added. The first unlinks and frees the line
  \<open>q_scrollback_buffer\<close>, with all that is before it. The second frees the top line of the
  screen but leaves \<open>q_scrollback_buffer\<close> as it is, even when it points to that line: then
  its number is below \<open>first_no\<close>. The lines above the freed one get the next higher number.
  When the freed line is the line of the cursor the fault is raised at once.
\<close>

definition drop_buffer_line :: "screen \<Rightarrow> fault + screen" where
  "drop_buffer_line s =
     bind_res (next_line s (buffer_no s)) (\<lambda>q. bind_res (the_line q) (\<lambda>p.
       Inr (s\<lparr>lines := drop (nat (p - first_no s)) (lines s), first_no := p, buffer_no := p\<rparr>)))"

definition drop_top_line :: "int option \<Rightarrow> screen \<Rightarrow> fault + screen" where
  "drop_top_line top_line s =
     bind_res (the_line top_line) (\<lambda>t.
     bind_res (next_line s t) (\<lambda>q.
     bind_res (the_line q) (\<lambda>_.
       if current s = t then Inl Use_after_free
       else Inr (s\<lparr>lines := take (nat (t - first_no s)) (lines s) @ drop (nat (t - first_no s) + 1) (lines s),
                   first_no := first_no s + 1,
                   buffer_no := (if buffer_no s < t then buffer_no s + 1 else buffer_no s),
                   current := (if current s < t then current s + 1 else current s)\<rparr>))))"

definition new_scrollback_line :: "screen \<Rightarrow> fault + screen" where
  "new_scrollback_line s =
     bind_res
       (if lines s = []
        then Inr (None, s\<lparr>lines := [fresh_line s], buffer_no := first_no s,
                          position := first_no s, current := first_no s\<rparr>)
        else bind_res (find_top_scrollback_line s) (\<lambda>t.
               Inr (Some t, s\<lparr>lines := lines s @ [fresh_line s], position := last_no s + 1\<rparr>)))
       (\<lambda>(t, s).
          if must_roll s
          then if scrollback_enabled s then drop_buffer_line s else drop_top_line t s
          else Inr (s\<lparr>scrollback_lines := scrollback_lines s + 1\<rparr>))"

text \<open>
  \<open>insert_scrollback_line\<close> puts a line before another one: the lines above move one number
  down. In these states it also moves the view one line up. Its callers pass the first line of
  the list only: the \<open>next\<close> of a line before it would not be set.
\<close>

definition insert_scrollback_line :: "int \<Rightarrow> screen \<Rightarrow> fault + screen" where
  "insert_scrollback_line p s =
     (if \<not> linked s p then Inl Use_after_free
      else
        let i = nat (p - first_no s);
            s = s\<lparr>lines := take i (lines s) @ plain_new_line s # drop i (lines s),
                  first_no := first_no s - 1,
                  buffer_no := (if buffer_no s < p then buffer_no s - 1 else buffer_no s),
                  current := (if current s < p then current s - 1 else current s),
                  position := position s - 1\<rparr>
        in if must_roll s
           then let l = last_no s; s = s\<lparr>lines := butlast (lines s)\<rparr> in
                if lines s = [] then Inl Null_pointer
                else Inr (if position s = l then s\<lparr>position := l - 1\<rparr> else s)
           else Inr (s\<lparr>scrollback_lines := scrollback_lines s + 1\<rparr>))"

text \<open>\<open>if (p->next == NULL) new_scrollback_line(); p = p->next;\<close>\<close>

definition step_down :: "int \<Rightarrow> screen \<Rightarrow> fault + int \<times> screen" where
  "step_down p s =
     bind_res (next_line s p) (\<lambda>q.
     bind_res (if q = None then new_scrollback_line s else Inr s) (\<lambda>s.
     bind_res (next_line s p) (\<lambda>q.
     bind_res (the_line q) (\<lambda>p'. Inr (p', s)))))"

fun walk_down :: "nat \<Rightarrow> int \<Rightarrow> screen \<Rightarrow> fault + int \<times> screen" where
  "walk_down 0 p s = Inr (p, s)"
| "walk_down (Suc n) p s = bind_res (step_down p s) (\<lambda>(p, s). walk_down n p s)"

section \<open>Erasing\<close>

text \<open>The colour of an erased cell: the VT100 family forgets it, the others keep the background.\<close>

definition erase_attr :: "screen \<Rightarrow> attr" where
  "erase_attr s =
     (if emulation s \<in> {Q_EMUL_VT100, Q_EMUL_VT102, Q_EMUL_VT220} then console_attr s
      else color_to_attr (curses_lib s) (color_from_attr (curses_lib s) (current_color s)))"

fun erase_cells ::
  "nat \<Rightarrow> int \<Rightarrow> int \<Rightarrow> attr \<Rightarrow> bool \<Rightarrow> attr \<Rightarrow> scrolline \<Rightarrow> fault + scrolline" where
  "erase_cells 0 i c a honor prot l = Inr l"
| "erase_cells (Suc k) i c a honor prot l =
     bind_res (color_at l i) (\<lambda>old.
     bind_res (if \<not> honor \<or> (old AND prot) = 0 then put_cell i c a l else Inr l)
       (erase_cells k (i + 1) c a honor prot))"

definition fill_row :: "screen \<Rightarrow> int \<Rightarrow> int \<Rightarrow> int \<Rightarrow> bool \<Rightarrow> scrolline \<Rightarrow> fault + scrolline" where
  "fill_row s start end_col c honor l =
     (let l = l\<lparr>dirty := True\<rparr> in
      bind_res (pad_line start start (console_attr s) l) (\<lambda>l.
      bind_res (fill_cells (nat (start - l_length l)) (l_length l) c (erase_attr s) l) (\<lambda>l.
      bind_res (erase_cells (nat (end_col - start + 1)) start c (erase_attr s) honor
                  (A_PROTECT (curses_lib s)) l) (\<lambda>l.
      let l = (if l_length l < end_col then l\<lparr>l_length := end_col + 1\<rparr> else l)
      in Inr (if WIDTH s < l_length l then l\<lparr>l_length := WIDTH s\<rparr> else l)))))"

definition fill_line_with_character :: "int \<Rightarrow> int \<Rightarrow> int \<Rightarrow> bool \<Rightarrow> screen \<Rightarrow> fault + screen" where
  "fill_line_with_character start end_col c honor s =
     (if end_col < start then Inr s else on_current (fill_row s start end_col c honor) s)"

definition erase_line :: "int \<Rightarrow> int \<Rightarrow> bool \<Rightarrow> screen \<Rightarrow> fault + screen" where
  "erase_line start end_col honor s = fill_line_with_character start end_col 32 honor s"

text \<open>
  The loop over the rows. The line after the last row is not looked at: it may be \<open>NULL\<close>.
\<close>

fun erase_rows :: "nat \<Rightarrow> int \<Rightarrow> int \<Rightarrow> int \<Rightarrow> bool \<Rightarrow> screen \<Rightarrow> fault + screen" where
  "erase_rows 0 p left right honor s = Inr s"
| "erase_rows (Suc k) p left right honor s =
     bind_res (erase_line left right honor (s\<lparr>current := p\<rparr>)) (\<lambda>s.
       if k = 0 then Inr s
       else bind_res (step_down p s) (\<lambda>(p, s). erase_rows k p left right honor s))"

definition erase_screen :: "int \<Rightarrow> int \<Rightarrow> int \<Rightarrow> int \<Rightarrow> bool \<Rightarrow> screen \<Rightarrow> fault + screen" where
  "erase_screen start_row start_col end_row end_col honor s =
     (if start_row < 0 \<or> start_col < 0 \<or> end_row < 0 \<or> end_col < 0 \<or> end_row < start_row \<or>
         end_col < start_col
      then Inr s
      else
        let original = current s in
        bind_res (find_top_scrollback_line s) (\<lambda>p.
        bind_res (walk_down (nat start_row) p s) (\<lambda>(p, s).
        bind_res (erase_rows (nat (end_row - start_row + 1)) p start_col end_col honor s) (\<lambda>s.
          Inr (s\<lparr>current := original\<rparr>)))))"

section \<open>Scrolling\<close>

text \<open>One row of a scroll: pad the target when \<open>pad\<close> says so, copy the cells and the flags.\<close>

definition scroll_row :: "bool \<Rightarrow> int \<Rightarrow> int \<Rightarrow> attr \<Rightarrow> scrolline \<Rightarrow> scrolline \<Rightarrow> fault + scrolline" where
  "scroll_row pad left right a from l =
     bind_res (if pad then pad_line right right a l else Inr l) (\<lambda>l.
     bind_res (copy_cells left from left (right - left) l) (\<lambda>l.
       Inr (l\<lparr>l_length := l_length from, double_width := double_width from,
              double_height := double_height from, reverse_color := reverse_color from,
              dirty := True\<rparr>)))"

fun scroll_rows_up :: "nat \<Rightarrow> int \<Rightarrow> int \<Rightarrow> int \<Rightarrow> int \<Rightarrow> screen \<Rightarrow> fault + screen" where
  "scroll_rows_up 0 left right to from s = Inr s"
| "scroll_rows_up (Suc k) left right to from s =
     bind_res (get_line s from) (\<lambda>f.
     bind_res (on_line to (\<lambda>l.
        scroll_row (l_length l < l_length f) left right (console_attr s) f l) s) (\<lambda>s.
     bind_res (next_line s to) (\<lambda>to'.
     bind_res (next_line s from) (\<lambda>from'.
       case from' of
         None \<Rightarrow> Inr s
       | Some from' \<Rightarrow>
           bind_res (the_line to') (\<lambda>to'. scroll_rows_up k left right to' from' s)))))"

definition rectangle_scroll_up :: "int \<Rightarrow> int \<Rightarrow> int \<Rightarrow> int \<Rightarrow> int \<Rightarrow> screen \<Rightarrow> fault + screen" where
  "rectangle_scroll_up top_row left bottom right count s =
     (if bottom \<le> top_row \<or> right \<le> left then Inr s
      else if bottom + 1 - top_row \<le> count then erase_screen top_row left bottom (right - 1) False s
      else
        let remaining = bottom + 1 - top_row - count in
        bind_res (find_top_scrollback_line s) (\<lambda>p.
        bind_res (walk_down (nat top_row) p s) (\<lambda>(to, s).
        bind_res (walk_down (nat count) to s) (\<lambda>(from, s).
        bind_res (scroll_rows_up (nat remaining) left right to from s) (\<lambda>s.
          erase_screen (top_row + remaining) left bottom (right - 1) False s)))))"

definition scrolling_region_scroll_up :: "int \<Rightarrow> int \<Rightarrow> int \<Rightarrow> screen \<Rightarrow> fault + screen" where
  "scrolling_region_scroll_up region_top region_bottom count s =
     rectangle_scroll_up region_top 0 region_bottom (int Q_MAX_LINE_LENGTH) count s"

definition scroll_up :: "int \<Rightarrow> screen \<Rightarrow> fault + screen" where
  "scroll_up count s = scrolling_region_scroll_up 0 (bottom_row s) count s"

text \<open>
  Scrolling down walks up from the bottom row, and puts a blank line in front of the buffer
  when it runs out of lines. The last \<open>prev\<close> of the copy loop is not used and may be \<open>NULL\<close>.
\<close>

fun walk_up_inserting :: "nat \<Rightarrow> int \<Rightarrow> screen \<Rightarrow> fault + int \<times> screen" where
  "walk_up_inserting 0 p s = Inr (p, s)"
| "walk_up_inserting (Suc n) p s =
     bind_res (prev_line s p) (\<lambda>q.
     bind_res (if q = None then insert_scrollback_line p s else Inr s) (\<lambda>s.
     bind_res (prev_line s p) (\<lambda>q.
     bind_res (the_line q) (\<lambda>p'. walk_up_inserting n p' s))))"

fun scroll_rows_down :: "nat \<Rightarrow> int \<Rightarrow> int \<Rightarrow> int \<Rightarrow> int \<Rightarrow> screen \<Rightarrow> fault + screen" where
  "scroll_rows_down 0 left right to from s = Inr s"
| "scroll_rows_down (Suc k) left right to from s =
     bind_res (get_line s from) (\<lambda>f.
     bind_res (on_line to (\<lambda>l. scroll_row (l_length l < left) left right (console_attr s) f l) s) (\<lambda>s.
     bind_res (prev_line s to) (\<lambda>to'.
     bind_res (prev_line s from) (\<lambda>from'.
       if k = 0 then Inr s
       else bind_res (the_line to') (\<lambda>to'. bind_res (the_line from') (\<lambda>from'.
              scroll_rows_down k left right to' from' s))))))"

definition rectangle_scroll_down :: "int \<Rightarrow> int \<Rightarrow> int \<Rightarrow> int \<Rightarrow> int \<Rightarrow> screen \<Rightarrow> fault + screen" where
  "rectangle_scroll_down top_row left bottom right count s =
     (if bottom \<le> top_row \<or> right \<le> left then Inr s
      else if bottom + 1 - top_row \<le> count then erase_screen top_row left bottom (right - 1) False s
      else
        let remaining = bottom + 1 - top_row - count in
        bind_res (find_top_scrollback_line s) (\<lambda>p.
        bind_res (walk_down (nat bottom) p s) (\<lambda>(to, s).
        bind_res (walk_up_inserting (nat count) to s) (\<lambda>(from, s).
        bind_res (scroll_rows_down (nat remaining) left right to from s) (\<lambda>s.
          erase_screen top_row left (top_row + count - 1) (right - 1) False s)))))"

definition scrolling_region_scroll_down :: "int \<Rightarrow> int \<Rightarrow> int \<Rightarrow> screen \<Rightarrow> fault + screen" where
  "scrolling_region_scroll_down region_top region_bottom count s =
     rectangle_scroll_down region_top 0 region_bottom (int Q_MAX_LINE_LENGTH) count s"

definition scroll_down :: "int \<Rightarrow> screen \<Rightarrow> fault + screen" where
  "scroll_down count s = scrolling_region_scroll_down 0 (bottom_row s) count s"

section \<open>The cursor\<close>

definition clear_wrap_flag :: "int \<Rightarrow> screen \<Rightarrow> screen" where
  "clear_wrap_flag count s = (if 0 < count then s\<lparr>vt100_wrap_line_flag := False\<rparr> else s)"

definition cursor_up_once :: "bool \<Rightarrow> screen \<Rightarrow> fault + screen ctl" where
  "cursor_up_once honor s =
     (if honor \<and> cursor_y s < scroll_region_top s then Inr (Return s)
      else if (if honor then scroll_region_top s else 0) < cursor_y s
      then bind_res (prev_line s (current s)) (\<lambda>q. bind_res (the_line q) (\<lambda>p.
             Inr (Next (s\<lparr>cursor_y := cursor_y s - 1, current := p\<rparr>))))
      else Inr (Next s))"

definition cursor_up :: "int \<Rightarrow> bool \<Rightarrow> screen \<Rightarrow> fault + screen" where
  "cursor_up count honor s =
     finish (repeat_ctl (nat count) (cursor_up_once honor) (clear_wrap_flag count s))"

fun pad_colors :: "nat \<Rightarrow> attr \<Rightarrow> scrolline \<Rightarrow> fault + scrolline" where
  "pad_colors 0 a l = Inr l"
| "pad_colors (Suc k) a l =
     bind_res (set_color (l_length l) a l) (\<lambda>l. pad_colors k a (l\<lparr>l_length := l_length l + 1\<rparr>))"

definition cursor_down_once :: "bool \<Rightarrow> screen \<Rightarrow> fault + screen ctl" where
  "cursor_down_once honor s =
     (if honor \<and> scroll_region_bottom s < cursor_y s then Inr (Return s)
      else if cursor_y s < (if honor then scroll_region_bottom s else bottom_row s)
      then
        bind_res (next_line s (current s)) (\<lambda>q.
        bind_res (step_down (current s) (s\<lparr>cursor_y := cursor_y s + 1\<rparr>)) (\<lambda>(p, s).
        let s = s\<lparr>current := p\<rparr> in
        if q = None
        then bind_res (on_current (\<lambda>l.
               pad_colors (nat (cursor_x s - l_length l)) (console_attr s) l) s) (\<lambda>s. Inr (Next s))
        else Inr (Next s)))
      else Inr (Next s))"

definition cursor_down :: "int \<Rightarrow> bool \<Rightarrow> screen \<Rightarrow> fault + screen" where
  "cursor_down count honor s =
     finish (repeat_ctl (nat count) (cursor_down_once honor) (clear_wrap_flag count s))"

definition outside_region :: "screen \<Rightarrow> bool" where
  "outside_region s \<longleftrightarrow> cursor_y s < scroll_region_top s \<or> scroll_region_bottom s < cursor_y s"

definition cursor_left_once :: "bool \<Rightarrow> screen \<Rightarrow> fault + screen ctl" where
  "cursor_left_once honor s =
     (if honor \<and> outside_region s then Inr (Return s)
      else Inr (Next (if 0 < cursor_x s then s\<lparr>cursor_x := cursor_x s - 1\<rparr> else s)))"

definition cursor_left :: "int \<Rightarrow> bool \<Rightarrow> screen \<Rightarrow> fault + screen" where
  "cursor_left count honor s =
     finish (repeat_ctl (nat count) (cursor_left_once honor) (clear_wrap_flag count s))"

definition halve_margin :: "bool \<Rightarrow> int \<Rightarrow> int" where
  "halve_margin wide margin = (if wide then c_quot (margin + 1) 2 - 1 else margin)"

definition cursor_margin :: "screen \<Rightarrow> fault + int" where
  "cursor_margin s =
     bind_res (get_line s (current s)) (\<lambda>l.
       Inr (halve_margin (double_width l)
              (if 0 < emulation_right_margin s then emulation_right_margin s else WIDTH s - 1)))"

definition push_space :: "attr \<Rightarrow> scrolline \<Rightarrow> fault + scrolline" where
  "push_space a l =
     bind_res (put_cell (l_length l) 32 a l) (\<lambda>l. Inr (l\<lparr>l_length := l_length l + 1\<rparr>))"

definition cursor_right_once :: "bool \<Rightarrow> int \<Rightarrow> screen \<Rightarrow> fault + screen ctl" where
  "cursor_right_once honor margin s =
     (if honor \<and> outside_region s then Inr (Return s)
      else if cursor_x s < margin
      then bind_res (on_current (\<lambda>l.
             if l_length l \<le> cursor_x s then push_space (current_color s) l else Inr l) s) (\<lambda>s.
           Inr (Next (s\<lparr>cursor_x := cursor_x s + 1\<rparr>)))
      else Inr (Next s))"

definition cursor_right :: "int \<Rightarrow> bool \<Rightarrow> screen \<Rightarrow> fault + screen" where
  "cursor_right count honor s =
     (let s = clear_wrap_flag count s in
      bind_res (cursor_margin s) (\<lambda>margin.
        finish (repeat_ctl (nat count) (cursor_right_once honor margin) s)))"

definition cursor_position :: "int \<Rightarrow> int \<Rightarrow> screen \<Rightarrow> fault + screen" where
  "cursor_position row col s =
     (if col < 0 \<or> row < 0 then Inl Assert_failed
      else
        bind_res (cursor_margin s) (\<lambda>margin.
        let x = (if WIDTH s - 1 < col then WIDTH s - 1 else col);
            x = (if 0 < emulation_right_margin s \<and> emulation_right_margin s < x then margin else x);
            s = s\<lparr>cursor_x := x\<rparr>;
            row = (if origin_mode s then row + scroll_region_top s else row)
        in bind_res (if cursor_y s < row then cursor_down (row - cursor_y s) False s
                     else if row < cursor_y s then cursor_up (cursor_y s - row) False s
                     else Inr s) (\<lambda>s.
             Inr (s\<lparr>vt100_wrap_line_flag := False\<rparr>))))"

fun mark_dirty :: "nat \<Rightarrow> int option \<Rightarrow> screen \<Rightarrow> fault + screen" where
  "mark_dirty 0 p s = Inr s"
| "mark_dirty (Suc n) None s = mark_dirty n None s"
| "mark_dirty (Suc n) (Some p) s =
     bind_res (on_line p (\<lambda>l. Inr (l\<lparr>dirty := True\<rparr>)) s) (\<lambda>s.
     bind_res (prev_line s p) (\<lambda>q. mark_dirty n q s))"

definition cursor_linefeed :: "bool \<Rightarrow> screen \<Rightarrow> fault + screen" where
  "cursor_linefeed new_line_mode s =
     bind_res
       (if cursor_y s < scroll_region_bottom s
        then bind_res (step_down (current s) (s\<lparr>cursor_y := cursor_y s + 1\<rparr>)) (\<lambda>(p, s).
               Inr (s\<lparr>current := p\<rparr>))
        else if scroll_region_bottom s = bottom_row s \<and> scroll_region_top s = 0
        then
          bind_res (step_down (current s) s) (\<lambda>(p, s).
          bind_res (on_line p (\<lambda>l. Inr (l\<lparr>l_length :=
              (if reverse_video s then WIDTH s else cursor_x s)\<rparr>)) (s\<lparr>current := p\<rparr>)) (\<lambda>s.
            mark_dirty (nat (bottom_row s)) (Some (position s)) s))
        else scrolling_region_scroll_up (scroll_region_top s) (scroll_region_bottom s) 1 s)
       (\<lambda>s. let s = (if new_line_mode then s\<lparr>cursor_x := 0\<rparr> else s)
            in Inr (s\<lparr>vt100_wrap_line_flag := False\<rparr>))"

definition cursor_carriage_return :: "screen \<Rightarrow> fault + screen" where
  "cursor_carriage_return s =
     (let s = s\<lparr>cursor_x := 0\<rparr> in
      bind_res (if line_feed_on_cr s then cursor_linefeed False s else Inr s) (\<lambda>s.
        Inr (s\<lparr>vt100_wrap_line_flag := False\<rparr>)))"

definition cursor_formfeed :: "screen \<Rightarrow> fault + screen" where
  "cursor_formfeed s =
     bind_res (repeat_res (nat (2 * bottom_row s - cursor_y s + 1)) (cursor_linefeed False) s) (\<lambda>s.
     bind_res (erase_screen 0 0 (bottom_row s) (WIDTH s - 1) False s) (\<lambda>s.
       cursor_position 0 0 s))"

section \<open>Printing\<close>

definition wrap_current_line :: "screen \<Rightarrow> fault + screen" where
  "wrap_current_line s =
     bind_res (step_down (current s) s) (\<lambda>(p, s).
       let s = s\<lparr>current := p\<rparr>;
           s = (if cursor_y s < bottom_row s then s\<lparr>cursor_y := cursor_y s + 1\<rparr> else s)
       in Inr (s\<lparr>cursor_x := 0\<rparr>))"

definition print_margin :: "screen \<Rightarrow> int" where
  "print_margin s =
     (case emulation s of
        Q_EMUL_ANSI \<Rightarrow> if assume_80_columns s then 79 else WIDTH s - 1
      | Q_EMUL_AVATAR \<Rightarrow> if assume_80_columns s then 79 else WIDTH s - 1
      | Q_EMUL_TTY \<Rightarrow> if assume_80_columns s then 79 else WIDTH s - 1
      | Q_EMUL_ATASCII \<Rightarrow> if atascii_has_wide_font s then 39 else 79
      | Q_EMUL_PETSCII \<Rightarrow> if petscii_has_wide_font s then 39 else 79
      | _ \<Rightarrow> if 0 < emulation_right_margin s then emulation_right_margin s else WIDTH s - 1)"

definition vt100_like :: "q_emulation \<Rightarrow> bool" where
  "vt100_like e \<longleftrightarrow>
     e \<in> {Q_EMUL_VT100, Q_EMUL_VT102, Q_EMUL_VT220, Q_EMUL_LINUX, Q_EMUL_LINUX_UTF8,
          Q_EMUL_XTERM, Q_EMUL_XTERM_UTF8}"

text \<open>
  The line wrapping conditions: whether the line wraps after the character was printed, and
  the screen, which the VT100 family has already wrapped when this is the second character in
  the right margin.
\<close>

definition before_print :: "int \<Rightarrow> screen \<Rightarrow> fault + bool \<times> screen" where
  "before_print margin s =
     (if cursor_x s = margin then
        if vt100_like (emulation s) then
          if line_wrap s then
            if \<not> vt100_wrap_line_flag s then Inr (False, s\<lparr>vt100_wrap_line_flag := True\<rparr>)
            else bind_res (wrap_current_line (s\<lparr>vt100_wrap_line_flag := False\<rparr>)) (\<lambda>s.
                   Inr (False, s))
          else Inr (False, s)
        else Inr (line_wrap s, s)
      else if cursor_x s \<le> margin then Inr (False, s\<lparr>vt100_wrap_line_flag := False\<rparr>)
      else Inr (False, s))"

definition store_char :: "int \<Rightarrow> screen \<Rightarrow> scrolline \<Rightarrow> fault + scrolline" where
  "store_char c s l =
     (let x = cursor_x s; a = current_color s in
      if x < l_length l then
        if insert_mode s then
          bind_res (move_cells (x + 1) x (int Q_MAX_LINE_LENGTH - x - 1) l) (\<lambda>l.
          bind_res (put_cell x c a l) (\<lambda>l.
            Inr (if l_length l < int Q_MAX_LINE_LENGTH
                 then l\<lparr>l_length := l_length l + 1\<rparr> else l)))
        else put_cell x c a l
      else bind_res (put_cell (l_length l) c a l) (\<lambda>l. Inr (l\<lparr>l_length := l_length l + 1\<rparr>)))"

definition after_print :: "int \<Rightarrow> screen \<Rightarrow> screen" where
  "after_print margin s =
     (if vt100_wrap_line_flag s then s
      else if margin < cursor_x s + 1 then s
      else s\<lparr>cursor_x := cursor_x s + 1\<rparr>)"

definition print_glyph :: "int \<Rightarrow> screen \<Rightarrow> fault + screen" where
  "print_glyph c s =
     bind_res (on_current (\<lambda>l. Inr (l\<lparr>dirty := True\<rparr>)) s) (\<lambda>s.
     bind_res (get_line s (current s)) (\<lambda>l.
     let margin = halve_margin (double_width l) (print_margin s) in
     bind_res (before_print margin s) (\<lambda>(wrap, s).
     bind_res (on_current (store_char c s) s) (\<lambda>s.
     let s = after_print margin s in
     if wrap then wrap_current_line s else Inr s))))"

definition print_character :: "int \<Rightarrow> screen \<Rightarrow> fault + screen" where
  "print_character c s =
     bind_res (on_current (pad_line (cursor_x s) (cursor_x s) (console_attr s)) s) (\<lambda>s.
       if c = 7 then Inr s
       else if c = 0 then if display_null s then print_glyph 32 s else Inr s
       else print_glyph c s)"

section \<open>Editing a line\<close>

definition delete_once :: "int \<Rightarrow> scrolline \<Rightarrow> fault + scrolline" where
  "delete_once x l =
     bind_res (move_cells x (x + 1) (int Q_MAX_LINE_LENGTH - x - 1) l) (\<lambda>l.
       Inr (if x < l_length l then l\<lparr>l_length := l_length l - 1\<rparr> else l))"

definition delete_character :: "int \<Rightarrow> screen \<Rightarrow> fault + screen" where
  "delete_character count s =
     on_current (\<lambda>l. bind_res (repeat_res (nat count) (delete_once (cursor_x s)) l)
                       (\<lambda>l. Inr (l\<lparr>dirty := True\<rparr>))) s"

definition blank_once :: "int \<Rightarrow> attr \<Rightarrow> scrolline \<Rightarrow> fault + scrolline" where
  "blank_once x a l =
     bind_res (put_cell x 32 a l) (\<lambda>l.
       Inr (if l_length l < int Q_MAX_LINE_LENGTH then l\<lparr>l_length := l_length l + 1\<rparr> else l))"

definition insert_blanks :: "int \<Rightarrow> screen \<Rightarrow> fault + screen" where
  "insert_blanks count s =
     (let x = cursor_x s in
      on_current (\<lambda>l.
        bind_res (move_cells (x + count) x (int Q_MAX_LINE_LENGTH - x - count) l) (\<lambda>l.
        bind_res (repeat_res (nat count) (blank_once x (current_color s)) l) (\<lambda>l.
          Inr (l\<lparr>dirty := True\<rparr>)))) s)"

section \<open>Width, height and colours of lines\<close>

definition invert_line :: "screen \<Rightarrow> scrolline \<Rightarrow> fault + scrolline" where
  "invert_line s l =
     (let l = l\<lparr>dirty := True, reverse_color := \<not> reverse_color l\<rparr> in
      if l_length l < WIDTH s then fill_row s (l_length l) (WIDTH s - 1) 32 False l else Inr l)"

fun invert_rows :: "nat \<Rightarrow> int \<Rightarrow> screen \<Rightarrow> fault + screen" where
  "invert_rows 0 p s = Inr s"
| "invert_rows (Suc k) p s =
     bind_res (on_current (invert_line s) (s\<lparr>current := p\<rparr>)) (\<lambda>s.
       if k = 0 then Inr s else bind_res (step_down p s) (\<lambda>(p, s). invert_rows k p s))"

definition invert_scrollback_colors :: "screen \<Rightarrow> fault + screen" where
  "invert_scrollback_colors s =
     (let original = current s in
      bind_res (find_top_scrollback_line s) (\<lambda>p.
      bind_res (invert_rows (nat (bottom_row s + 1)) p s) (\<lambda>s.
        Inr (s\<lparr>current := original\<rparr>))))"

definition set_double_width :: "bool \<Rightarrow> screen \<Rightarrow> fault + screen" where
  "set_double_width wide s = on_current (\<lambda>l. Inr (l\<lparr>double_width := wide, double_height := 0\<rparr>)) s"

definition set_double_height :: "int \<Rightarrow> screen \<Rightarrow> fault + screen" where
  "set_double_height h s = on_current (\<lambda>l. Inr (l\<lparr>double_width := True, double_height := h\<rparr>)) s"

fun single_rows :: "nat \<Rightarrow> int \<Rightarrow> screen \<Rightarrow> fault + screen" where
  "single_rows 0 p s = Inr s"
| "single_rows (Suc k) p s =
     bind_res (set_double_width False (s\<lparr>current := p\<rparr>)) (\<lambda>s.
       if k = 0 then Inr s else bind_res (step_down p s) (\<lambda>(p, s). single_rows k p s))"

definition set_single_width :: "int \<Rightarrow> int \<Rightarrow> screen \<Rightarrow> fault + screen" where
  "set_single_width start_row end_row s =
     (if start_row < 0 \<or> end_row < 0 \<or> end_row < start_row then Inr s
      else
        let original = current s in
        bind_res (find_top_scrollback_line s) (\<lambda>p.
        bind_res (walk_down (nat start_row) p s) (\<lambda>(p, s).
        bind_res (single_rows (nat (end_row - start_row + 1)) p s) (\<lambda>s.
          Inr (s\<lparr>current := original\<rparr>)))))"

end
