(* ===== verification/Term_Invariant.thy ===== *)
theory Term_Invariant
  imports Term_Screen
begin

text \<open>
  The invariant of the screen. \<open>frame_ok\<close> holds while an operation runs: the screen has \<open>h\<close>
  rows of \<open>w\<close> columns, every line of the buffer is well-formed with a length of at most \<open>m\<close>,
  the counters fit the list, the cursor and the scrolling region are on the screen, and the
  option to print in the first 80 columns only is off.
  \<open>screen_ok\<close> holds between operations: in addition, the line of the cursor is the line that
  the screen shows in the cursor's row. The operations keep it and have no fault.
\<close>

definition top_no :: "screen \<Rightarrow> int" where
  "top_no s = max (first_no s) (last_no s - bottom_row s)"

definition frame_ok :: "q_emulation \<Rightarrow> int \<Rightarrow> int \<Rightarrow> int \<Rightarrow> screen \<Rightarrow> bool" where
  "frame_ok e w h m s \<longleftrightarrow>
     2 \<le> h \<and> 80 \<le> w \<and> w \<le> m \<and> m \<le> 256 \<and>
     emulation s = e \<and> WIDTH s = w \<and> bottom_row s = h - 1 \<and>
     (status_visible s \<or> STATUS_HEIGHT s = 0) \<and> \<not> in_handle_resize s \<and>
     (e = Q_EMUL_VT52 \<or> \<not> assume_80_columns s) \<and>
     lines s \<noteq> [] \<and> (\<forall>l \<in> set (lines s). line_ok m l) \<and>
     scrollback_lines s = int (length (lines s)) \<and>
     (scrollback_max s \<le> 0 \<or> h \<le> scrollback_max s) \<and>
     (scrollback_enabled s \<longrightarrow> buffer_no s = first_no s) \<and>
     position s = last_no s \<and> emulation_right_margin s = -1 \<and> \<not> insert_mode s \<and>
     0 \<le> cursor_x s \<and> cursor_x s < w \<and> 0 \<le> cursor_y s \<and> cursor_y s < h \<and>
     0 \<le> scroll_region_top s \<and> scroll_region_top s \<le> scroll_region_bottom s \<and>
     scroll_region_bottom s < h"

definition at_row :: "screen \<Rightarrow> bool" where
  "at_row s \<longleftrightarrow> current s = top_no s + cursor_y s \<and> current s \<le> last_no s"

definition screen_ok :: "q_emulation \<Rightarrow> int \<Rightarrow> int \<Rightarrow> int \<Rightarrow> screen \<Rightarrow> bool" where
  "screen_ok e w h m s \<longleftrightarrow> frame_ok e w h m s \<and> at_row s"

section \<open>Facts of the frame\<close>

lemma frame_okD:
  assumes "frame_ok e w h m s"
  shows "2 \<le> h" "80 \<le> w" "w \<le> m" "m \<le> 256" "emulation s = e" "WIDTH s = w"
    "bottom_row s = h - 1" "lines s \<noteq> []" "position s = last_no s"
    "0 \<le> cursor_x s" "cursor_x s < w" "0 \<le> cursor_y s" "cursor_y s < h"
    "0 \<le> scroll_region_top s" "scroll_region_top s \<le> scroll_region_bottom s"
    "scroll_region_bottom s < h" "emulation_right_margin s = -1" "\<not> insert_mode s"
  using assms by (simp_all add: frame_ok_def)

lemma frame_ok_line: "frame_ok e w h m s \<Longrightarrow> l \<in> set (lines s) \<Longrightarrow> line_ok m l"
  by (simp add: frame_ok_def)

lemma frame_ok_order: "frame_ok e w h m s \<Longrightarrow> first_no s \<le> last_no s"
  by (cases "lines s") (auto simp: frame_ok_def last_no_def)

lemma top_no_bounds:
  assumes "frame_ok e w h m s"
  shows "first_no s \<le> top_no s" "top_no s \<le> last_no s" "last_no s \<le> top_no s + h - 1"
  using frame_ok_order [OF assms] assms by (auto simp: top_no_def frame_ok_def)

lemma linked_index:
  assumes "linked s p"
  shows "nat (p - first_no s) < length (lines s)"
  using assms by (auto simp: linked_def last_no_def)

lemma get_line_ok:
  assumes "frame_ok e w h m s" "linked s p"
  obtains l where "get_line s p = Inr l" "line_ok m l" "l \<in> set (lines s)"
proof
  let ?l = "lines s ! nat (p - first_no s)"
  show "get_line s p = Inr ?l" using assms(2) by (simp add: get_line_def)
  show "?l \<in> set (lines s)" using linked_index [OF assms(2)] by simp
  then show "line_ok m ?l" using assms(1) by (simp add: frame_ok_def)
qed

lemma at_row_linked: "frame_ok e w h m s \<Longrightarrow> at_row s \<Longrightarrow> linked s (current s)"
  using top_no_bounds(1) [of e w h m s] frame_okD(12) [of e w h m s]
  by (simp add: linked_def at_row_def)

section \<open>Operations that leave the lines where they are\<close>

text \<open>
  \<open>keeps s s'\<close>: only the contents of the lines changed, and lines were added below while the
  buffer has not filled the screen yet. So the rows of the screen stay the same lines.
\<close>

definition keeps :: "screen \<Rightarrow> screen \<Rightarrow> bool" where
  "keeps s s' \<longleftrightarrow>
     s' = s\<lparr>lines := lines s', position := position s', scrollback_lines := scrollback_lines s'\<rparr> \<and>
     length (lines s) \<le> length (lines s') \<and>
     (length (lines s') = length (lines s) \<or> int (length (lines s')) \<le> bottom_row s + 1)"

lemma keepsE:
  assumes "keeps s s'"
  obtains ls q n where "s' = s\<lparr>lines := ls, position := q, scrollback_lines := n\<rparr>"
    "length (lines s) \<le> length ls"
    "length ls = length (lines s) \<or> int (length ls) \<le> bottom_row s + 1"
  using assms unfolding keeps_def by blast

lemma keepsI:
  "length (lines s) \<le> length ls \<Longrightarrow>
   length ls = length (lines s) \<or> int (length ls) \<le> bottom_row s + 1 \<Longrightarrow>
   keeps s (s\<lparr>lines := ls, position := q, scrollback_lines := n\<rparr>)"
  by (simp add: keeps_def)

lemma keepsD:
  assumes "keeps s s'"
  shows "first_no s' = first_no s" "current s' = current s" "cursor_x s' = cursor_x s"
    "cursor_y s' = cursor_y s" "scroll_region_top s' = scroll_region_top s"
    "scroll_region_bottom s' = scroll_region_bottom s" "bottom_row s' = bottom_row s"
    "WIDTH s' = WIDTH s" "emulation s' = emulation s" "current_color s' = current_color s"
    "curses_lib s' = curses_lib s" "reverse_video s' = reverse_video s"
    "insert_mode s' = insert_mode s" "line_wrap s' = line_wrap s" "origin_mode s' = origin_mode s"
    "vt100_wrap_line_flag s' = vt100_wrap_line_flag s"
    "emulation_right_margin s' = emulation_right_margin s"
    "length (lines s) \<le> length (lines s')"
  using assms by (auto elim!: keepsE simp: bottom_row_def)

lemma keeps_refl [simp]: "keeps s s"
  by (simp add: keeps_def)

lemma keeps_trans: "keeps s t \<Longrightarrow> keeps t u \<Longrightarrow> keeps s u"
  by (erule keepsE, erule keepsE, hypsubst) (auto simp: keeps_def bottom_row_def)

lemma keeps_last: "keeps s s' \<Longrightarrow> last_no s \<le> last_no s'"
  by (auto elim!: keepsE simp: last_no_def)

lemma keeps_linked: "keeps s s' \<Longrightarrow> linked s p \<Longrightarrow> linked s' p"
  using keepsD(1) [of s s'] keeps_last [of s s'] by (auto simp: linked_def)

lemma keeps_top:
  assumes "keeps s s'"
  shows "top_no s' = top_no s"
  using assms by (auto elim!: keepsE simp: top_no_def last_no_def bottom_row_def)

definition kept :: "q_emulation \<Rightarrow> int \<Rightarrow> int \<Rightarrow> int \<Rightarrow> screen \<Rightarrow> screen \<Rightarrow> bool" where
  "kept e w h m s s' \<longleftrightarrow> frame_ok e w h m s' \<and> keeps s s'"

lemma kept_refl: "frame_ok e w h m s \<Longrightarrow> kept e w h m s s"
  by (simp add: kept_def)

lemma kept_trans: "kept e w h m s t \<Longrightarrow> kept e w h m t u \<Longrightarrow> kept e w h m s u"
  by (auto simp: kept_def intro: keeps_trans)

lemma kept_at_row:
  assumes "kept e w h m s s'" "at_row s"
  shows "at_row s'"
  using assms keepsD(2,4) [of s s'] keeps_top [of s s'] keeps_last [of s s']
  by (auto simp: kept_def at_row_def)

lemma kept_screen_ok: "kept e w h m s s' \<Longrightarrow> at_row s \<Longrightarrow> screen_ok e w h m s'"
  using kept_at_row [of e w h m s s'] by (simp add: screen_ok_def kept_def)

section \<open>Lines\<close>

lemma put_line_kept:
  assumes "frame_ok e w h m s" "line_ok m l"
  shows "kept e w h m s (put_line p l s)"
proof -
  let ?s = "put_line p l s"
  have "keeps s ?s" by (simp add: keeps_def put_line_def)
  moreover have "frame_ok e w h m ?s"
    using assms unfolding frame_ok_def put_line_def
    by (auto simp: bottom_row_def last_no_def dest!: set_update_subset_insert [THEN subsetD])
  ultimately show ?thesis by (simp add: kept_def)
qed

lemma length_put_line [simp]: "length (lines (put_line p l s)) = length (lines s)"
  by (simp add: put_line_def)

lemma on_line_kept:
  assumes "frame_ok e w h m s" "linked s p"
    and "\<And>l. line_ok m l \<Longrightarrow> total_res (line_ok m) (f l)"
  shows "total_res (kept e w h m s) (on_line p f s)"
proof -
  obtain l where l: "get_line s p = Inr l" "line_ok m l"
    using get_line_ok [OF assms(1,2)] by blast
  from assms(3) [OF l(2)] show ?thesis
    by (simp add: on_line_def l(1)) (auto elim!: total_res_mono intro: put_line_kept [OF assms(1)])
qed

lemma next_line_ok: "linked s p \<Longrightarrow> next_line s p = Inr (if p = last_no s then None else Some (p + 1))"
  by (simp add: next_line_def)

lemma prev_line_ok: "linked s p \<Longrightarrow> prev_line s p = Inr (if p = first_no s then None else Some (p - 1))"
  by (simp add: prev_line_def)

lemma walk_up_ok:
  "linked s p \<Longrightarrow>
    walk_up n s p = Inr (if first_no s + int n \<le> p then (p - int n, True) else (first_no s, False))"
proof (induction n arbitrary: p)
  case 0
  then show ?case by (simp add: linked_def)
next
  case (Suc n)
  show ?case
  proof (cases "p = first_no s")
    case True
    with Suc.prems show ?thesis by (simp add: prev_line_ok)
  next
    case False
    with Suc.prems have "linked s (p - 1)" by (auto simp: linked_def)
    with Suc.prems False Suc.IH show ?thesis by (auto simp: prev_line_ok)
  qed
qed

lemma find_top_ok:
  assumes "frame_ok e w h m s"
  shows "find_top_scrollback_line s = Inr (top_no s)"
proof -
  have row: "HEIGHT s - 1 - (if status_visible s then STATUS_HEIGHT s else 0) = h - 1"
    using assms by (auto simp: frame_ok_def bottom_row_def)
  have "linked s (position s)"
    using frame_ok_order [OF assms] assms by (simp add: linked_def frame_ok_def)
  moreover have "first_no s + h \<le> last_no s \<Longrightarrow> linked s (last_no s - h)"
    using frame_okD(1) [OF assms] by (simp add: linked_def)
  ultimately show ?thesis
    using frame_okD(1,7,9) [OF assms]
    by (auto simp: find_top_scrollback_line_def Let_def row walk_up_ok next_line_ok top_no_def)
qed

lemma fresh_line_ok: "frame_ok e w h m s \<Longrightarrow> line_ok m (fresh_line s)"
  by (auto simp: fresh_line_def plain_new_line_def line_ok_def blank_line_def frame_ok_def)

text \<open>Adding a line to a buffer that does not fill the screen.\<close>

lemma new_line_short:
  assumes "frame_ok e w h m s" "int (length (lines s)) < h"
  shows "total_res (\<lambda>s'. kept e w h m s s' \<and> last_no s' = last_no s + 1) (new_scrollback_line s)"
proof -
  let ?s = "s\<lparr>lines := lines s @ [fresh_line s], position := last_no s + 1\<rparr>"
  let ?t = "?s\<lparr>scrollback_lines := scrollback_lines s + 1\<rparr>"
  have "\<not> must_roll ?s" using assms by (auto simp: must_roll_def frame_ok_def bottom_row_def)
  then have new: "new_scrollback_line s = Inr ?t"
    using assms(1) find_top_ok [OF assms(1)]
    by (simp add: new_scrollback_line_def frame_ok_def)
  have "keeps s ?t" using assms frame_okD(7) [OF assms(1)] by (simp add: keeps_def)
  moreover have "frame_ok e w h m ?t"
    using assms(1) fresh_line_ok [OF assms(1)]
    by (auto simp: frame_ok_def last_no_def bottom_row_def)
  ultimately show ?thesis by (simp add: new kept_def last_no_def)
qed

lemma step_down_kept:
  assumes "frame_ok e w h m s" "linked s p" "p < top_no s + h - 1"
  shows "total_res (\<lambda>(p', s'). p' = p + 1 \<and> kept e w h m s s' \<and> linked s' (p + 1)) (step_down p s)"
proof (cases "p = last_no s")
  case False
  with assms have "linked s (p + 1)" by (simp add: linked_def)
  with assms False show ?thesis
    by (simp add: step_down_def next_line_ok the_line_def kept_refl)
next
  case True
  with assms have "int (length (lines s)) < h"
    using frame_okD(7) [OF assms(1)] by (auto simp: top_no_def last_no_def)
  from new_line_short [OF assms(1) this] obtain s' where
    s': "new_scrollback_line s = Inr s'" "kept e w h m s s'" "last_no s' = last_no s + 1"
    by (auto simp: total_res_iff)
  have "linked s' p" using s'(2) assms(2) keeps_linked by (auto simp: kept_def)
  moreover have "linked s' (p + 1)" using \<open>linked s' p\<close> s'(3) True by (simp add: linked_def)
  ultimately show ?thesis
    using assms(2) True s' by (simp add: step_down_def next_line_ok the_line_def)
qed

lemma walk_down_kept:
  "frame_ok e w h m s \<Longrightarrow> linked s p \<Longrightarrow> p + int n \<le> top_no s + h - 1 \<Longrightarrow>
   total_res (\<lambda>(p', s'). p' = p + int n \<and> kept e w h m s s' \<and> linked s' (p + int n))
     (walk_down n p s)"
proof (induction n arbitrary: p s)
  case 0
  then show ?case by (simp add: kept_refl)
next
  case (Suc n)
  have "p < top_no s + h - 1" using Suc.prems(3) by simp
  from step_down_kept [OF Suc.prems(1,2) this] obtain s' where
    s': "step_down p s = Inr (p + 1, s')" "kept e w h m s s'" "linked s' (p + 1)"
    by (auto simp: total_res_iff)
  have "total_res (\<lambda>(p', t). p' = p + 1 + int n \<and> kept e w h m s' t \<and> linked t (p + 1 + int n))
          (walk_down n (p + 1) s')"
    using s' Suc.prems(3) keeps_top [of s s'] by (intro Suc.IH) (auto simp: kept_def)
  then show ?case
    by (simp add: s'(1)) (auto elim!: total_res_mono intro: kept_trans [OF s'(2)] simp: algebra_simps)
qed

section \<open>Erasing\<close>

lemma erase_cells_ok:
  "line_ok m l \<Longrightarrow> 0 \<le> i \<Longrightarrow> i + int k \<le> 256 \<Longrightarrow>
   total_res (\<lambda>l'. line_ok m l' \<and> l_length l' = l_length l) (erase_cells k i c a honor prot l)"
proof (induction k arbitrary: i l)
  case 0
  then show ?case by simp
next
  case (Suc k)
  have i: "0 \<le> i" "i < 256" using Suc.prems by linarith+
  then have old: "color_at l i = Inr (colors l ! nat i)"
    by (simp add: color_at_def in_line_def Q_MAX_LINE_LENGTH_def)
  have "total_res (\<lambda>l'. line_ok m l' \<and> l_length l' = l_length l)
          (if \<not> honor \<or> (colors l ! nat i AND prot) = 0 then put_cell i c a l else Inr l)"
    using put_cell_line_ok [OF Suc.prems(1) i] Suc.prems(1) by auto
  then show ?case
  proof (simp only: erase_cells.simps old total_res_bind total_res.simps, elim total_res_mono, goal_cases)
    case (1 l')
    with Suc.prems Suc.IH [of l' "i + 1"] show ?case by (auto elim: total_res_mono)
  qed
qed

lemma fill_row_ok:
  assumes "line_ok m l" "m \<le> 256" "0 \<le> start" "start \<le> end_col" "end_col \<le> 255" "0 \<le> WIDTH s"
  shows "total_res (line_ok (WIDTH s)) (fill_row s start end_col c honor l)"
proof -
  let ?l = "l\<lparr>dirty := True\<rparr>"
  have "line_ok 256 ?l" using assms(1,2) line_ok_mono by simp
  then have "total_res (\<lambda>l. line_ok 256 l \<and> start \<le> l_length l) (pad_line start start (console_attr s) ?l)"
    using assms by (intro total_res_mono [OF pad_line_ok [where m = 256 and m'' = 256]]) auto
  then have "total_res (\<lambda>l. total_res (line_ok 256)
      (erase_cells (nat (end_col - start + 1)) start c (erase_attr s) honor (A_PROTECT (curses_lib s)) l))
      (bind_res (pad_line start start (console_attr s) ?l)
         (\<lambda>l. fill_cells (nat (start - l_length l)) (l_length l) c (erase_attr s) l))"
    using assms by (auto elim!: total_res_mono intro!: total_res_mono [OF erase_cells_ok])
  then show ?thesis
    using assms(5,6) by (auto simp: fill_row_def Let_def line_ok_def elim!: total_res_mono)
qed

lemma on_current_kept:
  assumes "frame_ok e w h m s" "linked s (current s)"
    and "\<And>l. line_ok m l \<Longrightarrow> total_res (line_ok m) (f l)"
  shows "total_res (kept e w h m s) (on_current f s)"
  using assms by (simp add: on_current_def on_line_kept)

lemma erase_line_kept:
  assumes "frame_ok e w h m s" "linked s (current s)" "0 \<le> left" "right \<le> 255"
  shows "total_res (kept e w h m s) (erase_line left right honor s)"
proof (cases "right < left")
  case True
  with assms show ?thesis by (simp add: erase_line_def fill_line_with_character_def kept_refl)
next
  case False
  have "total_res (line_ok m) (fill_row s left right 32 honor l)" if "line_ok m l" for l
    using that False assms frame_okD(2,3,4,6) [OF assms(1)] line_ok_mono
    by (intro total_res_mono [OF fill_row_ok]) auto
  with False assms(1,2) show ?thesis
    by (simp add: erase_line_def fill_line_with_character_def on_current_kept)
qed

lemma frame_ok_current [simp]: "frame_ok e w h m (s\<lparr>current := c\<rparr>) = frame_ok e w h m s"
  by (simp add: frame_ok_def last_no_def bottom_row_def)

lemma linked_current [simp]: "linked (s\<lparr>current := c\<rparr>) p = linked s p"
  by (simp add: linked_def last_no_def)

lemma top_no_current [simp]: "top_no (s\<lparr>current := c\<rparr>) = top_no s"
  by (simp add: top_no_def last_no_def bottom_row_def)

lemma keeps_current: "keeps s s' \<Longrightarrow> keeps (s\<lparr>current := c\<rparr>) (s'\<lparr>current := c\<rparr>)"
  by (erule keepsE, hypsubst) (auto simp: keeps_def bottom_row_def)

text \<open>\<open>kept\<close> for the loops that move \<open>current\<close> through the rows.\<close>

definition rows_kept :: "q_emulation \<Rightarrow> int \<Rightarrow> int \<Rightarrow> int \<Rightarrow> screen \<Rightarrow> screen \<Rightarrow> bool" where
  "rows_kept e w h m s s' \<longleftrightarrow> kept e w h m s (s'\<lparr>current := current s\<rparr>)"

lemma rows_kept_start:
  assumes "kept e w h m (s\<lparr>current := p\<rparr>) s'"
  shows "rows_kept e w h m s s'"
  using assms keeps_current [of "s\<lparr>current := p\<rparr>" s' "current s"]
  by (simp add: rows_kept_def kept_def)

lemma rows_kept_trans:
  assumes "rows_kept e w h m s t" "rows_kept e w h m t u"
  shows "rows_kept e w h m s u"
  using assms keeps_current [of t "u\<lparr>current := current t\<rparr>" "current s"]
  by (auto simp: rows_kept_def kept_def intro: keeps_trans)

lemma rows_keptD:
  assumes "rows_kept e w h m s t"
  shows "frame_ok e w h m t" "top_no t = top_no s" "linked s p \<Longrightarrow> linked t p"
  using assms keeps_top [of s "t\<lparr>current := current s\<rparr>"] keeps_linked [of s "t\<lparr>current := current s\<rparr>"]
  by (auto simp: rows_kept_def kept_def)

lemma step_rows_kept:
  "kept e w h m s s' \<Longrightarrow> rows_kept e w h m s s'"
proof -
  assume k: "kept e w h m s s'"
  then have "current s = current s'" using keepsD(2) [of s s'] by (simp add: kept_def)
  moreover have "s'\<lparr>current := current s'\<rparr> = s'" by (cases s') simp
  ultimately show ?thesis using k by (simp add: rows_kept_def)
qed

lemma erase_rows_kept:
  "frame_ok e w h m s \<Longrightarrow> linked s p \<Longrightarrow> p + int k \<le> top_no s + h \<Longrightarrow> 0 \<le> left \<Longrightarrow> right \<le> 255 \<Longrightarrow>
   total_res (rows_kept e w h m s) (erase_rows k p left right honor s)"
proof (induction k arbitrary: p s)
  case 0
  then show ?case by (simp add: rows_kept_def kept_refl)
next
  case (Suc k)
  have "total_res (kept e w h m (s\<lparr>current := p\<rparr>)) (erase_line left right honor (s\<lparr>current := p\<rparr>))"
    using Suc.prems by (intro erase_line_kept) simp_all
  then obtain t where t: "erase_line left right honor (s\<lparr>current := p\<rparr>) = Inr t"
    and k: "rows_kept e w h m s t"
    by (auto simp: total_res_iff intro: rows_kept_start)
  note t' = rows_keptD [OF k]
  show ?case
  proof (cases "k = 0")
    case True
    with t k show ?thesis by simp
  next
    case False
    have "p < top_no t + h - 1" using False Suc.prems(3) t'(2) by linarith
    from step_down_kept [OF t'(1) t'(3) [OF Suc.prems(2)] this] obtain u where
      u: "step_down p t = Inr (p + 1, u)" "kept e w h m t u" "linked u (p + 1)"
      by (auto simp: total_res_iff)
    have ku: "rows_kept e w h m s u" using k u(2) step_rows_kept rows_kept_trans by blast
    have "total_res (rows_kept e w h m u) (erase_rows k (p + 1) left right honor u)"
      using Suc.prems u(3) rows_keptD [OF ku] by (intro Suc.IH) auto
    then show ?thesis
      using False by (auto simp: t u(1) elim!: total_res_mono intro: rows_kept_trans [OF ku])
  qed
qed

lemma erase_screen_kept:
  assumes "frame_ok e w h m s" "end_row < h" "right \<le> 255"
  shows "total_res (kept e w h m s) (erase_screen start_row left end_row right honor s)"
proof (cases "start_row < 0 \<or> left < 0 \<or> end_row < 0 \<or> right < 0 \<or> end_row < start_row \<or> right < left")
  case True
  with assms show ?thesis by (simp add: erase_screen_def kept_refl)
next
  case False
  have "linked s (top_no s)" using top_no_bounds [OF assms(1)] by (simp add: linked_def)
  then have "total_res (\<lambda>(p', s'). p' = top_no s + int (nat start_row) \<and> kept e w h m s s' \<and>
      linked s' (top_no s + int (nat start_row))) (walk_down (nat start_row) (top_no s) s)"
    using assms False by (intro walk_down_kept) auto
  then obtain t where t: "walk_down (nat start_row) (top_no s) s = Inr (top_no s + start_row, t)"
    "kept e w h m s t" "linked t (top_no s + start_row)"
    using False by (auto simp: total_res_iff)
  have ft: "frame_ok e w h m t" using t(2) by (simp add: kept_def)
  have tt: "top_no t = top_no s" "current t = current s"
    using t(2) keeps_top keepsD(2) by (auto simp: kept_def)
  have "total_res (rows_kept e w h m t)
      (erase_rows (nat (end_row - start_row + 1)) (top_no s + start_row) left right honor t)"
    using assms False t ft tt by (intro erase_rows_kept) auto
  then have "total_res (\<lambda>u. kept e w h m s (u\<lparr>current := current s\<rparr>))
      (erase_rows (nat (end_row - start_row + 1)) (top_no s + start_row) left right honor t)"
    by (rule total_res_mono) (use kept_trans [OF t(2)] tt in \<open>auto simp: rows_kept_def\<close>)
  with False assms(1) t(1) show ?thesis
    by (simp add: erase_screen_def find_top_ok) 
qed

section \<open>Scrolling\<close>

lemma scroll_row_ok:
  assumes "line_ok m l" "line_ok m f" "m \<le> 256" "0 \<le> left" "left \<le> right" "right \<le> 256"
  shows "total_res (line_ok m) (scroll_row pad left right a f l)"
proof -
  have "total_res (line_ok 256) (if pad then pad_line right right a l else Inr l)"
    using assms pad_line_ok [of m l right right 256 a] line_ok_mono [of m l 256]
    by (auto elim!: total_res_mono)
  then show ?thesis
    using assms line_ok_mono [of m f 256] copy_cells_line_ok [of 256 _ m f "right - left" left left]
    by (fastforce simp: scroll_row_def line_ok_def elim!: total_res_mono)
qed

lemma scroll_rows_up_kept:
  "frame_ok e w h m s \<Longrightarrow> linked s to \<Longrightarrow> linked s from \<Longrightarrow> to \<le> from \<Longrightarrow>
   0 \<le> left \<Longrightarrow> left \<le> right \<Longrightarrow> right \<le> 256 \<Longrightarrow>
   total_res (kept e w h m s) (scroll_rows_up k left right to from s)"
proof (induction k arbitrary: to "from" s)
  case 0
  then show ?case by (simp add: kept_refl)
next
  case (Suc k)
  obtain f where f: "get_line s from = Inr f" "line_ok m f"
    using get_line_ok [OF Suc.prems(1,3)] by blast
  have "total_res (line_ok m) (scroll_row (l_length l < l_length f) left right (console_attr s) f l)"
    if "line_ok m l" for l
    using that f(2) Suc.prems frame_okD(4) [OF Suc.prems(1)] by (intro scroll_row_ok)
  then have "total_res (kept e w h m s) (on_line to
      (\<lambda>l. scroll_row (l_length l < l_length f) left right (console_attr s) f l) s)"
    using Suc.prems(1,2) by (intro on_line_kept)
  then obtain t where t: "on_line to
      (\<lambda>l. scroll_row (l_length l < l_length f) left right (console_attr s) f l) s = Inr t"
    "kept e w h m s t"
    by (auto simp: total_res_iff)
  then have l: "linked t to" "linked t from" "frame_ok e w h m t"
    using Suc.prems keeps_linked by (auto simp: kept_def)
  show ?case
  proof (cases "from = last_no t")
    case True
    with t f l show ?thesis by (simp add: next_line_ok)
  next
    case False
    with l Suc.prems(4) have "linked t (to + 1)" "linked t (from + 1)" "to \<noteq> last_no t"
      by (auto simp: linked_def)
    with Suc l have "total_res (kept e w h m t) (scroll_rows_up k left right (to + 1) (from + 1) t)"
      by simp
    with t f l False \<open>to \<noteq> last_no t\<close> show ?thesis
      by (auto simp: next_line_ok the_line_def elim!: total_res_mono intro: kept_trans)
  qed
qed

lemma rectangle_scroll_up_kept:
  assumes "frame_ok e w h m s" "0 \<le> top_row" "bottom < h" "0 \<le> left" "right \<le> 256" "0 \<le> count"
  shows "total_res (kept e w h m s) (rectangle_scroll_up top_row left bottom right count s)"
proof -
  consider "bottom \<le> top_row \<or> right \<le> left" | "\<not> (bottom \<le> top_row \<or> right \<le> left)" "bottom + 1 - top_row \<le> count"
    | (move) "top_row < bottom" "left < right" "count \<le> bottom - top_row" by linarith
  then show ?thesis
  proof cases
    case 1
    with assms(1) show ?thesis by (simp add: rectangle_scroll_up_def kept_refl)
  next
    case 2
    with assms erase_screen_kept [OF assms(1,3), of "right - 1"] show ?thesis
      by (simp add: rectangle_scroll_up_def)
  next
    case move
    have "linked s (top_no s)" using top_no_bounds [OF assms(1)] by (simp add: linked_def)
    with assms move walk_down_kept [OF assms(1), of "top_no s" "nat top_row"] obtain t where
      t: "walk_down (nat top_row) (top_no s) s = Inr (top_no s + top_row, t)"
        "kept e w h m s t" "linked t (top_no s + top_row)"
      by (auto simp: total_res_iff)
    then have ft: "frame_ok e w h m t" "top_no t = top_no s"
      using keeps_top by (auto simp: kept_def)
    with assms move t walk_down_kept [OF ft(1) t(3), of "nat count"] obtain u where
      u: "walk_down (nat count) (top_no s + top_row) t = Inr (top_no s + top_row + count, u)"
        "kept e w h m t u" "linked u (top_no s + top_row + count)"
      by (auto simp: total_res_iff)
    then have fu: "frame_ok e w h m u" "linked u (top_no s + top_row)"
      using t(3) keeps_linked by (auto simp: kept_def)
    with u(3) assms move scroll_rows_up_kept [OF fu u(3), of left right "nat (bottom + 1 - top_row - count)"]
    obtain v where
      v: "scroll_rows_up (nat (bottom + 1 - top_row - count)) left right (top_no s + top_row)
            (top_no s + top_row + count) u = Inr v" "kept e w h m u v"
      by (auto simp: total_res_iff)
    then have "kept e w h m s v" using t(2) u(2) kept_trans by blast
    moreover have "total_res (kept e w h m v)
        (erase_screen (top_row + (bottom + 1 - top_row - count)) left bottom (right - 1) False v)"
      using v(2) assms by (intro erase_screen_kept) (auto simp: kept_def)
    ultimately show ?thesis
      using move assms(1) t(1) u(1) v(1)
      by (auto simp: rectangle_scroll_up_def find_top_ok elim!: total_res_mono intro: kept_trans)
  qed
qed

lemma walk_up_inserting_ok:
  "linked s p \<Longrightarrow> first_no s + int n \<le> p \<Longrightarrow> walk_up_inserting n p s = Inr (p - int n, s)"
proof (induction n arbitrary: p)
  case 0
  then show ?case by simp
next
  case (Suc n)
  then have "linked s (p - 1)" "p \<noteq> first_no s" by (auto simp: linked_def)
  with Suc show ?case by (simp add: prev_line_ok the_line_def)
qed

lemma scroll_rows_down_kept:
  "frame_ok e w h m s \<Longrightarrow> linked s to \<Longrightarrow> linked s from \<Longrightarrow> from \<le> to \<Longrightarrow>
   first_no s + int k \<le> from + 1 \<Longrightarrow> 0 \<le> left \<Longrightarrow> left \<le> right \<Longrightarrow> right \<le> 256 \<Longrightarrow>
   total_res (kept e w h m s) (scroll_rows_down k left right to from s)"
proof (induction k arbitrary: to "from" s)
  case 0
  then show ?case by (simp add: kept_refl)
next
  case (Suc k)
  obtain f where f: "get_line s from = Inr f" "line_ok m f"
    using get_line_ok [OF Suc.prems(1,3)] by blast
  have "total_res (line_ok m) (scroll_row (l_length l < left) left right (console_attr s) f l)"
    if "line_ok m l" for l
    using that f(2) Suc.prems frame_okD(4) [OF Suc.prems(1)] by (intro scroll_row_ok)
  then have "total_res (kept e w h m s) (on_line to
      (\<lambda>l. scroll_row (l_length l < left) left right (console_attr s) f l) s)"
    using Suc.prems(1,2) by (intro on_line_kept)
  then obtain t where t: "on_line to
      (\<lambda>l. scroll_row (l_length l < left) left right (console_attr s) f l) s = Inr t"
    "kept e w h m s t"
    by (auto simp: total_res_iff)
  then have l: "linked t to" "linked t from" "frame_ok e w h m t" "first_no t = first_no s"
    using Suc.prems keeps_linked keepsD(1) by (auto simp: kept_def)
  show ?case
  proof (cases "k = 0")
    case True
    with t f l show ?thesis by (simp add: prev_line_ok)
  next
    case False
    with l Suc.prems(4,5) have "linked t (to - 1)" "linked t (from - 1)" "to \<noteq> first_no t" "from \<noteq> first_no t"
      by (auto simp: linked_def)
    with Suc l have "total_res (kept e w h m t) (scroll_rows_down k left right (to - 1) (from - 1) t)"
      by simp
    with t f l False \<open>to \<noteq> first_no t\<close> \<open>from \<noteq> first_no t\<close> show ?thesis
      by (auto simp: prev_line_ok the_line_def elim!: total_res_mono intro: kept_trans)
  qed
qed

lemma rectangle_scroll_down_kept:
  assumes "frame_ok e w h m s" "0 \<le> top_row" "bottom < h" "0 \<le> left" "right \<le> 256" "0 \<le> count"
  shows "total_res (kept e w h m s) (rectangle_scroll_down top_row left bottom right count s)"
proof -
  consider "bottom \<le> top_row \<or> right \<le> left" | "\<not> (bottom \<le> top_row \<or> right \<le> left)" "bottom + 1 - top_row \<le> count"
    | (move) "top_row < bottom" "left < right" "count \<le> bottom - top_row" by linarith
  then show ?thesis
  proof cases
    case 1
    with assms(1) show ?thesis by (simp add: rectangle_scroll_down_def kept_refl)
  next
    case 2
    with assms erase_screen_kept [OF assms(1,3), of "right - 1"] show ?thesis
      by (simp add: rectangle_scroll_down_def)
  next
    case move
    have "linked s (top_no s)" using top_no_bounds [OF assms(1)] by (simp add: linked_def)
    with assms move walk_down_kept [OF assms(1), of "top_no s" "nat bottom"] obtain t where
      t: "walk_down (nat bottom) (top_no s) s = Inr (top_no s + bottom, t)"
        "kept e w h m s t" "linked t (top_no s + bottom)"
      by (auto simp: total_res_iff)
    then have ft: "frame_ok e w h m t" "top_no t = top_no s"
      using keeps_top by (auto simp: kept_def)
    let ?from = "top_no s + bottom - count"
    have first: "first_no t \<le> top_no s" using top_no_bounds(1) [OF ft(1)] ft(2) by simp
    have up: "walk_up_inserting (nat count) (top_no s + bottom) t = Inr (?from, t)"
      using walk_up_inserting_ok [OF t(3), of "nat count"] first move assms by simp
    have "linked t ?from" using t(3) first move assms by (auto simp: linked_def)
    with assms move first scroll_rows_down_kept [OF ft(1) t(3), of ?from "nat (bottom + 1 - top_row - count)" left right]
    obtain v where
      v: "scroll_rows_down (nat (bottom + 1 - top_row - count)) left right (top_no s + bottom) ?from t = Inr v"
        "kept e w h m t v"
      by (auto simp: total_res_iff)
    then have "kept e w h m s v" using t(2) kept_trans by blast
    moreover have "total_res (kept e w h m v)
        (erase_screen top_row left (top_row + count - 1) (right - 1) False v)"
      using v(2) assms move by (intro erase_screen_kept) (auto simp: kept_def)
    ultimately show ?thesis
      using move assms(1) t(1) up v(1)
      by (auto simp: rectangle_scroll_down_def find_top_ok elim!: total_res_mono intro: kept_trans)
  qed
qed

end
