(* ===== verification/Term_Cursor.thy ===== *)
theory Term_Cursor
  imports Term_Invariant
begin

text \<open>
  The operations that move the cursor and print: they keep the invariant of the screen and
  have no fault, and what they do to the position of the cursor.
\<close>

section \<open>Moving inside the screen\<close>

lemma frame_ok_updates [simp]:
  "frame_ok e w h m (s\<lparr>vt100_wrap_line_flag := b\<rparr>) = frame_ok e w h m s"
  "frame_ok e w h m (s\<lparr>current_color := a\<rparr>) = frame_ok e w h m s"
  "frame_ok e w h m (s\<lparr>line_wrap := b\<rparr>) = frame_ok e w h m s"
  by (simp_all add: frame_ok_def last_no_def bottom_row_def)

lemma screen_ok_updates [simp]:
  "screen_ok e w h m (s\<lparr>vt100_wrap_line_flag := b\<rparr>) = screen_ok e w h m s"
  "screen_ok e w h m (s\<lparr>current_color := a\<rparr>) = screen_ok e w h m s"
  "screen_ok e w h m (s\<lparr>line_wrap := b\<rparr>) = screen_ok e w h m s"
  by (simp_all add: screen_ok_def at_row_def top_no_def last_no_def bottom_row_def)

lemma frame_ok_cursor:
  "frame_ok e w h m s \<Longrightarrow> 0 \<le> x \<Longrightarrow> x < w \<Longrightarrow> frame_ok e w h m (s\<lparr>cursor_x := x\<rparr>)"
  "frame_ok e w h m s \<Longrightarrow> 0 \<le> y \<Longrightarrow> y < h \<Longrightarrow> frame_ok e w h m (s\<lparr>cursor_y := y\<rparr>)"
  by (simp_all add: frame_ok_def last_no_def bottom_row_def)

lemma screen_ok_x:
  "screen_ok e w h m s \<Longrightarrow> 0 \<le> x \<Longrightarrow> x < w \<Longrightarrow> screen_ok e w h m (s\<lparr>cursor_x := x\<rparr>)"
  by (auto simp: screen_ok_def at_row_def top_no_def last_no_def bottom_row_def frame_ok_cursor)

lemma screen_ok_linked: "screen_ok e w h m s \<Longrightarrow> linked s (current s)"
  by (auto simp: screen_ok_def intro: at_row_linked)

lemma screen_ok_clear [simp]: "screen_ok e w h m (clear_wrap_flag n s) = screen_ok e w h m s"
  by (simp add: clear_wrap_flag_def)

lemma clear_wrap_flag_sel [simp]:
  "cursor_x (clear_wrap_flag n s) = cursor_x s" "cursor_y (clear_wrap_flag n s) = cursor_y s"
  by (simp_all add: clear_wrap_flag_def)

lemma screen_kept:
  assumes "screen_ok e w h m s" "total_res (kept e w h m s) m'"
  shows "total_res (\<lambda>s'. screen_ok e w h m s' \<and> cursor_x s' = cursor_x s \<and> cursor_y s' = cursor_y s) m'"
  using assms(2) by (rule total_res_mono)
    (use assms(1) kept_screen_ok keepsD in \<open>auto simp: screen_ok_def kept_def\<close>)

lemma cursor_up_once_ok:
  assumes "screen_ok e w h m s"
  shows "total_ctl (\<lambda>s'. screen_ok e w h m s' \<and> cursor_x s' = cursor_x s) (cursor_up_once honor s)"
proof (cases "(if honor then scroll_region_top s else 0) < cursor_y s")
  case True
  then have "0 < cursor_y s" using assms by (auto simp: screen_ok_def frame_ok_def split: if_splits)
  with assms have "current s \<noteq> first_no s" "linked s (current s)"
    using screen_ok_linked [OF assms] by (auto simp: screen_ok_def at_row_def top_no_def)
  moreover have "screen_ok e w h m (s\<lparr>cursor_y := cursor_y s - 1, current := current s - 1\<rparr>)"
    using assms \<open>0 < cursor_y s\<close>
    by (auto simp: screen_ok_def frame_ok_cursor frame_okD at_row_def top_no_def last_no_def bottom_row_def)
       (auto simp: frame_ok_def last_no_def bottom_row_def)
  ultimately show ?thesis using assms by (simp add: cursor_up_once_def prev_line_ok the_line_def)
next
  case False
  with assms show ?thesis by (auto simp: cursor_up_once_def)
qed

lemma cursor_up_ok:
  assumes "screen_ok e w h m s"
  shows "total_res (\<lambda>s'. screen_ok e w h m s' \<and> cursor_x s' = cursor_x s) (cursor_up n honor s)"
  using assms unfolding cursor_up_def total_res_finish
  by (intro total_repeat_ctl) (auto intro: total_ctl_mono [OF cursor_up_once_ok])

lemma pad_colors_ok:
  "line_ok m l \<Longrightarrow> l_length l + int k \<le> m \<Longrightarrow> m \<le> 256 \<Longrightarrow> total_res (line_ok m) (pad_colors k a l)"
proof (induction k arbitrary: l)
  case 0
  then show ?case by simp
next
  case (Suc k)
  let ?l = "l\<lparr>colors := (colors l)[nat (l_length l) := a], l_length := l_length l + 1\<rparr>"
  from Suc.prems have "in_line (l_length l)" by (auto simp: line_ok_def in_line_def Q_MAX_LINE_LENGTH_def)
  moreover from Suc.prems have "line_ok m ?l" by (simp add: line_ok_def)
  ultimately show ?case using Suc.IH [of ?l] Suc.prems by (simp add: set_color_def)
qed

text \<open>The step of the operations that go down a row inside the screen.\<close>

lemma step_down_next:
  assumes "screen_ok e w h m s" "cursor_y s < h - 1"
  shows "total_res (\<lambda>(p, s'). screen_ok e w h m (s'\<lparr>current := p\<rparr>) \<and> cursor_x s' = cursor_x s)
           (step_down (current s) (s\<lparr>cursor_y := cursor_y s + 1\<rparr>))"
proof -
  have f: "frame_ok e w h m s" "at_row s" using assms by (simp_all add: screen_ok_def)
  let ?s = "s\<lparr>cursor_y := cursor_y s + 1\<rparr>"
  have fs: "frame_ok e w h m ?s"
    using f(1) frame_okD(12) [OF f(1)] assms(2) by (intro frame_ok_cursor) auto
  have cur: "current s = top_no ?s + cursor_y s" "linked ?s (current s)"
    using f at_row_linked [OF f]
    by (auto simp: at_row_def top_no_def last_no_def bottom_row_def linked_def)
  have "current s < top_no ?s + h - 1" using cur(1) assms(2) by simp
  from step_down_kept [OF fs cur(2) this] obtain t where
    t: "step_down (current s) ?s = Inr (current s + 1, t)" "kept e w h m ?s t" "linked t (current s + 1)"
    by (auto simp: total_res_iff)
  then show ?thesis
    using keepsD(3,4) [of ?s t] keeps_top [of ?s t] cur(1)
    by (auto simp: screen_ok_def kept_def at_row_def linked_def) (auto simp: last_no_def)
qed

lemma cursor_down_once_ok:
  assumes "screen_ok e w h m s"
  shows "total_ctl (\<lambda>s'. screen_ok e w h m s' \<and> cursor_x s' = cursor_x s) (cursor_down_once honor s)"
proof (cases "cursor_y s < (if honor then scroll_region_bottom s else bottom_row s)")
  case False
  with assms show ?thesis by (auto simp: cursor_down_once_def)
next
  case True
  have f: "frame_ok e w h m s" using assms by (simp add: screen_ok_def)
  have "cursor_y s < h - 1" using True frame_okD(7,16) [OF f] by (auto split: if_splits)
  from step_down_next [OF assms this] obtain p t where
    t: "step_down (current s) (s\<lparr>cursor_y := cursor_y s + 1\<rparr>) = Inr (p, t)"
      "screen_ok e w h m (t\<lparr>current := p\<rparr>)" "cursor_x t = cursor_x s"
    by (auto simp: total_res_iff)
  let ?t = "t\<lparr>current := p\<rparr>"
  have ok: "screen_ok e w h m ?t" "cursor_x ?t = cursor_x s" using t by simp_all
  have "total_res (kept e w h m ?t)
      (on_current (\<lambda>l. pad_colors (nat (cursor_x ?t - l_length l)) (console_attr ?t) l) ?t)"
    using ok(1) screen_ok_linked [OF ok(1)] frame_okD(3,4,11) [of e w h m ?t]
    by (intro on_current_kept pad_colors_ok) (auto simp: screen_ok_def line_ok_def)
  from screen_kept [OF ok(1) this] ok t(1) True show ?thesis
    by (auto simp: cursor_down_once_def next_line_ok [OF screen_ok_linked [OF assms]] Let_def
        elim: total_res_mono)
qed

lemma cursor_down_ok:
  assumes "screen_ok e w h m s"
  shows "total_res (\<lambda>s'. screen_ok e w h m s' \<and> cursor_x s' = cursor_x s) (cursor_down n honor s)"
  using assms unfolding cursor_down_def total_res_finish
  by (intro total_repeat_ctl) (auto intro: total_ctl_mono [OF cursor_down_once_ok])

lemma cursor_left_ok:
  assumes "screen_ok e w h m s"
  shows "total_res (screen_ok e w h m) (cursor_left n honor s)"
proof -
  have "total_ctl (screen_ok e w h m) (cursor_left_once honor s)" if "screen_ok e w h m s" for s
    using that frame_okD(10,11) [of e w h m s]
    by (auto simp: cursor_left_once_def intro!: screen_ok_x) (auto simp: screen_ok_def)
  with assms show ?thesis
    unfolding cursor_left_def total_res_finish by (intro total_repeat_ctl) auto
qed

text \<open>The right margin of a screen that has no double-width line.\<close>

lemma cursor_margin_ok:
  assumes "screen_ok e w h m s"
  shows "cursor_margin s = Inr (w - 1)"
proof -
  have f: "frame_ok e w h m s" using assms by (simp add: screen_ok_def)
  obtain l where "get_line s (current s) = Inr l" "line_ok m l"
    using get_line_ok [OF f screen_ok_linked [OF assms]] by blast
  then show ?thesis
    using frame_okD(6,17) [OF f] by (simp add: cursor_margin_def halve_margin_def line_ok_def)
qed

lemma push_space_ok:
  "line_ok m l \<Longrightarrow> l_length l < m \<Longrightarrow> m \<le> 256 \<Longrightarrow> total_res (line_ok m) (push_space a l)"
  using put_cell_line_ok [of m l "l_length l" 32 a]
  by (auto simp: push_space_def line_ok_def elim!: total_res_mono)

text \<open>One column to the right, unless the cursor is in the last column.\<close>

lemma cursor_right_once_ok:
  assumes "screen_ok e w h m s"
  shows "total_res (\<lambda>s'. screen_ok e w h m s' \<and> cursor_y s' = cursor_y s \<and>
           cursor_x s' = min (w - 1) (cursor_x s + 1)) (cursor_right 1 False s)"
proof -
  let ?s = "clear_wrap_flag 1 s"
  have ok: "screen_ok e w h m ?s" using assms by simp
  have f: "frame_ok e w h m ?s" using ok by (simp add: screen_ok_def)
  note d = frame_okD(2,3,4,10,11) [OF f]
  have step: "cursor_right 1 False s = finish (seq_ctl (cursor_right_once False (w - 1) ?s)
      (repeat_ctl 0 (cursor_right_once False (w - 1))))"
    by (simp add: cursor_right_def Let_def cursor_margin_ok [OF ok])
  show ?thesis
  proof (cases "cursor_x s < w - 1")
    case False
    with d have "cursor_x s = w - 1" by simp
    with ok show ?thesis by (simp add: step cursor_right_once_def)
  next
    case True
    have "total_res (kept e w h m ?s)
        (on_current (\<lambda>l. if l_length l \<le> cursor_x ?s then push_space (current_color ?s) l else Inr l) ?s)"
      using f screen_ok_linked [OF ok] True d by (intro on_current_kept) (auto intro: push_space_ok)
    from screen_kept [OF ok this] obtain t where
      t: "on_current (\<lambda>l. if l_length l \<le> cursor_x ?s then push_space (current_color ?s) l else Inr l) ?s = Inr t"
        "screen_ok e w h m t" "cursor_x t = cursor_x s" "cursor_y t = cursor_y s"
      by (auto simp: total_res_iff)
    have "screen_ok e w h m (t\<lparr>cursor_x := cursor_x t + 1\<rparr>)"
      using t(2,3) True d(4) by (intro screen_ok_x) simp_all
    with t True show ?thesis by (simp add: step cursor_right_once_def)
  qed
qed

lemma cursor_right_ok:
  assumes "screen_ok e w h m s"
  shows "total_res (screen_ok e w h m) (cursor_right n False s)"
proof -
  have once: "total_ctl (screen_ok e w h m) (cursor_right_once False (w - 1) s)" if "screen_ok e w h m s" for s
  proof -
    have "screen_ok e w h m (clear_wrap_flag 0 s)" "clear_wrap_flag 0 s = s"
      using that by (simp_all add: clear_wrap_flag_def)
    have f: "frame_ok e w h m s" using that by (simp add: screen_ok_def)
    note d = frame_okD(2,3,4,10,11) [OF f]
    have "total_res (kept e w h m s)
        (on_current (\<lambda>l. if l_length l \<le> cursor_x s then push_space (current_color s) l else Inr l) s)"
      if "cursor_x s < w - 1"
      using f screen_ok_linked [OF \<open>screen_ok e w h m s\<close>] that d by (intro on_current_kept) (auto intro: push_space_ok)
    from screen_kept [OF that this] show ?thesis
      using that d by (auto simp: cursor_right_once_def elim!: total_res_mono intro!: screen_ok_x)
  qed
  have ok: "screen_ok e w h m (clear_wrap_flag n s)" using assms by simp
  then show ?thesis
    by (auto simp: cursor_right_def Let_def cursor_margin_ok [OF ok] intro: total_repeat_ctl once)
qed

lemma cursor_position_ok:
  assumes "screen_ok e w h m s" "0 \<le> row" "0 \<le> col"
  shows "total_res (\<lambda>s'. screen_ok e w h m s' \<and> cursor_x s' = min col (w - 1)) (cursor_position row col s)"
proof -
  have f: "frame_ok e w h m s" using assms by (simp add: screen_ok_def)
  let ?x = "if WIDTH s - 1 < col then WIDTH s - 1 else col"
  have ok: "screen_ok e w h m (s\<lparr>cursor_x := ?x\<rparr>)"
    using assms frame_okD(2,6) [OF f] by (intro screen_ok_x) auto
  then show ?thesis
    using assms frame_okD(6,17) [OF f] cursor_up_ok [OF ok] cursor_down_ok [OF ok]
    by (auto simp: cursor_position_def cursor_margin_ok [OF assms(1)] Let_def min_def elim!: total_res_mono)
qed

section \<open>A new line at the bottom of the screen\<close>

text \<open>
  When the buffer fills the screen, a new line moves all rows up by one: either the buffer
  grows, or its oldest line goes, or, when the scrollback is off, the top line of the screen.
\<close>

lemma new_line_full:
  assumes "frame_ok e w h m s" "h \<le> int (length (lines s))" "current s = last_no s"
  shows "total_res (\<lambda>s'. frame_ok e w h m s' \<and> last_no s' = last_no s + 1 \<and>
           top_no s' = top_no s + 1 \<and> linked s' (last_no s) \<and> cursor_x s' = cursor_x s \<and>
           cursor_y s' = cursor_y s) (new_scrollback_line s)"
proof -
  let ?t = "s\<lparr>lines := lines s @ [fresh_line s], position := last_no s + 1\<rparr>"
  note d = frame_okD [OF assms(1)]
  have top_eq: "top_no s = last_no s - h + 1" and first: "first_no s \<le> top_no s"
    using assms(2) d(7) by (auto simp: top_no_def last_no_def)
  have new: "new_scrollback_line s =
      (if must_roll ?t then if scrollback_enabled ?t then drop_buffer_line ?t else drop_top_line (Some (top_no s)) ?t
       else Inr (?t\<lparr>scrollback_lines := scrollback_lines ?t + 1\<rparr>))"
    using assms(1) d(8) find_top_ok [OF assms(1)] by (simp add: new_scrollback_line_def)
  have fresh: "line_ok m (fresh_line s)" by (rule fresh_line_ok [OF assms(1)])
  consider "\<not> must_roll ?t" | "must_roll ?t" "scrollback_enabled s" | "must_roll ?t" "\<not> scrollback_enabled s"
    by blast
  then show ?thesis
  proof cases
    case 1
    let ?u = "?t\<lparr>scrollback_lines := scrollback_lines ?t + 1\<rparr>"
    have "frame_ok e w h m ?u"
      using assms(1) fresh by (auto simp: frame_ok_def last_no_def bottom_row_def)
    with 1 first top_eq d(1,7) show ?thesis
      by (auto simp: new top_no_def last_no_def bottom_row_def linked_def)
  next
    case 2
    let ?u = "?t\<lparr>lines := drop 1 (lines ?t), first_no := first_no s + 1, buffer_no := first_no s + 1\<rparr>"
    have b: "buffer_no s = first_no s" using assms(1) 2 by (simp add: frame_ok_def)
    have len: "2 \<le> length (lines s)" using assms(2) d(1) by linarith
    have "drop_buffer_line ?t = Inr ?u"
      using b len d(8) by (simp add: drop_buffer_line_def next_line_def linked_def last_no_def the_line_def)
    moreover have "frame_ok e w h m ?u"
      using assms(1) fresh len
      by (auto simp: frame_ok_def last_no_def bottom_row_def dest!: in_set_dropD)
    ultimately show ?thesis
      using 2 len first top_eq d(1,7) by (auto simp: new top_no_def last_no_def bottom_row_def linked_def)
  next
    case 3
    let ?i = "nat (top_no s - first_no s)"
    let ?u = "?t\<lparr>lines := take ?i (lines ?t) @ drop (?i + 1) (lines ?t), first_no := first_no s + 1,
                   buffer_no := (if buffer_no s < top_no s then buffer_no s + 1 else buffer_no s)\<rparr>"
    have len: "2 \<le> length (lines s)" using assms(2) d(1) by linarith
    have i: "?i < length (lines s)" using first top_eq d(1) by (simp add: last_no_def)
    have u: "drop_top_line (Some (top_no s)) ?t = Inr ?u"
      using first top_eq d(1) assms(3)
      by (auto simp: drop_top_line_def next_line_def linked_def last_no_def the_line_def)
    have n: "length (lines ?u) = length (lines s)" using i by simp
    have "\<forall>l \<in> set (lines ?u). line_ok m l"
      using assms(1) fresh i
      by (auto simp: frame_ok_def dest!: in_set_takeD in_set_dropD)
    with n have "frame_ok e w h m ?u"
      using assms(1) 3 len unfolding frame_ok_def
      by (auto simp: last_no_def bottom_row_def simp del: length_append)
    with u n 3 first top_eq d(1,7) show ?thesis
      by (auto simp: new top_no_def last_no_def bottom_row_def linked_def simp del: length_append)
  qed
qed

lemma step_down_bottom:
  assumes "screen_ok e w h m s" "cursor_y s = h - 1"
  shows "total_res (\<lambda>(p, s'). p = current s + 1 \<and> frame_ok e w h m s' \<and> p = last_no s' \<and>
           top_no s' = top_no s + 1 \<and> cursor_x s' = cursor_x s \<and> cursor_y s' = cursor_y s)
           (step_down (current s) s)"
proof -
  have f: "frame_ok e w h m s" and r: "at_row s" using assms(1) by (simp_all add: screen_ok_def)
  have last: "current s = last_no s" and len: "h \<le> int (length (lines s))"
    using assms(2) r frame_okD(1,7) [OF f] top_no_bounds [OF f]
    by (auto simp: at_row_def top_no_def last_no_def)
  from new_line_full [OF f len last] obtain t where
    t: "new_scrollback_line s = Inr t" "frame_ok e w h m t" "last_no t = last_no s + 1"
       "top_no t = top_no s + 1" "linked t (last_no s)" "cursor_x t = cursor_x s" "cursor_y t = cursor_y s"
    by (auto simp: total_res_iff)
  then show ?thesis
    using screen_ok_linked [OF assms(1)] last
    by (simp add: step_down_def next_line_ok the_line_def)
qed

text \<open>The step of \<open>cursor_linefeed\<close> and of the line wrap inside the screen.\<close>

lemma step_down_inside:
  assumes "screen_ok e w h m s" "cursor_y s < h - 1"
  shows "total_res (\<lambda>(p, s'). screen_ok e w h m (s'\<lparr>current := p, cursor_y := cursor_y s + 1\<rparr>) \<and>
           cursor_x s' = cursor_x s \<and> cursor_y s' = cursor_y s \<and> bottom_row s' = h - 1) (step_down (current s) s)"
proof -
  have f: "frame_ok e w h m s" and r: "at_row s" using assms(1) by (simp_all add: screen_ok_def)
  have "current s < top_no s + h - 1" using r assms(2) by (simp add: at_row_def)
  from step_down_kept [OF f screen_ok_linked [OF assms(1)] this] obtain t where
    t: "step_down (current s) s = Inr (current s + 1, t)" "kept e w h m s t" "linked t (current s + 1)"
    by (auto simp: total_res_iff)
  have ft: "frame_ok e w h m t" and k: "keeps s t" using t(2) by (simp_all add: kept_def)
  have "frame_ok e w h m (t\<lparr>cursor_y := cursor_y s + 1\<rparr>)"
    using ft assms(2) frame_okD(12) [OF f] by (intro frame_ok_cursor) auto
  moreover have "at_row (t\<lparr>current := current s + 1, cursor_y := cursor_y s + 1\<rparr>)"
    using r t(3) keeps_top [OF k]
    by (simp add: at_row_def top_no_def last_no_def bottom_row_def linked_def)
  ultimately have "screen_ok e w h m (t\<lparr>current := current s + 1, cursor_y := cursor_y s + 1\<rparr>)"
    unfolding screen_ok_def by (simp add: frame_ok_def last_no_def bottom_row_def)
  then show ?thesis using t(1) keepsD [OF k] frame_okD(7) [OF f] by simp
qed

lemma mark_dirty_kept:
  "frame_ok e w h m s \<Longrightarrow> (case q of None \<Rightarrow> True | Some p \<Rightarrow> linked s p) \<Longrightarrow>
   total_res (kept e w h m s) (mark_dirty n q s)"
proof (induction n q s rule: mark_dirty.induct)
  case (3 n p s)
  have l: "linked s p" using 3 by simp
  have "total_res (kept e w h m s) (on_line p (\<lambda>l. Inr (l\<lparr>dirty := True\<rparr>)) s)"
    using 3 by (intro on_line_kept) auto
  then obtain t where t: "on_line p (\<lambda>l. Inr (l\<lparr>dirty := True\<rparr>)) s = Inr t" "kept e w h m s t"
    by (auto simp: total_res_iff)
  let ?q = "if p = first_no t then None else Some (p - 1)"
  have lt: "linked t p" "frame_ok e w h m t" using t(2) l keeps_linked by (auto simp: kept_def)
  then have q: "prev_line t p = Inr ?q" "case ?q of None \<Rightarrow> True | Some p \<Rightarrow> linked t p"
    by (auto simp: prev_line_ok linked_def)
  from "3.IH" [OF lt(2) q(2)] t q show ?case
    by (auto elim!: total_res_mono intro: kept_trans)
qed (simp_all add: kept_refl)

section \<open>Line feed, carriage return, form feed\<close>

definition home_of :: "bool \<Rightarrow> screen \<Rightarrow> int" where
  "home_of new_line_mode s = (if new_line_mode then 0 else cursor_x s)"

lemma cursor_linefeed_ok:
  assumes "screen_ok e w h m s"
  shows "total_res (\<lambda>s'. screen_ok e w h m s' \<and> cursor_x s' = home_of b s) (cursor_linefeed b s)"
proof -
  have f: "frame_ok e w h m s" and r: "at_row s" using assms by (simp_all add: screen_ok_def)
  note d = frame_okD [OF f]
  have fin: "total_res (\<lambda>s'. screen_ok e w h m s' \<and> cursor_x s' = home_of b s) (cursor_linefeed b s)"
    if "total_res (\<lambda>s'. screen_ok e w h m s' \<and> cursor_x s' = cursor_x s)
          (if cursor_y s < scroll_region_bottom s
           then bind_res (step_down (current s) (s\<lparr>cursor_y := cursor_y s + 1\<rparr>)) (\<lambda>(p, s). Inr (s\<lparr>current := p\<rparr>))
           else if scroll_region_bottom s = bottom_row s \<and> scroll_region_top s = 0
           then bind_res (step_down (current s) s) (\<lambda>(p, s).
                bind_res (on_line p (\<lambda>l. Inr (l\<lparr>l_length :=
                  (if reverse_video s then WIDTH s else cursor_x s)\<rparr>)) (s\<lparr>current := p\<rparr>)) (\<lambda>s.
                mark_dirty (nat (bottom_row s)) (Some (position s)) s))
           else scrolling_region_scroll_up (scroll_region_top s) (scroll_region_bottom s) 1 s)"
    using that d(2) unfolding cursor_linefeed_def
    by (auto simp: home_of_def Let_def elim!: total_res_mono intro!: screen_ok_x)
  consider (inside) "cursor_y s < scroll_region_bottom s"
    | (bottom) "\<not> cursor_y s < scroll_region_bottom s" "scroll_region_bottom s = bottom_row s" "scroll_region_top s = 0"
    | (region) "\<not> cursor_y s < scroll_region_bottom s" "\<not> (scroll_region_bottom s = bottom_row s \<and> scroll_region_top s = 0)"
    by blast
  then show ?thesis
  proof cases
    case inside
    have "cursor_y s < h - 1" using inside d(16) by simp
    from step_down_next [OF assms this] inside show ?thesis
      by (intro fin) (auto elim!: total_res_mono)
  next
    case bottom
    have y: "cursor_y s = h - 1" using bottom d by simp
    from step_down_bottom [OF assms y] obtain t where
      t: "step_down (current s) s = Inr (current s + 1, t)" "frame_ok e w h m t" "current s + 1 = last_no t"
         "top_no t = top_no s + 1" "cursor_x t = cursor_x s" "cursor_y t = cursor_y s"
      by (auto simp: total_res_iff)
    let ?t = "t\<lparr>current := current s + 1\<rparr>"
    have ok: "screen_ok e w h m ?t"
      using t r by (simp add: screen_ok_def at_row_def last_no_def)
    have "total_res (kept e w h m ?t) (on_line (current ?t) (\<lambda>l. Inr (l\<lparr>l_length :=
              (if reverse_video t then WIDTH t else cursor_x t)\<rparr>)) ?t)"
      using t(2) screen_ok_linked [OF ok] frame_okD(2,3,6,10,11) [OF t(2)]
      by (intro on_line_kept) (auto simp: line_ok_def)
    then obtain u where u: "on_line (current ?t) (\<lambda>l. Inr (l\<lparr>l_length :=
              (if reverse_video t then WIDTH t else cursor_x t)\<rparr>)) ?t = Inr u" "kept e w h m ?t u"
      by (auto simp: total_res_iff)
    have fu: "frame_ok e w h m u" using u(2) by (simp add: kept_def)
    have "linked u (position u)" using frame_okD(9) [OF fu] frame_ok_order [OF fu] by (simp add: linked_def)
    then have "total_res (kept e w h m u) (mark_dirty (nat (bottom_row u)) (Some (position u)) u)"
      using fu by (intro mark_dirty_kept) auto
    then have "total_res (kept e w h m ?t) (mark_dirty (nat (bottom_row u)) (Some (position u)) u)"
      using u(2) by (auto elim!: total_res_mono intro: kept_trans)
    from screen_kept [OF ok this] t u bottom show ?thesis
      by (intro fin) (auto elim!: total_res_mono)
  next
    case region
    have "total_res (kept e w h m s) (scrolling_region_scroll_up (scroll_region_top s) (scroll_region_bottom s) 1 s)"
      using f d(14,16) unfolding scrolling_region_scroll_up_def
      by (intro rectangle_scroll_up_kept) (auto simp: Q_MAX_LINE_LENGTH_def)
    from screen_kept [OF assms this] region show ?thesis
      by (intro fin) (auto elim!: total_res_mono)
  qed
qed

lemma cursor_carriage_return_ok:
  assumes "screen_ok e w h m s"
  shows "total_res (\<lambda>s'. screen_ok e w h m s' \<and> cursor_x s' = 0) (cursor_carriage_return s)"
proof -
  have "frame_ok e w h m s" using assms by (simp add: screen_ok_def)
  from frame_okD(2) [OF this] have ok: "screen_ok e w h m (s\<lparr>cursor_x := 0\<rparr>)"
    using assms by (intro screen_ok_x) auto
  then show ?thesis
    using cursor_linefeed_ok [OF ok, of False]
    by (auto simp: cursor_carriage_return_def Let_def home_of_def elim!: total_res_mono)
qed

lemma cursor_formfeed_ok:
  assumes "screen_ok e w h m s"
  shows "total_res (\<lambda>s'. screen_ok e w h m s' \<and> cursor_x s' = 0) (cursor_formfeed s)"
proof -
  have "total_res (screen_ok e w h m)
      (repeat_res (nat (2 * bottom_row s - cursor_y s + 1)) (cursor_linefeed False) s)"
    using assms by (intro total_repeat_res) (auto elim!: total_res_mono [OF cursor_linefeed_ok])
  then show ?thesis
  proof (simp only: cursor_formfeed_def total_res_bind, elim total_res_mono, goal_cases)
    case (1 t)
    note ok = \<open>screen_ok e w h m t\<close>
    then have f: "frame_ok e w h m t" by (simp add: screen_ok_def)
    note d = frame_okD(2,3,4,6,7) [OF f]
    have "total_res (kept e w h m t) (erase_screen 0 0 (bottom_row t) (WIDTH t - 1) False t)"
      using f d by (intro erase_screen_kept) auto
    from screen_kept [OF ok this] show ?case
    proof (rule total_res_mono, goal_cases)
      case (1 u)
      then have "screen_ok e w h m u" by simp
      from cursor_position_ok [OF this, of 0 0] d(1) show ?case by (simp add: min_def)
    qed
  qed
qed

section \<open>Printing\<close>

lemma wrap_current_line_ok:
  assumes "screen_ok e w h m s"
  shows "total_res (\<lambda>s'. screen_ok e w h m s' \<and> cursor_x s' = 0) (wrap_current_line s)"
proof -
  have f: "frame_ok e w h m s" and r: "at_row s" using assms by (simp_all add: screen_ok_def)
  note d = frame_okD(2,12,13) [OF f]
  show ?thesis
  proof (cases "cursor_y s < h - 1")
    case True
    from step_down_inside [OF assms this] obtain p t where
      t: "step_down (current s) s = Inr (p, t)" "cursor_y t = cursor_y s" "bottom_row t = h - 1"
        "screen_ok e w h m (t\<lparr>current := p, cursor_y := cursor_y s + 1\<rparr>)"
      by (auto simp: total_res_iff)
    from screen_ok_x [OF t(4), of 0] d(1) t(1-3) True show ?thesis
      by (simp add: wrap_current_line_def bottom_row_def)
  next
    case False
    with d have y: "cursor_y s = h - 1" by simp
    from step_down_bottom [OF assms y] obtain t where
      t: "step_down (current s) s = Inr (current s + 1, t)" "frame_ok e w h m t" "current s + 1 = last_no t"
         "top_no t = top_no s + 1" "cursor_y t = cursor_y s"
      by (auto simp: total_res_iff)
    have ok: "screen_ok e w h m (t\<lparr>current := current s + 1\<rparr>)"
      using t r by (simp add: screen_ok_def at_row_def last_no_def)
    have "bottom_row t = h - 1" using frame_okD(7) [OF t(2)] .
    with screen_ok_x [OF ok, of 0] d(1) t(1,5) y show ?thesis
      by (simp add: wrap_current_line_def bottom_row_def)
  qed
qed

lemma store_char_ok:
  assumes "frame_ok e w h m s" "line_ok m l"
  shows "total_res (line_ok m) (store_char c s l)"
proof -
  note d = frame_okD(2,3,4,10,11,18) [OF assms(1)]
  have "0 \<le> cursor_x s" "cursor_x s < 256" using d by auto
  moreover have "l_length l \<le> cursor_x s \<Longrightarrow> l_length l < 256" using d by linarith
  ultimately show ?thesis
    using assms(2) d put_cell_line_ok [of m l "cursor_x s" c "current_color s"]
      put_cell_line_ok [of m l "l_length l" c "current_color s"]
    by (auto simp: store_char_def Let_def line_ok_def elim!: total_res_mono)
qed

text \<open>
  Printing in an emulation outside the VT100 family: the cursor goes one column to the right,
  from the right margin to the start of the next line when the line wrap is on.
\<close>

definition column_after :: "screen \<Rightarrow> int" where
  "column_after s =
     (if cursor_x s < print_margin s then cursor_x s + 1
      else if cursor_x s = print_margin s \<and> line_wrap s then 0 else cursor_x s)"

lemma print_margin_bounds:
  assumes "frame_ok e w h m s"
  shows "39 \<le> print_margin s" "print_margin s < w"
  using frame_okD(2,6,17) [OF assms] by (auto simp: print_margin_def split: q_emulation.split)

lemma print_margin_kept: "keeps s t \<Longrightarrow> print_margin t = print_margin s"
  by (erule keepsE, hypsubst) (simp add: print_margin_def split: q_emulation.split)

lemma print_glyph_ok:
  assumes "screen_ok e w h m s" "\<not> vt100_like e"
  shows "total_res (\<lambda>s'. screen_ok e w h m s' \<and> cursor_x s' = column_after s) (print_glyph c s)"
proof -
  have f: "frame_ok e w h m s" and r: "at_row s" using assms(1) by (simp_all add: screen_ok_def)
  note d = frame_okD(2,10,11) [OF f]
  have "total_res (kept e w h m s) (on_current (\<lambda>l. Inr (l\<lparr>dirty := True\<rparr>)) s)"
    using f screen_ok_linked [OF assms(1)] by (intro on_current_kept) auto
  then obtain t where t: "on_current (\<lambda>l. Inr (l\<lparr>dirty := True\<rparr>)) s = Inr t" "kept e w h m s t"
    by (auto simp: total_res_iff)
  have okt: "screen_ok e w h m t" using kept_screen_ok [OF t(2) r] .
  have ft: "frame_ok e w h m t" and k: "keeps s t" using t(2) by (simp_all add: kept_def)
  obtain l where l: "get_line t (current t) = Inr l" "line_ok m l"
    using get_line_ok [OF ft screen_ok_linked [OF okt]] by blast
  let ?M = "print_margin s"
  have M: "halve_margin (double_width l) (print_margin t) = ?M"
    using l(2) print_margin_kept [OF k] by (simp add: halve_margin_def line_ok_def)
  let ?wrap = "cursor_x s = ?M \<and> line_wrap s"
  obtain b where before: "before_print ?M t = Inr (?wrap, t\<lparr>vt100_wrap_line_flag := b\<rparr>)"
    and b: "cursor_x s < ?M \<Longrightarrow> \<not> b"
  proof (cases "cursor_x s < ?M")
    case True
    with keepsD(3) [OF k] that [of False] show ?thesis by (simp add: before_print_def)
  next
    case False
    moreover have "t\<lparr>vt100_wrap_line_flag := vt100_wrap_line_flag t\<rparr> = t" by (cases t) simp
    ultimately show ?thesis
      using keepsD(3,14) [OF k] frame_okD(5) [OF ft] assms(2) that [of "vt100_wrap_line_flag t"]
      by (auto simp: before_print_def)
  qed
  let ?t = "t\<lparr>vt100_wrap_line_flag := b\<rparr>"
  have okb: "screen_ok e w h m ?t" using okt by simp
  have fb: "frame_ok e w h m ?t" using ft by simp
  have "total_res (kept e w h m ?t) (on_current (store_char c ?t) ?t)"
    using fb screen_ok_linked [OF okb] by (intro on_current_kept store_char_ok)
  then obtain u where u: "on_current (store_char c ?t) ?t = Inr u" "kept e w h m ?t u"
    by (auto simp: total_res_iff)
  have rb: "at_row ?t" using okb by (simp add: screen_ok_def)
  have oku: "screen_ok e w h m u" using kept_screen_ok [OF u(2) rb] .
  have ku: "keeps ?t u" using u(2) by (simp add: kept_def)
  have x: "cursor_x u = cursor_x s" "vt100_wrap_line_flag u = b"
    using keepsD(3,16) [OF ku] keepsD(3) [OF k] by simp_all
  have after: "screen_ok e w h m (after_print ?M u)"
    "cursor_x (after_print ?M u) = (if cursor_x s < ?M then cursor_x s + 1 else cursor_x s)"
    using oku x b d print_margin_bounds [OF f] by (auto simp: after_print_def intro!: screen_ok_x)
  from wrap_current_line_ok [OF after(1)] show ?thesis
    using t(1) l(1) M before u(1) after
    by (auto simp: print_glyph_def Let_def column_after_def elim!: total_res_mono)
qed

lemma print_character_ok:
  assumes "screen_ok e w h m s" "\<not> vt100_like e"
  shows "total_res (\<lambda>s'. screen_ok e w h m s' \<and> cursor_x s' =
           (if c = 7 \<or> c = 0 \<and> \<not> display_null s then cursor_x s else column_after s)) (print_character c s)"
proof -
  have f: "frame_ok e w h m s" and r: "at_row s" using assms(1) by (simp_all add: screen_ok_def)
  note d = frame_okD(2,3,4,10,11) [OF f]
  have "total_res (line_ok m) (pad_line (cursor_x s) (cursor_x s) (console_attr s) l)" if "line_ok m l" for l
    using that d by (intro total_res_mono [OF pad_line_ok [where m = m and m'' = m]]) auto
  then have "total_res (kept e w h m s) (on_current (pad_line (cursor_x s) (cursor_x s) (console_attr s)) s)"
    using f screen_ok_linked [OF assms(1)] by (intro on_current_kept)
  then obtain t where t: "on_current (pad_line (cursor_x s) (cursor_x s) (console_attr s)) s = Inr t"
    "kept e w h m s t"
    by (auto simp: total_res_iff)
  have ok: "screen_ok e w h m t" using kept_screen_ok [OF t(2) r] .
  have k: "keeps s t" using t(2) by (simp add: kept_def)
  have "column_after t = column_after s" "display_null t = display_null s" "cursor_x t = cursor_x s"
    using keepsD(3,14) [OF k] print_margin_kept [OF k] k
    by (auto simp: column_after_def elim!: keepsE)
  with t(1) ok print_glyph_ok [OF ok assms(2)] show ?thesis by (simp add: print_character_def)
qed
end
