(* ===== verification/Term_Emulator.thy ===== *)
theory Term_Emulator
  imports Term_Cursor
begin

text \<open>
  What the emulations share (\<open>emulation.c\<close>): the buffer of a sequence that is not complete, the
  status an emulation returns with its character, the control characters and the TTY. An
  emulation is a function from the received byte and the state to a status and a new state;
  the character it returns through \<open>*to_screen\<close> is the field \<open>to_screen\<close>, the variable of the
  caller. What is written to the remote side is appended to \<open>sent\<close>; the codepage, the answer
  to ENQ and the options are fields. Repainting the screen and playing music are left out.
\<close>

section \<open>The state\<close>

datatype emul_status = NO_CHAR_YET | ONE_CHAR | MANY_CHARS | REPEAT_STATE

datatype vt52_scan_state = V_SCAN_NONE | V_SCAN_ESC | V_SCAN_Y_1 | V_SCAN_Y_2 | V_SCAN_CSI | V_SCAN_CSI_PARAM

datatype ansi_scan_state =
    A_SCAN_NONE | A_SCAN_ESC | A_SCAN_START_SEQUENCE | A_SCAN_COUNT | A_SCAN_COUNT_TWO
  | A_SCAN_COUNT_MANY | A_SCAN_MUSIC

record emul_buffer =
  emul_buf :: "byte list"        \<comment> \<open>\<open>q_emul_buffer\<close>\<close>
  emul_n :: nat                  \<comment> \<open>\<open>q_emul_buffer_n\<close>\<close>
  emul_i :: nat                  \<comment> \<open>\<open>q_emul_buffer_i\<close>\<close>

record terminal =
  scr :: screen
  ebuf :: emul_buffer
  to_screen :: int
  last_state :: emul_status
  repeat_state :: "byte list"    \<comment> \<open>\<open>q_emul_repeat_state_buffer\<close>\<close>
  bytes_received :: u64
  codepage :: q_codepage
  answerback :: "byte list"
  sent :: "byte list"
  vt52_color :: bool
  hold_screen_mode :: bool
  ansi_music :: bool
  vt52_scan :: vt52_scan_state
  graphics_mode :: bool
  alternate_keypad_mode :: bool
  vt52_count :: nat
  vt52_attributes :: attr
  ansi_scan :: ansi_scan_state
  saved_cursor_x :: int
  saved_cursor_y :: int
  rep_character :: int
  private_mode_flag :: bool
  dec_private_mode_flag :: bool
  music_buffer :: "byte list"
  music_buffer_n :: nat
  ansi_count :: nat
  ansi_attributes :: attr

definition EMUL_BUFFER_SIZE :: nat where
  "EMUL_BUFFER_SIZE = 128"

type_synonym emulator = "byte \<Rightarrow> terminal \<Rightarrow> fault + emul_status \<times> terminal"

definition on_screen :: "(screen \<Rightarrow> fault + screen) \<Rightarrow> terminal \<Rightarrow> fault + terminal" where
  "on_screen f t = bind_res (f (scr t)) (\<lambda>s. Inr (t\<lparr>scr := s\<rparr>))"

definition qodem_write :: "byte list \<Rightarrow> terminal \<Rightarrow> terminal" where
  "qodem_write bs t = t\<lparr>sent := sent t @ bs\<rparr>"

definition map_char :: "terminal \<Rightarrow> byte \<Rightarrow> int" where
  "map_char t b = codepage_map_char (emulation (scr t)) (codepage t) b"

section \<open>The sequence buffer\<close>

definition empty_buffer :: emul_buffer where
  "empty_buffer = \<lparr>emul_buf = replicate EMUL_BUFFER_SIZE 0, emul_n = 0, emul_i = 0\<rparr>"

definition store_byte :: "byte \<Rightarrow> emul_buffer \<Rightarrow> fault + emul_buffer" where
  "store_byte b u =
     (if emul_n u < EMUL_BUFFER_SIZE
      then Inr (u\<lparr>emul_buf := (emul_buf u)[emul_n u := b], emul_n := emul_n u + 1\<rparr>)
      else Inl Buffer_overflow)"

definition read_byte :: "emul_buffer \<Rightarrow> nat \<Rightarrow> fault + byte" where
  "read_byte u c = (if c < EMUL_BUFFER_SIZE then Inr (emul_buf u ! c) else Inl Buffer_overflow)"

definition save_char :: "byte \<Rightarrow> terminal \<Rightarrow> fault + terminal" where
  "save_char b t =
     bind_res (store_byte b (ebuf t)) (\<lambda>u. Inr (t\<lparr>ebuf := u, to_screen := 1\<rparr>))"

text \<open>
  The end of every emulation that has met a byte it does not expect: the byte goes behind the
  others and the first one is shown. The scan state is reset by the caller.
\<close>

definition dump_sequence :: "byte \<Rightarrow> terminal \<Rightarrow> fault + emul_status \<times> terminal" where
  "dump_sequence b t =
     bind_res (store_byte b (ebuf t)) (\<lambda>u.
     bind_res (read_byte u (emul_i u)) (\<lambda>c.
       let t = t\<lparr>ebuf := u\<lparr>emul_i := emul_i u + 1\<rparr>, to_screen := uint c\<rparr> in
       if emul_n u = 1 then Inr (ONE_CHAR, t\<lparr>ebuf := u\<lparr>emul_i := 0, emul_n := 0\<rparr>\<rparr>)
       else Inr (MANY_CHARS, t)))"

section \<open>Numbers in a sequence\<close>

definition q_isdigit :: "byte \<Rightarrow> bool" where
  "q_isdigit b \<longleftrightarrow> 48 \<le> b \<and> b \<le> 57"

definition digit_value :: "byte \<Rightarrow> int" where
  "digit_value b = uint b - 48"

text \<open>
  \<open>ansi_ps\<close>: up to three digits from index \<open>c\<close> on; \<open>-1\<close> when there is none or a fourth. The
  second result is the index of the next byte.
\<close>

definition ansi_ps :: "emul_buffer \<Rightarrow> nat \<Rightarrow> fault + int \<times> nat" where
  "ansi_ps u c =
     bind_res (read_byte u c) (\<lambda>d1.
     if \<not> q_isdigit d1 then Inr (-1, c)
     else
       bind_res (read_byte u (c + 1)) (\<lambda>d2.
       let v = digit_value d1; (v, c) = (if q_isdigit d2 then (10 * v + digit_value d2, c + 2) else (v, c + 1)) in
       bind_res (read_byte u c) (\<lambda>d3.
       let (v, c) = (if q_isdigit d3 then (10 * v + digit_value d3, c + 1) else (v, c)) in
       bind_res (read_byte u c) (\<lambda>d4.
         Inr (if q_isdigit d4 then (-1, c) else (v, c))))))"

section \<open>Tabs\<close>

text \<open>
  \<open>while (cursor_x < limit) { step; if (cursor_x % 8 == 0) break; }\<close>. A step that does not move
  the cursor to the right does not do so the next time either: the loop does not end.
\<close>

lemma bind_res_cong [fundef_cong]:
  "m = m' \<Longrightarrow> (\<And>x. m' = Inr x \<Longrightarrow> f x = g x) \<Longrightarrow> bind_res m f = bind_res m' g"
  by (cases m') auto

function tab_loop :: "int \<Rightarrow> (screen \<Rightarrow> fault + screen) \<Rightarrow> screen \<Rightarrow> fault + screen" where
  "tab_loop limit step s =
     (if cursor_x s < limit
      then bind_res (step s) (\<lambda>s'.
             if c_rem (cursor_x s') 8 = 0 then Inr s'
             else if cursor_x s' \<le> cursor_x s then Inl Diverges
             else tab_loop limit step s')
      else Inr s)"
  by pat_completeness auto
termination
  by (relation "measure (\<lambda>(limit, step, s). nat (limit - cursor_x s))") auto

declare tab_loop.simps [simp del]

section \<open>Control characters and the TTY\<close>

definition print_tab :: "int \<Rightarrow> screen \<Rightarrow> fault + screen" where
  "print_tab limit s = tab_loop limit (print_character 32) s"

definition generic_handle_control_char :: "byte \<Rightarrow> terminal \<Rightarrow> fault + terminal" where
  "generic_handle_control_char b t =
     (if b = 0x05 then Inr (qodem_write (answerback t) t)
      else if b = 0x07 then Inr t
      else if b = 0x08 then on_screen (cursor_left 1 False) t
      else if b = 0x09 then on_screen (print_tab 80) t
      else if b = 0x0A \<or> b = 0x0B then on_screen (cursor_linefeed False) t
      else if b = 0x0C then on_screen cursor_formfeed t
      else if b = 0x0D then on_screen cursor_carriage_return t
      else on_screen (print_character (cp437_chars ! unat b)) t)"

text \<open>
  The underscore of the TTY: over a character it sets the underline attribute and moves the
  cursor to the right. It does not look at the right margin.
\<close>

definition underline_cell :: "int \<Rightarrow> attr \<Rightarrow> scrolline \<Rightarrow> fault + scrolline" where
  "underline_cell x a l = bind_res (color_at l x) (\<lambda>old. set_color x (old OR a) l)"

definition tty :: emulator where
  "tty b t =
     (let consumed = (\<lambda>m. bind_res m (\<lambda>t. Inr (NO_CHAR_YET, t\<lparr>to_screen := 1\<rparr>)));
          shown = Inr (ONE_CHAR, t\<lparr>to_screen := map_char t b\<rparr>)
      in
      if b = 0x05 then consumed (Inr (qodem_write (answerback t) t))
      else if b = 0x07 \<or> b = 0x0E \<or> b = 0x0F then consumed (Inr t)
      else if b = 0x08 then consumed (on_screen (cursor_left 1 False) t)
      else if b = 0x09 then consumed (on_screen (print_tab 80) t)
      else if b = 0x0A \<or> b = 0x0B \<or> b = 0x0C then consumed (on_screen (cursor_linefeed False) t)
      else if b = 0x0D then consumed (on_screen cursor_carriage_return t)
      else if b = 0x5F \<and> emulation (scr t) = Q_EMUL_TTY
      then
        let s = scr t in
        bind_res (get_line s (current s)) (\<lambda>l.
        bind_res (char_at l (cursor_x s)) (\<lambda>c.
          if c \<noteq> 32
          then consumed (on_screen (\<lambda>s. bind_res
                 (on_current (underline_cell (cursor_x s) (A_UNDERLINE (curses_lib s))) s)
                 (\<lambda>s. Inr (s\<lparr>cursor_x := cursor_x s + 1\<rparr>))) t)
          else shown))
      else shown)"

end
