(* ===== verification/Term_Vt52.thy ===== *)
theory Term_Vt52
  imports Term_Emulator
begin

text \<open>
  The VT52 (\<open>vt52.c\<close>) and the SGR sequence it shares with the ANSI emulation (\<open>ansi_color\<close> of
  \<open>ansi.c\<close>). The \<open>switch\<close> over the scan state is one definition per state; a \<open>break\<close> out of it
  is a call of \<open>vt52_unknown\<close>.
\<close>

section \<open>Colours\<close>

text \<open>The colour numbers of curses, in the order of the SGR parameters 30 to 37.\<close>

definition NO_COLOR_MASK :: "curses \<Rightarrow> attr" where
  "NO_COLOR_MASK cu = NOT (A_COLOR cu)"

text \<open>One parameter: what it does to the attributes, the foreground and the background.\<close>

definition sgr_parameter :: "curses \<Rightarrow> int \<Rightarrow> attr \<times> int \<times> int \<Rightarrow> attr \<times> int \<times> int" where
  "sgr_parameter cu ps st =
     (let (out, fg, bg) = st; tc = console_text cu;
          bold = (\<lambda>a. if tc_bold tc then a OR A_BOLD cu else a)
      in
      if ps = 0 then (bold A_NORMAL, tc_fg tc, tc_bg tc)
      else if ps = 1 then (out OR A_BOLD cu, fg, bg)
      else if ps = 2 then (out OR A_DIM cu, fg, bg)
      else if ps = 4 then (out OR A_UNDERLINE cu, fg, bg)
      else if ps = 5 then (out OR A_BLINK cu, fg, bg)
      else if ps = 7 then (out OR A_REVERSE cu, fg, bg)
      else if ps = 21 \<or> ps = 22 then (out AND NOT (A_DIM cu OR A_BOLD cu), fg, bg)
      else if ps = 24 then (out AND NOT (A_UNDERLINE cu), fg, bg)
      else if ps = 25 then (out AND NOT (A_BLINK cu), fg, bg)
      else if ps = 27 then (out AND NOT (A_REVERSE cu), fg, bg)
      else if 30 \<le> ps \<and> ps \<le> 37 then (out, curses_color cu (ps - 30), bg)
      else if ps = 38 then (bold out OR A_UNDERLINE cu, tc_fg tc, bg)
      else if ps = 39 then (bold out AND NOT (A_UNDERLINE cu), tc_fg tc, bg)
      else if 40 \<le> ps \<and> ps \<le> 47 then (out, fg, curses_color cu (ps - 40))
      else if ps = 49 then (out AND NOT (A_UNDERLINE cu), fg, tc_bg tc)
      else (out, fg, bg))"

text \<open>
  The loop over the parameters. The results are: whether they could be parsed, the attributes
  (which change in any case), and the index of the next byte.
\<close>

lemma ansi_ps_progress: "ansi_ps u c = Inr (v, c') \<Longrightarrow> v \<noteq> -1 \<Longrightarrow> c < c'"
  by (auto simp: ansi_ps_def bind_res_Inr Let_def split: if_splits prod.splits)

function sgr_loop ::
  "curses \<Rightarrow> emul_buffer \<Rightarrow> attr \<times> int \<times> int \<Rightarrow> nat \<Rightarrow> fault + bool \<times> attr \<times> nat" where
  "sgr_loop cu u st c =
     (if EMUL_BUFFER_SIZE \<le> c then Inr (False, fst st, c)
      else
        bind_res (ansi_ps u c) (\<lambda>(ps, c').
        if ps = -1 then Inr (False, fst st, c')
        else
          let st = sgr_parameter cu ps st in
          bind_res (read_byte u c') (\<lambda>b.
          if b \<noteq> 59
          then let (out, fg, bg) = st in Inr (True, out OR color_to_attr cu ((8 * fg) OR bg), c')
          else sgr_loop cu u st (c' + 1))))"
  by pat_completeness auto
termination
  by (relation "measure (\<lambda>(cu, u, st, c). EMUL_BUFFER_SIZE - c)") (auto dest: ansi_ps_progress)

declare sgr_loop.simps [simp del]

definition ansi_color :: "attr \<Rightarrow> nat \<Rightarrow> terminal \<Rightarrow> fault + bool \<times> attr \<times> nat" where
  "ansi_color out c t =
     (let cu = curses_lib (scr t); cc = color_from_attr cu (current_color (scr t))
      in sgr_loop cu (ebuf t) (out AND NO_COLOR_MASK cu, (cc AND 0x38) div 8, cc AND 0x07) c)"

definition normal_color :: "screen \<Rightarrow> attr" where
  "normal_color s = A_NORMAL OR console_attr s"

section \<open>The VT52\<close>

definition vt52_clear_state :: "terminal \<Rightarrow> terminal" where
  "vt52_clear_state t = t\<lparr>ebuf := empty_buffer, vt52_scan := V_SCAN_NONE, to_screen := 1\<rparr>"

text \<open>The graphics characters; entries of \<open>cp437_chars\<close> are named by their index there.\<close>

definition vt52_graphics :: "(byte \<times> int) list" where
  "vt52_graphics =
     [(0x5E, cp437_chars ! 0x20), (0x5F, cp437_chars ! 0x20), (0x60, cp437_chars ! 0x20),
      (0x61, cp437_chars ! 0xFE), (0x62, 0x215F),
      (0x63, cp437_chars ! 0xB0), (0x64, cp437_chars ! 0xB0), (0x65, cp437_chars ! 0xB0),
      (0x66, cp437_chars ! 0xF8), (0x67, cp437_chars ! 0xF1), (0x68, cp437_chars ! 0x1A),
      (0x69, 0x2026), (0x6A, 0x00F7), (0x6B, cp437_chars ! 0x19),
      (0x6C, 0x23BA), (0x6D, 0x23BA), (0x6E, 0x23BB), (0x6F, 0x23BB),
      (0x70, cp437_chars ! 0xC4), (0x71, cp437_chars ! 0xC4), (0x72, 0x23BC), (0x73, 0x23BC),
      (0x74, 0x2080), (0x75, 0x2081), (0x76, 0x2082), (0x77, 0x2083), (0x78, 0x2084),
      (0x79, 0x2085), (0x7A, 0x2086), (0x7B, 0x2087), (0x7C, 0x2088), (0x7D, 0x2089),
      (0x7E, 0x00B6)]"

definition map_character :: "bool \<Rightarrow> byte \<Rightarrow> int" where
  "map_character graphics b =
     (if graphics then (case map_of vt52_graphics b of Some c \<Rightarrow> c | None \<Rightarrow> uint b) else uint b)"

text \<open>A command that was understood: do it, clear the state, nothing to show yet.\<close>

definition vt52_done :: "fault + terminal \<Rightarrow> fault + emul_status \<times> terminal" where
  "vt52_done m = bind_res m (\<lambda>t. Inr (NO_CHAR_YET, vt52_clear_state t))"

definition vt52_collect :: "byte \<Rightarrow> vt52_scan_state \<Rightarrow> terminal \<Rightarrow> fault + emul_status \<times> terminal" where
  "vt52_collect b st t =
     bind_res (save_char b t) (\<lambda>t. Inr (NO_CHAR_YET, t\<lparr>vt52_scan := st\<rparr>))"

definition vt52_unknown :: emulator where
  "vt52_unknown b t = dump_sequence b (t\<lparr>vt52_scan := V_SCAN_NONE\<rparr>)"

definition is_cntrl :: "byte \<Rightarrow> bool" where
  "is_cntrl b \<longleftrightarrow> b < 32 \<or> b = 127"

definition vt52_tab :: "screen \<Rightarrow> fault + screen" where
  "vt52_tab s = tab_loop 80 (cursor_right 1 False) s"

definition vt52_none :: emulator where
  "vt52_none b t =
     (if b = 0x1B then vt52_collect b V_SCAN_ESC t
      else if b = 0x05 then vt52_done (Inr (qodem_write (answerback t) t))
      else if b = 0x08 then vt52_done (on_screen (cursor_left 1 False) t)
      else if b = 0x09 then vt52_done (on_screen vt52_tab t)
      else if b = 0x7F \<or> is_cntrl b then vt52_done (Inr t)
      else Inr (ONE_CHAR, t\<lparr>to_screen := map_character (graphics_mode t) b\<rparr>))"

text \<open>\<open>ESC Y row column\<close>: the row is in the buffer, the column is this byte.\<close>

definition vt52_y_2 :: emulator where
  "vt52_y_2 b t =
     bind_res (read_byte (ebuf t) 2) (\<lambda>r.
       let row = uint r - 32; col = uint b - 32;
           row = (if row < 0 then 0 else row); col = (if col < 0 then 0 else col)
       in vt52_done (on_screen (cursor_position row col) t))"

definition vt52_reverse_linefeed :: "screen \<Rightarrow> fault + screen" where
  "vt52_reverse_linefeed s = (if cursor_y s = 0 then scroll_down 1 s else cursor_up 1 False s)"

definition erase_to_end_of_screen :: "screen \<Rightarrow> fault + screen" where
  "erase_to_end_of_screen s =
     erase_screen (cursor_y s) (cursor_x s) (bottom_row s) (WIDTH s - 1) False s"

definition erase_to_end_of_line :: "screen \<Rightarrow> fault + screen" where
  "erase_to_end_of_line s =
     bind_res (get_line s (current s)) (\<lambda>l. erase_line (cursor_x s) (l_length l) False s)"

definition vt52_esc :: emulator where
  "vt52_esc b t =
     (if b = 0x41 then vt52_done (on_screen (cursor_up 1 False) t)
      else if b = 0x42 then vt52_done (on_screen (cursor_down 1 False) t)
      else if b = 0x43 then vt52_done (on_screen (cursor_right 1 False) t)
      else if b = 0x44 then vt52_done (on_screen (cursor_left 1 False) t)
      else if b = 0x45 then vt52_done (on_screen cursor_formfeed t)
      else if b = 0x46 then vt52_done (Inr (t\<lparr>graphics_mode := True\<rparr>))
      else if b = 0x47 then vt52_done (Inr (t\<lparr>graphics_mode := False\<rparr>))
      else if b = 0x48 then vt52_done (on_screen (cursor_position 0 0) t)
      else if b = 0x49 then vt52_done (on_screen vt52_reverse_linefeed t)
      else if b = 0x4A then vt52_done (on_screen erase_to_end_of_screen t)
      else if b = 0x4B then vt52_done (on_screen erase_to_end_of_line t)
      else if b = 0x59 then vt52_collect b V_SCAN_Y_1 t
      else if b = 0x5A then vt52_done (Inr (qodem_write [0x1B, 0x2F, 0x4B] t))
      else if b = 0x3D then vt52_done (Inr (t\<lparr>alternate_keypad_mode := True\<rparr>))
      else if b = 0x3E then vt52_done (Inr (t\<lparr>alternate_keypad_mode := False\<rparr>))
      else if b = 0x5B then
        if vt52_color t then vt52_collect b V_SCAN_CSI t
        else vt52_done (Inr (t\<lparr>hold_screen_mode := True\<rparr>))
      else if b = 0x5C then vt52_done (Inr (t\<lparr>hold_screen_mode := False\<rparr>))
      else vt52_unknown b t)"

definition set_color_of :: "attr \<Rightarrow> terminal \<Rightarrow> terminal" where
  "set_color_of a t = t\<lparr>scr := (scr t)\<lparr>current_color := a\<rparr>\<rparr>"

text \<open>
  After \<open>ESC [\<close>: a digit, or \<open>m\<close>. Any other byte means that hold screen mode was meant, and is
  processed again from the start.
\<close>

definition vt52_csi :: emulator where
  "vt52_csi b t =
     (if q_isdigit b then vt52_collect b V_SCAN_CSI_PARAM (t\<lparr>vt52_count := emul_n (ebuf t)\<rparr>)
      else if b = 0x6D then vt52_done (Inr (set_color_of (normal_color (scr t)) t))
      else vt52_none b (vt52_clear_state (t\<lparr>hold_screen_mode := True\<rparr>)))"

definition vt52_csi_param :: emulator where
  "vt52_csi_param b t =
     (if q_isdigit b \<or> b = 0x3B then vt52_collect b V_SCAN_CSI_PARAM t
      else if b = 0x6D then
        bind_res (ansi_color (vt52_attributes t) (vt52_count t) t) (\<lambda>(ok, a, c).
          let t = t\<lparr>vt52_attributes := a, vt52_count := c\<rparr> in
          if ok then vt52_done (Inr (set_color_of a t)) else vt52_unknown b t)
      else vt52_unknown b t)"

definition vt52 :: emulator where
  "vt52 from_modem t =
     (let b = from_modem AND 0x7F in
      case vt52_scan t of
        V_SCAN_NONE \<Rightarrow> vt52_none b t
      | V_SCAN_Y_1 \<Rightarrow> vt52_collect b V_SCAN_Y_2 t
      | V_SCAN_Y_2 \<Rightarrow> vt52_y_2 b t
      | V_SCAN_ESC \<Rightarrow> vt52_esc b t
      | V_SCAN_CSI \<Rightarrow> vt52_csi b t
      | V_SCAN_CSI_PARAM \<Rightarrow> vt52_csi_param b t)"

definition vt52_reset :: "terminal \<Rightarrow> terminal" where
  "vt52_reset t = t\<lparr>vt52_scan := V_SCAN_NONE, graphics_mode := False, alternate_keypad_mode := False\<rparr>"

end
