(* ===== verification/Term_Ansi.thy ===== *)
theory Term_Ansi
  imports Term_Vt52
begin

text \<open>
  The ANSI.SYS emulation (\<open>ansi.c\<close>). Its commands that take one number parse it with the same
  loop, which differs in the number an omitted parameter stands for and in whether one is
  subtracted; \<open>None\<close> is the result \<open>Q_FALSE\<close>. The index of the next byte, \<open>count\<close>, is stored in
  any case.
\<close>

definition ANSI_MUSIC_BUFFER_SIZE :: nat where
  "ANSI_MUSIC_BUFFER_SIZE = 1024"

definition ansi_clear_state :: "terminal \<Rightarrow> terminal" where
  "ansi_clear_state t =
     t\<lparr>private_mode_flag := False, dec_private_mode_flag := False, ebuf := empty_buffer,
       ansi_scan := A_SCAN_NONE, to_screen := 1\<rparr>"

definition ansi_reset :: "terminal \<Rightarrow> terminal" where
  "ansi_reset t =
     t\<lparr>ansi_scan := A_SCAN_NONE, saved_cursor_x := cursor_x (scr t), saved_cursor_y := cursor_y (scr t),
       private_mode_flag := False, dec_private_mode_flag := False\<rparr>"

section \<open>Commands with one parameter\<close>

function one_parameter ::
  "int \<Rightarrow> int \<Rightarrow> emul_buffer \<Rightarrow> int \<Rightarrow> nat \<Rightarrow> fault + int option \<times> nat" where
  "one_parameter omitted base u v c =
     (if EMUL_BUFFER_SIZE \<le> c then Inr (Some v, c)
      else if v \<noteq> -1 then Inr (None, c)
      else
        bind_res (read_byte u c) (\<lambda>b.
        if b = 59 then one_parameter omitted base u omitted (c + 1)
        else
          bind_res (ansi_ps u c) (\<lambda>(ps, c').
          if ps = -1 \<or> ps - base < 0 then Inr (None, c')
          else
            bind_res (read_byte u c') (\<lambda>b.
            if b = 0 then Inr (Some (ps - base), c')
            else if b \<noteq> 59 then Inr (None, c')
            else
              bind_res (read_byte u (c' + 2)) (\<lambda>b.
                if b = 0 then Inr (Some (ps - base), c' + 2)
                else one_parameter omitted base u (ps - base) (c' + 2))))))"
  by pat_completeness auto
termination
  by (relation "measure (\<lambda>(omitted, base, u, v, c). EMUL_BUFFER_SIZE - c)")
     (auto dest!: ansi_ps_progress)

declare one_parameter.simps [simp del]

text \<open>\<open>f\<close> is what the command does with its number. The result says whether it was parsed.\<close>

definition with_parameter ::
  "int \<Rightarrow> int \<Rightarrow> (int \<Rightarrow> terminal \<Rightarrow> fault + terminal) \<Rightarrow> terminal \<Rightarrow> fault + bool \<times> terminal" where
  "with_parameter omitted base f t =
     bind_res (one_parameter omitted base (ebuf t) (-1) (ansi_count t)) (\<lambda>(r, c).
       let t = t\<lparr>ansi_count := c\<rparr> in
       case r of
         None \<Rightarrow> Inr (False, t)
       | Some v \<Rightarrow> bind_res (f v t) (\<lambda>t. Inr (True, t)))"

definition ansi_ich :: "terminal \<Rightarrow> fault + bool \<times> terminal" where
  "ansi_ich t = with_parameter 1 0 (\<lambda>n. on_screen (insert_blanks n)) t"

definition ansi_dch :: "terminal \<Rightarrow> fault + bool \<times> terminal" where
  "ansi_dch t = with_parameter 1 0 (\<lambda>n. on_screen (delete_character n)) t"

definition insert_lines :: "int \<Rightarrow> screen \<Rightarrow> fault + screen" where
  "insert_lines n s = scrolling_region_scroll_down (cursor_y s) (scroll_region_bottom s) n s"

definition delete_lines :: "int \<Rightarrow> screen \<Rightarrow> fault + screen" where
  "delete_lines n s = scrolling_region_scroll_up (cursor_y s) (scroll_region_bottom s) n s"

definition ansi_il :: "terminal \<Rightarrow> fault + bool \<times> terminal" where
  "ansi_il t = with_parameter 1 0 (\<lambda>n. on_screen (insert_lines n)) t"

definition ansi_dl :: "terminal \<Rightarrow> fault + bool \<times> terminal" where
  "ansi_dl t = with_parameter 1 0 (\<lambda>n. on_screen (delete_lines n)) t"

definition go_to_row :: "int \<Rightarrow> screen \<Rightarrow> fault + screen" where
  "go_to_row row s = cursor_position row (cursor_x s) s"

definition go_to_column :: "int \<Rightarrow> screen \<Rightarrow> fault + screen" where
  "go_to_column col s = cursor_position (cursor_y s) col s"

definition ansi_vpa :: "terminal \<Rightarrow> fault + bool \<times> terminal" where
  "ansi_vpa t = with_parameter 0 1 (\<lambda>n. on_screen (go_to_row n)) t"

definition ansi_cha :: "terminal \<Rightarrow> fault + bool \<times> terminal" where
  "ansi_cha t = with_parameter 0 1 (\<lambda>n. on_screen (go_to_column n)) t"

definition ansi_cht :: "terminal \<Rightarrow> fault + bool \<times> terminal" where
  "ansi_cht t = with_parameter 1 1 (\<lambda>n. on_screen (repeat_res (nat n) (print_tab 79))) t"

definition ansi_rep :: "terminal \<Rightarrow> fault + bool \<times> terminal" where
  "ansi_rep t =
     with_parameter 1 0 (\<lambda>n t. on_screen (repeat_res (nat n) (print_character (rep_character t))) t) t"

text \<open>The only mode is 7, the line wrap, and only as a private mode.\<close>

definition ansi_set_mode :: "bool \<Rightarrow> terminal \<Rightarrow> fault + bool \<times> terminal" where
  "ansi_set_mode set_mode t =
     with_parameter 0 0 (\<lambda>n t.
       Inr (if n = 7 \<and> (private_mode_flag t \<or> dec_private_mode_flag t)
            then t\<lparr>scr := (scr t)\<lparr>line_wrap := set_mode\<rparr>\<rparr> else t)) t"

section \<open>The cursor position\<close>

text \<open>
  The loop of \<open>ansi_position\<close>: row and column are \<open>-1\<close> until they are known. An omitted row is
  0, but the round after it expects the semicolon that was just skipped.
\<close>

function position_loop :: "emul_buffer \<Rightarrow> int \<Rightarrow> int \<Rightarrow> nat \<Rightarrow> fault + (int \<times> int) option \<times> nat" where
  "position_loop u row col c =
     (if EMUL_BUFFER_SIZE \<le> c then Inr (Some (row, col), c)
      else if row \<noteq> -1 \<and> col \<noteq> -1 then Inr (None, c)
      else
        bind_res (read_byte u c) (\<lambda>b.
        if row = -1 \<and> b = 59 then position_loop u 0 col (c + 1)
        else
          bind_res (if row = -1 then ansi_ps u c else Inr (row + 1, c)) (\<lambda>(ps, c1).
          if ps = -1 then Inr (None, c1)
          else
            let row' = (if row = -1 then max 0 (ps - 1) else row) in
            bind_res (read_byte u c1) (\<lambda>b.
            if b \<noteq> 0 \<and> b \<noteq> 59 then Inr (None, c1)
            else
              bind_res (if b = 0 then Inr (1, c1) else ansi_ps u (c1 + 1)) (\<lambda>(ps, c2).
              if ps = -1 then Inr (None, c2)
              else
                let col' = max 0 (ps - 1) in
                bind_res (read_byte u (c2 + 1)) (\<lambda>b.
                  if b = 0 then Inr (Some (row', col'), c2 + 1)
                  else position_loop u row' col' (c2 + 1)))))))"
  by pat_completeness auto
termination
  by (relation "measure (\<lambda>(u, row, col, c). EMUL_BUFFER_SIZE - c)")
     (auto dest!: ansi_ps_progress split: if_splits)

declare position_loop.simps [simp del]

definition ansi_position :: "terminal \<Rightarrow> fault + bool \<times> terminal" where
  "ansi_position t =
     bind_res (position_loop (ebuf t) (-1) (-1) (ansi_count t)) (\<lambda>(r, c).
       let t = t\<lparr>ansi_count := c\<rparr> in
       case r of
         None \<Rightarrow> Inr (False, t)
       | Some (row, col) \<Rightarrow>
           bind_res (on_screen (cursor_position row col) t) (\<lambda>t. Inr (True, t)))"

section \<open>The state machine\<close>

definition ansi_done :: "fault + terminal \<Rightarrow> fault + emul_status \<times> terminal" where
  "ansi_done m = bind_res m (\<lambda>t. Inr (NO_CHAR_YET, ansi_clear_state t))"

definition ansi_collect :: "byte \<Rightarrow> ansi_scan_state \<Rightarrow> terminal \<Rightarrow> fault + emul_status \<times> terminal" where
  "ansi_collect b st t =
     bind_res (save_char b t) (\<lambda>t. Inr (NO_CHAR_YET, t\<lparr>ansi_scan := st\<rparr>))"

definition ansi_unknown :: emulator where
  "ansi_unknown b t = dump_sequence b (t\<lparr>ansi_scan := A_SCAN_NONE\<rparr>)"

text \<open>A command with parameters: when they cannot be parsed the sequence is shown.\<close>

definition ansi_try :: "(terminal \<Rightarrow> fault + bool \<times> terminal) \<Rightarrow> emulator" where
  "ansi_try f b t =
     bind_res (f t) (\<lambda>(ok, t). if ok then ansi_done (Inr t) else ansi_unknown b t)"

definition ansi_number :: "(int \<Rightarrow> terminal \<Rightarrow> fault + terminal) \<Rightarrow> emulator" where
  "ansi_number f b t =
     bind_res (ansi_ps (ebuf t) (ansi_count t)) (\<lambda>(i, c).
       let t = t\<lparr>ansi_count := c\<rparr> in
       if i = -1 then ansi_unknown b t else ansi_done (f i t))"

definition ansi_sgr :: emulator where
  "ansi_sgr b t =
     bind_res (ansi_color (ansi_attributes t) (ansi_count t) t) (\<lambda>(ok, a, c).
       let t = t\<lparr>ansi_attributes := a, ansi_count := c\<rparr> in
       if ok then ansi_done (Inr (set_color_of a t)) else ansi_unknown b t)"

definition ansi_none :: emulator where
  "ansi_none b t =
     (if b = 0x1B then
        bind_res (ansi_collect b A_SCAN_ESC t) (\<lambda>(r, t).
          Inr (r, t\<lparr>ansi_attributes := current_color (scr t)\<rparr>))
      else if is_cntrl b then
        bind_res (generic_handle_control_char b t) (\<lambda>t. Inr (NO_CHAR_YET, t\<lparr>to_screen := 1\<rparr>))
      else Inr (ONE_CHAR, t\<lparr>to_screen := map_char t b, rep_character := map_char t b\<rparr>))"

text \<open>The answer to an inquiry: a string of seven bytes, written with a length of three.\<close>

definition ansi_identify :: "terminal \<Rightarrow> terminal" where
  "ansi_identify t = qodem_write (take 3 [0x1B, 0x5B, 0x3F, 0x31, 0x3B, 0x32, 0x63]) t"

definition ansi_esc :: emulator where
  "ansi_esc b t =
     (if b = 0x5B then ansi_collect b A_SCAN_START_SEQUENCE t
      else if b = 0x5A then ansi_done (Inr (ansi_identify t))
      else if b = 0x1B then Inr (NO_CHAR_YET, t\<lparr>to_screen := 1\<rparr>)
      else ansi_unknown b t)"

text \<open>\<open>ESC [ M\<close> starts music when it is enabled, and deletes a line otherwise.\<close>

definition ansi_music_start :: emulator where
  "ansi_music_start b t =
     (if \<not> ansi_music t then ansi_done (on_screen (delete_lines 1) t)
      else Inr (NO_CHAR_YET,
             t\<lparr>music_buffer := (replicate ANSI_MUSIC_BUFFER_SIZE 0)[0 := b], music_buffer_n := 1,
               ansi_scan := A_SCAN_MUSIC\<rparr>))"

definition ansi_start_sequence :: emulator where
  "ansi_start_sequence b t =
     (let count_here = t\<lparr>ansi_count := emul_n (ebuf t)\<rparr> in
      if q_isdigit b then ansi_collect b A_SCAN_COUNT count_here
      else if b = 0x4B then ansi_done (on_screen erase_to_end_of_line t)
      else if b = 0x4A then ansi_done (on_screen erase_to_end_of_screen t)
      else if b = 0x6D then ansi_done (Inr (set_color_of (normal_color (scr t)) t))
      else if b = 0x41 then ansi_done (on_screen (cursor_up 1 False) t)
      else if b = 0x42 then ansi_done (on_screen (cursor_down 1 False) t)
      else if b = 0x43 then ansi_done (on_screen (cursor_right 1 False) t)
      else if b = 0x44 then ansi_done (on_screen (cursor_left 1 False) t)
      else if b = 0x48 \<or> b = 0x66 then ansi_done (on_screen (cursor_position 0 0) t)
      else if b = 0x3B then ansi_collect b A_SCAN_COUNT_TWO count_here
      else if b = 0x63 then ansi_done (Inr (ansi_identify t))
      else if b = 0x73 then
        ansi_done (Inr (t\<lparr>saved_cursor_x := cursor_x (scr t), saved_cursor_y := cursor_y (scr t)\<rparr>))
      else if b = 0x75 then ansi_done (on_screen (cursor_position (saved_cursor_y t) (saved_cursor_x t)) t)
      else if b = 0x49 then ansi_done (on_screen (print_tab 79) t)
      else if b = 0x40 then ansi_done (on_screen (insert_blanks 1) t)
      else if b = 0x64 then ansi_done (on_screen (go_to_row 0) t)
      else if b = 0x47 then ansi_done (on_screen (go_to_column 0) t)
      else if b = 0x4C then ansi_done (on_screen (insert_lines 1) t)
      else if b = 0x50 then ansi_done (on_screen (delete_character 1) t)
      else if b = 0x62 then ansi_done (on_screen (print_character (rep_character t)) t)
      else if b = 0x4D then ansi_music_start b t
      else if b = 0x3D then Inr (NO_CHAR_YET, t\<lparr>private_mode_flag := True\<rparr>)
      else if b = 0x3F then Inr (NO_CHAR_YET, t\<lparr>dec_private_mode_flag := True\<rparr>)
      else if b = 0x21 then ansi_done (Inr t)
      else ansi_unknown b t)"

definition erase_part_of_line :: "int \<Rightarrow> screen \<Rightarrow> fault + screen" where
  "erase_part_of_line i s =
     (if i = 0 then erase_to_end_of_line s
      else if i = 1 then erase_line 0 (cursor_x s) False s
      else if i = 2 then bind_res (get_line s (current s)) (\<lambda>l. erase_line 0 (l_length l) False s)
      else Inr s)"

definition erase_part_of_screen :: "int \<Rightarrow> screen \<Rightarrow> fault + screen" where
  "erase_part_of_screen i s =
     (if i = 0 then erase_to_end_of_screen s
      else if i = 1 then erase_screen 0 0 (cursor_y s) (cursor_x s) False s
      else if i = 2 then cursor_formfeed s
      else Inr s)"

text \<open>The answer to \<open>ESC [ 6 n\<close>, at most 15 bytes of \<open>snprintf\<close>: row and column from 1.\<close>

definition printed_int :: "int \<Rightarrow> byte list" where
  "printed_int i = digits_of 10 (unat (word_of_int i :: 32 word))"

definition ansi_report :: "terminal \<Rightarrow> terminal" where
  "ansi_report t =
     (if emul_n (ebuf t) = 3 \<and> emul_buf (ebuf t) ! 2 = 0x36
      then qodem_write (take 15 ([0x1B, 0x5B] @ printed_int (cursor_y (scr t) + 1) @ [0x3B] @
             printed_int (cursor_x (scr t) + 1) @ [0x52])) t
      else t)"

definition ansi_counted :: emulator where
  "ansi_counted b t =
     (if q_isdigit b then ansi_collect b A_SCAN_COUNT t
      else if b = 0x4B then ansi_number (\<lambda>i. on_screen (erase_part_of_line i)) b t
      else if b = 0x4A then ansi_number (\<lambda>i. on_screen (erase_part_of_screen i)) b t
      else if b = 0x41 then ansi_number (\<lambda>i. on_screen (cursor_up i False)) b t
      else if b = 0x42 then ansi_number (\<lambda>i. on_screen (cursor_down i False)) b t
      else if b = 0x43 then ansi_number (\<lambda>i. on_screen (cursor_right i False)) b t
      else if b = 0x44 then ansi_number (\<lambda>i. on_screen (cursor_left i False)) b t
      else if b = 0x3B then ansi_collect b A_SCAN_COUNT_TWO t
      else if b = 0x48 \<or> b = 0x66 then ansi_try ansi_position b t
      else if b = 0x6D then ansi_sgr b t
      else if b = 0x6E then ansi_done (Inr (ansi_report t))
      else if b = 0x40 then ansi_try ansi_ich b t
      else if b = 0x49 then ansi_try ansi_cht b t
      else if b = 0x64 then ansi_try ansi_vpa b t
      else if b = 0x47 then ansi_try ansi_cha b t
      else if b = 0x4C then ansi_try ansi_il b t
      else if b = 0x4D then ansi_try ansi_dl b t
      else if b = 0x50 then ansi_try ansi_dch b t
      else if b = 0x62 then ansi_try ansi_rep b t
      else if b = 0x68 then ansi_try (ansi_set_mode True) b t
      else if b = 0x6C then ansi_try (ansi_set_mode False) b t
      else if b = 0x21 then ansi_done (Inr t)
      else ansi_unknown b t)"

definition ansi_count_two :: emulator where
  "ansi_count_two b t =
     (if q_isdigit b then ansi_collect b A_SCAN_COUNT_TWO t
      else if b = 0x3B then ansi_collect b A_SCAN_COUNT_MANY t
      else if b = 0x48 \<or> b = 0x66 then ansi_try ansi_position b t
      else if b = 0x6D then ansi_sgr b t
      else ansi_unknown b t)"

definition ansi_count_many :: emulator where
  "ansi_count_many b t =
     (if q_isdigit b \<or> b = 0x3B then ansi_collect b A_SCAN_COUNT_MANY t
      else if b = 0x6D then ansi_sgr b t
      else ansi_unknown b t)"

definition ansi_music_byte :: emulator where
  "ansi_music_byte b t =
     (if b = 0x0E \<or> b = 0x0D then ansi_done (Inr t)
      else if ANSI_MUSIC_BUFFER_SIZE \<le> music_buffer_n t then Inl Buffer_overflow
      else
        let t = t\<lparr>music_buffer := (music_buffer t)[music_buffer_n t := b],
                  music_buffer_n := music_buffer_n t + 1\<rparr>
        in if ANSI_MUSIC_BUFFER_SIZE \<le> music_buffer_n t then ansi_done (Inr t)
           else Inr (NO_CHAR_YET, t))"

definition ansi :: emulator where
  "ansi b t =
     (case ansi_scan t of
        A_SCAN_NONE \<Rightarrow> ansi_none b t
      | A_SCAN_ESC \<Rightarrow> ansi_esc b t
      | A_SCAN_START_SEQUENCE \<Rightarrow> ansi_start_sequence b t
      | A_SCAN_COUNT \<Rightarrow> ansi_counted b t
      | A_SCAN_COUNT_TWO \<Rightarrow> ansi_count_two b t
      | A_SCAN_COUNT_MANY \<Rightarrow> ansi_count_many b t
      | A_SCAN_MUSIC \<Rightarrow> ansi_music_byte b t)"

end
