(* ===== verification/Term_Console.thy ===== *)
theory Term_Console
  imports Term_Ansi Translate
begin

text \<open>
  \<open>terminal_emulator\<close> (\<open>emulation.c\<close>), which passes each byte to the emulation in use, and the
  loop of \<open>console.c\<close> that prints what it returns. The emulations that are not modelled are a
  parameter, \<open>others\<close>.
\<close>

section \<open>One byte through the emulation\<close>

definition emulate :: "(q_emulation \<Rightarrow> emulator) \<Rightarrow> emulator" where
  "emulate others b t =
     (case emulation (scr t) of
        Q_EMUL_ANSI \<Rightarrow> ansi b t
      | Q_EMUL_VT52 \<Rightarrow> vt52 b t
      | Q_EMUL_TTY \<Rightarrow> tty b t
      | e \<Rightarrow> others e b t)"

definition set_last_state :: "fault + emul_status \<times> terminal \<Rightarrow> fault + emul_status \<times> terminal" where
  "set_last_state m = bind_res m (\<lambda>(r, t). Inr (r, t\<lparr>last_state := r\<rparr>))"

text \<open>Too long a sequence is thrown away; the scan state of the emulation is not.\<close>

definition junk_sequence :: "terminal \<Rightarrow> terminal" where
  "junk_sequence t =
     (if EMUL_BUFFER_SIZE - 1 \<le> emul_n (ebuf t)
      then t\<lparr>ebuf := empty_buffer, last_state := NO_CHAR_YET\<rparr> else t)"

text \<open>The characters of a sequence that was not understood come one per call.\<close>

definition dumps_itself :: "q_emulation \<Rightarrow> bool" where
  "dumps_itself e \<longleftrightarrow> e \<in> {Q_EMUL_AVATAR, Q_EMUL_PETSCII, Q_EMUL_ATASCII}"

definition dump_next :: "terminal \<Rightarrow> fault + emul_status \<times> terminal" where
  "dump_next t =
     (let u = ebuf t in
      if emul_n u = 0 then Inr (NO_CHAR_YET, t\<lparr>last_state := NO_CHAR_YET, to_screen := 0\<rparr>)
      else
        bind_res (read_byte u (emul_i u)) (\<lambda>c.
          let u' = u\<lparr>emul_i := emul_i u + 1\<rparr>;
              u' = (if emul_i u' = emul_n u' then empty_buffer else u')
          in Inr (MANY_CHARS, t\<lparr>ebuf := u', to_screen := map_char t c\<rparr>)))"

definition own_line_ends :: "q_emulation \<Rightarrow> bool" where
  "own_line_ends e \<longleftrightarrow>
     e \<in> {Q_EMUL_VT100, Q_EMUL_VT102, Q_EMUL_VT220, Q_EMUL_LINUX, Q_EMUL_LINUX_UTF8, Q_EMUL_XTERM,
          Q_EMUL_XTERM_UTF8, Q_EMUL_AVATAR, Q_EMUL_PETSCII, Q_EMUL_ATASCII, Q_EMUL_DEBUG}"

text \<open>The bytes an emulation wants to see again are shown at once.\<close>

fun emulate_again :: "(q_emulation \<Rightarrow> emulator) \<Rightarrow> byte list \<Rightarrow> terminal \<Rightarrow> fault + terminal" where
  "emulate_again others [] t = Inr t"
| "emulate_again others (b # bs) t =
     bind_res (set_last_state (emulate others b t)) (\<lambda>(r, t).
     bind_res (if r = ONE_CHAR
               then on_screen (print_character (map_char t (word_of_int (to_screen t)))) t
               else Inr t) (emulate_again others bs))"

definition terminal_emulator :: "(q_emulation \<Rightarrow> emulator) \<Rightarrow> emulator" where
  "terminal_emulator others b t =
     (let t = junk_sequence t; e = emulation (scr t) in
      if last_state t = MANY_CHARS then
        if dumps_itself e then set_last_state (others e b t) else dump_next t
      else
        let t = t\<lparr>bytes_received := bytes_received t + 1\<rparr> in
        if \<not> own_line_ends e \<and> b = 0x0D then
          bind_res (on_screen cursor_carriage_return t) (\<lambda>t. Inr (NO_CHAR_YET, t\<lparr>to_screen := 1\<rparr>))
        else if \<not> own_line_ends e \<and> b = 0x0A then
          bind_res (on_screen (cursor_linefeed False) t) (\<lambda>t. Inr (NO_CHAR_YET, t\<lparr>to_screen := 1\<rparr>))
        else
          bind_res (set_last_state (emulate others b t)) (\<lambda>(r, t).
            if r = REPEAT_STATE then
              bind_res (emulate_again others (repeat_state t) t) (\<lambda>t.
                Inr (NO_CHAR_YET, t\<lparr>repeat_state := [], to_screen := 1, last_state := NO_CHAR_YET\<rparr>))
            else Inr (r, t)))"

section \<open>The console\<close>

text \<open>
  The loop over the characters of one byte: any other status than one or no character means
  that more follow, and the emulation is called with the byte \<open>-1\<close>.
\<close>

definition print_emulated :: "terminal \<Rightarrow> fault + terminal" where
  "print_emulated t = on_screen (print_character (to_screen t)) t"

partial_function (option) show_characters ::
  "(q_emulation \<Rightarrow> emulator) \<Rightarrow> emul_status \<Rightarrow> terminal \<Rightarrow> (fault + terminal) option" where
  "show_characters others r t =
     (if r = ONE_CHAR then Some (print_emulated t)
      else if r = NO_CHAR_YET then Some (Inr t)
      else
        case bind_res (print_emulated t) (terminal_emulator others (-1)) of
          Inl e \<Rightarrow> Some (Inl e)
        | Inr (r, t) \<Rightarrow> show_characters others r t)"

definition console_byte :: "(q_emulation \<Rightarrow> emulator) \<Rightarrow> byte \<Rightarrow> terminal \<Rightarrow> fault + terminal" where
  "console_byte others b t =
     bind_res (terminal_emulator others b t) (\<lambda>(r, t).
       case show_characters others r t of None \<Rightarrow> Inl Diverges | Some m \<Rightarrow> m)"

text \<open>
  What arrives goes through the input table first. The console is in its own state
  (\<open>Q_STATE_CONSOLE\<close>), with the options \<open>zmodem_autostart\<close>, \<open>kermit_autostart\<close> and \<open>capture\<close> off:
  then no byte starts a transfer and all bytes are taken (\<open>*remaining\<close> becomes 0).
\<close>

definition received_byte :: "translate_tables \<Rightarrow> bool \<Rightarrow> byte \<Rightarrow> byte" where
  "received_byte ts strip_8th_bit b =
     (let b = translate_8bit_in ts b in if strip_8th_bit then b AND 0x7F else b)"

fun console_process_incoming_data ::
  "(q_emulation \<Rightarrow> emulator) \<Rightarrow> translate_tables \<Rightarrow> bool \<Rightarrow> byte list \<Rightarrow> terminal \<Rightarrow> fault + terminal" where
  "console_process_incoming_data others ts strip [] t = Inr t"
| "console_process_incoming_data others ts strip (b # bs) t =
     bind_res (console_byte others (received_byte ts strip b) t)
       (console_process_incoming_data others ts strip bs)"

end
