(* ===== verification/Term_Contract.thy ===== *)
theory Term_Contract
  imports Term_Console
begin

text \<open>
  What an emulation owes to the console, as the locale \<open>safe_emulation\<close>: a byte it may get
  keeps the screen and the sequence buffer in order, without a fault, and a sequence it does
  not understand is left in the buffer to be shown. Inside the locale: the console then takes
  any stream of such bytes without a fault.
\<close>

section \<open>The sequence buffer\<close>

definition sequence_ok :: "emul_buffer \<Rightarrow> bool" where
  "sequence_ok u \<longleftrightarrow>
     length (emul_buf u) = EMUL_BUFFER_SIZE \<and> emul_n u < EMUL_BUFFER_SIZE \<and>
     (\<forall>k. max 1 (emul_n u) \<le> k \<longrightarrow> k < EMUL_BUFFER_SIZE \<longrightarrow> emul_buf u ! k = 0)"

definition buffer_short :: "emul_buffer \<Rightarrow> bool" where
  "buffer_short u \<longleftrightarrow> sequence_ok u \<and> emul_n u < EMUL_BUFFER_SIZE - 1 \<and> emul_i u = 0"

text \<open>What a step leaves: a dump has shown the first of at least two bytes.\<close>

definition after_step :: "emul_buffer \<Rightarrow> emul_status \<Rightarrow> emul_buffer \<Rightarrow> bool" where
  "after_step u r u' \<longleftrightarrow>
     r \<noteq> REPEAT_STATE \<and> sequence_ok u' \<and>
     (if r = MANY_CHARS then emul_i u' = 1 \<and> emul_n u' = emul_n u + 1 \<and> 2 \<le> emul_n u' else emul_i u' = 0)"

lemma empty_sequence_ok [simp]: "sequence_ok empty_buffer" "buffer_short empty_buffer"
  by (simp_all add: sequence_ok_def buffer_short_def empty_buffer_def EMUL_BUFFER_SIZE_def)

lemma empty_buffer_sel [simp]: "emul_n empty_buffer = 0" "emul_i empty_buffer = 0"
  by (simp_all add: empty_buffer_def)

lemma sequence_ok_i [simp]: "sequence_ok (u\<lparr>emul_i := i\<rparr>) = sequence_ok u"
  by (simp add: sequence_ok_def)

lemma after_empty: "r \<noteq> REPEAT_STATE \<Longrightarrow> r \<noteq> MANY_CHARS \<Longrightarrow> after_step u r empty_buffer"
  by (simp add: after_step_def)

lemma after_same: "buffer_short u \<Longrightarrow> r \<noteq> REPEAT_STATE \<Longrightarrow> r \<noteq> MANY_CHARS \<Longrightarrow> after_step u r u"
  by (simp add: after_step_def buffer_short_def)

lemma store_byte_ok:
  assumes "buffer_short u"
  shows "total_res (\<lambda>u'. sequence_ok u' \<and> emul_i u' = 0 \<and> emul_n u' = emul_n u + 1) (store_byte b u)"
  using assms by (auto simp: store_byte_def buffer_short_def sequence_ok_def nth_list_update EMUL_BUFFER_SIZE_def)

lemma read_byte_ok: "c < EMUL_BUFFER_SIZE \<Longrightarrow> read_byte u c = Inr (emul_buf u ! c)"
  by (simp add: read_byte_def)

lemma buffer_short_zero:
  assumes "buffer_short u" "c < EMUL_BUFFER_SIZE" "emul_buf u ! c \<noteq> 0"
  shows "c \<le> 125"
proof (rule ccontr)
  assume "\<not> c \<le> 125"
  with assms show False by (auto simp: buffer_short_def sequence_ok_def EMUL_BUFFER_SIZE_def)
qed

text \<open>Saving a byte, and giving up a sequence.\<close>

lemma save_char_ok:
  assumes "buffer_short (ebuf t)"
  shows "total_res (\<lambda>t'. \<exists>u. t' = t\<lparr>ebuf := u, to_screen := 1\<rparr> \<and> after_step (ebuf t) NO_CHAR_YET u)
           (save_char b t)"
  using store_byte_ok [OF assms, of b]
  by (auto simp: save_char_def after_step_def elim!: total_res_mono)

lemma dump_sequence_ok:
  assumes "buffer_short (ebuf t)"
  shows "total_res (\<lambda>(r, t'). \<exists>u c. t' = t\<lparr>ebuf := u, to_screen := c\<rparr> \<and> after_step (ebuf t) r u)
           (dump_sequence b t)"
proof -
  obtain u where u: "store_byte b (ebuf t) = Inr u" "sequence_ok u" "emul_i u = 0" "emul_n u = emul_n (ebuf t) + 1"
    using store_byte_ok [OF assms, of b] by (auto simp: total_res_iff)
  have "read_byte u 0 = Inr (emul_buf u ! 0)" by (simp add: read_byte_ok EMUL_BUFFER_SIZE_def)
  moreover define c where "c = uint (emul_buf u ! 0)"
  moreover define r where "r = (if emul_n u = 1 then ONE_CHAR else MANY_CHARS)"
  moreover define u' where "u' = (if emul_n u = 1 then u\<lparr>emul_i := 0, emul_n := 0\<rparr> else u\<lparr>emul_i := 1\<rparr>)"
  ultimately have "dump_sequence b t = Inr (r, t\<lparr>ebuf := u', to_screen := c\<rparr>)"
    using u by (simp add: dump_sequence_def Let_def)
  moreover have "after_step (ebuf t) r u'"
    using u by (auto simp: r_def u'_def after_step_def sequence_ok_def EMUL_BUFFER_SIZE_def)
  ultimately show ?thesis by auto
qed

text \<open>Reading a number.\<close>

lemma digit_nonzero: "q_isdigit b \<Longrightarrow> b \<noteq> 0"
  by (auto simp: q_isdigit_def)

lemma digit_value_nonneg: "q_isdigit b \<Longrightarrow> 0 \<le> digit_value b"
  by (simp add: q_isdigit_def digit_value_def word_le_def)

lemma ansi_ps_ok:
  assumes "buffer_short u" "c < EMUL_BUFFER_SIZE"
  shows "total_res (\<lambda>(v, c'). c \<le> c' \<and> c' < EMUL_BUFFER_SIZE \<and>
           (v = -1 \<or> 0 \<le> v \<and> c < c' \<and> c' < EMUL_BUFFER_SIZE - 1)) (ansi_ps u c)"
proof -
  note z = buffer_short_zero [OF assms(1)]
  let ?B = "\<lambda>i. emul_buf u ! i"
  have d: "i < EMUL_BUFFER_SIZE \<Longrightarrow> q_isdigit (?B i) \<Longrightarrow> i \<le> 125 \<and> 0 \<le> digit_value (?B i)" for i
    using z [of i] digit_nonzero [of "?B i"] digit_value_nonneg [of "?B i"] by simp
  show ?thesis
  proof (cases "q_isdigit (?B c)")
    case False
    with assms(2) show ?thesis by (simp add: ansi_ps_def read_byte_ok)
  next
    case True
    then have c: "c \<le> 125" "0 \<le> digit_value (?B c)" using d [OF assms(2)] by auto
    have r: "read_byte u i = Inr (?B i)" if "i \<le> 127" for i
      using that by (simp add: read_byte_ok EMUL_BUFFER_SIZE_def)
    show ?thesis
    proof (cases "q_isdigit (?B (c + 1))")
      case d2: False
      then show ?thesis
        using True c r by (auto simp: ansi_ps_def EMUL_BUFFER_SIZE_def)
    next
      case d2: True
      then have c1: "c + 1 \<le> 125" "0 \<le> digit_value (?B (c + 1))"
        using d [of "c + 1"] c by (auto simp: EMUL_BUFFER_SIZE_def)
      show ?thesis
      proof (cases "q_isdigit (?B (c + 2))")
        case d3: False
        then show ?thesis using True d2 c c1 r by (auto simp: ansi_ps_def EMUL_BUFFER_SIZE_def)
      next
        case d3: True
        then have c2: "c + 2 \<le> 125" "0 \<le> digit_value (?B (c + 2))"
          using d [of "c + 2"] c1 by (auto simp: EMUL_BUFFER_SIZE_def)
        have s: "c + 2 + 1 = Suc (Suc (Suc c))" "c + 2 = Suc (Suc c)" by simp_all
        show ?thesis
          using True d2 d3 c c1 c2 r [of c] r [of "c + 1"] r [of "c + 2"] r [of "c + 3"]
          by (auto simp: ansi_ps_def EMUL_BUFFER_SIZE_def numeral_3_eq_3)
      qed
    qed
  qed
qed

lemma sgr_loop_ok:
  assumes "buffer_short u"
  shows "total_res (\<lambda>(ok, a, c'). c \<le> c' \<and> (c < EMUL_BUFFER_SIZE \<longrightarrow> c' < EMUL_BUFFER_SIZE)) (sgr_loop cu u st c)"
  using assms
proof (induction cu u st c rule: sgr_loop.induct)
  case (1 cu u st c)
  show ?case
  proof (cases "EMUL_BUFFER_SIZE \<le> c")
    case True
    then show ?thesis by (simp add: sgr_loop.simps [of cu u st c])
  next
    case False
    then obtain ps c' where p: "ansi_ps u c = Inr (ps, c')" "c \<le> c'" "c' < EMUL_BUFFER_SIZE"
      using ansi_ps_ok [OF 1(2), of c] by (auto simp: total_res_iff)
    have "emul_buf u ! c' = 59 \<Longrightarrow> c' \<le> 125" using buffer_short_zero [OF 1(2) p(3)] by simp
    then have "total_res (\<lambda>(ok, a, c''). c' + 1 \<le> c'' \<and> c'' < EMUL_BUFFER_SIZE)
        (sgr_loop cu u (sgr_parameter cu ps st) (c' + 1))" if "ps \<noteq> -1" "emul_buf u ! c' = 59"
      using that 1(1) [OF False p(1) refl that(1) refl, of 59] 1(2)
      by (auto simp: read_byte_ok [OF p(3)] EMUL_BUFFER_SIZE_def elim!: total_res_mono)
    with p False show ?thesis
      by (cases "sgr_parameter cu ps st")
         (auto simp: sgr_loop.simps [of cu u st c] read_byte_ok Let_def elim!: total_res_mono)
  qed
qed

section \<open>Tabs\<close>

lemma tab_loop_ok:
  assumes "P s"
    and "\<And>s. P s \<Longrightarrow> cursor_x s < limit \<Longrightarrow> total_res (\<lambda>s'. P s' \<and> cursor_x s < cursor_x s') (step s)"
  shows "total_res P (tab_loop limit step s)"
  using assms
proof (induction limit step s rule: tab_loop.induct)
  case (1 limit step s)
  show ?case
  proof (cases "cursor_x s < limit")
    case True
    then obtain s' where s': "step s = Inr s'" "P s'" "cursor_x s < cursor_x s'"
      using 1(2,3) by (auto simp: total_res_iff)
    with True 1 show ?thesis by (simp add: tab_loop.simps [of limit step s])
  next
    case False
    with 1 show ?thesis by (simp add: tab_loop.simps [of limit step s])
  qed
qed

section \<open>The contract\<close>

text \<open>\<open>scan_ok\<close> is what the emulation needs of its own variables.\<close>

definition resting :: "q_emulation \<Rightarrow> int \<Rightarrow> int \<Rightarrow> (terminal \<Rightarrow> bool) \<Rightarrow> terminal \<Rightarrow> bool" where
  "resting e w h scan_ok t \<longleftrightarrow>
     screen_ok e w h w (scr t) \<and> sequence_ok (ebuf t) \<and> emul_i (ebuf t) = 0 \<and>
     last_state t \<noteq> MANY_CHARS \<and> scan_ok t"

text \<open>\<open>safe_step\<close>: what a step on \<open>t\<close> has to result in.\<close>

definition safe_step ::
  "q_emulation \<Rightarrow> int \<Rightarrow> int \<Rightarrow> (terminal \<Rightarrow> bool) \<Rightarrow> terminal \<Rightarrow> fault + emul_status \<times> terminal \<Rightarrow> bool" where
  "safe_step e w h scan_ok t m \<longleftrightarrow>
     total_res (\<lambda>(r, t'). screen_ok e w h w (scr t') \<and> scan_ok t' \<and> after_step (ebuf t) r (ebuf t')) m"

locale safe_emulation =
  fixes e :: q_emulation and w h :: int and step :: emulator
    and allowed :: "byte \<Rightarrow> bool" and scan_ok :: "terminal \<Rightarrow> bool"
  assumes emulates: "emulation (scr t) = e \<Longrightarrow> emulate others b t = step b t"
    and kind: "\<not> own_line_ends e" "\<not> vt100_like e"
    and again_allowed: "allowed (-1)"
    and scan_frame: "scan_ok (t\<lparr>scr := s, ebuf := u, to_screen := c, last_state := l, bytes_received := n\<rparr>) = scan_ok t"
    and step_safe: "80 \<le> w \<Longrightarrow> w \<le> 255 \<Longrightarrow> screen_ok e w h w (scr t) \<Longrightarrow> buffer_short (ebuf t) \<Longrightarrow> scan_ok t \<Longrightarrow> allowed b \<Longrightarrow>
      safe_step e w h scan_ok t (step b t)"
begin

lemma scan_frames [simp]:
  "scan_ok (t\<lparr>scr := s\<rparr>) = scan_ok t" "scan_ok (t\<lparr>ebuf := u\<rparr>) = scan_ok t"
  "scan_ok (t\<lparr>to_screen := c\<rparr>) = scan_ok t" "scan_ok (t\<lparr>last_state := l\<rparr>) = scan_ok t"
  "scan_ok (t\<lparr>bytes_received := n\<rparr>) = scan_ok t"
  using scan_frame [where t = t and s = s and u = "ebuf t" and c = "to_screen t" and l = "last_state t" and n = "bytes_received t"]
    scan_frame [where t = t and s = "scr t" and u = u and c = "to_screen t" and l = "last_state t" and n = "bytes_received t"]
    scan_frame [where t = t and s = "scr t" and u = "ebuf t" and c = c and l = "last_state t" and n = "bytes_received t"]
    scan_frame [where t = t and s = "scr t" and u = "ebuf t" and c = "to_screen t" and l = l and n = "bytes_received t"]
    scan_frame [where t = t and s = "scr t" and u = "ebuf t" and c = "to_screen t" and l = "last_state t" and n = n]
  by simp_all

text \<open>While the characters of a dumped sequence are shown.\<close>

definition dumping :: "terminal \<Rightarrow> bool" where
  "dumping t \<longleftrightarrow>
     screen_ok e w h w (scr t) \<and> scan_ok t \<and> sequence_ok (ebuf t) \<and> last_state t = MANY_CHARS \<and>
     (emul_i (ebuf t) < emul_n (ebuf t) \<or> emul_i (ebuf t) = 0 \<and> emul_n (ebuf t) = 0)"

definition after_call :: "emul_status \<Rightarrow> terminal \<Rightarrow> bool" where
  "after_call r t \<longleftrightarrow>
     (if r = MANY_CHARS then dumping t else (r = ONE_CHAR \<or> r = NO_CHAR_YET) \<and> resting e w h scan_ok t)"

lemma new_byte:
  assumes "80 \<le> w" "w \<le> 255" "resting e w h scan_ok t" "buffer_short (ebuf t)" "allowed b"
  shows "total_res (\<lambda>(r, t'). after_call r t' \<and>
           (r = MANY_CHARS \<longrightarrow> emul_n (ebuf t') = emul_n (ebuf t) + 1 \<and> 2 \<le> emul_n (ebuf t')))
         (terminal_emulator others b t)"
proof -
  let ?t = "t\<lparr>bytes_received := bytes_received t + 1\<rparr>"
  have ok: "screen_ok e w h w (scr t)" "last_state t \<noteq> MANY_CHARS" "scan_ok t"
    using assms(3) by (simp_all add: resting_def)
  have short: "emul_n (ebuf t) < EMUL_BUFFER_SIZE - 1" using assms(4) by (simp add: buffer_short_def)
  have e: "emulation (scr t) = e" using ok(1) frame_okD(5) by (auto simp: screen_ok_def)
  obtain r t' where step: "step b ?t = Inr (r, t')"
    and after: "screen_ok e w h w (scr t')" "scan_ok t'" "after_step (ebuf t) r (ebuf t')"
    using step_safe [of ?t b] ok assms by (auto simp: safe_step_def total_res_iff)
  have last: "set_last_state (emulate others b ?t) = Inr (r, t'\<lparr>last_state := r\<rparr>)"
    using emulates [of ?t others b] e step by (simp add: set_last_state_def)
  have junk: "junk_sequence t = t" using short by (simp add: junk_sequence_def)
  have line_end: "total_res (\<lambda>(r, t'). after_call r t' \<and> r \<noteq> MANY_CHARS)
      (bind_res (on_screen f ?t) (\<lambda>t. Inr (NO_CHAR_YET, t\<lparr>to_screen := 1\<rparr>)))"
    if "total_res (screen_ok e w h w) (f (scr t))" for f
    using that assms(3) by (auto simp: on_screen_def after_call_def resting_def elim!: total_res_mono)
  have cr: "total_res (screen_ok e w h w) (cursor_carriage_return (scr t))"
    using cursor_carriage_return_ok [OF ok(1)] by (auto elim!: total_res_mono)
  have lf: "total_res (screen_ok e w h w) (cursor_linefeed False (scr t))"
    using cursor_linefeed_ok [OF ok(1), of False] by (auto elim!: total_res_mono)
  have rest: "after_call r (t'\<lparr>last_state := r\<rparr>)" "r \<noteq> REPEAT_STATE"
    using after by (auto simp: after_call_def after_step_def dumping_def resting_def)
      (cases r; simp)+
  consider "b = 0x0D" | "b = 0x0A" | "b \<noteq> 0x0D" "b \<noteq> 0x0A" by blast
  then show ?thesis
  proof cases
    case 1
    then have "terminal_emulator others b t =
        bind_res (on_screen cursor_carriage_return ?t) (\<lambda>t. Inr (NO_CHAR_YET, t\<lparr>to_screen := 1\<rparr>))"
      using e ok(2) junk kind(1) by (simp add: terminal_emulator_def Let_def)
    then show ?thesis
      using line_end [of cursor_carriage_return, OF cr] by (auto elim!: total_res_mono simp del: total_res_bind)
  next
    case 2
    then have "terminal_emulator others b t =
        bind_res (on_screen (cursor_linefeed False) ?t) (\<lambda>t. Inr (NO_CHAR_YET, t\<lparr>to_screen := 1\<rparr>))"
      using e ok(2) junk kind(1) by (simp add: terminal_emulator_def Let_def)
    then show ?thesis
      using line_end [of "cursor_linefeed False", OF lf] by (auto elim!: total_res_mono simp del: total_res_bind)
  next
    case 3
    then have "terminal_emulator others b t = Inr (r, t'\<lparr>last_state := r\<rparr>)"
      using e ok(2) junk kind(1) last rest(2) by (simp add: terminal_emulator_def Let_def)
    then show ?thesis using rest after(3) by (auto simp: after_step_def)
  qed
qed

lemma junk_first: "terminal_emulator others b t = terminal_emulator others b (junk_sequence t)"
  by (simp add: terminal_emulator_def junk_sequence_def)

lemma junk_resting:
  "resting e w h scan_ok t \<Longrightarrow> resting e w h scan_ok (junk_sequence t) \<and> buffer_short (ebuf (junk_sequence t))"
  by (auto simp: resting_def junk_sequence_def buffer_short_def EMUL_BUFFER_SIZE_def)

lemma junk_dumping:
  "dumping t \<Longrightarrow> EMUL_BUFFER_SIZE - 1 \<le> emul_n (ebuf t) \<Longrightarrow>
   resting e w h scan_ok (junk_sequence t) \<and> ebuf (junk_sequence t) = empty_buffer"
  by (simp add: dumping_def resting_def junk_sequence_def)

definition to_show :: "terminal \<Rightarrow> nat" where
  "to_show t = (if emul_n (ebuf t) = 0 then 0 else 1 + emul_n (ebuf t) - emul_i (ebuf t))"

lemma next_character:
  assumes "80 \<le> w" "w \<le> 255" "dumping t"
  shows "total_res (\<lambda>(r, t'). after_call r t' \<and> (r = MANY_CHARS \<longrightarrow> to_show t' < to_show t))
           (terminal_emulator others (-1) t)"
proof (cases "EMUL_BUFFER_SIZE - 1 \<le> emul_n (ebuf t)")
  case True
  note j = junk_dumping [OF assms(3) True]
  then have "total_res (\<lambda>(r, t'). after_call r t' \<and>
      (r = MANY_CHARS \<longrightarrow> emul_n (ebuf t') = 1 \<and> 2 \<le> emul_n (ebuf t'))) (terminal_emulator others (-1) t)"
    using new_byte [OF assms(1,2), of "junk_sequence t" "-1" others] again_allowed junk_first [of others "-1" t] by simp
  then show ?thesis by (auto elim!: total_res_mono)
next
  case False
  let ?u = "ebuf t"
  have d: "screen_ok e w h w (scr t)" "scan_ok t" "sequence_ok ?u" "last_state t = MANY_CHARS"
    "emul_i ?u < emul_n ?u \<or> emul_i ?u = 0 \<and> emul_n ?u = 0"
    using assms(3) by (simp_all add: dumping_def)
  have e: "emulation (scr t) = e" using d(1) frame_okD(5) by (auto simp: screen_ok_def)
  have "\<not> dumps_itself e" using kind(1) by (auto simp: dumps_itself_def own_line_ends_def)
  then have call: "terminal_emulator others (-1) t = dump_next t"
    using False e d(4) by (simp add: terminal_emulator_def junk_sequence_def)
  show ?thesis
  proof (cases "emul_n ?u = 0")
    case True
    then show ?thesis
      using call d by (simp add: dump_next_def after_call_def resting_def)
  next
    case more: False
    then have "emul_i ?u < EMUL_BUFFER_SIZE" using d(3,5) by (auto simp: sequence_ok_def)
    then show ?thesis
      using call d more
      by (auto simp: dump_next_def read_byte_ok Let_def after_call_def dumping_def to_show_def)
  qed
qed

lemma print_emulated_safe:
  assumes "screen_ok e w h w (scr t)"
  shows "total_res (\<lambda>t'. \<exists>s. t' = t\<lparr>scr := s\<rparr> \<and> screen_ok e w h w s) (print_emulated t)"
  using print_character_ok [OF assms kind(2), of "to_screen t"]
  by (auto simp: print_emulated_def on_screen_def elim!: total_res_mono)

lemma show_dumped:
  "dumping t \<Longrightarrow> 80 \<le> w \<Longrightarrow> w \<le> 255 \<Longrightarrow> \<exists>t'. show_characters others MANY_CHARS t = Some (Inr t') \<and> resting e w h scan_ok t'"
proof (induction "to_show t" arbitrary: t rule: less_induct)
  case less
  then obtain s where p: "print_emulated t = Inr (t\<lparr>scr := s\<rparr>)" "screen_ok e w h w s"
    using print_emulated_safe [of t] by (auto simp: dumping_def total_res_iff)
  have d: "dumping (t\<lparr>scr := s\<rparr>)" "to_show (t\<lparr>scr := s\<rparr>) = to_show t"
    using less.prems p(2) by (simp_all add: dumping_def to_show_def)
  from next_character [OF less.prems(2,3) d(1), of others] d(2) obtain r t' where
    t': "terminal_emulator others (-1) (t\<lparr>scr := s\<rparr>) = Inr (r, t')" "after_call r t'"
      "r = MANY_CHARS \<Longrightarrow> to_show t' < to_show t"
    by (auto simp: total_res_iff)
  have u: "show_characters others MANY_CHARS t = show_characters others r t'"
    using p(1) t'(1) by (simp add: show_characters.simps [of others MANY_CHARS])
  show ?case
  proof (cases "r = MANY_CHARS")
    case True
    with less.hyps [of t'] less.prems(2,3) t' u show ?thesis by (simp add: after_call_def)
  next
    case False
    then have r: "r = ONE_CHAR \<or> r = NO_CHAR_YET" "resting e w h scan_ok t'"
      using t'(2) by (auto simp: after_call_def)
    then obtain s' where "print_emulated t' = Inr (t'\<lparr>scr := s'\<rparr>)" "screen_ok e w h w s'"
      using print_emulated_safe [of t'] by (auto simp: resting_def total_res_iff)
    with r u show ?thesis by (auto simp: show_characters.simps [of others r] resting_def)
  qed
qed

lemma console_byte_safe:
  assumes "80 \<le> w" "w \<le> 255" "resting e w h scan_ok t" "allowed b"
  shows "total_res (resting e w h scan_ok) (console_byte others b t)"
proof -
  note j = junk_resting [OF assms(3)]
  then obtain r t' where t': "terminal_emulator others b t = Inr (r, t')" "after_call r t'"
    using new_byte [OF assms(1,2), of "junk_sequence t" b others] assms(4) junk_first [of others b t]
    by (auto simp: total_res_iff)
  show ?thesis
  proof (cases "r = MANY_CHARS")
    case True
    with t' assms(1,2) show_dumped [of t' others] show ?thesis by (auto simp: console_byte_def after_call_def)
  next
    case False
    then have r: "r = ONE_CHAR \<or> r = NO_CHAR_YET" "resting e w h scan_ok t'"
      using t'(2) by (auto simp: after_call_def)
    then obtain s' where "print_emulated t' = Inr (t'\<lparr>scr := s'\<rparr>)" "screen_ok e w h w s'"
      using print_emulated_safe [of t'] by (auto simp: resting_def total_res_iff)
    with r t'(1) show ?thesis by (auto simp: console_byte_def show_characters.simps resting_def)
  qed
qed

lemma console_stream_safe:
  "80 \<le> w \<Longrightarrow> w \<le> 255 \<Longrightarrow> resting e w h scan_ok t \<Longrightarrow> \<forall>b \<in> set bs. allowed (received_byte ts strip b) \<Longrightarrow>
   total_res (resting e w h scan_ok) (console_process_incoming_data others ts strip bs t)"
proof (induction bs arbitrary: t)
  case (Cons b bs)
  then show ?case
    using console_byte_safe [of t "received_byte ts strip b" others] by (auto elim!: total_res_mono)
qed simp

end

end
