(* ===== verification/Term_Safety.thy ===== *)
theory Term_Safety
  imports Term_Contract
begin

text \<open>
  The VT52 and the TTY keep the contract on a screen of 80 to 255 columns, for the bytes that
  are \<open>harmless\<close>: not the underscore on the TTY, and on 80 columns not the tab, whose loop runs
  to column 80 and need not end on a screen that has none.
\<close>

definition harmless :: "q_emulation \<Rightarrow> int \<Rightarrow> byte \<Rightarrow> bool" where
  "harmless e w b =
     (case e of
        Q_EMUL_VT52 \<Rightarrow> 80 < w \<or> b AND 0x7F \<noteq> 9
      | Q_EMUL_TTY \<Rightarrow> b \<noteq> 0x5F \<and> (80 < w \<or> b \<noteq> 9)
      | Q_EMUL_ANSI \<Rightarrow> b \<noteq> 0x40 \<and> (80 < w \<or> b \<noteq> 9)
      | _ \<Rightarrow> False)"

section \<open>Operations of the screen\<close>

abbreviation screen_safe :: "q_emulation \<Rightarrow> int \<Rightarrow> int \<Rightarrow> (screen \<Rightarrow> fault + screen) \<Rightarrow> bool" where
  "screen_safe e w h f \<equiv> \<forall>s. screen_ok e w h w s \<longrightarrow> total_res (screen_ok e w h w) (f s)"

lemma cursor_safe:
  "screen_safe e w h (cursor_up n b)" "screen_safe e w h (cursor_down n b)"
  "screen_safe e w h (cursor_left n b)" "screen_safe e w h (cursor_right n False)"
  "screen_safe e w h cursor_carriage_return" "screen_safe e w h (cursor_linefeed b)"
  "screen_safe e w h cursor_formfeed"
  by (auto elim!: total_res_mono [OF cursor_up_ok] total_res_mono [OF cursor_down_ok]
      total_res_mono [OF cursor_left_ok] total_res_mono [OF cursor_right_ok]
      total_res_mono [OF cursor_carriage_return_ok] total_res_mono [OF cursor_linefeed_ok]
      total_res_mono [OF cursor_formfeed_ok])

lemma position_safe: "0 \<le> row \<Longrightarrow> 0 \<le> col \<Longrightarrow> screen_safe e w h (cursor_position row col)"
  by (auto elim!: total_res_mono [OF cursor_position_ok])

lemma print_safe: "\<not> vt100_like e \<Longrightarrow> screen_safe e w h (print_character c)"
  by (auto elim!: total_res_mono [OF print_character_ok])

lemma kept_ok:
  "screen_ok e w h m s \<Longrightarrow> total_res (kept e w h m s) r \<Longrightarrow> total_res (screen_ok e w h m) r"
  using screen_kept [of e w h m s r] by (simp add: total_res_iff) blast

lemma kept_safe:
  "(\<And>s. screen_ok e w h w s \<Longrightarrow> total_res (kept e w h w s) (f s)) \<Longrightarrow> screen_safe e w h f"
  using kept_ok by blast

lemma screen_ok_frame: "screen_ok e w h m s \<Longrightarrow> frame_ok e w h m s"
  by (simp add: screen_ok_def)

lemma erase_screen_safe:
  assumes "screen_ok e w h w s" "w \<le> 255" "bottom < h" "right < w"
  shows "total_res (screen_ok e w h w) (erase_screen top_row left bottom right honor s)"
  using assms by (intro kept_ok [OF assms(1)] erase_screen_kept screen_ok_frame) auto

lemma erase_line_safe:
  assumes "screen_ok e w h w s" "w \<le> 255" "0 \<le> left" "right \<le> w"
  shows "total_res (screen_ok e w h w) (erase_line left right honor s)"
  using assms by (intro kept_ok [OF assms(1)] erase_line_kept screen_ok_frame screen_ok_linked) auto

lemma current_line:
  assumes "screen_ok e w h m s"
  obtains l where "get_line s (current s) = Inr l" "line_ok m l"
  using get_line_ok [OF screen_ok_frame [OF assms] screen_ok_linked [OF assms]] by blast

lemma erase_to_end_safe:
  assumes "w \<le> 255"
  shows "screen_safe e w h erase_to_end_of_screen" "screen_safe e w h erase_to_end_of_line"
proof -
  show "screen_safe e w h erase_to_end_of_screen"
    using assms frame_okD(6,7) [OF screen_ok_frame]
    by (auto simp: erase_to_end_of_screen_def intro!: erase_screen_safe)
  show "screen_safe e w h erase_to_end_of_line"
  proof (intro allI impI)
    fix s assume ok: "screen_ok e w h w s"
    obtain l where "get_line s (current s) = Inr l" "line_ok w l" using current_line [OF ok] .
    then show "total_res (screen_ok e w h w) (erase_to_end_of_line s)"
      using erase_line_safe [OF ok assms, of "cursor_x s" "l_length l"] frame_okD(10) [OF screen_ok_frame [OF ok]]
      by (simp add: erase_to_end_of_line_def line_ok_def)
  qed
qed

lemma scroll_safe:
  assumes "0 \<le> n"
  shows "screen_safe e w h (insert_lines n)" "screen_safe e w h (delete_lines n)" "screen_safe e w h (scroll_down n)"
proof -
  note d = frame_okD(7,12,13,16) [OF screen_ok_frame]
  have "screen_safe e w h (insert_lines n)"
    by (rule kept_safe) (use d assms in \<open>auto simp: insert_lines_def scrolling_region_scroll_down_def
        Q_MAX_LINE_LENGTH_def intro!: rectangle_scroll_down_kept screen_ok_frame\<close>)
  moreover have "screen_safe e w h (delete_lines n)"
    by (rule kept_safe) (use d assms in \<open>auto simp: delete_lines_def scrolling_region_scroll_up_def
        Q_MAX_LINE_LENGTH_def intro!: rectangle_scroll_up_kept screen_ok_frame\<close>)
  moreover have "screen_safe e w h (scroll_down n)"
    by (rule kept_safe) (use d assms in \<open>auto simp: scroll_down_def scrolling_region_scroll_down_def
        Q_MAX_LINE_LENGTH_def intro!: rectangle_scroll_down_kept screen_ok_frame\<close>)
  ultimately show "screen_safe e w h (insert_lines n)" "screen_safe e w h (delete_lines n)"
    "screen_safe e w h (scroll_down n)" by blast+
qed

section \<open>The VT52\<close>

lemma on_screen_total [simp]:
  "total_res P (on_screen f t) = total_res (\<lambda>s. P (t\<lparr>scr := s\<rparr>)) (f (scr t))"
  by (simp add: on_screen_def)

definition vt52_scan_ok :: "terminal \<Rightarrow> bool" where
  "vt52_scan_ok t \<longleftrightarrow> vt52_count t < EMUL_BUFFER_SIZE"

lemma vt52_done_safe:
  "total_res (\<lambda>t'. screen_ok e w h w (scr t') \<and> vt52_scan_ok t') m \<Longrightarrow>
   safe_step e w h vt52_scan_ok t (vt52_done m)"
  by (auto simp: safe_step_def vt52_done_def vt52_clear_state_def vt52_scan_ok_def after_empty elim!: total_res_mono)

lemma vt52_screen_safe:
  "screen_safe e w h f \<Longrightarrow> screen_ok e w h w (scr t) \<Longrightarrow> vt52_scan_ok t \<Longrightarrow>
   safe_step e w h vt52_scan_ok t (vt52_done (on_screen f t))"
  by (rule vt52_done_safe) (auto simp: vt52_scan_ok_def elim!: total_res_mono)

lemma vt52_collect_safe:
  assumes "screen_ok e w h w (scr t)" "buffer_short (ebuf t)" "vt52_scan_ok t"
  shows "safe_step e w h vt52_scan_ok t (vt52_collect b st t)"
  using save_char_ok [OF assms(2), of b] assms(1,3)
  by (auto simp: safe_step_def vt52_collect_def vt52_scan_ok_def total_res_iff)

lemma vt52_unknown_safe:
  assumes "screen_ok e w h w (scr t)" "buffer_short (ebuf t)" "vt52_scan_ok t"
  shows "safe_step e w h vt52_scan_ok t (vt52_unknown b t)"
  using dump_sequence_ok [of "t\<lparr>vt52_scan := V_SCAN_NONE\<rparr>" b] assms
  by (auto simp: safe_step_def vt52_unknown_def vt52_scan_ok_def elim!: total_res_mono)

lemma vt52_tab_safe:
  assumes "80 < w"
  shows "screen_safe e w h vt52_tab"
proof (intro allI impI)
  fix s assume ok: "screen_ok e w h w s"
  show "total_res (screen_ok e w h w) (vt52_tab s)"
    unfolding vt52_tab_def
  proof (rule tab_loop_ok [where P = "screen_ok e w h w", OF ok])
    fix s assume ok: "screen_ok e w h w s" and x: "cursor_x s < 80"
    with assms show "total_res (\<lambda>s'. screen_ok e w h w s' \<and> cursor_x s < cursor_x s') (cursor_right 1 False s)"
      by (auto elim!: total_res_mono [OF cursor_right_once_ok])
  qed
qed

lemma reverse_linefeed_safe: "screen_safe e w h vt52_reverse_linefeed"
  using scroll_safe(3) [of 1] cursor_safe(1) [of e w h 1 False]
  by (auto simp: vt52_reverse_linefeed_def)

lemma vt52_none_safe:
  assumes "screen_ok e w h w (scr t)" "buffer_short (ebuf t)" "vt52_scan_ok t" "80 < w \<or> b \<noteq> 9"
  shows "safe_step e w h vt52_scan_ok t (vt52_none b t)"
proof -
  note go = vt52_screen_safe [OF _ assms(1,3)]
  have stay: "safe_step e w h vt52_scan_ok t (vt52_done (Inr t'))" if "scr t' = scr t" "vt52_count t' = vt52_count t" for t'
    using that assms(1,3) by (intro vt52_done_safe) (simp add: vt52_scan_ok_def)
  have "safe_step e w h vt52_scan_ok t (Inr (ONE_CHAR, t\<lparr>to_screen := c\<rparr>))" for c
    using assms by (simp add: safe_step_def after_same vt52_scan_ok_def)
  then show ?thesis
    using assms go [OF cursor_safe(3)] go [OF vt52_tab_safe] vt52_collect_safe [OF assms(1-3)]
    by (auto simp add: vt52_none_def stay qodem_write_def)
qed

lemma vt52_esc_safe:
  assumes "screen_ok e w h w (scr t)" "buffer_short (ebuf t)" "vt52_scan_ok t" "w \<le> 255"
  shows "safe_step e w h vt52_scan_ok t (vt52_esc b t)"
proof -
  note go = vt52_screen_safe [OF _ assms(1,3)]
  have stay: "safe_step e w h vt52_scan_ok t (vt52_done (Inr t'))" if "scr t' = scr t" "vt52_count t' = vt52_count t" for t'
    using that assms(1,3) by (intro vt52_done_safe) (simp add: vt52_scan_ok_def)
  show ?thesis
    using vt52_collect_safe [OF assms(1-3)] vt52_unknown_safe [OF assms(1-3)]
      go [OF cursor_safe(1)] go [OF cursor_safe(2)] go [OF cursor_safe(3)] go [OF cursor_safe(4)]
      go [OF cursor_safe(7)] go [OF position_safe] go [OF reverse_linefeed_safe]
      go [OF erase_to_end_safe(1) [OF assms(4)]] go [OF erase_to_end_safe(2) [OF assms(4)]]
    by (simp add: vt52_esc_def stay qodem_write_def)
qed

lemma vt52_y_2_safe:
  assumes "screen_ok e w h w (scr t)" "vt52_scan_ok t"
  shows "safe_step e w h vt52_scan_ok t (vt52_y_2 b t)"
  using vt52_screen_safe [OF position_safe assms]
  by (simp add: vt52_y_2_def read_byte_def EMUL_BUFFER_SIZE_def Let_def)

lemma ansi_color_ok:
  assumes "buffer_short (ebuf t)" "c < EMUL_BUFFER_SIZE"
  shows "total_res (\<lambda>(ok, a, c'). c' < EMUL_BUFFER_SIZE) (ansi_color a c t)"
  unfolding ansi_color_def Let_def
  by (rule total_res_mono [OF sgr_loop_ok [OF assms(1)]]) (use assms(2) in auto)

lemma safe_step_cong:
  "ebuf t' = ebuf t \<Longrightarrow> safe_step e w h P t' m = safe_step e w h P t m"
  by (simp add: safe_step_def)

lemma vt52_csi_safe:
  assumes "screen_ok e w h w (scr t)" "buffer_short (ebuf t)" "vt52_scan_ok t" "80 < w \<or> b \<noteq> 9"
  shows "safe_step e w h vt52_scan_ok t (vt52_csi b t)"
proof -
  let ?t = "t\<lparr>vt52_count := emul_n (ebuf t)\<rparr>"
  have count: "vt52_scan_ok ?t" using assms(2) by (simp add: vt52_scan_ok_def buffer_short_def sequence_ok_def)
  have "safe_step e w h vt52_scan_ok t (vt52_collect b V_SCAN_CSI_PARAM ?t)"
    using vt52_collect_safe [OF _ _ count] assms(1,2) safe_step_cong [of ?t t] by simp
  moreover have "safe_step e w h vt52_scan_ok t (vt52_done (Inr (set_color_of a t)))" for a
    using assms(1,3) by (intro vt52_done_safe) (simp add: set_color_of_def vt52_scan_ok_def)
  moreover have "safe_step e w h vt52_scan_ok t (vt52_none b (vt52_clear_state (t\<lparr>hold_screen_mode := True\<rparr>)))"
  proof -
    let ?u = "vt52_clear_state (t\<lparr>hold_screen_mode := True\<rparr>)"
    have "safe_step e w h vt52_scan_ok ?u (vt52_none b ?u)"
      using assms by (intro vt52_none_safe) (simp_all add: vt52_clear_state_def vt52_scan_ok_def)
    moreover have "ebuf ?u = empty_buffer" by (simp add: vt52_clear_state_def)
    moreover have "after_step empty_buffer r u \<Longrightarrow> after_step (ebuf t) r u" for r u
      by (auto simp: after_step_def)
    ultimately show ?thesis by (auto simp: safe_step_def elim!: total_res_mono)
  qed
  ultimately show ?thesis by (simp add: vt52_csi_def)
qed

lemma vt52_csi_param_safe:
  assumes "screen_ok e w h w (scr t)" "buffer_short (ebuf t)" "vt52_scan_ok t"
  shows "safe_step e w h vt52_scan_ok t (vt52_csi_param b t)"
proof -
  obtain ok a c where color: "ansi_color (vt52_attributes t) (vt52_count t) t = Inr (ok, a, c)" "c < EMUL_BUFFER_SIZE"
    using ansi_color_ok [OF assms(2), of "vt52_count t" "vt52_attributes t"] assms(3)
    by (auto simp: total_res_iff vt52_scan_ok_def)
  let ?t = "t\<lparr>vt52_attributes := a, vt52_count := c\<rparr>"
  have t: "vt52_scan_ok ?t" "screen_ok e w h w (scr ?t)" "buffer_short (ebuf ?t)"
    using color(2) assms by (simp_all add: vt52_scan_ok_def)
  have "safe_step e w h vt52_scan_ok t (vt52_done (Inr (set_color_of a ?t)))"
    using t by (intro vt52_done_safe) (simp add: set_color_of_def vt52_scan_ok_def)
  moreover have "safe_step e w h vt52_scan_ok t (vt52_unknown x ?t)" for x
    using vt52_unknown_safe [OF t(2,3,1)] safe_step_cong [of ?t t] by simp
  ultimately show ?thesis
    using vt52_collect_safe [OF assms] vt52_unknown_safe [OF assms] color(1)
    by (simp add: vt52_csi_param_def Let_def)
qed

lemma vt52_safe:
  assumes "screen_ok e w h w (scr t)" "buffer_short (ebuf t)" "vt52_scan_ok t" "80 < w \<or> b AND 0x7F \<noteq> 9" "w \<le> 255"
  shows "safe_step e w h vt52_scan_ok t (vt52 b t)"
  using vt52_none_safe [OF assms(1-4)] vt52_collect_safe [OF assms(1-3)] vt52_y_2_safe [OF assms(1,3)]
    vt52_esc_safe [OF assms(1-3,5)] vt52_csi_safe [OF assms(1-4)] vt52_csi_param_safe [OF assms(1-3)]
  by (simp add: vt52_def Let_def split: vt52_scan_state.split)

interpretation vt52: safe_emulation Q_EMUL_VT52 w h vt52 "harmless Q_EMUL_VT52 w" vt52_scan_ok
  by unfold_locales
     (auto simp: harmless_def emulate_def own_line_ends_def vt100_like_def vt52_scan_ok_def intro: vt52_safe)

section \<open>The TTY and control characters\<close>

lemma print_tab_safe:
  assumes "limit < w" "limit \<le> 80" "e \<in> {Q_EMUL_ANSI, Q_EMUL_TTY}"
  shows "screen_safe e w h (print_tab limit)"
proof (intro allI impI)
  fix s assume ok: "screen_ok e w h w s"
  show "total_res (screen_ok e w h w) (print_tab limit s)"
    unfolding print_tab_def
  proof (rule tab_loop_ok [where P = "screen_ok e w h w", OF ok])
    fix s assume ok: "screen_ok e w h w s" and x: "cursor_x s < limit"
    have "print_margin s = w - 1"
      using screen_ok_frame [OF ok] assms(3) by (auto simp: print_margin_def frame_ok_def)
    then have "column_after s = cursor_x s + 1" using x assms(1,2) by (simp add: column_after_def)
    then show "total_res (\<lambda>s'. screen_ok e w h w s' \<and> cursor_x s < cursor_x s') (print_character 32 s)"
      using print_character_ok [OF ok, of 32] assms(3) by (auto simp: vt100_like_def elim!: total_res_mono)
  qed
qed

lemma on_screen_safe:
  "screen_safe e w h f \<Longrightarrow> screen_ok e w h w (scr t) \<Longrightarrow>
   total_res (\<lambda>t'. \<exists>s. t' = t\<lparr>scr := s\<rparr> \<and> screen_ok e w h w s) (on_screen f t)"
  by (auto elim!: total_res_mono)

lemma control_char_safe:
  assumes "80 < w \<or> b \<noteq> 9" "e \<in> {Q_EMUL_ANSI, Q_EMUL_TTY}" "screen_ok e w h w (scr t)"
  shows "total_res (\<lambda>t'. \<exists>s xs. t' = t\<lparr>scr := s, sent := xs\<rparr> \<and> screen_ok e w h w s)
           (generic_handle_control_char b t)"
proof -
  have e: "\<not> vt100_like e" using assms(2) by (auto simp: vt100_like_def)
  have go: "total_res (\<lambda>t'. \<exists>s xs. t' = t\<lparr>scr := s, sent := xs\<rparr> \<and> screen_ok e w h w s) (on_screen f t)"
    if "screen_safe e w h f" for f
    using on_screen_safe [OF that assms(3)]
  proof (rule total_res_mono)
    fix t' assume "\<exists>s. t' = t\<lparr>scr := s\<rparr> \<and> screen_ok e w h w s"
    then obtain s where s: "t' = t\<lparr>scr := s\<rparr>" "screen_ok e w h w s" by blast
    have "t\<lparr>scr := s\<rparr> = t\<lparr>scr := s, sent := sent t\<rparr>" by (cases t) simp
    with s show "\<exists>s xs. t' = t\<lparr>scr := s, sent := xs\<rparr> \<and> screen_ok e w h w s" by metis
  qed
  have stay: "\<exists>s xs. t = t\<lparr>scr := s, sent := xs\<rparr> \<and> screen_ok e w h w s"
    by (rule exI [of _ "scr t"], rule exI [of _ "sent t"]) (simp add: assms(3))
  have sends: "\<exists>s xs. qodem_write ys t = t\<lparr>scr := s, sent := xs\<rparr> \<and> screen_ok e w h w s" for ys
    by (rule exI [of _ "scr t"], rule exI [of _ "sent t @ ys"]) (simp add: assms(3) qodem_write_def)
  show ?thesis
    using go [OF cursor_safe(3)] go [OF cursor_safe(5)] go [OF cursor_safe(6)] go [OF cursor_safe(7)]
      go [OF print_safe [OF e]] go [OF print_tab_safe [of 80, OF _ _ assms(2)]] stay sends assms(1)
    by (auto simp add: generic_handle_control_char_def simp del: on_screen_total)
qed

text \<open>The TTY has no variables of its own.\<close>

definition tty_scan_ok :: "terminal \<Rightarrow> bool" where
  "tty_scan_ok t \<longleftrightarrow> True"

lemma tty_safe:
  assumes "screen_ok Q_EMUL_TTY w h w (scr t)" "buffer_short (ebuf t)" "b \<noteq> 0x5F" "80 < w \<or> b \<noteq> 9"
  shows "safe_step Q_EMUL_TTY w h tty_scan_ok t (tty b t)"
proof -
  have consumed: "safe_step Q_EMUL_TTY w h tty_scan_ok t
      (bind_res (on_screen f t) (\<lambda>t. Inr (NO_CHAR_YET, t\<lparr>to_screen := 1\<rparr>)))"
    if "screen_safe Q_EMUL_TTY w h f" for f
    using on_screen_safe [OF that assms(1)] assms(2)
    by (auto simp: safe_step_def after_same tty_scan_ok_def simp del: on_screen_total elim!: total_res_mono)
  have shown: "safe_step Q_EMUL_TTY w h tty_scan_ok t (Inr (r, t\<lparr>to_screen := c\<rparr>))"
    if "r \<noteq> REPEAT_STATE" "r \<noteq> MANY_CHARS" for r c
    using assms(1,2) that by (simp add: safe_step_def after_same tty_scan_ok_def)
  have sends: "safe_step Q_EMUL_TTY w h tty_scan_ok t (Inr (NO_CHAR_YET, (qodem_write xs t)\<lparr>to_screen := c\<rparr>))" for xs c
    using assms(1,2) by (simp add: safe_step_def after_same qodem_write_def tty_scan_ok_def)
  show ?thesis
    using assms(3,4) shown sends consumed [OF cursor_safe(3)] consumed [OF cursor_safe(5)] consumed [OF cursor_safe(6)]
      consumed [OF print_tab_safe [of 80]]
    by (auto simp add: tty_def Let_def simp del: on_screen_total)
qed

interpretation tty: safe_emulation Q_EMUL_TTY w h tty "harmless Q_EMUL_TTY w" tty_scan_ok
  by unfold_locales (auto simp: harmless_def emulate_def own_line_ends_def vt100_like_def tty_scan_ok_def intro: tty_safe)

end
