(* ===== verification/Term_Ansi_Safety.thy ===== *)
theory Term_Ansi_Safety
  imports Term_Safety
begin

text \<open>
  The ANSI emulation keeps the contract of the console for every byte but the at sign, which
  may end an insertion, and the tab on 80 columns. The property of the three emulations, and
  examples of what the excluded bytes do.
\<close>

definition ansi_scan_ok :: "terminal \<Rightarrow> bool" where
  "ansi_scan_ok t \<longleftrightarrow>
     ansi_count t < EMUL_BUFFER_SIZE \<and> 0 \<le> saved_cursor_x t \<and> 0 \<le> saved_cursor_y t \<and>
     (ansi_scan t = A_SCAN_MUSIC \<longrightarrow> music_buffer_n t < ANSI_MUSIC_BUFFER_SIZE)"

abbreviation ansi_ok :: "int \<Rightarrow> int \<Rightarrow> terminal \<Rightarrow> bool" where
  "ansi_ok w h t \<equiv> screen_ok Q_EMUL_ANSI w h w (scr t) \<and> ansi_scan_ok t"

abbreviation ansi_step :: "int \<Rightarrow> int \<Rightarrow> terminal \<Rightarrow> fault + emul_status \<times> terminal \<Rightarrow> bool" where
  "ansi_step w h \<equiv> safe_step Q_EMUL_ANSI w h ansi_scan_ok"

section \<open>Parameters\<close>

lemma one_parameter_known:
  "c < EMUL_BUFFER_SIZE \<Longrightarrow> v \<noteq> -1 \<Longrightarrow> one_parameter omitted base u v c = Inr (None, c)"
  by (subst one_parameter.simps) simp

lemma one_parameter_ok:
  assumes "buffer_short u" "c < EMUL_BUFFER_SIZE" "0 \<le> omitted"
  shows "total_res (\<lambda>(r, c'). c' < EMUL_BUFFER_SIZE \<and> (\<forall>v. r = Some v \<longrightarrow> 0 \<le> v))
           (one_parameter omitted base u (-1) c)"
proof (cases "emul_buf u ! c = 59")
  case True
  then have "c + 1 < EMUL_BUFFER_SIZE"
    using buffer_short_zero [OF assms(1,2)] by (simp add: EMUL_BUFFER_SIZE_def)
  then show ?thesis
    using True assms(2,3) one_parameter_known [of "c + 1" omitted omitted base u]
    by (simp add: one_parameter.simps [of omitted base u "-1" c] read_byte_ok)
next
  case False
  obtain ps c' where ps: "ansi_ps u c = Inr (ps, c')" "c' < EMUL_BUFFER_SIZE"
    using ansi_ps_ok [OF assms(1,2)] by (auto simp: total_res_iff)
  have more: "emul_buf u ! c' = 59 \<Longrightarrow> c' + 2 < EMUL_BUFFER_SIZE"
    using buffer_short_zero [OF assms(1) ps(2)] by (simp add: EMUL_BUFFER_SIZE_def)
  show ?thesis
    using False ps more assms(2) one_parameter_known [of "c' + 2" "ps - base" omitted base u]
    by (auto simp: one_parameter.simps [of omitted base u "-1" c] read_byte_ok)
qed

lemma position_known:
  "c < EMUL_BUFFER_SIZE \<Longrightarrow> row \<noteq> -1 \<Longrightarrow> col \<noteq> -1 \<Longrightarrow> position_loop u row col c = Inr (None, c)"
  by (subst position_loop.simps) simp

text \<open>The round that finds the column, at index \<open>c1\<close>.\<close>

lemma position_column:
  assumes "buffer_short u" "c1 < EMUL_BUFFER_SIZE - 1" "0 \<le> row"
  shows "total_res (\<lambda>(r, c'). c' < EMUL_BUFFER_SIZE \<and> (\<forall>x y. r = Some (x, y) \<longrightarrow> 0 \<le> x \<and> 0 \<le> y))
    (bind_res (read_byte u c1) (\<lambda>b.
       if b \<noteq> 0 \<and> b \<noteq> 59 then Inr (None, c1)
       else
         bind_res (if b = 0 then Inr (1, c1) else ansi_ps u (c1 + 1)) (\<lambda>(ps, c2).
         if ps = -1 then Inr (None, c2)
         else
           let col' = max 0 (ps - 1) in
           bind_res (read_byte u (c2 + 1)) (\<lambda>b.
             if b = 0 then Inr (Some (row, col'), c2 + 1)
             else position_loop u row col' (c2 + 1)))))"
proof -
  have r1: "read_byte u c1 = Inr (emul_buf u ! c1)" using assms(2) by (simp add: read_byte_ok)
  have fin: "total_res (\<lambda>(r, c'). c' < EMUL_BUFFER_SIZE \<and> (\<forall>x y. r = Some (x, y) \<longrightarrow> 0 \<le> x \<and> 0 \<le> y))
      (bind_res (read_byte u (c2 + 1)) (\<lambda>b.
         if b = 0 then Inr (Some (row, col), c2 + 1) else position_loop u row col (c2 + 1)))"
    if "c2 < EMUL_BUFFER_SIZE - 1" "0 \<le> col" for c2 col
    using that assms(3) position_known [of "c2 + 1" row col u] by (auto simp: read_byte_ok)
  consider "emul_buf u ! c1 = 0" | "emul_buf u ! c1 = 59" | "emul_buf u ! c1 \<noteq> 0" "emul_buf u ! c1 \<noteq> 59"
    by blast
  then show ?thesis
  proof cases
    case 1
    with r1 fin [of c1 0] assms(2) show ?thesis by simp
  next
    case 2
    then have c1: "c1 + 1 < EMUL_BUFFER_SIZE"
      using buffer_short_zero [OF assms(1), of c1] assms(2) by (simp add: EMUL_BUFFER_SIZE_def)
    obtain ps c2 where ps: "ansi_ps u (c1 + 1) = Inr (ps, c2)" "c2 < EMUL_BUFFER_SIZE"
      "ps = -1 \<or> c2 < EMUL_BUFFER_SIZE - 1"
      using ansi_ps_ok [OF assms(1) c1] by (auto simp: total_res_iff)
    with 2 r1 fin [of c2 "max 0 (ps - 1)"] show ?thesis
      by (cases "ps = -1") (simp_all add: Let_def del: total_res_bind)
  next
    case 3
    with r1 assms(2) show ?thesis by simp
  qed
qed

lemma position_loop_ok:
  assumes "buffer_short u" "c < EMUL_BUFFER_SIZE"
  shows "total_res (\<lambda>(r, c'). c' < EMUL_BUFFER_SIZE \<and> (\<forall>x y. r = Some (x, y) \<longrightarrow> 0 \<le> x \<and> 0 \<le> y))
           (position_loop u (-1) (-1) c)"
proof (cases "emul_buf u ! c = 59")
  case True
  then have c: "Suc c < EMUL_BUFFER_SIZE - 1"
    using buffer_short_zero [OF assms] by (simp add: EMUL_BUFFER_SIZE_def)
  then have "position_loop u (-1) (-1) c = position_loop u 0 (-1) (Suc c)"
    using True assms(2) by (simp add: position_loop.simps [of u "-1" "-1" c] read_byte_ok)
  moreover have "read_byte u (Suc c) = Inr (emul_buf u ! Suc c)" using c by (simp add: read_byte_ok)
  ultimately show ?thesis
    using position_column [OF assms(1) c, of 0] c
    by (simp add: position_loop.simps [of u 0 "-1" "Suc c"] Let_def del: total_res_bind)
next
  case False
  obtain ps c1 where ps: "ansi_ps u c = Inr (ps, c1)" "c1 < EMUL_BUFFER_SIZE" "ps = -1 \<or> c1 < EMUL_BUFFER_SIZE - 1"
    using ansi_ps_ok [OF assms] by (auto simp: total_res_iff)
  show ?thesis
  proof (cases "ps = -1")
    case True
    with False ps assms(2) show ?thesis
      by (simp add: position_loop.simps [of u "-1" "-1" c] read_byte_ok)
  next
    case known: False
    with ps(3) have "c1 < EMUL_BUFFER_SIZE - 1" by simp
    from position_column [OF assms(1) this, of "max 0 (ps - 1)"] False known ps(1) assms(2) show ?thesis
      by (simp add: position_loop.simps [of u "-1" "-1" c] read_byte_ok [of c] Let_def del: total_res_bind)
  qed
qed

section \<open>The end of a command\<close>

lemma ansi_done_safe:
  "total_res (\<lambda>t'. ansi_ok w h t') m \<Longrightarrow> ansi_step w h t (ansi_done m)"
  by (auto simp: safe_step_def ansi_done_def ansi_clear_state_def ansi_scan_ok_def after_empty elim!: total_res_mono)

lemma ansi_screen_safe:
  "screen_safe Q_EMUL_ANSI w h f \<Longrightarrow> ansi_ok w h t \<Longrightarrow> ansi_step w h t (ansi_done (on_screen f t))"
  by (rule ansi_done_safe) (auto simp: ansi_scan_ok_def elim!: total_res_mono)

lemma ansi_collect_safe:
  assumes "ansi_ok w h t" "buffer_short (ebuf t)" "st \<noteq> A_SCAN_MUSIC"
  shows "ansi_step w h t (ansi_collect b st t)"
  using save_char_ok [OF assms(2), of b] assms(1,3)
  by (auto simp: safe_step_def ansi_collect_def ansi_scan_ok_def total_res_iff)

lemma ansi_unknown_safe:
  assumes "ansi_ok w h t" "buffer_short (ebuf t)"
  shows "ansi_step w h t (ansi_unknown b t)"
  using dump_sequence_ok [of "t\<lparr>ansi_scan := A_SCAN_NONE\<rparr>" b] assms
  by (auto simp: safe_step_def ansi_unknown_def ansi_scan_ok_def elim!: total_res_mono)

text \<open>A command with parameters keeps the sequence, so that it can still be shown.\<close>

definition keeps_sequence :: "int \<Rightarrow> int \<Rightarrow> (terminal \<Rightarrow> fault + bool \<times> terminal) \<Rightarrow> bool" where
  "keeps_sequence w h f \<longleftrightarrow>
     (\<forall>t. ansi_ok w h t \<longrightarrow> buffer_short (ebuf t) \<longrightarrow>
        total_res (\<lambda>(r, t'). ansi_ok w h t' \<and> ebuf t' = ebuf t) (f t))"

lemma ansi_try_safe:
  assumes "keeps_sequence w h f" "ansi_ok w h t" "buffer_short (ebuf t)"
  shows "ansi_step w h t (ansi_try f b t)"
proof -
  obtain r t' where f: "f t = Inr (r, t')" "ansi_ok w h t'" "ebuf t' = ebuf t"
    using assms by (auto simp: keeps_sequence_def total_res_iff)
  then have "ansi_step w h t' (ansi_unknown b t')" "ansi_step w h t (ansi_done (Inr t'))"
    using assms(3) ansi_unknown_safe [of w h t' b] ansi_done_safe [of w h "Inr t'" t] by simp_all
  with f show ?thesis by (simp add: ansi_try_def safe_step_def)
qed

lemma with_parameter_keeps:
  assumes "0 \<le> omitted"
    and "\<And>v t. 0 \<le> v \<Longrightarrow> ansi_ok w h t \<Longrightarrow> total_res (\<lambda>t'. ansi_ok w h t' \<and> ebuf t' = ebuf t) (f v t)"
  shows "keeps_sequence w h (with_parameter omitted base f)"
  unfolding keeps_sequence_def
proof (intro allI impI)
  fix t assume t: "ansi_ok w h t" "buffer_short (ebuf t)"
  then obtain r c where p: "one_parameter omitted base (ebuf t) (-1) (ansi_count t) = Inr (r, c)"
    "c < EMUL_BUFFER_SIZE" "\<forall>v. r = Some v \<longrightarrow> 0 \<le> v"
    using one_parameter_ok [OF t(2) _ assms(1), of "ansi_count t" base] by (auto simp: total_res_iff ansi_scan_ok_def)
  have "ansi_ok w h (t\<lparr>ansi_count := c\<rparr>)" using t(1) p(2) by (simp add: ansi_scan_ok_def)
  with p assms(2) [of _ "t\<lparr>ansi_count := c\<rparr>"]
  show "total_res (\<lambda>(r, t'). ansi_ok w h t' \<and> ebuf t' = ebuf t) (with_parameter omitted base f t)"
    by (auto simp: with_parameter_def Let_def split: option.splits)
qed

lemma screen_parameter_keeps:
  assumes "0 \<le> omitted" "\<And>v t. 0 \<le> v \<Longrightarrow> screen_safe Q_EMUL_ANSI w h (g v t)"
  shows "keeps_sequence w h (with_parameter omitted base (\<lambda>v t. on_screen (g v t) t))"
proof (rule with_parameter_keeps [OF assms(1)])
  fix v :: int and t assume "0 \<le> v" "ansi_ok w h t"
  with assms(2) [of v t] show "total_res (\<lambda>t'. ansi_ok w h t' \<and> ebuf t' = ebuf t) (on_screen (g v t) t)"
    by (auto simp: ansi_scan_ok_def elim!: total_res_mono)
qed

section \<open>The commands\<close>

lemma delete_once_ok:
  "0 \<le> x \<Longrightarrow> x < 255 \<Longrightarrow> line_ok m l \<Longrightarrow> total_res (line_ok m) (delete_once x l)"
  using copy_cells_line_ok [of m l m l "255 - x" x "x + 1"]
  by (auto simp: delete_once_def move_cells_def Q_MAX_LINE_LENGTH_def line_ok_def elim!: total_res_mono)

lemma delete_character_safe:
  assumes "w \<le> 255"
  shows "screen_safe e w h (delete_character n)"
proof (rule kept_safe)
  fix s assume ok: "screen_ok e w h w s"
  have x: "0 \<le> cursor_x s" "cursor_x s < 255" using ok assms by (auto simp: screen_ok_def frame_ok_def)
  show "total_res (kept e w h w s) (delete_character n s)"
    unfolding delete_character_def
    by (rule on_current_kept [OF screen_ok_frame [OF ok] screen_ok_linked [OF ok]])
       (auto intro!: total_repeat_res delete_once_ok [OF x])
qed

lemma go_to_safe:
  "0 \<le> n \<Longrightarrow> screen_safe e w h (go_to_row n)" "0 \<le> n \<Longrightarrow> screen_safe e w h (go_to_column n)"
  by (auto simp: go_to_row_def go_to_column_def dest: frame_okD(10,12) [OF screen_ok_frame]
      intro: position_safe [rule_format])

lemma repeat_safe: "screen_safe e w h f \<Longrightarrow> screen_safe e w h (repeat_res n f)"
  by (auto intro!: total_repeat_res)

lemma erase_part_safe:
  assumes "w \<le> 255"
  shows "screen_safe e w h (erase_part_of_line i)" "screen_safe e w h (erase_part_of_screen i)"
proof -
  show "screen_safe e w h (erase_part_of_line i)"
  proof (intro allI impI)
    fix s assume ok: "screen_ok e w h w s"
    obtain l where l: "get_line s (current s) = Inr l" "line_ok w l" using current_line [OF ok] .
    have "cursor_x s < w" using ok by (simp add: screen_ok_def frame_ok_def)
    with l ok erase_to_end_safe(2) [OF assms, of e h] erase_line_safe [OF ok assms]
    show "total_res (screen_ok e w h w) (erase_part_of_line i s)"
      by (auto simp: erase_part_of_line_def line_ok_def)
  qed
  show "screen_safe e w h (erase_part_of_screen i)"
  proof (intro allI impI)
    fix s assume ok: "screen_ok e w h w s"
    have "cursor_x s < w" "cursor_y s < h" using ok by (simp_all add: screen_ok_def frame_ok_def)
    with ok erase_to_end_safe(1) [OF assms, of e h] erase_screen_safe [OF ok assms] cursor_safe(7) [of e w h]
    show "total_res (screen_ok e w h w) (erase_part_of_screen i s)"
      by (auto simp: erase_part_of_screen_def)
  qed
qed

section \<open>The scan states\<close>

lemma ansi_none_safe:
  assumes "ansi_ok w h t" "buffer_short (ebuf t)" "80 < w \<or> b \<noteq> 9"
  shows "ansi_step w h t (ansi_none b t)"
proof -
  have "ansi_step w h t (bind_res (generic_handle_control_char b t) (\<lambda>t. Inr (NO_CHAR_YET, t\<lparr>to_screen := 1\<rparr>)))"
    using control_char_safe [OF assms(3), of Q_EMUL_ANSI h t] assms(1,2)
    by (auto simp: safe_step_def ansi_scan_ok_def after_same elim!: total_res_mono)
  moreover have "ansi_step w h t (Inr (ONE_CHAR, t\<lparr>to_screen := c, rep_character := c\<rparr>))" for c
    using assms(1,2) by (simp add: safe_step_def ansi_scan_ok_def after_same)
  moreover have "ansi_step w h t (bind_res (ansi_collect x A_SCAN_ESC t) (\<lambda>(r, t).
          Inr (r, t\<lparr>ansi_attributes := current_color (scr t)\<rparr>)))" for x
    using ansi_collect_safe [OF assms(1,2), of A_SCAN_ESC x]
    by (auto simp: safe_step_def ansi_scan_ok_def elim!: total_res_mono)
  ultimately show ?thesis by (simp add: ansi_none_def)
qed

lemma ansi_stay_safe:
  "ansi_ok w h t \<Longrightarrow> scr t' = scr t \<Longrightarrow> ansi_scan_ok t' \<Longrightarrow> ansi_step w h t (ansi_done (Inr t'))"
  by (rule ansi_done_safe) simp

lemma ansi_esc_safe:
  assumes "ansi_ok w h t" "buffer_short (ebuf t)"
  shows "ansi_step w h t (ansi_esc b t)"
proof -
  have "ansi_step w h t (Inr (NO_CHAR_YET, t\<lparr>to_screen := 1\<rparr>))"
    using assms by (simp add: safe_step_def ansi_scan_ok_def after_same)
  moreover have "ansi_step w h t (ansi_done (Inr (ansi_identify t)))"
    using assms by (intro ansi_stay_safe) (simp_all add: ansi_identify_def qodem_write_def ansi_scan_ok_def)
  ultimately show ?thesis
    using ansi_collect_safe [OF assms, of A_SCAN_START_SEQUENCE] ansi_unknown_safe [OF assms]
    by (simp add: ansi_esc_def)
qed

lemma ansi_music_start_safe:
  assumes "ansi_ok w h t" "buffer_short (ebuf t)"
  shows "ansi_step w h t (ansi_music_start b t)"
proof -
  have "ansi_step w h t (ansi_done (on_screen (delete_lines 1) t))"
    by (rule ansi_screen_safe [OF scroll_safe(2) assms(1)]) simp
  moreover have "ansi_step w h t (Inr (NO_CHAR_YET, t\<lparr>music_buffer := m, music_buffer_n := 1, ansi_scan := A_SCAN_MUSIC\<rparr>))" for m
    using assms by (simp add: safe_step_def ansi_scan_ok_def after_same ANSI_MUSIC_BUFFER_SIZE_def)
  ultimately show ?thesis by (simp add: ansi_music_start_def)
qed

lemma ansi_start_sequence_safe:
  assumes "ansi_ok w h t" "buffer_short (ebuf t)" "b \<noteq> 0x40" "80 \<le> w" "w \<le> 255"
  shows "ansi_step w h t (ansi_start_sequence b t)"
proof -
  note go = ansi_screen_safe [OF _ assms(1)]
  let ?t = "t\<lparr>ansi_count := emul_n (ebuf t)\<rparr>"
  have "ansi_ok w h ?t" using assms(1,2) by (simp add: ansi_scan_ok_def buffer_short_def sequence_ok_def)
  then have collect: "ansi_step w h t (ansi_collect b st ?t)" if "st \<noteq> A_SCAN_MUSIC" for b st
    using ansi_collect_safe [of w h ?t st b] assms(2) that safe_step_cong [of ?t t] by simp
  have stay: "ansi_step w h t (ansi_done (Inr t))" "ansi_step w h t (ansi_done (Inr (ansi_identify t)))"
    "ansi_step w h t (ansi_done (Inr (t\<lparr>saved_cursor_x := cursor_x (scr t), saved_cursor_y := cursor_y (scr t)\<rparr>)))"
    using assms(1) frame_okD(10,12) [OF screen_ok_frame, of Q_EMUL_ANSI w h w "scr t"]
    by (auto intro!: ansi_stay_safe simp: ansi_identify_def qodem_write_def ansi_scan_ok_def)
  have colour: "ansi_step w h t (ansi_done (Inr (set_color_of a t)))" for a
    using assms(1) by (intro ansi_done_safe) (simp add: set_color_of_def ansi_scan_ok_def)
  have flag: "ansi_step w h t (Inr (NO_CHAR_YET, t\<lparr>private_mode_flag := True\<rparr>))"
    "ansi_step w h t (Inr (NO_CHAR_YET, t\<lparr>dec_private_mode_flag := True\<rparr>))"
    using assms(1,2) by (simp_all add: safe_step_def ansi_scan_ok_def after_same)
  have saved: "ansi_step w h t (ansi_done (on_screen (cursor_position (saved_cursor_y t) (saved_cursor_x t)) t))"
    using assms(1) by (intro go position_safe) (simp_all add: ansi_scan_ok_def)
  have e: "\<not> vt100_like Q_EMUL_ANSI" by (simp add: vt100_like_def)
  note moves = go [OF cursor_safe(1)] go [OF cursor_safe(2)] go [OF cursor_safe(3)] go [OF cursor_safe(4)]
    go [OF position_safe [of 0 0]] go [OF print_tab_safe [of 79]] go [OF go_to_safe(1) [of 0]]
    go [OF go_to_safe(2) [of 0]] go [OF print_safe [OF e]]
  note changes = go [OF erase_to_end_safe(1) [OF assms(5)]] go [OF erase_to_end_safe(2) [OF assms(5)]]
    go [OF scroll_safe(1) [of 1]] go [OF delete_character_safe [OF assms(5)]]
  show ?thesis
    using assms(3,4) collect stay colour flag saved moves changes ansi_music_start_safe [OF assms(1,2)]
      ansi_unknown_safe [OF assms(1,2)]
    by (simp add: ansi_start_sequence_def Let_def)
qed

lemma ansi_number_safe:
  assumes "\<And>i. screen_safe Q_EMUL_ANSI w h (f i)" "ansi_ok w h t" "buffer_short (ebuf t)"
  shows "ansi_step w h t (ansi_number (\<lambda>i. on_screen (f i)) b t)"
proof -
  obtain i c where p: "ansi_ps (ebuf t) (ansi_count t) = Inr (i, c)" "c < EMUL_BUFFER_SIZE"
    using ansi_ps_ok [OF assms(3), of "ansi_count t"] assms(2) by (auto simp: total_res_iff ansi_scan_ok_def)
  let ?t = "t\<lparr>ansi_count := c\<rparr>"
  have t: "ansi_ok w h ?t" "buffer_short (ebuf ?t)" using assms(2,3) p(2) by (simp_all add: ansi_scan_ok_def)
  have "ansi_step w h t (ansi_unknown b ?t)" "ansi_step w h t (ansi_done (on_screen (f i) ?t))"
    using ansi_unknown_safe [OF t, of b] ansi_screen_safe [OF assms(1) t(1), of i] safe_step_cong [of ?t t] by simp_all
  with p show ?thesis by (simp add: ansi_number_def Let_def)
qed

lemma ansi_sgr_safe:
  assumes "ansi_ok w h t" "buffer_short (ebuf t)"
  shows "ansi_step w h t (ansi_sgr b t)"
proof -
  obtain ok a c where p: "ansi_color (ansi_attributes t) (ansi_count t) t = Inr (ok, a, c)" "c < EMUL_BUFFER_SIZE"
    using ansi_color_ok [OF assms(2), of "ansi_count t" "ansi_attributes t"] assms(1)
    by (auto simp: total_res_iff ansi_scan_ok_def)
  let ?t = "t\<lparr>ansi_attributes := a, ansi_count := c\<rparr>"
  have t: "ansi_ok w h ?t" "buffer_short (ebuf ?t)" using assms p(2) by (simp_all add: ansi_scan_ok_def)
  have "ansi_step w h t (ansi_unknown b ?t)"
    using ansi_unknown_safe [OF t, of b] safe_step_cong [of ?t t] by simp
  moreover have "ansi_step w h t (ansi_done (Inr (set_color_of a ?t)))"
    using t(1) by (intro ansi_done_safe) (simp add: set_color_of_def ansi_scan_ok_def)
  ultimately show ?thesis using p(1) by (simp add: ansi_sgr_def Let_def)
qed

lemma ansi_position_keeps: "keeps_sequence w h ansi_position"
  unfolding keeps_sequence_def
proof (intro allI impI)
  fix t assume t: "ansi_ok w h t" "buffer_short (ebuf t)"
  then obtain r c where p: "position_loop (ebuf t) (-1) (-1) (ansi_count t) = Inr (r, c)"
    "c < EMUL_BUFFER_SIZE" "\<forall>x y. r = Some (x, y) \<longrightarrow> 0 \<le> x \<and> 0 \<le> y"
    using position_loop_ok [OF t(2), of "ansi_count t"] by (auto simp: total_res_iff ansi_scan_ok_def)
  have at: "total_res (screen_ok Q_EMUL_ANSI w h w) (cursor_position x y (scr t))" if "r = Some (x, y)" for x y
    using position_safe [of x y Q_EMUL_ANSI w h] p(3) t(1) that by simp
  show "total_res (\<lambda>(r, t'). ansi_ok w h t' \<and> ebuf t' = ebuf t) (ansi_position t)"
  proof (cases r)
    case None
    with p t show ?thesis by (simp add: ansi_position_def ansi_scan_ok_def Let_def)
  next
    case (Some xy)
    then obtain x y where xy: "r = Some (x, y)" by (cases xy) simp
    with p(1,2) t at [OF xy] show ?thesis
      by (auto simp: ansi_position_def Let_def ansi_scan_ok_def elim!: total_res_mono)
  qed
qed

lemma commands_keep_sequence:
  assumes "80 \<le> w" "w \<le> 255"
  shows "keeps_sequence w h ansi_dch" "keeps_sequence w h ansi_il" "keeps_sequence w h ansi_dl"
    "keeps_sequence w h ansi_vpa" "keeps_sequence w h ansi_cha" "keeps_sequence w h ansi_cht"
    "keeps_sequence w h ansi_rep" "keeps_sequence w h (ansi_set_mode on)"
proof -
  have e: "\<not> vt100_like Q_EMUL_ANSI" by (simp add: vt100_like_def)
  note of = screen_parameter_keeps
  show "keeps_sequence w h ansi_dch"
    unfolding ansi_dch_def [abs_def] by (rule of, simp, rule delete_character_safe [OF assms(2)])
  show "keeps_sequence w h ansi_il"
    unfolding ansi_il_def [abs_def] by (rule of, simp, erule scroll_safe(1))
  show "keeps_sequence w h ansi_dl"
    unfolding ansi_dl_def [abs_def] by (rule of, simp, erule scroll_safe(2))
  show "keeps_sequence w h ansi_vpa"
    unfolding ansi_vpa_def [abs_def] by (rule of, simp, erule go_to_safe(1))
  show "keeps_sequence w h ansi_cha"
    unfolding ansi_cha_def [abs_def] by (rule of, simp, erule go_to_safe(2))
  show "keeps_sequence w h ansi_cht"
    unfolding ansi_cht_def [abs_def]
    by (rule of, simp, rule repeat_safe, rule print_tab_safe) (use assms in auto)
  show "keeps_sequence w h ansi_rep"
    unfolding ansi_rep_def [abs_def]
    by (rule of, simp, rule repeat_safe, rule print_safe, rule e)
  show "keeps_sequence w h (ansi_set_mode on)"
    unfolding ansi_set_mode_def [abs_def]
    by (rule with_parameter_keeps) (auto simp: ansi_scan_ok_def)
qed

lemma ansi_counted_safe:
  assumes "ansi_ok w h t" "buffer_short (ebuf t)" "b \<noteq> 0x40" "80 \<le> w" "w \<le> 255"
  shows "ansi_step w h t (ansi_counted b t)"
proof -
  note commands = ansi_try_safe [OF _ assms(1,2)]
  note number = ansi_number_safe [OF _ assms(1,2)]
  have stay: "ansi_step w h t (ansi_done (Inr t))" "ansi_step w h t (ansi_done (Inr (ansi_report t)))"
    using assms(1) by (auto intro!: ansi_stay_safe simp: ansi_report_def qodem_write_def ansi_scan_ok_def)
  show ?thesis
    using assms(3) stay ansi_collect_safe [OF assms(1,2)] ansi_unknown_safe [OF assms(1,2)] ansi_sgr_safe [OF assms(1,2)]
      commands [OF ansi_position_keeps] commands_keep_sequence [OF assms(4,5), THEN commands]
      number [OF cursor_safe(1)] number [OF cursor_safe(2)] number [OF cursor_safe(3)] number [OF cursor_safe(4)]
      number [OF erase_part_safe(1) [OF assms(5)]] number [OF erase_part_safe(2) [OF assms(5)]]
    by (simp add: ansi_counted_def)
qed

lemma ansi_counts_safe:
  assumes "ansi_ok w h t" "buffer_short (ebuf t)"
  shows "ansi_step w h t (ansi_count_two b t)" "ansi_step w h t (ansi_count_many b t)"
  using ansi_collect_safe [OF assms] ansi_unknown_safe [OF assms] ansi_sgr_safe [OF assms]
    ansi_try_safe [OF ansi_position_keeps assms]
  by (simp_all add: ansi_count_two_def ansi_count_many_def)

lemma ansi_music_byte_safe:
  assumes "ansi_ok w h t" "buffer_short (ebuf t)" "ansi_scan t = A_SCAN_MUSIC"
  shows "ansi_step w h t (ansi_music_byte b t)"
proof -
  have n: "music_buffer_n t < ANSI_MUSIC_BUFFER_SIZE" using assms(1,3) by (simp add: ansi_scan_ok_def)
  let ?t = "t\<lparr>music_buffer := (music_buffer t)[music_buffer_n t := b], music_buffer_n := music_buffer_n t + 1\<rparr>"
  have "ansi_step w h t (ansi_done (Inr t))" using assms(1) by (intro ansi_stay_safe) simp_all
  moreover have "ansi_step w h t (ansi_done (Inr ?t))"
    using assms(1) by (simp add: safe_step_def ansi_done_def ansi_clear_state_def ansi_scan_ok_def after_empty)
  moreover have "ansi_step w h t (Inr (NO_CHAR_YET, ?t))" if "\<not> ANSI_MUSIC_BUFFER_SIZE \<le> music_buffer_n t + 1"
    using assms(1,2) that by (simp add: safe_step_def ansi_scan_ok_def after_same)
  ultimately show ?thesis using n by (simp add: ansi_music_byte_def Let_def)
qed

lemma ansi_safe:
  assumes "ansi_ok w h t" "buffer_short (ebuf t)" "b \<noteq> 0x40" "80 < w \<or> b \<noteq> 9" "80 \<le> w" "w \<le> 255"
  shows "ansi_step w h t (ansi b t)"
  using ansi_none_safe [OF assms(1,2,4)] ansi_esc_safe [OF assms(1,2)] ansi_start_sequence_safe [OF assms(1-3,5,6)]
    ansi_counted_safe [OF assms(1-3,5,6)] ansi_counts_safe [OF assms(1,2)] ansi_music_byte_safe [OF assms(1,2)]
  by (simp add: ansi_def split: ansi_scan_state.split)

interpretation ansi: safe_emulation Q_EMUL_ANSI w h ansi "harmless Q_EMUL_ANSI w" ansi_scan_ok
  by unfold_locales
     (auto simp: harmless_def emulate_def own_line_ends_def vt100_like_def ansi_scan_ok_def intro!: ansi_safe)

section \<open>The three emulations\<close>




section \<open>Examples\<close>







text \<open>The bytes that are left out.\<close>

lemma insert_blanks_overflows:
  assumes "screen_ok e w h m s" "256 < cursor_x s + n"
  shows "insert_blanks n s = Inl Buffer_overflow"
proof -
  obtain l where "get_line s (current s) = Inr l" using current_line [OF assms(1)] .
  with assms(2) show ?thesis
    by (simp add: insert_blanks_def on_current_def on_line_def Let_def move_cells_def copy_cells_def
        in_range_def Q_MAX_LINE_LENGTH_def)
qed

lemma vt52_tab_hangs:
  assumes "screen_ok e 80 h m s" "cursor_x s = 79"
  shows "vt52_tab s = Inl Diverges"
proof -
  obtain s' where "cursor_right 1 False s = Inr s'" "cursor_x s' = 79"
    using cursor_right_once_ok [OF assms(1)] assms(2) by (auto simp: total_res_iff)
  with assms(2) show ?thesis by (simp add: vt52_tab_def tab_loop.simps [of 80] c_rem_def c_quot_def)
qed

text \<open>All the blanks of an insertion go into the cell of the cursor.\<close>

lemma blanks_in_one_cell:
  "repeat_res k (blank_once x a) l = Inr l' \<Longrightarrow> j \<noteq> nat x \<Longrightarrow> chars l' ! j = chars l ! j"
  by (induction k arbitrary: l) (auto simp: blank_once_def put_cell_def bind_res_Inr split: if_splits)

lemma insert_blanks_keeps_cells:
  assumes "screen_ok e w h m s" "insert_blanks n s = Inr s'" "get_line s (current s) = Inr l"
    and "0 < k" "k < n"
  shows "\<exists>l'. get_line s' (current s) = Inr l' \<and> chars l' ! nat (cursor_x s + k) = chars l ! nat (cursor_x s + k)"
proof -
  let ?x = "cursor_x s" and ?c = "chars l" and ?n = "256 - cursor_x s - n"
  have p: "linked s (current s)" using assms(1) by (rule screen_ok_linked)
  have ok: "line_ok m l" using current_line [OF assms(1)] assms(3) by force
  have x: "0 \<le> ?x" "?x < 256" using screen_ok_frame [OF assms(1)] by (auto simp: frame_ok_def)
  obtain l1 l2 where l: "move_cells (?x + n) ?x ?n l = Inr l1"
    "repeat_res (nat n) (blank_once ?x (current_color s)) l1 = Inr l2"
    "s' = put_line (current s) (l2\<lparr>dirty := True\<rparr>) s"
    using assms(2,3) by (auto simp: insert_blanks_def on_current_def on_line_def Let_def bind_res_Inr Q_MAX_LINE_LENGTH_def)
  have "chars l2 ! nat (?x + k) = chars l1 ! nat (?x + k)"
    using blanks_in_one_cell [OF l(2)] x assms(4) by (simp add: nat_eq_iff)
  moreover have "chars l1 ! nat (?x + k) = ?c ! nat (?x + k)"
  proof -
    have "nat (?x + k) < nat (?x + n)" "nat (?x + n) \<le> 256" using l(1) x assms(4,5)
      by (auto simp: move_cells_def copy_cells_def in_range_def Q_MAX_LINE_LENGTH_def split: if_splits)
    then show ?thesis
      using l(1) ok by (auto simp: move_cells_def copy_cells_def blit_def nth_append line_ok_def
          Q_MAX_LINE_LENGTH_def split: if_splits)
  qed
  moreover have "get_line s' (current s) = Inr (l2\<lparr>dirty := True\<rparr>)"
    using l(3) p linked_index [OF p] by (simp add: get_line_def put_line_def linked_def last_no_def)
  ultimately show ?thesis by simp
qed

text \<open>The underscore of the TTY moves the cursor out of a full line.\<close>

lemma tty_underscore_leaves_screen:
  assumes "screen_ok Q_EMUL_TTY w h m (scr t)" "cursor_x (scr t) = w - 1"
    and "get_line (scr t) (current (scr t)) = Inr l" "chars l ! nat (w - 1) \<noteq> 32"
  shows "\<exists>t'. tty 0x5F t = Inr (NO_CHAR_YET, t') \<and> cursor_x (scr t') = w"
proof -
  have f: "frame_ok Q_EMUL_TTY w h m (scr t)" using assms(1) by (rule screen_ok_frame)
  then have w: "in_line (w - 1)" using frame_okD(2-4) [OF f] by (simp add: in_line_def Q_MAX_LINE_LENGTH_def)
  with assms f show ?thesis
    by (auto simp: tty_def Let_def frame_okD(5) [OF f] char_at_def on_screen_def on_current_def on_line_def
        underline_cell_def color_at_def set_color_def put_line_def)
qed

end
