(* ===== verification/Spec2Isabelle.thy ===== *)
theory Spec2Isabelle
  imports Xmodem_Link Xmodem_Strip Xmodem_Behaviour Ymodem_Header Xmodem_Invariant
    Ascii_Transfer Crc32_Table Rle_File Plink_Rle Plink_Crc Zmodem_Recovery Kermit_Negotiation Kermit_Delivery Translate
    Term_Ansi_Safety
begin

text \<open>
  File transfer code of the repository, modelled and verified.

  The repository collects DOS and Unix communication programs; the largest is the terminal program
  qodem (\<open>src/qodem/source\<close>), whose core logic is its file transfer protocols and its terminal
  emulations. The development models the transfer dispatcher, the ASCII protocol, all of Xmodem and
  Ymodem, all of Zmodem and all of Kermit; code pages and translation tables; three emulations with
  the scrollback they write to; and, from the smaller programs, the run length coders and the CRCs.

  How the parts work together. \<open>protocols.c\<close> keeps the progress statistics and passes what the
  network delivers to the handler of the chosen protocol (\<open>protocol_process_data\<close>); a handler
  reads its input, appends to the output buffer, and reads and writes one file. It ends a transfer
  by calling back \<open>stop_file_transfer\<close>. \<open>xmodem.c\<close> is one such handler, with a state machine for
  each direction and a buffer of one block. \<open>zmodem.c\<close> is another, with two larger state machines,
  a layer of headers and escaped data subpackets below them, and its own copy of the helpers that
  keep the statistics. \<open>kermit.c\<close> is the third: packets of quoted text, parameters negotiated by the
  two ends, a window of packets in each direction, and a state machine for each direction.
  Outside a transfer the received bytes go to \<open>console_process_incoming_data\<close> (\<open>console.c\<close>), which
  translates them, passes them to \<open>terminal_emulator\<close> and prints what it returns through the
  functions of \<open>scrollback.c\<close>.

  Theories.
  \<^item> \<open>Prelude\<close>: C integers, faults, the early \<open>return\<close> of C functions (\<open>ctl\<close>), array segments,
    C strings and numbers in text. \<open>Stdio\<close>: files and the file system (\<open>stdio\<close>, \<open>ftruncate\<close>,
    \<open>utime\<close>, \<open>basename\<close>).
  \<^item> \<open>Transfer_World\<close>: the static variables of \<open>protocols.c\<close> and \<open>xmodem.c\<close> as the record \<open>xfer\<close>
    and the functions of both files that end a transfer.
  \<^item> \<open>Xmodem_Base\<close>, \<open>Xmodem_Crc\<close>, \<open>Xmodem_Block\<close>, \<open>Xmodem_Receive\<close>, \<open>Xmodem_Send\<close>,
    \<open>Xmodem_Session\<close>: \<open>xmodem.c\<close> from top to bottom; one definition per section of the two long
    handlers, composed in the order of the code.
  \<^item> \<open>Xmodem_Frame\<close>: a block as a list of bytes, and \<open>construct_block\<close> and \<open>verify_block\<close> against
    it. \<open>Xmodem_Invariant\<close>: the buffer stays in its bounds and the input loop ends, through the
    locale \<open>input_handler\<close> interpreted on both handlers. \<open>Xmodem_Link\<close>: both ends together over a
    link. \<open>Xmodem_Strip\<close>: the end of a file. \<open>Xmodem_Behaviour\<close>: damaged, repeated, split and
    missing blocks, cancelling, timeouts. \<open>Ymodem_Header\<close>: block 0.
  \<^item> \<open>Protocols\<close>, \<open>Ascii_Transfer\<close>: \<open>protocols.c\<close> and what its ASCII transfers do.
  \<^item> \<open>Crc_Register\<close>: CRC shift registers in both bit orders, the locale \<open>crc_register\<close> with the
    detection of error bursts, and the table method; interpreted on \<open>calcrc\<close>, on \<open>CRC32.c\<close>
    (\<open>Crc32_Table\<close>) and on \<open>PLINKCRC.C\<close> (\<open>Plink_Crc\<close>).
  \<^item> \<open>Codec\<close>: the round-trip law as a locale, interpreted on \<open>RLE/src/rle.c\<close> (\<open>Rle_File\<close>) and on
    \<open>PLINKRLE.C\<close> (\<open>Plink_Rle\<close>).
  \<^item> \<open>Zmodem_Base\<close>, \<open>Zmodem_Codec\<close>, \<open>Zmodem_Packet\<close>, \<open>Zmodem_Receive\<close>, \<open>Zmodem_Send\<close>,
    \<open>Zmodem_Session\<close>: \<open>zmodem.c\<close> from top to bottom. The record \<open>zmodem\<close> holds its static variables
    and, as the field \<open>world\<close>, the record \<open>xfer\<close> of the dispatcher; a state's function returns
    whether the loop is to be left and the new state. \<open>zmodem_process\<close> is the function \<open>zmodem\<close>.
  \<^item> \<open>Zmodem_Crc\<close>: the table of \<open>makecrc\<close>. \<open>Zmodem_Escape\<close>: the escaping of bytes as a codec for
    streams (the locale \<open>stream_codec\<close>, interpreted as \<open>zescape\<close>). \<open>Zmodem_Delivery\<close>: subpackets
    from the sender's encoder to the receiver's file. \<open>Zmodem_Header\<close>: headers from \<open>build_packet\<close>
    to \<open>parse_packet\<close>. \<open>Zmodem_Faults\<close>, \<open>Zmodem_Exchange\<close>: what damaged headers, ZNAK, ZSINIT and
    late XONs lead to. \<open>Zmodem_Recovery\<close>: the CRC of a file for crash recovery.
  \<^item> \<open>Kermit_Base\<close>, \<open>Kermit_Codec\<close>, \<open>Kermit_File\<close>, \<open>Kermit_Window\<close>, \<open>Kermit_Packet\<close>,
    \<open>Kermit_States\<close>, \<open>Kermit_Session\<close>: \<open>kermit.c\<close>. The record \<open>kermit\<close> holds its static variables,
    the options it reads, and as the field \<open>kworld\<close> the record \<open>xfer\<close>; \<open>kermit_process\<close> is the
    function \<open>kermit\<close>. The local time of a time and back (\<open>localtime\<close>, \<open>mktime\<close>) are fields of the
    record, so that theorems hold in every time zone; \<open>strptime\<close> is that of the GNU C library.
  \<^item> \<open>Kermit_Quote\<close>: what the sender's \<open>encode_data_field\<close> makes of a file and what the receiver's
    \<open>decode_data_field\<close> makes of that, for every combination of the three prefixes.
    \<open>Kermit_Check\<close>: the three checks of a packet; the CRC is an instance of \<open>crc_register\<close>.
    \<open>Kermit_Link\<close>: packets as bytes on the line, from \<open>encode_output_packet\<close> to
    \<open>decode_input_bytes\<close>. \<open>Kermit_Negotiation\<close>: two ends from \<open>kermit_start\<close> through Send-Init and its answer to one
    common session. \<open>Kermit_Ring\<close>: the receiver's window, a ring of slots, as the list of the
    slots in use; the locale \<open>bounded_queue\<close> states what its two operations (append a slot, take
    the first) promise and is interpreted on the model of the window, and the invariant of the
    window rests on it. \<open>Kermit_Delivery\<close>: the window and the file behind it refine one stream of
    bytes, as long as no packet is lost; and what happens to the file after a loss.
  \<^item> \<open>Codepage_Tables\<close>, \<open>Codepage\<close>: \<open>codepage.c\<close>, the tables of the 8-bit codepages, the mapping
    of a byte to a code point and back, and the names. \<open>Translate\<close>: \<open>translate.c\<close>, the translation
    tables between line and screen and the file that holds the 8-bit ones.
  \<^item> \<open>Term_Line\<close>, \<open>Term_Screen\<close>: \<open>scrollback.c\<close>. The record \<open>screen\<close> holds the linked list of lines
    as a list, pointers into it as numbers of lines, and the fields of \<open>q_status\<close> the functions
    read. \<open>Term_Emulator\<close>: the shared part of \<open>emulation.c\<close>, with the TTY; the record \<open>terminal\<close>
    holds the screen, the sequence buffer and the static variables of the emulations.
    \<open>Term_Vt52\<close>, \<open>Term_Ansi\<close>: \<open>vt52.c\<close> and \<open>ansi.c\<close>, one definition per scan state.
    \<open>Term_Console\<close>: \<open>terminal_emulator\<close> and the loop of \<open>console.c\<close>; the emulations that are not
    modelled are its parameter.
  \<^item> \<open>Term_Invariant\<close>, \<open>Term_Cursor\<close>: the invariant \<open>screen_ok\<close> of the screen and that every
    operation keeps it without a fault. \<open>Term_Contract\<close>: the locale \<open>safe_emulation\<close>, what an
    emulation owes to the console, and that the console then takes any stream of bytes.
    \<open>Term_Safety\<close>, \<open>Term_Ansi_Safety\<close>: its interpretation on \<open>vt52\<close>, \<open>tty\<close> and \<open>ansi\<close>, and what the
    bytes do that the interpretations leave out.
  \<^item> \<open>Samples\<close>: concrete states for the examples.

  Errors and faults. What C leaves undefined or what stops the program (a failed \<open>assert\<close>, a null
  \<open>FILE\<close>, a write outside an array, an uninitialised variable, a loop that never ends) is a value of
  \<open>fault\<close>; theorems that a result is \<open>Inr\<close> say that none of them happens.

  Bounds. No definition uses fuel: loops are structural, have a measure (a tab ends because a step
  that does not move the cursor is the fault \<open>Diverges\<close>), or (the loop that strips
  SUBs, the input loop, the loop of the console over the characters of a sequence, the loops over the states of Zmodem and Kermit, the main loop of \<open>kermit\<close> and
  the searches for a free file name) are \<open>partial_function\<close>s whose value \<open>None\<close> is not returning; their callers turn it into
  the fault \<open>Diverges\<close>. The two
  ends of a link run for a given number of rounds; \<open>xmodem_transfer\<close> says that some number is
  enough.

  Not modelled: debug logging, message boxes and the progress screen. The handlers of Kermit, Zmodem
  and the console are parameters of the dispatcher, so that it does not depend on their state. The console is modelled with the autostart of
  transfers, the capture file and scripts off. The VT100 family, Avatar, PETSCII and ATASCII are not
  modelled. The other programs of the repository and the rest of qodem
  are screen output, system calls or vendored libraries, or not reached yet.
\<close>

end
